(* ===== verification/Prelude.thy ===== *)
theory Prelude
  imports Main "HOL-Library.Sublist"
begin

text \<open>
  Shared vocabulary of the development: fallible results (an exception of the
  source is the left summand), database tables as lists of rows with the Prisma
  queries the services issue on them, decimal strings with the conversions
  \<open>BigInt(text)\<close> and \<open>toString()\<close>, and the few string operations of the language
  the services use. The named collections \<open>result_simps\<close>, \<open>table_simps\<close> and
  \<open>decimal_simps\<close> carry the proofs of the component theories.
\<close>

named_theorems result_simps \<open>unfolding of fallible computations\<close>
named_theorems table_simps \<open>queries and updates of tables\<close>
named_theorems decimal_simps \<open>decimal strings and the numbers they denote\<close>

type_synonym uuid = string
type_synonym instant = int
  \<comment> \<open>milliseconds since the epoch, as \<open>Date.getTime()\<close>\<close>

section \<open>Fallible computations\<close>

definition rbind :: "'e + 'a \<Rightarrow> ('a \<Rightarrow> 'e + 'b) \<Rightarrow> 'e + 'b" where
  "rbind m f = (case m of Inl e \<Rightarrow> Inl e | Inr x \<Rightarrow> f x)"

definition require :: "bool \<Rightarrow> 'e \<Rightarrow> 'e + unit" where
  "require b e = (if b then Inr () else Inl e)"

definition of_option :: "'e \<Rightarrow> 'a option \<Rightarrow> 'e + 'a" where
  "of_option e m = (case m of None \<Rightarrow> Inl e | Some x \<Rightarrow> Inr x)"

definition is_ok :: "'e + 'a \<Rightarrow> bool" where
  "is_ok m = (case m of Inl _ \<Rightarrow> False | Inr _ \<Rightarrow> True)"

lemma rbind_simps [simp]:
  "rbind (Inl e) f = Inl e"
  "rbind (Inr x) f = f x"
  by (simp_all add: rbind_def)

lemma rbind_eq_Inr [result_simps]:
  "rbind m f = Inr y \<longleftrightarrow> (\<exists>x. m = Inr x \<and> f x = Inr y)"
  by (cases m) simp_all

lemma rbind_eq_Inl [result_simps]:
  "rbind m f = Inl e \<longleftrightarrow> m = Inl e \<or> (\<exists>x. m = Inr x \<and> f x = Inl e)"
  by (cases m) simp_all

lemma require_eq_Inr [result_simps]: "require b e = Inr u \<longleftrightarrow> b"
  by (simp add: require_def)

lemma require_eq_Inl [result_simps]: "require b e = Inl e' \<longleftrightarrow> \<not> b \<and> e' = e"
  by (auto simp: require_def)

lemma require_simps [simp]:
  "require True e = Inr ()"
  "require False e = Inl e"
  by (simp_all add: require_def)

lemma of_option_simps [simp]:
  "of_option e None = Inl e"
  "of_option e (Some x) = Inr x"
  by (simp_all add: of_option_def)

lemma of_option_eq_Inr [result_simps]: "of_option e m = Inr x \<longleftrightarrow> m = Some x"
  by (cases m) simp_all

lemma is_ok_simps [simp]: "\<not> is_ok (Inl e)" "is_ok (Inr x)"
  by (simp_all add: is_ok_def)

section \<open>Tables\<close>

text \<open>
  A table is the list of its rows. \<open>findUnique\<close>/\<open>findFirst\<close> is \<^const>\<open>List.find\<close>,
  \<open>updateMany\<close> rewrites the rows that match and reports how many did,
  \<open>count\<close> counts them.
\<close>

definition update_many :: "('r \<Rightarrow> bool) \<Rightarrow> ('r \<Rightarrow> 'r) \<Rightarrow> 'r list \<Rightarrow> 'r list" where
  "update_many P f rs = map (\<lambda>r. if P r then f r else r) rs"

definition count_where :: "('r \<Rightarrow> bool) \<Rightarrow> 'r list \<Rightarrow> nat" where
  "count_where P rs = length (filter P rs)"

lemma update_many_simps [simp]:
  "update_many P f [] = []"
  "update_many P f (r # rs) = (if P r then f r else r) # update_many P f rs"
  by (simp_all add: update_many_def)

lemma count_where_simps [simp]:
  "count_where P [] = 0"
  "count_where P (r # rs) = (if P r then Suc (count_where P rs) else count_where P rs)"
  by (simp_all add: count_where_def)

lemma update_many_append [table_simps]: "update_many P f (xs @ ys) = update_many P f xs @ update_many P f ys"
  by (simp add: update_many_def)

lemma length_update_many [simp]: "length (update_many P f rs) = length rs"
  by (simp add: update_many_def)

lemma count_where_eq_0 [table_simps]: "count_where P rs = 0 \<longleftrightarrow> (\<forall>r \<in> set rs. \<not> P r)"
  by (auto simp: count_where_def filter_empty_conv)

lemma count_where_pos [table_simps]: "0 < count_where P rs \<longleftrightarrow> (\<exists>r \<in> set rs. P r)"
  by (auto simp: count_where_def filter_empty_conv)

lemma set_update_many:
  "set (update_many P f rs) = {r \<in> set rs. \<not> P r} \<union> f ` {r \<in> set rs. P r}"
  by (auto simp: update_many_def)

lemma mem_update_many [table_simps]:
  "x \<in> set (update_many P f rs) \<longleftrightarrow>
     (\<exists>r \<in> set rs. x = (if P r then f r else r))"
  by (auto simp: update_many_def)

lemma update_many_none [table_simps]: "(\<forall>r \<in> set rs. \<not> P r) \<Longrightarrow> update_many P f rs = rs"
  by (induction rs) auto

lemma map_update_many_inv [table_simps]:
  "(\<And>r. k (f r) = k r) \<Longrightarrow> map k (update_many P f rs) = map k rs"
  by (induction rs) auto

lemma find_Some_D: "List.find P rs = Some r \<Longrightarrow> r \<in> set rs \<and> P r"
  by (induction rs) (auto split: if_splits)

lemma find_None_iff_all: "List.find P rs = None \<longleftrightarrow> (\<forall>r \<in> set rs. \<not> P r)"
  by (induction rs) auto

lemma find_app:
  "List.find P (xs @ ys) = (case List.find P xs of Some x \<Rightarrow> Some x | None \<Rightarrow> List.find P ys)"
  by (induction xs) auto

lemma find_key_eq:
  "distinct (map key rs) \<Longrightarrow> r \<in> set rs \<Longrightarrow>
   List.find (\<lambda>x. key x = key r) rs = Some r"
  by (induction rs) (auto simp: rev_image_eqI)

lemma distinct_key_inj:
  "distinct (map key rs) \<Longrightarrow> r \<in> set rs \<Longrightarrow> r' \<in> set rs \<Longrightarrow> key r = key r' \<Longrightarrow> r = r'"
  by (induction rs) (auto simp: rev_image_eqI)

lemma find_update_many_key:
  "(\<And>r. key (f r) = key r) \<Longrightarrow>
   List.find (\<lambda>x. key x = k) (update_many (\<lambda>x. key x = k') f rs) =
     (if k = k' then map_option f (List.find (\<lambda>x. key x = k) rs)
      else List.find (\<lambda>x. key x = k) rs)"
  by (induction rs) auto

lemma sum_list_update_many_other:
  fixes f :: "'r \<Rightarrow> int"
  assumes "\<forall>r \<in> set rs. P r \<longrightarrow> f (g r) = f r"
  shows "sum_list (map f (update_many P g rs)) = sum_list (map f rs)"
  using assms by (induction rs) auto

lemma sum_list_update_one:
  fixes f :: "'r \<Rightarrow> int"
  assumes "distinct (map key rs)" and "r \<in> set rs"
  shows "sum_list (map f (update_many (\<lambda>x. key x = key r) g rs)) =
         sum_list (map f rs) - f r + f (g r)"
  using assms
proof (induction rs)
  case Nil
  then show ?case by simp
next
  case (Cons a rs)
  show ?case
  proof (cases "a = r")
    case True
    with Cons.prems(1) have "\<forall>x \<in> set rs. key x \<noteq> key r"
      by (metis distinct.simps(2) image_eqI list.set_map list.simps(9))
    then have "update_many (\<lambda>x. key x = key r) g rs = rs"
      by (rule update_many_none)
    with True show ?thesis by simp
  next
    case False
    with Cons.prems have "key a \<noteq> key r" and "r \<in> set rs" and "distinct (map key rs)"
      by force+
    with Cons.IH show ?thesis by simp
  qed
qed

lemma update_key_map [table_simps]:
  assumes "distinct (map key rs)" and "List.find (\<lambda>x. key x = k) rs = Some r" and "key (f r) = k"
  shows "map key (update_many (\<lambda>x. key x = k) f rs) = map key rs"
  using assms
proof (induction rs)
  case Nil
  then show ?case by simp
next
  case (Cons a rs)
  show ?case
  proof (cases "key a = k")
    case True
    with Cons.prems(1) have "\<forall>x \<in> set rs. key x \<noteq> k"
      by (metis distinct.simps(2) image_eqI list.set_map list.simps(9))
    then have "update_many (\<lambda>x. key x = k) f rs = rs" by (rule update_many_none)
    with True Cons.prems show ?thesis by simp
  next
    case False
    with Cons show ?thesis by simp
  qed
qed

lemma mem_update_key:
  assumes "distinct (map key rs)" and "List.find (\<lambda>x. key x = k) rs = Some r"
  shows "x \<in> set (update_many (\<lambda>x. key x = k) f rs) \<longleftrightarrow> x = f r \<or> x \<in> set rs \<and> key x \<noteq> k"
proof -
  have r: "r \<in> set rs" "key r = k" using find_Some_D [OF assms(2)] by auto
  have other: "y = r" if "y \<in> set rs" "key y = k" for y
    using distinct_key_inj [OF assms(1), of y r] that r by simp
  show ?thesis
  proof
    assume "x \<in> set (update_many (\<lambda>x. key x = k) f rs)"
    then obtain y where y: "y \<in> set rs" "x = (if key y = k then f y else y)"
      unfolding mem_update_many by blast
    with other show "x = f r \<or> x \<in> set rs \<and> key x \<noteq> k" by (cases "key y = k") auto
  next
    assume "x = f r \<or> x \<in> set rs \<and> key x \<noteq> k"
    with r show "x \<in> set (update_many (\<lambda>x. key x = k) f rs)"
      unfolding mem_update_many by metis
  qed
qed

lemma sum_list_update_key:
  fixes f :: "'r \<Rightarrow> int"
  assumes "distinct (map key rs)" and "List.find (\<lambda>x. key x = k) rs = Some r"
  shows "sum_list (map f (update_many (\<lambda>x. key x = k) g rs)) = sum_list (map f rs) - f r + f (g r)"
  using sum_list_update_one [OF assms(1), of r f g] find_Some_D [OF assms(2)] by simp

section \<open>Decimal strings\<close>

definition is_digit :: "char \<Rightarrow> bool" where
  "is_digit c \<longleftrightarrow> 48 \<le> (of_char c :: nat) \<and> (of_char c :: nat) \<le> 57"

definition digit_val :: "char \<Rightarrow> nat" where
  "digit_val c = of_char c - 48"

definition digit_char :: "nat \<Rightarrow> char" where
  "digit_char d = char_of (48 + d)"

definition dec_val :: "string \<Rightarrow> nat" where
  \<comment> \<open>\<open>BigInt(text)\<close> on a text of decimal digits\<close>
  "dec_val s = foldl (\<lambda>n c. 10 * n + digit_val c) 0 s"

fun show_nat :: "nat \<Rightarrow> string" where
  \<comment> \<open>\<open>value.toString()\<close> of a non-negative \<open>bigint\<close>\<close>
  "show_nat n = (if n < 10 then [digit_char n] else show_nat (n div 10) @ [digit_char (n mod 10)])"

declare show_nat.simps [simp del]

definition canonical_dec :: "string \<Rightarrow> bool" where
  \<comment> \<open>the pattern \<open>^(0|[1-9]\d*)$\<close>\<close>
  "canonical_dec s \<longleftrightarrow>
     s = ''0'' \<or> (s \<noteq> [] \<and> hd s \<noteq> CHR ''0'' \<and> list_all is_digit s)"

definition pad_start :: "nat \<Rightarrow> char \<Rightarrow> string \<Rightarrow> string" where
  "pad_start n c s = replicate (n - length s) c @ s"

definition pad_end :: "nat \<Rightarrow> char \<Rightarrow> string \<Rightarrow> string" where
  "pad_end n c s = s @ replicate (n - length s) c"

fun str_le :: "string \<Rightarrow> string \<Rightarrow> bool" where
  \<comment> \<open>\<open>left <= right\<close> on strings: by code units, from the left\<close>
  "str_le [] t = True"
| "str_le (c # s) [] = False"
| "str_le (c # s) (d # t) =
     ((of_char c :: nat) < of_char d \<or> c = d \<and> str_le s t)"

definition is_upper :: "char \<Rightarrow> bool" where
  \<comment> \<open>\<open>[A-Z]\<close>\<close>
  "is_upper c \<longleftrightarrow> 65 \<le> (of_char c :: nat) \<and> (of_char c :: nat) \<le> 90"

definition is_lower :: "char \<Rightarrow> bool" where
  \<comment> \<open>\<open>[a-z]\<close>\<close>
  "is_lower c \<longleftrightarrow> 97 \<le> (of_char c :: nat) \<and> (of_char c :: nat) \<le> 122"

definition js_space :: "char \<Rightarrow> bool" where
  "js_space c \<longleftrightarrow> (of_char c :: nat) \<in> {9, 10, 11, 12, 13, 32, 160}"

definition js_trim :: "string \<Rightarrow> string" where
  \<comment> \<open>\<open>text.trim()\<close>\<close>
  "js_trim s = rev (dropWhile js_space (rev (dropWhile js_space s)))"

definition to_upper_char :: "char \<Rightarrow> char" where
  "to_upper_char c = (if is_lower c then char_of ((of_char c :: nat) - 32) else c)"

definition js_upper :: "string \<Rightarrow> string" where
  \<comment> \<open>\<open>text.toUpperCase()\<close> on ASCII letters\<close>
  "js_upper s = map to_upper_char s"

definition to_lower_char :: "char \<Rightarrow> char" where
  "to_lower_char c = (if is_upper c then char_of ((of_char c :: nat) + 32) else c)"

definition js_lower :: "string \<Rightarrow> string" where
  \<comment> \<open>\<open>text.toLowerCase()\<close> on ASCII letters\<close>
  "js_lower s = map to_lower_char s"

definition before_dot :: "string \<Rightarrow> string" where
  "before_dot s = takeWhile (\<lambda>c. c \<noteq> CHR ''.'') s"

definition after_dot :: "string \<Rightarrow> string" where
  "after_dot s = drop (Suc (length (before_dot s))) s"

definition has_dot :: "string \<Rightarrow> bool" where
  "has_dot s \<longleftrightarrow> CHR ''.'' \<in> set s"

lemma digit_char_props [simp]:
  assumes "d < 10"
  shows "is_digit (digit_char d)" and "digit_val (digit_char d) = d"
  using assms by (simp_all add: is_digit_def digit_val_def digit_char_def)

lemma digit_char_val [simp]: "is_digit c \<Longrightarrow> digit_char (digit_val c) = c"
  by (simp add: is_digit_def digit_val_def digit_char_def)

lemma digit_val_less [simp]: "is_digit c \<Longrightarrow> digit_val c < 10"
  by (auto simp: is_digit_def digit_val_def)

lemma digit_val_eq_0:
  assumes "is_digit c"
  shows "digit_val c = 0 \<longleftrightarrow> c = CHR ''0''"
proof
  assume "digit_val c = 0"
  with assms have "digit_char 0 = c" by (metis digit_char_val)
  moreover have "digit_char 0 = CHR ''0''" unfolding digit_char_def by code_simp
  ultimately show "c = CHR ''0''" by simp
next
  assume "c = CHR ''0''"
  then show "digit_val c = 0" by (simp add: digit_val_def)
qed

lemma digit_char_eq_0: "d < 10 \<Longrightarrow> digit_char d = CHR ''0'' \<longleftrightarrow> d = 0"
  using digit_val_eq_0 [of "digit_char d"] by simp

lemma digit_char_table [decimal_simps]:
  "digit_char 0 = CHR ''0''" "digit_char 1 = CHR ''1''" "digit_char (Suc 0) = CHR ''1''"
  "digit_char 2 = CHR ''2''" "digit_char 3 = CHR ''3''" "digit_char 4 = CHR ''4''"
  "digit_char 5 = CHR ''5''" "digit_char 6 = CHR ''6''" "digit_char 7 = CHR ''7''"
  "digit_char 8 = CHR ''8''" "digit_char 9 = CHR ''9''"
  unfolding digit_char_def by code_simp+

lemma dec_val_Nil [simp]: "dec_val [] = 0"
  by (simp add: dec_val_def)

lemma dec_val_snoc [simp]: "dec_val (s @ [c]) = 10 * dec_val s + digit_val c"
  by (simp add: dec_val_def)

lemma dec_val_append [decimal_simps]: "dec_val (s @ t) = dec_val s * 10 ^ length t + dec_val t"
  by (induction t rule: rev_induct) (simp_all flip: append_assoc add: algebra_simps)

lemma dec_val_Cons [decimal_simps]: "dec_val (c # s) = digit_val c * 10 ^ length s + dec_val s"
  using dec_val_append [of "[c]" s] by (simp add: dec_val_def)

lemma dec_val_less: "list_all is_digit s \<Longrightarrow> dec_val s < 10 ^ length s"
proof (induction s rule: rev_induct)
  case Nil
  then show ?case by simp
next
  case (snoc c s)
  then have "dec_val s < 10 ^ length s" and "digit_val c < 10" by simp_all
  then show ?case by simp
qed

lemma dec_val_show_nat [simp]: "dec_val (show_nat n) = n"
proof (induction n rule: show_nat.induct)
  case (1 n)
  show ?case
  proof (cases "n < 10")
    case True
    then show ?thesis by (simp add: show_nat.simps [of n] dec_val_def)
  next
    case False
    with "1.IH" show ?thesis by (simp add: show_nat.simps [of n])
  qed
qed

lemma show_nat_digits [simp]: "list_all is_digit (show_nat n)"
proof (induction n rule: show_nat.induct)
  case (1 n)
  then show ?case by (subst show_nat.simps) simp
qed

lemma show_nat_nonempty [simp]: "show_nat n \<noteq> []"
  by (subst show_nat.simps) simp

lemma hd_show_nat: "0 < n \<Longrightarrow> hd (show_nat n) \<noteq> CHR ''0''"
proof (induction n rule: show_nat.induct)
  case (1 n)
  show ?case
  proof (cases "n < 10")
    case True
    with "1.prems" show ?thesis by (simp add: show_nat.simps [of n] digit_char_eq_0)
  next
    case False
    with "1.IH" show ?thesis by (simp add: show_nat.simps [of n])
  qed
qed

lemma show_nat_0: "show_nat 0 = ''0''"
  unfolding digit_char_def show_nat.simps [of 0] by code_simp

lemma canonical_dec_show_nat [simp]: "canonical_dec (show_nat n)"
  by (cases "n = 0") (simp_all add: canonical_dec_def show_nat_0 hd_show_nat)

lemma show_nat_inj [simp]: "show_nat m = show_nat n \<longleftrightarrow> m = n"
  by (metis dec_val_show_nat)

lemma dec_val_lower: "list_all is_digit s \<Longrightarrow> s \<noteq> [] \<Longrightarrow> hd s \<noteq> CHR ''0'' \<Longrightarrow>
    10 ^ (length s - 1) \<le> dec_val s"
proof (cases s)
  case (Cons c t)
  assume h: "list_all is_digit s" "s \<noteq> []" "hd s \<noteq> CHR ''0''"
  with Cons have "1 \<le> digit_val c" using digit_val_eq_0 [of c] by simp
  then have "10 ^ length t \<le> digit_val c * 10 ^ length t" by simp
  then have "10 ^ length t \<le> digit_val c * 10 ^ length t + dec_val t" by (rule trans_le_add1)
  with Cons show ?thesis by (simp add: dec_val_Cons)
qed simp

lemma canonical_dec_digits: "canonical_dec s \<Longrightarrow> list_all is_digit s \<and> s \<noteq> []"
  by (auto simp: canonical_dec_def is_digit_def)

lemma show_nat_dec_val_pos:
  "list_all is_digit s \<Longrightarrow> s \<noteq> [] \<Longrightarrow> hd s \<noteq> CHR ''0'' \<Longrightarrow> show_nat (dec_val s) = s"
proof (induction s rule: rev_induct)
  case Nil
  then show ?case by simp
next
  case (snoc c s)
  show ?case
  proof (cases "s = []")
    case True
    with snoc.prems show ?thesis by (simp add: show_nat.simps dec_val_def)
  next
    case False
    with snoc have IH: "show_nat (dec_val s) = s" and c: "is_digit c" and
      "10 ^ (length s - 1) \<le> dec_val s"
      using dec_val_lower [of s] by simp_all
    moreover from this have "1 \<le> dec_val s" by (meson one_le_numeral one_le_power order_trans)
    ultimately show ?thesis
      by (subst show_nat.simps) simp
  qed
qed

lemma show_nat_dec_val [simp]: "canonical_dec s \<Longrightarrow> show_nat (dec_val s) = s"
  by (auto simp: canonical_dec_def show_nat_dec_val_pos)
    (simp add: dec_val_def digit_val_def show_nat_0)

lemma dec_val_inj: "canonical_dec s \<Longrightarrow> canonical_dec t \<Longrightarrow> dec_val s = dec_val t \<longleftrightarrow> s = t"
  by (metis show_nat_dec_val)

lemma length_show_nat: "0 < k \<Longrightarrow> length (show_nat n) \<le> k \<longleftrightarrow> n < 10 ^ k"
proof
  assume k: "0 < k" and le: "length (show_nat n) \<le> k"
  have "n < 10 ^ length (show_nat n)"
    using dec_val_less [of "show_nat n"] by simp
  also have "\<dots> \<le> 10 ^ k" using le by simp
  finally show "n < 10 ^ k" .
next
  assume k: "0 < k" and lt: "n < 10 ^ k"
  show "length (show_nat n) \<le> k"
  proof (rule ccontr)
    assume "\<not> length (show_nat n) \<le> k"
    then have long: "k \<le> length (show_nat n) - 1" by simp
    have "n \<noteq> 0"
    proof
      assume "n = 0"
      with k long show False by (simp add: show_nat_0)
    qed
    then have "10 ^ (length (show_nat n) - 1) \<le> n"
      using dec_val_lower [of "show_nat n"] by (simp add: hd_show_nat)
    moreover have "10 ^ k \<le> (10::nat) ^ (length (show_nat n) - 1)" using long by simp
    ultimately show False using lt by linarith
  qed
qed

text \<open>On digit strings of one length the order of strings is the order of the numbers.\<close>

lemma str_le_dec_val:
  "list_all is_digit s \<Longrightarrow> list_all is_digit t \<Longrightarrow> length s = length t \<Longrightarrow>
   str_le s t \<longleftrightarrow> dec_val s \<le> dec_val t"
proof (induction s t rule: str_le.induct)
  case (1 t)
  then show ?case by simp
next
  case (2 c s)
  then show ?case by simp
next
  case (3 c s d t)
  then have IH: "str_le s t \<longleftrightarrow> dec_val s \<le> dec_val t" and len: "length s = length t" by auto
  have bs: "dec_val s < 10 ^ length t" and bt: "dec_val t < 10 ^ length t"
    using dec_val_less [of s] dec_val_less [of t] "3.prems" by auto
  have code: "(of_char c :: nat) < of_char d \<longleftrightarrow> digit_val c < digit_val d"
    using "3.prems" by (auto simp: is_digit_def digit_val_def)
  have same: "c = d \<longleftrightarrow> digit_val c = digit_val d"
    using "3.prems" by (metis digit_char_val list.pred_inject(2))
  consider "digit_val c < digit_val d" | "digit_val c = digit_val d" | "digit_val d < digit_val c"
    by linarith
  then show ?case
  proof cases
    case 1
    then have "(digit_val c + 1) * 10 ^ length t \<le> digit_val d * 10 ^ length t"
      by (intro mult_le_mono1) simp
    with 1 bs code show ?thesis by (simp add: dec_val_Cons len algebra_simps)
  next
    case 2
    with same code IH show ?thesis by (simp add: dec_val_Cons len)
  next
    case 3
    then have "(digit_val d + 1) * 10 ^ length t \<le> digit_val c * 10 ^ length t"
      by (intro mult_le_mono1) simp
    with 3 bt code same show ?thesis by (auto simp: dec_val_Cons len algebra_simps)
  qed
qed

lemma pad_props [simp]:
  "length (pad_start n c s) = max n (length s)"
  "length (pad_end n c s) = max n (length s)"
  by (simp_all add: pad_start_def pad_end_def)

lemma digit_val_0 [simp]: "digit_val CHR ''0'' = 0" "is_digit CHR ''0''"
  by (simp_all add: digit_val_def is_digit_def)

lemma dec_val_zeros [simp]: "dec_val (replicate n CHR ''0'') = 0"
  by (induction n) (simp_all add: dec_val_Cons)

lemma dec_val_pad_start [simp]: "dec_val (pad_start n CHR ''0'' s) = dec_val s"
  by (simp add: pad_start_def dec_val_append)

lemma digits_pad [simp]:
  "list_all is_digit (pad_start n CHR ''0'' s) \<longleftrightarrow> list_all is_digit s"
  "list_all is_digit (pad_end n CHR ''0'' s) \<longleftrightarrow> list_all is_digit s"
  by (auto simp: pad_start_def pad_end_def list_all_iff)

lemma dec_val_pad_end: "length s \<le> n \<Longrightarrow> dec_val (pad_end n CHR ''0'' s) = dec_val s * 10 ^ (n - length s)"
  by (simp add: pad_end_def dec_val_append)

lemma digit_not_dot: "is_digit c \<Longrightarrow> c \<noteq> CHR ''.''"
  by (auto simp: is_digit_def)

lemma digit_not_space: "is_digit c \<Longrightarrow> \<not> js_space c"
  by (auto simp: is_digit_def js_space_def)

lemma dot_split_append [simp]:
  assumes "list_all is_digit w"
  shows "before_dot (w @ CHR ''.'' # f) = w" and "after_dot (w @ CHR ''.'' # f) = f"
proof -
  show b: "before_dot (w @ CHR ''.'' # f) = w"
    using assms by (induction w) (auto simp: before_dot_def dest: digit_not_dot)
  show "after_dot (w @ CHR ''.'' # f) = f" by (simp add: after_dot_def b)
qed

lemma dot_split_digits [simp]:
  assumes "list_all is_digit w"
  shows "before_dot w = w" and "after_dot w = []" and "\<not> has_dot w"
proof -
  show b: "before_dot w = w"
    using assms by (induction w) (auto simp: before_dot_def dest: digit_not_dot)
  show "after_dot w = []" by (simp add: after_dot_def b)
  show "\<not> has_dot w" using assms by (auto simp: has_dot_def list_all_iff dest: digit_not_dot)
qed

lemma js_trim_fixed:
  assumes "s \<noteq> []" and "\<not> js_space (hd s)" and "\<not> js_space (last s)"
  shows "js_trim s = s"
proof -
  have "dropWhile js_space s = s" using assms(1,2) by (cases s) simp_all
  moreover have "dropWhile js_space (rev s) = rev s"
    using assms(1,3) by (cases "rev s") (simp_all add: last_rev flip: hd_rev)
  ultimately show ?thesis by (simp add: js_trim_def)
qed

section \<open>Exact representations of amounts\<close>

text \<open>
  Several parts of the program print an amount and read it back: the contract's
  canonical integer strings, the payment providers' two-decimal amounts, the
  browser's money inputs. Each promises the same: what is printed is read back
  as the same amount.
\<close>

locale amount_codec =
  fixes ok :: "nat \<Rightarrow> bool"
    and print_amount :: "nat \<Rightarrow> 'e + 'w"
    and read_amount :: "'w \<Rightarrow> 'e + nat"
  assumes read_print: "ok n \<Longrightarrow> \<exists>w. print_amount n = Inr w \<and> read_amount w = Inr n"
begin

lemma print_inj:
  assumes "ok m" and "ok n" and "print_amount m = print_amount n"
  shows "m = n"
proof -
  obtain w where "print_amount m = Inr w" "read_amount w = Inr m"
    using read_print [OF assms(1)] by blast
  moreover obtain v where "print_amount n = Inr v" "read_amount v = Inr n"
    using read_print [OF assms(2)] by blast
  ultimately show ?thesis using assms(3) by simp
qed

lemma roundtrip: "ok n \<Longrightarrow> rbind (print_amount n) read_amount = Inr n"
  using read_print [of n] by auto

end

end
