(* ===== verification/Money.thy ===== *)
theory Money
  imports Prelude
begin

text \<open>
  Money: the contract of \<^verbatim>\<open>packages/shared/src/contracts/money.ts\<close> (canonical
  minor-unit strings bounded by PostgreSQL's BIGINT), the exact currency
  arithmetic of \<^verbatim>\<open>packages/shared/src/currency-arithmetic.ts\<close> (ratios, decimal
  rates, conversion with half-even rounding), the payment providers' two-decimal
  amounts (\<^verbatim>\<open>payment-money.ts\<close>) and the browser's money inputs
  (\<^verbatim>\<open>money-input.ts\<close>). A value that reaches a Zod schema with the wrong shape is
  excluded by the type of the model; the checks of the schema on its strings and
  numbers are the predicates named after it.
\<close>

section \<open>The money contract\<close>

datatype money_error = Zod_Error | Range_Error string | Invalid_Money | Input_Error

definition POSTGRES_BIGINT_MAX :: int where
  "POSTGRES_BIGINT_MAX = 9223372036854775807"

definition POSTGRES_BIGINT_MAX_STRING :: string where
  "POSTGRES_BIGINT_MAX_STRING = ''9223372036854775807''"

definition fitsPostgresBigint :: "string \<Rightarrow> bool" where
  "fitsPostgresBigint v =
     (if \<not> canonical_dec v then False
      else length v < length POSTGRES_BIGINT_MAX_STRING \<or>
           (length v = length POSTGRES_BIGINT_MAX_STRING \<and> str_le v POSTGRES_BIGINT_MAX_STRING))"

definition currencyCodeSchema :: "string \<Rightarrow> bool" where
  "currencyCodeSchema s \<longleftrightarrow> length s = 3 \<and> list_all is_upper s"

definition minorUnitAmountSchema :: "string \<Rightarrow> bool" where
  "minorUnitAmountSchema s \<longleftrightarrow> canonical_dec s \<and> fitsPostgresBigint s"

record serialized_money =
  sm_amount :: string
  sm_currency :: string

record money_value =
  mv_amount :: int
  mv_currency :: string

definition moneySchema :: "serialized_money \<Rightarrow> bool" where
  "moneySchema m \<longleftrightarrow> minorUnitAmountSchema (sm_amount m) \<and> currencyCodeSchema (sm_currency m)"

definition bigint_to_string :: "int \<Rightarrow> string" where
  \<comment> \<open>\<open>amount.toString()\<close>\<close>
  "bigint_to_string i = (if i < 0 then CHR ''-'' # show_nat (nat (- i)) else show_nat (nat i))"

definition serializeMoney :: "int \<Rightarrow> string \<Rightarrow> money_error + serialized_money" where
  "serializeMoney amount currency =
     (let m = \<lparr>sm_amount = bigint_to_string amount, sm_currency = currency\<rparr>
      in if moneySchema m then Inr m else Inl Zod_Error)"

definition parseMoney :: "serialized_money \<Rightarrow> money_error + money_value" where
  "parseMoney v =
     (if moneySchema v
      then Inr \<lparr>mv_amount = int (dec_val (sm_amount v)), mv_currency = sm_currency v\<rparr>
      else Inl Zod_Error)"

section \<open>Units, ratios and rates\<close>

datatype unit_status = Unit_Current | Unit_Historical

record currency_unit =
  cu_code :: string
  cu_minorUnitExponent :: nat
  cu_metadataVersion :: string
  cu_provenance :: string
  cu_status :: unit_status

record exact_ratio =
  numerator :: string
  denominator :: string

record directed_rate = exact_ratio +
  sourceCurrency :: string
  targetCurrency :: string

record unit_reference =
  ur_code :: string
  ur_metadataVersion :: string

record conversion_input =
  ci_amount :: string
  ci_source :: unit_reference
  ci_target :: unit_reference
  ci_rate :: "directed_rate option"

datatype conversion_method = Identity_Method | Conversion_Method

record rounding =
  rd_quotient :: string
  rd_remainder :: string
  rd_divisor :: string
  rd_incremented :: bool

record conversion_result =
  cr_method :: conversion_method
  cr_source_money :: serialized_money
  cr_source_definition :: currency_unit
  cr_target_money :: serialized_money
  cr_target_definition :: currency_unit
  cr_rate :: "directed_rate option"
  cr_rounding :: rounding

definition limit_definitions :: nat where "limit_definitions = 32"
definition limit_minorUnitExponent :: nat where "limit_minorUnitExponent = 4"
definition limit_ratioDigits :: nat where "limit_ratioDigits = 96"
definition limit_decimalWholeDigits :: nat where "limit_decimalWholeDigits = 64"
definition limit_decimalFractionDigits :: nat where "limit_decimalFractionDigits = 32"
definition limit_decimalTokenLength :: nat where "limit_decimalTokenLength = 97"

lemmas limit_defs = limit_definitions_def limit_minorUnitExponent_def limit_ratioDigits_def
  limit_decimalWholeDigits_def limit_decimalFractionDigits_def limit_decimalTokenLength_def

definition version_start :: "char \<Rightarrow> bool" where
  "version_start c \<longleftrightarrow> is_upper c \<or> is_lower c \<or> is_digit c"

definition version_char :: "char \<Rightarrow> bool" where
  "version_char c \<longleftrightarrow> version_start c \<or> c \<in> set ''._:-''"

definition metadataVersionSchema :: "string \<Rightarrow> bool" where
  "metadataVersionSchema s \<longleftrightarrow>
     length s \<le> 64 \<and> s \<noteq> [] \<and> version_start (hd s) \<and> list_all version_char (tl s)"

definition boundedCurrencyCodeSchema :: "string \<Rightarrow> bool" where
  "boundedCurrencyCodeSchema s \<longleftrightarrow> length s = 3 \<and> currencyCodeSchema s"

definition boundedAmountSchema :: "string \<Rightarrow> bool" where
  "boundedAmountSchema s \<longleftrightarrow> length s \<le> 19 \<and> minorUnitAmountSchema s"

definition positiveRatioIntegerSchema :: "string \<Rightarrow> bool" where
  "positiveRatioIntegerSchema s \<longleftrightarrow>
     length s \<le> limit_ratioDigits \<and> s \<noteq> [] \<and> hd s \<noteq> CHR ''0'' \<and> list_all is_digit s"

definition decimalRateTokenSchema :: "string \<Rightarrow> bool" where
  "decimalRateTokenSchema s \<longleftrightarrow>
     length s \<le> limit_decimalTokenLength \<and> canonical_dec (before_dot s) \<and>
     (has_dot s \<longrightarrow> after_dot s \<noteq> [] \<and> list_all is_digit (after_dot s))"

definition printable :: "char \<Rightarrow> bool" where
  "printable c \<longleftrightarrow> 32 \<le> (of_char c :: nat) \<and> (of_char c :: nat) \<le> 126"

definition provenanceSchema :: "string \<Rightarrow> bool" where
  "provenanceSchema s \<longleftrightarrow>
     1 \<le> length s \<and> length s \<le> 256 \<and> list_all printable s \<and>
     hd s \<noteq> CHR '' '' \<and> last s \<noteq> CHR '' ''"

definition currencyUnitDefinitionSchema :: "currency_unit \<Rightarrow> bool" where
  "currencyUnitDefinitionSchema u \<longleftrightarrow>
     boundedCurrencyCodeSchema (cu_code u) \<and>
     cu_minorUnitExponent u \<le> limit_minorUnitExponent \<and>
     metadataVersionSchema (cu_metadataVersion u) \<and>
     provenanceSchema (cu_provenance u)"

definition unit_identity :: "currency_unit \<Rightarrow> string" where
  "unit_identity u = cu_code u @ '':'' @ cu_metadataVersion u"

fun no_repeats :: "string list \<Rightarrow> string list \<Rightarrow> bool" where
  \<comment> \<open>the loop that adds each identity to a set and reports one it has seen\<close>
  "no_repeats seen [] = True"
| "no_repeats seen (x # xs) = (\<not> x \<in> set seen \<and> no_repeats (x # seen) xs)"

definition currencyUnitContextSchema :: "currency_unit list \<Rightarrow> bool" where
  "currencyUnitContextSchema ds \<longleftrightarrow>
     0 < length ds \<and> length ds \<le> limit_definitions \<and>
     list_all currencyUnitDefinitionSchema ds \<and> no_repeats [] (map unit_identity ds)"

definition exactRatioSchema :: "'z exact_ratio_scheme \<Rightarrow> bool" where
  "exactRatioSchema r \<longleftrightarrow>
     positiveRatioIntegerSchema (numerator r) \<and> positiveRatioIntegerSchema (denominator r)"

definition directedCurrencyRateSchema :: "directed_rate \<Rightarrow> bool" where
  "directedCurrencyRateSchema r \<longleftrightarrow>
     exactRatioSchema r \<and> boundedCurrencyCodeSchema (sourceCurrency r) \<and>
     boundedCurrencyCodeSchema (targetCurrency r)"

definition unitReferenceSchema :: "unit_reference \<Rightarrow> bool" where
  "unitReferenceSchema u \<longleftrightarrow>
     boundedCurrencyCodeSchema (ur_code u) \<and> metadataVersionSchema (ur_metadataVersion u)"

definition currencyConversionInputSchema :: "conversion_input \<Rightarrow> bool" where
  "currencyConversionInputSchema i \<longleftrightarrow>
     boundedAmountSchema (ci_amount i) \<and> unitReferenceSchema (ci_source i) \<and>
     unitReferenceSchema (ci_target i) \<and>
     (case ci_rate i of None \<Rightarrow> True | Some r \<Rightarrow> directedCurrencyRateSchema r)"

fun greatestCommonDivisor :: "nat \<Rightarrow> nat \<Rightarrow> nat" where
  "greatestCommonDivisor left right =
     (if right \<noteq> 0 then greatestCommonDivisor right (left mod right) else left)"

declare greatestCommonDivisor.simps [simp del]

definition reducedRatio :: "nat \<Rightarrow> nat \<Rightarrow> exact_ratio" where
  "reducedRatio n d =
     (let divisor = greatestCommonDivisor n d
      in \<lparr>numerator = show_nat (n div divisor), denominator = show_nat (d div divisor)\<rparr>)"

definition normalizeExactRatio :: "exact_ratio \<Rightarrow> money_error + exact_ratio" where
  "normalizeExactRatio r =
     (if exactRatioSchema r
      then Inr (reducedRatio (dec_val (numerator r)) (dec_val (denominator r)))
      else Inl Zod_Error)"

definition parseExactDecimalRate :: "string \<Rightarrow> money_error + exact_ratio" where
  "parseExactDecimalRate token =
     (if \<not> decimalRateTokenSchema token then Inl Zod_Error
      else
        let whole = before_dot token; fraction = after_dot token
        in if length whole > limit_decimalWholeDigits \<or>
              length fraction > limit_decimalFractionDigits
           then Inl (Range_Error ''Rate exceeds exact decimal limits'')
           else
             let n = dec_val (whole @ fraction)
             in if n = 0 then Inl (Range_Error ''Rate must be positive'')
                else Inr (reducedRatio n (10 ^ length fraction)))"

definition resolveDefinition ::
    "currency_unit list \<Rightarrow> unit_reference \<Rightarrow> money_error + currency_unit" where
  "resolveDefinition ds ref =
     of_option (Range_Error ''Currency metadata is not in the explicit context'')
       (List.find (\<lambda>c. cu_code c = ur_code ref \<and> cu_metadataVersion c = ur_metadataVersion ref) ds)"

definition round_half_even :: "nat \<Rightarrow> nat \<Rightarrow> nat \<times> nat \<times> bool" where
  \<comment> \<open>quotient, remainder and whether the quotient is incremented\<close>
  "round_half_even num divisor =
     (let quotient = num div divisor; remainder = num mod divisor;
          doubledRemainder = remainder * 2
      in (quotient, remainder,
          doubledRemainder > divisor \<or> (doubledRemainder = divisor \<and> quotient mod 2 = 1)))"

definition convertAtRate ::
    "serialized_money \<Rightarrow> currency_unit \<Rightarrow> currency_unit \<Rightarrow> directed_rate option \<Rightarrow>
     money_error + conversion_result" where
  \<comment> \<open>the branch of two different currencies\<close>
  "convertAtRate sourceMoney source target rate_opt =
    (case rate_opt of
       None \<Rightarrow> Inl (Range_Error ''Conversion requires a matching directed rate'')
     | Some rate \<Rightarrow>
       if sourceCurrency rate \<noteq> cu_code source \<or> targetCurrency rate \<noteq> cu_code target
       then Inl (Range_Error ''Conversion requires a matching directed rate'')
       else
         rbind (normalizeExactRatio
                  \<lparr>numerator = numerator rate, denominator = denominator rate\<rparr>) (\<lambda>ratio.
         let num = dec_val (sm_amount sourceMoney) * dec_val (numerator ratio) *
                     10 ^ cu_minorUnitExponent target;
             divisor = dec_val (denominator ratio) * 10 ^ cu_minorUnitExponent source;
             (quotient, remainder, incremented) = round_half_even num divisor;
             rounded = quotient + (if incremented then 1 else 0)
         in if int rounded > POSTGRES_BIGINT_MAX
            then Inl (Range_Error ''Converted amount exceeds the PostgreSQL BIGINT range'')
            else Inr \<lparr>cr_method = Conversion_Method,
                  cr_source_money = sourceMoney, cr_source_definition = source,
                  cr_target_money =
                    \<lparr>sm_amount = show_nat rounded, sm_currency = cu_code target\<rparr>,
                  cr_target_definition = target,
                  cr_rate = Some \<lparr>numerator = numerator ratio,
                                  denominator = denominator ratio,
                                  sourceCurrency = cu_code source,
                                  targetCurrency = cu_code target\<rparr>,
                  cr_rounding = \<lparr>rd_quotient = show_nat quotient,
                                 rd_remainder = show_nat remainder,
                                 rd_divisor = show_nat divisor,
                                 rd_incremented = incremented\<rparr>\<rparr>))"

definition convertIdentity ::
    "serialized_money \<Rightarrow> currency_unit \<Rightarrow> currency_unit \<Rightarrow> directed_rate option \<Rightarrow>
     money_error + conversion_result" where
  \<comment> \<open>the branch of one currency\<close>
  "convertIdentity sourceMoney source target rate_opt =
     (if cu_metadataVersion source \<noteq> cu_metadataVersion target \<or> rate_opt \<noteq> None
      then Inl (Range_Error ''Identity requires matching metadata and no external rate'')
      else Inr \<lparr>cr_method = Identity_Method,
            cr_source_money = sourceMoney, cr_source_definition = source,
            cr_target_money = sourceMoney, cr_target_definition = target,
            cr_rate = None,
            cr_rounding = \<lparr>rd_quotient = sm_amount sourceMoney, rd_remainder = ''0'',
                           rd_divisor = ''1'', rd_incremented = False\<rparr>\<rparr>)"

definition convertCurrencyMinorUnits ::
    "conversion_input \<Rightarrow> currency_unit list \<Rightarrow> money_error + conversion_result" where
  "convertCurrencyMinorUnits input ds =
    (if \<not> currencyConversionInputSchema input then Inl Zod_Error
     else if \<not> currencyUnitContextSchema ds then Inl Zod_Error
     else
       rbind (resolveDefinition ds (ci_source input)) (\<lambda>source.
       rbind (resolveDefinition ds (ci_target input)) (\<lambda>target.
       let sourceMoney = \<lparr>sm_amount = ci_amount input, sm_currency = cu_code source\<rparr>
       in if cu_code source = cu_code target
          then convertIdentity sourceMoney source target (ci_rate input)
          else convertAtRate sourceMoney source target (ci_rate input))))"

section \<open>Provider and browser amounts\<close>

definition minorToMajor :: "int \<Rightarrow> money_error + string" where
  "minorToMajor amount =
     (if amount < 0 then Inl Invalid_Money
      else Inr (show_nat (nat amount div 100) @ ''.'' @
                pad_start 2 CHR ''0'' (show_nat (nat amount mod 100))))"

definition major_amount_pattern :: "string \<Rightarrow> bool" where
  \<comment> \<open>the pattern \<open>^(0|[1-9]\d*)(?:\.(\d{1,2}))?$\<close>\<close>
  "major_amount_pattern v \<longleftrightarrow>
     canonical_dec (before_dot v) \<and>
     (has_dot v \<longrightarrow> list_all is_digit (after_dot v) \<and>
        1 \<le> length (after_dot v) \<and> length (after_dot v) \<le> 2)"

definition majorToMinor :: "string \<Rightarrow> money_error + nat" where
  "majorToMinor v =
     (if \<not> major_amount_pattern v then Inl Invalid_Money
      else Inr (dec_val (before_dot v) * 100 + dec_val (pad_end 2 CHR ''0'' (after_dot v))))"

definition fractionDigits :: "(string \<Rightarrow> nat) \<Rightarrow> string \<Rightarrow> money_error + nat" where
  \<comment> \<open>the first argument is \<open>resolvedOptions().maximumFractionDigits\<close> of the runtime's locale data\<close>
  "fractionDigits intl_digits currency =
     (if \<not> currencyCodeSchema currency then Inl Input_Error else Inr (intl_digits currency))"

definition moneyForInput :: "(string \<Rightarrow> nat) \<Rightarrow> string \<Rightarrow> string \<Rightarrow> money_error + string" where
  "moneyForInput intl_digits amount currency =
     rbind (fractionDigits intl_digits currency) (\<lambda>digits.
       let v = dec_val amount; divisor = 10 ^ digits; whole = show_nat (v div divisor)
       in Inr (if digits \<noteq> 0
               then whole @ ''.'' @ pad_start digits CHR ''0'' (show_nat (v mod divisor))
               else whole))"

definition money_input_pattern :: "nat \<Rightarrow> string \<Rightarrow> bool" where
  "money_input_pattern digits t \<longleftrightarrow>
     before_dot t \<noteq> [] \<and> list_all is_digit (before_dot t) \<and>
     (has_dot t \<longrightarrow> digits \<noteq> 0 \<and> list_all is_digit (after_dot t) \<and>
        1 \<le> length (after_dot t) \<and> length (after_dot t) \<le> digits)"

definition moneyToMinor :: "(string \<Rightarrow> nat) \<Rightarrow> string \<Rightarrow> string \<Rightarrow> money_error + string" where
  "moneyToMinor intl_digits v currency =
     rbind (fractionDigits intl_digits currency) (\<lambda>digits.
       let t = js_trim v
       in if length t > 40 \<or> \<not> money_input_pattern digits t then Inl Input_Error
          else
            let amount = show_nat (dec_val (before_dot t) * 10 ^ digits +
                                   dec_val (pad_end digits CHR ''0'' (after_dot t)))
            in if minorUnitAmountSchema amount then Inr amount else Inl Input_Error)"

section \<open>Correctness of the contract\<close>

lemma bigint_max_string [simp]:
  "length POSTGRES_BIGINT_MAX_STRING = 19"
  "list_all is_digit POSTGRES_BIGINT_MAX_STRING"
  "dec_val POSTGRES_BIGINT_MAX_STRING = 9223372036854775807"
  by (simp_all add: POSTGRES_BIGINT_MAX_STRING_def is_digit_def dec_val_def digit_val_def)

lemma canonical_dec_length_less:
  assumes "canonical_dec v" and "length v < 19"
  shows "dec_val v < 10 ^ 18"
proof -
  have "dec_val v < 10 ^ length v" using assms canonical_dec_digits dec_val_less by blast
  also have "\<dots> \<le> 10 ^ 18" using assms(2) by (intro power_increasing) simp_all
  finally show ?thesis .
qed

lemma canonical_dec_length_greater:
  assumes "canonical_dec v" and "19 < length v"
  shows "10 ^ 19 \<le> dec_val v"
proof -
  have "10 ^ 19 \<le> (10::nat) ^ (length v - 1)" using assms(2) by (intro power_increasing) simp_all
  also have "\<dots> \<le> dec_val v"
    using assms by (intro dec_val_lower) (auto simp: canonical_dec_def)
  finally show ?thesis .
qed

lemma fitsPostgresBigint_bound:
  assumes "canonical_dec v"
  shows "fitsPostgresBigint v \<longleftrightarrow> int (dec_val v) \<le> POSTGRES_BIGINT_MAX"
proof -
  consider "length v < 19" | "length v = 19" | "19 < length v" by linarith
  then show ?thesis
  proof cases
    case 1
    with assms canonical_dec_length_less [OF assms] show ?thesis
      by (simp add: fitsPostgresBigint_def POSTGRES_BIGINT_MAX_def)
  next
    case 2
    with assms show ?thesis
      using str_le_dec_val [of v POSTGRES_BIGINT_MAX_STRING] canonical_dec_digits [of v]
      by (simp add: fitsPostgresBigint_def POSTGRES_BIGINT_MAX_def flip: of_nat_le_iff)
  next
    case 3
    with assms canonical_dec_length_greater [OF assms] show ?thesis
      by (simp add: fitsPostgresBigint_def POSTGRES_BIGINT_MAX_def)
  qed
qed

lemma minorUnitAmountSchema_iff:
  "minorUnitAmountSchema s \<longleftrightarrow> canonical_dec s \<and> int (dec_val s) \<le> POSTGRES_BIGINT_MAX"
  using fitsPostgresBigint_bound by (auto simp: minorUnitAmountSchema_def)

lemma minorUnitAmountSchema_show_nat [simp]:
  "minorUnitAmountSchema (show_nat n) \<longleftrightarrow> int n \<le> POSTGRES_BIGINT_MAX"
  by (simp add: minorUnitAmountSchema_iff)

lemma bigint_to_string_schema:
  "minorUnitAmountSchema (bigint_to_string i) \<longleftrightarrow> 0 \<le> i \<and> i \<le> POSTGRES_BIGINT_MAX"
proof (cases "i < 0")
  case True
  have "\<not> canonical_dec (CHR ''-'' # s)" for s
    by (auto simp: canonical_dec_def is_digit_def)
  with True show ?thesis by (simp add: bigint_to_string_def minorUnitAmountSchema_iff)
next
  case False
  then show ?thesis by (simp add: bigint_to_string_def)
qed

lemma serializeMoney_ok_iff:
  "is_ok (serializeMoney a c) \<longleftrightarrow> 0 \<le> a \<and> a \<le> POSTGRES_BIGINT_MAX \<and> currencyCodeSchema c"
  by (auto simp: serializeMoney_def moneySchema_def bigint_to_string_schema Let_def)

lemma parse_serialize:
  assumes "serializeMoney a c = Inr m"
  shows "parseMoney m = Inr \<lparr>mv_amount = a, mv_currency = c\<rparr>"
proof -
  from assms have m: "m = \<lparr>sm_amount = bigint_to_string a, sm_currency = c\<rparr>" and ok: "moneySchema m"
    by (simp_all add: serializeMoney_def Let_def split: if_splits)
  from m ok have "0 \<le> a" by (simp add: moneySchema_def bigint_to_string_schema)
  with m ok show ?thesis by (simp add: parseMoney_def bigint_to_string_def)
qed

lemma serialize_parse:
  "parseMoney m = Inr v \<Longrightarrow> serializeMoney (mv_amount v) (mv_currency v) = Inr m"
  by (auto simp: serializeMoney_def parseMoney_def moneySchema_def bigint_to_string_def
        minorUnitAmountSchema_iff Let_def split: if_splits)

section \<open>Correctness of the exact arithmetic\<close>

lemma greatestCommonDivisor_gcd [simp]: "greatestCommonDivisor a b = gcd a b"
proof (induction a b rule: greatestCommonDivisor.induct)
  case (1 a b)
  then show ?case by (subst greatestCommonDivisor.simps) (simp add: gcd_red_nat [of a b])
qed

lemma reducedRatio_value:
  "dec_val (numerator (reducedRatio n d)) * d = n * dec_val (denominator (reducedRatio n d))"
  by (simp add: reducedRatio_def Let_def div_mult_swap dvd_div_mult mult.commute)

lemma reducedRatio_lowest:
  assumes "0 < n" and "0 < d"
  shows "coprime (dec_val (numerator (reducedRatio n d))) (dec_val (denominator (reducedRatio n d)))"
    and "0 < dec_val (numerator (reducedRatio n d))"
    and "0 < dec_val (denominator (reducedRatio n d))"
  using assms by (auto simp: reducedRatio_def Let_def div_gcd_coprime div_greater_zero_iff
      intro: dvd_imp_le)

lemma positive_ratio_pos: "positiveRatioIntegerSchema s \<Longrightarrow> 0 < dec_val s"
  using dec_val_lower [of s] by (auto simp: positiveRatioIntegerSchema_def intro: gr0I)

lemma no_repeats_distinct: "no_repeats seen xs \<longleftrightarrow> distinct xs \<and> set seen \<inter> set xs = {}"
  by (induction seen xs rule: no_repeats.induct) auto

text \<open>The nearest whole number to a fraction, an exact tie going to the even neighbour.\<close>

definition nearest_even :: "nat \<Rightarrow> nat \<Rightarrow> nat \<Rightarrow> bool" where
  "nearest_even num divisor r \<longleftrightarrow>
     2 * \<bar>int r * int divisor - int num\<bar> \<le> int divisor \<and>
     (2 * \<bar>int r * int divisor - int num\<bar> = int divisor \<longrightarrow> even r)"

lemma abs_half:
  fixes a b c :: int
  assumes "2 * (b - a) = c" and "0 \<le> c"
  shows "2 * \<bar>a - b\<bar> = c" and "2 * \<bar>b - a\<bar> = c"
  using assms by (auto simp: abs_if)

lemma nearest_even_not_less:
  assumes d: "0 < d" and r: "nearest_even n d r" and s: "nearest_even n d s"
  shows "\<not> r < s"
proof
  assume "r < s"
  then have "(int r + 1) * int d \<le> int s * int d" by (intro mult_right_mono) simp_all
  moreover from r have "2 * \<bar>int r * int d - int n\<bar> \<le> int d"
    and "2 * \<bar>int s * int d - int n\<bar> \<le> int d" using s by (simp_all add: nearest_even_def)
  then have lo: "2 * (int n - int r * int d) \<le> int d" and hi: "2 * (int s * int d - int n) \<le> int d"
    using abs_ge_self [of "int s * int d - int n"] abs_ge_minus_self [of "int r * int d - int n"]
    by (simp_all add: algebra_simps)
  ultimately have eq: "int s * int d = int r * int d + int d"
    and t: "2 * (int n - int r * int d) = int d" and u: "2 * (int s * int d - int n) = int d"
    by (simp_all add: algebra_simps)
  from eq have "(int s - int r - 1) * int d = 0" by (simp add: algebra_simps)
  with d have "s = Suc r" by simp
  moreover from t have "2 * \<bar>int r * int d - int n\<bar> = int d" by (rule abs_half) simp
  moreover from u have "2 * \<bar>int s * int d - int n\<bar> = int d" by (rule abs_half) simp
  ultimately show False using r s unfolding nearest_even_def by auto
qed

lemma nearest_even_unique:
  "0 < d \<Longrightarrow> nearest_even n d r \<Longrightarrow> nearest_even n d s \<Longrightarrow> r = s"
  by (meson linorder_neqE_nat nearest_even_not_less)

lemma round_half_even_nearest:
  assumes d: "0 < d" and res: "round_half_even n d = (q, m, inc)"
  shows "nearest_even n d (q + (if inc then 1 else 0))"
proof -
  from res have q: "q = n div d" and m: "m = n mod d"
    and inc: "inc \<longleftrightarrow> m * 2 > d \<or> (m * 2 = d \<and> q mod 2 = 1)"
    by (auto simp: round_half_even_def Let_def)
  have n: "int n = int q * int d + int m"
    by (simp add: q m flip: of_nat_mult of_nat_add)
  have m_less: "m < d" using d by (simp add: m)
  show ?thesis
  proof (cases inc)
    case True
    with inc have "d \<le> m * 2" and tie: "m * 2 = d \<Longrightarrow> odd q" by (auto simp: odd_iff_mod_2_eq_one)
    with True n m_less show ?thesis by (auto simp: nearest_even_def algebra_simps)
  next
    case False
    with inc have "m * 2 \<le> d" and tie: "m * 2 = d \<Longrightarrow> even q" by (auto simp: even_iff_mod_2_eq_zero)
    with False n show ?thesis by (auto simp: nearest_even_def algebra_simps)
  qed
qed

text \<open>Scaling both terms of the fraction, as reducing the ratio does, leaves the rounding alone.\<close>

lemma nearest_even_scale:
  assumes "0 < d" and "0 < d'" and cross: "n * d' = n' * d"
  shows "nearest_even n d r \<longleftrightarrow> nearest_even n' d' r"
proof -
  have key: "int d' * (2 * \<bar>int r * int d - int n\<bar>) = int d * (2 * \<bar>int r * int d' - int n'\<bar>)"
  proof -
    have "int d' * (int r * int d - int n) = int d * (int r * int d' - int n')"
      using arg_cong [OF cross, of int] by (simp add: algebra_simps)
    then have "\<bar>int d' * (int r * int d - int n)\<bar> = \<bar>int d * (int r * int d' - int n')\<bar>" by simp
    then show ?thesis by (simp add: abs_mult)
  qed
  let ?e = "2 * \<bar>int r * int d - int n\<bar>" and ?e' = "2 * \<bar>int r * int d' - int n'\<bar>"
  have le: "?e \<le> int d \<longleftrightarrow> ?e' \<le> int d'"
  proof -
    have "?e \<le> int d \<longleftrightarrow> int d' * ?e \<le> int d' * int d" using assms(2) by simp
    also have "\<dots> \<longleftrightarrow> int d * ?e' \<le> int d * int d'" by (simp only: key mult.commute [of "int d'" "int d"])
    also have "\<dots> \<longleftrightarrow> ?e' \<le> int d'" using assms(1) by simp
    finally show ?thesis .
  qed
  have eq: "?e = int d \<longleftrightarrow> ?e' = int d'"
  proof -
    have "?e = int d \<longleftrightarrow> int d' * ?e = int d' * int d" using assms(2) by simp
    also have "\<dots> \<longleftrightarrow> int d * ?e' = int d * int d'" by (simp only: key mult.commute [of "int d'" "int d"])
    also have "\<dots> \<longleftrightarrow> ?e' = int d'" using assms(1) by simp
    finally show ?thesis .
  qed
  show ?thesis unfolding nearest_even_def le eq ..
qed

lemma normalize_value:
  assumes "normalizeExactRatio r = Inr q"
  shows "dec_val (numerator q) * dec_val (denominator r) = dec_val (numerator r) * dec_val (denominator q)"
    and "0 < dec_val (denominator q)" and "0 < dec_val (denominator r)"
  using assms reducedRatio_value [of "dec_val (numerator r)" "dec_val (denominator r)"]
    reducedRatio_lowest positive_ratio_pos
  by (auto simp: normalizeExactRatio_def exactRatioSchema_def split: if_splits)

definition exact_numerator :: "string \<Rightarrow> directed_rate \<Rightarrow> currency_unit \<Rightarrow> nat" where
  \<comment> \<open>numerator of the exact converted amount, from the rate as submitted\<close>
  "exact_numerator amount rate target =
     dec_val amount * dec_val (numerator rate) * 10 ^ cu_minorUnitExponent target"

definition exact_divisor :: "directed_rate \<Rightarrow> currency_unit \<Rightarrow> nat" where
  "exact_divisor rate source = dec_val (denominator rate) * 10 ^ cu_minorUnitExponent source"

lemma convertAtRate_cases:
  assumes "convertAtRate sm source target (Some rate) = Inr res"
  obtains ratio where
    "normalizeExactRatio \<lparr>numerator = numerator rate, denominator = denominator rate\<rparr> = Inr ratio"
    and "dec_val (sm_amount (cr_target_money res)) =
      (case round_half_even
              (dec_val (sm_amount sm) * dec_val (numerator ratio) * 10 ^ cu_minorUnitExponent target)
              (dec_val (denominator ratio) * 10 ^ cu_minorUnitExponent source)
       of (q, m, inc) \<Rightarrow> q + (if inc then 1 else 0))"
    and "cr_source_definition res = source" and "cr_target_definition res = target"
proof (cases "normalizeExactRatio \<lparr>numerator = numerator rate, denominator = denominator rate\<rparr>")
  case (Inl e)
  with assms show thesis by (simp add: convertAtRate_def split: if_splits)
next
  case (Inr ratio)
  show thesis
    by (rule that [OF Inr])
      (use assms Inr in \<open>auto simp: convertAtRate_def Let_def split: if_splits prod.splits\<close>)
qed

lemma convertAtRate_nearest:
  assumes "convertAtRate sm source target (Some rate) = Inr res"
  shows "nearest_even (exact_numerator (sm_amount sm) rate target) (exact_divisor rate source)
           (dec_val (sm_amount (cr_target_money res)))"
    and "0 < exact_divisor rate source"
proof -
  obtain ratio where
    ratio: "normalizeExactRatio \<lparr>numerator = numerator rate, denominator = denominator rate\<rparr> = Inr ratio"
    and res: "dec_val (sm_amount (cr_target_money res)) =
      (case round_half_even
              (dec_val (sm_amount sm) * dec_val (numerator ratio) * 10 ^ cu_minorUnitExponent target)
              (dec_val (denominator ratio) * 10 ^ cu_minorUnitExponent source)
       of (q, m, inc) \<Rightarrow> q + (if inc then 1 else 0))"
    using assms by (rule convertAtRate_cases)
  let ?n = "dec_val (sm_amount sm) * dec_val (numerator ratio) * 10 ^ cu_minorUnitExponent target"
  let ?d = "dec_val (denominator ratio) * 10 ^ cu_minorUnitExponent source"
  note val = normalize_value [OF ratio, simplified]
  from val show pos: "0 < exact_divisor rate source" by (simp add: exact_divisor_def)
  obtain q m inc where rh: "round_half_even ?n ?d = (q, m, inc)" by (cases "round_half_even ?n ?d") auto
  from val have d: "0 < ?d" by simp
  have "nearest_even ?n ?d (q + (if inc then 1 else 0))" by (rule round_half_even_nearest [OF d rh])
  moreover have "?n * exact_divisor rate source = exact_numerator (sm_amount sm) rate target * ?d"
    using arg_cong [OF val(1), of "\<lambda>x. x * (dec_val (sm_amount sm) *
        10 ^ cu_minorUnitExponent target * 10 ^ cu_minorUnitExponent source)"]
    by (simp add: exact_divisor_def exact_numerator_def ac_simps)
  ultimately have "nearest_even (exact_numerator (sm_amount sm) rate target) (exact_divisor rate source)
      (q + (if inc then 1 else 0))"
    using nearest_even_scale [OF d pos] by blast
  with rh res show "nearest_even (exact_numerator (sm_amount sm) rate target)
      (exact_divisor rate source) (dec_val (sm_amount (cr_target_money res)))" by simp
qed

lemma conversion_cases:
  assumes "convertCurrencyMinorUnits input ds = Inr res"
  obtains (identity) source target where "ci_rate input = None"
      "resolveDefinition ds (ci_source input) = Inr source"
      "resolveDefinition ds (ci_target input) = Inr target" "cu_code source = cu_code target"
      "cu_metadataVersion source = cu_metadataVersion target"
      "cr_target_money res = \<lparr>sm_amount = ci_amount input, sm_currency = cu_code target\<rparr>"
      "cr_method res = Identity_Method"
    | (conversion) rate source target where "ci_rate input = Some rate"
      "resolveDefinition ds (ci_source input) = Inr source"
      "resolveDefinition ds (ci_target input) = Inr target" "cu_code source \<noteq> cu_code target"
      "convertAtRate \<lparr>sm_amount = ci_amount input, sm_currency = cu_code source\<rparr> source target
         (Some rate) = Inr res"
proof -
  obtain source target where st: "resolveDefinition ds (ci_source input) = Inr source"
      "resolveDefinition ds (ci_target input) = Inr target"
    and r: "(let sourceMoney = \<lparr>sm_amount = ci_amount input, sm_currency = cu_code source\<rparr>
       in if cu_code source = cu_code target
          then convertIdentity sourceMoney source target (ci_rate input)
          else convertAtRate sourceMoney source target (ci_rate input)) = Inr res"
    using assms by (auto simp: convertCurrencyMinorUnits_def result_simps split: if_splits)
  show thesis
  proof (cases "cu_code source = cu_code target")
    case True
    with r st show thesis
      by (intro identity [of source target])
        (auto simp: convertIdentity_def Let_def split: if_splits)
  next
    case False
    with r have c: "convertAtRate \<lparr>sm_amount = ci_amount input, sm_currency = cu_code source\<rparr> source target
         (ci_rate input) = Inr res" by simp
    then obtain rate where rate: "ci_rate input = Some rate"
      by (cases "ci_rate input") (auto simp: convertAtRate_def)
    show thesis
      by (rule conversion [OF rate st False]) (use c rate in simp)
  qed
qed

lemma decimal_rate_exact:
  assumes "parseExactDecimalRate t = Inr r"
  shows "dec_val (numerator r) * 10 ^ length (after_dot t) =
           (dec_val (before_dot t) * 10 ^ length (after_dot t) + dec_val (after_dot t)) *
           dec_val (denominator r)"
    and "coprime (dec_val (numerator r)) (dec_val (denominator r))"
    and "0 < dec_val (numerator r)"
proof -
  let ?n = "dec_val (before_dot t @ after_dot t)" and ?d = "(10::nat) ^ length (after_dot t)"
  from assms have r: "r = reducedRatio ?n ?d" and n: "0 < ?n"
    by (auto simp: parseExactDecimalRate_def Let_def split: if_splits)
  from reducedRatio_value [of ?n ?d] r show "dec_val (numerator r) * ?d =
      (dec_val (before_dot t) * ?d + dec_val (after_dot t)) * dec_val (denominator r)"
    by (simp add: dec_val_append)
  show "coprime (dec_val (numerator r)) (dec_val (denominator r))" "0 < dec_val (numerator r)"
    unfolding r using n by (intro reducedRatio_lowest; simp)+
qed

lemma no_repeats_find_unique:
  assumes "no_repeats [] (map unit_identity ds)" and "u \<in> set ds"
  shows "List.find (\<lambda>c. cu_code c = cu_code u \<and> cu_metadataVersion c = cu_metadataVersion u) ds = Some u"
  using assms unfolding no_repeats_distinct
proof (induction ds)
  case (Cons d ds)
  show ?case
  proof (cases "cu_code d = cu_code u \<and> cu_metadataVersion d = cu_metadataVersion u")
    case True
    then have "unit_identity d = unit_identity u" by (simp add: unit_identity_def)
    with Cons.prems have "d = u" by (auto simp: rev_image_eqI)
    with True show ?thesis by simp
  next
    case False
    with Cons have "u \<in> set ds" by auto
    with False Cons show ?thesis by auto
  qed
qed simp

section \<open>Round trips of printed amounts\<close>

lemma fraction_field:
  assumes "0 < k"
  shows "length (pad_start k CHR ''0'' (show_nat (v mod 10 ^ k))) = k"
    and "dec_val (pad_start k CHR ''0'' (show_nat (v mod 10 ^ k))) = v mod 10 ^ k"
    and "list_all is_digit (pad_start k CHR ''0'' (show_nat (v mod 10 ^ k)))"
  using assms length_show_nat [OF assms, of "v mod 10 ^ k"] by simp_all

lemma pad_end_id [simp]: "length f = k \<Longrightarrow> pad_end k c f = f"
  by (simp add: pad_end_def)

lemma major_roundtrip: "\<exists>w. minorToMajor (int n) = Inr w \<and> majorToMinor w = Inr n"
proof -
  let ?f = "pad_start 2 CHR ''0'' (show_nat (n mod 100))"
  have "length ?f = 2" "dec_val ?f = n mod 100" "list_all is_digit ?f"
    using fraction_field [of 2 n] by simp_all
  then show ?thesis
    by (simp add: minorToMajor_def majorToMinor_def major_amount_pattern_def has_dot_def)
qed

interpretation provider_amount: amount_codec "\<lambda>_. True" "\<lambda>n. minorToMajor (int n)" majorToMinor
  by unfold_locales (rule major_roundtrip)

lemma contract_roundtrip:
  assumes "int n \<le> POSTGRES_BIGINT_MAX \<and> currencyCodeSchema c"
  shows "\<exists>w. serializeMoney (int n) c = Inr w \<and>
     rbind (parseMoney w) (\<lambda>v. Inr (nat (mv_amount v))) = Inr n"
proof -
  from assms have "is_ok (serializeMoney (int n) c)" by (simp add: serializeMoney_ok_iff)
  then obtain w where w: "serializeMoney (int n) c = Inr w" by (cases "serializeMoney (int n) c") simp_all
  from parse_serialize [OF w] w show ?thesis by simp
qed

interpretation contract_amount: amount_codec
  "\<lambda>n. int n \<le> POSTGRES_BIGINT_MAX \<and> currencyCodeSchema c"
  "\<lambda>n. serializeMoney (int n) c" "\<lambda>w. rbind (parseMoney w) (\<lambda>v. Inr (nat (mv_amount v)))"
  for c
  by unfold_locales (rule contract_roundtrip)

lemma show_nat_bigint_length:
  assumes "int n \<le> POSTGRES_BIGINT_MAX"
  shows "length (show_nat (n div d)) \<le> 19"
proof -
  have "n div d \<le> n" by simp
  also have "n < 10 ^ 19" using assms by (simp add: POSTGRES_BIGINT_MAX_def)
  finally have "n div d < 10 ^ 19" .
  then show ?thesis using length_show_nat [of 19 "n div d"] by simp
qed

lemma input_text_trim:
  "list_all is_digit w \<Longrightarrow> w \<noteq> [] \<Longrightarrow> list_all is_digit f \<Longrightarrow> f \<noteq> [] \<Longrightarrow>
   js_trim (w @ CHR ''.'' # f) = w @ CHR ''.'' # f"
  "list_all is_digit w \<Longrightarrow> w \<noteq> [] \<Longrightarrow> js_trim w = w"
  by (rule js_trim_fixed; auto simp: list_all_iff hd_append intro!: digit_not_space)+

lemma browser_roundtrip:
  assumes ok: "int n \<le> POSTGRES_BIGINT_MAX \<and> currencyCodeSchema c \<and> intl c \<le> 20"
  shows "\<exists>w. moneyForInput intl (show_nat n) c = Inr w \<and>
     rbind (moneyToMinor intl w c) (\<lambda>s. Inr (dec_val s)) = Inr n"
proof (cases "intl c = 0")
  case True
  with ok show_nat_bigint_length [of n 1] show ?thesis
    by (simp add: moneyForInput_def moneyToMinor_def fractionDigits_def money_input_pattern_def
        input_text_trim Let_def)
next
  case False
  let ?k = "intl c" and ?w = "show_nat (n div 10 ^ intl c)"
  let ?f = "pad_start (intl c) CHR ''0'' (show_nat (n mod 10 ^ intl c))"
  from False have f: "length ?f = ?k" "dec_val ?f = n mod 10 ^ ?k" "list_all is_digit ?f"
    using fraction_field [of ?k n] by simp_all
  moreover have "?f \<noteq> []" by (simp add: pad_start_def)
  moreover have "length ?w \<le> 19" using ok by (simp add: show_nat_bigint_length)
  moreover have sum: "n div 10 ^ ?k * 10 ^ ?k + n mod 10 ^ ?k = n" by (rule div_mult_mod_eq)
  moreover from arg_cong [OF sum, of int]
  have "int (n div 10 ^ ?k) * 10 ^ ?k + int (n mod 10 ^ ?k) = int n" by simp
  ultimately show ?thesis using ok False
    by (simp add: moneyForInput_def moneyToMinor_def fractionDigits_def money_input_pattern_def
        has_dot_def input_text_trim Let_def)
qed

interpretation browser_amount: amount_codec
  "\<lambda>n. int n \<le> POSTGRES_BIGINT_MAX \<and> currencyCodeSchema c \<and> intl c \<le> 20"
  "\<lambda>n. moneyForInput intl (show_nat n) c" "\<lambda>w. rbind (moneyToMinor intl w c) (\<lambda>s. Inr (dec_val s))"
  for intl c
  by unfold_locales (rule browser_roundtrip)

section \<open>Properties\<close>

text \<open>The string comparison that guards every amount of the contract is the numeric
  bound: a text passes \<open>fitsPostgresBigint\<close> exactly when it is the canonical decimal
  form of a number that fits PostgreSQL's BIGINT column.\<close>

theorem fitsPostgresBigint_exact:
  "fitsPostgresBigint v \<longleftrightarrow> canonical_dec v \<and> int (dec_val v) \<le> POSTGRES_BIGINT_MAX"
proof (cases "canonical_dec v")
  case True
  then show ?thesis by (simp add: fitsPostgresBigint_bound)
next
  case False
  then show ?thesis by (simp add: fitsPostgresBigint_def)
qed

text \<open>Serialising money and parsing it are inverse: an amount and a currency serialise to
  a wire value exactly when that wire value parses to them, so no amount is changed
  by a round trip and two amounts never share a wire form.\<close>

theorem money_roundtrip:
  "serializeMoney a c = Inr m \<longleftrightarrow> parseMoney m = Inr \<lparr>mv_amount = a, mv_currency = c\<rparr>"
  using parse_serialize [of a c m] serialize_parse [of m "\<lparr>mv_amount = a, mv_currency = c\<rparr>"]
  by auto

text \<open>C40: A conversion between two currencies returns the half-even rounding of the exact
  rational amount computed from the rate as it was submitted: the normalisation of
  the ratio never changes the result, the result is a nearest whole minor unit with
  ties going to the even one, and it is the only such number.\<close>

theorem conversion_is_half_even:
  assumes "convertCurrencyMinorUnits input ds = Inr res"
    and "ci_rate input = Some rate"
  shows "nearest_even (exact_numerator (ci_amount input) rate (cr_target_definition res))
           (exact_divisor rate (cr_source_definition res)) r \<longleftrightarrow>
         dec_val (sm_amount (cr_target_money res)) = r"
  using assms(1)
proof (cases rule: conversion_cases)
  case (identity source target)
  with assms(2) show ?thesis by simp
next
  case (conversion rate' source target)
  then have defs: "cr_source_definition res = source" "cr_target_definition res = target" "rate' = rate"
    using assms(2) by (auto elim: convertAtRate_cases)
  with convertAtRate_nearest [OF conversion(5)] show ?thesis
    by (auto dest: nearest_even_unique)
qed

definition example_units :: "currency_unit list" where
  "example_units =
     [\<lparr>cu_code = ''USD'', cu_minorUnitExponent = 2, cu_metadataVersion = ''v1'',
       cu_provenance = ''iso'', cu_status = Unit_Current\<rparr>,
      \<lparr>cu_code = ''JPY'', cu_minorUnitExponent = 0, cu_metadataVersion = ''v1'',
       cu_provenance = ''iso'', cu_status = Unit_Current\<rparr>]"

definition example_conversion :: conversion_input where
  "example_conversion =
     \<lparr>ci_amount = ''5'', ci_source = \<lparr>ur_code = ''USD'', ur_metadataVersion = ''v1''\<rparr>,
      ci_target = \<lparr>ur_code = ''JPY'', ur_metadataVersion = ''v1''\<rparr>,
      ci_rate = Some \<lparr>numerator = ''60'', denominator = ''2'', sourceCurrency = ''USD'',
                     targetCurrency = ''JPY''\<rparr>\<rparr>"

theorem conversion_is_half_even_witness:
  "\<exists>res rate. convertCurrencyMinorUnits example_conversion example_units = Inr res \<and>
     ci_rate example_conversion = Some rate \<and>
     nearest_even (exact_numerator (ci_amount example_conversion) rate (cr_target_definition res))
       (exact_divisor rate (cr_source_definition res)) 2"
proof -
  have "case convertCurrencyMinorUnits example_conversion example_units of
      Inl _ \<Rightarrow> False | Inr res \<Rightarrow> dec_val (sm_amount (cr_target_money res)) = 2"
    by code_simp
  then obtain res where res: "convertCurrencyMinorUnits example_conversion example_units = Inr res"
    "dec_val (sm_amount (cr_target_money res)) = 2" by (auto split: sum.splits)
  moreover obtain rate where rate: "ci_rate example_conversion = Some rate"
    by (simp add: example_conversion_def)
  ultimately show ?thesis using conversion_is_half_even [OF res(1) rate] by blast
qed

text \<open>A decimal rate is read exactly: the ratio it returns equals the decimal number the
  token writes (whole digits and fraction digits), it is in lowest terms and it is
  positive.\<close>

theorem parseExactDecimalRate_exact:
  assumes "parseExactDecimalRate t = Inr r"
  shows "dec_val (numerator r) * 10 ^ length (after_dot t) =
           (dec_val (before_dot t) * 10 ^ length (after_dot t) + dec_val (after_dot t)) *
           dec_val (denominator r) \<and>
         coprime (dec_val (numerator r)) (dec_val (denominator r)) \<and>
         0 < dec_val (numerator r)"
  using decimal_rate_exact [OF assms] by simp

theorem parseExactDecimalRate_exact_witness:
  "parseExactDecimalRate ''2.50'' = Inr \<lparr>numerator = ''5'', denominator = ''2''\<rparr> \<and>
   coprime (dec_val ''5'') (dec_val ''2'')"
proof -
  have h: "parseExactDecimalRate ''2.50'' = Inr \<lparr>numerator = ''5'', denominator = ''2''\<rparr>"
    by code_simp
  show ?thesis using h parseExactDecimalRate_exact [OF h] by simp
qed

text \<open>An amount written into a browser money field and read back is the same amount, for
  every currency whose locale data has at most twenty fraction digits.\<close>

theorem money_input_roundtrip:
  assumes "int n \<le> POSTGRES_BIGINT_MAX" and "currencyCodeSchema c" and "intl c \<le> 20"
  shows "rbind (moneyForInput intl (show_nat n) c) (\<lambda>w. moneyToMinor intl w c) = Inr (show_nat n)"
proof -
  obtain w where "moneyForInput intl (show_nat n) c = Inr w"
    and "rbind (moneyToMinor intl w c) (\<lambda>s. Inr (dec_val s)) = Inr n"
    using browser_amount.read_print [of n c intl] assms by blast
  then show ?thesis
    by (auto simp: result_simps moneyToMinor_def minorUnitAmountSchema_iff Let_def split: if_splits)
qed

theorem money_input_roundtrip_witness:
  "rbind (moneyForInput (\<lambda>_. 2) (show_nat 12345) ''BDT'')
     (\<lambda>w. moneyToMinor (\<lambda>_. 2) w ''BDT'') = Inr (show_nat 12345)"
  by (rule money_input_roundtrip)
    (simp_all add: POSTGRES_BIGINT_MAX_def currencyCodeSchema_def is_upper_def)

text \<open>The two-decimal amounts exchanged with payment providers lose nothing: every amount
  in minor units is printed in major units and read back as itself.\<close>

theorem provider_amount_roundtrip:
  "rbind (minorToMajor (int n)) majorToMinor = Inr n"
  by (rule provider_amount.roundtrip) simp

end
