(* ===== verification/Calendar.thy ===== *)
theory Calendar
  imports Prelude
begin

text \<open>
  The calendar the program bills by. The first section is the part of the
  language's \<open>Date\<close> that the sources use (the proleptic Gregorian calendar in UTC,
  days and times of day as integers); the rest models
  \<^verbatim>\<open>services/service-period.ts\<close> and \<^verbatim>\<open>renewal/renewal-calendar.ts\<close> (the end of a
  billing period, business dates and their arithmetic). Conversions to a time zone come from the
  runtime's locale data and are parameters. Instants outside the range of \<open>Date\<close>
  (about 270000 years around the epoch) are not cut off in the model.
\<close>

named_theorems calendar_simps \<open>unfolding of calendar fields\<close>

section \<open>UTC dates of the language\<close>

definition ms_per_day :: int where "ms_per_day = 86400000"

definition leap_year :: "int \<Rightarrow> bool" where
  "leap_year y \<longleftrightarrow> y mod 4 = 0 \<and> (y mod 100 \<noteq> 0 \<or> y mod 400 = 0)"

definition day_from_year :: "int \<Rightarrow> int" where
  "day_from_year y =
     365 * (y - 1970) + (y - 1969) div 4 - (y - 1901) div 100 + (y - 1601) div 400"

definition year_of_day :: "int \<Rightarrow> int" where
  "year_of_day d =
     (let y = 1970 + 400 * d div 146097
      in if day_from_year (y + 1) \<le> d then y + 1
         else if d < day_from_year y then y - 1 else y)"

definition days_before_month :: "bool \<Rightarrow> int \<Rightarrow> int" where
  \<comment> \<open>days of the year before the given month, which counts from 0 (12 is the year's length)\<close>
  "days_before_month leap m =
     (let l = (if leap then 1 else 0) in
      if m \<le> 0 then 0 else if m = 1 then 31 else if m = 2 then 59 + l
      else if m = 3 then 90 + l else if m = 4 then 120 + l else if m = 5 then 151 + l
      else if m = 6 then 181 + l else if m = 7 then 212 + l else if m = 8 then 243 + l
      else if m = 9 then 273 + l else if m = 10 then 304 + l else if m = 11 then 334 + l
      else 365 + l)"

definition month_of_yday :: "bool \<Rightarrow> int \<Rightarrow> int" where
  "month_of_yday leap d =
     (let l = (if leap then 1 else 0) in
      if d < 31 then 0 else if d < 59 + l then 1 else if d < 90 + l then 2
      else if d < 120 + l then 3 else if d < 151 + l then 4 else if d < 181 + l then 5
      else if d < 212 + l then 6 else if d < 243 + l then 7 else if d < 273 + l then 8
      else if d < 304 + l then 9 else if d < 334 + l then 10 else 11)"

definition month_of_day :: "int \<Rightarrow> int" where
  "month_of_day d =
     (let y = year_of_day d in month_of_yday (leap_year y) (d - day_from_year y))"

definition date_of_day :: "int \<Rightarrow> int" where
  "date_of_day d =
     (let y = year_of_day d
      in d - day_from_year y - days_before_month (leap_year y) (month_of_day d) + 1)"

definition getUTCFullYear :: "instant \<Rightarrow> int" where
  "getUTCFullYear t = year_of_day (t div ms_per_day)"

definition getUTCMonth :: "instant \<Rightarrow> int" where
  "getUTCMonth t = month_of_day (t div ms_per_day)"

definition getUTCDate :: "instant \<Rightarrow> int" where
  "getUTCDate t = date_of_day (t div ms_per_day)"

definition getUTCHours :: "instant \<Rightarrow> int" where "getUTCHours t = t div 3600000 mod 24"
definition getUTCMinutes :: "instant \<Rightarrow> int" where "getUTCMinutes t = t div 60000 mod 60"
definition getUTCSeconds :: "instant \<Rightarrow> int" where "getUTCSeconds t = t div 1000 mod 60"
definition getUTCMilliseconds :: "instant \<Rightarrow> int" where "getUTCMilliseconds t = t mod 1000"

definition make_day :: "int \<Rightarrow> int \<Rightarrow> int \<Rightarrow> int" where
  \<comment> \<open>months and dates out of range carry over, as in the language\<close>
  "make_day y m d =
     (let y' = y + m div 12
      in day_from_year y' + days_before_month (leap_year y') (m mod 12) + d - 1)"

definition date_utc :: "int \<Rightarrow> int \<Rightarrow> int \<Rightarrow> int \<Rightarrow> int \<Rightarrow> int \<Rightarrow> int \<Rightarrow> instant" where
  \<comment> \<open>\<open>Date.UTC\<close>: a year of two digits is one of the twentieth century\<close>
  "date_utc y m d h mi s ms =
     make_day (if 0 \<le> y \<and> y \<le> 99 then 1900 + y else y) m d * ms_per_day +
     h * 3600000 + mi * 60000 + s * 1000 + ms"

definition iso_year :: "int \<Rightarrow> string" where
  "iso_year y =
     (if 0 \<le> y \<and> y \<le> 9999 then pad_start 4 CHR ''0'' (show_nat (nat y))
      else (if y < 0 then ''-'' else ''+'') @ pad_start 6 CHR ''0'' (show_nat (nat \<bar>y\<bar>)))"

definition two_digits :: "int \<Rightarrow> string" where
  "two_digits n = pad_start 2 CHR ''0'' (show_nat (nat n))"

definition iso_date_prefix :: "instant \<Rightarrow> string" where
  \<comment> \<open>\<open>value.toISOString().slice(0, 10)\<close>\<close>
  "iso_date_prefix t =
     take 10 (iso_year (getUTCFullYear t) @ ''-'' @ two_digits (getUTCMonth t + 1) @ ''-'' @
              two_digits (getUTCDate t) @ ''T'')"

section \<open>Billing periods\<close>

datatype billing_period = MONTHLY | QUARTERLY | ANNUAL

fun periodMonths :: "billing_period \<Rightarrow> int" where
  "periodMonths MONTHLY = 1"
| "periodMonths QUARTERLY = 3"
| "periodMonths ANNUAL = 12"

definition nextServiceDueAt :: "instant \<Rightarrow> billing_period \<Rightarrow> instant" where
  "nextServiceDueAt startedAt billingPeriod =
     (let months = periodMonths billingPeriod;
          targetMonth = getUTCMonth startedAt + months;
          targetYear = getUTCFullYear startedAt + targetMonth div 12;
          normalizedMonth = targetMonth mod 12;
          lastDay = getUTCDate (date_utc targetYear (normalizedMonth + 1) 0 0 0 0 0)
      in date_utc targetYear normalizedMonth (min (getUTCDate startedAt) lastDay)
           (getUTCHours startedAt) (getUTCMinutes startedAt) (getUTCSeconds startedAt)
           (getUTCMilliseconds startedAt))"

definition addBillingPeriod :: "instant \<Rightarrow> billing_period \<Rightarrow> instant" where
  "addBillingPeriod t billingPeriod =
     (let targetMonth = getUTCMonth t + periodMonths billingPeriod;
          targetYear = getUTCFullYear t + targetMonth div 12;
          normalizedMonth = (targetMonth mod 12 + 12) mod 12;
          lastDay = getUTCDate (date_utc targetYear (normalizedMonth + 1) 0 0 0 0 0)
      in date_utc targetYear normalizedMonth (min (getUTCDate t) lastDay)
           (getUTCHours t) (getUTCMinutes t) (getUTCSeconds t) (getUTCMilliseconds t))"

section \<open>Business dates\<close>

datatype calendar_error = Business_Date_Unavailable | Business_Date_Invalid

type_synonym date_parts = "string \<Rightarrow> instant \<Rightarrow> (string option \<times> string option \<times> string option)"
  \<comment> \<open>\<open>Intl.DateTimeFormat('en-CA', ...).formatToParts\<close>: year, month and day of a zone\<close>

definition businessDate :: "date_parts \<Rightarrow> instant \<Rightarrow> string \<Rightarrow> calendar_error + string" where
  "businessDate parts t timeZone =
     (case parts timeZone t of
        (Some year, Some month, Some day) \<Rightarrow>
          if year = '''' \<or> month = '''' \<or> day = '''' then Inl Business_Date_Unavailable
          else Inr (year @ ''-'' @ month @ ''-'' @ day)
      | _ \<Rightarrow> Inl Business_Date_Unavailable)"

definition business_date_pattern :: "string \<Rightarrow> bool" where
  \<comment> \<open>\<open>^([0-9]{4})-([0-9]{2})-([0-9]{2})$\<close>\<close>
  "business_date_pattern s \<longleftrightarrow>
     length s = 10 \<and> list_all is_digit (take 4 s) \<and> s ! 4 = CHR ''-'' \<and>
     list_all is_digit (take 2 (drop 5 s)) \<and> s ! 7 = CHR ''-'' \<and> list_all is_digit (drop 8 s)"

definition addBusinessDays :: "string \<Rightarrow> int \<Rightarrow> calendar_error + string" where
  "addBusinessDays date days =
     (if \<not> business_date_pattern date then Inl Business_Date_Invalid
      else
        let year = int (dec_val (take 4 date)); month = int (dec_val (take 2 (drop 5 date)));
            day = int (dec_val (drop 8 date))
        in Inr (iso_date_prefix (date_utc year (month - 1) (day + days) 0 0 0 0)))"

definition isOnOrAfter :: "string \<Rightarrow> string \<Rightarrow> bool" where
  "isOnOrAfter left right = str_le right left"

section \<open>Days and dates\<close>

lemma div_bounds:
  fixes n x :: int
  assumes "0 < n"
  shows "n * (x div n) \<le> x" and "x < n * (x div n) + n"
proof -
  have "x = n * (x div n) + x mod n" by simp
  moreover have "0 \<le> x mod n" and "x mod n < n" using assms by simp_all
  ultimately show "n * (x div n) \<le> x" and "x < n * (x div n) + n" by linarith+
qed

lemma div_add_one:
  fixes n x :: int
  assumes "0 < n"
  shows "(x + 1) div n = x div n + (if n dvd x + 1 then 1 else 0)"
proof (cases "n dvd x + 1")
  case True
  then obtain q where q: "x + 1 = n * q" by blast
  then have "x = n * (q - 1) + (n - 1)" by (simp add: algebra_simps)
  with assms have "x div n = q - 1" by (intro int_div_pos_eq [where r = "n - 1"]) simp_all
  with q True assms show ?thesis by simp
next
  case False
  have e: "x + 1 = n * (x div n) + (x mod n + 1)" by simp
  moreover from False have "x mod n + 1 \<noteq> n"
    by (metis add.assoc dvd_triv_left e distrib_left mult.right_neutral)
  moreover have "x mod n < n" "0 \<le> x mod n" using assms by simp_all
  ultimately have "(x + 1) div n = x div n" 
    by (intro int_div_pos_eq [where r = "x mod n + 1"]) simp_all
  with False show ?thesis by simp
qed

lemma day_from_year_bounds:
  "146097 * (y - 1970) - 510 \<le> 400 * day_from_year y"
  "400 * day_from_year y \<le> 146097 * (y - 1970) + 600"
proof -
  note div_bounds [of 4 "y - 1969"] div_bounds [of 100 "y - 1901"] div_bounds [of 400 "y - 1601"]
  then show "146097 * (y - 1970) - 510 \<le> 400 * day_from_year y"
    and "400 * day_from_year y \<le> 146097 * (y - 1970) + 600"
    unfolding day_from_year_def by (simp_all add: algebra_simps)
qed

lemma leap_year_dvd: "leap_year y \<longleftrightarrow> 4 dvd y \<and> (\<not> 100 dvd y \<or> 400 dvd y)"
  by (auto simp: leap_year_def)

lemma dvd_shift:
  fixes a b c :: int
  assumes "a dvd c"
  shows "a dvd b - c \<longleftrightarrow> a dvd b"
  using assms by (metis diff_add_cancel dvd_add dvd_diff)

lemma day_from_year_Suc: "day_from_year (y + 1) = day_from_year y + (if leap_year y then 366 else 365)"
proof -
  define a b c where "a = (y - 1969) div 4" and "b = (y - 1901) div 100" and "c = (y - 1601) div 400"
  have "(y + 1 - 1969) div 4 = a + (if 4 dvd y then 1 else 0)"
    using div_add_one [of 4 "y - 1969"] dvd_shift [of 4 1968 y] by (simp add: a_def)
  moreover have "(y + 1 - 1901) div 100 = b + (if 100 dvd y then 1 else 0)"
    using div_add_one [of 100 "y - 1901"] dvd_shift [of 100 1900 y] by (simp add: b_def)
  moreover have "(y + 1 - 1601) div 400 = c + (if 400 dvd y then 1 else 0)"
    using div_add_one [of 400 "y - 1601"] dvd_shift [of 400 1600 y] by (simp add: c_def)
  ultimately have "day_from_year (y + 1) = 365 * (y + 1 - 1970) + (a + (if 4 dvd y then 1 else 0)) -
      (b + (if 100 dvd y then 1 else 0)) + (c + (if 400 dvd y then 1 else 0))"
    by (simp only: day_from_year_def)
  moreover have "day_from_year y = 365 * (y - 1970) + a - b + c"
    by (simp only: day_from_year_def a_def b_def c_def)
  moreover have "100 dvd y \<Longrightarrow> 4 dvd y" and "400 dvd y \<Longrightarrow> 100 dvd y"
    using dvd_trans [of 4 100 y] dvd_trans [of 100 400 y] by simp_all
  moreover have "365 * (y + 1 - 1970) + (a + (if P then 1 else 0)) - (b + (if Q then 1 else 0)) +
      (c + (if R then 1 else 0)) = 365 * (y - 1970) + a - b + c + (if P \<and> (\<not> Q \<or> R) then 366 else 365)"
    if "Q \<longrightarrow> P" and "R \<longrightarrow> Q" for P Q R
    using that by (cases P; cases Q; cases R) simp_all
  ultimately show ?thesis by (simp only: leap_year_dvd) metis
qed

lemma day_from_year_less: "y < z \<Longrightarrow> day_from_year y + 365 \<le> day_from_year z"
proof (induction "nat (z - y)" arbitrary: z)
  case 0
  then show ?case by simp
next
  case (Suc n)
  show ?case
  proof (cases "y < z - 1")
    case True
    with Suc(1) [of "z - 1"] Suc(2) have "day_from_year y + 365 \<le> day_from_year (z - 1)" by auto
    with day_from_year_Suc [of "z - 1"] show ?thesis by (simp split: if_splits)
  next
    case False
    with Suc.prems have "z = y + 1" by simp
    with day_from_year_Suc [of y] show ?thesis by simp
  qed
qed

lemma day_from_year_mono: "y \<le> z \<Longrightarrow> day_from_year y \<le> day_from_year z"
  using day_from_year_less [of y z] by (cases "y = z") auto

lemma year_of_day_bounds: "day_from_year (year_of_day d) \<le> d" "d < day_from_year (year_of_day d + 1)"
proof -
  let ?k = "400 * d div 146097"
  note k = div_bounds [of 146097 "400 * d", simplified]
  have lo: "day_from_year (1970 + ?k - 1) \<le> d"
    using k day_from_year_bounds(2) [of "1970 + ?k - 1"] by simp
  have hi: "d < day_from_year (1970 + ?k + 1 + 1)"
    using k day_from_year_bounds(1) [of "1970 + ?k + 1 + 1"] by simp
  show "day_from_year (year_of_day d) \<le> d" "d < day_from_year (year_of_day d + 1)"
    using lo hi by (simp_all add: year_of_day_def Let_def)
qed

lemma year_of_day_eq:
  assumes "day_from_year y \<le> d" and "d < day_from_year (y + 1)"
  shows "year_of_day d = y"
proof (rule ccontr)
  assume "year_of_day d \<noteq> y"
  then consider "year_of_day d + 1 \<le> y" | "y + 1 \<le> year_of_day d" by linarith
  then show False
    using assms year_of_day_bounds [of d] day_from_year_mono by cases fastforce+
qed

lemma month_cases:
  fixes m :: int
  assumes "0 \<le> m" and "m < 12"
  obtains "m = 0" | "m = 1" | "m = 2" | "m = 3" | "m = 4" | "m = 5" | "m = 6" | "m = 7" |
    "m = 8" | "m = 9" | "m = 10" | "m = 11"
proof -
  from assms have "m = 0 \<or> m = 1 \<or> m = 2 \<or> m = 3 \<or> m = 4 \<or> m = 5 \<or> m = 6 \<or> m = 7 \<or>
    m = 8 \<or> m = 9 \<or> m = 10 \<or> m = 11" by presburger
  with that show thesis by blast
qed

definition days_in_month :: "int \<Rightarrow> int \<Rightarrow> int" where
  "days_in_month y m =
     days_before_month (leap_year y) (m + 1) - days_before_month (leap_year y) m"

lemma month_of_yday_bounds:
  assumes "0 \<le> d" and "d < (if leap then 366 else 365)"
  shows "0 \<le> month_of_yday leap d" "month_of_yday leap d < 12"
    and "days_before_month leap (month_of_yday leap d) \<le> d"
    and "d < days_before_month leap (month_of_yday leap d + 1)"
  using assms unfolding month_of_yday_def Let_def
  by (cases leap; simp add: days_before_month_def)+

lemma month_of_yday_eq:
  assumes "0 \<le> m" "m < 12" "days_before_month leap m \<le> d" "d < days_before_month leap (m + 1)"
  shows "month_of_yday leap d = m"
  by (rule month_cases [OF assms(1,2)]; cases leap)
    (use assms(3,4) in \<open>simp_all add: month_of_yday_def days_before_month_def\<close>)

lemma days_before_month_bounds:
  assumes "0 \<le> m" "m < 12"
  shows "0 \<le> days_before_month leap m" "days_before_month leap (m + 1) \<le> (if leap then 366 else 365)"
    and "28 \<le> days_before_month leap (m + 1) - days_before_month leap m"
    and "days_before_month leap (m + 1) - days_before_month leap m \<le> 31"
  using assms by (cases rule: month_cases; simp add: days_before_month_def)+

lemma days_in_month_bounds:
  "0 \<le> m \<Longrightarrow> m < 12 \<Longrightarrow> 28 \<le> days_in_month y m" "0 \<le> m \<Longrightarrow> m < 12 \<Longrightarrow> days_in_month y m \<le> 31"
  using days_before_month_bounds [of m "leap_year y"] by (simp_all add: days_in_month_def)

lemma make_day_fields:
  assumes m: "0 \<le> m" "m < 12" and d: "1 \<le> d" "d \<le> days_in_month y m"
  shows "year_of_day (make_day y m d) = y"
    and "month_of_day (make_day y m d) = m"
    and "date_of_day (make_day y m d) = d"
proof -
  have mk: "make_day y m d = day_from_year y + days_before_month (leap_year y) m + d - 1"
    using m by (simp add: make_day_def)
  show y: "year_of_day (make_day y m d) = y"
    using m d days_before_month_bounds [OF m, of "leap_year y"]
    by (intro year_of_day_eq) (auto simp: mk day_from_year_Suc days_in_month_def)
  show mo: "month_of_day (make_day y m d) = m"
    unfolding month_of_day_def y Let_def
    by (rule month_of_yday_eq [OF m]) (use d in \<open>simp_all add: mk days_in_month_def\<close>)
  show "date_of_day (make_day y m d) = d"
    unfolding date_of_day_def y mo Let_def by (simp add: mk)
qed

lemma day_fields:
  shows "0 \<le> month_of_day n" "month_of_day n < 12" "1 \<le> date_of_day n"
    and "date_of_day n \<le> days_in_month (year_of_day n) (month_of_day n)"
    and "make_day (year_of_day n) (month_of_day n) (date_of_day n) = n"
proof -
  let ?y = "year_of_day n"
  have "0 \<le> n - day_from_year ?y" "n - day_from_year ?y < (if leap_year ?y then 366 else 365)"
    using year_of_day_bounds [of n] by (simp_all add: day_from_year_Suc)
  note b = month_of_yday_bounds [OF this, folded month_of_day_def [of n, unfolded Let_def]]
  show "0 \<le> month_of_day n" "month_of_day n < 12" "1 \<le> date_of_day n"
    "date_of_day n \<le> days_in_month ?y (month_of_day n)"
    using b by (simp_all add: date_of_day_def days_in_month_def Let_def)
  then show "make_day ?y (month_of_day n) (date_of_day n) = n"
    by (simp add: make_day_def date_of_day_def Let_def)
qed

lemma time_of_day:
  "getUTCHours t * 3600000 + getUTCMinutes t * 60000 + getUTCSeconds t * 1000 + getUTCMilliseconds t =
   t mod ms_per_day"
proof -
  have a: "t mod 86400000 = 3600000 * (t div 3600000 mod 24) + t mod 3600000"
    using zmod_zmult2_eq [of 24 t 3600000] by simp
  have b: "t mod 3600000 = 60000 * (t div 60000 mod 60) + t mod 60000"
    using zmod_zmult2_eq [of 60 t 60000] by simp
  have c: "t mod 60000 = 1000 * (t div 1000 mod 60) + t mod 1000"
    using zmod_zmult2_eq [of 60 t 1000] by simp
  show ?thesis
    unfolding getUTCHours_def getUTCMinutes_def getUTCSeconds_def getUTCMilliseconds_def
      ms_per_day_def a b c
    by (simp only: mult.commute add.assoc)
qed

lemma date_utc_day:
  "date_utc y m d 0 0 0 0 = make_day (if 0 \<le> y \<and> y \<le> 99 then 1900 + y else y) m d * ms_per_day"
  by (simp add: date_utc_def)

lemma date_utc_at:
  assumes "100 \<le> y"
  shows "date_utc y m d (getUTCHours t) (getUTCMinutes t) (getUTCSeconds t) (getUTCMilliseconds t) =
    make_day y m d * ms_per_day + t mod ms_per_day"
  using assms time_of_day [of t] by (simp add: date_utc_def)

lemma instant_split:
  "(n * ms_per_day + t mod ms_per_day) div ms_per_day = n"
  "(n * ms_per_day + t mod ms_per_day) mod ms_per_day = t mod ms_per_day"
  by (simp_all add: ms_per_day_def)

lemma make_day_month_end:
  assumes "0 \<le> m" "m < 12"
  shows "make_day y (m + 1) 0 = make_day y m (days_in_month y m)"
proof (cases "m = 11")
  case True
  then show ?thesis
    by (simp add: make_day_def days_in_month_def days_before_month_def day_from_year_Suc)
next
  case False
  with assms show ?thesis by (simp add: make_day_def days_in_month_def)
qed

lemma last_day_of_month:
  assumes "0 \<le> m" "m < 12" "100 \<le> y"
  shows "getUTCDate (date_utc y (m + 1) 0 0 0 0 0) = days_in_month y m"
proof -
  have "date_utc y (m + 1) 0 0 0 0 0 div ms_per_day = make_day y m (days_in_month y m)"
    using assms by (simp add: date_utc_day make_day_month_end ms_per_day_def)
  then show ?thesis
    using assms days_in_month_bounds [of m y] make_day_fields(3) [of m "days_in_month y m" y]
    by (simp add: getUTCDate_def)
qed

definition month_index :: "instant \<Rightarrow> int" where
  \<comment> \<open>months since year 0\<close>
  "month_index t = 12 * getUTCFullYear t + getUTCMonth t"

definition month_shift :: "instant \<Rightarrow> int \<Rightarrow> instant" where
  \<comment> \<open>the reference: the same time of day, so many months later, on the same day of the
      month or the month's last day\<close>
  "month_shift t k =
     (let i = month_index t + k; y = i div 12; m = i mod 12
      in make_day y m (min (getUTCDate t) (days_in_month y m)) * ms_per_day + t mod ms_per_day)"

lemma instant_fields:
  "0 \<le> getUTCMonth t" "getUTCMonth t < 12" "1 \<le> getUTCDate t"
  "getUTCDate t \<le> days_in_month (getUTCFullYear t) (getUTCMonth t)"
  "make_day (getUTCFullYear t) (getUTCMonth t) (getUTCDate t) = t div ms_per_day"
  using day_fields [of "t div ms_per_day"]
  by (simp_all add: getUTCMonth_def getUTCDate_def getUTCFullYear_def)

lemma month_shift_fields:
  assumes "0 \<le> k"
  shows "month_index (month_shift t k) = month_index t + k"
    and "getUTCDate (month_shift t k) =
           min (getUTCDate t) (days_in_month ((month_index t + k) div 12) ((month_index t + k) mod 12))"
    and "month_shift t k mod ms_per_day = t mod ms_per_day"
proof -
  let ?i = "month_index t + k"
  let ?d = "min (getUTCDate t) (days_in_month (?i div 12) (?i mod 12))"
  have m: "0 \<le> ?i mod 12" "?i mod 12 < 12" by simp_all
  have d: "1 \<le> ?d" "?d \<le> days_in_month (?i div 12) (?i mod 12)"
    using instant_fields(3) [of t] days_in_month_bounds(1) [OF m, of "?i div 12"] by auto
  have day: "month_shift t k div ms_per_day = make_day (?i div 12) (?i mod 12) ?d"
    by (simp add: month_shift_def Let_def instant_split)
  note f = make_day_fields [OF m d]
  show "month_index (month_shift t k) = month_index t + k"
    unfolding month_index_def [of "month_shift t k"] getUTCFullYear_def getUTCMonth_def day f
    by simp
  show "getUTCDate (month_shift t k) = ?d"
    using f(3) by (simp add: getUTCDate_def [of "month_shift t k"] day)
  show "month_shift t k mod ms_per_day = t mod ms_per_day"
    by (simp add: month_shift_def Let_def instant_split)
qed

lemma days_before_month_mono:
  assumes "0 \<le> m" "m < m'" "m' < 12"
  shows "days_before_month leap (m + 1) \<le> days_before_month leap m'"
proof -
  from assms have m: "m < 12" and m': "0 \<le> m'" by simp_all
  show ?thesis
    by (rule month_cases [OF assms(1) m]; rule month_cases [OF m' assms(3)])
      (use assms(2) in \<open>simp_all add: days_before_month_def\<close>)
qed

lemma make_day_less:
  assumes "0 \<le> m" "m < 12" "0 \<le> m'" "m' < 12"
    and "d \<le> days_in_month y m" and "1 \<le> d'" and "12 * y + m < 12 * y' + m'"
  shows "make_day y m d < make_day y' m' d'"
proof (cases "y = y'")
  case True
  with assms(7) have less: "m < m'" by simp
  note days_before_month_mono [OF assms(1) less assms(4), of "leap_year y"]
  with assms True show ?thesis by (simp add: make_day_def days_in_month_def)
next
  case False
  with assms have "y + 1 \<le> y'" by simp
  then have "day_from_year (y + 1) \<le> day_from_year y'" by (rule day_from_year_mono)
  moreover have "make_day y m d < day_from_year (y + 1)"
    using assms days_before_month_bounds(2) [OF assms(1,2), of "leap_year y"]
    by (simp add: make_day_def days_in_month_def day_from_year_Suc split: if_splits)
  moreover have "day_from_year y' \<le> make_day y' m' d'"
    using assms days_before_month_bounds(1) [OF assms(3,4), of "leap_year y'"]
    by (simp add: make_day_def)
  ultimately show ?thesis by linarith
qed

lemma month_index_less:
  assumes "month_index s < month_index t"
  shows "s < t"
proof -
  have "s div ms_per_day < t div ms_per_day"
    using make_day_less [of "getUTCMonth s" "getUTCMonth t" "getUTCDate s" "getUTCFullYear s"
        "getUTCDate t" "getUTCFullYear t"] instant_fields [of s] instant_fields [of t] assms
    by (simp add: month_index_def)
  then show ?thesis by (rule contrapos_pp) (simp add: zdiv_mono1 ms_per_day_def)
qed

section \<open>The end of a billing period\<close>

lemma month_index_split:
  "(12 * y + m + k) div 12 = y + (m + k) div 12" "(12 * y + m + k) mod 12 = (m + k) mod (12::int)"
  by (simp_all add: add.assoc)

lemma periodMonths_pos [simp]: "0 < periodMonths p" "0 \<le> periodMonths p"
  by (cases p; simp)+

lemma target_year:
  assumes "100 \<le> getUTCFullYear t" and "0 \<le> k"
  shows "100 \<le> getUTCFullYear t + (getUTCMonth t + k) div 12"
  using assms instant_fields(1) [of t] by (simp add: pos_imp_zdiv_nonneg_iff)

lemma nextServiceDueAt_shift:
  assumes "100 \<le> getUTCFullYear t"
  shows "nextServiceDueAt t p = month_shift t (periodMonths p)"
proof -
  note y = target_year [OF assms, of "periodMonths p", simplified]
  show ?thesis
    by (simp add: nextServiceDueAt_def month_shift_def Let_def month_index_def month_index_split
        last_day_of_month [OF _ _ y] date_utc_at [OF y])
qed

lemma addBillingPeriod_next: "addBillingPeriod t p = nextServiceDueAt t p"
  by (simp add: addBillingPeriod_def nextServiceDueAt_def Let_def)

text \<open>
  What the two callers of the calendar rely on: advancing an instant by a billing
  period moves it by that many months and keeps the time of day.
\<close>

locale billing_calendar =
  fixes advance :: "instant \<Rightarrow> billing_period \<Rightarrow> instant"
  assumes advance_months:
      "100 \<le> getUTCFullYear t \<Longrightarrow> month_index (advance t p) = month_index t + periodMonths p"
    and advance_date:
      "100 \<le> getUTCFullYear t \<Longrightarrow>
       getUTCDate (advance t p) =
         min (getUTCDate t) (days_in_month (getUTCFullYear (advance t p)) (getUTCMonth (advance t p)))"
    and advance_time: "100 \<le> getUTCFullYear t \<Longrightarrow> advance t p mod ms_per_day = t mod ms_per_day"
begin

lemma advance_later: "100 \<le> getUTCFullYear t \<Longrightarrow> t < advance t p"
  by (rule month_index_less) (simp add: advance_months)

lemma advance_year: "100 \<le> getUTCFullYear t \<Longrightarrow> 100 \<le> getUTCFullYear (advance t p)"
  using advance_months [of t p] instant_fields(1,2) [of t] instant_fields(1,2) [of "advance t p"]
    periodMonths_pos(1) [of p]
  unfolding month_index_def by linarith

fun due_dates :: "instant \<Rightarrow> billing_period \<Rightarrow> nat \<Rightarrow> instant" where
  "due_dates t p 0 = t"
| "due_dates t p (Suc n) = advance (due_dates t p n) p"

lemma due_dates_year: "100 \<le> getUTCFullYear t \<Longrightarrow> 100 \<le> getUTCFullYear (due_dates t p n)"
  by (induction n) (simp_all add: advance_year)

lemma due_dates_months:
  "100 \<le> getUTCFullYear t \<Longrightarrow> month_index (due_dates t p n) = month_index t + int n * periodMonths p"
  by (induction n) (simp_all add: advance_months due_dates_year algebra_simps)

lemma due_dates_strict_mono:
  assumes "100 \<le> getUTCFullYear t" and "m < n"
  shows "due_dates t p m < due_dates t p n"
proof (rule month_index_less)
  have "int m * periodMonths p < int n * periodMonths p"
    using assms(2) by (intro mult_strict_right_mono) simp_all
  with assms(1) show "month_index (due_dates t p m) < month_index (due_dates t p n)"
    by (simp add: due_dates_months)
qed

end

lemma month_shift_calendar:
  assumes "0 \<le> k"
  shows "getUTCDate (month_shift t k) =
    min (getUTCDate t) (days_in_month (getUTCFullYear (month_shift t k)) (getUTCMonth (month_shift t k)))"
proof -
  have "month_index t + k = 12 * getUTCFullYear (month_shift t k) + getUTCMonth (month_shift t k)"
    using month_shift_fields(1) [OF assms, of t] by (simp add: month_index_def)
  then show ?thesis
    using month_shift_fields(2) [OF assms, of t] instant_fields(1,2) [of "month_shift t k"] by simp
qed

lemma nextServiceDueAt_laws:
  assumes "100 \<le> getUTCFullYear t"
  shows "month_index (nextServiceDueAt t p) = month_index t + periodMonths p"
    and "getUTCDate (nextServiceDueAt t p) =
         min (getUTCDate t) (days_in_month (getUTCFullYear (nextServiceDueAt t p))
           (getUTCMonth (nextServiceDueAt t p)))"
    and "nextServiceDueAt t p mod ms_per_day = t mod ms_per_day"
  using month_shift_fields [of "periodMonths p" t] month_shift_calendar [of "periodMonths p" t]
    by (simp_all add: nextServiceDueAt_shift [OF assms])

interpretation api_calendar: billing_calendar nextServiceDueAt
  by unfold_locales (rule nextServiceDueAt_laws; assumption)+

interpretation worker_calendar: billing_calendar addBillingPeriod
  by unfold_locales (simp_all add: addBillingPeriod_next nextServiceDueAt_laws)

section \<open>Business dates as strings\<close>

lemma str_le_append:
  assumes "length a = length c"
  shows "str_le (a @ b) (c @ d) \<longleftrightarrow> (a = c \<and> str_le b d) \<or> (a \<noteq> c \<and> str_le a c)"
  using assms by (induction a c rule: list_induct2) auto

definition iso_day :: "int \<Rightarrow> string" where
  "iso_day n = iso_date_prefix (n * ms_per_day)"

lemma iso_fields: "getUTCFullYear (n * ms_per_day) = year_of_day n"
  "getUTCMonth (n * ms_per_day) = month_of_day n" "getUTCDate (n * ms_per_day) = date_of_day n"
  by (simp_all add: getUTCFullYear_def getUTCMonth_def getUTCDate_def ms_per_day_def)

lemma padded_field:
  assumes "0 \<le> n" "n < 10 ^ k" "0 < k"
  shows "length (pad_start k CHR ''0'' (show_nat (nat n))) = k"
    and "list_all is_digit (pad_start k CHR ''0'' (show_nat (nat n)))"
    and "dec_val (pad_start k CHR ''0'' (show_nat (nat n))) = nat n"
proof -
  have "nat n < 10 ^ k" using assms by (simp add: nat_less_iff)
  then show "length (pad_start k CHR ''0'' (show_nat (nat n))) = k"
    using length_show_nat [OF assms(3), of "nat n"] by simp
qed simp_all

lemma str_le_padded:
  assumes "0 \<le> a" "a < 10 ^ k" "0 \<le> b" "b < 10 ^ k" "0 < k"
  shows "str_le (pad_start k CHR ''0'' (show_nat (nat a))) (pad_start k CHR ''0'' (show_nat (nat b))) \<longleftrightarrow> a \<le> b"
    and "pad_start k CHR ''0'' (show_nat (nat a)) = pad_start k CHR ''0'' (show_nat (nat b)) \<longleftrightarrow> a = b"
proof -
  note a = padded_field [OF assms(1,2,5)] and b = padded_field [OF assms(3,4,5)]
  show "str_le (pad_start k CHR ''0'' (show_nat (nat a))) (pad_start k CHR ''0'' (show_nat (nat b))) \<longleftrightarrow> a \<le> b"
    using str_le_dec_val [OF a(2) b(2)] a(1,3) b(1,3) assms by (simp add: nat_le_eq_zle)
  show "pad_start k CHR ''0'' (show_nat (nat a)) = pad_start k CHR ''0'' (show_nat (nat b)) \<longleftrightarrow> a = b"
    using a(3) b(3) assms by (metis eq_nat_nat_iff)
qed

definition four_digit_year :: "int \<Rightarrow> bool" where
  "four_digit_year n \<longleftrightarrow> 0 \<le> year_of_day n \<and> year_of_day n \<le> 9999"

lemma day_field_ranges:
  "0 \<le> month_of_day n + 1" "month_of_day n + 1 < 10 ^ 2" "0 \<le> date_of_day n" "date_of_day n < 10 ^ 2"
proof -
  note f = day_fields [of n]
  show "0 \<le> month_of_day n + 1" "month_of_day n + 1 < 10 ^ 2" "0 \<le> date_of_day n"
    using f by simp_all
  have "date_of_day n \<le> 31"
    using f(4) days_in_month_bounds(2) [OF f(1,2), of "year_of_day n"] by linarith
  then show "date_of_day n < 10 ^ 2" by simp
qed

lemma iso_day_text:
  assumes "four_digit_year n"
  shows "iso_day n = pad_start 4 CHR ''0'' (show_nat (nat (year_of_day n))) @ ''-'' @
    two_digits (month_of_day n + 1) @ ''-'' @ two_digits (date_of_day n)"
proof -
  have y: "0 \<le> year_of_day n" "year_of_day n < 10 ^ 4" using assms by (simp_all add: four_digit_year_def)
  have "length (two_digits (month_of_day n + 1)) = 2" "length (two_digits (date_of_day n)) = 2"
    unfolding two_digits_def by (rule padded_field(1); use day_field_ranges [of n] in simp)+
  moreover have "length (pad_start 4 CHR ''0'' (show_nat (nat (year_of_day n)))) = 4"
    using padded_field(1) [OF y] by simp
  ultimately show ?thesis
    using assms by (simp add: iso_day_def iso_date_prefix_def iso_fields iso_year_def four_digit_year_def)
qed

lemma make_day_add: "make_day y m (d + k) = make_day y m d + k"
  by (simp add: make_day_def Let_def)

lemma day_order:
  "a \<le> b \<longleftrightarrow> year_of_day a < year_of_day b \<or> (year_of_day a = year_of_day b \<and>
     (month_of_day a < month_of_day b \<or>
      (month_of_day a = month_of_day b \<and> date_of_day a \<le> date_of_day b)))"
proof -
  let ?i = "\<lambda>n. 12 * year_of_day n + month_of_day n"
  have less: "?i m < ?i n \<Longrightarrow> m < n" for m n
    using make_day_less [of "month_of_day m" "month_of_day n" "date_of_day m" "year_of_day m"
        "date_of_day n" "year_of_day n"] day_fields [of m] day_fields [of n] by simp
  have same: "b = a + (date_of_day b - date_of_day a)" if "year_of_day a = year_of_day b"
      "month_of_day a = month_of_day b"
    using make_day_add [of "year_of_day a" "month_of_day a" "date_of_day a" "date_of_day b - date_of_day a"]
      day_fields(5) [of a] day_fields(5) [of b] that by simp
  have idx: "year_of_day a < year_of_day b \<Longrightarrow> ?i a < ?i b" "year_of_day b < year_of_day a \<Longrightarrow> ?i b < ?i a"
    using day_fields(1,2) [of a] day_fields(1,2) [of b] by linarith+
  consider "year_of_day a < year_of_day b" | "year_of_day b < year_of_day a" |
    "year_of_day a = year_of_day b" "month_of_day a < month_of_day b" |
    "year_of_day a = year_of_day b" "month_of_day b < month_of_day a" |
    "year_of_day a = year_of_day b" "month_of_day a = month_of_day b" by linarith
  then show ?thesis
  proof cases
    case 1
    with less [of a b] idx show ?thesis by simp
  next
    case 2
    with less [of b a] idx show ?thesis by simp
  next
    case 3
    with less [of a b] show ?thesis by simp
  next
    case 4
    with less [of b a] show ?thesis by simp
  next
    case 5
    with same have "b = a + (date_of_day b - date_of_day a)" by blast
    then have "a \<le> b \<longleftrightarrow> date_of_day a \<le> date_of_day b" by linarith
    with 5 show ?thesis by simp
  qed
qed

lemma iso_day_order:
  assumes "four_digit_year a" "four_digit_year b"
  shows "str_le (iso_day a) (iso_day b) \<longleftrightarrow> a \<le> b"
proof -
  have y: "0 \<le> year_of_day a" "year_of_day a < 10 ^ 4" "0 \<le> year_of_day b" "year_of_day b < 10 ^ 4"
    using assms by (simp_all add: four_digit_year_def)
  note r = day_field_ranges
  let ?f = "\<lambda>k n. pad_start k CHR ''0'' (show_nat (nat n))"
  have "length (?f 4 (year_of_day a)) = length (?f 4 (year_of_day b))"
    using padded_field(1) [OF y(1,2)] padded_field(1) [OF y(3,4)] by (simp only:)
  moreover have "length (?f 2 (month_of_day a + 1)) = length (?f 2 (month_of_day b + 1))"
    using padded_field(1) [OF r(1,2)] by (simp only:)
  ultimately have "str_le (iso_day a) (iso_day b) \<longleftrightarrow>
      ?f 4 (year_of_day a) = ?f 4 (year_of_day b) \<and>
        (?f 2 (month_of_day a + 1) = ?f 2 (month_of_day b + 1) \<and>
           str_le (?f 2 (date_of_day a)) (?f 2 (date_of_day b)) \<or>
         ?f 2 (month_of_day a + 1) \<noteq> ?f 2 (month_of_day b + 1) \<and>
           str_le (?f 2 (month_of_day a + 1)) (?f 2 (month_of_day b + 1))) \<or>
      ?f 4 (year_of_day a) \<noteq> ?f 4 (year_of_day b) \<and>
        str_le (?f 4 (year_of_day a)) (?f 4 (year_of_day b))"
    by (simp only: iso_day_text [OF assms(1)] iso_day_text [OF assms(2)] two_digits_def str_le_append
        append.simps str_le.simps less_irrefl simp_thms)
  also have "\<dots> \<longleftrightarrow> a \<le> b"
    unfolding day_order [of a b] str_le_padded [OF y zero_less_numeral]
      str_le_padded [OF r(1,2) r(1,2) zero_less_numeral] str_le_padded [OF r(3,4) r(3,4) zero_less_numeral]
    by (simp only: add_left_cancel add_right_cancel add_le_cancel_right) linarith
  finally show ?thesis .
qed

lemma addBusinessDays_iso:
  assumes "100 \<le> year_of_day n" and "year_of_day n \<le> 9999"
  shows "addBusinessDays (iso_day n) k = Inr (iso_day (n + k))"
proof -
  have f: "four_digit_year n" using assms by (simp add: four_digit_year_def)
  have y: "0 \<le> year_of_day n" "year_of_day n < 10 ^ 4" using assms by simp_all
  note r = day_field_ranges [of n]
  define a b c where "a = pad_start 4 CHR ''0'' (show_nat (nat (year_of_day n)))"
    and "b = two_digits (month_of_day n + 1)" and "c = two_digits (date_of_day n)"
  have a: "length a = 4" "list_all is_digit a" "int (dec_val a) = year_of_day n"
    using padded_field [OF y] y by (simp_all add: a_def)
  have b: "length b = 2" "list_all is_digit b" "int (dec_val b) = month_of_day n + 1"
    using padded_field [OF r(1,2)] r by (simp_all add: b_def two_digits_def)
  have c: "length c = 2" "list_all is_digit c" "int (dec_val c) = date_of_day n"
    using padded_field [OF r(3,4)] r by (simp_all add: c_def two_digits_def)
  have t: "iso_day n = a @ CHR ''-'' # b @ CHR ''-'' # c"
    by (simp add: iso_day_text [OF f] a_def b_def c_def)
  have "business_date_pattern (iso_day n)"
    unfolding t business_date_pattern_def using a b c by (simp add: nth_append)
  moreover have "take 4 (iso_day n) = a" "take 2 (drop 5 (iso_day n)) = b" "drop 8 (iso_day n) = c"
    unfolding t using a b c by simp_all
  moreover have "make_day (year_of_day n) (month_of_day n) (date_of_day n + k) = n + k"
    by (simp add: make_day_add day_fields(5))
  ultimately show ?thesis
    using a b c assms by (simp add: addBusinessDays_def Let_def date_utc_day iso_day_def)
qed

section \<open>Properties\<close>

text \<open>The two implementations of the end of a billing period (the API's, used when a
  service is activated, and the worker's, used when it is renewed) agree on every
  instant and period.\<close>

theorem due_date_implementations_agree: "nextServiceDueAt t p = addBillingPeriod t p"
  by (simp add: addBillingPeriod_next)

text \<open>The end of a billing period is strictly after its start, exactly the period's number
  of months later, at the same time of day and on the same day of the month, or on the
  month's last day where the month is too short (31 January plus a month is 28 or
  29 February).\<close>

theorem addBillingPeriod_calendar:
  assumes "100 \<le> getUTCFullYear t"
  shows "t < addBillingPeriod t p \<and>
    month_index (addBillingPeriod t p) = month_index t + periodMonths p \<and>
    addBillingPeriod t p mod ms_per_day = t mod ms_per_day \<and>
    getUTCDate (addBillingPeriod t p) =
      min (getUTCDate t)
        (days_in_month (getUTCFullYear (addBillingPeriod t p)) (getUTCMonth (addBillingPeriod t p)))"
  using worker_calendar.advance_later [OF assms] worker_calendar.advance_months [OF assms]
    worker_calendar.advance_time [OF assms] worker_calendar.advance_date [OF assms] by blast

theorem addBillingPeriod_calendar_witness:
  \<comment> \<open>31 January 2024, 12:00 UTC\<close>
  "addBillingPeriod 1706702400000 MONTHLY = 1709208000000 \<and>
   1706702400000 < addBillingPeriod 1706702400000 MONTHLY"
proof -
  have "100 \<le> getUTCFullYear 1706702400000" by code_simp
  from addBillingPeriod_calendar [OF this, of MONTHLY] show ?thesis by (simp, code_simp)
qed

text \<open>Adding business days to a date written as text adds exactly that many days to the
  calendar day it denotes: for a date of the years 100 to 9999 the result is the text
  of the day so many days later (or earlier).\<close>

theorem addBusinessDays_exact:
  assumes "100 \<le> year_of_day n" and "year_of_day n \<le> 9999"
  shows "addBusinessDays (iso_day n) k = Inr (iso_day (n + k))"
  using assms by (rule addBusinessDays_iso)

theorem addBusinessDays_exact_witness:
  \<comment> \<open>day 19782 is 29 February 2024\<close>
  "addBusinessDays ''2024-02-29'' (- 60) = Inr (iso_day (19782 - 60)) \<and> iso_day 19782 = ''2024-02-29''"
proof -
  have y: "year_of_day 19782 = 2024" and f: "month_of_day 19782 = 1" "date_of_day 19782 = 29" by code_simp+
  have t: "iso_day 19782 = ''2024-02-29''"
    by (simp add: iso_day_text four_digit_year_def y f two_digits_def show_nat.simps
        pad_start_def digit_char_table)
  from addBusinessDays_exact [of 19782 "- 60"] y t show ?thesis by simp
qed

text \<open>Comparing business dates as strings is comparing the days: \<open>isOnOrAfter\<close> on the texts
  of two days with four-digit years holds exactly when the first is not before the
  second, so the lead time, reminder and grace period checks are calendar checks.\<close>

theorem isOnOrAfter_chronological:
  assumes "four_digit_year a" and "four_digit_year b"
  shows "isOnOrAfter (iso_day a) (iso_day b) \<longleftrightarrow> b \<le> a"
  using assms by (simp add: isOnOrAfter_def iso_day_order)

theorem isOnOrAfter_chronological_witness:
  "isOnOrAfter (iso_day 19782) (iso_day 19723) \<and> \<not> isOnOrAfter (iso_day 19723) (iso_day 19782)"
proof -
  have "four_digit_year 19782" "four_digit_year 19723" by code_simp+
  from isOnOrAfter_chronological [OF this] isOnOrAfter_chronological [OF this(2,1)]
  show ?thesis by simp
qed

end
