(* ===== verification/Database.thy ===== *)
theory Database
  imports Money Calendar
begin

text \<open>
  The billing database the services share: the rows of
  \<^verbatim>\<open>packages/database/prisma/schema.prisma\<close> (the columns the modelled services read or
  write), the unique keys and CHECK constraints that PostgreSQL enforces on them
  (\<^verbatim>\<open>prisma/migrations\<close>), and the Prisma calls the services issue: \<open>findUnique\<close>,
  \<open>create\<close>, \<open>update\<close>, \<open>updateMany\<close>, \<open>upsert\<close>. A transaction is a function from the
  database to a result; when it fails the database is unchanged. Identifiers made by
  \<open>uuid()\<close> are drawn from a counter kept in the database, and an insertion whose
  identifier exists is refused like any other duplicate key.
\<close>

section \<open>Stored values\<close>

datatype json = JNull | JBool bool | JNum int | JStr string | JArr "json list"
  | JObj "(string \<times> json) list"

fun jfield :: "string \<Rightarrow> json \<Rightarrow> json option" where
  "jfield k (JObj fs) = map_of fs k"
| "jfield k _ = None"

definition jstr_opt :: "string option \<Rightarrow> json" where
  "jstr_opt s = (case s of None \<Rightarrow> JNull | Some t \<Rightarrow> JStr t)"

datatype invoice_status = Inv_DRAFT | Inv_UNPAID | Inv_PAID | Inv_OVERDUE | Inv_CANCELLED
  | Inv_REFUNDED | Inv_PARTIALLY_REFUNDED
datatype order_status = Ord_PENDING | Ord_AWAITING_PAYMENT | Ord_PAID | Ord_PROCESSING
  | Ord_COMPLETED | Ord_REJECTED | Ord_CANCELLED | Ord_FAILED
datatype payment_kind = CHARGE | REFUND | REVERSAL
datatype payment_status = Pay_PENDING | Pay_SUCCEEDED | Pay_FAILED | Pay_CANCELLED
datatype payment_event_status = Evt_RECEIVED | Evt_PROCESSED | Evt_IGNORED | Evt_FAILED
datatype service_status = Svc_PENDING | Svc_PROVISIONING | Svc_ACTIVE | Svc_SUSPENDED
  | Svc_PROVISION_FAILED | Svc_CANCELLED | Svc_TERMINATED
datatype automation_status = Auto_RUNNING | Auto_SUCCEEDED | Auto_PARTIALLY_SUCCEEDED
  | Auto_FAILED | Auto_SKIPPED
datatype outbox_status = Out_PENDING | Out_PROCESSING | Out_PUBLISHED | Out_FAILED
datatype cancellation_timing = IMMEDIATE | END_OF_PERIOD
datatype cancellation_status = Can_OPEN | Can_WITHDRAWN | Can_COMPLETED
datatype operation_type = TEST_CONNECTION | CREATE_ACCOUNT | GET_ACCOUNT | SUSPEND_ACCOUNT
  | UNSUSPEND_ACCOUNT | CHANGE_PACKAGE | CHANGE_PASSWORD | GENERATE_LOGIN_URL | TERMINATE_ACCOUNT
datatype operation_status = Op_RUNNING | Op_SUCCEEDED | Op_FAILED | Op_INCONSISTENT
datatype panel_error_kind = Panel_TEMPORARY | Panel_PERMANENT | Panel_INCONSISTENT
datatype product_kind = Kind_HOSTING | Kind_DOMAIN | Kind_ADD_ON
datatype product_status = Prod_DRAFT | Prod_ACTIVE | Prod_ARCHIVED
datatype server_status = Srv_ACTIVE | Srv_MAINTENANCE | Srv_DISABLED
datatype price_period = One_Time | Every billing_period | Semiannual | Biennial | Triennial
datatype user_role = ADMIN | CUSTOMER
datatype user_status = User_PENDING_VERIFICATION | User_ACTIVE | User_SUSPENDED | User_DISABLED
datatype customer_status = Cust_ACTIVE | Cust_INACTIVE

record user =
  u_id :: uuid
  u_email :: string
  u_role :: user_role
  u_status :: user_status
  u_deletedAt :: "instant option"
  u_emailVerifiedAt :: "instant option"
  u_staffRole :: "string option"
    \<comment> \<open>of the administrator's profile\<close>
  u_totpEnabledAt :: "instant option"
    \<comment> \<open>of the administrator's second factor\<close>

record customer =
  c_id :: uuid
  c_userId :: uuid
  c_status :: customer_status
  c_firstName :: string
  c_lastName :: string
  c_companyName :: "string option"
  c_addressLine1 :: string
  c_addressLine2 :: "string option"
  c_city :: string
  c_region :: "string option"
  c_postalCode :: "string option"
  c_countryCode :: string
  c_taxIdentifier :: "string option"
  c_deletedAt :: "instant option"

record invoice_item =
  it_linePosition :: nat
  it_orderItemId :: "uuid option"
  it_serviceId :: "uuid option"
  it_description :: string
  it_currency :: string
  it_quantity :: int
  it_unitAmount :: int
  it_discountAmount :: int
  it_taxAmount :: int
  it_lineTotal :: int
  it_periodStart :: "instant option"
  it_periodEnd :: "instant option"

record invoice_snapshot =
  sn_customerName :: string
  sn_customerEmail :: string
  sn_customerAddress :: json
  sn_businessIdentity :: json
  sn_taxIdentity :: "json option"

record invoice =
  i_id :: uuid
  i_number :: string
  i_submissionKey :: string
  i_customerId :: uuid
  i_orderId :: "uuid option"
  i_status :: invoice_status
  i_currency :: string
  i_subtotal :: int
  i_discountTotal :: int
  i_taxTotal :: int
  i_total :: int
  i_creditTotal :: int
  i_amountPaid :: int
  i_balanceDue :: int
  i_snapshot :: invoice_snapshot
  i_issuedAt :: "instant option"
  i_dueAt :: instant
  i_paidAt :: "instant option"
  i_cancelledAt :: "instant option"
  i_updatedAt :: instant
  i_items :: "invoice_item list"

record payment =
  p_id :: uuid
  p_invoiceId :: uuid
  p_originalPaymentId :: "uuid option"
  p_createdByUserId :: "uuid option"
  p_reviewedByUserId :: "uuid option"
  p_kind :: payment_kind
  p_status :: payment_status
  p_provider :: string
  p_providerTransactionId :: "string option"
  p_idempotencyKey :: string
  p_amount :: int
  p_currency :: string
  p_reference :: "string option"
  p_checkoutUrl :: "string option"
  p_sessionExpiresAt :: "instant option"
  p_manualMethod :: "string option"
  p_proofMetadata :: "json option"
  p_failureReason :: "string option"
  p_receivedAt :: "instant option"
  p_reviewedAt :: "instant option"
  p_verifiedAt :: "instant option"

record payment_event =
  e_id :: uuid
  e_paymentId :: "uuid option"
  e_provider :: string
  e_providerEventId :: string
  e_idempotencyKey :: string
  e_eventType :: string
  e_status :: payment_event_status
  e_payloadHash :: string
  e_normalizedPayload :: json
  e_errorMessage :: "string option"
  e_processedAt :: "instant option"

record product =
  pr_id :: uuid
  pr_kind :: product_kind
  pr_slug :: string
  pr_name :: string
  pr_description :: "string option"
  pr_status :: product_status
  pr_publicVisible :: bool
  pr_hostingPackage :: "string option"
  pr_deletedAt :: "instant option"

record price =
  pp_id :: uuid
  pp_productId :: uuid
  pp_period :: price_period
  pp_currency :: string
  pp_amount :: int
  pp_setupFee :: int
  pp_isActive :: bool
  pp_validFrom :: "instant option"
  pp_validUntil :: "instant option"
  pp_deletedAt :: "instant option"

record order =
  ord_id :: uuid
  ord_number :: string
  ord_submissionKey :: string
  ord_customerId :: uuid
  ord_status :: order_status
  ord_currency :: string
  ord_subtotal :: int
  ord_setupTotal :: int
  ord_discountTotal :: int
  ord_taxTotal :: int
  ord_total :: int
  ord_customerEmail :: string
  ord_termsAcceptance :: "json option"
  ord_notes :: "string option"
  ord_placedAt :: instant
  ord_completedAt :: "instant option"
  ord_cancelledAt :: "instant option"
  ord_updatedAt :: instant

record order_item =
  oi_id :: uuid
  oi_orderId :: uuid
  oi_kind :: product_kind
  oi_productId :: uuid
  oi_priceId :: uuid
  oi_productName :: string
  oi_description :: "string option"
  oi_billingPeriod :: price_period
  oi_currency :: string
  oi_unitAmount :: int
  oi_setupFee :: int
  oi_quantity :: int
  oi_lineTotal :: int
  oi_requestedDomain :: "string option"
  oi_provisioningSnapshot :: "json option"
  oi_fulfilledAt :: "instant option"
  oi_renewalEndsAt :: "instant option"

record service =
  s_id :: uuid
  s_customerId :: uuid
  s_orderItemId :: "uuid option"
  s_suspensionInvoiceId :: "uuid option"
  s_status :: service_status
  s_domain :: "string option"
  s_productName :: string
  s_billingPeriod :: "billing_period option"
    \<comment> \<open>\<open>None\<close> is a stored period that is not one of the hosting periods\<close>
  s_recurringAmount :: int
  s_currency :: string
  s_nextDueAt :: instant
  s_serverId :: uuid
  s_externalAccountId :: "string option"
  s_controlPanelUsername :: "string option"
  s_suspendedAt :: "instant option"
  s_suspensionReason :: "string option"
  s_productId :: uuid
  s_priceId :: uuid
  s_productDescription :: "string option"
  s_provisioningSnapshot :: "json option"
  s_startedAt :: instant
  s_activatedAt :: "instant option"
  s_provisioningFailureReason :: "string option"
  s_cancelledAt :: "instant option"
  s_cancellationReason :: "string option"
  s_terminatedAt :: "instant option"
  s_terminationReason :: "string option"
  s_terminatedByUserId :: "uuid option"
  s_updatedAt :: instant

record server =
  sv_id :: uuid
  sv_hostname :: string
  sv_adapterKey :: string
  sv_apiUsername :: "string option"
  sv_credentialsCiphertext :: "string option"
  sv_credentialKeyVersion :: "string option"
  sv_port :: int
  sv_useTls :: bool
  sv_name :: string
  sv_status :: server_status
  sv_maxAccounts :: "int option"
  sv_deletedAt :: "instant option"

record cancellation =
  h_id :: uuid
  h_serviceId :: uuid
  h_timing :: cancellation_timing
  h_status :: cancellation_status
  h_reason :: "string option"
  h_effectiveAt :: "instant option"
  h_approvedAt :: "instant option"
  h_createdAt :: instant
  h_resolvedAt :: "instant option"

record hosting_operation =
  op_id :: uuid
  op_serviceId :: "uuid option"
  op_serverId :: uuid
  op_requestedByUserId :: "uuid option"
  op_automationRunId :: "uuid option"
  op_retryOfOperationId :: "uuid option"
  op_type :: operation_type
  op_status :: operation_status
  op_adapterKey :: string
  op_idempotencyKey :: string
  op_requestFingerprint :: string
  op_attemptNumber :: nat
  op_retryable :: bool
  op_errorKind :: "panel_error_kind option"
  op_errorCode :: "string option"
  op_errorMessage :: "string option"
  op_requestMetadata :: "json option"
  op_resultMetadata :: "json option"
  op_completedAt :: "instant option"

record automation_run =
  r_id :: uuid
  r_jobName :: string
  r_idempotencyKey :: string
  r_status :: automation_status
  r_startedAt :: instant
  r_completedAt :: "instant option"
  r_processed :: int
  r_succeeded :: int
  r_failed :: int
  r_errorSummary :: "string option"
  r_metadata :: json

record outbox_event =
  o_id :: uuid
  o_aggregateType :: string
  o_aggregateId :: uuid
  o_eventType :: string
  o_idempotencyKey :: string
  o_payload :: json
  o_status :: outbox_status
  o_attemptCount :: nat
  o_availableAt :: instant
  o_lockedAt :: "instant option"
  o_lockedBy :: "string option"
  o_publishedAt :: "instant option"
  o_lastError :: "string option"

record activity =
  a_actorUserId :: "uuid option"
  a_action :: string
  a_entityType :: string
  a_entityId :: "uuid option"
  a_correlationId :: "uuid option"
  a_metadata :: "(string \<times> json) list"

record registered_domain =
  dm_id :: uuid
  dm_quoteId :: "uuid option"
  dm_customerId :: uuid
  dm_accountId :: uuid
  dm_executionAccountId :: "uuid option"
  dm_orderItemId :: "uuid option"
  dm_invoiceId :: "uuid option"
  dm_origin :: string
  dm_ownershipVerifiedAt :: "instant option"
  dm_linkEvidence :: "string option"
  dm_domainName :: string
  dm_state :: string
  dm_verification :: string
  dm_providerOrderId :: "string option"
  dm_expiresAt :: "instant option"

record registrar_operation =
  ro_id :: uuid
  ro_domainId :: uuid
  ro_accountId :: uuid
  ro_credentialId :: uuid
  ro_selectedAccountId :: "uuid option"
  ro_selectedCredentialId :: "uuid option"
  ro_selectionFingerprint :: "string option"
  ro_actorUserId :: uuid
  ro_costCeiling :: int
  ro_riskAccepted :: bool
  ro_claimedAt :: "instant option"
  ro_nextPollAt :: instant
  ro_pollCount :: nat

record existing_domain_order =
  eo_domainId :: uuid
  eo_orderItemId :: uuid
  eo_invoiceId :: uuid
  eo_customerId :: uuid

record registry =
  rg_domains :: "registered_domain list"
  rg_operations :: "registrar_operation list"
  rg_existingOrders :: "existing_domain_order list"

record db =
  d_supply :: nat
  d_users :: "user list"
  d_customers :: "customer list"
  d_invoices :: "invoice list"
  d_payments :: "payment list"
  d_paymentEvents :: "payment_event list"
  d_products :: "product list"
  d_prices :: "price list"
  d_eligibility :: "(uuid \<times> uuid) list"
    \<comment> \<open>hosting products with the add-ons that may be bought with them\<close>
  d_orders :: "order list"
  d_orderItems :: "order_item list"
  d_services :: "service list"
  d_servers :: "server list"
  d_cancellations :: "cancellation list"
  d_operations :: "hosting_operation list"
  d_runs :: "automation_run list"
  d_outbox :: "outbox_event list"
  d_settings :: "(string \<times> json) list"
  d_registry :: registry
  d_activity :: "activity list"

definition empty_db :: db where
  "empty_db = \<lparr>d_supply = 0, d_users = [], d_customers = [], d_invoices = [], d_payments = [],
     d_paymentEvents = [], d_products = [], d_prices = [], d_eligibility = [], d_orders = [], d_orderItems = [], d_services = [], d_servers = [], d_cancellations = [],
     d_operations = [], d_runs = [],
     d_outbox = [], d_settings = [],
     d_registry = \<lparr>rg_domains = [], rg_operations = [], rg_existingOrders = []\<rparr>, d_activity = []\<rparr>"

section \<open>Errors and transactions\<close>

datatype api_error =
    Not_Found string | Forbidden string | Unprocessable string | Conflict string
  | Service_Unavailable string | Webhook_Rejected string bool
  | Unique_Violation | Check_Violation | Record_Missing | Server_Error string

type_synonym 'a tx = "db \<Rightarrow> api_error + db \<times> 'a"
type_synonym 'a handler = "db \<Rightarrow> db \<times> (api_error + 'a)"

definition run_tx :: "'a tx \<Rightarrow> 'a handler" where
  \<comment> \<open>\<open>prisma.$transaction\<close>: all of it or nothing\<close>
  "run_tx t d = (case t d of Inl e \<Rightarrow> (d, Inl e) | Inr (d', x) \<Rightarrow> (d', Inr x))"

section \<open>Constraints\<close>

fun json_object :: "json \<Rightarrow> bool" where
  "json_object (JObj fs) = True"
| "json_object _ = False"

definition invoice_check :: "invoice \<Rightarrow> bool" where
  "invoice_check i \<longleftrightarrow>
     currencyCodeSchema (i_currency i) \<and>
     json_object (sn_customerAddress (i_snapshot i)) \<and> json_object (sn_businessIdentity (i_snapshot i)) \<and>
     0 \<le> i_subtotal i \<and> 0 \<le> i_discountTotal i \<and> 0 \<le> i_taxTotal i \<and> 0 \<le> i_total i \<and>
     0 \<le> i_creditTotal i \<and> 0 \<le> i_amountPaid i \<and> 0 \<le> i_balanceDue i \<and>
     i_creditTotal i + i_amountPaid i \<le> i_total i \<and>
     i_total i = i_subtotal i - i_discountTotal i + i_taxTotal i \<and>
     i_balanceDue i = i_total i - i_creditTotal i - i_amountPaid i \<and>
     (case i_issuedAt i of None \<Rightarrow> True | Some t \<Rightarrow> t \<le> i_dueAt i)"

definition invoice_item_check :: "invoice_item \<Rightarrow> bool" where
  "invoice_item_check it \<longleftrightarrow>
     currencyCodeSchema (it_currency it) \<and> 0 < it_quantity it \<and> 0 < it_linePosition it \<and>
     0 \<le> it_unitAmount it \<and> 0 \<le> it_discountAmount it \<and> 0 \<le> it_taxAmount it \<and>
     0 \<le> it_lineTotal it \<and>
     it_lineTotal it = it_unitAmount it * it_quantity it - it_discountAmount it + it_taxAmount it \<and>
     (case (it_periodStart it, it_periodEnd it) of (Some s, Some e) \<Rightarrow> s < e | _ \<Rightarrow> True)"

definition payment_check :: "payment \<Rightarrow> bool" where
  "payment_check p \<longleftrightarrow>
     currencyCodeSchema (p_currency p) \<and> 0 < p_amount p \<and>
     (p_kind p = CHARGE \<longleftrightarrow> p_originalPaymentId p = None) \<and>
     p_originalPaymentId p \<noteq> Some (p_id p) \<and>
     (p_provider p \<noteq> ''manual'' \<or>
       (p_manualMethod p \<noteq> None \<and> p_reference p \<noteq> None \<and> p_proofMetadata p \<noteq> None \<and>
        (p_status p = Pay_PENDING \<and> p_reviewedAt p = None \<and> p_verifiedAt p = None \<or>
         p_status p = Pay_SUCCEEDED \<and> p_reviewedAt p \<noteq> None \<and> p_verifiedAt p \<noteq> None \<or>
         p_status p \<in> {Pay_FAILED, Pay_CANCELLED} \<and> p_reviewedAt p \<noteq> None \<and> p_verifiedAt p = None)))"

definition run_check :: "automation_run \<Rightarrow> bool" where
  "run_check r \<longleftrightarrow>
     0 \<le> r_processed r \<and> 0 \<le> r_succeeded r \<and> 0 \<le> r_failed r \<and>
     r_succeeded r + r_failed r \<le> r_processed r"

definition service_keys :: "invoice_item list \<Rightarrow> (uuid option \<times> instant option \<times> instant option) list" where
  \<comment> \<open>the service periods an invoice bills\<close>
  "service_keys items =
     map (\<lambda>it. (it_serviceId it, it_periodStart it, it_periodEnd it))
       (filter (\<lambda>it. it_serviceId it \<noteq> None) items)"

definition billed_periods :: "invoice list \<Rightarrow> (uuid option \<times> instant option \<times> instant option) list" where
  "billed_periods is = concat (map (\<lambda>i. service_keys (i_items i)) is)"

lemma billed_periods_append [simp]:
  "billed_periods (is @ js) = billed_periods is @ billed_periods js"
  by (simp add: billed_periods_def)

lemma billed_periods_single [simp]: "billed_periods [i] = service_keys (i_items i)"
  by (simp add: billed_periods_def)

definition full_period :: "uuid option \<times> instant option \<times> instant option \<Rightarrow> bool" where
  "full_period = (\<lambda>(k, s, e). k \<noteq> None \<and> s \<noteq> None \<and> e \<noteq> None)"

definition period_taken :: "invoice_item list \<Rightarrow> invoice list \<Rightarrow> bool" where
  \<comment> \<open>the partial unique index \<open>invoice_items_service_period_key\<close> refuses the items\<close>
  "period_taken items is =
     (let ks = filter full_period (service_keys items)
      in \<not> distinct ks \<or> list_ex (\<lambda>k. k \<in> set (billed_periods is)) ks)"

lemma period_taken_none [simp]: "service_keys items = [] \<Longrightarrow> \<not> period_taken items is"
  by (simp add: period_taken_def)

lemma period_taken_distinct:
  "distinct (billed_periods (is @ [i])) \<Longrightarrow> \<not> period_taken (i_items i) is"
  by (auto simp: period_taken_def Let_def list_ex_iff)

definition service_check :: "service \<Rightarrow> bool" where
  "service_check s \<longleftrightarrow>
     currencyCodeSchema (s_currency s) \<and> 0 \<le> s_recurringAmount s \<and> s_startedAt s < s_nextDueAt s \<and>
     (s_status s \<in> {Svc_ACTIVE, Svc_SUSPENDED, Svc_TERMINATED} \<longrightarrow>
        s_externalAccountId s \<noteq> None \<and> s_controlPanelUsername s \<noteq> None) \<and>
     (s_status s = Svc_SUSPENDED \<longrightarrow> s_suspendedAt s \<noteq> None \<and> s_suspensionReason s \<noteq> None) \<and>
     (s_status s = Svc_PROVISION_FAILED \<longrightarrow> s_provisioningFailureReason s \<noteq> None) \<and>
     (s_status s = Svc_CANCELLED \<longrightarrow> s_cancelledAt s \<noteq> None \<and> s_cancellationReason s \<noteq> None) \<and>
     (s_status s = Svc_TERMINATED \<longrightarrow> s_terminatedAt s \<noteq> None \<and> s_terminationReason s \<noteq> None \<and>
        s_terminatedByUserId s \<noteq> None)"

definition cancellation_check :: "cancellation \<Rightarrow> bool" where
  "cancellation_check h \<longleftrightarrow>
     (h_timing h = END_OF_PERIOD \<longleftrightarrow> h_effectiveAt h \<noteq> None) \<and>
     (h_status h = Can_OPEN \<longleftrightarrow> h_resolvedAt h = None)"

definition cancellation_effective :: "cancellation \<Rightarrow> bool" where
  "cancellation_effective h \<longleftrightarrow> h_status h = Can_OPEN \<or> h_status h = Can_COMPLETED"

definition operation_evidence_check :: "hosting_operation \<Rightarrow> bool" where
  "operation_evidence_check p \<longleftrightarrow>
     (case op_status p of
        Op_RUNNING \<Rightarrow> op_completedAt p = None \<and> \<not> op_retryable p \<and> op_errorKind p = None \<and>
          op_errorCode p = None \<and> op_errorMessage p = None
      | Op_SUCCEEDED \<Rightarrow> op_completedAt p \<noteq> None \<and> \<not> op_retryable p \<and> op_errorKind p = None \<and>
          op_errorCode p = None \<and> op_errorMessage p = None
      | Op_FAILED \<Rightarrow> op_completedAt p \<noteq> None \<and>
          (op_errorKind p = Some Panel_TEMPORARY \<or> op_errorKind p = Some Panel_PERMANENT) \<and>
          op_errorCode p \<noteq> None \<and> op_errorMessage p \<noteq> None \<and>
          (op_retryable p \<longleftrightarrow> op_errorKind p = Some Panel_TEMPORARY)
      | Op_INCONSISTENT \<Rightarrow> op_completedAt p \<noteq> None \<and> \<not> op_retryable p \<and>
          op_errorKind p = Some Panel_INCONSISTENT \<and> op_errorCode p \<noteq> None \<and> op_errorMessage p \<noteq> None)"

definition operation_requester_check :: "hosting_operation \<Rightarrow> bool" where
  "operation_requester_check p \<longleftrightarrow>
     op_requestedByUserId p \<noteq> None \<and> op_automationRunId p = None \<or>
     op_requestedByUserId p = None \<and> op_automationRunId p \<noteq> None"

definition object_or_null :: "json option \<Rightarrow> bool" where
  "object_or_null j \<longleftrightarrow> (case j of None \<Rightarrow> True | Some v \<Rightarrow> json_object v)"

definition fingerprint_check :: "string \<Rightarrow> bool" where
  "fingerprint_check s \<longleftrightarrow> length s = 64 \<and> list_all (\<lambda>c. is_digit c \<or> List.member ''abcdef'' c) s"

definition operation_check :: "hosting_operation \<Rightarrow> bool" where
  "operation_check p \<longleftrightarrow>
     0 < op_attemptNumber p \<and> fingerprint_check (op_requestFingerprint p) \<and>
     (op_type p = TEST_CONNECTION \<longleftrightarrow> op_serviceId p = None) \<and>
     object_or_null (op_requestMetadata p) \<and> object_or_null (op_resultMetadata p) \<and>
     operation_evidence_check p \<and> op_retryOfOperationId p \<noteq> Some (op_id p) \<and>
     operation_requester_check p"

definition registration_claimed :: "(registered_domain \<Rightarrow> bool) \<Rightarrow> db \<Rightarrow> bool" where
  \<comment> \<open>a registrar operation was claimed for one of the domains\<close>
  "registration_claimed P d \<longleftrightarrow>
     list_ex (\<lambda>dm. P dm \<and> list_ex (\<lambda>p. ro_domainId p = dm_id dm \<and> ro_claimedAt p \<noteq> None)
       (rg_operations (d_registry d))) (rg_domains (d_registry d))"

definition domain_invoice_guard :: "invoice \<Rightarrow> invoice \<Rightarrow> db \<Rightarrow> bool" where
  \<comment> \<open>what the trigger on the invoices of domains allows: the identity of the row stays, and a
    claimed registration is not cancelled\<close>
  "domain_invoice_guard i j d \<longleftrightarrow>
     \<not> list_ex (\<lambda>dm. dm_invoiceId dm = Some (i_id i)) (rg_domains (d_registry d)) \<or>
     (i_total j = i_total i \<and> i_currency j = i_currency i \<and> i_customerId j = i_customerId i \<and>
      i_orderId j = i_orderId i \<and> i_snapshot j = i_snapshot i \<and> i_subtotal j = i_subtotal i \<and>
      i_taxTotal j = i_taxTotal i \<and> i_discountTotal j = i_discountTotal i \<and>
      i_creditTotal j = i_creditTotal i \<and> i_number j = i_number i \<and> i_issuedAt j = i_issuedAt i \<and>
      i_dueAt j = i_dueAt i \<and>
      (i_status j = Inv_CANCELLED \<longrightarrow>
         \<not> registration_claimed (\<lambda>dm. dm_invoiceId dm = Some (i_id i)) d))"

definition order_domain :: "uuid \<Rightarrow> db \<Rightarrow> registered_domain \<Rightarrow> bool" where
  "order_domain orderId d dm \<longleftrightarrow>
     list_ex (\<lambda>oi. oi_orderId oi = orderId \<and> dm_orderItemId dm = Some (oi_id oi)) (d_orderItems d)"

definition domain_secured :: "uuid \<Rightarrow> db \<Rightarrow> bool" where
  \<comment> \<open>the item's own domain is registered, or the existing domain it is linked to is\<close>
  "domain_secured itemId d \<longleftrightarrow>
     list_ex (\<lambda>dm. dm_orderItemId dm = Some itemId \<and> dm_state dm = ''REGISTERED'') (rg_domains (d_registry d)) \<or>
     list_ex (\<lambda>eo. eo_orderItemId eo = itemId \<and>
         list_ex (\<lambda>dm. dm_id dm = eo_domainId eo \<and> dm_origin dm = ''EXISTING'' \<and> dm_state dm = ''REGISTERED'')
           (rg_domains (d_registry d))) (rg_existingOrders (d_registry d))"

definition domain_order_guard :: "uuid \<Rightarrow> order_status \<Rightarrow> db \<Rightarrow> bool" where
  \<comment> \<open>what the trigger on orders allows: COMPLETED needs registered domains and active hosting
    services, and a claimed registration is not given up\<close>
  "domain_order_guard orderId status d \<longleftrightarrow>
     (status = Ord_COMPLETED \<longrightarrow>
        \<not> list_ex (\<lambda>oi. oi_orderId oi = orderId \<and> oi_kind oi = Kind_DOMAIN \<and> \<not> domain_secured (oi_id oi) d)
           (d_orderItems d) \<and>
        \<not> list_ex (\<lambda>oi. oi_orderId oi = orderId \<and> oi_kind oi = Kind_HOSTING \<and>
             \<not> list_ex (\<lambda>s. s_orderItemId s = Some (oi_id oi) \<and> s_status s = Svc_ACTIVE) (d_services d))
           (d_orderItems d)) \<and>
     (status \<in> {Ord_CANCELLED, Ord_REJECTED, Ord_FAILED} \<longrightarrow> \<not> registration_claimed (order_domain orderId d) d)"

definition hosting_tables :: "db \<Rightarrow> server list \<times> cancellation list \<times> hosting_operation list" where
  "hosting_tables d = (d_servers d, d_cancellations d, d_operations d)"

section \<open>Calls\<close>

definition find_invoice :: "uuid \<Rightarrow> db \<Rightarrow> invoice option" where
  "find_invoice k d = List.find (\<lambda>i. i_id i = k) (d_invoices d)"

definition find_payment :: "uuid \<Rightarrow> db \<Rightarrow> payment option" where
  "find_payment k d = List.find (\<lambda>p. p_id p = k) (d_payments d)"

definition find_payment_by_key :: "string \<Rightarrow> db \<Rightarrow> payment option" where
  "find_payment_by_key k d = List.find (\<lambda>p. p_idempotencyKey p = k) (d_payments d)"

definition find_setting :: "string \<Rightarrow> db \<Rightarrow> json option" where
  "find_setting k d = map_of (d_settings d) k"

definition fresh_uuid :: "db \<Rightarrow> uuid" where
  "fresh_uuid d = show_nat (d_supply d)"

definition create_invoice :: "invoice \<Rightarrow> uuid tx" where
  "create_invoice row d =
     (let k = fresh_uuid d; i = row\<lparr>i_id := k\<rparr>
      in if \<not> invoice_check i \<or> \<not> list_all invoice_item_check (i_items i) then Inl Check_Violation
         else if list_ex (\<lambda>j. i_id j = k \<or> i_number j = i_number i \<or>
                              i_submissionKey j = i_submissionKey i) (d_invoices d) \<or>
                 period_taken (i_items i) (d_invoices d)
         then Inl Unique_Violation
         else Inr (d\<lparr>d_invoices := d_invoices d @ [i], d_supply := Suc (d_supply d)\<rparr>, k))"

definition create_payment :: "payment \<Rightarrow> uuid tx" where
  "create_payment row d =
     (let k = fresh_uuid d; p = row\<lparr>p_id := k\<rparr>
      in if \<not> payment_check p then Inl Check_Violation
         else if list_ex (\<lambda>q. p_id q = k \<or> p_idempotencyKey q = p_idempotencyKey p \<or>
                 (p_provider q = p_provider p \<and> p_providerTransactionId p \<noteq> None \<and>
                  p_providerTransactionId q = p_providerTransactionId p)) (d_payments d)
         then Inl Unique_Violation
         else Inr (d\<lparr>d_payments := d_payments d @ [p], d_supply := Suc (d_supply d)\<rparr>, k))"

definition update_payment :: "uuid \<Rightarrow> (payment \<Rightarrow> payment) \<Rightarrow> unit tx" where
  \<comment> \<open>\<open>payment.update\<close>, and \<open>payment.updateMany\<close> when it is known to match the row\<close>
  "update_payment k f d =
     (case find_payment k d of
        None \<Rightarrow> Inl Record_Missing
      | Some p \<Rightarrow>
        let p' = f p
        in if \<not> payment_check p' then Inl Check_Violation
           else if list_ex (\<lambda>q. p_id q \<noteq> k \<and> p_provider q = p_provider p' \<and>
                   p_providerTransactionId p' \<noteq> None \<and>
                   p_providerTransactionId q = p_providerTransactionId p') (d_payments d)
           then Inl Unique_Violation
           else Inr (d\<lparr>d_payments := update_many (\<lambda>q. p_id q = k) f (d_payments d)\<rparr>, ()))"

definition update_invoice :: "instant \<Rightarrow> uuid \<Rightarrow> (invoice \<Rightarrow> invoice) \<Rightarrow> unit tx" where
  \<comment> \<open>\<open>invoice.update\<close>; the client sets \<open>updatedAt\<close>, and no caller changes which service
    periods the items bill\<close>
  "update_invoice now k f d =
     (case find_invoice k d of
        None \<Rightarrow> Inl Record_Missing
      | Some i \<Rightarrow>
        if \<not> invoice_check (f i) \<or> \<not> list_all invoice_item_check (i_items (f i))
        then Inl Check_Violation
        else if \<not> domain_invoice_guard i (f i) d then Inl (Server_Error ''domain_invoice_guard'')
        else Inr (d\<lparr>d_invoices :=
               update_many (\<lambda>j. i_id j = k) (\<lambda>j. (f j)\<lparr>i_updatedAt := now\<rparr>) (d_invoices d)\<rparr>, ()))"

definition create_outbox :: "instant \<Rightarrow> string \<Rightarrow> uuid \<Rightarrow> string \<Rightarrow> string \<Rightarrow> json \<Rightarrow> unit tx" where
  "create_outbox now aggregateType aggregateId eventType key payload d =
     (if list_ex (\<lambda>e. o_idempotencyKey e = key \<or> o_id e = fresh_uuid d) (d_outbox d)
      then Inl Unique_Violation
      else Inr (d\<lparr>d_outbox := d_outbox d @
              [\<lparr>o_id = fresh_uuid d, o_aggregateType = aggregateType, o_aggregateId = aggregateId,
                o_eventType = eventType, o_idempotencyKey = key, o_payload = payload,
                o_status = Out_PENDING, o_attemptCount = 0, o_availableAt = now, o_lockedAt = None,
                o_lockedBy = None, o_publishedAt = None, o_lastError = None\<rparr>],
              d_supply := Suc (d_supply d)\<rparr>, ()))"

definition create_outbox_skip ::
    "instant \<Rightarrow> string \<Rightarrow> uuid \<Rightarrow> string \<Rightarrow> string \<Rightarrow> json \<Rightarrow> db \<Rightarrow> db \<times> nat" where
  \<comment> \<open>\<open>outboxEvent.createMany\<close> of one row with \<open>skipDuplicates\<close>: the count inserted\<close>
  "create_outbox_skip now aggregateType aggregateId eventType key payload d =
     (case create_outbox now aggregateType aggregateId eventType key payload d of
        Inl _ \<Rightarrow> (d, 0) | Inr (d', _) \<Rightarrow> (d', 1))"

definition log_activity :: "activity \<Rightarrow> db \<Rightarrow> db" where
  "log_activity a d = d\<lparr>d_activity := d_activity d @ [a]\<rparr>"

definition upsert_setting :: "string \<Rightarrow> json \<Rightarrow> db \<Rightarrow> db" where
  "upsert_setting k v d =
     d\<lparr>d_settings := (if map_of (d_settings d) k = None then d_settings d @ [(k, v)]
                      else map (\<lambda>(k', v'). if k' = k then (k', v) else (k', v')) (d_settings d))\<rparr>"

definition mark_order_paid :: "instant \<Rightarrow> uuid \<Rightarrow> db \<Rightarrow> db \<times> nat" where
  \<comment> \<open>\<open>order.updateMany\<close> from AWAITING_PAYMENT to PAID\<close>
  "mark_order_paid now k d =
     (let P = (\<lambda>r. ord_id r = k \<and> ord_status r = Ord_AWAITING_PAYMENT)
      in (d\<lparr>d_orders := update_many P (\<lambda>r. r\<lparr>ord_status := Ord_PAID, ord_updatedAt := now\<rparr>) (d_orders d)\<rparr>,
          count_where P (d_orders d)))"

end
