(* ===== verification/Ledger.thy ===== *)
theory Ledger
  imports Database
begin

text \<open>
  The abstract ledger behind the billing database: which changes of the invoice and
  payment tables any transaction may make, as a step relation with one rule per kind of
  accounting event, and the ledger invariant, proved once for the steps. The transactions
  of the services (invoices, manual payments, payment gateways, renewals) are shown to
  refine these steps in their own theories, by interpreting the locale
  \<open>ledger_client\<close>.
\<close>

section \<open>Accounting\<close>

type_synonym ledger = "invoice list \<times> payment list"

definition ledger_of :: "db \<Rightarrow> ledger" where
  "ledger_of d = (d_invoices d, d_payments d)"

definition ledger_value :: "payment \<Rightarrow> int" where
  "ledger_value p =
     (if p_status p \<noteq> Pay_SUCCEEDED then 0 else if p_kind p = CHARGE then p_amount p else - p_amount p)"

definition settled :: "uuid \<Rightarrow> payment list \<Rightarrow> int" where
  "settled k ps = sum_list (map (\<lambda>p. if p_invoiceId p = k then ledger_value p else 0) ps)"

definition adjustment_value :: "uuid \<Rightarrow> payment \<Rightarrow> int" where
  "adjustment_value k p =
     (if p_originalPaymentId p = Some k \<and> p_status p = Pay_SUCCEEDED then p_amount p else 0)"

definition adjusted :: "uuid \<Rightarrow> payment list \<Rightarrow> int" where
  \<comment> \<open>the sum over \<open>original.adjustments\<close>, the succeeded rows that refer to the original\<close>
  "adjusted k ps = sum_list (map (adjustment_value k) ps)"

definition payable_status :: "invoice_status \<Rightarrow> bool" where
  "payable_status s \<longleftrightarrow> s = Inv_UNPAID \<or> s = Inv_OVERDUE"

definition invoice_ok :: "invoice \<Rightarrow> bool" where
  "invoice_ok i \<longleftrightarrow>
     invoice_check i \<and> list_all invoice_item_check (i_items i) \<and>
     (i_status i = Inv_DRAFT \<longrightarrow> service_keys (i_items i) = []) \<and>
     (i_status i = Inv_PAID \<longrightarrow> i_balanceDue i = 0) \<and>
     (i_status i \<in> {Inv_DRAFT, Inv_CANCELLED} \<longrightarrow> i_amountPaid i = 0)"

definition payment_ok :: "invoice list \<Rightarrow> payment list \<Rightarrow> payment \<Rightarrow> bool" where
  "payment_ok is ps p \<longleftrightarrow>
     payment_check p \<and>
     (\<exists>i \<in> set is. i_id i = p_invoiceId p \<and> i_currency i = p_currency p \<and> i_status i \<noteq> Inv_DRAFT) \<and>
     (case p_originalPaymentId p of
        None \<Rightarrow> True
      | Some k \<Rightarrow> p_status p = Pay_SUCCEEDED \<and>
          (\<exists>q \<in> set ps. p_id q = k \<and> p_kind q = CHARGE \<and> p_status q = Pay_SUCCEEDED \<and>
                      p_invoiceId q = p_invoiceId p))"

definition ledger_inv :: "ledger \<Rightarrow> bool" where
  "ledger_inv = (\<lambda>(is, ps).
     distinct (map i_id is) \<and> distinct (map p_id ps) \<and> distinct (billed_periods is) \<and>
     (\<forall>i \<in> set is. invoice_ok i \<and> i_amountPaid i = settled (i_id i) ps) \<and>
     (\<forall>p \<in> set ps. payment_ok is ps p \<and> (p_kind p = CHARGE \<longrightarrow> adjusted (p_id p) ps \<le> p_amount p)))"

section \<open>Steps\<close>

definition same_charge :: "payment \<Rightarrow> payment \<Rightarrow> bool" where
  \<comment> \<open>what no later step changes of a payment\<close>
  "same_charge p q \<longleftrightarrow>
     p_id q = p_id p \<and> p_invoiceId q = p_invoiceId p \<and> p_originalPaymentId q = p_originalPaymentId p \<and>
     p_kind q = p_kind p \<and> p_amount q = p_amount p \<and> p_currency q = p_currency p \<and>
     p_idempotencyKey q = p_idempotencyKey p"

definition same_account :: "invoice \<Rightarrow> invoice \<Rightarrow> bool" where
  \<comment> \<open>what a settlement or an adjustment leaves alone of an invoice\<close>
  "same_account i j \<longleftrightarrow>
     i_id j = i_id i \<and> i_number j = i_number i \<and> i_submissionKey j = i_submissionKey i \<and>
     i_customerId j = i_customerId i \<and> i_orderId j = i_orderId i \<and> i_currency j = i_currency i \<and>
     i_total j = i_total i \<and> i_creditTotal j = i_creditTotal i \<and> i_items j = i_items i \<and>
     i_snapshot j = i_snapshot i \<and> i_dueAt j = i_dueAt i"

abbreviation row_of :: "uuid \<Rightarrow> invoice list \<Rightarrow> invoice option" where
  "row_of k \<equiv> List.find (\<lambda>i. i_id i = k)"

abbreviation charge_of :: "uuid \<Rightarrow> payment list \<Rightarrow> payment option" where
  "charge_of k \<equiv> List.find (\<lambda>p. p_id p = k)"

abbreviation set_row :: "uuid \<Rightarrow> (invoice \<Rightarrow> invoice) \<Rightarrow> invoice list \<Rightarrow> invoice list" where
  "set_row k \<equiv> update_many (\<lambda>i. i_id i = k)"

abbreviation set_charge :: "uuid \<Rightarrow> (payment \<Rightarrow> payment) \<Rightarrow> payment list \<Rightarrow> payment list" where
  "set_charge k \<equiv> update_many (\<lambda>p. p_id p = k)"

inductive ledger_step :: "ledger \<Rightarrow> ledger \<Rightarrow> bool" where
  open_invoice:
    "i_id i \<notin> i_id ` set is \<Longrightarrow> i_amountPaid i = 0 \<Longrightarrow> invoice_ok i \<Longrightarrow>
     distinct (billed_periods (is @ [i])) \<Longrightarrow>
     ledger_step (is, ps) (is @ [i], ps)"
| revise_invoice:
    "row_of k is = Some i \<Longrightarrow> i_id (f i) = k \<Longrightarrow> i_amountPaid (f i) = i_amountPaid i \<Longrightarrow>
     invoice_ok (f i) \<Longrightarrow> i_currency (f i) = i_currency i \<or> i_status i = Inv_DRAFT \<Longrightarrow>
     (i_status (f i) = Inv_DRAFT \<Longrightarrow> i_status i = Inv_DRAFT) \<Longrightarrow>
     service_keys (i_items (f i)) = service_keys (i_items i) \<Longrightarrow>
     ledger_step (is, ps) (set_row k f is, ps)"
| take_payment:
    "p_id p \<notin> p_id ` set ps \<Longrightarrow> payment_check p \<Longrightarrow> p_kind p = CHARGE \<Longrightarrow> p_status p = Pay_PENDING \<Longrightarrow>
     row_of (p_invoiceId p) is = Some i \<Longrightarrow> payable_status (i_status i) \<Longrightarrow>
     p_currency p = i_currency i \<Longrightarrow> p_amount p \<le> i_balanceDue i \<Longrightarrow>
     ledger_step (is, ps) (is, ps @ [p])"
| revise_payment:
    "charge_of k ps = Some p \<Longrightarrow> same_charge p (f p) \<Longrightarrow> payment_check (f p) \<Longrightarrow>
     (p_status (f p) = Pay_SUCCEEDED \<longleftrightarrow> p_status p = Pay_SUCCEEDED) \<Longrightarrow>
     ledger_step (is, ps) (is, set_charge k f ps)"
| settle_payment:
    "charge_of k ps = Some p \<Longrightarrow> same_charge p (f p) \<Longrightarrow> payment_check (f p) \<Longrightarrow> p_kind p = CHARGE \<Longrightarrow>
     p_status p \<noteq> Pay_SUCCEEDED \<Longrightarrow> p_status (f p) = Pay_SUCCEEDED \<Longrightarrow>
     row_of (p_invoiceId p) is = Some i \<Longrightarrow> payable_status (i_status i) \<Longrightarrow>
     p_amount p \<le> i_balanceDue i \<Longrightarrow> same_account i (g i) \<Longrightarrow>
     i_amountPaid (g i) = i_amountPaid i + p_amount p \<Longrightarrow> invoice_ok (g i) \<Longrightarrow> i_status (g i) \<noteq> Inv_DRAFT \<Longrightarrow>
     ledger_step (is, ps) (set_row (p_invoiceId p) g is, set_charge k f ps)"
| record_payment:
    "p_id p \<notin> p_id ` set ps \<Longrightarrow> payment_check p \<Longrightarrow> p_kind p = CHARGE \<Longrightarrow> p_status p = Pay_SUCCEEDED \<Longrightarrow>
     row_of (p_invoiceId p) is = Some i \<Longrightarrow> payable_status (i_status i) \<Longrightarrow>
     p_currency p = i_currency i \<Longrightarrow> p_amount p \<le> i_balanceDue i \<Longrightarrow> same_account i (g i) \<Longrightarrow>
     i_amountPaid (g i) = i_amountPaid i + p_amount p \<Longrightarrow> invoice_ok (g i) \<Longrightarrow> i_status (g i) \<noteq> Inv_DRAFT \<Longrightarrow>
     ledger_step (is, ps) (set_row (p_invoiceId p) g is, ps @ [p])"
| adjust_payment:
    "p_id p \<notin> p_id ` set ps \<Longrightarrow> payment_check p \<Longrightarrow> p_originalPaymentId p = Some k \<Longrightarrow>
     p_status p = Pay_SUCCEEDED \<Longrightarrow> charge_of k ps = Some q \<Longrightarrow> p_kind q = CHARGE \<Longrightarrow>
     p_status q = Pay_SUCCEEDED \<Longrightarrow> p_invoiceId p = p_invoiceId q \<Longrightarrow>
     adjusted k ps + p_amount p \<le> p_amount q \<Longrightarrow>
     row_of (p_invoiceId p) is = Some i \<Longrightarrow> p_currency p = i_currency i \<Longrightarrow> same_account i (g i) \<Longrightarrow>
     i_amountPaid (g i) = i_amountPaid i - p_amount p \<Longrightarrow> invoice_ok (g i) \<Longrightarrow> i_status (g i) \<noteq> Inv_DRAFT \<Longrightarrow>
     ledger_step (is, ps) (set_row (p_invoiceId p) g is, ps @ [p])"

abbreviation ledger_steps :: "ledger \<Rightarrow> ledger \<Rightarrow> bool" where
  "ledger_steps \<equiv> ledger_step\<^sup>*\<^sup>*"


section \<open>The invariant\<close>

lemma settled_append [simp]:
  "settled k (ps @ [p]) = settled k ps + (if p_invoiceId p = k then ledger_value p else 0)"
  by (simp add: settled_def)

lemma adjusted_append [simp]: "adjusted k (ps @ [p]) = adjusted k ps + adjustment_value k p"
  by (simp add: adjusted_def)

lemma settled_update:
  assumes "distinct (map p_id ps)" and "charge_of k ps = Some p" and "same_charge p (f p)"
  shows "settled x (set_charge k f ps) =
         settled x ps + (if p_invoiceId p = x then ledger_value (f p) - ledger_value p else 0)"
  using assms by (simp add: settled_def sum_list_update_key same_charge_def)

lemma adjusted_update:
  assumes "distinct (map p_id ps)" and "charge_of k ps = Some p"
    and "adjustment_value x (f p) = adjustment_value x p"
  shows "adjusted x (set_charge k f ps) = adjusted x ps"
  using assms by (simp add: adjusted_def sum_list_update_key)

lemma settled_0: "k \<notin> p_invoiceId ` set ps \<Longrightarrow> settled k ps = 0"
  by (induction ps) (auto simp: settled_def)

lemma adjusted_0: "Some k \<notin> p_originalPaymentId ` set ps \<Longrightarrow> adjusted k ps = 0"
  by (induction ps) (auto simp: adjusted_def adjustment_value_def)

definition keeps_rows :: "invoice list \<Rightarrow> invoice list \<Rightarrow> bool" where
  "keeps_rows is js \<longleftrightarrow>
     (\<forall>i \<in> set is. i_status i \<noteq> Inv_DRAFT \<longrightarrow>
        (\<exists>j \<in> set js. i_id j = i_id i \<and> i_currency j = i_currency i \<and> i_status j \<noteq> Inv_DRAFT))"

definition keeps_charges :: "payment list \<Rightarrow> payment list \<Rightarrow> bool" where
  "keeps_charges ps qs \<longleftrightarrow>
     (\<forall>p \<in> set ps. p_kind p = CHARGE \<and> p_status p = Pay_SUCCEEDED \<longrightarrow>
        (\<exists>q \<in> set qs. p_id q = p_id p \<and> p_kind q = CHARGE \<and> p_status q = Pay_SUCCEEDED \<and>
                    p_invoiceId q = p_invoiceId p))"

lemma payment_ok_mono:
  assumes "payment_ok is ps p" and "keeps_rows is js" and "keeps_charges ps qs"
  shows "payment_ok js qs p"
  using assms unfolding payment_ok_def keeps_rows_def keeps_charges_def
  by (fastforce split: option.splits)

lemma payment_ok_same:
  assumes "payment_ok is ps p" and "same_charge p q" and "payment_check q"
    and "p_status p = Pay_SUCCEEDED \<Longrightarrow> p_status q = Pay_SUCCEEDED"
  shows "payment_ok is ps q"
  using assms unfolding payment_ok_def same_charge_def by (simp split: option.splits)

lemma keeps_refl [simp]: "keeps_rows is is" "keeps_charges ps ps"
  by (auto simp: keeps_rows_def keeps_charges_def)

lemma keeps_append [simp]: "keeps_rows is (is @ js)" "keeps_charges ps (ps @ qs)"
  by (auto simp: keeps_rows_def keeps_charges_def)

lemma keeps_set_row:
  assumes "distinct (map i_id is)" and "row_of k is = Some i" and "i_id (f i) = k"
    and "i_status i \<noteq> Inv_DRAFT \<Longrightarrow> i_currency (f i) = i_currency i \<and> i_status (f i) \<noteq> Inv_DRAFT"
  shows "keeps_rows is (set_row k f is)"
proof -
  have i: "i \<in> set is" "i_id i = k" using find_Some_D [OF assms(2)] by auto
  have "\<exists>j' \<in> set (set_row k f is). i_id j' = i_id j \<and> i_currency j' = i_currency j \<and> i_status j' \<noteq> Inv_DRAFT"
    if j: "j \<in> set is" "i_status j \<noteq> Inv_DRAFT" for j
  proof (cases "i_id j = k")
    case True
    with i j have "j = i" using distinct_key_inj [OF assms(1)] by simp
    with assms(3,4) j True show ?thesis
      using mem_update_key [OF assms(1,2), of "f i" f] by auto
  next
    case False
    with j show ?thesis using mem_update_key [OF assms(1,2), of j f] by auto
  qed
  then show ?thesis by (simp add: keeps_rows_def)
qed

lemma keeps_set_charge:
  assumes "distinct (map p_id ps)" and "charge_of k ps = Some p" and "same_charge p (f p)"
    and "p_status p = Pay_SUCCEEDED \<Longrightarrow> p_status (f p) = Pay_SUCCEEDED"
  shows "keeps_charges ps (set_charge k f ps)"
proof -
  have p: "p \<in> set ps" "p_id p = k" using find_Some_D [OF assms(2)] by auto
  have "\<exists>q' \<in> set (set_charge k f ps). p_id q' = p_id q \<and> p_kind q' = CHARGE \<and>
          p_status q' = Pay_SUCCEEDED \<and> p_invoiceId q' = p_invoiceId q"
    if q: "q \<in> set ps" "p_kind q = CHARGE" "p_status q = Pay_SUCCEEDED" for q
  proof (cases "p_id q = k")
    case True
    with p q have "q = p" using distinct_key_inj [OF assms(1)] by simp
    with assms(3,4) q True show ?thesis
      using mem_update_key [OF assms(1,2), of "f p" f] by (auto simp: same_charge_def)
  next
    case False
    with q show ?thesis using mem_update_key [OF assms(1,2), of q f] by auto
  qed
  then show ?thesis by (simp add: keeps_charges_def)
qed


definition rows_settled :: "invoice list \<Rightarrow> payment list \<Rightarrow> bool" where
  "rows_settled is ps \<longleftrightarrow> (\<forall>i \<in> set is. invoice_ok i \<and> i_amountPaid i = settled (i_id i) ps)"

definition charges_ok :: "invoice list \<Rightarrow> payment list \<Rightarrow> bool" where
  "charges_ok is ps \<longleftrightarrow>
     (\<forall>p \<in> set ps. payment_ok is ps p \<and> (p_kind p = CHARGE \<longrightarrow> adjusted (p_id p) ps \<le> p_amount p))"

lemma ledger_inv_iff:
  "ledger_inv (is, ps) \<longleftrightarrow>
     distinct (map i_id is) \<and> distinct (map p_id ps) \<and> distinct (billed_periods is) \<and>
     rows_settled is ps \<and> charges_ok is ps"
  by (simp add: ledger_inv_def rows_settled_def charges_ok_def)

lemma rows_settled_set_row:
  assumes "rows_settled is ps" and "distinct (map i_id is)" and "row_of k is = Some i"
    and "i_id (f i) = k" and "invoice_ok (f i)" and "i_amountPaid (f i) = i_amountPaid i + delta"
    and "\<And>x. settled x qs = settled x ps + (if x = k then delta else 0)"
  shows "rows_settled (set_row k f is) qs"
  using assms find_Some_D [OF assms(3)]
  unfolding rows_settled_def mem_update_key [OF assms(2,3)] Ball_def by auto

lemma charges_ok_append:
  assumes ok: "charges_ok is ps" and rows: "keeps_rows is js" and new: "payment_ok js (ps @ [p]) p"
    and fresh: "p_id p \<notin> p_id ` set ps"
    and room: "\<And>q. q \<in> set ps \<Longrightarrow> p_kind q = CHARGE \<Longrightarrow>
                 adjusted (p_id q) ps + adjustment_value (p_id q) p \<le> p_amount q"
  shows "charges_ok js (ps @ [p])"
proof -
  have "Some (p_id p) \<notin> p_originalPaymentId ` set ps"
  proof
    assume "Some (p_id p) \<in> p_originalPaymentId ` set ps"
    then obtain q where "q \<in> set ps" "p_originalPaymentId q = Some (p_id p)" by auto
    with ok have "payment_ok is ps q" "p_originalPaymentId q = Some (p_id p)"
      by (simp_all add: charges_ok_def)
    then obtain r where "r \<in> set ps" "p_id r = p_id p" by (auto simp: payment_ok_def)
    then have "p_id p \<in> p_id ` set ps" by (metis imageI)
    with fresh show False by contradiction
  qed
  moreover have "adjustment_value (p_id p) p = 0" and "0 < p_amount p"
    using new by (auto simp: payment_ok_def payment_check_def adjustment_value_def)
  ultimately have "adjusted (p_id p) (ps @ [p]) \<le> p_amount p"
    using adjusted_0 [of "p_id p" ps] by simp
  moreover have "payment_ok js (ps @ [p]) q" if "q \<in> set ps" for q
    using ok that rows payment_ok_mono [of "is" ps q js "ps @ [p]"] by (simp add: charges_ok_def)
  ultimately show ?thesis using new room by (auto simp: charges_ok_def)
qed

lemma charges_ok_set_charge:
  assumes ok: "charges_ok is ps" and rows: "keeps_rows is js" and dist: "distinct (map p_id ps)"
    and p: "charge_of k ps = Some p" and same: "same_charge p (f p)" and chk: "payment_check (f p)"
    and kept: "p_status p = Pay_SUCCEEDED \<Longrightarrow> p_status (f p) = Pay_SUCCEEDED"
    and adj: "\<And>x. adjustment_value x (f p) = adjustment_value x p"
  shows "charges_ok js (set_charge k f ps)"
proof -
  have keep: "keeps_charges ps (set_charge k f ps)"
    using keeps_set_charge [where f = f, OF dist p same] kept by blast
  have okq: "payment_ok js (set_charge k f ps) q" if "payment_ok is ps q" for q
    using payment_ok_mono [OF that rows keep] .
  have "payment_ok is ps p" and "p_kind p = CHARGE \<longrightarrow> adjusted (p_id p) ps \<le> p_amount p"
    using ok find_Some_D [OF p] by (auto simp: charges_ok_def)
  moreover from this have "payment_ok is ps (f p)"
    using payment_ok_same [where q = "f p", OF _ same chk] kept by blast
  moreover have "adjusted x (set_charge k f ps) = adjusted x ps" for x
    by (rule adjusted_update [where f = f, OF dist p adj])
  ultimately show ?thesis using ok same okq
    unfolding charges_ok_def mem_update_key [OF dist p] Ball_def
    by (auto simp: same_charge_def)
qed

lemma same_accountD:
  assumes "same_account i j"
  shows "i_id j = i_id i" and "i_currency j = i_currency i"
  using assms by (simp_all add: same_account_def)

lemma payable_not_draft: "payable_status s \<Longrightarrow> s \<noteq> Inv_DRAFT"
  by (auto simp: payable_status_def)

lemma billed_periods_set_row:
  assumes "distinct (map i_id is)" and "row_of k is = Some i"
    and "service_keys (i_items (f i)) = service_keys (i_items i)"
  shows "billed_periods (set_row k f is) = billed_periods is"
proof -
  have i: "i \<in> set is" "i_id i = k" using find_Some_D [OF assms(2)] by auto
  have "service_keys (i_items (if i_id j = k then f j else j)) = service_keys (i_items j)"
    if "j \<in> set is" for j
    using distinct_key_inj [OF assms(1) that i(1)] i(2) assms(3) by auto
  then show ?thesis by (simp add: billed_periods_def update_many_def comp_def cong: map_cong)
qed

lemma move_row:
  assumes inv: "ledger_inv (is, ps)" and row: "row_of k is = Some i" and same: "same_account i (g i)"
    and paid: "i_amountPaid (g i) = i_amountPaid i + delta" and ok: "invoice_ok (g i)"
    and live: "i_status (g i) \<noteq> Inv_DRAFT"
    and sett: "\<And>x. settled x qs = settled x ps + (if x = k then delta else 0)"
  shows "distinct (map i_id (set_row k g is))" and "keeps_rows is (set_row k g is)"
    and "rows_settled (set_row k g is) qs" and "distinct (billed_periods (set_row k g is))"
    and "\<exists>j \<in> set (set_row k g is). i_id j = k \<and> i_currency j = i_currency i \<and> i_status j \<noteq> Inv_DRAFT"
proof -
  have id: "i_id (g i) = k" using same find_Some_D [OF row] by (simp add: same_account_def)
  have d: "distinct (map i_id is)" and r: "rows_settled is ps" using inv by (simp_all add: ledger_inv_iff)
  show "distinct (map i_id (set_row k g is))"
    using update_key_map [where f = g, OF d row id] d by simp
  show "keeps_rows is (set_row k g is)"
    using keeps_set_row [where f = g, OF d row id] live same by (simp add: same_account_def)
  show "distinct (billed_periods (set_row k g is))"
    using billed_periods_set_row [where f = g, OF d row] inv same by (simp add: ledger_inv_iff same_account_def)
  show "rows_settled (set_row k g is) qs"
    using rows_settled_set_row [where f = g, OF r d row id ok paid sett] .
  show "\<exists>j \<in> set (set_row k g is). i_id j = k \<and> i_currency j = i_currency i \<and> i_status j \<noteq> Inv_DRAFT"
    using mem_update_key [OF d row, of "g i" g] id same live by (auto simp: same_account_def)
qed

lemma append_charge:
  assumes inv: "ledger_inv (is, ps)" and fresh: "p_id p \<notin> p_id ` set ps" and chk: "payment_check p"
    and kind: "p_kind p = CHARGE" and rows: "keeps_rows is js"
    and home: "\<exists>j \<in> set js. i_id j = p_invoiceId p \<and> i_currency j = p_currency p \<and> i_status j \<noteq> Inv_DRAFT"
  shows "charges_ok js (ps @ [p])" and "distinct (map p_id (ps @ [p]))"
proof -
  have none: "p_originalPaymentId p = None" using chk kind by (simp add: payment_check_def)
  have ok: "charges_ok is ps" using inv by (simp add: ledger_inv_iff)
  have "payment_ok js (ps @ [p]) p" using chk none home by (simp add: payment_ok_def)
  then show "charges_ok js (ps @ [p])"
    using charges_ok_append [OF ok rows _ fresh] ok none by (simp add: charges_ok_def adjustment_value_def)
  show "distinct (map p_id (ps @ [p]))" using inv fresh by (simp add: ledger_inv_iff)
qed

lemma change_charge:
  assumes inv: "ledger_inv (is, ps)" and p: "charge_of k ps = Some p" and same: "same_charge p (f p)"
    and chk: "payment_check (f p)" and kept: "p_status p = Pay_SUCCEEDED \<Longrightarrow> p_status (f p) = Pay_SUCCEEDED"
    and adj: "p_originalPaymentId p = None \<or> p_status (f p) = Pay_SUCCEEDED \<longleftrightarrow>
              p_originalPaymentId p = None \<or> p_status p = Pay_SUCCEEDED"
    and rows: "keeps_rows is js"
  shows "charges_ok js (set_charge k f ps)" and "distinct (map p_id (set_charge k f ps))"
proof -
  have d: "distinct (map p_id ps)" and ok: "charges_ok is ps" using inv by (simp_all add: ledger_inv_iff)
  have id: "p_id (f p) = k" using same find_Some_D [OF p] by (simp add: same_charge_def)
  have "adjustment_value x (f p) = adjustment_value x p" for x
    using adj same by (auto simp: adjustment_value_def same_charge_def)
  then show "charges_ok js (set_charge k f ps)"
    using charges_ok_set_charge [where f = f, OF ok rows d p same chk] kept by blast
  show "distinct (map p_id (set_charge k f ps))"
    using update_key_map [where f = f, OF d p id] d by simp
qed

lemma open_invoice_inv:
  assumes "ledger_inv (is, ps)" and "i_id i \<notin> i_id ` set is" and "i_amountPaid i = 0" and "invoice_ok i"
    and "distinct (billed_periods (is @ [i]))"
  shows "ledger_inv (is @ [i], ps)"
proof -
  have "i_id i \<notin> p_invoiceId ` set ps"
  proof
    assume "i_id i \<in> p_invoiceId ` set ps"
    then have "i_id i \<in> i_id ` set is"
      using assms(1) by (force simp: ledger_inv_iff charges_ok_def payment_ok_def)
    with assms(2) show False by contradiction
  qed
  then show ?thesis
    using assms payment_ok_mono [OF _ keeps_append(1) keeps_refl(2)]
    by (auto simp: ledger_inv_iff rows_settled_def charges_ok_def settled_0)
qed

lemma revise_invoice_inv:
  assumes inv: "ledger_inv (is, ps)" and row: "row_of k is = Some i" and id: "i_id (f i) = k"
    and paid: "i_amountPaid (f i) = i_amountPaid i" and ok: "invoice_ok (f i)"
    and cur: "i_currency (f i) = i_currency i \<or> i_status i = Inv_DRAFT"
    and live: "i_status (f i) = Inv_DRAFT \<Longrightarrow> i_status i = Inv_DRAFT"
    and periods: "service_keys (i_items (f i)) = service_keys (i_items i)"
  shows "ledger_inv (set_row k f is, ps)"
proof -
  have d: "distinct (map i_id is)" and r: "rows_settled is ps" and c: "charges_ok is ps"
    using inv by (simp_all add: ledger_inv_iff)
  have "keeps_rows is (set_row k f is)"
    using keeps_set_row [where f = f, OF d row id] cur live by blast
  moreover have "rows_settled (set_row k f is) ps"
    using rows_settled_set_row [where f = f, OF r d row id ok, of 0 ps] paid by simp
  ultimately show ?thesis
    using inv c payment_ok_mono [OF _ _ keeps_refl(2)] update_key_map [where f = f, OF d row id]
      billed_periods_set_row [where f = f, OF d row periods]
    by (auto simp: ledger_inv_iff charges_ok_def)
qed

lemma adjust_payment_inv:
  assumes inv: "ledger_inv (is, ps)" and fresh: "p_id p \<notin> p_id ` set ps" and chk: "payment_check p"
    and orig: "p_originalPaymentId p = Some k" and succ: "p_status p = Pay_SUCCEEDED"
    and q: "charge_of k ps = Some q" "p_kind q = CHARGE" "p_status q = Pay_SUCCEEDED"
    and same_inv: "p_invoiceId p = p_invoiceId q" and room: "adjusted k ps + p_amount p \<le> p_amount q"
    and row: "row_of (p_invoiceId p) is = Some i" and cur: "p_currency p = i_currency i"
    and same: "same_account i (g i)" and paid: "i_amountPaid (g i) = i_amountPaid i - p_amount p"
    and ok: "invoice_ok (g i)" and live: "i_status (g i) \<noteq> Inv_DRAFT"
  shows "ledger_inv (set_row (p_invoiceId p) g is, ps @ [p])"
proof -
  have c: "charges_ok is ps" and d: "distinct (map p_id ps)" using inv by (simp_all add: ledger_inv_iff)
  have q': "q \<in> set ps" "p_id q = k" using find_Some_D [OF q(1)] by auto
  have kind: "p_kind p \<noteq> CHARGE" using chk orig by (simp add: payment_check_def)
  have sett: "settled x (ps @ [p]) = settled x ps + (if x = p_invoiceId p then - p_amount p else 0)" for x
    using succ kind by (simp add: ledger_value_def)
  note move = move_row [where g = g and delta = "- p_amount p", OF inv row same _ ok live sett]
  have "payment_ok (set_row (p_invoiceId p) g is) (ps @ [p]) p"
    using chk orig succ q q' same_inv cur move(5) paid by (auto simp: payment_ok_def)
  moreover have "adjusted (p_id r) ps + adjustment_value (p_id r) p \<le> p_amount r"
    if r: "r \<in> set ps" "p_kind r = CHARGE" for r
  proof (cases "p_id r = k")
    case True
    with r q' have "r = q" using distinct_key_inj [OF d] by simp
    with True orig succ room show ?thesis by (simp add: adjustment_value_def)
  next
    case False
    with r c orig show ?thesis by (auto simp: adjustment_value_def charges_ok_def)
  qed
  ultimately have "charges_ok (set_row (p_invoiceId p) g is) (ps @ [p])"
    using charges_ok_append [OF c move(2) _ fresh] paid by simp
  then show ?thesis using move(1,3,4) inv fresh paid by (simp add: ledger_inv_iff)
qed

lemma ledger_step_inv:
  assumes "ledger_step L L'" and "ledger_inv L"
  shows "ledger_inv L'"
  using assms
proof (induction rule: ledger_step.induct)
  case (open_invoice i "is" ps)
  then show ?case by (intro open_invoice_inv)
next
  case (revise_invoice k "is" i f ps)
  then show ?case by (intro revise_invoice_inv)
next
  case (take_payment p ps "is" i)
  then have "charges_ok is (ps @ [p])" "distinct (map p_id (ps @ [p]))"
    using append_charge [OF take_payment(9,1-3) keeps_refl(1)] find_Some_D [OF take_payment(5)]
    by (auto dest: payable_not_draft)
  with take_payment show ?case by (simp add: ledger_inv_iff rows_settled_def ledger_value_def)
next
  case (revise_payment k ps p f "is")
  then have "ledger_value (f p) = ledger_value p" "distinct (map p_id ps)"
    by (auto simp: same_charge_def ledger_value_def ledger_inv_iff)
  with revise_payment show ?case
    using change_charge [where f = f, OF revise_payment(5,1-3) _ _ keeps_refl(1)]
      settled_update [where f = f, OF _ revise_payment(1,2)]
    by (simp add: ledger_inv_iff rows_settled_def)
next
  case (settle_payment k ps p f "is" i g)
  have d: "distinct (map p_id ps)" and none: "p_originalPaymentId p = None"
    using settle_payment find_Some_D [OF settle_payment(1)]
    by (auto simp: ledger_inv_iff charges_ok_def payment_ok_def payment_check_def)
  have "ledger_value (f p) - ledger_value p = p_amount p"
    using settle_payment by (simp add: same_charge_def ledger_value_def)
  then have sett: "settled x (set_charge k f ps) = settled x ps + (if x = p_invoiceId p then p_amount p else 0)" for x
    using settled_update [where f = f, OF d settle_payment(1,2)] by simp
  note move = move_row [where g = g, OF settle_payment(14,7,10-13) sett]
  then show ?case
    using change_charge [where f = f, OF settle_payment(14,1-3) _ _ move(2)] settle_payment(6) none
    by (simp add: ledger_inv_iff)
next
  case (record_payment p ps "is" i g)
  have "settled x (ps @ [p]) = settled x ps + (if x = p_invoiceId p then p_amount p else 0)" for x
    using record_payment by (simp add: ledger_value_def)
  note move = move_row [where g = g, OF record_payment(13,5,9-12) this]
  then show ?case
    using append_charge [OF record_payment(13,1-3) move(2)] record_payment(7) by (simp add: ledger_inv_iff)
next
  case (adjust_payment p ps k q "is" i g)
  then show ?case using adjust_payment_inv [where g = g] by blast
qed

lemma ledger_steps_inv: "ledger_steps L L' \<Longrightarrow> ledger_inv L \<Longrightarrow> ledger_inv L'"
  by (induction rule: rtranclp_induct) (auto dest: ledger_step_inv)

text \<open>Nothing recorded is lost: rows are only added, and what identifies a payment never changes.\<close>

definition charge_kept :: "payment list \<Rightarrow> payment \<Rightarrow> bool" where
  "charge_kept qs p \<longleftrightarrow>
     (\<exists>q \<in> set qs. same_charge p q \<and> (p_status p = Pay_SUCCEEDED \<longrightarrow> p_status q = Pay_SUCCEEDED))"

definition persists :: "ledger \<Rightarrow> ledger \<Rightarrow> bool" where
  "persists = (\<lambda>(is, ps) (js, qs).
     i_id ` set is \<subseteq> i_id ` set js \<and> (\<forall>p \<in> set ps. charge_kept qs p))"

lemma charge_keptI:
  "q \<in> set qs \<Longrightarrow> same_charge p q \<Longrightarrow> (p_status p = Pay_SUCCEEDED \<Longrightarrow> p_status q = Pay_SUCCEEDED) \<Longrightarrow>
   charge_kept qs p"
  by (auto simp: charge_kept_def)

lemma charge_kept_refl [simp]: "p \<in> set qs \<Longrightarrow> charge_kept qs p"
  by (rule charge_keptI [of p]) (simp_all add: same_charge_def)

lemma charge_kept_trans:
  assumes "charge_kept qs p" and "\<forall>q \<in> set qs. charge_kept rs q"
  shows "charge_kept rs p"
proof -
  obtain q where "q \<in> set qs" and q: "same_charge p q" "p_status p = Pay_SUCCEEDED \<longrightarrow> p_status q = Pay_SUCCEEDED"
    using assms(1) by (auto simp: charge_kept_def)
  with assms(2) obtain r where "r \<in> set rs" "same_charge q r" "p_status q = Pay_SUCCEEDED \<longrightarrow> p_status r = Pay_SUCCEEDED"
    by (auto simp: charge_kept_def)
  with q show ?thesis by (intro charge_keptI [of r]) (simp_all add: same_charge_def)
qed

lemma persists_refl: "persists L L"
  by (simp add: persists_def split: prod.splits)

lemma persists_trans: "persists L M \<Longrightarrow> persists M N \<Longrightarrow> persists L N"
  unfolding persists_def
  by (cases L; cases M; cases N) (simp, blast intro: charge_kept_trans order_trans)

lemma set_row_ids:
  assumes "distinct (map i_id is)" and "row_of k is = Some i" and "i_id (f i) = k"
  shows "i_id ` set (set_row k f is) = i_id ` set is"
  using update_key_map [where f = f, OF assms] by (metis list.set_map)

lemma set_charge_keeps:
  assumes "distinct (map p_id ps)" and "charge_of k ps = Some p" and "same_charge p (f p)"
    and "p_status p = Pay_SUCCEEDED \<Longrightarrow> p_status (f p) = Pay_SUCCEEDED" and "q \<in> set ps"
  shows "charge_kept (set_charge k f ps) q"
proof (cases "p_id q = k")
  case True
  then have "q = p" using assms(1,5) find_Some_D [OF assms(2)] distinct_key_inj [OF assms(1)] by auto
  then show ?thesis
    using assms(3,4) mem_update_key [OF assms(1,2), of "f p" f] by (intro charge_keptI [of "f p"]) auto
next
  case False
  then show ?thesis using assms(5) mem_update_key [OF assms(1,2), of q f] by simp
qed

lemma ledger_step_persists:
  assumes "ledger_step L L'" and "ledger_inv L"
  shows "persists L L'"
  using assms
proof (induction rule: ledger_step.induct)
  case (revise_invoice k "is" i f ps)
  then show ?case
    using set_row_ids [where f = f, OF _ revise_invoice(1,2)] by (auto simp: persists_def ledger_inv_iff)
next
  case (revise_payment k ps p f "is")
  then show ?case
    using set_charge_keeps [where f = f, OF _ revise_payment(1,2)] by (auto simp: persists_def ledger_inv_iff)
next
  case (settle_payment k ps p f "is" i g)
  have "i_id (g i) = p_invoiceId p"
    using settle_payment(10) find_Some_D [OF settle_payment(7)] by (simp add: same_account_def)
  then show ?case
    using settle_payment set_row_ids [where f = g, OF _ settle_payment(7)]
      set_charge_keeps [where f = f, OF _ settle_payment(1,2)]
    by (auto simp: persists_def ledger_inv_iff)
next
  case (record_payment p ps "is" i g)
  have "i_id (g i) = p_invoiceId p"
    using record_payment(9) find_Some_D [OF record_payment(5)] by (simp add: same_account_def)
  then show ?case
    using record_payment set_row_ids [where f = g, OF _ record_payment(5)]
    by (auto simp: persists_def ledger_inv_iff)
next
  case (adjust_payment p ps k q "is" i g)
  have "i_id (g i) = p_invoiceId p"
    using adjust_payment(12) find_Some_D [OF adjust_payment(10)] by (simp add: same_account_def)
  then show ?case
    using adjust_payment set_row_ids [where f = g, OF _ adjust_payment(10)]
    by (auto simp: persists_def ledger_inv_iff)
qed (auto simp: persists_def)

lemma ledger_steps_persists:
  assumes "ledger_steps L L'" and "ledger_inv L"
  shows "persists L L'"
  using assms
proof (induction rule: rtranclp_induct)
  case base
  then show ?case by (simp add: persists_refl)
next
  case (step M N)
  then show ?case
    using ledger_step_persists ledger_steps_inv [of L M] persists_trans by blast
qed

section \<open>The interface of a transaction to the ledger\<close>

locale ledger_client =
  fixes run :: "'a tx"
  assumes refines: "ledger_inv (ledger_of d) \<Longrightarrow> run d = Inr (d', x) \<Longrightarrow>
    ledger_steps (ledger_of d) (ledger_of d')"
begin

lemma keeps_inv:
  "ledger_inv (ledger_of d) \<Longrightarrow> run d = Inr (d', x) \<Longrightarrow> ledger_inv (ledger_of d')"
  using refines ledger_steps_inv by blast

lemma committed:
  "ledger_inv (ledger_of d) \<Longrightarrow> ledger_inv (ledger_of (fst (run_tx run d)))"
  using keeps_inv by (auto simp: run_tx_def split: sum.splits)

lemma persistent:
  "ledger_inv (ledger_of d) \<Longrightarrow> persists (ledger_of d) (ledger_of (fst (run_tx run d)))"
  using refines ledger_steps_persists persists_refl
  by (auto simp: run_tx_def split: sum.splits)

end

text \<open>
  A handler that reads before its transaction commits into a database that other
  transactions may have changed since. What it relies on is that nothing recorded was lost
  in between; a transaction that relies on nothing satisfies the same contract for every read.
\<close>

locale stale_client =
  fixes d0 :: db and run :: "'a tx"
  assumes refines_from: "ledger_inv (ledger_of d0) \<Longrightarrow> ledger_inv (ledger_of d) \<Longrightarrow>
    persists (ledger_of d0) (ledger_of d) \<Longrightarrow> run d = Inr (d', x) \<Longrightarrow>
    ledger_steps (ledger_of d) (ledger_of d')"
begin

lemma steps_after_interleaving:
  assumes "ledger_inv (ledger_of d0)" and "ledger_steps (ledger_of d0) (ledger_of d)"
  shows "ledger_steps (ledger_of d) (ledger_of (fst (run_tx run d)))"
proof -
  have inv: "ledger_inv (ledger_of d)" "persists (ledger_of d0) (ledger_of d)"
    using assms ledger_steps_inv ledger_steps_persists by blast+
  then show ?thesis
    using refines_from [OF assms(1) inv] by (auto simp: run_tx_def split: sum.splits)
qed

lemma after_interleaving:
  assumes "ledger_inv (ledger_of d0)" and "ledger_steps (ledger_of d0) (ledger_of d)"
  shows "ledger_inv (ledger_of (fst (run_tx run d)))"
  using ledger_steps_inv [OF steps_after_interleaving [OF assms] ledger_steps_inv [OF assms(2,1)]] .

end

sublocale ledger_client \<subseteq> any_read: stale_client d0 run for d0
  by unfold_locales (rule refines)

section \<open>What single calls do to the ledger\<close>

lemma ledger_of_unchanged [simp]:
  "ledger_of (log_activity a d) = ledger_of d"
  "ledger_of (upsert_setting k v d) = ledger_of d"
  "ledger_of (fst (mark_order_paid now k d)) = ledger_of d"
  "ledger_of (d\<lparr>d_orders := os\<rparr>) = ledger_of d"
  "ledger_of (d\<lparr>d_paymentEvents := es\<rparr>) = ledger_of d"
  "ledger_of (d\<lparr>d_services := ss\<rparr>) = ledger_of d"
  "ledger_of (d\<lparr>d_runs := rs\<rparr>) = ledger_of d"
  by (simp_all add: ledger_of_def log_activity_def upsert_setting_def mark_order_paid_def Let_def)

lemma create_outbox_ledger:
  "create_outbox now a k t key v d = Inr (d', u) \<Longrightarrow> ledger_of d' = ledger_of d"
  by (auto simp: create_outbox_def ledger_of_def split: if_splits)

lemma find_invoice_row: "find_invoice k d = row_of k (fst (ledger_of d))"
  by (simp add: find_invoice_def ledger_of_def)

lemma find_payment_row: "find_payment k d = charge_of k (snd (ledger_of d))"
  by (simp add: find_payment_def ledger_of_def)

lemma not_mem_keys: "k \<notin> key ` set rs \<longleftrightarrow> \<not> list_ex (\<lambda>r. key r = k) rs"
  by (auto simp: list_ex_iff)

lemma list_ex_disj: "list_ex (\<lambda>r. P r \<or> Q r) rs \<longleftrightarrow> list_ex P rs \<or> list_ex Q rs"
  by (auto simp: list_ex_iff)

lemma update_invoice_cases:
  assumes "update_invoice now k f d = Inr (d', u)"
  obtains i where "find_invoice k d = Some i" and "invoice_check (f i)"
    and "list_all invoice_item_check (i_items (f i))" and "domain_invoice_guard i (f i) d"
    and "d' = d\<lparr>d_invoices := set_row k (\<lambda>j. (f j)\<lparr>i_updatedAt := now\<rparr>) (d_invoices d)\<rparr>"
  using assms by (auto simp: update_invoice_def split: option.splits if_splits)

lemma update_invoice_ledger:
  "update_invoice now k f d = Inr (d', u) \<Longrightarrow>
   ledger_of d' = (set_row k (\<lambda>j. (f j)\<lparr>i_updatedAt := now\<rparr>) (d_invoices d), d_payments d)"
  by (erule update_invoice_cases) (simp add: ledger_of_def)

lemma create_invoice_cases:
  assumes "create_invoice row d = Inr (d', k)"
  obtains "k = fresh_uuid d" and "invoice_check (row\<lparr>i_id := k\<rparr>)"
    and "list_all invoice_item_check (i_items row)" and "k \<notin> i_id ` set (d_invoices d)"
    and "i_number row \<notin> i_number ` set (d_invoices d)"
    and "i_submissionKey row \<notin> i_submissionKey ` set (d_invoices d)"
    and "d' = d\<lparr>d_invoices := d_invoices d @ [row\<lparr>i_id := k\<rparr>], d_supply := Suc (d_supply d)\<rparr>"
  using assms by (auto simp: create_invoice_def Let_def not_mem_keys list_ex_disj split: if_splits)

lemma create_payment_cases:
  assumes "create_payment row d = Inr (d', k)"
  obtains "k = fresh_uuid d" and "payment_check (row\<lparr>p_id := k\<rparr>)" and "k \<notin> p_id ` set (d_payments d)"
    and "p_idempotencyKey row \<notin> p_idempotencyKey ` set (d_payments d)"
    and "d' = d\<lparr>d_payments := d_payments d @ [row\<lparr>p_id := k\<rparr>], d_supply := Suc (d_supply d)\<rparr>"
  using assms by (auto simp: create_payment_def Let_def not_mem_keys list_ex_disj split: if_splits)

lemma update_payment_cases:
  assumes "update_payment k f d = Inr (d', u)"
  obtains p where "find_payment k d = Some p" and "payment_check (f p)"
    and "d' = d\<lparr>d_payments := set_charge k f (d_payments d)\<rparr>"
  using assms by (auto simp: update_payment_def Let_def split: option.splits if_splits)

lemma invoice_check_updatedAt [simp]: "invoice_check (i\<lparr>i_updatedAt := t\<rparr>) = invoice_check i"
  by (cases "i_issuedAt i") (simp_all add: invoice_check_def)

lemma invoice_ok_updatedAt [simp]: "invoice_ok (i\<lparr>i_updatedAt := t\<rparr>) = invoice_ok i"
  by (cases "i_issuedAt i") (simp_all add: invoice_ok_def invoice_check_def)

lemma update_invoice_step:
  assumes "update_invoice now k f d = Inr (d', u)" and "find_invoice k d = Some i"
    and "i_id (f i) = k" and "i_amountPaid (f i) = i_amountPaid i"
    and "i_status (f i) = Inv_PAID \<Longrightarrow> i_balanceDue (f i) = 0"
    and "i_status (f i) \<in> {Inv_DRAFT, Inv_CANCELLED} \<Longrightarrow> i_amountPaid i = 0"
    and "i_currency (f i) = i_currency i \<or> i_status i = Inv_DRAFT"
    and "i_status (f i) = Inv_DRAFT \<Longrightarrow> i_status i = Inv_DRAFT"
    and "service_keys (i_items (f i)) = service_keys (i_items i)"
    and "i_status i = Inv_DRAFT \<Longrightarrow> service_keys (i_items i) = []"
  shows "ledger_step (ledger_of d) (ledger_of d')"
  using assms(1)
proof (rule update_invoice_cases)
  fix j
  assume j: "find_invoice k d = Some j" "invoice_check (f j)" "list_all invoice_item_check (i_items (f j))"
    and d': "d' = d\<lparr>d_invoices := set_row k (\<lambda>j. (f j)\<lparr>i_updatedAt := now\<rparr>) (d_invoices d)\<rparr>"
  have row: "row_of k (d_invoices d) = Some i" using assms(2) by (simp add: find_invoice_def)
  have "invoice_ok (f i)" using j assms(2,4-6,8-10) by (simp add: invoice_ok_def)
  then have "ledger_step (d_invoices d, d_payments d)
    (set_row k (\<lambda>j. (f j)\<lparr>i_updatedAt := now\<rparr>) (d_invoices d), d_payments d)"
    using assms(3-9) by (intro revise_invoice [OF row]) auto
  then show ?thesis using d' by (simp add: ledger_of_def)
qed

lemma counted_row:
  assumes "distinct (map i_id is)" and "count_where (\<lambda>i. i_id i = k \<and> P i) is = 1"
  shows "\<exists>i. row_of k is = Some i \<and> P i"
proof -
  obtain i where i: "i \<in> set is" "i_id i = k" "P i"
    using assms(2) count_where_pos [of "\<lambda>i. i_id i = k \<and> P i" "is"] by auto
  with find_key_eq [OF assms(1) i(1)] show ?thesis by auto
qed

lemma update_payment_step:
  assumes "update_payment k f d = Inr (d', u)" and "find_payment k d = Some p" and "same_charge p (f p)"
    and "p_status (f p) = Pay_SUCCEEDED \<longleftrightarrow> p_status p = Pay_SUCCEEDED"
  shows "ledger_step (ledger_of d) (ledger_of d')"
  using assms(1)
proof (rule update_payment_cases)
  fix q
  assume q: "find_payment k d = Some q" "payment_check (f q)"
    and d': "d' = d\<lparr>d_payments := set_charge k f (d_payments d)\<rparr>"
  have "ledger_step (d_invoices d, d_payments d) (d_invoices d, set_charge k f (d_payments d))"
    by (rule revise_payment [of _ _ p]) (use q assms in \<open>auto simp: find_payment_def\<close>)
  then show ?thesis using d' by (simp add: ledger_of_def)
qed

lemma counted_payment:
  assumes "distinct (map p_id ps)" and "count_where (\<lambda>p. p_id p = k \<and> P p) ps = 1"
  shows "\<exists>p. charge_of k ps = Some p \<and> P p"
proof -
  obtain p where p: "p \<in> set ps" "p_id p = k" "P p"
    using assms(2) count_where_pos [of "\<lambda>p. p_id p = k \<and> P p" ps] by auto
  with find_key_eq [OF assms(1) p(1)] show ?thesis by auto
qed

lemma find_invoice_idD: "find_invoice k d = Some i \<Longrightarrow> i_id i = k"
  by (auto simp: find_invoice_def dest: find_Some_D)

lemma find_payment_idD: "find_payment k d = Some p \<Longrightarrow> p_id p = k"
  by (auto simp: find_payment_def dest: find_Some_D)

lemma persistent_charge:
  assumes "persists (ledger_of d0) (ledger_of d)" and "ledger_inv (ledger_of d)"
    and "find_payment k d0 = Some p"
  obtains q where "find_payment k d = Some q" and "same_charge p q"
    and "p_status p = Pay_SUCCEEDED \<Longrightarrow> p_status q = Pay_SUCCEEDED"
proof -
  have "p \<in> set (d_payments d0)" "p_id p = k"
    using assms(3) by (auto simp: find_payment_def dest: find_Some_D)
  with assms(1) have "charge_kept (d_payments d) p" by (simp add: persists_def ledger_of_def)
  then obtain q where q: "q \<in> set (d_payments d)" "same_charge p q"
    "p_status p = Pay_SUCCEEDED \<longrightarrow> p_status q = Pay_SUCCEEDED"
    by (auto simp: charge_kept_def)
  moreover have "distinct (map p_id (d_payments d))" using assms(2) by (simp add: ledger_inv_iff ledger_of_def)
  ultimately have "find_payment k d = Some q"
    using find_key_eq [of p_id "d_payments d" q] \<open>p_id p = k\<close> by (simp add: find_payment_def same_charge_def)
  then show ?thesis using q(2,3) that by blast
qed

lemma persistent_payment:
  assumes "persists (ledger_of d0) (ledger_of d)" and "ledger_inv (ledger_of d)"
    and "find_payment k d0 = Some p"
  obtains q where "find_payment k d = Some q" and "same_charge p q"
  using persistent_charge [OF assms] that by blast

lemma adjusted_nonneg:
  assumes "charges_ok is ps"
  shows "0 \<le> adjusted k ps"
  unfolding adjusted_def
proof (rule sum_list_nonneg)
  fix x
  assume "x \<in> set (map (adjustment_value k) ps)"
  with assms show "0 \<le> x"
    by (fastforce simp: charges_ok_def payment_ok_def payment_check_def adjustment_value_def)
qed

end
