(* ===== verification/Invoices.thy ===== *)
theory Invoices
  imports Ledger
begin

text \<open>
  Invoices: \<^verbatim>\<open>apps/api/src/modules/invoices/invoice.service.ts\<close> (the checked totals,
  the status transitions, and the handlers that create, edit, issue, mark overdue and
  cancel an invoice) and the sequential numbering of
  \<^verbatim>\<open>apps/api/src/common/identifiers/invoice-number.ts\<close>. A handler that reads outside its
  transaction and re-checks inside it is a read step and a commit step, so that other
  transactions may run between the two. Dates arrive as instants and amounts as the
  validated strings of the request. The response of a handler is the identifier of the
  invoice; its rendering is not part of the model.
\<close>

section \<open>Totals\<close>

datatype invoice_calc_error = Invoice_Calculation_Error string

record calculable_item =
  ca_quantity :: int
  ca_unitAmount :: int
  ca_discountAmount :: int
  ca_taxAmount :: int

record invoice_totals =
  t_subtotal :: int
  t_discountTotal :: int
  t_taxTotal :: int
  t_total :: int
  t_creditTotal :: int
  t_amountPaid :: int
  t_balanceDue :: int
  t_lineTotals :: "int list"

definition MAX_SAFE_INTEGER :: int where
  "MAX_SAFE_INTEGER = 9007199254740991"

definition isSafeInteger :: "int \<Rightarrow> bool" where
  "isSafeInteger n \<longleftrightarrow> \<bar>n\<bar> \<le> MAX_SAFE_INTEGER"

definition checkedAdd :: "int \<Rightarrow> int \<Rightarrow> string \<Rightarrow> invoice_calc_error + int" where
  "checkedAdd left right label =
     (if right > POSTGRES_BIGINT_MAX - left
      then Inl (Invoice_Calculation_Error (label @ '' exceeds the supported range.''))
      else Inr (left + right))"

definition calculate_line :: "calculable_item \<Rightarrow> invoice_calc_error + int \<times> int" where
  \<comment> \<open>one iteration's checks: the gross amount and the line total\<close>
  "calculate_line item =
     (if ca_quantity item < 1 \<or> \<not> isSafeInteger (ca_quantity item)
      then Inl (Invoice_Calculation_Error ''Invoice quantity is invalid.'')
      else if ca_unitAmount item < 0 \<or> ca_discountAmount item < 0 \<or> ca_taxAmount item < 0
      then Inl (Invoice_Calculation_Error ''Invoice amounts cannot be negative.'')
      else if ca_unitAmount item > 0 \<and> ca_quantity item > POSTGRES_BIGINT_MAX div ca_unitAmount item
      then Inl (Invoice_Calculation_Error ''Invoice item subtotal exceeds the supported range.'')
      else
        let gross = ca_unitAmount item * ca_quantity item
        in if ca_discountAmount item > gross
           then Inl (Invoice_Calculation_Error ''An item discount cannot exceed its subtotal.'')
           else rbind (checkedAdd (gross - ca_discountAmount item) (ca_taxAmount item)
                         ''Invoice item total'') (\<lambda>lineTotal. Inr (gross, lineTotal)))"

fun calculate_lines ::
    "calculable_item list \<Rightarrow> int \<times> int \<times> int \<times> int list \<Rightarrow>
     invoice_calc_error + int \<times> int \<times> int \<times> int list" where
  \<comment> \<open>the loop over the items, with its accumulators\<close>
  "calculate_lines [] acc = Inr acc"
| "calculate_lines (item # items) (subtotal, discountTotal, taxTotal, lineTotals) =
     rbind (calculate_line item) (\<lambda>(gross, lineTotal).
     rbind (checkedAdd subtotal gross ''Invoice subtotal'') (\<lambda>subtotal'.
     rbind (checkedAdd discountTotal (ca_discountAmount item) ''Invoice discount total'') (\<lambda>discountTotal'.
     rbind (checkedAdd taxTotal (ca_taxAmount item) ''Invoice tax total'') (\<lambda>taxTotal'.
     calculate_lines items (subtotal', discountTotal', taxTotal', lineTotals @ [lineTotal])))))"

definition calculateInvoiceTotals ::
    "calculable_item list \<Rightarrow> int \<Rightarrow> int \<Rightarrow> invoice_calc_error + invoice_totals" where
  "calculateInvoiceTotals items creditTotal amountPaid =
     (if items = [] then Inl (Invoice_Calculation_Error ''At least one invoice item is required.'')
      else
        rbind (calculate_lines items (0, 0, 0, [])) (\<lambda>(subtotal, discountTotal, taxTotal, lineTotals).
        rbind (checkedAdd (subtotal - discountTotal) taxTotal ''Invoice total'') (\<lambda>total.
        if creditTotal < 0 \<or> amountPaid < 0
        then Inl (Invoice_Calculation_Error ''Settlement amounts cannot be negative.'')
        else
          rbind (checkedAdd creditTotal amountPaid ''Invoice settlement'') (\<lambda>settled.
          if settled > total
          then Inl (Invoice_Calculation_Error ''Credits and payments cannot exceed the invoice total.'')
          else Inr \<lparr>t_subtotal = subtotal, t_discountTotal = discountTotal, t_taxTotal = taxTotal,
                 t_total = total, t_creditTotal = creditTotal, t_amountPaid = amountPaid,
                 t_balanceDue = total - settled, t_lineTotals = lineTotals\<rparr>))))"

section \<open>Status transitions\<close>

datatype invoice_action = ISSUE | MARK_OVERDUE | CANCEL

datatype transition_error = Invoice_State_Transition_Error string

definition nextInvoiceStatus ::
    "invoice_action \<Rightarrow> invoice_status \<Rightarrow> instant \<Rightarrow> int \<Rightarrow> int \<Rightarrow> instant \<Rightarrow>
     transition_error + invoice_status" where
  "nextInvoiceStatus action status dueAt balanceDue amountPaid now =
     (case action of
        ISSUE \<Rightarrow>
          if status \<noteq> Inv_DRAFT
          then Inl (Invoice_State_Transition_Error ''Only a draft invoice can be issued.'')
          else if dueAt < now
          then Inl (Invoice_State_Transition_Error ''Invoice due date cannot precede its issue date.'')
          else Inr (if balanceDue = 0 then Inv_PAID else Inv_UNPAID)
      | MARK_OVERDUE \<Rightarrow>
          if status \<noteq> Inv_UNPAID \<or> balanceDue = 0 \<or> dueAt \<ge> now
          then Inl (Invoice_State_Transition_Error
                 ''Only a past-due unpaid invoice with a balance can be marked overdue.'')
          else Inr Inv_OVERDUE
      | CANCEL \<Rightarrow>
          if (status \<noteq> Inv_DRAFT \<and> status \<noteq> Inv_UNPAID \<and> status \<noteq> Inv_OVERDUE) \<or> amountPaid > 0
          then Inl (Invoice_State_Transition_Error
                 ''Paid or settled invoices cannot be cancelled; use a refund or reversal.'')
          else Inr Inv_CANCELLED)"

section \<open>Numbering\<close>

record numbering_settings =
  nu_prefix :: string
  nu_nextNumber :: int
  nu_padding :: int

definition numbering_key :: string where "numbering_key = ''billing.invoice-numbering''"

definition numbering_json :: "numbering_settings \<Rightarrow> json" where
  "numbering_json n = JObj [(''prefix'', JStr (nu_prefix n)), (''nextNumber'', JNum (nu_nextNumber n)),
                            (''padding'', JNum (nu_padding n))]"

definition default_numbering :: numbering_settings where
  "default_numbering = \<lparr>nu_prefix = ''INV'', nu_nextNumber = 1001, nu_padding = 6\<rparr>"

definition prefix_pattern :: "string \<Rightarrow> bool" where
  \<comment> \<open>\<open>^[A-Z][A-Z0-9]{1,9}$\<close>\<close>
  "prefix_pattern s \<longleftrightarrow>
     s \<noteq> [] \<and> is_upper (hd s) \<and> list_all (\<lambda>c. is_upper c \<or> is_digit c) (tl s) \<and>
     1 \<le> length (tl s) \<and> length (tl s) \<le> 9"

definition numbering_valid :: "numbering_settings \<Rightarrow> bool" where
  "numbering_valid n \<longleftrightarrow>
     prefix_pattern (nu_prefix n) \<and> 1 \<le> nu_nextNumber n \<and> nu_nextNumber n \<le> 999999999999 \<and>
     4 \<le> nu_padding n \<and> nu_padding n \<le> 12 \<and>
     int (length (bigint_to_string (nu_nextNumber n))) \<le> nu_padding n"

definition parse_numbering :: "json \<Rightarrow> numbering_settings option" where
  \<comment> \<open>\<open>invoiceNumberingSettingsSchema.safeParse\<close>: the prefix is trimmed and upper-cased, no
      other field is allowed\<close>
  "parse_numbering v =
     (case (v, jfield ''prefix'' v, jfield ''nextNumber'' v, jfield ''padding'' v) of
        (JObj fs, Some (JStr p), Some (JNum n), Some (JNum k)) \<Rightarrow>
          let s = \<lparr>nu_prefix = js_upper (js_trim p), nu_nextNumber = n, nu_padding = k\<rparr>
          in if length fs = 3 \<and> numbering_valid s then Some s else None
      | _ \<Rightarrow> None)"

definition formatInvoiceNumber :: "numbering_settings \<Rightarrow> string" where
  "formatInvoiceNumber n =
     nu_prefix n @ ''-'' @ pad_start (nat (nu_padding n)) CHR ''0'' (bigint_to_string (nu_nextNumber n))"

definition allocateInvoiceNumber :: "string tx" where
  "allocateInvoiceNumber d =
     (let d1 = (if find_setting numbering_key d = None
                then upsert_setting numbering_key (numbering_json default_numbering) d else d);
          parsed = (case find_setting numbering_key d1 of None \<Rightarrow> None | Some v \<Rightarrow> parse_numbering v);
          settings = (case parsed of Some s \<Rightarrow> s | None \<Rightarrow> default_numbering);
          next_settings = settings\<lparr>nu_nextNumber := nu_nextNumber settings + 1\<rparr>
      in case parse_numbering (numbering_json next_settings) of
           None \<Rightarrow> Inl (Server_Error ''Invoice numbering range has been exhausted.'')
         | Some s \<Rightarrow> Inr (upsert_setting numbering_key (numbering_json s) d1, formatInvoiceNumber settings))"

section \<open>Handlers\<close>

record actor =
  actor_userId :: uuid
  actor_role :: user_role
  actor_customerId :: "uuid option"

record invoice_item_input =
  in_description :: string
  in_quantity :: int
  in_unitAmount :: string
  in_discountAmount :: string
  in_taxAmount :: string
  in_periodStart :: "instant option"
  in_periodEnd :: "instant option"

record draft_input =
  dr_currency :: string
  dr_dueAt :: instant
  dr_creditTotal :: string
  dr_items :: "invoice_item_input list"

record create_input = draft_input +
  cr_customerId :: uuid
  cr_submissionKey :: string

definition admin_activity :: "actor \<Rightarrow> string \<Rightarrow> string \<Rightarrow> uuid option \<Rightarrow> (string \<times> json) list \<Rightarrow> activity" where
  "admin_activity ac action entityType entityId metadata =
     \<lparr>a_actorUserId = Some (actor_userId ac), a_action = action, a_entityType = entityType,
      a_entityId = entityId, a_correlationId = None, a_metadata = metadata\<rparr>"

definition to_calculable :: "invoice_item_input \<Rightarrow> calculable_item" where
  "to_calculable item =
     \<lparr>ca_quantity = in_quantity item, ca_unitAmount = int (dec_val (in_unitAmount item)),
      ca_discountAmount = int (dec_val (in_discountAmount item)),
      ca_taxAmount = int (dec_val (in_taxAmount item))\<rparr>"

definition parseAndCalculate ::
    "invoice_item_input list \<Rightarrow> string \<Rightarrow> api_error + invoice_totals" where
  "parseAndCalculate items credit =
     (case calculateInvoiceTotals (map to_calculable items) (int (dec_val credit)) 0 of
        Inl (Invoice_Calculation_Error m) \<Rightarrow> Inl (Unprocessable m)
      | Inr t \<Rightarrow> Inr t)"

definition itemCreateData :: "string \<Rightarrow> invoice_item_input \<Rightarrow> int \<Rightarrow> nat \<Rightarrow> invoice_item" where
  "itemCreateData currency item lineTotal linePosition =
     \<lparr>it_linePosition = linePosition, it_orderItemId = None, it_serviceId = None,
      it_description = in_description item, it_currency = currency, it_quantity = in_quantity item,
      it_unitAmount = int (dec_val (in_unitAmount item)),
      it_discountAmount = int (dec_val (in_discountAmount item)),
      it_taxAmount = int (dec_val (in_taxAmount item)), it_lineTotal = lineTotal,
      it_periodStart = in_periodStart item, it_periodEnd = in_periodEnd item\<rparr>"

fun create_items :: "string \<Rightarrow> nat \<Rightarrow> invoice_item_input list \<Rightarrow> int list \<Rightarrow> api_error + invoice_item list" where
  \<comment> \<open>\<open>input.items.map((item, index) => itemCreateData(item, currency, lineTotals[index], index + 1))\<close>\<close>
  "create_items currency n [] totals = Inr []"
| "create_items currency n (item # items) [] = Inl (Server_Error ''Missing invoice line total'')"
| "create_items currency n (item # items) (t # totals) =
     rbind (create_items currency (Suc n) items totals) (\<lambda>rest.
       Inr (itemCreateData currency item t (Suc n) # rest))"

definition normalizeBusinessIdentity :: "(json \<Rightarrow> json option) \<Rightarrow> json option \<Rightarrow> api_error + json" where
  \<comment> \<open>the first argument is \<open>businessIdentitySchema.safeParse\<close>; its e-mail rule is Zod's\<close>
  "normalizeBusinessIdentity schema stored =
     (let v = (case stored of None \<Rightarrow> JNull | Some j \<Rightarrow> j)
      in case schema v of
           Some parsed \<Rightarrow> Inr parsed
         | None \<Rightarrow>
           (case jfield ''name'' v of
              Some (JStr name) \<Rightarrow>
                if js_trim name \<noteq> []
                then
                  (let rest = (case jfield ''address'' v of
                                 Some (JStr a) \<Rightarrow> if js_trim a \<noteq> [] then [(''addressLine1'', JStr a)] else []
                               | _ \<Rightarrow> [])
                   in of_option (Server_Error ''ZodError'') (schema (JObj ((''name'', JStr name) # rest))))
                else Inr (JObj [(''name'', JStr ''Webhost Billing'')])
            | _ \<Rightarrow> Inr (JObj [(''name'', JStr ''Webhost Billing'')])))"

definition active_customer :: "uuid \<Rightarrow> db \<Rightarrow> (customer \<times> user) option" where
  "active_customer k d =
     (case List.find (\<lambda>c. c_id c = k \<and> c_deletedAt c = None \<and> c_status c = Cust_ACTIVE \<and>
                 list_ex (\<lambda>u. u_id u = c_userId c \<and> u_status u = User_ACTIVE \<and> u_deletedAt u = None)
                   (d_users d)) (d_customers d) of
        None \<Rightarrow> None
      | Some c \<Rightarrow> map_option (Pair c) (List.find (\<lambda>u. u_id u = c_userId c) (d_users d)))"

definition customer_snapshot :: "customer \<Rightarrow> user \<Rightarrow> json \<Rightarrow> invoice_snapshot" where
  "customer_snapshot c u identity =
     \<lparr>sn_customerName =
        (case c_companyName c of Some n \<Rightarrow> n | None \<Rightarrow> c_firstName c @ '' '' @ c_lastName c),
      sn_customerEmail = u_email u,
      sn_customerAddress =
        JObj [(''line1'', JStr (c_addressLine1 c)), (''line2'', jstr_opt (c_addressLine2 c)),
              (''city'', JStr (c_city c)), (''region'', jstr_opt (c_region c)),
              (''postalCode'', jstr_opt (c_postalCode c)), (''countryCode'', JStr (c_countryCode c))],
      sn_businessIdentity = identity,
      sn_taxIdentity =
        (case c_taxIdentifier c of
           Some t \<Rightarrow> if t \<noteq> [] then Some (JObj [(''taxIdentifier'', JStr t)]) else None
         | None \<Rightarrow> None)\<rparr>"

definition draft_row ::
    "create_input \<Rightarrow> invoice_totals \<Rightarrow> string \<Rightarrow> customer \<Rightarrow> user \<Rightarrow> json \<Rightarrow> invoice_item list \<Rightarrow>
     instant \<Rightarrow> invoice" where
  "draft_row input amounts number c u identity items now =
     \<lparr>i_id = [], i_number = number, i_submissionKey = cr_submissionKey input,
      i_customerId = c_id c, i_orderId = None, i_status = Inv_DRAFT,
      i_currency = dr_currency input, i_subtotal = t_subtotal amounts,
      i_discountTotal = t_discountTotal amounts, i_taxTotal = t_taxTotal amounts,
      i_total = t_total amounts, i_creditTotal = t_creditTotal amounts,
      i_amountPaid = 0, i_balanceDue = t_balanceDue amounts,
      i_snapshot = customer_snapshot c u identity, i_issuedAt = None,
      i_dueAt = dr_dueAt input, i_paidAt = None, i_cancelledAt = None,
      i_updatedAt = now, i_items = items\<rparr>"

definition createInvoice_tx ::
    "(json \<Rightarrow> json option) \<Rightarrow> create_input \<Rightarrow> invoice_totals \<Rightarrow> actor \<Rightarrow> instant \<Rightarrow> uuid tx" where
  "createInvoice_tx schema input amounts ac now d =
     (case active_customer (cr_customerId input) d of
        None \<Rightarrow> Inl (Unprocessable ''The selected customer account is not active.'')
      | Some (c, u) \<Rightarrow>
        rbind (allocateInvoiceNumber d) (\<lambda>(d1, number).
        rbind (normalizeBusinessIdentity schema (find_setting ''business.identity'' d)) (\<lambda>identity.
        rbind (create_items (dr_currency input) 0 (dr_items input) (t_lineTotals amounts)) (\<lambda>items.
        rbind (create_invoice
                 (draft_row input amounts number c u identity items now) d1) (\<lambda>(d2, k).
        Inr (log_activity (admin_activity ac ''INVOICE_DRAFT_CREATED_BY_ADMIN'' ''INVOICE'' (Some k)
               [(''customerId'', JStr (c_id c)),
                (''itemCount'', JNum (int (length (dr_items input))))]) d2, k))))))"

type_synonym item_key =
  "string \<times> int \<times> string \<times> string \<times> string \<times> instant option \<times> instant option"

definition stored_item_key :: "invoice_item \<Rightarrow> item_key" where
  "stored_item_key it =
     (it_description it, it_quantity it, bigint_to_string (it_unitAmount it),
      bigint_to_string (it_discountAmount it), bigint_to_string (it_taxAmount it),
      it_periodStart it, it_periodEnd it)"

definition submitted_item_key :: "invoice_item_input \<Rightarrow> item_key" where
  "submitted_item_key it =
     (in_description it, in_quantity it, in_unitAmount it, in_discountAmount it, in_taxAmount it,
      in_periodStart it, in_periodEnd it)"

definition duplicateResult :: "invoice \<Rightarrow> create_input \<Rightarrow> api_error + uuid \<times> bool" where
  "duplicateResult existing input =
     (let sameItems = (map stored_item_key (i_items existing) = map submitted_item_key (dr_items input))
      in if i_customerId existing \<noteq> cr_customerId input \<or> i_currency existing \<noteq> dr_currency input \<or>
            i_dueAt existing \<noteq> dr_dueAt input \<or>
            i_creditTotal existing \<noteq> int (dec_val (dr_creditTotal input)) \<or> \<not> sameItems
         then Inl (Conflict ''This submission key has already been used for another invoice.'')
         else Inr (i_id existing, True))"

definition find_invoice_by_key :: "string \<Rightarrow> db \<Rightarrow> invoice option" where
  "find_invoice_by_key k d = List.find (\<lambda>i. i_submissionKey i = k) (d_invoices d)"

definition createInvoice ::
    "(json \<Rightarrow> json option) \<Rightarrow> create_input \<Rightarrow> actor \<Rightarrow> instant \<Rightarrow> (uuid \<times> bool) handler" where
  "createInvoice schema input ac now d =
     (case find_invoice_by_key (cr_submissionKey input) d of
        Some existing \<Rightarrow> (d, duplicateResult existing input)
      | None \<Rightarrow>
        (case parseAndCalculate (dr_items input) (dr_creditTotal input) of
           Inl e \<Rightarrow> (d, Inl e)
         | Inr amounts \<Rightarrow>
           (case run_tx (createInvoice_tx schema input amounts ac now) d of
              (d', Inr k) \<Rightarrow> (d', Inr (k, False))
            | (d', Inl e) \<Rightarrow>
              if e = Unique_Violation
              then (case find_invoice_by_key (cr_submissionKey input) d' of
                      Some raced \<Rightarrow> (d', duplicateResult raced input)
                    | None \<Rightarrow>
                      (d', Inl (Conflict ''Could not allocate a unique invoice number. Try again.'')))
              else (d', Inl e))))"

definition updateDraft_read :: "uuid \<Rightarrow> draft_input \<Rightarrow> db \<Rightarrow> api_error + instant \<times> invoice_totals" where
  \<comment> \<open>what is read and checked before the transaction: the draft's \<open>updatedAt\<close> and the new totals\<close>
  "updateDraft_read k input d =
     rbind (of_option (Not_Found ''Invoice was not found.'') (find_invoice k d)) (\<lambda>current.
     if i_status current \<noteq> Inv_DRAFT then Inl (Unprocessable ''Only a draft invoice can be edited.'')
     else rbind (parseAndCalculate (dr_items input) (dr_creditTotal input)) (\<lambda>amounts.
       Inr (i_updatedAt current, amounts)))"

definition draft_edit :: "draft_input \<Rightarrow> invoice_totals \<Rightarrow> invoice_item list \<Rightarrow> invoice \<Rightarrow> invoice" where
  "draft_edit input amounts items i =
     i\<lparr>i_currency := dr_currency input, i_dueAt := dr_dueAt input,
       i_subtotal := t_subtotal amounts, i_discountTotal := t_discountTotal amounts,
       i_taxTotal := t_taxTotal amounts, i_total := t_total amounts,
       i_creditTotal := t_creditTotal amounts, i_balanceDue := t_balanceDue amounts,
       i_items := items\<rparr>"

definition updateDraft_tx ::
    "uuid \<Rightarrow> draft_input \<Rightarrow> instant \<Rightarrow> invoice_totals \<Rightarrow> actor \<Rightarrow> instant \<Rightarrow> unit tx" where
  "updateDraft_tx k input readUpdatedAt amounts ac now d =
     (if count_where (\<lambda>i. i_id i = k \<and> i_status i = Inv_DRAFT \<and> i_updatedAt i = readUpdatedAt)
           (d_invoices d) \<noteq> 1
      then Inl (Unprocessable ''The invoice changed while it was being edited. Reload and try again.'')
      else
        rbind (create_items (dr_currency input) 0 (dr_items input) (t_lineTotals amounts)) (\<lambda>items.
        rbind (update_invoice now k (draft_edit input amounts items) d) (\<lambda>(d1, _).
        Inr (log_activity (admin_activity ac ''INVOICE_DRAFT_UPDATED_BY_ADMIN'' ''INVOICE'' (Some k)
               [(''itemCount'', JNum (int (length (dr_items input))))]) d1, ()))))"

definition updateDraft_from :: "db \<Rightarrow> uuid \<Rightarrow> draft_input \<Rightarrow> actor \<Rightarrow> instant \<Rightarrow> unit tx" where
  \<comment> \<open>the transaction, after the reads were made in the database \<open>d0\<close>\<close>
  "updateDraft_from d0 k input ac now d =
     rbind (updateDraft_read k input d0) (\<lambda>(readUpdatedAt, amounts).
       updateDraft_tx k input readUpdatedAt amounts ac now d)"

definition updateDraft :: "uuid \<Rightarrow> draft_input \<Rightarrow> actor \<Rightarrow> instant \<Rightarrow> unit handler" where
  "updateDraft k input ac now d = run_tx (updateDraft_from d k input ac now) d"

definition transition_result :: "transition_error + invoice_status \<Rightarrow> api_error + invoice_status" where
  \<comment> \<open>a refused transition is answered as an unprocessable request\<close>
  "transition_result r =
     (case r of Inl (Invoice_State_Transition_Error m) \<Rightarrow> Inl (Unprocessable m) | Inr s \<Rightarrow> Inr s)"

lemma transition_result_eq [result_simps]: "transition_result r = Inr s \<longleftrightarrow> r = Inr s"
  by (auto simp: transition_result_def split: sum.splits transition_error.splits)

definition applyAction_read :: "uuid \<Rightarrow> invoice_action \<Rightarrow> instant \<Rightarrow> db \<Rightarrow> api_error + invoice \<times> invoice_status" where
  \<comment> \<open>the row as read before the transaction and the status it may move to\<close>
  "applyAction_read k action now d =
     rbind (of_option (Not_Found ''Invoice was not found.'') (find_invoice k d)) (\<lambda>current.
     rbind (transition_result (nextInvoiceStatus action (i_status current) (i_dueAt current)
              (i_balanceDue current) (i_amountPaid current) now)) (\<lambda>next_status.
       Inr (current, next_status)))"

definition action_update :: "invoice_action \<Rightarrow> invoice_status \<Rightarrow> instant \<Rightarrow> invoice \<Rightarrow> invoice" where
  "action_update action next_status now i =
     (let i1 = i\<lparr>i_status := next_status\<rparr>
      in case action of
           ISSUE \<Rightarrow> i1\<lparr>i_issuedAt := Some now,
                       i_paidAt := (if next_status = Inv_PAID then Some now else i_paidAt i1)\<rparr>
         | CANCEL \<Rightarrow> i1\<lparr>i_cancelledAt := Some now\<rparr>
         | MARK_OVERDUE \<Rightarrow> i1)"

fun action_name :: "invoice_action \<Rightarrow> string" where
  "action_name ISSUE = ''INVOICE_ISSUED_BY_ADMIN''"
| "action_name MARK_OVERDUE = ''INVOICE_MARKED_OVERDUE_BY_ADMIN''"
| "action_name CANCEL = ''INVOICE_CANCELLED_BY_ADMIN''"

fun invoice_status_name :: "invoice_status \<Rightarrow> string" where
  "invoice_status_name Inv_DRAFT = ''DRAFT''"
| "invoice_status_name Inv_UNPAID = ''UNPAID''"
| "invoice_status_name Inv_PAID = ''PAID''"
| "invoice_status_name Inv_OVERDUE = ''OVERDUE''"
| "invoice_status_name Inv_CANCELLED = ''CANCELLED''"
| "invoice_status_name Inv_REFUNDED = ''REFUNDED''"
| "invoice_status_name Inv_PARTIALLY_REFUNDED = ''PARTIALLY_REFUNDED''"

definition cancel_order_with_invoice :: "uuid \<Rightarrow> uuid \<Rightarrow> actor \<Rightarrow> instant \<Rightarrow> unit tx" where
  "cancel_order_with_invoice orderId invoiceId ac now d =
     (let P = (\<lambda>r. ord_id r = orderId \<and> ord_status r \<in> {Ord_PENDING, Ord_AWAITING_PAYMENT});
          d1 = d\<lparr>d_orders := update_many P (\<lambda>r. r\<lparr>ord_status := Ord_CANCELLED, ord_cancelledAt := Some now,
                                                 ord_updatedAt := now\<rparr>) (d_orders d)\<rparr>
      in if count_where P (d_orders d) = 0 then Inr (d, ())
         else if \<not> domain_order_guard orderId Ord_CANCELLED d then Inl (Server_Error ''domain_order_guard'')
         else Inr (log_activity (admin_activity ac ''ORDER_CANCELLED_WITH_INVOICE_BY_ADMIN'' ''ORDER''
                (Some orderId) [(''invoiceId'', JStr invoiceId)]) d1, ()))"

definition action_order :: "invoice_action \<Rightarrow> invoice \<Rightarrow> uuid \<Rightarrow> actor \<Rightarrow> instant \<Rightarrow> unit tx" where
  "action_order action current k ac now d =
     (case (action, i_orderId current) of
        (CANCEL, Some orderId) \<Rightarrow> cancel_order_with_invoice orderId k ac now d
      | _ \<Rightarrow> Inr (d, ()))"

definition invoice_email_payload :: "uuid \<Rightarrow> json" where
  "invoice_email_payload k = JObj [(''schemaVersion'', JNum 1), (''invoiceId'', JStr k)]"

definition action_outbox :: "invoice_action \<Rightarrow> uuid \<Rightarrow> instant \<Rightarrow> unit tx" where
  "action_outbox action k now d =
     (case action of
        ISSUE \<Rightarrow> create_outbox now ''INVOICE'' k ''EMAIL_INVOICE_CREATED''
          (''email:invoice-created:'' @ k) (invoice_email_payload k) d
      | MARK_OVERDUE \<Rightarrow> create_outbox now ''INVOICE'' k ''EMAIL_OVERDUE_NOTICE''
          (''email:overdue-notice:'' @ k) (invoice_email_payload k) d
      | CANCEL \<Rightarrow> Inr (d, ()))"

definition applyAction_tx ::
    "uuid \<Rightarrow> invoice_action \<Rightarrow> invoice \<Rightarrow> invoice_status \<Rightarrow> actor \<Rightarrow> instant \<Rightarrow> unit tx" where
  "applyAction_tx k action current next_status ac now d =
     (if count_where (\<lambda>i. i_id i = k \<and> i_status i = i_status current \<and> i_dueAt i = i_dueAt current \<and>
             i_balanceDue i = i_balanceDue current \<and> i_amountPaid i = i_amountPaid current \<and>
             i_updatedAt i = i_updatedAt current) (d_invoices d) \<noteq> 1
      then Inl (Unprocessable
             ''The invoice changed while the action was being applied. Reload and try again.'')
      else
        rbind (update_invoice now k (action_update action next_status now) d) (\<lambda>(d1, _).
        rbind (action_order action current k ac now d1) (\<lambda>(d2, _).
        rbind (action_outbox action k now d2) (\<lambda>(d3, _).
           Inr (log_activity (admin_activity ac (action_name action) ''INVOICE'' (Some k)
                  [(''previousStatus'', JStr (invoice_status_name (i_status current))),
                   (''status'', JStr (invoice_status_name next_status))]) d3, ())))))"

definition applyAction_from :: "db \<Rightarrow> uuid \<Rightarrow> invoice_action \<Rightarrow> actor \<Rightarrow> instant \<Rightarrow> unit tx" where
  \<comment> \<open>the transaction, after the row was read in the database \<open>d0\<close>\<close>
  "applyAction_from d0 k action ac now d =
     rbind (applyAction_read k action now d0) (\<lambda>(current, next_status).
       applyAction_tx k action current next_status ac now d)"

definition applyAction :: "uuid \<Rightarrow> invoice_action \<Rightarrow> actor \<Rightarrow> instant \<Rightarrow> unit handler" where
  "applyAction k action ac now d = run_tx (applyAction_from d k action ac now) d"

definition invoice_get :: "uuid \<Rightarrow> actor \<Rightarrow> uuid option \<Rightarrow> db \<Rightarrow> api_error + invoice" where
  "invoice_get k ac scope d =
     rbind (of_option (Not_Found ''Invoice was not found.'') (find_invoice k d)) (\<lambda>i.
       if (case scope of None \<Rightarrow> False | Some c \<Rightarrow> c \<noteq> [] \<and> js_lower (i_customerId i) \<noteq> js_lower c)
       then Inl (Not_Found ''Invoice was not found.'')
       else if actor_role ac = CUSTOMER \<and> actor_customerId ac \<noteq> Some (i_customerId i)
       then Inl (Forbidden ''You do not have access to this invoice.'')
       else Inr i)"


section \<open>Totals are the exact sums\<close>

definition gross_of :: "calculable_item \<Rightarrow> int" where
  "gross_of item = ca_unitAmount item * ca_quantity item"

definition line_total_of :: "calculable_item \<Rightarrow> int" where
  "line_total_of item = gross_of item - ca_discountAmount item + ca_taxAmount item"

definition line_valid :: "calculable_item \<Rightarrow> bool" where
  "line_valid item \<longleftrightarrow>
     1 \<le> ca_quantity item \<and> ca_quantity item \<le> MAX_SAFE_INTEGER \<and>
     0 \<le> ca_unitAmount item \<and> 0 \<le> ca_discountAmount item \<and> 0 \<le> ca_taxAmount item \<and>
     ca_discountAmount item \<le> gross_of item \<and> gross_of item \<le> POSTGRES_BIGINT_MAX \<and>
     line_total_of item \<le> POSTGRES_BIGINT_MAX"

definition gross_sum :: "calculable_item list \<Rightarrow> int" where
  "gross_sum items = sum_list (map gross_of items)"

definition discount_sum :: "calculable_item list \<Rightarrow> int" where
  "discount_sum items = sum_list (map ca_discountAmount items)"

definition tax_sum :: "calculable_item list \<Rightarrow> int" where
  "tax_sum items = sum_list (map ca_taxAmount items)"

lemma checkedAdd_eq [result_simps]:
  "checkedAdd a b l = Inr c \<longleftrightarrow> a + b \<le> POSTGRES_BIGINT_MAX \<and> c = a + b"
  by (auto simp: checkedAdd_def)

lemma quantity_fits:
  fixes u q m :: int
  assumes "0 < u"
  shows "m div u < q \<longleftrightarrow> m < u * q"
proof -
  have m: "m = u * (m div u) + m mod u" and r: "0 \<le> m mod u" "m mod u < u"
    using assms by (simp_all add: pos_mod_bound)
  show ?thesis
  proof
    assume "m div u < q"
    then have "u * (m div u + 1) \<le> u * q" using assms by (intro mult_left_mono) auto
    then have "u * (m div u) + u \<le> u * q" by (simp add: distrib_left)
    with m r show "m < u * q" by linarith
  next
    assume lt: "m < u * q"
    show "m div u < q"
    proof (rule ccontr)
      assume "\<not> m div u < q"
      then have "u * q \<le> u * (m div u)" using assms by (intro mult_left_mono) auto
      with m r lt show False by linarith
    qed
  qed
qed

lemma POSTGRES_BIGINT_MAX_nonneg [simp]: "0 \<le> POSTGRES_BIGINT_MAX"
  by (simp add: POSTGRES_BIGINT_MAX_def)

lemma gross_bound:
  "0 \<le> u \<Longrightarrow> (u > 0 \<and> q > POSTGRES_BIGINT_MAX div u) \<longleftrightarrow> POSTGRES_BIGINT_MAX < u * q" for u q :: int
  using quantity_fits [of u POSTGRES_BIGINT_MAX q] POSTGRES_BIGINT_MAX_nonneg
  by (cases "u = 0") (simp_all add: not_less)

lemma calculate_line_eq:
  "calculate_line item = Inr (g, l) \<longleftrightarrow> line_valid item \<and> g = gross_of item \<and> l = line_total_of item"
proof (cases "1 \<le> ca_quantity item \<and> 0 \<le> ca_unitAmount item")
  case True
  then show ?thesis
    using gross_bound [of "ca_unitAmount item" "ca_quantity item"]
    by (auto simp: calculate_line_def line_valid_def isSafeInteger_def gross_of_def line_total_of_def
        Let_def result_simps)
next
  case False
  then show ?thesis by (auto simp: calculate_line_def line_valid_def)
qed

lemma line_valid_sums:
  assumes "list_all line_valid items"
  shows "0 \<le> discount_sum items" and "0 \<le> tax_sum items" and "discount_sum items \<le> gross_sum items"
  using assms
  by (induction items) (auto simp: gross_sum_def discount_sum_def tax_sum_def line_valid_def)

lemma sums_Cons [simp]:
  "gross_sum (x # xs) = gross_of x + gross_sum xs"
  "discount_sum (x # xs) = ca_discountAmount x + discount_sum xs"
  "tax_sum (x # xs) = ca_taxAmount x + tax_sum xs"
  by (simp_all add: gross_sum_def discount_sum_def tax_sum_def)

lemma sums_Nil [simp]: "gross_sum [] = 0" "discount_sum [] = 0" "tax_sum [] = 0"
  by (simp_all add: gross_sum_def discount_sum_def tax_sum_def)

lemma calculate_lines_eq:
  assumes "s \<le> POSTGRES_BIGINT_MAX" and "e \<le> POSTGRES_BIGINT_MAX" and "t \<le> POSTGRES_BIGINT_MAX"
  shows "calculate_lines items (s, e, t, ls) = Inr r \<longleftrightarrow>
     list_all line_valid items \<and> s + gross_sum items \<le> POSTGRES_BIGINT_MAX \<and>
     e + discount_sum items \<le> POSTGRES_BIGINT_MAX \<and> t + tax_sum items \<le> POSTGRES_BIGINT_MAX \<and>
     r = (s + gross_sum items, e + discount_sum items, t + tax_sum items, ls @ map line_total_of items)"
  using assms
proof (induction items arbitrary: s e t ls)
  case Nil
  then show ?case by auto
next
  case (Cons x xs)
  show ?case
  proof (cases "list_all line_valid (x # xs)")
    case False
    with Cons show ?thesis
      by (auto simp: result_simps calculate_line_eq)
  next
    case True
    then have "0 \<le> gross_sum xs" "0 \<le> discount_sum xs" "0 \<le> tax_sum xs"
      using line_valid_sums [of xs] by auto
    with True Cons show ?thesis
      by (auto simp: result_simps calculate_line_eq algebra_simps)
  qed
qed

definition exact_totals :: "calculable_item list \<Rightarrow> int \<Rightarrow> int \<Rightarrow> invoice_totals" where
  "exact_totals items credit paid =
     \<lparr>t_subtotal = gross_sum items, t_discountTotal = discount_sum items, t_taxTotal = tax_sum items,
      t_total = gross_sum items - discount_sum items + tax_sum items,
      t_creditTotal = credit, t_amountPaid = paid,
      t_balanceDue = gross_sum items - discount_sum items + tax_sum items - (credit + paid),
      t_lineTotals = map line_total_of items\<rparr>"

definition totals_representable :: "calculable_item list \<Rightarrow> int \<Rightarrow> int \<Rightarrow> bool" where
  "totals_representable items credit paid \<longleftrightarrow>
     items \<noteq> [] \<and> list_all line_valid items \<and> gross_sum items \<le> POSTGRES_BIGINT_MAX \<and>
     tax_sum items \<le> POSTGRES_BIGINT_MAX \<and>
     gross_sum items - discount_sum items + tax_sum items \<le> POSTGRES_BIGINT_MAX \<and>
     0 \<le> credit \<and> 0 \<le> paid \<and> credit + paid \<le> gross_sum items - discount_sum items + tax_sum items"

lemma calculate_lines_start:
  "calculate_lines items (0, 0, 0, []) = Inr (s, e, t, ls) \<longleftrightarrow>
     list_all line_valid items \<and> gross_sum items \<le> POSTGRES_BIGINT_MAX \<and>
     tax_sum items \<le> POSTGRES_BIGINT_MAX \<and>
     s = gross_sum items \<and> e = discount_sum items \<and> t = tax_sum items \<and> ls = map line_total_of items"
  using line_valid_sums(3) [of items]
  by (auto simp: calculate_lines_eq)

lemma calculateInvoiceTotals_eq:
  "calculateInvoiceTotals items credit paid = Inr t \<longleftrightarrow>
     totals_representable items credit paid \<and> t = exact_totals items credit paid"
  by (auto simp: calculateInvoiceTotals_def totals_representable_def exact_totals_def result_simps
      calculate_lines_start)

text \<open>
  The checked arithmetic of the invoice totals succeeds exactly when there is a line, every
  line is valid, the subtotal, tax and grand total fit a PostgreSQL bigint and the credits and
  payments do not exceed the total; and then every total is the exact sum over the lines.
\<close>

theorem calculateInvoiceTotals_exact:
  "calculateInvoiceTotals items credit paid = Inr t \<longleftrightarrow>
     totals_representable items credit paid \<and> t = exact_totals items credit paid"
  by (rule calculateInvoiceTotals_eq)

section \<open>The handlers and the ledger\<close>

lemma parseAndCalculate_eq:
  "parseAndCalculate items credit = Inr t \<longleftrightarrow>
     totals_representable (map to_calculable items) (int (dec_val credit)) 0 \<and>
     t = exact_totals (map to_calculable items) (int (dec_val credit)) 0"
  using calculateInvoiceTotals_eq [of "map to_calculable items" "int (dec_val credit)" 0]
  by (auto simp: parseAndCalculate_def split: sum.splits invoice_calc_error.splits)

lemma allocateInvoiceNumber_ledger:
  "allocateInvoiceNumber d = Inr (d', n) \<Longrightarrow> ledger_of d' = ledger_of d"
  by (auto simp: allocateInvoiceNumber_def Let_def split: option.splits if_splits)

lemma createInvoice_tx_cases:
  assumes "createInvoice_tx schema input amounts ac now d = Inr (d', k)"
  obtains row c u d1 number identity items where
    "active_customer (cr_customerId input) d = Some (c, u)"
    and "allocateInvoiceNumber d = Inr (d1, number)"
    and "create_items (dr_currency input) 0 (dr_items input) (t_lineTotals amounts) = Inr items"
    and "row = (draft_row input amounts number c u identity items now)\<lparr>i_id := k\<rparr>"
    and "k = fresh_uuid d1" and "invoice_check row" and "list_all invoice_item_check items"
    and "k \<notin> i_id ` set (d_invoices d)" and "number \<notin> i_number ` set (d_invoices d)"
    and "cr_submissionKey input \<notin> i_submissionKey ` set (d_invoices d)"
    and "d_invoices d' = d_invoices d @ [row]" and "d_payments d' = d_payments d"
proof -
  obtain c u where c: "active_customer (cr_customerId input) d = Some (c, u)"
    using assms by (auto simp: createInvoice_tx_def split: option.splits)
  with assms obtain d1 number identity items d2 where
    1: "allocateInvoiceNumber d = Inr (d1, number)"
    and 2: "create_items (dr_currency input) 0 (dr_items input) (t_lineTotals amounts) = Inr items"
    and 3: "create_invoice (draft_row input amounts number c u identity items now) d1 = Inr (d2, k)"
    and 4: "ledger_of d' = ledger_of d2"
    by (auto simp: createInvoice_tx_def result_simps)
  have same: "d_invoices d1 = d_invoices d" "d_payments d1 = d_payments d"
    using allocateInvoiceNumber_ledger [OF 1] by (simp_all add: ledger_of_def)
  from 3 show ?thesis
    by (rule create_invoice_cases)
      (rule that [OF c 1 2 refl], use 4 same in \<open>simp_all add: ledger_of_def draft_row_def\<close>)
qed

lemma create_items_unserviced:
  "create_items currency n items totals = Inr rows \<Longrightarrow> service_keys rows = []"
  by (induction currency n items totals arbitrary: rows rule: create_items.induct)
    (auto simp: result_simps service_keys_def itemCreateData_def)

lemma draft_keys:
  "ledger_inv (ledger_of d) \<Longrightarrow> find_invoice k d = Some i \<Longrightarrow> i_status i = Inv_DRAFT \<Longrightarrow>
   service_keys (i_items i) = []"
  using find_Some_D [of "\<lambda>i. i_id i = k" "d_invoices d" i]
  by (auto simp: ledger_inv_iff ledger_of_def rows_settled_def find_invoice_def invoice_ok_def)

interpretation create_invoice: ledger_client "createInvoice_tx schema input amounts ac now"
  for schema input amounts ac now
proof
  fix d d' k
  assume inv: "ledger_inv (ledger_of d)"
    and run: "createInvoice_tx schema input amounts ac now d = Inr (d', k)"
  from run obtain row c u number identity items where
    items: "create_items (dr_currency input) 0 (dr_items input) (t_lineTotals amounts) = Inr items"
    and row: "row = (draft_row input amounts number c u identity items now)\<lparr>i_id := k\<rparr>"
    and fresh: "k \<notin> i_id ` set (d_invoices d)"
    and checks: "invoice_check row" "list_all invoice_item_check items"
    and d': "d_invoices d' = d_invoices d @ [row]" "d_payments d' = d_payments d"
    by (rule createInvoice_tx_cases)
  have "ledger_step (d_invoices d, d_payments d) (d_invoices d @ [row], d_payments d)"
    by (rule open_invoice)
      (use fresh checks inv create_items_unserviced [OF items] in
        \<open>simp_all add: row invoice_ok_def draft_row_def ledger_inv_iff ledger_of_def\<close>)
  then show "ledger_steps (ledger_of d) (ledger_of d')"
    using d' by (simp add: ledger_of_def r_into_rtranclp)
qed


lemma updateDraft_tx_cases:
  assumes "updateDraft_tx k input t amounts ac now d = Inr (d', u)" and "ledger_inv (ledger_of d)"
  obtains i items d1 where "find_invoice k d = Some i" and "i_status i = Inv_DRAFT" and "i_updatedAt i = t"
    and "create_items (dr_currency input) 0 (dr_items input) (t_lineTotals amounts) = Inr items"
    and "update_invoice now k (draft_edit input amounts items) d = Inr (d1, ())"
    and "d_invoices d' = d_invoices d1" and "d_payments d' = d_payments d1"
proof -
  have "count_where (\<lambda>i. i_id i = k \<and> (i_status i = Inv_DRAFT \<and> i_updatedAt i = t)) (d_invoices d) = 1"
    using assms(1) by (auto simp: updateDraft_tx_def split: if_splits)
  then obtain i where i: "find_invoice k d = Some i" "i_status i = Inv_DRAFT" "i_updatedAt i = t"
    using counted_row [of "d_invoices d" k "\<lambda>i. i_status i = Inv_DRAFT \<and> i_updatedAt i = t"] assms(2)
    by (auto simp: ledger_of_def ledger_inv_iff find_invoice_def)
  from assms(1) obtain items d1 where
    "create_items (dr_currency input) 0 (dr_items input) (t_lineTotals amounts) = Inr items"
    "update_invoice now k (draft_edit input amounts items) d = Inr (d1, ())"
    "ledger_of d' = ledger_of d1"
    by (auto simp: updateDraft_tx_def result_simps split: if_splits)
  with i show ?thesis by (intro that) (simp_all add: ledger_of_def)
qed

interpretation edit_draft: ledger_client "updateDraft_from d0 k input ac now"
  for d0 k input ac now
proof
  fix d d' u
  assume inv: "ledger_inv (ledger_of d)" and run: "updateDraft_from d0 k input ac now d = Inr (d', u)"
  obtain t amounts where r: "updateDraft_read k input d0 = Inr (t, amounts)"
    and tx: "updateDraft_tx k input t amounts ac now d = Inr (d', u)"
    using run by (auto simp: updateDraft_from_def result_simps)
  have bal: "t_balanceDue amounts = t_total amounts - t_creditTotal amounts"
    using r by (auto simp: updateDraft_read_def result_simps parseAndCalculate_eq exact_totals_def
        split: if_splits)
  from tx inv obtain i items d1 where i: "find_invoice k d = Some i" "i_status i = Inv_DRAFT"
    and items: "create_items (dr_currency input) 0 (dr_items input) (t_lineTotals amounts) = Inr items"
    and upd: "update_invoice now k (draft_edit input amounts items) d = Inr (d1, ())"
    and d': "d_invoices d' = d_invoices d1" "d_payments d' = d_payments d1"
    by (rule updateDraft_tx_cases)
  from upd obtain j where "find_invoice k d = Some j" "invoice_check (draft_edit input amounts items j)"
    by (rule update_invoice_cases)
  with i bal have "i_amountPaid i = 0" by (simp add: invoice_check_def draft_edit_def)
  with i upd have "ledger_step (ledger_of d) (ledger_of d1)"
    using find_Some_D [of "\<lambda>i. i_id i = k" "d_invoices d" i]
    by (intro update_invoice_step [OF upd i(1)]) 
      (auto simp: find_invoice_def draft_edit_def create_items_unserviced [OF items] draft_keys [OF inv i])
  then show "ledger_steps (ledger_of d) (ledger_of d')"
    using d' by (simp add: ledger_of_def r_into_rtranclp)
qed

lemma action_outbox_ledger: "action_outbox action k now d = Inr (d', u) \<Longrightarrow> ledger_of d' = ledger_of d"
  by (cases action) (auto simp: action_outbox_def dest: create_outbox_ledger)

lemma cancel_order_ledger:
  "cancel_order_with_invoice oid k ac now d = Inr (d', u) \<Longrightarrow> ledger_of d' = ledger_of d"
  by (auto simp: cancel_order_with_invoice_def Let_def split: if_splits)

lemma action_order_ledger: "action_order a current k ac now d = Inr (d', u) \<Longrightarrow> ledger_of d' = ledger_of d"
  by (auto simp: action_order_def dest: cancel_order_ledger split: invoice_action.splits option.splits)

lemma applyAction_tx_cases:
  assumes "applyAction_tx k action current s ac now d = Inr (d', u)" and "ledger_inv (ledger_of d)"
  obtains i d1 where "find_invoice k d = Some i" and "i_status i = i_status current"
    and "i_dueAt i = i_dueAt current" and "i_balanceDue i = i_balanceDue current"
    and "i_amountPaid i = i_amountPaid current"
    and "update_invoice now k (action_update action s now) d = Inr (d1, ())"
    and "ledger_of d' = ledger_of d1"
proof -
  let ?P = "\<lambda>i. i_status i = i_status current \<and> i_dueAt i = i_dueAt current \<and>
    i_balanceDue i = i_balanceDue current \<and> i_amountPaid i = i_amountPaid current \<and>
    i_updatedAt i = i_updatedAt current"
  have "count_where (\<lambda>i. i_id i = k \<and> ?P i) (d_invoices d) = 1"
    using assms(1) by (auto simp: applyAction_tx_def split: if_splits)
  then obtain i where i: "find_invoice k d = Some i" "?P i"
    using counted_row [of "d_invoices d" k ?P] assms(2)
    by (auto simp: ledger_of_def ledger_inv_iff find_invoice_def)
  obtain d1 where "update_invoice now k (action_update action s now) d = Inr (d1, ())"
    and "ledger_of d' = ledger_of d1"
    using assms(1)
    by (auto simp: applyAction_tx_def result_simps dest!: action_outbox_ledger action_order_ledger split: if_splits)
  with i show ?thesis by (intro that [OF i(1)]) simp_all
qed

lemma nextInvoiceStatus_ok:
  assumes "nextInvoiceStatus action s due bal paid now = Inr s'" and "0 \<le> paid"
  shows "s' \<noteq> Inv_DRAFT" and "s' = Inv_PAID \<Longrightarrow> bal = 0" and "s' = Inv_CANCELLED \<Longrightarrow> paid = 0"
    and "s \<in> {Inv_DRAFT, Inv_UNPAID, Inv_OVERDUE}"
  using assms by (auto simp: nextInvoiceStatus_def split: invoice_action.splits if_splits)

lemma action_update_frame [simp]:
  "i_id (action_update a s now i) = i_id i" "i_amountPaid (action_update a s now i) = i_amountPaid i"
  "i_status (action_update a s now i) = s" "i_balanceDue (action_update a s now i) = i_balanceDue i"
  "i_currency (action_update a s now i) = i_currency i" "i_items (action_update a s now i) = i_items i" "i_number (action_update a s now i) = i_number i"
  by (simp_all add: action_update_def Let_def split: invoice_action.splits)

lemma ledger_inv_paid_nonneg:
  assumes "ledger_inv (ledger_of d)" and "find_invoice k d = Some i"
  shows "0 \<le> i_amountPaid i"
  using assms find_Some_D [of "\<lambda>i. i_id i = k" "d_invoices d" i]
  by (auto simp: ledger_inv_iff ledger_of_def rows_settled_def find_invoice_def invoice_ok_def invoice_check_def)

lemma applyAction_from_cases:
  assumes "applyAction_from d0 k action ac now d = Inr (d', u)" and "ledger_inv (ledger_of d)"
  obtains i s d1 where "find_invoice k d = Some i"
    and "nextInvoiceStatus action (i_status i) (i_dueAt i) (i_balanceDue i) (i_amountPaid i) now = Inr s"
    and "update_invoice now k (action_update action s now) d = Inr (d1, ())"
    and "ledger_of d' = ledger_of d1"
proof -
  obtain current s where r: "applyAction_read k action now d0 = Inr (current, s)"
    and tx: "applyAction_tx k action current s ac now d = Inr (d', u)"
    using assms(1) by (auto simp: applyAction_from_def result_simps)
  have "nextInvoiceStatus action (i_status current) (i_dueAt current) (i_balanceDue current)
          (i_amountPaid current) now = Inr s"
    using r by (auto simp: applyAction_read_def result_simps)
  with applyAction_tx_cases [OF tx assms(2)] show ?thesis using that by metis
qed

interpretation invoice_action: ledger_client "applyAction_from d0 k action ac now"
  for d0 k action ac now
proof
  fix d d' u
  assume inv: "ledger_inv (ledger_of d)" and run: "applyAction_from d0 k action ac now d = Inr (d', u)"
  from run inv obtain i s d1 where i: "find_invoice k d = Some i"
    and s: "nextInvoiceStatus action (i_status i) (i_dueAt i) (i_balanceDue i) (i_amountPaid i) now = Inr s"
    and upd: "update_invoice now k (action_update action s now) d = Inr (d1, ())"
    and d': "ledger_of d' = ledger_of d1"
    by (rule applyAction_from_cases)
  have "ledger_step (ledger_of d) (ledger_of d1)"
    using nextInvoiceStatus_ok [OF s ledger_inv_paid_nonneg [OF inv i]] i
      find_Some_D [of "\<lambda>i. i_id i = k" "d_invoices d" i]
    by (intro update_invoice_step [OF upd i]) (auto simp: find_invoice_def draft_keys [OF inv i])
  then show "ledger_steps (ledger_of d) (ledger_of d')" using d' by (simp add: r_into_rtranclp)
qed


text \<open>
  C27: an invoice action that commits is legal for the row at the moment of the commit, whatever
  database \<open>d0\<close> its first read saw: the transition table allows the action from the row's own
  status, due date, balance and payments, and the row becomes exactly what the action writes.
\<close>

theorem applyAction_commits_legally:
  assumes "ledger_inv (ledger_of d)" and "applyAction_from d0 k action ac now d = Inr (d', u)"
  shows "\<exists>i s. find_invoice k d = Some i \<and>
     nextInvoiceStatus action (i_status i) (i_dueAt i) (i_balanceDue i) (i_amountPaid i) now = Inr s \<and>
     find_invoice k d' = Some ((action_update action s now i)\<lparr>i_updatedAt := now\<rparr>)"
  using assms(2,1)
proof (rule applyAction_from_cases)
  fix i s d1
  assume i: "find_invoice k d = Some i"
    and s: "nextInvoiceStatus action (i_status i) (i_dueAt i) (i_balanceDue i) (i_amountPaid i) now = Inr s"
    and upd: "update_invoice now k (action_update action s now) d = Inr (d1, ())"
    and d': "ledger_of d' = ledger_of d1"
  have "find_invoice k d1 = Some ((action_update action s now i)\<lparr>i_updatedAt := now\<rparr>)"
    using upd i
    by (auto elim!: update_invoice_cases simp: find_invoice_def find_update_many_key [where key = i_id])
  with i s d' show ?thesis by (auto simp: find_invoice_row)
qed

definition sample_snapshot :: invoice_snapshot where
  "sample_snapshot = \<lparr>sn_customerName = ''Acme'', sn_customerEmail = ''a@b.c'', sn_customerAddress = JObj [],
     sn_businessIdentity = JObj [], sn_taxIdentity = None\<rparr>"

definition sample_invoice :: "invoice_status \<Rightarrow> int \<Rightarrow> invoice" where
  "sample_invoice st amt =
     \<lparr>i_id = ''i'', i_number = ''INV-001001'', i_submissionKey = ''k'', i_customerId = ''c'', i_orderId = None,
      i_status = st, i_currency = ''BDT'', i_subtotal = amt, i_discountTotal = 0, i_taxTotal = 0,
      i_total = amt, i_creditTotal = 0, i_amountPaid = 0, i_balanceDue = amt,
      i_snapshot = sample_snapshot, i_issuedAt = None, i_dueAt = 100, i_paidAt = None, i_cancelledAt = None,
      i_updatedAt = 5, i_items = []\<rparr>"

definition sample_actor :: actor where
  "sample_actor = \<lparr>actor_userId = ''admin'', actor_role = ADMIN, actor_customerId = None\<rparr>"

definition sample_db :: "invoice_status \<Rightarrow> int \<Rightarrow> db" where
  "sample_db st amt = empty_db\<lparr>d_invoices := [sample_invoice st amt], d_supply := 7\<rparr>"

lemma sample_ledger:
  assumes "0 \<le> amt" and "st \<noteq> Inv_PAID"
  shows "ledger_inv (ledger_of (sample_db st amt))"
proof -
  have "currencyCodeSchema ''BDT''" by code_simp
  with assms show ?thesis
    by (simp add: ledger_inv_iff ledger_of_def sample_db_def sample_invoice_def sample_snapshot_def empty_db_def rows_settled_def
        charges_ok_def invoice_ok_def invoice_check_def settled_def service_keys_def)
qed

theorem applyAction_commits_legally_witness:
  "case applyAction_from (sample_db Inv_DRAFT 250) ''i'' ISSUE sample_actor 9 (sample_db Inv_DRAFT 250) of
     Inl _ \<Rightarrow> False
   | Inr (d', _) \<Rightarrow> \<exists>i s. find_invoice ''i'' (sample_db Inv_DRAFT 250) = Some i \<and>
       nextInvoiceStatus ISSUE (i_status i) (i_dueAt i) (i_balanceDue i) (i_amountPaid i) 9 = Inr s \<and>
       find_invoice ''i'' d' = Some ((action_update ISSUE s 9 i)\<lparr>i_updatedAt := 9\<rparr>)"
proof -
  have "case applyAction_from (sample_db Inv_DRAFT 250) ''i'' ISSUE sample_actor 9 (sample_db Inv_DRAFT 250) of
     Inl _ \<Rightarrow> False | Inr _ \<Rightarrow> True"
    by code_simp
  then show ?thesis
    using applyAction_commits_legally [OF sample_ledger, of 250 Inv_DRAFT "sample_db Inv_DRAFT 250" "''i''"
        ISSUE sample_actor 9]
    by (auto split: sum.splits)
qed


section \<open>Submitting the same invoice again\<close>

definition valid_item_input :: "invoice_item_input \<Rightarrow> bool" where
  \<comment> \<open>the request schema's amounts: canonical decimal strings\<close>
  "valid_item_input it \<longleftrightarrow>
     canonical_dec (in_unitAmount it) \<and> canonical_dec (in_discountAmount it) \<and> canonical_dec (in_taxAmount it)"

lemma stored_key_of_submitted:
  "valid_item_input it \<Longrightarrow> stored_item_key (itemCreateData cur it t n) = submitted_item_key it"
  by (simp add: stored_item_key_def itemCreateData_def submitted_item_key_def valid_item_input_def
      bigint_to_string_def)

lemma create_items_keys:
  assumes "create_items cur n items totals = Inr rows" and "list_all valid_item_input items"
  shows "map stored_item_key rows = map submitted_item_key items"
  using assms
proof (induction cur n items totals arbitrary: rows rule: create_items.induct)
  case (3 cur n item items t totals)
  then show ?case by (auto simp: result_simps stored_key_of_submitted)
qed auto

lemma active_customer_id: "active_customer k d = Some (c, u) \<Longrightarrow> c_id c = k"
  by (auto simp: active_customer_def dest: find_Some_D split: option.splits)

lemma createInvoice_fresh_cases:
  assumes "createInvoice schema input ac now d = (d', Inr (k, False))"
  obtains amounts where "parseAndCalculate (dr_items input) (dr_creditTotal input) = Inr amounts"
    and "createInvoice_tx schema input amounts ac now d = Inr (d', k)"
  using assms
  by (auto simp: createInvoice_def duplicateResult_def Let_def run_tx_def
      split: option.splits sum.splits if_splits)

text \<open>
  Sending a submission again is harmless: after an invoice was created, the same request
  (with any actor, at any later time) answers with the same invoice, marked as a duplicate, and
  changes nothing.
\<close>

theorem createInvoice_idempotent:
  assumes "createInvoice schema input ac now d = (d', Inr (k, False))"
    and "list_all valid_item_input (dr_items input)"
  shows "createInvoice schema input ac2 now2 d' = (d', Inr (k, True))"
  using assms(1)
proof (rule createInvoice_fresh_cases)
  fix amounts
  assume amounts: "parseAndCalculate (dr_items input) (dr_creditTotal input) = Inr amounts"
    and tx: "createInvoice_tx schema input amounts ac now d = Inr (d', k)"
  from tx show ?thesis
  proof (rule createInvoice_tx_cases)
    fix row c u d1 number identity items
    assume c: "active_customer (cr_customerId input) d = Some (c, u)"
      and items: "create_items (dr_currency input) 0 (dr_items input) (t_lineTotals amounts) = Inr items"
      and row: "row = (draft_row input amounts number c u identity items now)\<lparr>i_id := k\<rparr>"
      and key: "cr_submissionKey input \<notin> i_submissionKey ` set (d_invoices d)"
      and d': "d_invoices d' = d_invoices d @ [row]"
    have "List.find (\<lambda>i. i_submissionKey i = cr_submissionKey input) (d_invoices d) = None"
      unfolding find_None_iff_all using key by (metis image_eqI)
    then have "find_invoice_by_key (cr_submissionKey input) d' = Some row"
      by (simp add: find_invoice_by_key_def d' find_app row draft_row_def)
    moreover have "duplicateResult row input = Inr (k, True)"
      using amounts active_customer_id [OF c] create_items_keys [OF items assms(2)]
      by (simp add: duplicateResult_def row draft_row_def parseAndCalculate_eq exact_totals_def)
    ultimately show ?thesis by (simp add: createInvoice_def)
  qed
qed

definition sample_user :: user where
  "sample_user = \<lparr>u_id = ''u'', u_email = ''a@b.c'', u_role = CUSTOMER, u_status = User_ACTIVE, u_deletedAt = None,
     u_emailVerifiedAt = Some 0, u_staffRole = None, u_totpEnabledAt = None\<rparr>"

definition sample_customer :: customer where
  "sample_customer = \<lparr>c_id = ''c'', c_userId = ''u'', c_status = Cust_ACTIVE, c_firstName = ''Ada'',
     c_lastName = ''L'', c_companyName = None, c_addressLine1 = ''1 Main St'', c_addressLine2 = None,
     c_city = ''Dhaka'', c_region = None, c_postalCode = None, c_countryCode = ''BD'',
     c_taxIdentifier = None, c_deletedAt = None\<rparr>"

definition sample_input :: create_input where
  "sample_input = \<lparr>dr_currency = ''BDT'', dr_dueAt = 100, dr_creditTotal = ''5'',
     dr_items = [\<lparr>in_description = ''Hosting'', in_quantity = 2, in_unitAmount = ''20'',
       in_discountAmount = ''3'', in_taxAmount = ''1'', in_periodStart = None, in_periodEnd = None\<rparr>],
     cr_customerId = ''c'', cr_submissionKey = ''s1''\<rparr>"

definition customer_db :: db where
  "customer_db = empty_db\<lparr>d_users := [sample_user], d_customers := [sample_customer]\<rparr>"

theorem createInvoice_idempotent_witness:
  "case createInvoice (\<lambda>_. None) sample_input sample_actor 9 customer_db of
     (d', r) \<Rightarrow> r = Inr (''0'', False) \<and>
       createInvoice (\<lambda>_. None) sample_input sample_actor 12 d' = (d', Inr (''0'', True))"
proof -
  have "snd (createInvoice (\<lambda>_. None) sample_input sample_actor 9 customer_db) = Inr (''0'', False)"
    by code_simp
  moreover have "list_all valid_item_input (dr_items sample_input)" by code_simp
  ultimately show ?thesis
    using createInvoice_idempotent [of "\<lambda>_. None" sample_input sample_actor 9 customer_db _ "''0''" sample_actor 12]
    by (cases "createInvoice (\<lambda>_. None) sample_input sample_actor 9 customer_db") auto
qed

section \<open>Numbers are issued in sequence\<close>

lemma find_setting_upsert: "find_setting k (upsert_setting k v d) = Some v"
proof (cases "map_of (d_settings d) k")
  case None
  then show ?thesis by (simp add: find_setting_def upsert_setting_def map_add_def)
next
  case (Some w)
  have "map_of (map (\<lambda>(k', v'). if k' = k then (k', v) else (k', v')) xs) k = Some v"
    if "map_of xs k \<noteq> None" for xs :: "(string \<times> json) list"
    using that by (induction xs) (auto split: if_splits)
  with Some show ?thesis by (simp add: find_setting_def upsert_setting_def)
qed

definition current_numbering :: "db \<Rightarrow> numbering_settings" where
  "current_numbering d =
     (case Option.bind (find_setting numbering_key d) parse_numbering of
        Some s \<Rightarrow> s | None \<Rightarrow> default_numbering)"

lemma to_upper_id: "\<not> is_lower c \<Longrightarrow> to_upper_char c = c"
  by (simp add: to_upper_char_def)

lemma prefix_normal:
  assumes "prefix_pattern p"
  shows "js_upper (js_trim p) = p"
proof -
  have chars: "list_all (\<lambda>c. is_upper c \<or> is_digit c) p" and "p \<noteq> []"
    using assms by (cases p; simp add: prefix_pattern_def)+
  moreover have "\<not> js_space c \<and> \<not> is_lower c" if "is_upper c \<or> is_digit c" for c
    using that by (auto simp: js_space_def is_upper_def is_digit_def is_lower_def)
  ultimately have "\<not> js_space (hd p)" "\<not> js_space (last p)" "\<forall>c \<in> set p. \<not> is_lower c"
    by (simp_all add: list_all_iff)
  with \<open>p \<noteq> []\<close> show ?thesis
    by (simp add: js_trim_fixed js_upper_def to_upper_id map_idI)
qed

lemma parse_numbering_json:
  "prefix_pattern (nu_prefix n) \<Longrightarrow>
   parse_numbering (numbering_json n) = (if numbering_valid n then Some n else None)"
  by (cases n) (simp add: parse_numbering_def numbering_json_def Let_def prefix_normal)

lemma parse_numbering_valid: "parse_numbering v = Some n \<Longrightarrow> numbering_valid n"
  by (auto simp: parse_numbering_def Let_def split: json.splits option.splits if_splits)

lemma default_numbering_valid: "numbering_valid default_numbering"
  by code_simp

lemma current_numbering_valid: "numbering_valid (current_numbering d)"
  using parse_numbering_valid default_numbering_valid
  by (auto simp: current_numbering_def split: option.splits bind_splits)

definition bump :: "numbering_settings \<Rightarrow> numbering_settings" where
  "bump n = n\<lparr>nu_nextNumber := nu_nextNumber n + 1\<rparr>"

lemma current_numbering_upsert:
  "numbering_valid n \<Longrightarrow> current_numbering (upsert_setting numbering_key (numbering_json n) d) = n"
  by (simp add: current_numbering_def find_setting_upsert parse_numbering_json numbering_valid_def)

lemma allocate_current:
  "allocateInvoiceNumber d =
     (if numbering_valid (bump (current_numbering d))
      then Inr (upsert_setting numbering_key (numbering_json (bump (current_numbering d)))
                  (if find_setting numbering_key d = None
                   then upsert_setting numbering_key (numbering_json default_numbering) d else d),
                formatInvoiceNumber (current_numbering d))
      else Inl (Server_Error ''Invoice numbering range has been exhausted.''))"
proof -
  have prefix: "prefix_pattern (nu_prefix (bump (current_numbering d)))"
    using current_numbering_valid [of d] by (simp add: numbering_valid_def bump_def)
  show ?thesis
  proof (cases "find_setting numbering_key d")
    case None
    then show ?thesis
      using prefix parse_numbering_json [of default_numbering] default_numbering_valid
      by (simp add: allocateInvoiceNumber_def find_setting_upsert current_numbering_def Let_def
          bump_def parse_numbering_json numbering_valid_def)
  next
    case (Some v)
    then have "(case parse_numbering v of Some s \<Rightarrow> s | None \<Rightarrow> default_numbering) = current_numbering d"
      by (simp add: current_numbering_def)
    with Some prefix show ?thesis
      by (simp add: allocateInvoiceNumber_def Let_def parse_numbering_json flip: bump_def)
  qed
qed


fun allocate_many :: "nat \<Rightarrow> db \<Rightarrow> api_error + db \<times> string list" where
  \<comment> \<open>successive allocations\<close>
  "allocate_many 0 d = Inr (d, [])"
| "allocate_many (Suc n) d =
     rbind (allocateInvoiceNumber d) (\<lambda>(d1, number).
     rbind (allocate_many n d1) (\<lambda>(d2, rest). Inr (d2, number # rest)))"

definition advance :: "nat \<Rightarrow> numbering_settings \<Rightarrow> numbering_settings" where
  "advance n s = s\<lparr>nu_nextNumber := nu_nextNumber s + int n\<rparr>"

lemma numbering_valid_advance:
  assumes "numbering_valid s"
  shows "numbering_valid (advance n s) \<longleftrightarrow>
     nu_nextNumber s + int n \<le> 999999999999 \<and> nat (nu_nextNumber s + int n) < 10 ^ nat (nu_padding s)"
proof -
  have "int (length (show_nat m)) \<le> nu_padding s \<longleftrightarrow> length (show_nat m) \<le> nat (nu_padding s)" for m
    using assms by (auto simp: numbering_valid_def)
  moreover have "0 < nat (nu_padding s)" using assms by (simp add: numbering_valid_def)
  ultimately show ?thesis
    using assms by (auto simp: numbering_valid_def advance_def bigint_to_string_def length_show_nat)
qed

lemma advance_mono:
  assumes "numbering_valid s" and "numbering_valid (advance n s)" and "m \<le> n"
  shows "numbering_valid (advance m s)"
proof -
  have "nat (nu_nextNumber s + int m) \<le> nat (nu_nextNumber s + int n)" using assms(3) by simp
  with assms show ?thesis
    by (auto simp: numbering_valid_advance intro: le_less_trans)
qed

lemma advance_simps [simp]: "advance 0 s = s" "advance n (advance m s) = advance (m + n) s"
  "advance 1 s = bump s" "advance (Suc 0) s = bump s" "advance n (bump s) = advance (Suc n) s"
  by (simp_all add: advance_def bump_def)

lemma formatInvoiceNumber_inj:
  assumes "numbering_valid s" and "formatInvoiceNumber (advance m s) = formatInvoiceNumber (advance n s)"
  shows "m = n"
proof -
  have "pad_start (nat (nu_padding s)) CHR ''0'' (bigint_to_string (nu_nextNumber s + int m)) =
        pad_start (nat (nu_padding s)) CHR ''0'' (bigint_to_string (nu_nextNumber s + int n))"
    using assms(2) by (simp add: formatInvoiceNumber_def advance_def)
  then have "dec_val (bigint_to_string (nu_nextNumber s + int m)) =
             dec_val (bigint_to_string (nu_nextNumber s + int n))"
    by (metis dec_val_pad_start)
  moreover have "1 \<le> nu_nextNumber s" using assms(1) by (simp add: numbering_valid_def)
  ultimately show ?thesis by (simp add: bigint_to_string_def eq_nat_nat_iff)
qed

lemma allocate_many_eq:
  "(\<exists>d'. allocate_many n d = Inr (d', ns)) \<longleftrightarrow>
     numbering_valid (advance n (current_numbering d)) \<and>
     ns = map (\<lambda>i. formatInvoiceNumber (advance i (current_numbering d))) [0..<n]"
proof (induction n arbitrary: d ns)
  case 0
  then show ?case by (auto simp: current_numbering_valid)
next
  case (Suc n)
  let ?s = "current_numbering d"
  show ?case
  proof (cases "numbering_valid (bump ?s)")
    case False
    then have "\<not> numbering_valid (advance (Suc n) ?s)"
      using advance_mono [OF current_numbering_valid [of d], of "Suc n" 1] by auto
    with False show ?thesis by (simp add: allocate_current)
  next
    case True
    obtain d1 where d1: "allocateInvoiceNumber d = Inr (d1, formatInvoiceNumber ?s)"
      and cur: "current_numbering d1 = bump ?s"
      using True by (simp add: allocate_current current_numbering_upsert)
    have "(\<exists>d'. allocate_many (Suc n) d = Inr (d', ns)) \<longleftrightarrow>
          (\<exists>rest. (\<exists>d'. allocate_many n d1 = Inr (d', rest)) \<and> ns = formatInvoiceNumber ?s # rest)"
      by (auto simp: d1 result_simps)
    then show ?thesis
      unfolding Suc.IH cur by (auto simp: upt_conv_Cons map_Suc_upt [symmetric] simp del: upt_Suc)
  qed
qed

text \<open>
  C37: numbering is gapless and never repeats: a run of \<open>n\<close> allocations succeeds exactly when the
  counter can be advanced by \<open>n\<close> within its padding, it then issues the \<open>n\<close> consecutive numbers
  from the stored counter on, and these are pairwise different.
\<close>

theorem invoice_numbers_sequential:
  "((\<exists>d'. allocate_many n d = Inr (d', ns)) \<longleftrightarrow>
     numbering_valid (advance n (current_numbering d)) \<and>
     ns = map (\<lambda>i. formatInvoiceNumber (advance i (current_numbering d))) [0..<n]) \<and>
   distinct (map (\<lambda>i. formatInvoiceNumber (advance i (current_numbering d))) [0..<n])"
  using formatInvoiceNumber_inj [OF current_numbering_valid [of d]] allocate_many_eq
  by (simp add: distinct_map inj_on_def)

end
