(* ===== verification/Payments.thy ===== *)
theory Payments
  imports Invoices
begin

text \<open>
  Manual payments: \<^verbatim>\<open>apps/api/src/modules/payments/payment.service.ts\<close> (a customer submits a
  proof, an administrator records, verifies, rejects, refunds or reverses it) and the
  partial-payment policy of \<^verbatim>\<open>partial-payment-policy.ts\<close>. The hash of \<open>node:crypto\<close> is the
  parameter \<open>digest\<close>. Every handler is its reads, its transaction and its treatment of
  a duplicate key; the clock is read once per call. Every transaction refines the steps of the
  abstract ledger.
\<close>

section \<open>Requests\<close>

record payment_proof =
  pf_method :: string
  pf_reference :: string
  pf_payerName :: "string option"
  pf_note :: "string option"
  pf_paidAt :: "instant option"

record submit_input =
  sb_invoiceId :: uuid
  sb_amount :: string
  sb_submissionKey :: string
  sb_proof :: payment_proof

record adjustment_input =
  aj_kind :: payment_kind
  aj_amount :: string
  aj_submissionKey :: string
  aj_reference :: string
  aj_note :: "string option"

datatype review_input = VERIFY | REJECT string

section \<open>Policy\<close>

definition payment_settings_key :: string where "payment_settings_key = ''billing.manual-payments''"

definition parse_payment_settings :: "json \<Rightarrow> bool option" where
  \<comment> \<open>\<open>paymentSettingsSchema.safeParse\<close>\<close>
  "parse_payment_settings v =
     (case v of
        JObj [(k, JBool b)] \<Rightarrow> if k = ''partialPaymentsEnabled'' then Some b else None
      | _ \<Rightarrow> None)"

definition readSettings :: "db \<Rightarrow> bool" where
  "readSettings d =
     (case Option.bind (find_setting payment_settings_key d) parse_payment_settings of
        Some b \<Rightarrow> b | None \<Rightarrow> False)"

definition policy_confirmation :: string where
  "policy_confirmation = ''CHANGE_PARTIAL_PAYMENT_POLICY''"

definition updatePartialPaymentPolicy :: "bool \<Rightarrow> string option \<Rightarrow> actor \<Rightarrow> unit tx" where
  "updatePartialPaymentPolicy enabled confirmation ac d =
     (let previous = readSettings d
      in if previous = enabled then Inr (d, ())
         else if confirmation \<noteq> Some policy_confirmation
         then Inl (Unprocessable ''Review and confirm the partial-payment policy change before saving.'')
         else Inr (log_activity (admin_activity ac ''MANUAL_PAYMENT_POLICY_CHANGED_BY_ADMIN'' ''SETTING'' None
                     [(''previousPartialPaymentsEnabled'', JBool previous),
                      (''partialPaymentsEnabled'', JBool enabled)])
                   (upsert_setting payment_settings_key
                     (JObj [(''partialPaymentsEnabled'', JBool enabled)]) d), ()))"

definition updateSettings :: "bool \<Rightarrow> string option \<Rightarrow> actor \<Rightarrow> bool handler" where
  "updateSettings enabled confirmation ac d =
     (case run_tx (updatePartialPaymentPolicy enabled confirmation ac) d of
        (d', Inl e) \<Rightarrow> (d', Inl e) | (d', Inr _) \<Rightarrow> (d', Inr enabled))"

definition assertPayableAmount :: "db \<Rightarrow> invoice \<Rightarrow> int \<Rightarrow> api_error + unit" where
  "assertPayableAmount d i amount =
     (if i_status i \<noteq> Inv_UNPAID \<and> i_status i \<noteq> Inv_OVERDUE
      then Inl (Unprocessable ''Only an unpaid or overdue invoice can be paid.'')
      else if amount \<le> 0 \<or> amount > i_balanceDue i
      then Inl (Unprocessable ''Payment amount exceeds the invoice balance.'')
      else if \<not> readSettings d \<and> amount \<noteq> i_balanceDue i
      then Inl (Unprocessable ''Partial payments are disabled; the payment must equal the full balance.'')
      else Inr ())"

section \<open>Rows\<close>

definition normalizeReference :: "string \<Rightarrow> string" where
  "normalizeReference r = js_upper (js_trim r)"

definition providerReference :: "(string \<Rightarrow> string) \<Rightarrow> string \<Rightarrow> string \<Rightarrow> string" where
  "providerReference digest meth reference = digest (meth @ '':'' @ normalizeReference reference)"

definition proofMetadata :: "payment_proof \<Rightarrow> json" where
  "proofMetadata p =
     JObj ((case pf_payerName p of Some n \<Rightarrow> if n \<noteq> [] then [(''payerName'', JStr n)] else [] | None \<Rightarrow> []) @
           (case pf_note p of Some n \<Rightarrow> if n \<noteq> [] then [(''note'', JStr n)] else [] | None \<Rightarrow> []))"

definition json_string :: "json option \<Rightarrow> string option" where
  "json_string v = (case v of Some (JStr s) \<Rightarrow> Some s | _ \<Rightarrow> None)"

definition readProofMetadata :: "json option \<Rightarrow> string option \<times> string option" where
  "readProofMetadata v =
     (case v of
        Some (JObj fs) \<Rightarrow> (json_string (map_of fs ''payerName''), json_string (map_of fs ''note''))
      | _ \<Rightarrow> (None, None))"

definition validateReceivedAt :: "instant \<Rightarrow> payment_proof \<Rightarrow> api_error + unit" where
  "validateReceivedAt now p =
     (case pf_paidAt p of
        Some t \<Rightarrow> if t > now + 5 * 60 * 1000
                  then Inl (Unprocessable ''Payment date cannot be in the future.'') else Inr ()
      | None \<Rightarrow> Inr ())"

definition chargeData ::
    "(string \<Rightarrow> string) \<Rightarrow> submit_input \<Rightarrow> uuid \<Rightarrow> bool \<Rightarrow> string \<Rightarrow> instant \<Rightarrow> payment" where
  "chargeData digest input userId verified currency now =
     \<lparr>p_id = [], p_invoiceId = sb_invoiceId input, p_originalPaymentId = None,
      p_createdByUserId = Some userId, p_reviewedByUserId = None, p_kind = CHARGE,
      p_status = (if verified then Pay_SUCCEEDED else Pay_PENDING), p_provider = ''manual'',
      p_providerTransactionId =
        (if verified
         then Some (providerReference digest (pf_method (sb_proof input)) (pf_reference (sb_proof input)))
         else None),
      p_idempotencyKey = sb_submissionKey input, p_amount = int (dec_val (sb_amount input)),
      p_currency = currency, p_reference = Some (pf_reference (sb_proof input)), p_checkoutUrl = None,
      p_sessionExpiresAt = None, p_manualMethod = Some (pf_method (sb_proof input)),
      p_proofMetadata = Some (proofMetadata (sb_proof input)), p_failureReason = None,
      p_receivedAt = Some (case pf_paidAt (sb_proof input) of Some t \<Rightarrow> t | None \<Rightarrow> now),
      p_reviewedAt = None, p_verifiedAt = None\<rparr>"

definition created_by_role :: "payment \<Rightarrow> db \<Rightarrow> user_role option" where
  "created_by_role p d =
     Option.bind (p_createdByUserId p) (\<lambda>k. map_option u_role (List.find (\<lambda>u. u_id u = k) (d_users d)))"

definition duplicateChargeResult ::
    "db \<Rightarrow> payment \<Rightarrow> submit_input \<Rightarrow> user_role \<Rightarrow> uuid option \<Rightarrow> api_error + uuid \<times> bool" where
  "duplicateChargeResult d p input submittedByRole customerId =
     (let metadata = readProofMetadata (p_proofMetadata p);
          same = (p_kind p = CHARGE \<and> p_invoiceId p = sb_invoiceId input \<and>
            (case customerId of
               None \<Rightarrow> True
             | Some c \<Rightarrow> c = [] \<or> map_option i_customerId (find_invoice (p_invoiceId p) d) = Some c) \<and>
            created_by_role p d = Some submittedByRole \<and>
            p_amount p = int (dec_val (sb_amount input)) \<and>
            p_manualMethod p = Some (pf_method (sb_proof input)) \<and>
            p_reference p = Some (pf_reference (sb_proof input)) \<and>
            fst metadata = pf_payerName (sb_proof input) \<and> snd metadata = pf_note (sb_proof input) \<and>
            (case pf_paidAt (sb_proof input) of None \<Rightarrow> True | Some t \<Rightarrow> p_receivedAt p = Some t))
      in if \<not> same
         then Inl (Conflict ''This submission key has already been used for another payment.'')
         else Inr (p_id p, True))"

definition duplicateAdjustmentResult ::
    "payment \<Rightarrow> uuid \<Rightarrow> adjustment_input \<Rightarrow> api_error + uuid \<times> bool" where
  "duplicateAdjustmentResult p originalPaymentId input =
     (if p_originalPaymentId p \<noteq> Some originalPaymentId \<or> p_kind p \<noteq> aj_kind input \<or>
         p_amount p \<noteq> int (dec_val (aj_amount input)) \<or> p_reference p \<noteq> Some (aj_reference input) \<or>
         snd (readProofMetadata (p_proofMetadata p)) \<noteq> aj_note input
      then Inl (Conflict ''This submission key has already been used for another adjustment.'')
      else Inr (p_id p, True))"

definition handleCreationError ::
    "api_error \<Rightarrow> db \<Rightarrow> submit_input \<Rightarrow> user_role \<Rightarrow> uuid option \<Rightarrow> api_error + uuid \<times> bool" where
  "handleCreationError e d input submittedByRole customerId =
     (if e = Unique_Violation
      then (case find_payment_by_key (sb_submissionKey input) d of
              Some raced \<Rightarrow> duplicateChargeResult d raced input submittedByRole customerId
            | None \<Rightarrow> Inl (Conflict ''This manual payment reference has already been recorded.''))
      else Inl e)"

section \<open>Submitting\<close>

definition submitManual_tx ::
    "(string \<Rightarrow> string) \<Rightarrow> submit_input \<Rightarrow> actor \<Rightarrow> instant \<Rightarrow> (uuid \<times> bool) tx" where
  "submitManual_tx digest input ac now d =
     (case find_invoice (sb_invoiceId input) d of
        None \<Rightarrow> Inl (Not_Found ''Manual payment was not found.'')
      | Some i \<Rightarrow>
        if Some (i_customerId i) \<noteq> actor_customerId ac
        then Inl (Not_Found ''Manual payment was not found.'')
        else (case find_payment_by_key (sb_submissionKey input) d of
            Some raced \<Rightarrow>
              rbind (duplicateChargeResult d raced input CUSTOMER (actor_customerId ac)) (\<lambda>r. Inr (d, r))
          | None \<Rightarrow>
            rbind (assertPayableAmount d i (int (dec_val (sb_amount input)))) (\<lambda>_.
            let reference = normalizeReference (pf_reference (sb_proof input))
            in if list_ex (\<lambda>p. p_invoiceId p = i_id i \<and> p_provider p = ''manual'' \<and> p_kind p = CHARGE \<and>
                     p_status p = Pay_PENDING \<and> p_manualMethod p = Some (pf_method (sb_proof input)) \<and>
                     map_option normalizeReference (p_reference p) = Some reference) (d_payments d)
               then Inl (Conflict
                 ''This payment reference is already awaiting verification for this invoice.'')
               else
                 rbind (create_payment
                   (chargeData digest input (actor_userId ac) False (i_currency i) now) d) (\<lambda>(d1, k).
                 Inr (log_activity (admin_activity ac ''MANUAL_PAYMENT_SUBMITTED_BY_CUSTOMER'' ''PAYMENT''
                        (Some k) [(''invoiceId'', JStr (i_id i)), (''amount'', JStr (sb_amount input)),
                                  (''method'', JStr (pf_method (sb_proof input)))]) d1, (k, False))))))"

definition submitManual ::
    "(string \<Rightarrow> string) \<Rightarrow> submit_input \<Rightarrow> actor \<Rightarrow> instant \<Rightarrow> (uuid \<times> bool) handler" where
  "submitManual digest input ac now d =
     (if actor_role ac \<noteq> CUSTOMER then (d, Inl (Server_Error ''Unreachable role''))
      else (case find_payment_by_key (sb_submissionKey input) d of
          Some duplicate \<Rightarrow> (d, duplicateChargeResult d duplicate input CUSTOMER (actor_customerId ac))
        | None \<Rightarrow>
          (case validateReceivedAt now (sb_proof input) of
             Inl e \<Rightarrow> (d, Inl e)
           | Inr _ \<Rightarrow>
             (case run_tx (submitManual_tx digest input ac now) d of
                (d', Inr r) \<Rightarrow> (d', Inr r)
              | (d', Inl e) \<Rightarrow>
                (d', handleCreationError e d' input CUSTOMER (actor_customerId ac))))))"


section \<open>Settling an invoice\<close>

definition renewal_items :: "uuid \<Rightarrow> db \<Rightarrow> nat" where
  \<comment> \<open>the invoice's items that bill a service period\<close>
  "renewal_items k d =
     (case find_invoice k d of
        None \<Rightarrow> 0
      | Some i \<Rightarrow> count_where (\<lambda>it. it_serviceId it \<noteq> None \<and> it_periodStart it \<noteq> None \<and>
                                  it_periodEnd it \<noteq> None) (i_items i))"

definition payment_payload :: "uuid \<Rightarrow> uuid \<Rightarrow> json" where
  "payment_payload paymentId invoiceId =
     JObj [(''schemaVersion'', JNum 1), (''paymentId'', JStr paymentId), (''invoiceId'', JStr invoiceId)]"

definition charge_update :: "invoice \<Rightarrow> int \<Rightarrow> instant \<Rightarrow> invoice \<Rightarrow> invoice" where
  \<comment> \<open>the columns a verified charge of \<open>amount\<close> writes, computed from the row read as \<open>i\<close>\<close>
  "charge_update i amount now r =
     (let fullyPaid = (i_balanceDue i - amount = 0);
          r1 = r\<lparr>i_amountPaid := i_amountPaid i + amount, i_balanceDue := i_balanceDue i - amount,
                 i_status := (if fullyPaid then Inv_PAID else i_status i)\<rparr>
      in if fullyPaid then r1\<lparr>i_paidAt := Some now\<rparr> else r1)"

definition pay_order :: "instant \<Rightarrow> uuid option \<Rightarrow> activity \<Rightarrow> db \<Rightarrow> db" where
  \<comment> \<open>moves the invoice's order to PAID and logs it when it was awaiting payment\<close>
  "pay_order now orderId entry d =
     (case orderId of
        None \<Rightarrow> d
      | Some k \<Rightarrow> (case mark_order_paid now k d of
                    (d1, n) \<Rightarrow> if n = 1 then log_activity entry d1 else d1))"

definition applyVerifiedCharge ::
    "invoice \<Rightarrow> uuid \<Rightarrow> int \<Rightarrow> actor \<Rightarrow> instant \<Rightarrow> user_role \<Rightarrow> unit tx" where
  "applyVerifiedCharge i paymentId amount ac now source d =
     (let balanceDue = i_balanceDue i - amount; fullyPaid = (balanceDue = 0)
      in rbind (update_invoice now (i_id i) (charge_update i amount now) d) (\<lambda>(d1, _).
         let d2 = (if fullyPaid
                   then pay_order now (i_orderId i)
                     (admin_activity ac ''ORDER_MARKED_PAID_BY_VERIFIED_PAYMENT'' ''ORDER'' (i_orderId i)
                        [(''invoiceId'', JStr (i_id i)), (''paymentId'', JStr paymentId)]) d1
                   else d1)
         in rbind (create_outbox now ''PAYMENT'' paymentId ''EMAIL_PAYMENT_RECEIVED''
                     (''email:payment-received:'' @ paymentId) (payment_payload paymentId (i_id i)) d2)
              (\<lambda>(d3, _).
            rbind (if fullyPaid \<and> 0 < renewal_items (i_id i) d3
                   then create_outbox now ''PAYMENT'' paymentId ''RENEWAL_PAYMENT_COMPLETED''
                          (''renewal-payment:'' @ paymentId) (payment_payload paymentId (i_id i)) d3
                   else Inr (d3, ())) (\<lambda>(d4, _).
            Inr (log_activity (admin_activity ac
                   (if source = ADMIN then ''MANUAL_PAYMENT_RECORDED_BY_ADMIN''
                    else ''MANUAL_PAYMENT_VERIFIED_BY_ADMIN'') ''PAYMENT'' (Some paymentId)
                   [(''invoiceId'', JStr (i_id i)), (''amount'', JStr (bigint_to_string amount)),
                    (''balanceDue'', JStr (bigint_to_string balanceDue))]) d4, ())))))"

section \<open>Recording and reviewing\<close>

definition recordManual_tx :: "(string \<Rightarrow> string) \<Rightarrow> submit_input \<Rightarrow> actor \<Rightarrow> instant \<Rightarrow> uuid tx" where
  "recordManual_tx digest input ac now d =
     rbind (of_option (Not_Found ''Invoice was not found.'') (find_invoice (sb_invoiceId input) d)) (\<lambda>i.
     let amount = int (dec_val (sb_amount input))
     in rbind (assertPayableAmount d i amount) (\<lambda>_.
        rbind (create_payment
                 ((chargeData digest input (actor_userId ac) True (i_currency i) now)
                    \<lparr>p_reviewedByUserId := Some (actor_userId ac), p_reviewedAt := Some now,
                     p_verifiedAt := Some now\<rparr>) d) (\<lambda>(d1, k).
        rbind (applyVerifiedCharge i k amount ac now ADMIN d1) (\<lambda>(d2, _). Inr (d2, k)))))"

definition recordManual ::
    "(string \<Rightarrow> string) \<Rightarrow> submit_input \<Rightarrow> actor \<Rightarrow> instant \<Rightarrow> (uuid \<times> bool) handler" where
  "recordManual digest input ac now d =
     (case find_payment_by_key (sb_submissionKey input) d of
        Some duplicate \<Rightarrow> (d, duplicateChargeResult d duplicate input ADMIN None)
      | None \<Rightarrow>
        (case validateReceivedAt now (sb_proof input) of
           Inl e \<Rightarrow> (d, Inl e)
         | Inr _ \<Rightarrow>
           (case run_tx (recordManual_tx digest input ac now) d of
              (d', Inr k) \<Rightarrow> (d', Inr (k, False))
            | (d', Inl e) \<Rightarrow> (d', handleCreationError e d' input ADMIN None))))"

definition concurrentReview :: api_error where
  "concurrentReview = Conflict ''The payment has already been reviewed.''"

definition review_read :: "uuid \<Rightarrow> db \<Rightarrow> api_error + uuid" where
  \<comment> \<open>the checks before the transaction; the result is the payment's invoice\<close>
  "review_read paymentId d =
     (case find_payment paymentId d of
        None \<Rightarrow> Inl (Not_Found ''Manual payment was not found.'')
      | Some p \<Rightarrow>
        if p_provider p \<noteq> ''manual'' then Inl (Not_Found ''Manual payment was not found.'')
        else if p_kind p \<noteq> CHARGE \<or> p_status p \<noteq> Pay_PENDING
        then Inl (Unprocessable ''Only a pending manual payment can be reviewed.'')
        else Inr (p_invoiceId p))"

definition reject_update :: "string \<Rightarrow> actor \<Rightarrow> instant \<Rightarrow> payment \<Rightarrow> payment" where
  "reject_update reason ac now p =
     p\<lparr>p_status := Pay_FAILED, p_failureReason := Some reason,
       p_reviewedByUserId := Some (actor_userId ac), p_reviewedAt := Some now\<rparr>"

definition reject_tx :: "uuid \<Rightarrow> uuid \<Rightarrow> string \<Rightarrow> actor \<Rightarrow> instant \<Rightarrow> unit tx" where
  "reject_tx paymentId invoiceId reason ac now d =
     (if count_where (\<lambda>p. p_id p = paymentId \<and> (p_provider p = ''manual'' \<and> p_kind p = CHARGE \<and>
                          p_status p = Pay_PENDING)) (d_payments d) \<noteq> 1
      then Inl concurrentReview
      else rbind (update_payment paymentId (reject_update reason ac now) d) (\<lambda>(d1, _).
           Inr (log_activity (admin_activity ac ''MANUAL_PAYMENT_REJECTED_BY_ADMIN'' ''PAYMENT'' (Some paymentId)
                  [(''invoiceId'', JStr invoiceId), (''reason'', JStr reason)]) d1, ())))"

definition verify_update :: "(string \<Rightarrow> string) \<Rightarrow> payment \<Rightarrow> actor \<Rightarrow> instant \<Rightarrow> payment \<Rightarrow> payment" where
  "verify_update digest p ac now r =
     r\<lparr>p_status := Pay_SUCCEEDED,
       p_providerTransactionId := Some (providerReference digest
         (case p_manualMethod p of Some m \<Rightarrow> m | None \<Rightarrow> ''OTHER'')
         (case p_reference p of Some r \<Rightarrow> r | None \<Rightarrow> [])),
       p_reviewedByUserId := Some (actor_userId ac), p_reviewedAt := Some now, p_verifiedAt := Some now\<rparr>"

definition verify_tx :: "(string \<Rightarrow> string) \<Rightarrow> uuid \<Rightarrow> uuid \<Rightarrow> actor \<Rightarrow> instant \<Rightarrow> unit tx" where
  "verify_tx digest paymentId invoiceId ac now d =
     (case find_payment paymentId d of
        None \<Rightarrow> Inl concurrentReview
      | Some p \<Rightarrow>
        if p_status p \<noteq> Pay_PENDING \<or> p_kind p \<noteq> CHARGE then Inl concurrentReview
        else rbind (of_option (Not_Found ''Invoice was not found.'') (find_invoice invoiceId d)) (\<lambda>i.
          rbind (assertPayableAmount d i (p_amount p)) (\<lambda>_.
          if count_where (\<lambda>q. p_id q = p_id p \<and> p_status q = Pay_PENDING) (d_payments d) \<noteq> 1
          then Inl concurrentReview
          else rbind (update_payment (p_id p) (verify_update digest p ac now) d) (\<lambda>(d1, _).
               applyVerifiedCharge i (p_id p) (p_amount p) ac now CUSTOMER d1))))"

definition review_from ::
    "(string \<Rightarrow> string) \<Rightarrow> db \<Rightarrow> uuid \<Rightarrow> review_input \<Rightarrow> actor \<Rightarrow> instant \<Rightarrow> unit tx" where
  \<comment> \<open>the transaction of a review whose first read saw \<open>d0\<close>\<close>
  "review_from digest d0 paymentId input ac now d =
     rbind (review_read paymentId d0) (\<lambda>invoiceId.
       case input of
         REJECT reason \<Rightarrow> reject_tx paymentId invoiceId reason ac now d
       | VERIFY \<Rightarrow> verify_tx digest paymentId invoiceId ac now d)"

definition review ::
    "(string \<Rightarrow> string) \<Rightarrow> uuid \<Rightarrow> review_input \<Rightarrow> actor \<Rightarrow> instant \<Rightarrow> unit handler" where
  "review digest paymentId input ac now d =
     (case run_tx (review_from digest d paymentId input ac now) d of
        (d', Inl e) \<Rightarrow>
          (d', Inl (if e = Unique_Violation \<and> input = VERIFY
                    then Conflict ''This manual payment reference has already been verified.'' else e))
      | r \<Rightarrow> r)"

section \<open>Refunds and reversals\<close>

definition adjustment_row ::
    "(string \<Rightarrow> string) \<Rightarrow> invoice \<Rightarrow> payment \<Rightarrow> adjustment_input \<Rightarrow> actor \<Rightarrow> instant \<Rightarrow> payment" where
  "adjustment_row digest i original input ac now =
     (let meth = (case p_manualMethod original of Some m \<Rightarrow> m | None \<Rightarrow> ''OTHER'')
      in \<lparr>p_id = [], p_invoiceId = i_id i, p_originalPaymentId = Some (p_id original),
          p_createdByUserId = Some (actor_userId ac), p_reviewedByUserId = Some (actor_userId ac),
          p_kind = aj_kind input, p_status = Pay_SUCCEEDED, p_provider = ''manual'',
          p_providerTransactionId = Some (providerReference digest meth (aj_reference input)),
          p_idempotencyKey = aj_submissionKey input, p_amount = int (dec_val (aj_amount input)),
          p_currency = i_currency i, p_reference = Some (aj_reference input), p_checkoutUrl = None,
          p_sessionExpiresAt = None, p_manualMethod = Some meth,
          p_proofMetadata = Some (case aj_note input of
              Some n \<Rightarrow> if n \<noteq> [] then JObj [(''note'', JStr n)] else JObj [] | None \<Rightarrow> JObj []),
          p_failureReason = None, p_receivedAt = Some now, p_reviewedAt = Some now,
          p_verifiedAt = Some now\<rparr>)"

definition refund_update :: "invoice \<Rightarrow> int \<Rightarrow> invoice \<Rightarrow> invoice" where
  "refund_update i amount r =
     (let amountPaid = i_amountPaid i - amount
      in r\<lparr>i_amountPaid := amountPaid, i_balanceDue := i_balanceDue i + amount,
           i_status := (if amountPaid = 0 then Inv_REFUNDED else Inv_PARTIALLY_REFUNDED)\<rparr>)"

definition adjust_tx ::
    "(string \<Rightarrow> string) \<Rightarrow> uuid \<Rightarrow> uuid \<Rightarrow> adjustment_input \<Rightarrow> actor \<Rightarrow> instant \<Rightarrow> uuid tx" where
  "adjust_tx digest originalPaymentId invoiceId input ac now d =
     (case find_payment originalPaymentId d of
        None \<Rightarrow> Inl (Unprocessable ''Only a verified original manual charge can be adjusted.'')
      | Some original \<Rightarrow>
        if p_provider original \<noteq> ''manual'' \<or> p_kind original \<noteq> CHARGE \<or> p_status original \<noteq> Pay_SUCCEEDED
        then Inl (Unprocessable ''Only a verified original manual charge can be adjusted.'')
        else rbind (of_option (Not_Found ''Invoice was not found.'') (find_invoice invoiceId d)) (\<lambda>i.
          let remaining = p_amount original - adjusted (p_id original) (d_payments d);
              amount = int (dec_val (aj_amount input))
          in if amount > remaining \<or> amount > i_amountPaid i
             then Inl (Unprocessable ''Adjustment exceeds the remaining verified payment amount.'')
             else
               rbind (create_payment (adjustment_row digest i original input ac now) d) (\<lambda>(d1, k).
               rbind (update_invoice now (i_id i) (refund_update i amount) d1) (\<lambda>(d2, _).
               Inr (log_activity (admin_activity ac
                      (if aj_kind input = REFUND then ''MANUAL_PAYMENT_REFUNDED_BY_ADMIN''
                       else ''MANUAL_PAYMENT_REVERSED_BY_ADMIN'') ''PAYMENT'' (Some k)
                      [(''invoiceId'', JStr (i_id i)), (''originalPaymentId'', JStr (p_id original)),
                       (''amount'', JStr (aj_amount input))]) d2, k)))))"

definition adjust_from ::
    "(string \<Rightarrow> string) \<Rightarrow> db \<Rightarrow> uuid \<Rightarrow> adjustment_input \<Rightarrow> actor \<Rightarrow> instant \<Rightarrow> uuid tx" where
  \<comment> \<open>the transaction of an adjustment whose first read saw \<open>d0\<close>\<close>
  "adjust_from digest d0 originalPaymentId input ac now d =
     rbind (of_option (Not_Found ''Manual payment was not found.'') (find_payment originalPaymentId d0))
       (\<lambda>located. adjust_tx digest originalPaymentId (p_invoiceId located) input ac now d)"

definition adjust ::
    "(string \<Rightarrow> string) \<Rightarrow> uuid \<Rightarrow> adjustment_input \<Rightarrow> actor \<Rightarrow> instant \<Rightarrow> (uuid \<times> bool) handler" where
  "adjust digest originalPaymentId input ac now d =
     (case find_payment_by_key (aj_submissionKey input) d of
        Some duplicate \<Rightarrow> (d, duplicateAdjustmentResult duplicate originalPaymentId input)
      | None \<Rightarrow>
        (case run_tx (adjust_from digest d originalPaymentId input ac now) d of
           (d', Inr k) \<Rightarrow> (d', Inr (k, False))
         | (d', Inl e) \<Rightarrow>
           if e = Unique_Violation
           then (case find_payment_by_key (aj_submissionKey input) d' of
                   Some raced \<Rightarrow> (d', duplicateAdjustmentResult raced originalPaymentId input)
                 | None \<Rightarrow>
                   (d', Inl (Conflict ''This manual payment reference has already been recorded.'')))
           else (d', Inl e)))"

section \<open>What a reader is shown\<close>

datatype manual_state = MS_PENDING | MS_VERIFIED | MS_REJECTED | MS_REFUNDED | MS_REVERSED

definition payment_state :: "payment \<Rightarrow> manual_state" where
  "payment_state p =
     (if p_kind p = REFUND then MS_REFUNDED else if p_kind p = REVERSAL then MS_REVERSED
      else if p_status p = Pay_PENDING then MS_PENDING
      else if p_status p = Pay_SUCCEEDED then MS_VERIFIED else MS_REJECTED)"

fun stateWhere :: "manual_state \<Rightarrow> payment \<Rightarrow> bool" where
  "stateWhere MS_PENDING p \<longleftrightarrow> p_kind p = CHARGE \<and> p_status p = Pay_PENDING"
| "stateWhere MS_VERIFIED p \<longleftrightarrow> p_kind p = CHARGE \<and> p_status p = Pay_SUCCEEDED"
| "stateWhere MS_REJECTED p \<longleftrightarrow> p_kind p = CHARGE \<and> p_status p \<in> {Pay_FAILED, Pay_CANCELLED}"
| "stateWhere MS_REFUNDED p \<longleftrightarrow> p_kind p = REFUND \<and> p_status p = Pay_SUCCEEDED"
| "stateWhere MS_REVERSED p \<longleftrightarrow> p_kind p = REVERSAL \<and> p_status p = Pay_SUCCEEDED"

record payment_amounts =
  pa_amount :: serialized_money
  pa_adjustedAmount :: serialized_money
  pa_refundableAmount :: serialized_money

definition toPayment_amounts :: "payment \<Rightarrow> db \<Rightarrow> money_error + payment_amounts" where
  \<comment> \<open>the three amounts of \<open>toPayment\<close>\<close>
  "toPayment_amounts p d =
     (let adjustedAmount = (if p_kind p = CHARGE then adjusted (p_id p) (d_payments d) else 0);
          refundable = (if p_kind p = CHARGE \<and> p_status p = Pay_SUCCEEDED
                        then p_amount p - adjustedAmount else 0)
      in rbind (serializeMoney (p_amount p) (p_currency p)) (\<lambda>a.
         rbind (serializeMoney adjustedAmount (p_currency p)) (\<lambda>b.
         rbind (serializeMoney refundable (p_currency p)) (\<lambda>c.
         Inr \<lparr>pa_amount = a, pa_adjustedAmount = b, pa_refundableAmount = c\<rparr>))))"

definition payment_get :: "uuid \<Rightarrow> actor \<Rightarrow> uuid option \<Rightarrow> db \<Rightarrow> api_error + payment" where
  "payment_get k ac customerId d =
     (case List.find (\<lambda>p. p_id p = k \<and> p_provider p = ''manual'') (d_payments d) of
        None \<Rightarrow> Inl (Not_Found ''Manual payment was not found.'')
      | Some p \<Rightarrow>
        rbind (of_option (Server_Error ''The invoice of a payment is required.'')
                 (find_invoice (p_invoiceId p) d)) (\<lambda>i.
          if (case customerId of None \<Rightarrow> False | Some c \<Rightarrow> c \<noteq> [] \<and> js_lower (i_customerId i) \<noteq> js_lower c)
          then Inl (Not_Found ''Manual payment was not found.'')
          else if actor_role ac = CUSTOMER \<and> actor_customerId ac \<noteq> Some (i_customerId i)
          then Inl (Forbidden ''You do not have access to this payment.'')
          else Inr p))"

section \<open>The transactions refine the ledger\<close>

lemma assertPayableAmount_eq [result_simps]:
  "assertPayableAmount d i amount = Inr u \<longleftrightarrow>
     payable_status (i_status i) \<and> 0 < amount \<and> amount \<le> i_balanceDue i \<and>
     (readSettings d \<or> amount = i_balanceDue i)"
  by (auto simp: assertPayableAmount_def payable_status_def)

lemma submitManual_tx_cases:
  assumes "submitManual_tx digest input ac now d = Inr (d', k, dup)"
  obtains "dup" and "d' = d"
  | i d1 where "\<not> dup" and "find_invoice (sb_invoiceId input) d = Some i"
      and "Some (i_customerId i) = actor_customerId ac"
      and "assertPayableAmount d i (int (dec_val (sb_amount input))) = Inr ()"
      and "create_payment (chargeData digest input (actor_userId ac) False (i_currency i) now) d = Inr (d1, k)"
      and "ledger_of d' = ledger_of d1"
proof -
  obtain i where i: "find_invoice (sb_invoiceId input) d = Some i" "Some (i_customerId i) = actor_customerId ac"
    using assms by (auto simp: submitManual_tx_def split: option.splits if_splits)
  show ?thesis
  proof (cases "find_payment_by_key (sb_submissionKey input) d")
    case None
    with assms i show ?thesis
      by (auto simp: submitManual_tx_def rbind_eq_Inr Let_def split: if_splits intro!: that(2))
  next
    case (Some p)
    with assms i show ?thesis
      by (auto simp: submitManual_tx_def result_simps duplicateChargeResult_def Let_def
          split: if_splits intro!: that(1))
  qed
qed

interpretation submit_payment: ledger_client "submitManual_tx digest input ac now"
  for digest input ac now
proof
  fix d d' r
  assume run: "submitManual_tx digest input ac now d = Inr (d', r)"
  obtain k dup where "r = (k, dup)" by (cases r)
  with run have "submitManual_tx digest input ac now d = Inr (d', k, dup)" by simp
  then show "ledger_steps (ledger_of d) (ledger_of d')"
  proof (cases rule: submitManual_tx_cases)
    case 1
    then show ?thesis by simp
  next
    case (2 i d1)
    let ?p = "(chargeData digest input (actor_userId ac) False (i_currency i) now)\<lparr>p_id := k\<rparr>"
    from 2(5) have new: "payment_check ?p" "k \<notin> p_id ` set (d_payments d)"
      "ledger_of d1 = (d_invoices d, d_payments d @ [?p])"
      by (rule create_payment_cases; simp add: ledger_of_def)+
    have "ledger_step (d_invoices d, d_payments d) (d_invoices d, d_payments d @ [?p])"
      by (rule take_payment [of _ _ _ i])
        (use 2 new in \<open>auto simp: chargeData_def find_invoice_def result_simps\<close>)
    then show ?thesis using 2(6) new(3) by (simp add: ledger_of_def r_into_rtranclp)
  qed
qed

lemma pay_order_ledger [simp]: "ledger_of (pay_order now orderId entry d) = ledger_of d"
  by (simp add: pay_order_def split: option.splits prod.splits)
    (metis fst_conv ledger_of_unchanged(1,3))

lemma applyVerifiedCharge_cases:
  assumes "applyVerifiedCharge i paymentId amount ac now source d = Inr (d', u)"
  obtains d1 where "update_invoice now (i_id i) (charge_update i amount now) d = Inr (d1, ())"
    and "ledger_of d' = ledger_of d1"
  using assms
  by (auto simp: applyVerifiedCharge_def Let_def result_simps dest!: create_outbox_ledger split: if_splits)

lemma charge_update_frame:
  assumes "same_account i r"
  shows "same_account i (charge_update i amount now r)"
  using assms by (simp add: charge_update_def same_account_def Let_def)

lemma charge_update_simps [simp]:
  "i_amountPaid (charge_update i amount now r) = i_amountPaid i + amount"
  "i_balanceDue (charge_update i amount now r) = i_balanceDue i - amount"
  "i_status (charge_update i amount now r) = (if i_balanceDue i - amount = 0 then Inv_PAID else i_status i)"
  "i_id (charge_update i amount now r) = i_id r"
  by (simp_all add: charge_update_def Let_def)

lemma charge_update_ok:
  assumes "update_invoice now (i_id i) (charge_update i amount now) d = Inr (d', u)"
    and "find_invoice (i_id i) d = Some i" and "payable_status (i_status i)"
  shows "invoice_ok (charge_update i amount now i)"
    and "ledger_of d' = (set_row (i_id i) (\<lambda>r. (charge_update i amount now r)\<lparr>i_updatedAt := now\<rparr>) (d_invoices d),
                         d_payments d)"
  using assms(1) by (auto elim!: update_invoice_cases simp: assms(2) ledger_of_def invoice_ok_def)
    (use assms(3) in \<open>auto simp: payable_status_def split: if_splits\<close>)

lemma recordManual_tx_cases:
  assumes "recordManual_tx digest input ac now d = Inr (d', k)"
  obtains i d1 d2 where "find_invoice (sb_invoiceId input) d = Some i"
    and "assertPayableAmount d i (int (dec_val (sb_amount input))) = Inr ()"
    and "create_payment ((chargeData digest input (actor_userId ac) True (i_currency i) now)
           \<lparr>p_reviewedByUserId := Some (actor_userId ac), p_reviewedAt := Some now,
            p_verifiedAt := Some now\<rparr>) d = Inr (d1, k)"
    and "update_invoice now (i_id i) (charge_update i (int (dec_val (sb_amount input))) now) d1 = Inr (d2, ())"
    and "ledger_of d' = ledger_of d2"
  using assms
  by (auto simp: recordManual_tx_def Let_def result_simps elim!: applyVerifiedCharge_cases intro: that)

interpretation record_payment: ledger_client "recordManual_tx digest input ac now"
  for digest input ac now
proof
  fix d d' k
  assume "recordManual_tx digest input ac now d = Inr (d', k)"
  then show "ledger_steps (ledger_of d) (ledger_of d')"
  proof (rule recordManual_tx_cases)
    fix i :: invoice and d1 d2
    let ?a = "int (dec_val (sb_amount input))"
    let ?p = "(chargeData digest input (actor_userId ac) True (i_currency i) now)
           \<lparr>p_reviewedByUserId := Some (actor_userId ac), p_reviewedAt := Some now,
            p_verifiedAt := Some now, p_id := k\<rparr>"
    let ?g = "\<lambda>r. (charge_update i ?a now r)\<lparr>i_updatedAt := now\<rparr>"
    assume i: "find_invoice (sb_invoiceId input) d = Some i"
      and pay: "assertPayableAmount d i ?a = Inr ()"
      and cr: "create_payment ((chargeData digest input (actor_userId ac) True (i_currency i) now)
           \<lparr>p_reviewedByUserId := Some (actor_userId ac), p_reviewedAt := Some now,
            p_verifiedAt := Some now\<rparr>) d = Inr (d1, k)"
      and upd: "update_invoice now (i_id i) (charge_update i ?a now) d1 = Inr (d2, ())"
      and d': "ledger_of d' = ledger_of d2"
    from cr have p: "payment_check ?p" "k \<notin> p_id ` set (d_payments d)"
      and d1: "d_invoices d1 = d_invoices d" "d_payments d1 = d_payments d @ [?p]"
      by (rule create_payment_cases; simp)+
    have id: "i_id i = sb_invoiceId input" using i by (rule find_invoice_idD)
    have i1: "find_invoice (i_id i) d1 = Some i" using i id d1 by (simp add: find_invoice_def)
    note ok = charge_update_ok [OF upd i1]
    have "ledger_step (d_invoices d, d_payments d)
            (set_row (p_invoiceId ?p) ?g (d_invoices d), d_payments d @ [?p])"
      by (rule record_payment [where i = i])
        (use p pay i ok(1) in \<open>auto simp: chargeData_def find_invoice_def result_simps charge_update_frame
          same_account_def payable_status_def charge_update_def Let_def\<close>)
    then show ?thesis
      using ok(2) pay d1 d' id by (simp add: ledger_of_def result_simps chargeData_def r_into_rtranclp)
  qed
qed

interpretation reject_payment: ledger_client "reject_tx paymentId invoiceId reason ac now"
  for paymentId invoiceId reason ac now
proof
  fix d d' u
  assume inv: "ledger_inv (ledger_of d)" and run: "reject_tx paymentId invoiceId reason ac now d = Inr (d', u)"
  let ?P = "\<lambda>p. p_provider p = ''manual'' \<and> p_kind p = CHARGE \<and> p_status p = Pay_PENDING"
  obtain d1 where cnt: "count_where (\<lambda>p. p_id p = paymentId \<and> ?P p) (d_payments d) = 1"
    and upd: "update_payment paymentId (reject_update reason ac now) d = Inr (d1, ())"
    and d': "ledger_of d' = ledger_of d1"
    using run by (auto simp: reject_tx_def result_simps split: if_splits)
  obtain p where p: "find_payment paymentId d = Some p" "?P p"
    using counted_payment [OF _ cnt] inv by (auto simp: ledger_inv_iff ledger_of_def find_payment_def)
  then have "ledger_step (ledger_of d) (ledger_of d1)"
    by (intro update_payment_step [OF upd]) (auto simp: reject_update_def same_charge_def)
  then show "ledger_steps (ledger_of d) (ledger_of d')" using d' by (simp add: r_into_rtranclp)
qed

lemma verify_tx_cases:
  assumes "verify_tx digest paymentId invoiceId ac now d = Inr (d', u)"
  obtains p i d1 d2 where "find_payment paymentId d = Some p" and "p_status p = Pay_PENDING"
    and "p_kind p = CHARGE" and "find_invoice invoiceId d = Some i"
    and "assertPayableAmount d i (p_amount p) = Inr ()"
    and "update_payment (p_id p) (verify_update digest p ac now) d = Inr (d1, ())"
    and "update_invoice now (i_id i) (charge_update i (p_amount p) now) d1 = Inr (d2, ())"
    and "ledger_of d' = ledger_of d2"
  using assms
  by (auto simp: verify_tx_def result_simps elim!: applyVerifiedCharge_cases intro: that
      split: option.splits if_splits)

text \<open>Verification settles the invoice of the payment: the first read told which invoice to lock.\<close>

lemma verify_refines:
  assumes run: "verify_tx digest paymentId invoiceId ac now d = Inr (d', u)"
    and home: "\<And>p. find_payment paymentId d = Some p \<Longrightarrow> p_invoiceId p = invoiceId"
  shows "ledger_steps (ledger_of d) (ledger_of d')"
  using run
proof (rule verify_tx_cases)
  fix p :: payment and i :: invoice and d1 d2
  let ?f = "verify_update digest p ac now"
  let ?g = "\<lambda>r. (charge_update i (p_amount p) now r)\<lparr>i_updatedAt := now\<rparr>"
  assume p: "find_payment paymentId d = Some p" "p_status p = Pay_PENDING" "p_kind p = CHARGE"
    and i: "find_invoice invoiceId d = Some i" and pay: "assertPayableAmount d i (p_amount p) = Inr ()"
    and upd: "update_payment (p_id p) ?f d = Inr (d1, ())"
    and upi: "update_invoice now (i_id i) (charge_update i (p_amount p) now) d1 = Inr (d2, ())"
    and d': "ledger_of d' = ledger_of d2"
  have ids: "i_id i = p_invoiceId p" "p_id p = paymentId" "p_invoiceId p = invoiceId"
    using find_invoice_idD [OF i] find_payment_idD [OF p(1)] home [OF p(1)] by simp_all
  from upd have q: "payment_check (?f p)"
    and d1: "d_invoices d1 = d_invoices d" "d_payments d1 = set_charge (p_id p) ?f (d_payments d)"
    by (rule update_payment_cases; use p(1) ids(2) in \<open>auto\<close>)+
  have i1: "find_invoice (i_id i) d1 = Some i" using i ids d1 by (simp add: find_invoice_def)
  note ok = charge_update_ok [OF upi i1]
  have "ledger_step (d_invoices d, d_payments d)
          (set_row (p_invoiceId p) ?g (d_invoices d), set_charge (p_id p) ?f (d_payments d))"
    by (rule settle_payment [where i = i])
      (use p q i ids pay ok(1) in \<open>auto simp: find_invoice_def find_payment_def result_simps same_charge_def
        verify_update_def same_account_def payable_status_def charge_update_def Let_def\<close>)
  then show ?thesis using ok(2) pay d1 d' ids by (simp add: ledger_of_def result_simps r_into_rtranclp)
qed

interpretation review_payment: stale_client d0 "review_from digest d0 paymentId input ac now"
  for digest d0 paymentId input ac now
proof
  fix d d' u
  assume inv: "ledger_inv (ledger_of d)" and kept: "persists (ledger_of d0) (ledger_of d)"
    and run: "review_from digest d0 paymentId input ac now d = Inr (d', u)"
  obtain p where p: "find_payment paymentId d0 = Some p" "review_read paymentId d0 = Inr (p_invoiceId p)"
    using run by (auto simp: review_from_def review_read_def result_simps split: option.splits if_splits)
  obtain q where q: "find_payment paymentId d = Some q" "same_charge p q"
    using persistent_payment [OF kept inv p(1)] .
  show "ledger_steps (ledger_of d) (ledger_of d')"
  proof (cases input)
    case (REJECT reason)
    then show ?thesis using run p reject_payment.refines [OF inv] by (simp add: review_from_def)
  next
    case VERIFY
    then show ?thesis using run p q
      by (intro verify_refines [of digest paymentId "p_invoiceId p" ac now d d' u])
        (auto simp: review_from_def same_charge_def)
  qed
qed

lemma adjust_tx_cases:
  assumes "adjust_tx digest originalId invoiceId input ac now d = Inr (d', k)"
  obtains p i d1 d2 where "find_payment originalId d = Some p" and "p_kind p = CHARGE"
    and "p_status p = Pay_SUCCEEDED" and "find_invoice invoiceId d = Some i"
    and "int (dec_val (aj_amount input)) \<le> p_amount p - adjusted (p_id p) (d_payments d)"
    and "int (dec_val (aj_amount input)) \<le> i_amountPaid i"
    and "create_payment (adjustment_row digest i p input ac now) d = Inr (d1, k)"
    and "update_invoice now (i_id i) (refund_update i (int (dec_val (aj_amount input)))) d1 = Inr (d2, ())"
    and "ledger_of d' = ledger_of d2"
  using assms
  by (auto simp: adjust_tx_def result_simps Let_def intro: that split: option.splits if_splits)

lemma adjust_refines:
  assumes run: "adjust_tx digest originalId invoiceId input ac now d = Inr (d', k)"
    and home: "\<And>p. find_payment originalId d = Some p \<Longrightarrow> p_invoiceId p = invoiceId"
  shows "ledger_steps (ledger_of d) (ledger_of d')"
  using run
proof (rule adjust_tx_cases)
  fix p :: payment and i :: invoice and d1 d2
  let ?a = "int (dec_val (aj_amount input))"
  let ?p = "(adjustment_row digest i p input ac now)\<lparr>p_id := k\<rparr>"
  let ?g = "\<lambda>r. (refund_update i ?a r)\<lparr>i_updatedAt := now\<rparr>"
  assume p: "find_payment originalId d = Some p" "p_kind p = CHARGE" "p_status p = Pay_SUCCEEDED"
    and i: "find_invoice invoiceId d = Some i"
    and room: "?a \<le> p_amount p - adjusted (p_id p) (d_payments d)" and paid: "?a \<le> i_amountPaid i"
    and cr: "create_payment (adjustment_row digest i p input ac now) d = Inr (d1, k)"
    and upd: "update_invoice now (i_id i) (refund_update i ?a) d1 = Inr (d2, ())"
    and d': "ledger_of d' = ledger_of d2"
  have ids: "i_id i = invoiceId" "p_id p = originalId" "p_invoiceId p = invoiceId"
    using find_invoice_idD [OF i] find_payment_idD [OF p(1)] home [OF p(1)] by simp_all
  from cr have q: "payment_check ?p" "k \<notin> p_id ` set (d_payments d)"
    and d1: "d_invoices d1 = d_invoices d" "d_payments d1 = d_payments d @ [?p]"
    by (rule create_payment_cases; simp)+
  have row: "p_invoiceId ?p = invoiceId" "p_originalPaymentId ?p = Some originalId" "p_amount ?p = ?a"
    "p_status ?p = Pay_SUCCEEDED" "p_currency ?p = i_currency i"
    by (simp_all add: adjustment_row_def Let_def ids)
  have i1: "find_invoice (i_id i) d1 = Some i" using i ids d1 by (simp add: find_invoice_def)
  from upd have chk: "invoice_check (refund_update i ?a i)" "list_all invoice_item_check (i_items i)"
    by (rule update_invoice_cases; simp add: i1; simp add: refund_update_def Let_def)+
  have d2: "ledger_of d2 = (set_row invoiceId ?g (d_invoices d), d_payments d @ [?p])"
    unfolding update_invoice_ledger [OF upd] d1 ids(1) ..
  have "ledger_step (d_invoices d, d_payments d)
          (set_row (p_invoiceId ?p) ?g (d_invoices d), d_payments d @ [?p])"
    by (rule adjust_payment [where i = i and q = p and k = originalId])
      (use p q i ids room chk row in \<open>auto simp: find_invoice_def find_payment_def same_account_def
        refund_update_def Let_def invoice_ok_def\<close>)
  then show ?thesis using d' d2 row(1) by (simp add: ledger_of_def r_into_rtranclp)
qed

interpretation adjust_payment: stale_client d0 "adjust_from digest d0 originalId input ac now"
  for digest d0 originalId input ac now
proof
  fix d d' k
  assume inv: "ledger_inv (ledger_of d)" and kept: "persists (ledger_of d0) (ledger_of d)"
    and run: "adjust_from digest d0 originalId input ac now d = Inr (d', k)"
  obtain p where p: "find_payment originalId d0 = Some p"
    and tx: "adjust_tx digest originalId (p_invoiceId p) input ac now d = Inr (d', k)"
    using run by (auto simp: adjust_from_def result_simps)
  obtain q where q: "find_payment originalId d = Some q" "same_charge p q"
    using persistent_payment [OF kept inv p] .
  then show "ledger_steps (ledger_of d) (ledger_of d')"
    by (intro adjust_refines [OF tx]) (auto simp: same_charge_def)
qed


section \<open>Properties\<close>

lemma applyVerifiedCharge_row:
  assumes "update_invoice now (i_id i) (charge_update i amount now) d = Inr (d', u)"
    and "find_invoice (i_id i) d = Some i"
  shows "find_invoice (i_id i) d' = Some ((charge_update i amount now i)\<lparr>i_updatedAt := now\<rparr>)"
  using assms by (auto elim!: update_invoice_cases simp: find_invoice_def find_update_many_key [where key = i_id])

lemma find_payment_ledger: "ledger_of d = ledger_of d' \<Longrightarrow> find_payment k d = find_payment k d'"
  by (simp add: find_payment_row)

lemma verified_payment:
  assumes "verify_tx digest paymentId invoiceId ac now d = Inr (d', u)"
  obtains p where "find_payment paymentId d' = Some p" and "p_status p = Pay_SUCCEEDED"
  using assms
proof (rule verify_tx_cases)
  fix p i d1 d2
  assume p: "find_payment paymentId d = Some p"
    and upd: "update_payment (p_id p) (verify_update digest p ac now) d = Inr (d1, ())"
    and upi: "update_invoice now (i_id i) (charge_update i (p_amount p) now) d1 = Inr (d2, ())"
    and d': "ledger_of d' = ledger_of d2"
  have id: "p_id p = paymentId" using p by (rule find_payment_idD)
  have "find_payment paymentId d1 = Some (verify_update digest p ac now p)"
    using upd p id
    by (auto elim!: update_payment_cases simp: find_payment_def verify_update_def
        find_update_many_key [where key = p_id and f = "verify_update digest p ac now"])
  moreover have "find_payment paymentId d' = find_payment paymentId d1"
    using upi d' by (auto elim!: update_invoice_cases simp: find_payment_row ledger_of_def)
  ultimately show ?thesis using that by (simp add: verify_update_def)
qed

lemma review_not_pending:
  assumes "find_payment paymentId d = Some p" and "p_status p = Pay_SUCCEEDED" and "ledger_inv (ledger_of d)"
  shows "\<not> is_ok (review_from digest d0 paymentId input ac now d)"
proof
  assume "is_ok (review_from digest d0 paymentId input ac now d)"
  then obtain d' u where run: "review_from digest d0 paymentId input ac now d = Inr (d', u)"
    by (auto simp: is_ok_def split: sum.splits)
  then obtain invoiceId where read: "review_read paymentId d0 = Inr invoiceId"
    by (auto simp: review_from_def result_simps)
  show False
  proof (cases input)
    case VERIFY
    with run read assms(1,2) show False by (simp add: review_from_def verify_tx_def)
  next
    case (REJECT reason)
    let ?P = "\<lambda>p. p_provider p = ''manual'' \<and> p_kind p = CHARGE \<and> p_status p = Pay_PENDING"
    have "count_where (\<lambda>p. p_id p = paymentId \<and> ?P p) (d_payments d) = 1"
      using REJECT run read by (auto simp: review_from_def reject_tx_def split: if_splits)
    then obtain q where "find_payment paymentId d = Some q" "?P q"
      using counted_payment [of "d_payments d" paymentId ?P] assms(3)
      by (auto simp: ledger_inv_iff ledger_of_def find_payment_def)
    with assms(1,2) show False by simp
  qed
qed

text \<open>
  C14: a manual payment is verified at most once: after one verification has committed, every
  review of that payment fails in every later state of the ledger, whatever an earlier read of
  the losing reviewer saw.
\<close>

theorem verified_once:
  assumes "ledger_inv (ledger_of d0)" and "ledger_steps (ledger_of d0) (ledger_of d)"
    and "review_from digest d0 paymentId VERIFY ac now d = Inr (d1, u)"
    and "ledger_steps (ledger_of d1) (ledger_of d2)"
  shows "\<not> is_ok (review_from digest dr paymentId input ac2 now2 d2)"
proof -
  obtain invoiceId where "verify_tx digest paymentId invoiceId ac now d = Inr (d1, u)"
    using assms(3) by (auto simp: review_from_def result_simps)
  then obtain p where p: "find_payment paymentId d1 = Some p" "p_status p = Pay_SUCCEEDED"
    by (rule verified_payment)
  have inv1: "ledger_inv (ledger_of d1)"
    using review_payment.after_interleaving [OF assms(1,2), of digest paymentId VERIFY ac now] assms(3)
    by (simp add: run_tx_def)
  have inv2: "ledger_inv (ledger_of d2)" and kept: "persists (ledger_of d1) (ledger_of d2)"
    using ledger_steps_inv [OF assms(4) inv1] ledger_steps_persists [OF assms(4) inv1] by auto
  obtain q where "find_payment paymentId d2 = Some q" "p_status q = Pay_SUCCEEDED"
    using persistent_charge [OF kept inv2 p(1)] p(2) by blast
  then show ?thesis using review_not_pending inv2 by blast
qed


definition sample_proof :: payment_proof where
  "sample_proof = \<lparr>pf_method = ''CASH'', pf_reference = ''r-1'', pf_payerName = None, pf_note = Some ''n'',
     pf_paidAt = None\<rparr>"

definition sample_submit :: submit_input where
  "sample_submit = \<lparr>sb_invoiceId = ''i'', sb_amount = ''250'', sb_submissionKey = ''s'',
     sb_proof = sample_proof\<rparr>"

definition sample_client :: actor where
  "sample_client = \<lparr>actor_userId = ''u'', actor_role = CUSTOMER, actor_customerId = Some ''c''\<rparr>"

definition unpaid_db :: db where
  "unpaid_db = (sample_db Inv_UNPAID 250)\<lparr>d_users := [sample_user]\<rparr>"

lemma unpaid_ledger: "ledger_inv (ledger_of unpaid_db)"
  using sample_ledger [of 250 Inv_UNPAID] by (simp add: unpaid_db_def ledger_of_def)

definition pending_db :: db where
  "pending_db = fst (submitManual (\<lambda>x. x) sample_submit sample_client 9 unpaid_db)"

lemma pending_result: "submitManual (\<lambda>x. x) sample_submit sample_client 9 unpaid_db = (pending_db, Inr (''7'', False))"
proof -
  have "snd (submitManual (\<lambda>x. x) sample_submit sample_client 9 unpaid_db) = Inr (''7'', False)"
    by code_simp
  then show ?thesis by (simp add: pending_db_def prod_eq_iff)
qed

lemma submitManual_committed:
  assumes "submitManual digest input ac now d = (d', Inr (k, False))"
  shows "submitManual_tx digest input ac now d = Inr (d', k, False)"
    and "find_payment_by_key (sb_submissionKey input) d = None"
  using assms
  by (auto simp: submitManual_def run_tx_def handleCreationError_def duplicateChargeResult_def Let_def
      split: option.splits sum.splits if_splits)

lemma pending_ledger: "ledger_inv (ledger_of pending_db)"
  using submit_payment.keeps_inv [OF unpaid_ledger] submitManual_committed(1) [OF pending_result] by blast

theorem verified_once_witness:
  "case review_from (\<lambda>x. x) pending_db ''7'' VERIFY sample_actor 10 pending_db of
     Inl _ \<Rightarrow> False
   | Inr (d1, _) \<Rightarrow> \<not> is_ok (review_from (\<lambda>x. x) pending_db ''7'' (REJECT ''late'') sample_actor 11 d1)"
proof -
  have "case review_from (\<lambda>x. x) pending_db ''7'' VERIFY sample_actor 10 pending_db of
     Inl _ \<Rightarrow> False | Inr _ \<Rightarrow> True"
    by code_simp
  then show ?thesis
    using verified_once [OF pending_ledger rtranclp.rtrancl_refl, of "\<lambda>x. x" "''7''" sample_actor 10 _ "()" _
        pending_db "REJECT ''late''" sample_actor 11]
    by (auto split: sum.splits)
qed

text \<open>
  Submitting a payment proof again is harmless: once a proof was accepted for a customer, the
  same request of that customer is answered with the same payment, marked as a duplicate, and
  changes nothing.
\<close>

theorem submitManual_idempotent:
  assumes "submitManual digest input ac now d = (d', Inr (k, False))"
    and "\<exists>u. List.find (\<lambda>u. u_id u = actor_userId ac) (d_users d) = Some u \<and> u_role u = CUSTOMER"
    and "pf_payerName (sb_proof input) \<noteq> Some []" and "pf_note (sb_proof input) \<noteq> Some []"
  shows "submitManual digest input ac now2 d' = (d', Inr (k, True))"
proof -
  note tx = submitManual_committed [OF assms(1)]
  have ac: "actor_role ac = CUSTOMER"
    using assms(1) by (simp add: submitManual_def split: if_splits)
  from tx(1) obtain i d1 where i: "find_invoice (sb_invoiceId input) d = Some i"
    "Some (i_customerId i) = actor_customerId ac"
    and cr: "create_payment (chargeData digest input (actor_userId ac) False (i_currency i) now) d = Inr (d1, k)"
    and d': "d' = log_activity (admin_activity ac ''MANUAL_PAYMENT_SUBMITTED_BY_CUSTOMER'' ''PAYMENT''
                        (Some k) [(''invoiceId'', JStr (i_id i)), (''amount'', JStr (sb_amount input)),
                                  (''method'', JStr (pf_method (sb_proof input)))]) d1"
    by (auto simp: submitManual_tx_def tx(2) result_simps Let_def split: option.splits if_splits)
  let ?p = "(chargeData digest input (actor_userId ac) False (i_currency i) now)\<lparr>p_id := k\<rparr>"
  have same: "d_payments d' = d_payments d @ [?p]" "d_users d' = d_users d" "d_invoices d' = d_invoices d"
    using cr by (auto elim!: create_payment_cases simp: d' log_activity_def)
  have "find_payment_by_key (sb_submissionKey input) d' = Some ?p"
    using tx(2) by (simp add: find_payment_by_key_def same find_app chargeData_def)
  moreover have "duplicateChargeResult d' ?p input CUSTOMER (actor_customerId ac) = Inr (k, True)"
  proof -
    have "readProofMetadata (p_proofMetadata ?p) = (pf_payerName (sb_proof input), pf_note (sb_proof input))"
      using assms(3,4)
      by (cases "pf_payerName (sb_proof input)"; cases "pf_note (sb_proof input)")
        (simp_all add: chargeData_def readProofMetadata_def proofMetadata_def json_string_def)
    moreover have "created_by_role ?p d' = Some CUSTOMER"
      using assms(2) by (auto simp: created_by_role_def chargeData_def same)
    moreover have "map_option i_customerId (find_invoice (sb_invoiceId input) d') = actor_customerId ac"
      using i by (simp add: find_invoice_def same)
    ultimately show ?thesis
      by (simp add: duplicateChargeResult_def chargeData_def split: option.splits)
  qed
  ultimately show ?thesis using ac by (simp add: submitManual_def)
qed

theorem submitManual_idempotent_witness:
  "submitManual (\<lambda>x. x) sample_submit sample_client 20 pending_db = (pending_db, Inr (''7'', True))"
  by (rule submitManual_idempotent [OF pending_result])
    (simp_all add: sample_submit_def sample_proof_def unpaid_db_def sample_user_def sample_client_def)


text \<open>
  The amounts shown for a payment of a consistent ledger are always printable: the money
  schema accepts all three, and what is shown as refundable is exactly the verified amount less
  the refunds and reversals so far, never negative.
\<close>

theorem toPayment_amounts_exact:
  assumes "ledger_inv (ledger_of d)" and "p \<in> set (d_payments d)" and "p_amount p \<le> POSTGRES_BIGINT_MAX"
  shows "\<exists>r. toPayment_amounts p d = Inr r \<and>
     sm_amount (pa_refundableAmount r) =
       (if p_kind p = CHARGE \<and> p_status p = Pay_SUCCEEDED
        then show_nat (nat (p_amount p - adjusted (p_id p) (d_payments d))) else ''0'') \<and>
     (p_kind p = CHARGE \<longrightarrow> adjusted (p_id p) (d_payments d) \<le> p_amount p)"
proof -
  have ok: "payment_ok (d_invoices d) (d_payments d) p"
    and le: "p_kind p = CHARGE \<Longrightarrow> adjusted (p_id p) (d_payments d) \<le> p_amount p"
    using assms(1,2) by (auto simp: ledger_inv_iff ledger_of_def charges_ok_def)
  have cur: "currencyCodeSchema (p_currency p)" and pos: "0 < p_amount p"
    using ok by (auto simp: payment_ok_def payment_check_def)
  have nn: "0 \<le> adjusted (p_id p) (d_payments d)"
    using assms(1) by (intro adjusted_nonneg) (auto simp: ledger_inv_iff ledger_of_def)
  have ser: "serializeMoney a (p_currency p) = Inr \<lparr>sm_amount = bigint_to_string a, sm_currency = p_currency p\<rparr>"
    if "0 \<le> a" "a \<le> p_amount p" for a
    using that cur assms(3) by (simp add: serializeMoney_def moneySchema_def bigint_to_string_schema Let_def)
  show ?thesis
    using le nn pos
    by (cases "p_kind p = CHARGE"; cases "p_status p = Pay_SUCCEEDED")
      (simp_all add: toPayment_amounts_def Let_def ser bigint_to_string_def show_nat_0)
qed

theorem toPayment_amounts_exact_witness:
  "\<exists>p r. p \<in> set (d_payments pending_db) \<and> toPayment_amounts p pending_db = Inr r \<and>
     sm_amount (pa_refundableAmount r) = ''0''"
proof -
  have "case d_payments pending_db of [] \<Rightarrow> False
    | p # _ \<Rightarrow> p_amount p \<le> POSTGRES_BIGINT_MAX \<and> p_status p \<noteq> Pay_SUCCEEDED"
    unfolding pending_db_def by code_simp
  then obtain p ps where p: "d_payments pending_db = p # ps" "p_amount p \<le> POSTGRES_BIGINT_MAX"
    "p_status p \<noteq> Pay_SUCCEEDED"
    by (auto split: list.splits)
  then show ?thesis using toPayment_amounts_exact [OF pending_ledger, of p] by auto
qed

text \<open>
  The list filter and the state shown for a payment agree: in a consistent ledger a row is
  listed under a state exactly when that is the state it is shown with.
\<close>

theorem stateWhere_is_state:
  assumes "ledger_inv (ledger_of d)" and "p \<in> set (d_payments d)"
  shows "stateWhere s p \<longleftrightarrow> payment_state p = s"
proof -
  have "payment_ok (d_invoices d) (d_payments d) p"
    using assms by (auto simp: ledger_inv_iff ledger_of_def charges_ok_def)
  then have "p_kind p \<noteq> CHARGE \<Longrightarrow> p_status p = Pay_SUCCEEDED"
    by (auto simp: payment_ok_def payment_check_def split: option.splits)
  then show ?thesis
    by (cases s; cases "p_kind p"; cases "p_status p") (auto simp: payment_state_def)
qed

theorem stateWhere_is_state_witness:
  "\<exists>p \<in> set (d_payments pending_db). stateWhere MS_PENDING p \<and> payment_state p = MS_PENDING"
proof -
  have "case d_payments pending_db of [] \<Rightarrow> False | p # _ \<Rightarrow> payment_state p = MS_PENDING"
    unfolding pending_db_def by code_simp
  then obtain p ps where p: "d_payments pending_db = p # ps" "payment_state p = MS_PENDING"
    by (auto split: list.splits)
  then show ?thesis using stateWhere_is_state [OF pending_ledger, of p MS_PENDING] by auto
qed

text \<open>
  A recorded charge moves exactly its amount: the invoice's paid amount grows and its balance
  shrinks by it, the invoice becomes PAID exactly when the balance reaches zero, and with partial
  payments disabled only a charge of the full balance is ever recorded.
\<close>

theorem recordManual_moves_amount:
  assumes "recordManual_tx digest input ac now d = Inr (d', k)"
  shows "\<exists>i i'. find_invoice (sb_invoiceId input) d = Some i \<and> find_invoice (sb_invoiceId input) d' = Some i' \<and>
     payable_status (i_status i) \<and>
     i_amountPaid i' = i_amountPaid i + int (dec_val (sb_amount input)) \<and>
     i_balanceDue i' = i_balanceDue i - int (dec_val (sb_amount input)) \<and> 0 \<le> i_balanceDue i' \<and>
     (i_status i' = Inv_PAID \<longleftrightarrow> i_balanceDue i' = 0) \<and>
     (\<not> readSettings d \<longrightarrow> i_balanceDue i' = 0)"
  using assms
proof (rule recordManual_tx_cases)
  fix i :: invoice and d1 d2
  assume i: "find_invoice (sb_invoiceId input) d = Some i"
    and pay: "assertPayableAmount d i (int (dec_val (sb_amount input))) = Inr ()"
    and cr: "create_payment ((chargeData digest input (actor_userId ac) True (i_currency i) now)
           \<lparr>p_reviewedByUserId := Some (actor_userId ac), p_reviewedAt := Some now,
            p_verifiedAt := Some now\<rparr>) d = Inr (d1, k)"
    and upd: "update_invoice now (i_id i) (charge_update i (int (dec_val (sb_amount input))) now) d1 = Inr (d2, ())"
    and d': "ledger_of d' = ledger_of d2"
  have id: "i_id i = sb_invoiceId input" using i by (rule find_invoice_idD)
  have "find_invoice (i_id i) d1 = Some i"
    using cr i id by (auto elim!: create_payment_cases simp: find_invoice_def)
  from applyVerifiedCharge_row [OF upd this] i id pay d' show ?thesis
    by (auto simp: find_invoice_row result_simps payable_status_def)
qed

theorem recordManual_moves_amount_witness:
  "case recordManual_tx (\<lambda>x. x) sample_submit sample_actor 9 unpaid_db of
     Inl _ \<Rightarrow> False
   | Inr (d', _) \<Rightarrow> \<exists>i. find_invoice ''i'' d' = Some i \<and> i_status i = Inv_PAID"
proof -
  have "case recordManual_tx (\<lambda>x. x) sample_submit sample_actor 9 unpaid_db of
     Inl _ \<Rightarrow> False | Inr _ \<Rightarrow> True"
    by code_simp
  moreover have "\<not> readSettings unpaid_db" by code_simp
  ultimately show ?thesis
    using recordManual_moves_amount [of "\<lambda>x. x" sample_submit sample_actor 9 unpaid_db]
    by (force simp: sample_submit_def split: sum.splits)
qed

end
