(* ===== verification/Gateways.thy ===== *)
theory Gateways
  imports Payments
begin

text \<open>
  Payments through a provider: \<^verbatim>\<open>apps/api/src/modules/payment-gateways/payment-gateway.service.ts\<close>.
  The provider adapters implement the interface of \<^verbatim>\<open>payment-gateway.interface.ts\<close>, here the
  record \<open>gateway\<close> of the answers they give; a handler that waits for an answer is the steps
  before and after it, so that other transactions may commit in between. The hash of a webhook
  body and of an event is the parameter \<open>digest\<close>.
\<close>

section \<open>Adapters\<close>

datatype event_status = Ev_PENDING | Ev_SUCCEEDED | Ev_FAILED

record gateway_event =
  ev_providerEventId :: string
  ev_eventType :: string
  ev_status :: event_status
  ev_merchantId :: string
  ev_paymentId :: uuid
  ev_invoiceId :: uuid
  ev_amount :: string
  ev_currency :: string
  ev_providerTransactionId :: "string option"
  ev_occurredAt :: instant
  ev_failureReason :: "string option"

datatype provider_status = Prov_PENDING | Prov_SUCCEEDED | Prov_FAILED | Prov_REFUNDED

record gateway_status =
  gs_providerTransactionId :: "string option"
  gs_status :: provider_status
  gs_amount :: int
  gs_currency :: string
  gs_occurredAt :: instant
  gs_failureReason :: "string option"

record gateway_session =
  ss_providerSessionId :: string
  ss_checkoutUrl :: string
  ss_expiresAt :: instant

record customer_address =
  ad_line1 :: string
  ad_line2 :: "string option"
  ad_city :: string
  ad_region :: "string option"
  ad_postalCode :: "string option"
  ad_countryCode :: string

record session_request =
  sr_paymentId :: uuid
  sr_invoiceId :: uuid
  sr_invoiceNumber :: string
  sr_amount :: int
  sr_currency :: string
  sr_customerName :: string
  sr_customerEmail :: string
  sr_customerAddress :: customer_address
  sr_idempotencyKey :: string

record complete_input =
  ci_providerSessionId :: string
  ci_paymentId :: uuid
  ci_invoiceId :: uuid
  ci_amount :: int
  ci_currency :: string

datatype provider_outcome = Outcome_FAILED | Outcome_UNKNOWN

datatype provider_failure =
    Provider_Error string provider_outcome
  | Other_Failure string

record gateway =
  gw_key :: string
  gw_merchantId :: string
  gw_create :: "session_request \<Rightarrow> provider_failure + gateway_session"
  gw_verify :: "string \<Rightarrow> string \<Rightarrow> bool"
  gw_normalize :: "string \<Rightarrow> gateway_event option"
  gw_query :: "string \<Rightarrow> provider_failure + gateway_status"
  gw_extract :: "gateway_event \<Rightarrow> string option"
  gw_complete :: "(complete_input \<Rightarrow> provider_failure + gateway_event) option"

section \<open>Starting a session\<close>

definition canAccessInvoice :: "uuid \<Rightarrow> actor \<Rightarrow> bool" where
  "canAccessInvoice customerId ac \<longleftrightarrow> actor_role ac = ADMIN \<or> actor_customerId ac = Some customerId"

definition session_key :: "string \<Rightarrow> string \<Rightarrow> string" where
  "session_key provider submissionKey = ''gateway-session:'' @ provider @ '':'' @ submissionKey"

definition address_field :: "json \<Rightarrow> string \<Rightarrow> bool \<Rightarrow> api_error + string option" where
  "address_field v key required =
     (case jfield key v of
        Some (JStr s) \<Rightarrow>
          if js_trim s \<noteq> [] then Inr (Some (js_trim s))
          else if \<not> required \<and> s = [] then Inr None
          else Inl (Unprocessable ''Invoice billing address is invalid.'')
      | Some JNull \<Rightarrow>
          if \<not> required then Inr None else Inl (Unprocessable ''Invoice billing address is invalid.'')
      | None \<Rightarrow>
          if \<not> required then Inr None else Inl (Unprocessable ''Invoice billing address is invalid.'')
      | _ \<Rightarrow> Inl (Unprocessable ''Invoice billing address is invalid.''))"

definition required_field :: "json \<Rightarrow> string \<Rightarrow> api_error + string" where
  "required_field v key =
     rbind (address_field v key True) (\<lambda>f. case f of Some s \<Rightarrow> Inr s | None \<Rightarrow> Inr [])"

definition customerAddress :: "json \<Rightarrow> api_error + customer_address" where
  "customerAddress v =
     (case v of
        JObj _ \<Rightarrow>
          rbind (required_field v ''line1'') (\<lambda>line1.
          rbind (address_field v ''line2'' False) (\<lambda>line2.
          rbind (required_field v ''city'') (\<lambda>city.
          rbind (address_field v ''region'' False) (\<lambda>region.
          rbind (address_field v ''postalCode'' False) (\<lambda>postalCode.
          rbind (required_field v ''countryCode'') (\<lambda>countryCode.
          Inr \<lparr>ad_line1 = line1, ad_line2 = line2, ad_city = city, ad_region = region,
               ad_postalCode = postalCode, ad_countryCode = countryCode\<rparr>))))))
      | _ \<Rightarrow> Inl (Unprocessable ''Invoice billing address is invalid.''))"

definition assertMatchingSession ::
    "db \<Rightarrow> payment \<Rightarrow> string \<Rightarrow> uuid \<Rightarrow> actor \<Rightarrow> api_error + unit" where
  "assertMatchingSession d p provider invoiceId ac =
     (if p_invoiceId p \<noteq> invoiceId \<or> p_provider p \<noteq> provider \<or>
         p_createdByUserId p \<noteq> Some (actor_userId ac) \<or>
         \<not> (case find_invoice (p_invoiceId p) d of
              None \<Rightarrow> False | Some i \<Rightarrow> canAccessInvoice (i_customerId i) ac)
      then Inl (Conflict ''This submission key has already been used for another payment session.'')
      else if p_status p \<noteq> Pay_PENDING
      then Inl (Conflict ''This payment session has already reached a final state.'')
      else Inr ())"

definition session_row :: "string \<Rightarrow> string \<Rightarrow> invoice \<Rightarrow> actor \<Rightarrow> payment" where
  "session_row provider key i ac =
     \<lparr>p_id = [], p_invoiceId = i_id i, p_originalPaymentId = None,
      p_createdByUserId = Some (actor_userId ac), p_reviewedByUserId = None, p_kind = CHARGE,
      p_status = Pay_PENDING, p_provider = provider, p_providerTransactionId = None,
      p_idempotencyKey = key, p_amount = i_balanceDue i, p_currency = i_currency i,
      p_reference = None, p_checkoutUrl = None, p_sessionExpiresAt = None, p_manualMethod = None,
      p_proofMetadata = None, p_failureReason = None, p_receivedAt = None, p_reviewedAt = None,
      p_verifiedAt = None\<rparr>"

definition openSession_tx :: "string \<Rightarrow> uuid \<Rightarrow> string \<Rightarrow> actor \<Rightarrow> payment tx" where
  "openSession_tx provider invoiceId key ac d =
     (case find_invoice invoiceId d of
        None \<Rightarrow> Inl (Not_Found ''Invoice was not found.'')
      | Some i \<Rightarrow>
        if \<not> canAccessInvoice (i_customerId i) ac then Inl (Not_Found ''Invoice was not found.'')
        else if i_status i \<noteq> Inv_UNPAID \<and> i_status i \<noteq> Inv_OVERDUE
        then Inl (Unprocessable ''Only an unpaid or overdue invoice can start a payment session.'')
        else if i_balanceDue i \<le> 0
        then Inl (Unprocessable ''The invoice does not have a payable balance.'')
        else
          rbind (create_payment (session_row provider key i ac) d) (\<lambda>(d1, k).
          let d2 = log_activity (admin_activity ac ''GATEWAY_PAYMENT_SESSION_CREATED'' ''PAYMENT'' (Some k)
                     [(''invoiceId'', JStr (i_id i)), (''provider'', JStr provider),
                      (''amount'', JStr (bigint_to_string (i_balanceDue i))),
                      (''currency'', JStr (i_currency i))]) d1
          in rbind (of_option (Server_Error ''Created payment could not be loaded.'')
                      (find_payment_by_key key d2)) (\<lambda>created. Inr (d2, created))))"

definition session_in_progress :: string where
  "session_in_progress = ''Checkout creation is in progress.''"

definition claimSession :: "uuid \<Rightarrow> db \<Rightarrow> db \<times> nat" where
  \<comment> \<open>\<open>updateMany\<close> of the payment while it has neither a session nor a failure\<close>
  "claimSession k d =
     (let P = (\<lambda>p. p_id p = k \<and> p_reference p = None \<and> p_failureReason p = None)
      in (d\<lparr>d_payments := update_many P (\<lambda>p. p\<lparr>p_failureReason := Some session_in_progress\<rparr>) (d_payments d)\<rparr>,
          count_where P (d_payments d)))"

definition storeSession :: "uuid \<Rightarrow> gateway_session \<Rightarrow> db \<Rightarrow> db" where
  "storeSession k s d =
     d\<lparr>d_payments := update_many (\<lambda>p. p_id p = k \<and> p_reference p = None)
         (\<lambda>p. p\<lparr>p_reference := Some (ss_providerSessionId s), p_checkoutUrl := Some (ss_checkoutUrl s),
               p_sessionExpiresAt := Some (ss_expiresAt s), p_failureReason := None\<rparr>) (d_payments d)\<rparr>"

definition failure_update :: "string \<Rightarrow> provider_outcome \<Rightarrow> payment \<Rightarrow> payment" where
  "failure_update message outcome p =
     p\<lparr>p_status := (if outcome = Outcome_FAILED then Pay_FAILED else Pay_PENDING),
       p_failureReason := Some message\<rparr>"

definition failSession :: "uuid \<Rightarrow> string \<Rightarrow> provider_outcome \<Rightarrow> unit tx" where
  \<comment> \<open>the unconditional \<open>payment.update\<close> after the provider refused\<close>
  "failSession k message outcome d = update_payment k (failure_update message outcome) d"

definition unexpected_response :: string where
  "unexpected_response = ''The payment provider returned an unexpected response. Reconciliation is required before retrying.''"

definition session_failure :: "provider_failure \<Rightarrow> string \<times> provider_outcome" where
  "session_failure e =
     (case e of Provider_Error m out \<Rightarrow> (m, out) | Other_Failure _ \<Rightarrow> (unexpected_response, Outcome_UNKNOWN))"

record session_result =
  sx_paymentId :: uuid
  sx_providerSessionId :: string
  sx_checkoutUrl :: string
  sx_expiresAt :: instant
  sx_duplicate :: bool

definition session_answer ::
    "gateway \<Rightarrow> payment \<Rightarrow> string \<Rightarrow> bool \<Rightarrow> session_result handler" where
  \<comment> \<open>from the claim of the payment to the stored session\<close>
  "session_answer gw p key duplicate d =
     (case find_invoice (p_invoiceId p) d of
        None \<Rightarrow> (d, Inl (Server_Error ''The invoice of a payment is required.''))
      | Some i \<Rightarrow>
        (case customerAddress (sn_customerAddress (i_snapshot i)) of
           Inl e \<Rightarrow> (d, Inl e)
         | Inr address \<Rightarrow>
           (case claimSession (p_id p) d of (d1, claimed) \<Rightarrow>
             if claimed \<noteq> 1
             then (d1, Inl (Conflict
               ''This checkout is already being created or requires administrator reconciliation.''))
             else
               (case gw_create gw \<lparr>sr_paymentId = p_id p, sr_invoiceId = p_invoiceId p,
                       sr_invoiceNumber = i_number i, sr_amount = p_amount p, sr_currency = p_currency p,
                       sr_customerName = sn_customerName (i_snapshot i),
                       sr_customerEmail = sn_customerEmail (i_snapshot i),
                       sr_customerAddress = address, sr_idempotencyKey = key\<rparr> of
                  Inl e \<Rightarrow>
                    (case session_failure e of (message, outcome) \<Rightarrow>
                      (case run_tx (failSession (p_id p) message outcome) d1 of
                         (d2, Inl e') \<Rightarrow> (d2, Inl e')
                       | (d2, Inr _) \<Rightarrow> (d2, Inl (Service_Unavailable message))))
                | Inr s \<Rightarrow>
                  (storeSession (p_id p) s d1,
                   Inr \<lparr>sx_paymentId = p_id p, sx_providerSessionId = ss_providerSessionId s,
                        sx_checkoutUrl = ss_checkoutUrl s, sx_expiresAt = ss_expiresAt s,
                        sx_duplicate = duplicate\<rparr>)))))"

definition session_resume ::
    "gateway \<Rightarrow> payment \<Rightarrow> string \<Rightarrow> bool \<Rightarrow> instant \<Rightarrow> session_result handler" where
  \<comment> \<open>a stored session of a repeated request is returned as it is\<close>
  "session_resume gw p key duplicate now d =
     (case (duplicate, p_reference p, p_checkoutUrl p, p_sessionExpiresAt p) of
        (True, Some reference, Some url, Some expiresAt) \<Rightarrow>
          if reference \<noteq> [] \<and> url \<noteq> []
          then if expiresAt \<le> now
               then (d, Inl (Conflict ''This checkout session has expired. Start a new payment attempt.''))
               else (d, Inr \<lparr>sx_paymentId = p_id p, sx_providerSessionId = reference,
                             sx_checkoutUrl = url, sx_expiresAt = expiresAt, sx_duplicate = True\<rparr>)
          else session_answer gw p key duplicate d
      | _ \<Rightarrow> session_answer gw p key duplicate d)"

definition createSession ::
    "gateway \<Rightarrow> uuid \<Rightarrow> string \<Rightarrow> actor \<Rightarrow> instant \<Rightarrow> session_result handler" where
  "createSession gw invoiceId submissionKey ac now d =
     (let key = session_key (gw_key gw) submissionKey
      in case find_payment_by_key key d of
           Some p \<Rightarrow>
             (case assertMatchingSession d p (gw_key gw) invoiceId ac of
                Inl e \<Rightarrow> (d, Inl e)
              | Inr _ \<Rightarrow> session_resume gw p key True now d)
         | None \<Rightarrow>
           (case run_tx (openSession_tx (gw_key gw) invoiceId key ac) d of
              (d1, Inr p) \<Rightarrow> session_resume gw p key False now d1
            | (d1, Inl e) \<Rightarrow>
              if e \<noteq> Unique_Violation then (d1, Inl e)
              else (case find_payment_by_key key d1 of
                      None \<Rightarrow> (d1, Inl e)
                    | Some p \<Rightarrow>
                      (case assertMatchingSession d1 p (gw_key gw) invoiceId ac of
                         Inl e' \<Rightarrow> (d1, Inl e')
                       | Inr _ \<Rightarrow> session_resume gw p key True now d1))))"


section \<open>Events\<close>

record webhook_result =
  wr_duplicate :: bool
  wr_providerEventId :: string
  wr_processed :: bool
    \<comment> \<open>\<open>status\<close> PROCESSED, or else IGNORED\<close>

datatype webhook_outcome = Wh_Processed | Wh_Ignored | Wh_Rejected string

fun event_status_name :: "event_status \<Rightarrow> string" where
  "event_status_name Ev_PENDING = ''PENDING''"
| "event_status_name Ev_SUCCEEDED = ''SUCCEEDED''"
| "event_status_name Ev_FAILED = ''FAILED''"

definition normalizedPayload :: "gateway_event \<Rightarrow> json" where
  "normalizedPayload e =
     JObj [(''providerEventId'', JStr (ev_providerEventId e)), (''eventType'', JStr (ev_eventType e)),
           (''status'', JStr (event_status_name (ev_status e))), (''merchantId'', JStr (ev_merchantId e)),
           (''paymentId'', JStr (ev_paymentId e)), (''invoiceId'', JStr (ev_invoiceId e)),
           (''amount'', JStr (ev_amount e)), (''currency'', JStr (ev_currency e)),
           (''providerTransactionId'', jstr_opt (ev_providerTransactionId e)),
           (''occurredAt'', JNum (ev_occurredAt e)), (''failureReason'', jstr_opt (ev_failureReason e))]"

definition eventIdempotencyKey :: "(string \<Rightarrow> string) \<Rightarrow> string \<Rightarrow> string \<Rightarrow> string" where
  "eventIdempotencyKey digest provider providerEventId =
     ''gateway-event:'' @ digest (provider @ '':'' @ providerEventId)"

definition find_event :: "string \<Rightarrow> string \<Rightarrow> db \<Rightarrow> payment_event option" where
  "find_event provider providerEventId d =
     List.find (\<lambda>e. e_provider e = provider \<and> e_providerEventId e = providerEventId) (d_paymentEvents d)"

definition create_event :: "payment_event \<Rightarrow> uuid tx" where
  "create_event row d =
     (let k = fresh_uuid d
      in if list_ex (\<lambda>e. e_id e = k \<or> e_idempotencyKey e = e_idempotencyKey row \<or>
              (e_provider e = e_provider row \<and> e_providerEventId e = e_providerEventId row)) (d_paymentEvents d)
         then Inl Unique_Violation
         else Inr (d\<lparr>d_paymentEvents := d_paymentEvents d @ [row\<lparr>e_id := k\<rparr>],
                     d_supply := Suc (d_supply d)\<rparr>, k))"

definition update_event :: "uuid \<Rightarrow> (payment_event \<Rightarrow> payment_event) \<Rightarrow> db \<Rightarrow> db" where
  "update_event k f d = d\<lparr>d_paymentEvents := update_many (\<lambda>e. e_id e = k) f (d_paymentEvents d)\<rparr>"

definition rejectStoredEvent :: "uuid \<Rightarrow> string \<Rightarrow> instant \<Rightarrow> db \<Rightarrow> db" where
  "rejectStoredEvent k message now d =
     update_event k (\<lambda>e. e\<lparr>e_status := Evt_FAILED, e_errorMessage := Some message,
                           e_processedAt := Some now\<rparr>) d"

definition validateEvent ::
    "gateway \<Rightarrow> gateway_event \<Rightarrow> invoice option \<Rightarrow> payment option \<Rightarrow> db \<Rightarrow> string option" where
  "validateEvent gw e found pay d =
     (case (found, pay) of
        (Some i, Some p) \<Rightarrow>
          if p_invoiceId p \<noteq> ev_invoiceId e \<or> p_provider p \<noteq> gw_key gw \<or> p_kind p \<noteq> CHARGE
          then Some ''Invoice or payment identity is invalid.''
          else if bigint_to_string (p_amount p) \<noteq> ev_amount e
          then Some ''Payment amount does not match the expected amount.''
          else if p_currency p \<noteq> ev_currency e \<or> i_currency i \<noteq> ev_currency e
          then Some ''Payment currency does not match the invoice currency.''
          else if (case gw_extract gw e of
                     None \<Rightarrow> False
                   | Some t \<Rightarrow> t \<noteq> [] \<and> list_ex (\<lambda>q. p_provider q = gw_key gw \<and>
                       p_providerTransactionId q = Some t \<and> p_id q \<noteq> p_id p) (d_payments d))
          then Some ''Provider transaction has already been recorded.''
          else if p_status p \<noteq> Pay_PENDING then Some ''Payment has already reached a final state.''
          else if ev_status e = Ev_SUCCEEDED \<and> i_status i \<noteq> Inv_UNPAID \<and> i_status i \<noteq> Inv_OVERDUE
          then Some ''Invoice is not payable.''
          else if ev_status e = Ev_SUCCEEDED \<and> i_balanceDue i \<noteq> p_amount p
          then Some ''Invoice balance no longer matches the payment session.''
          else None
      | _ \<Rightarrow> Some ''Invoice or payment identity is invalid.'')"

definition system_activity :: "string \<Rightarrow> string \<Rightarrow> uuid option \<Rightarrow> (string \<times> json) list \<Rightarrow> activity" where
  "system_activity action entityType entityId metadata =
     \<lparr>a_actorUserId = None, a_action = action, a_entityType = entityType, a_entityId = entityId,
      a_correlationId = None, a_metadata = metadata\<rparr>"

definition settle_update :: "invoice \<Rightarrow> int \<Rightarrow> instant \<Rightarrow> invoice \<Rightarrow> invoice" where
  "settle_update i amount now r =
     r\<lparr>i_amountPaid := i_amountPaid i + amount, i_balanceDue := i_balanceDue i - amount,
       i_status := Inv_PAID, i_paidAt := Some now\<rparr>"

definition settleInvoice :: "invoice \<Rightarrow> uuid \<Rightarrow> int \<Rightarrow> instant \<Rightarrow> unit tx" where
  "settleInvoice i paymentId amount now d =
     rbind (update_invoice now (i_id i) (settle_update i amount now) d) (\<lambda>(d1, _).
       Inr (pay_order now (i_orderId i)
              (system_activity ''ORDER_MARKED_PAID_BY_VERIFIED_PAYMENT'' ''ORDER'' (i_orderId i)
                 [(''invoiceId'', JStr (i_id i)), (''paymentId'', JStr paymentId)]) d1, ()))"

definition completeEventAndOutbox ::
    "uuid \<Rightarrow> gateway_event \<Rightarrow> string \<Rightarrow> uuid \<Rightarrow> uuid \<Rightarrow> bool \<Rightarrow> instant \<Rightarrow> unit tx" where
  "completeEventAndOutbox eventId e provider paymentId invoiceId succeeded now d =
     (let d1 = update_event eventId (\<lambda>r. r\<lparr>e_status := Evt_PROCESSED, e_processedAt := Some now\<rparr>) d
      in rbind (create_outbox now ''PAYMENT'' paymentId
              (if succeeded then ''GATEWAY_PAYMENT_SUCCEEDED'' else ''GATEWAY_PAYMENT_FAILED'')
              (''payment-webhook:'' @ eventId)
              (JObj [(''paymentId'', JStr paymentId), (''invoiceId'', JStr invoiceId),
                     (''provider'', JStr provider), (''providerEventId'', JStr (ev_providerEventId e)),
                     (''providerTransactionId'', jstr_opt (ev_providerTransactionId e)),
                     (''amount'', JStr (ev_amount e)), (''currency'', JStr (ev_currency e))]) d1) (\<lambda>(d2, _).
         if \<not> succeeded then Inr (d2, ())
         else rbind (create_outbox now ''PAYMENT'' paymentId ''EMAIL_PAYMENT_RECEIVED''
                (''email:payment-received:'' @ paymentId) (payment_payload paymentId invoiceId) d2) (\<lambda>(d3, _).
              if 0 < renewal_items invoiceId d3
              then create_outbox now ''PAYMENT'' paymentId ''RENEWAL_PAYMENT_COMPLETED''
                     (''renewal-payment:'' @ paymentId) (payment_payload paymentId invoiceId) d3
              else Inr (d3, ()))))"

definition event_row :: "(string \<Rightarrow> string) \<Rightarrow> gateway \<Rightarrow> gateway_event \<Rightarrow> string \<Rightarrow> payment_event" where
  "event_row digest gw e payloadHash =
     \<lparr>e_id = [], e_paymentId = None, e_provider = gw_key gw, e_providerEventId = ev_providerEventId e,
      e_idempotencyKey = eventIdempotencyKey digest (gw_key gw) (ev_providerEventId e),
      e_eventType = ev_eventType e, e_status = Evt_RECEIVED, e_payloadHash = payloadHash,
      e_normalizedPayload = normalizedPayload e, e_errorMessage = None, e_processedAt = None\<rparr>"

definition note_failure :: "string \<Rightarrow> payment \<Rightarrow> payment" where
  "note_failure message p = p\<lparr>p_failureReason := Some message\<rparr>"

definition refuseEvent :: "payment option \<Rightarrow> uuid \<Rightarrow> string \<Rightarrow> instant \<Rightarrow> webhook_outcome tx" where
  \<comment> \<open>a failed validation is noted on the payment while it is pending, and on the event\<close>
  "refuseEvent pay eventId message now d =
     rbind (case pay of
              Some p \<Rightarrow> if p_status p = Pay_PENDING then update_payment (p_id p) (note_failure message) d
                        else Inr (d, ())
            | None \<Rightarrow> Inr (d, ())) (\<lambda>(d1, _).
       Inr (rejectStoredEvent eventId message now d1, Wh_Rejected message))"

definition ignoreEvent :: "gateway_event \<Rightarrow> payment \<Rightarrow> uuid \<Rightarrow> instant \<Rightarrow> webhook_outcome tx" where
  "ignoreEvent e p eventId now d =
     rbind (case ev_failureReason e of
              Some m \<Rightarrow> if m \<noteq> [] then update_payment (p_id p) (note_failure m) d else Inr (d, ())
            | None \<Rightarrow> Inr (d, ())) (\<lambda>(d1, _).
       Inr (update_event eventId (\<lambda>r. r\<lparr>e_status := Evt_IGNORED, e_processedAt := Some now\<rparr>) d1,
            Wh_Ignored))"

definition fail_update :: "gateway_event \<Rightarrow> payment \<Rightarrow> payment" where
  "fail_update e p =
     p\<lparr>p_status := Pay_FAILED,
       p_failureReason := Some (case ev_failureReason e of
           Some m \<Rightarrow> m | None \<Rightarrow> ''Provider reported payment failure.''),
       p_receivedAt := Some (ev_occurredAt e)\<rparr>"

definition event_metadata :: "gateway \<Rightarrow> gateway_event \<Rightarrow> invoice \<Rightarrow> (string \<times> json) list" where
  "event_metadata gw e i =
     [(''invoiceId'', JStr (i_id i)), (''provider'', JStr (gw_key gw)),
      (''providerEventId'', JStr (ev_providerEventId e))]"

definition failEvent ::
    "gateway \<Rightarrow> gateway_event \<Rightarrow> invoice \<Rightarrow> payment \<Rightarrow> uuid \<Rightarrow> instant \<Rightarrow> webhook_outcome tx" where
  "failEvent gw e i p eventId now d =
     rbind (update_payment (p_id p) (fail_update e) d) (\<lambda>(d1, _).
     rbind (completeEventAndOutbox eventId e (gw_key gw) (p_id p) (i_id i) False now d1) (\<lambda>(d2, _).
     Inr (log_activity (system_activity ''GATEWAY_PAYMENT_FAILED'' ''PAYMENT'' (Some (p_id p))
            (event_metadata gw e i)) d2, Wh_Processed)))"

definition success_update :: "string \<Rightarrow> gateway_event \<Rightarrow> instant \<Rightarrow> payment \<Rightarrow> payment" where
  "success_update transactionId e now p =
     p\<lparr>p_status := Pay_SUCCEEDED, p_providerTransactionId := Some transactionId,
       p_receivedAt := Some (ev_occurredAt e), p_verifiedAt := Some now, p_failureReason := None\<rparr>"

definition settleEvent ::
    "gateway \<Rightarrow> gateway_event \<Rightarrow> invoice \<Rightarrow> payment \<Rightarrow> uuid \<Rightarrow> instant \<Rightarrow> webhook_outcome tx" where
  "settleEvent gw e i p eventId now d =
     (let rejection = ''Successful event does not contain a transaction identifier.''
      in case gw_extract gw e of
           None \<Rightarrow> Inr (rejectStoredEvent eventId rejection now d, Wh_Rejected rejection)
         | Some t \<Rightarrow>
           if t = [] then Inr (rejectStoredEvent eventId rejection now d, Wh_Rejected rejection)
           else
             rbind (update_payment (p_id p) (success_update t e now) d) (\<lambda>(d1, _).
             rbind (settleInvoice i (p_id p) (p_amount p) now d1) (\<lambda>(d2, _).
             rbind (completeEventAndOutbox eventId e (gw_key gw) (p_id p) (i_id i) True now d2) (\<lambda>(d3, _).
             Inr (log_activity (system_activity ''GATEWAY_PAYMENT_VERIFIED'' ''PAYMENT'' (Some (p_id p))
                    (event_metadata gw e i @ [(''amount'', JStr (bigint_to_string (p_amount p))),
                                              (''balanceDue'', JStr ''0'')])) d3, Wh_Processed)))))"

definition applyEvent ::
    "gateway \<Rightarrow> gateway_event \<Rightarrow> invoice \<Rightarrow> payment \<Rightarrow> uuid \<Rightarrow> instant \<Rightarrow> webhook_outcome tx" where
  \<comment> \<open>the validated event, by its status\<close>
  "applyEvent gw e i p eventId now d =
     (let d1 = update_event eventId (\<lambda>r. r\<lparr>e_paymentId := Some (p_id p)\<rparr>) d
      in case ev_status e of
           Ev_PENDING \<Rightarrow> ignoreEvent e p eventId now d1
         | Ev_FAILED \<Rightarrow> failEvent gw e i p eventId now d1
         | Ev_SUCCEEDED \<Rightarrow> settleEvent gw e i p eventId now d1)"

definition processEvent_tx ::
    "(string \<Rightarrow> string) \<Rightarrow> gateway \<Rightarrow> gateway_event \<Rightarrow> string \<Rightarrow> instant \<Rightarrow> webhook_outcome tx" where
  "processEvent_tx digest gw e payloadHash now d =
     rbind (create_event (event_row digest gw e payloadHash) d) (\<lambda>(d1, eventId).
       if ev_merchantId e \<noteq> gw_merchantId gw
       then (let message = ''Merchant identity does not match this gateway.''
             in Inr (rejectStoredEvent eventId message now d1, Wh_Rejected message))
       else
         (let found = find_invoice (ev_invoiceId e) d1; pay = find_payment (ev_paymentId e) d1
          in case validateEvent gw e found pay d1 of
               Some message \<Rightarrow> refuseEvent pay eventId message now d1
             | None \<Rightarrow>
               (case (found, pay) of
                  (Some i, Some p) \<Rightarrow> applyEvent gw e i p eventId now d1
                | _ \<Rightarrow> Inl (Server_Error ''Validated financial records could not be loaded.''))))"

definition replay :: "payment_event \<Rightarrow> string \<Rightarrow> gateway_event \<Rightarrow> api_error + webhook_result" where
  "replay existing payloadHash e =
     (if e_payloadHash existing \<noteq> payloadHash
      then Inl (Webhook_Rejected ''Provider event identifier was reused with different content.'' False)
      else if e_status existing = Evt_FAILED
      then Inl (Webhook_Rejected (case e_errorMessage existing of
                  Some m \<Rightarrow> m | None \<Rightarrow> ''Provider event was previously rejected.'') False)
      else Inr \<lparr>wr_duplicate = True, wr_providerEventId = ev_providerEventId e,
                wr_processed = (e_status existing \<noteq> Evt_IGNORED)\<rparr>)"

definition processNormalizedEvent ::
    "(string \<Rightarrow> string) \<Rightarrow> gateway \<Rightarrow> gateway_event \<Rightarrow> string \<Rightarrow> instant \<Rightarrow> webhook_result handler" where
  "processNormalizedEvent digest gw e payloadHash now d =
     (case find_event (gw_key gw) (ev_providerEventId e) d of
        Some existing \<Rightarrow> (d, replay existing payloadHash e)
      | None \<Rightarrow>
        (case run_tx (processEvent_tx digest gw e payloadHash now) d of
           (d', Inr (Wh_Rejected message)) \<Rightarrow> (d', Inl (Webhook_Rejected message False))
         | (d', Inr outcome) \<Rightarrow>
             (d', Inr \<lparr>wr_duplicate = False, wr_providerEventId = ev_providerEventId e,
                       wr_processed = (outcome = Wh_Processed)\<rparr>)
         | (d', Inl err) \<Rightarrow>
             if err \<noteq> Unique_Violation then (d', Inl err)
             else (case find_event (gw_key gw) (ev_providerEventId e) d' of
                     Some raced \<Rightarrow> (d', replay raced payloadHash e)
                   | None \<Rightarrow>
                     (d', Inl (Webhook_Rejected ''Provider transaction has already been recorded.'' False)))))"

definition MAX_WEBHOOK_BYTES :: nat where "MAX_WEBHOOK_BYTES = 256 * 1024"

definition processWebhook ::
    "(string \<Rightarrow> string) \<Rightarrow> gateway \<Rightarrow> string \<Rightarrow> string \<Rightarrow> instant \<Rightarrow> webhook_result handler" where
  "processWebhook digest gw rawBody signature now d =
     (if length rawBody = 0 \<or> length rawBody > MAX_WEBHOOK_BYTES
      then (d, Inl (Webhook_Rejected ''Webhook body is missing or too large.'' False))
      else if \<not> gw_verify gw rawBody signature
      then (d, Inl (Webhook_Rejected ''Webhook signature is invalid.'' True))
      else (case gw_normalize gw rawBody of
              None \<Rightarrow> (d, Inl (Webhook_Rejected ''Webhook payload is invalid.'' False))
            | Some e \<Rightarrow> processNormalizedEvent digest gw e (digest rawBody) now d))"


section \<open>Callbacks and reconciliation\<close>

fun provider_status_name :: "provider_status \<Rightarrow> string" where
  "provider_status_name Prov_PENDING = ''PENDING''"
| "provider_status_name Prov_SUCCEEDED = ''SUCCEEDED''"
| "provider_status_name Prov_FAILED = ''FAILED''"
| "provider_status_name Prov_REFUNDED = ''REFUNDED''"

fun event_status_of :: "provider_status \<Rightarrow> event_status" where
  "event_status_of Prov_PENDING = Ev_PENDING"
| "event_status_of Prov_SUCCEEDED = Ev_SUCCEEDED"
| "event_status_of Prov_FAILED = Ev_FAILED"
| "event_status_of Prov_REFUNDED = Ev_FAILED"

definition bounded :: "nat \<Rightarrow> nat \<Rightarrow> string \<Rightarrow> bool" where
  "bounded lo hi s \<longleftrightarrow> lo \<le> length s \<and> length s \<le> hi"

definition event_schema :: "gateway_event \<Rightarrow> bool" where
  \<comment> \<open>\<open>normalizedPaymentEventSchema\<close>, whose identifiers are columns of UUID type here\<close>
  "event_schema e \<longleftrightarrow>
     bounded 1 191 (ev_providerEventId e) \<and> bounded 1 100 (ev_eventType e) \<and>
     bounded 1 191 (ev_merchantId e) \<and> minorUnitAmountSchema (ev_amount e) \<and> ev_amount e \<noteq> ''0'' \<and>
     currencyCodeSchema (ev_currency e) \<and>
     (case ev_providerTransactionId e of None \<Rightarrow> True | Some t \<Rightarrow> bounded 1 191 t) \<and>
     (case ev_failureReason e of None \<Rightarrow> True | Some m \<Rightarrow> bounded 1 500 (js_trim m))"

definition parse_event :: "gateway_event \<Rightarrow> provider_failure + gateway_event" where
  "parse_event e =
     (if event_schema e then Inr (e\<lparr>ev_failureReason := map_option js_trim (ev_failureReason e)\<rparr>)
      else Inl (Other_Failure ''ZodError''))"

definition status_event :: "gateway \<Rightarrow> string \<Rightarrow> payment \<Rightarrow> gateway_status \<Rightarrow> gateway_event" where
  \<comment> \<open>the event made of a queried status; \<open>prefix\<close> ends the identifier with the transaction or status\<close>
  "status_event gw event_prefix p s =
     \<lparr>ev_providerEventId = event_prefix @ '':'' @ (case gs_providerTransactionId s of
          Some t \<Rightarrow> t | None \<Rightarrow> provider_status_name (gs_status s)),
      ev_eventType = ''payment.'' @ js_lower (provider_status_name (gs_status s)),
      ev_status = event_status_of (gs_status s), ev_merchantId = gw_merchantId gw,
      ev_paymentId = p_id p, ev_invoiceId = p_invoiceId p, ev_amount = bigint_to_string (gs_amount s),
      ev_currency = gs_currency s, ev_providerTransactionId = gs_providerTransactionId s,
      ev_occurredAt = gs_occurredAt s, ev_failureReason = gs_failureReason s\<rparr>"

definition eventPayloadHash :: "(json \<Rightarrow> string) \<Rightarrow> gateway_event \<Rightarrow> string" where
  "eventPayloadHash json_digest e = json_digest (normalizedPayload e)"

definition callback_payment :: "gateway \<Rightarrow> string \<Rightarrow> db \<Rightarrow> payment option" where
  "callback_payment gw providerSessionId d =
     List.find (\<lambda>p. p_provider p = gw_key gw \<and> p_reference p = Some providerSessionId) (d_payments d)"

definition callback_answer ::
    "gateway \<Rightarrow> string \<Rightarrow> string \<Rightarrow> payment \<Rightarrow> provider_failure + gateway_event" where
  "callback_answer gw providerSessionId callbackStatus p =
     (case (callbackStatus = ''success'', gw_complete gw) of
        (True, Some complete) \<Rightarrow>
          complete \<lparr>ci_providerSessionId = providerSessionId, ci_paymentId = p_id p,
                    ci_invoiceId = p_invoiceId p, ci_amount = p_amount p, ci_currency = p_currency p\<rparr>
      | _ \<Rightarrow>
          rbind (gw_query gw providerSessionId) (\<lambda>s.
            parse_event (status_event gw (''bkash:'' @ providerSessionId) p s)))"

definition callback_commit ::
    "(string \<Rightarrow> string) \<Rightarrow> (json \<Rightarrow> string) \<Rightarrow> gateway \<Rightarrow> payment \<Rightarrow> provider_failure + gateway_event \<Rightarrow>
     instant \<Rightarrow> uuid handler" where
  \<comment> \<open>what is done with the provider's answer for the payment read before\<close>
  "callback_commit digest json_digest gw p answer now d =
     (case answer of
        Inl (Other_Failure m) \<Rightarrow> (d, Inl (Server_Error m))
      | Inl (Provider_Error m outcome) \<Rightarrow>
          (case run_tx (update_payment (p_id p) (failure_update m outcome)) d of
             (d', Inl e) \<Rightarrow> (d', Inl e) | (d', Inr _) \<Rightarrow> (d', Inr (p_invoiceId p)))
      | Inr e \<Rightarrow>
          (case processNormalizedEvent digest gw e (eventPayloadHash json_digest e) now d of
             (d', Inl err) \<Rightarrow> (d', Inl err) | (d', Inr _) \<Rightarrow> (d', Inr (p_invoiceId p))))"

definition completeBkashCallback ::
    "(string \<Rightarrow> string) \<Rightarrow> (json \<Rightarrow> string) \<Rightarrow> gateway \<Rightarrow> string \<Rightarrow> string \<Rightarrow> instant \<Rightarrow> uuid handler" where
  "completeBkashCallback digest json_digest gw providerSessionId callbackStatus now d =
     (case callback_payment gw providerSessionId d of
        None \<Rightarrow> (d, Inl (Not_Found ''Payment session was not found.''))
      | Some p \<Rightarrow>
        if p_status p \<noteq> Pay_PENDING then (d, Inr (p_invoiceId p))
        else callback_commit digest json_digest gw p
               (callback_answer gw providerSessionId callbackStatus p) now d)"

definition reconcile_event :: "gateway \<Rightarrow> payment \<Rightarrow> gateway_status \<Rightarrow> gateway_event" where
  "reconcile_event gw p s = status_event gw (''reconciliation:'' @ gw_key gw @ '':'' @ p_id p) p s"

definition reconcile_commit ::
    "(string \<Rightarrow> string) \<Rightarrow> (json \<Rightarrow> string) \<Rightarrow> gateway \<Rightarrow> payment \<Rightarrow> provider_failure + gateway_status \<Rightarrow>
     actor \<Rightarrow> instant \<Rightarrow> webhook_result handler" where
  "reconcile_commit digest json_digest gw p answer ac now d =
     (case answer of
        Inl (Other_Failure m) \<Rightarrow> (d, Inl (Server_Error m))
      | Inl (Provider_Error m _) \<Rightarrow>
          (case run_tx (update_payment (p_id p) (note_failure m)) d of
             (d', Inl e) \<Rightarrow> (d', Inl e) | (d', Inr _) \<Rightarrow> (d', Inl (Service_Unavailable m)))
      | Inr s \<Rightarrow>
          if gs_status s = Prov_REFUNDED
          then (d, Inl (Unprocessable ''Refund reconciliation is not part of this flow.''))
          else
            (case parse_event (reconcile_event gw p s) of
               Inl _ \<Rightarrow> (d, Inl (Server_Error ''ZodError''))
             | Inr e \<Rightarrow>
               (case processNormalizedEvent digest gw e (eventPayloadHash json_digest e) now d of
                  (d', Inl err) \<Rightarrow> (d', Inl err)
                | (d', Inr r) \<Rightarrow>
                  (log_activity (admin_activity ac ''GATEWAY_PAYMENT_RECONCILED'' ''PAYMENT'' (Some (p_id p))
                     [(''provider'', JStr (gw_key gw)),
                      (''status'', JStr (event_status_name (ev_status e)))]) d', Inr r))))"

definition reconcilePayment ::
    "(string \<Rightarrow> string) \<Rightarrow> (json \<Rightarrow> string) \<Rightarrow> gateway \<Rightarrow> uuid \<Rightarrow> actor \<Rightarrow> instant \<Rightarrow> webhook_result handler" where
  "reconcilePayment digest json_digest gw paymentId ac now d =
     (case find_payment paymentId d of
        None \<Rightarrow> (d, Inl (Not_Found ''Payment was not found.''))
      | Some p \<Rightarrow>
        if p_provider p \<noteq> gw_key gw then (d, Inl (Not_Found ''Payment was not found.''))
        else (case p_reference p of
            Some reference \<Rightarrow>
              if p_status p \<noteq> Pay_PENDING \<or> reference = []
              then (d, Inl (Conflict ''Only a pending gateway payment can be reconciled.''))
              else reconcile_commit digest json_digest gw p (gw_query gw reference) ac now d
          | None \<Rightarrow> (d, Inl (Conflict ''Only a pending gateway payment can be reconciled.''))))"

section \<open>The transactions refine the ledger\<close>

lemma gateway_ledger_simps [simp]:
  "ledger_of (update_event k f d) = ledger_of d"
  "ledger_of (rejectStoredEvent k m now d) = ledger_of d"
  by (simp_all add: update_event_def rejectStoredEvent_def)

lemma create_event_ledger: "create_event row d = Inr (d', k) \<Longrightarrow> ledger_of d' = ledger_of d"
  by (auto simp: create_event_def ledger_of_def Let_def split: if_splits)

lemma completeEventAndOutbox_ledger:
  "completeEventAndOutbox k e prov pid iid ok now d = Inr (d', u) \<Longrightarrow> ledger_of d' = ledger_of d"
  by (auto simp: completeEventAndOutbox_def Let_def result_simps dest!: create_outbox_ledger split: if_splits)

interpretation open_session: ledger_client "openSession_tx provider invoiceId key ac"
  for provider invoiceId key ac
proof
  fix d d' r
  assume run: "openSession_tx provider invoiceId key ac d = Inr (d', r)"
  then obtain i d1 k where i: "find_invoice invoiceId d = Some i" "payable_status (i_status i)"
    and cr: "create_payment (session_row provider key i ac) d = Inr (d1, k)"
    and d': "ledger_of d' = ledger_of d1"
    by (auto simp: openSession_tx_def Let_def result_simps payable_status_def split: option.splits if_splits)
  let ?p = "(session_row provider key i ac)\<lparr>p_id := k\<rparr>"
  from cr have p: "payment_check ?p" "k \<notin> p_id ` set (d_payments d)"
    and d1: "ledger_of d1 = (d_invoices d, d_payments d @ [?p])"
    by (rule create_payment_cases; simp add: ledger_of_def)+
  have "ledger_step (d_invoices d, d_payments d) (d_invoices d, d_payments d @ [?p])"
    by (rule take_payment [of _ _ _ i])
      (use p i find_invoice_idD [OF i(1)] in \<open>auto simp: session_row_def find_invoice_def\<close>)
  then show "ledger_steps (ledger_of d) (ledger_of d')"
    using d' d1 by (simp add: ledger_of_def r_into_rtranclp)
qed

lemma refuseEvent_refines:
  assumes "refuseEvent pay k m now d = Inr (d', r)"
    and "\<And>p. pay = Some p \<Longrightarrow> find_payment (p_id p) d = Some p"
  shows "ledger_steps (ledger_of d) (ledger_of d')"
proof (cases pay)
  case None
  with assms(1) show ?thesis by (auto simp: refuseEvent_def)
next
  case (Some p)
  show ?thesis
  proof (cases "p_status p = Pay_PENDING")
    case True
    with assms(1) Some obtain d1 where upd: "update_payment (p_id p) (note_failure m) d = Inr (d1, ())"
      and "ledger_of d' = ledger_of d1"
      by (auto simp: refuseEvent_def result_simps)
    moreover have "ledger_step (ledger_of d) (ledger_of d1)"
      by (rule update_payment_step [OF upd assms(2) [OF Some]]) (simp_all add: note_failure_def same_charge_def)
    ultimately show ?thesis by (simp add: r_into_rtranclp)
  next
    case False
    with assms(1) Some show ?thesis by (auto simp: refuseEvent_def)
  qed
qed

lemma ignoreEvent_refines:
  assumes "ignoreEvent e p k now d = Inr (d', r)" and "find_payment (p_id p) d = Some p"
  shows "ledger_steps (ledger_of d) (ledger_of d')"
proof (cases "\<exists>m. ev_failureReason e = Some m \<and> m \<noteq> []")
  case True
  then obtain m where "ev_failureReason e = Some m" "m \<noteq> []" by blast
  with assms(1) obtain d1 where upd: "update_payment (p_id p) (note_failure m) d = Inr (d1, ())"
    and "ledger_of d' = ledger_of d1"
    by (auto simp: ignoreEvent_def result_simps)
  moreover have "ledger_step (ledger_of d) (ledger_of d1)"
    by (rule update_payment_step [OF upd assms(2)]) (simp_all add: note_failure_def same_charge_def)
  ultimately show ?thesis by (simp add: r_into_rtranclp)
next
  case False
  with assms(1) show ?thesis by (auto simp: ignoreEvent_def split: option.splits)
qed

lemma failEvent_refines:
  assumes "failEvent gw e i p k now d = Inr (d', r)" and "find_payment (p_id p) d = Some p"
    and "p_status p = Pay_PENDING"
  shows "ledger_steps (ledger_of d) (ledger_of d')"
proof -
  from assms(1) obtain d1 where upd: "update_payment (p_id p) (fail_update e) d = Inr (d1, ())"
    and "ledger_of d' = ledger_of d1"
    by (auto simp: failEvent_def result_simps dest!: completeEventAndOutbox_ledger)
  moreover have "ledger_step (ledger_of d) (ledger_of d1)"
    by (rule update_payment_step [OF upd assms(2)]) (simp_all add: fail_update_def same_charge_def assms(3))
  ultimately show ?thesis by (simp add: r_into_rtranclp)
qed


definition settleable :: "gateway_event \<Rightarrow> invoice \<Rightarrow> payment \<Rightarrow> db \<Rightarrow> bool" where
  \<comment> \<open>what validation has established for an event that will settle\<close>
  "settleable e i p d \<longleftrightarrow>
     find_invoice (p_invoiceId p) d = Some i \<and> find_payment (p_id p) d = Some p \<and> p_kind p = CHARGE \<and>
     p_status p = Pay_PENDING \<and> payable_status (i_status i) \<and> i_balanceDue i = p_amount p"

lemma settleEvent_cases:
  assumes "settleEvent gw e i p k now d = Inr (d', r)"
  obtains m where "r = Wh_Rejected m" and "ledger_of d' = ledger_of d"
  | t d1 d2 where "r = Wh_Processed" and "gw_extract gw e = Some t" and "t \<noteq> []"
      and "update_payment (p_id p) (success_update t e now) d = Inr (d1, ())"
      and "update_invoice now (i_id i) (settle_update i (p_amount p) now) d1 = Inr (d2, ())"
      and "ledger_of d' = ledger_of d2"
proof (cases "gw_extract gw e")
  case None
  with assms that(1) show ?thesis by (auto simp: settleEvent_def Let_def)
next
  case (Some t)
  show ?thesis
  proof (cases "t = []")
    case True
    with Some assms that(1) show ?thesis by (auto simp: settleEvent_def Let_def)
  next
    case False
    with Some assms obtain d1 d2 d3 where "r = Wh_Processed"
      "update_payment (p_id p) (success_update t e now) d = Inr (d1, ())"
      "settleInvoice i (p_id p) (p_amount p) now d1 = Inr (d2, ())" "ledger_of d' = ledger_of d2"
      by (auto simp: settleEvent_def Let_def result_simps dest!: completeEventAndOutbox_ledger)
    moreover from this(3) obtain d4 where
      "update_invoice now (i_id i) (settle_update i (p_amount p) now) d1 = Inr (d4, ())"
      "ledger_of d2 = ledger_of d4"
      by (auto simp: settleInvoice_def result_simps)
    ultimately show ?thesis using that(2) [OF _ Some False] by metis
  qed
qed

lemma settleEvent_refines:
  assumes run: "settleEvent gw e i p k now d = Inr (d', r)" and ok: "settleable e i p d"
  shows "ledger_steps (ledger_of d) (ledger_of d')"
  using run
proof (rule settleEvent_cases)
  fix m assume "ledger_of d' = ledger_of d"
  then show ?thesis by simp
next
  fix t :: string and d1 d2
  let ?f = "success_update t e now"
  let ?g = "\<lambda>r. (settle_update i (p_amount p) now r)\<lparr>i_updatedAt := now\<rparr>"
  assume upd: "update_payment (p_id p) ?f d = Inr (d1, ())"
    and upi: "update_invoice now (i_id i) (settle_update i (p_amount p) now) d1 = Inr (d2, ())"
    and d': "ledger_of d' = ledger_of d2"
  have i: "find_invoice (p_invoiceId p) d = Some i" and p: "find_payment (p_id p) d = Some p"
    and st: "p_kind p = CHARGE" "p_status p = Pay_PENDING" "payable_status (i_status i)"
      "i_balanceDue i = p_amount p"
    using ok by (simp_all add: settleable_def)
  have id: "i_id i = p_invoiceId p" using i by (rule find_invoice_idD)
  from upd have q: "payment_check (?f p)"
    and d1: "d_invoices d1 = d_invoices d" "d_payments d1 = set_charge (p_id p) ?f (d_payments d)"
    by (rule update_payment_cases; use p in \<open>simp\<close>)+
  have i1: "find_invoice (i_id i) d1 = Some i" using i id d1 by (simp add: find_invoice_def)
  from upi have ok': "invoice_check (settle_update i (p_amount p) now i)" "list_all invoice_item_check (i_items i)"
    by (rule update_invoice_cases; simp add: i1; simp add: settle_update_def)+
  have "ledger_step (d_invoices d, d_payments d)
          (set_row (p_invoiceId p) ?g (d_invoices d), set_charge (p_id p) ?f (d_payments d))"
    by (rule settle_payment [where i = i])
      (use p q i st ok' in \<open>auto simp: find_invoice_def find_payment_def same_charge_def success_update_def
        same_account_def settle_update_def invoice_ok_def\<close>)
  then show ?thesis
    unfolding d' update_invoice_ledger [OF upi] d1 id by (simp add: ledger_of_def r_into_rtranclp)
qed

lemma validateEvent_None:
  assumes "validateEvent gw e found pay d = None"
  obtains i p where "found = Some i" and "pay = Some p" and "p_invoiceId p = ev_invoiceId e"
    and "p_provider p = gw_key gw" and "p_kind p = CHARGE" and "bigint_to_string (p_amount p) = ev_amount e"
    and "p_currency p = ev_currency e" and "p_status p = Pay_PENDING"
    and "ev_status e = Ev_SUCCEEDED \<Longrightarrow> payable_status (i_status i) \<and> i_balanceDue i = p_amount p"
proof -
  from assms obtain i p where "found = Some i" "pay = Some p"
    by (auto simp: validateEvent_def split: option.splits prod.splits)
  with assms show ?thesis
    by (intro that [of i p]) (auto simp: validateEvent_def payable_status_def split: if_splits)
qed

lemma processEvent_cases:
  assumes "processEvent_tx digest gw e h now d = Inr (d', r)"
  obtains (stored) d1 k where "create_event (event_row digest gw e h) d = Inr (d1, k)"
      and "ledger_of d' = ledger_of d1" and "\<exists>m. r = Wh_Rejected m"
  | (refused) d1 k m where "create_event (event_row digest gw e h) d = Inr (d1, k)"
      and "refuseEvent (find_payment (ev_paymentId e) d1) k m now d1 = Inr (d', r)"
  | (applied) d1 k i p where "create_event (event_row digest gw e h) d = Inr (d1, k)"
      and "find_invoice (ev_invoiceId e) d1 = Some i" and "find_payment (ev_paymentId e) d1 = Some p"
      and "p_invoiceId p = ev_invoiceId e" and "p_provider p = gw_key gw" and "p_kind p = CHARGE"
      and "p_status p = Pay_PENDING"
      and "ev_status e = Ev_SUCCEEDED \<Longrightarrow> payable_status (i_status i) \<and> i_balanceDue i = p_amount p"
      and "applyEvent gw e i p k now d1 = Inr (d', r)"
      and "ev_merchantId e = gw_merchantId gw" and "bigint_to_string (p_amount p) = ev_amount e"
      and "p_currency p = ev_currency e"
proof -
  obtain d1 k where c: "create_event (event_row digest gw e h) d = Inr (d1, k)"
    using assms by (auto simp: processEvent_tx_def result_simps)
  show ?thesis
  proof (cases "ev_merchantId e = gw_merchantId gw")
    case False
    with assms c show ?thesis by (intro stored [OF c]) (auto simp: processEvent_tx_def Let_def)
  next
    case True
    let ?v = "validateEvent gw e (find_invoice (ev_invoiceId e) d1) (find_payment (ev_paymentId e) d1) d1"
    show ?thesis
    proof (cases ?v)
      case (Some m)
      with assms c True show ?thesis by (intro refused [OF c]) (simp add: processEvent_tx_def Let_def)
    next
      case None
      then show ?thesis
      proof (rule validateEvent_None)
        fix i p
        assume v: "find_invoice (ev_invoiceId e) d1 = Some i" "find_payment (ev_paymentId e) d1 = Some p"
          "p_invoiceId p = ev_invoiceId e" "p_provider p = gw_key gw" "p_kind p = CHARGE"
          "bigint_to_string (p_amount p) = ev_amount e" "p_currency p = ev_currency e" "p_status p = Pay_PENDING"
          "ev_status e = Ev_SUCCEEDED \<Longrightarrow> payable_status (i_status i) \<and> i_balanceDue i = p_amount p"
        with assms c True None have "applyEvent gw e i p k now d1 = Inr (d', r)"
          by (simp add: processEvent_tx_def Let_def)
        with v True show ?thesis by (intro applied [OF c])
      qed
    qed
  qed
qed

interpretation gateway_event: ledger_client "processEvent_tx digest gw e h now"
  for digest gw e h now
proof
  fix d d' r
  assume "processEvent_tx digest gw e h now d = Inr (d', r)"
  then show "ledger_steps (ledger_of d) (ledger_of d')"
  proof (cases rule: processEvent_cases)
    case (stored d1 k)
    then show ?thesis by (simp add: create_event_ledger [OF stored(1)])
  next
    case (refused d1 k m)
    then have "ledger_steps (ledger_of d1) (ledger_of d')"
      by (intro refuseEvent_refines) (auto simp: find_payment_idD)
    then show ?thesis by (simp add: create_event_ledger [OF refused(1)])
  next
    case (applied d1 k i p)
    define d2 where "d2 = update_event k (\<lambda>r. r\<lparr>e_paymentId := Some (p_id p)\<rparr>) d1"
    have led: "ledger_of d2 = ledger_of d1" by (simp add: d2_def)
    have p: "find_payment (p_id p) d2 = Some p" and i: "find_invoice (p_invoiceId p) d2 = Some i"
      using applied(2-4) find_payment_idD [OF applied(3)] by (simp_all add: find_payment_row find_invoice_row led)
    have "ledger_steps (ledger_of d2) (ledger_of d')"
    proof (cases "ev_status e")
      case Ev_PENDING
      with applied(9) p show ?thesis by (intro ignoreEvent_refines) (simp_all add: applyEvent_def d2_def)
    next
      case Ev_FAILED
      with applied(7,9) p show ?thesis by (intro failEvent_refines) (simp_all add: applyEvent_def d2_def)
    next
      case Ev_SUCCEEDED
      with applied(6-9) p i show ?thesis
        by (intro settleEvent_refines) (simp_all add: applyEvent_def d2_def settleable_def)
    qed
    then show ?thesis by (simp add: led create_event_ledger [OF applied(1)])
  qed
qed


section \<open>What becomes of the stored event\<close>

lemma events_kept [simp]:
  "d_paymentEvents (log_activity a d) = d_paymentEvents d"
  "d_paymentEvents (pay_order now k a d) = d_paymentEvents d"
  by (simp_all add: log_activity_def pay_order_def mark_order_paid_def Let_def split: option.splits)

lemma events_update_payment: "update_payment k f d = Inr (d', u) \<Longrightarrow> d_paymentEvents d' = d_paymentEvents d"
  by (erule update_payment_cases) simp

lemma events_update_invoice: "update_invoice now k f d = Inr (d', u) \<Longrightarrow> d_paymentEvents d' = d_paymentEvents d"
  by (erule update_invoice_cases) simp

lemma events_create_outbox:
  "create_outbox now a k t key v d = Inr (d', u) \<Longrightarrow> d_paymentEvents d' = d_paymentEvents d"
  by (auto simp: create_outbox_def split: if_splits)

lemmas events_frame = events_update_payment events_update_invoice events_create_outbox

lemma completeEventAndOutbox_events:
  "completeEventAndOutbox k e prov pid iid ok now d = Inr (d', u) \<Longrightarrow>
   d_paymentEvents d' =
     d_paymentEvents (update_event k (\<lambda>r. r\<lparr>e_status := Evt_PROCESSED, e_processedAt := Some now\<rparr>) d)"
  by (auto simp: completeEventAndOutbox_def Let_def result_simps dest!: events_create_outbox split: if_splits)

lemma applyEvent_events:
  assumes "applyEvent gw e i p k now d = Inr (d', r)" and "\<And>m. r \<noteq> Wh_Rejected m"
  shows "d_paymentEvents d' =
     update_many (\<lambda>x. e_id x = k)
       (\<lambda>x. x\<lparr>e_status := (if r = Wh_Processed then Evt_PROCESSED else Evt_IGNORED), e_processedAt := Some now\<rparr>)
       (update_many (\<lambda>x. e_id x = k) (\<lambda>x. x\<lparr>e_paymentId := Some (p_id p)\<rparr>) (d_paymentEvents d))"
proof (cases "ev_status e")
  case Ev_PENDING
  with assms(1) show ?thesis
    by (auto simp: applyEvent_def ignoreEvent_def Let_def result_simps update_event_def dest!: events_frame
        split: option.splits if_splits)
next
  case Ev_FAILED
  with assms(1) show ?thesis
    by (auto simp: applyEvent_def failEvent_def Let_def result_simps update_event_def
        dest!: events_frame completeEventAndOutbox_events)
next
  case Ev_SUCCEEDED
  with assms show ?thesis
    by (auto simp: applyEvent_def settleEvent_def settleInvoice_def Let_def result_simps update_event_def
        dest!: events_frame completeEventAndOutbox_events split: option.splits if_splits)
qed

lemma create_event_cases:
  assumes "create_event row d = Inr (d1, k)"
  obtains "d_paymentEvents d1 = d_paymentEvents d @ [row\<lparr>e_id := k\<rparr>]"
    and "\<forall>x \<in> set (d_paymentEvents d). e_id x \<noteq> k \<and>
           \<not> (e_provider x = e_provider row \<and> e_providerEventId x = e_providerEventId row)"
  using assms by (auto simp: create_event_def Let_def list_ex_iff split: if_splits)

lemma accepted_event_stored:
  assumes "processEvent_tx digest gw e h now d = Inr (d', r)" and "\<And>m. r \<noteq> Wh_Rejected m"
  shows "\<exists>x. find_event (gw_key gw) (ev_providerEventId e) d' = Some x \<and> e_payloadHash x = h \<and>
     e_status x = (if r = Wh_Processed then Evt_PROCESSED else Evt_IGNORED)"
  using assms(1)
proof (cases rule: processEvent_cases)
  case (stored d1 k)
  with assms(2) show ?thesis by blast
next
  case (refused d1 k m)
  with assms(2) show ?thesis by (auto simp: refuseEvent_def result_simps)
next
  case (applied d1 k i p)
  note ev = applyEvent_events [OF applied(9) assms(2)]
  from applied(1) show ?thesis
  proof (rule create_event_cases)
    assume d1: "d_paymentEvents d1 = d_paymentEvents d @ [(event_row digest gw e h)\<lparr>e_id := k\<rparr>]"
      and fresh: "\<forall>x \<in> set (d_paymentEvents d). e_id x \<noteq> k \<and>
           \<not> (e_provider x = e_provider (event_row digest gw e h) \<and>
              e_providerEventId x = e_providerEventId (event_row digest gw e h))"
    have keep: "update_many (\<lambda>x. e_id x = k) f (d_paymentEvents d) = d_paymentEvents d" for f
      using fresh by (intro update_many_none) auto
    have none: "List.find (\<lambda>x. e_provider x = gw_key gw \<and> e_providerEventId x = ev_providerEventId e)
      (d_paymentEvents d) = None"
      using fresh by (auto simp: find_None_iff_all event_row_def)
    show ?thesis
      unfolding find_event_def ev d1 update_many_append keep find_app none by (simp add: event_row_def)
  qed
qed

lemma processNormalized_cases:
  assumes "processNormalizedEvent digest gw e h now d = (d', Inr r)"
  obtains (replayed) x where "find_event (gw_key gw) (ev_providerEventId e) d' = Some x"
      and "replay x h e = Inr r"
  | (fresh) out where "find_event (gw_key gw) (ev_providerEventId e) d = None"
      and "processEvent_tx digest gw e h now d = Inr (d', out)" and "\<And>m. out \<noteq> Wh_Rejected m"
      and "r = \<lparr>wr_duplicate = False, wr_providerEventId = ev_providerEventId e,
                wr_processed = (out = Wh_Processed)\<rparr>"
proof (cases "find_event (gw_key gw) (ev_providerEventId e) d")
  case (Some x)
  with assms show ?thesis by (intro replayed [of x]) (auto simp: processNormalizedEvent_def)
next
  case None
  show ?thesis
  proof (cases "processEvent_tx digest gw e h now d")
    case (Inl err)
    with assms None show ?thesis
      by (auto simp: processNormalizedEvent_def run_tx_def intro: replayed split: if_splits option.splits)
  next
    case (Inr res)
    obtain d2 out where "res = (d2, out)" by (cases res)
    with assms None Inr show ?thesis
      by (intro fresh [of out]) (auto simp: processNormalizedEvent_def run_tx_def split: webhook_outcome.splits)
  qed
qed

text \<open>
  C26: delivering an accepted event again is harmless: the second delivery of the same payload, at
  any later time, is answered as a duplicate with the same status and changes nothing.
\<close>

theorem webhook_delivery_idempotent:
  assumes "processNormalizedEvent digest gw e h now d = (d', Inr r)"
  shows "processNormalizedEvent digest gw e h now2 d' = (d', Inr (r\<lparr>wr_duplicate := True\<rparr>))"
  using assms
proof (cases rule: processNormalized_cases)
  case (replayed x)
  then show ?thesis by (auto simp: processNormalizedEvent_def replay_def split: if_splits)
next
  case (fresh out)
  obtain x where x: "find_event (gw_key gw) (ev_providerEventId e) d' = Some x" "e_payloadHash x = h"
    "e_status x = (if out = Wh_Processed then Evt_PROCESSED else Evt_IGNORED)"
    using accepted_event_stored [OF fresh(2,3)] by blast
  with fresh show ?thesis by (simp add: processNormalizedEvent_def replay_def)
qed


definition sample_gateway :: "gateway_status \<Rightarrow> gateway" where
  "sample_gateway st =
     \<lparr>gw_key = ''sslcommerz'', gw_merchantId = ''m'',
      gw_create = (\<lambda>_. Inl (Provider_Error ''down'' Outcome_UNKNOWN)), gw_verify = (\<lambda>_ _. True),
      gw_normalize = (\<lambda>_. None), gw_query = (\<lambda>_. Inr st), gw_extract = ev_providerTransactionId,
      gw_complete = None\<rparr>"

definition sample_status :: "provider_status \<Rightarrow> gateway_status" where
  "sample_status st = \<lparr>gs_providerTransactionId = Some ''T1'', gs_status = st, gs_amount = 250,
     gs_currency = ''BDT'', gs_occurredAt = 8, gs_failureReason = None\<rparr>"

definition session_db :: db where
  "session_db =
     (case run_tx (openSession_tx ''sslcommerz'' ''i'' ''gateway-session:sslcommerz:s'' sample_actor) unpaid_db of
        (d, Inr p) \<Rightarrow> storeSession (p_id p) \<lparr>ss_providerSessionId = ''S1'', ss_checkoutUrl = ''https://x'',
                                             ss_expiresAt = 1000\<rparr> d
      | (d, Inl _) \<Rightarrow> d)"

definition sample_event :: gateway_event where
  "sample_event =
     \<lparr>ev_providerEventId = ''evt'', ev_eventType = ''payment.succeeded'', ev_status = Ev_SUCCEEDED,
      ev_merchantId = ''m'', ev_paymentId = ''7'', ev_invoiceId = ''i'', ev_amount = ''250'',
      ev_currency = ''BDT'', ev_providerTransactionId = Some ''T1'', ev_occurredAt = 8,
      ev_failureReason = None\<rparr>"

theorem webhook_delivery_idempotent_witness:
  "case processNormalizedEvent (\<lambda>x. x) (sample_gateway (sample_status Prov_PENDING)) sample_event ''h'' 9 session_db of
     (d', Inl _) \<Rightarrow> False
   | (d', Inr r) \<Rightarrow> processNormalizedEvent (\<lambda>x. x) (sample_gateway (sample_status Prov_PENDING)) sample_event ''h'' 20 d' =
       (d', Inr (r\<lparr>wr_duplicate := True\<rparr>))"
proof -
  have "case processNormalizedEvent (\<lambda>x. x) (sample_gateway (sample_status Prov_PENDING)) sample_event ''h'' 9 session_db of
     (d', Inl _) \<Rightarrow> False | (d', Inr r) \<Rightarrow> True"
    by code_simp
  then show ?thesis
    using webhook_delivery_idempotent [of "\<lambda>x. x" "sample_gateway (sample_status Prov_PENDING)" sample_event "''h''" 9 session_db]
    by (auto split: prod.splits sum.splits)
qed

lemma storeSession_step:
  assumes "ledger_inv (ledger_of d)" and "find_payment k d = Some p" and "p_provider p \<noteq> ''manual''"
  shows "ledger_step (ledger_of d) (ledger_of (storeSession k s d))"
proof -
  define f where "f = (\<lambda>p :: payment. if p_reference p = None
    then p\<lparr>p_reference := Some (ss_providerSessionId s), p_checkoutUrl := Some (ss_checkoutUrl s),
           p_sessionExpiresAt := Some (ss_expiresAt s), p_failureReason := None\<rparr> else p)"
  have row: "charge_of k (d_payments d) = Some p" using assms(2) by (simp add: find_payment_def)
  have "payment_check p"
    using assms(1) find_Some_D [OF row] by (auto simp: ledger_inv_iff ledger_of_def charges_ok_def payment_ok_def)
  then have "payment_check (f p)" using assms(3) by (simp add: f_def payment_check_def)
  moreover have "same_charge p (f p)" "p_status (f p) = p_status p"
    by (simp_all add: f_def same_charge_def)
  ultimately have "ledger_step (d_invoices d, d_payments d) (d_invoices d, set_charge k f (d_payments d))"
    by (intro revise_payment [OF row]) simp_all
  moreover have "set_charge k f (d_payments d) = d_payments (storeSession k s d)"
    by (auto simp: storeSession_def update_many_def f_def)
  ultimately show ?thesis by (simp add: ledger_of_def storeSession_def)
qed

lemma ledger_of_storeSession:
  assumes "ledger_inv (ledger_of d)" and "find_payment k d = Some p" and "p_provider p \<noteq> ''manual''"
  shows "ledger_inv (ledger_of (storeSession k s d))"
  using storeSession_step [OF assms] assms(1) ledger_step_inv by blast

lemma claimSession_step:
  assumes "ledger_inv (ledger_of d)" and "claimSession k d = (d', n)"
  shows "ledger_steps (ledger_of d) (ledger_of d')"
proof (cases "find_payment k d")
  case None
  then have "\<forall>p \<in> set (d_payments d). p_id p \<noteq> k" by (auto simp: find_payment_def find_None_iff)
  then have "d_payments d' = d_payments d" "d_invoices d' = d_invoices d"
    using assms(2) by (auto simp: claimSession_def Let_def update_many_none)
  then show ?thesis by (simp add: ledger_of_def)
next
  case (Some p)
  define f where "f = (\<lambda>p :: payment. if p_reference p = None \<and> p_failureReason p = None
    then p\<lparr>p_failureReason := Some session_in_progress\<rparr> else p)"
  have row: "charge_of k (d_payments d) = Some p" using Some by (simp add: find_payment_def)
  have "payment_check p"
    using assms(1) find_Some_D [OF row] by (auto simp: ledger_inv_iff ledger_of_def charges_ok_def payment_ok_def)
  then have "payment_check (f p)" by (auto simp: f_def payment_check_def)
  moreover have "same_charge p (f p)" "p_status (f p) = p_status p" by (simp_all add: f_def same_charge_def)
  ultimately have "ledger_step (d_invoices d, d_payments d) (d_invoices d, set_charge k f (d_payments d))"
    by (intro revise_payment [OF row]) simp_all
  moreover have "set_charge k f (d_payments d) = d_payments d'" "d_invoices d' = d_invoices d"
    using assms(2) by (auto simp: claimSession_def Let_def update_many_def f_def)
  ultimately show ?thesis by (simp add: ledger_of_def r_into_rtranclp)
qed

lemma session_ledger: "ledger_inv (ledger_of session_db)"
proof -
  have ok: "case run_tx (openSession_tx ''sslcommerz'' ''i'' ''gateway-session:sslcommerz:s'' sample_actor) unpaid_db of
     (d, Inl _) \<Rightarrow> False
   | (d, Inr p) \<Rightarrow> (case find_payment (p_id p) d of None \<Rightarrow> False | Some q \<Rightarrow> p_provider q \<noteq> ''manual'')"
    by code_simp
  then show ?thesis
    using open_session.committed [OF unpaid_ledger, of "''sslcommerz''" "''i''" "''gateway-session:sslcommerz:s''" sample_actor]
    by (auto simp: session_db_def intro: ledger_of_storeSession split: prod.splits sum.splits option.splits)
qed

text \<open>
  C21: a processed success event settles exactly the invoice it names: the payment was a pending
  charge of this provider for this invoice, of the event's amount and currency and of the whole
  open balance; afterwards the payment has succeeded under the event's transaction and the
  invoice is PAID with nothing left due.
\<close>

theorem gateway_settles_exactly:
  assumes "processEvent_tx digest gw e h now d = Inr (d', Wh_Processed)" and "ev_status e = Ev_SUCCEEDED"
  shows "\<exists>i p i' p' t. find_invoice (ev_invoiceId e) d = Some i \<and> find_payment (ev_paymentId e) d = Some p \<and>
     p_invoiceId p = ev_invoiceId e \<and> p_provider p = gw_key gw \<and> p_status p = Pay_PENDING \<and>
     bigint_to_string (p_amount p) = ev_amount e \<and> p_currency p = ev_currency e \<and>
     payable_status (i_status i) \<and> i_balanceDue i = p_amount p \<and>
     find_payment (ev_paymentId e) d' = Some p' \<and> p_status p' = Pay_SUCCEEDED \<and>
     gw_extract gw e = Some t \<and> p_providerTransactionId p' = Some t \<and>
     find_invoice (ev_invoiceId e) d' = Some i' \<and> i_status i' = Inv_PAID \<and> i_balanceDue i' = 0 \<and>
     i_amountPaid i' = i_amountPaid i + p_amount p"
  using assms(1)
proof (cases rule: processEvent_cases)
  case (applied d1 k i p)
  have led: "ledger_of d1 = ledger_of d" by (rule create_event_ledger [OF applied(1)])
  define d2 where "d2 = update_event k (\<lambda>r. r\<lparr>e_paymentId := Some (p_id p)\<rparr>) d1"
  have led2: "ledger_of d2 = ledger_of d" by (simp add: d2_def led)
  have p: "find_payment (ev_paymentId e) d = Some p" and i: "find_invoice (ev_invoiceId e) d = Some i"
    using applied(2,3) by (simp_all add: find_payment_row find_invoice_row led)
  have ids: "p_id p = ev_paymentId e" "i_id i = ev_invoiceId e"
    using p i find_payment_idD find_invoice_idD by blast+
  have "settleEvent gw e i p k now d2 = Inr (d', Wh_Processed)"
    using applied(9) assms(2) by (simp add: applyEvent_def d2_def)
  then show ?thesis
  proof (rule settleEvent_cases)
    fix m assume "Wh_Processed = Wh_Rejected m" then show ?thesis by simp
  next
    fix t :: string and d3 d4
    assume t: "gw_extract gw e = Some t"
      and upd: "update_payment (p_id p) (success_update t e now) d2 = Inr (d3, ())"
      and upi: "update_invoice now (i_id i) (settle_update i (p_amount p) now) d3 = Inr (d4, ())"
      and d': "ledger_of d' = ledger_of d4"
    have "find_payment (p_id p) d3 = map_option (success_update t e now) (find_payment (p_id p) d2)"
      using upd find_update_many_key [where key = p_id and f = "success_update t e now"]
      by (elim update_payment_cases) (simp add: find_payment_def success_update_def)
    then have p3: "find_payment (p_id p) d3 = Some (success_update t e now p)"
      using p ids led2 by (simp add: find_payment_row)
    moreover have "find_invoice (i_id i) d3 = Some i"
      using upd i ids led2 by (elim update_payment_cases) (simp add: find_invoice_row ledger_of_def)
    ultimately have "find_payment (p_id p) d4 = Some (success_update t e now p)"
      "find_invoice (i_id i) d4 = Some ((settle_update i (p_amount p) now i)\<lparr>i_updatedAt := now\<rparr>)"
      using upi find_update_many_key [where key = i_id and f = "\<lambda>j. (settle_update i (p_amount p) now j)\<lparr>i_updatedAt := now\<rparr>"]
      by (elim update_invoice_cases; simp add: find_payment_row find_invoice_def ledger_of_def settle_update_def)+
    then show ?thesis
      using applied(4-8,11,12) p i ids t d' assms(2)
      by (simp add: find_payment_row find_invoice_row settle_update_def success_update_def)
  qed
qed (auto simp: refuseEvent_def result_simps)

theorem gateway_settles_exactly_witness:
  "case processEvent_tx (\<lambda>x. x) (sample_gateway (sample_status Prov_PENDING)) sample_event ''h'' 9 session_db of
     Inl _ \<Rightarrow> False
   | Inr (d', _) \<Rightarrow> \<exists>i. find_invoice ''i'' d' = Some i \<and> i_status i = Inv_PAID \<and> i_balanceDue i = 0"
proof -
  have "case processEvent_tx (\<lambda>x. x) (sample_gateway (sample_status Prov_PENDING)) sample_event ''h'' 9 session_db of
     Inl _ \<Rightarrow> False | Inr (_, out) \<Rightarrow> out = Wh_Processed"
    by code_simp
  then show ?thesis
    using gateway_settles_exactly [of "\<lambda>x. x" "sample_gateway (sample_status Prov_PENDING)" sample_event "''h''" 9 session_db]
    by (auto simp: sample_event_def split: sum.splits)
qed


section \<open>Two places where the order of answers matters\<close>

lemma processNormalized_stored:
  assumes "processNormalizedEvent digest gw e h now d = (d', Inr r)"
  shows "\<exists>x. find_event (gw_key gw) (ev_providerEventId e) d' = Some x \<and> e_payloadHash x = h"
  using assms
proof (cases rule: processNormalized_cases)
  case (replayed x)
  then show ?thesis by (auto simp: replay_def split: if_splits)
next
  case (fresh out)
  then show ?thesis using accepted_event_stored [OF fresh(2,3)] by blast
qed

text \<open>
  C29: the identifier of a reconciliation event names the transaction but not its status. Once a
  reconciliation was accepted while the provider reported a transaction (as PENDING, say), every
  later reconciliation that reports the same transaction with different content, success included,
  is rejected as a reused identifier and settles nothing.
\<close>

theorem reconciliation_blocks_later_status:
  assumes "processNormalizedEvent digest gw (reconcile_event gw p s1) h1 now d = (d', Inr r)"
    and "gs_providerTransactionId s1 = Some t" and "gs_providerTransactionId s2 = Some t" and "h2 \<noteq> h1"
  shows "processNormalizedEvent digest gw (reconcile_event gw p s2) h2 now2 d' =
     (d', Inl (Webhook_Rejected ''Provider event identifier was reused with different content.'' False))"
proof -
  have "ev_providerEventId (reconcile_event gw p s2) = ev_providerEventId (reconcile_event gw p s1)"
    using assms(2,3) by (simp add: reconcile_event_def status_event_def)
  then show ?thesis
    using processNormalized_stored [OF assms(1)] assms(4)
    by (auto simp: processNormalizedEvent_def replay_def)
qed

fun json_text :: "json \<Rightarrow> string" where
  \<comment> \<open>a rendering for the example runs\<close>
  "json_text JNull = ''null''"
| "json_text (JBool b) = (if b then ''true'' else ''false'')"
| "json_text (JNum n) = bigint_to_string n"
| "json_text (JStr s) = s"
| "json_text (JArr vs) = concat (map json_text vs)"
| "json_text (JObj fs) = concat (map (\<lambda>(k, v). k @ '':'' @ json_text v @ '','') fs)"

definition session_payment :: payment where
  "session_payment =
     (case find_payment ''7'' session_db of
        Some p \<Rightarrow> p | None \<Rightarrow> session_row [] [] (sample_invoice Inv_DRAFT 0) sample_actor)"

lemma reconcile_twice_example:
  "case reconcilePayment (\<lambda>x. x) json_text (sample_gateway (sample_status Prov_PENDING)) ''7'' sample_actor 9 session_db of
     (d1, r1) \<Rightarrow> is_ok r1 \<and>
       snd (reconcilePayment (\<lambda>x. x) json_text (sample_gateway (sample_status Prov_SUCCEEDED)) ''7'' sample_actor 20 d1) =
         Inl (Webhook_Rejected ''Provider event identifier was reused with different content.'' False)"
  by code_simp

theorem reconciliation_blocks_later_status_witness:
  "case processNormalizedEvent (\<lambda>x. x) (sample_gateway (sample_status Prov_PENDING))
          (reconcile_event (sample_gateway (sample_status Prov_PENDING)) session_payment (sample_status Prov_PENDING))
          ''h1'' 9 session_db of
     (d1, Inl _) \<Rightarrow> False
   | (d1, Inr _) \<Rightarrow>
     processNormalizedEvent (\<lambda>x. x) (sample_gateway (sample_status Prov_PENDING))
          (reconcile_event (sample_gateway (sample_status Prov_PENDING)) session_payment (sample_status Prov_SUCCEEDED))
          ''h2'' 20 d1 =
       (d1, Inl (Webhook_Rejected ''Provider event identifier was reused with different content.'' False))"
proof -
  let ?gw = "sample_gateway (sample_status Prov_PENDING)"
  have "case processNormalizedEvent (\<lambda>x. x) ?gw (reconcile_event ?gw session_payment (sample_status Prov_PENDING))
          ''h1'' 9 session_db of (d1, Inl _) \<Rightarrow> False | (d1, Inr _) \<Rightarrow> True"
    by code_simp
  then show ?thesis
    using reconciliation_blocks_later_status [of "\<lambda>x. x" ?gw session_payment "sample_status Prov_PENDING" "''h1''" 9
        session_db _ _ "''T1''" "sample_status Prov_SUCCEEDED" "''h2''" 20]
    by (auto simp: sample_status_def split: prod.splits sum.splits)
qed

text \<open>
  C28: the answer of a provider to a callback is safe to record exactly while the payment has not
  succeeded: a provider error that is committed after another delivery settled the payment takes
  the success back while the invoice keeps the money, and the ledger no longer adds up.
\<close>

theorem callback_error_safe_iff:
  assumes "ledger_inv (ledger_of d)" and "find_payment (p_id p0) d = Some p"
    and "p_kind p = CHARGE" and "p_provider p \<noteq> ''manual''"
    and "callback_commit digest json_digest gw p0 (Inl (Provider_Error m outcome)) now d = (d', Inr k)"
  shows "ledger_inv (ledger_of d') \<longleftrightarrow> p_status p \<noteq> Pay_SUCCEEDED"
proof -
  let ?f = "failure_update m outcome"
  have upd: "update_payment (p_id p0) ?f d = Inr (d', ())"
    using assms(5) by (auto simp: callback_commit_def run_tx_def split: sum.splits prod.splits)
  have row: "charge_of (p_id p0) (d_payments d) = Some p" using assms(2) by (simp add: find_payment_def)
  have same: "same_charge p (?f p)" by (simp add: failure_update_def same_charge_def)
  show ?thesis
  proof (cases "p_status p = Pay_SUCCEEDED")
    case False
    then have "ledger_step (ledger_of d) (ledger_of d')"
      by (intro update_payment_step [OF upd assms(2) same]) (simp add: failure_update_def)
    with False assms(1) ledger_step_inv show ?thesis by blast
  next
    case True
    have d': "d_invoices d' = d_invoices d" "d_payments d' = set_charge (p_id p0) ?f (d_payments d)"
      using upd by (auto elim!: update_payment_cases)
    have inv: "distinct (map p_id (d_payments d))" "rows_settled (d_invoices d) (d_payments d)"
      "charges_ok (d_invoices d) (d_payments d)"
      using assms(1) by (simp_all add: ledger_inv_iff ledger_of_def)
    have "payment_ok (d_invoices d) (d_payments d) p"
      using inv(3) find_Some_D [OF row] by (simp add: charges_ok_def)
    then obtain i where i: "i \<in> set (d_invoices d)" "i_id i = p_invoiceId p" and pos: "0 < p_amount p"
      by (auto simp: payment_ok_def payment_check_def)
    have "settled (i_id i) (d_payments d') = settled (i_id i) (d_payments d) - p_amount p"
      using settled_update [where f = ?f, OF inv(1) row same] i(2) True assms(3) d'(2)
      by (simp add: ledger_value_def failure_update_def)
    moreover have "i_amountPaid i = settled (i_id i) (d_payments d)"
      using i(1) inv(2) by (simp add: rows_settled_def)
    ultimately have "i_amountPaid i \<noteq> settled (i_id i) (d_payments d')" using pos by simp
    then have "\<not> rows_settled (d_invoices d') (d_payments d')"
      using i(1) d'(1) by (auto simp: rows_settled_def)
    with True show ?thesis by (simp add: ledger_inv_iff ledger_of_def)
  qed
qed

definition raced_db :: db where
  \<comment> \<open>the first of two deliveries has settled the payment\<close>
  "raced_db = fst (processNormalizedEvent (\<lambda>x. x) (sample_gateway (sample_status Prov_PENDING)) sample_event ''h'' 9 session_db)"

theorem callback_error_safe_iff_witness:
  "p_status session_payment = Pay_PENDING \<and>
   (case callback_commit (\<lambda>x. x) json_text (sample_gateway (sample_status Prov_PENDING)) session_payment
          (Inl (Provider_Error ''timeout'' Outcome_UNKNOWN)) 11 raced_db of
      (d', Inl _) \<Rightarrow> False | (d', Inr _) \<Rightarrow> \<not> ledger_inv (ledger_of d'))"
proof -
  let ?gw = "sample_gateway (sample_status Prov_PENDING)"
  have pend: "p_status session_payment = Pay_PENDING" by code_simp
  have row: "case find_payment (p_id session_payment) raced_db of None \<Rightarrow> False
    | Some p \<Rightarrow> p_kind p = CHARGE \<and> p_provider p \<noteq> ''manual'' \<and> p_status p = Pay_SUCCEEDED"
    by code_simp
  have run: "case callback_commit (\<lambda>x. x) json_text ?gw session_payment
          (Inl (Provider_Error ''timeout'' Outcome_UNKNOWN)) 11 raced_db of
      (d', Inl _) \<Rightarrow> False | (d', Inr _) \<Rightarrow> True"
    by code_simp
  have "case processEvent_tx (\<lambda>x. x) ?gw sample_event ''h'' 9 session_db of Inl _ \<Rightarrow> False | Inr (d', r) \<Rightarrow> r = Wh_Processed"
    by code_simp
  moreover have "find_event ''sslcommerz'' ''evt'' session_db = None" by code_simp
  ultimately have "ledger_inv (ledger_of raced_db)"
    using gateway_event.keeps_inv [OF session_ledger, of "\<lambda>x. x" ?gw sample_event "''h''" 9]
    by (auto simp: raced_db_def processNormalizedEvent_def run_tx_def sample_gateway_def sample_event_def
        split: sum.splits prod.splits)
  then show ?thesis
    using pend row run callback_error_safe_iff [of raced_db session_payment _ "\<lambda>x. x" json_text ?gw "''timeout''" Outcome_UNKNOWN 11]
    by (auto split: prod.splits sum.splits option.splits)
qed

end
