(* ===== verification/Renewals.thy ===== *)
theory Renewals
  imports Gateways "HOL-Library.List_Lexorder" "HOL-Library.Char_ord" "HOL-Library.Product_Lexorder"
begin

text \<open>
  The renewal automation of the worker (\<^verbatim>\<open>apps/worker/src/renewal\<close>): its policy, the
  scheduler that opens one cycle a business day, and the processor that creates renewal
  invoices, sends reminders, marks invoices overdue, asks for suspensions and applies
  renewal payments. Format tests of Zod (UUIDs, ISO dates) and of \<open>Intl\<close> (time zones) are
  a parameter, as are the readings of the clock and the failures of the two listing queries.
\<close>

section \<open>Texts and payloads\<close>

definition toISOString :: "instant \<Rightarrow> string" where
  \<comment> \<open>\<open>Date.prototype.toISOString\<close>\<close>
  "toISOString t =
     iso_year (getUTCFullYear t) @ ''-'' @ two_digits (getUTCMonth t + 1) @ ''-'' @
     two_digits (getUTCDate t) @ ''T'' @ two_digits (getUTCHours t) @ '':'' @
     two_digits (getUTCMinutes t) @ '':'' @ two_digits (getUTCSeconds t) @ ''.'' @
     pad_start 3 CHR ''0'' (show_nat (nat (getUTCMilliseconds t))) @ ''Z''"

record renewal_env =
  \<comment> \<open>what the code takes from \<open>Intl\<close> and from Zod\<close>
  env_parts :: date_parts
  env_timeZone :: "string \<Rightarrow> bool"
  env_uuid :: "string \<Rightarrow> bool"
  env_isoDate :: "string \<Rightarrow> bool"
  env_isoDatetime :: "string \<Rightarrow> bool"
  env_identity :: "json \<Rightarrow> json option"

fun as_bool :: "json \<Rightarrow> bool option" where
  "as_bool (JBool b) = Some b"
| "as_bool _ = None"

fun as_int :: "json \<Rightarrow> int option" where
  "as_int (JNum n) = Some n"
| "as_int _ = None"

fun as_string :: "json \<Rightarrow> string option" where
  "as_string (JStr s) = Some s"
| "as_string _ = None"

fun as_ints :: "json list \<Rightarrow> int list option" where
  "as_ints [] = Some []"
| "as_ints (j # js) = Option.bind (as_int j) (\<lambda>n. map_option ((#) n) (as_ints js))"

fun as_array :: "json \<Rightarrow> json list option" where
  "as_array (JArr js) = Some js"
| "as_array _ = None"

fun only_keys :: "string list \<Rightarrow> json \<Rightarrow> bool" where
  \<comment> \<open>an object without other keys, as \<open>z.object({...}).strict()\<close> asks\<close>
  "only_keys ks (JObj fs) \<longleftrightarrow> list_all (\<lambda>(k, _). List.member ks k) fs"
| "only_keys ks _ \<longleftrightarrow> False"

definition str_field :: "string \<Rightarrow> json \<Rightarrow> string option" where
  "str_field k j = Option.bind (jfield k j) as_string"

section \<open>Policy\<close>

record renewal_policy =
  pol_enabled :: bool
  pol_invoiceLeadDays :: int
  pol_reminderDaysBeforeDue :: "int list"
  pol_gracePeriodDays :: int
  pol_timeZone :: string

definition DEFAULT_RENEWAL_AUTOMATION_POLICY :: renewal_policy where
  "DEFAULT_RENEWAL_AUTOMATION_POLICY =
     \<lparr>pol_enabled = True, pol_invoiceLeadDays = 14, pol_reminderDaysBeforeDue = [7, 3, 1],
      pol_gracePeriodDays = 3, pol_timeZone = ''Asia/Dhaka''\<rparr>"

definition timeZoneSchema :: "renewal_env \<Rightarrow> string \<Rightarrow> bool" where
  "timeZoneSchema env s \<longleftrightarrow> 1 \<le> length s \<and> length s \<le> 64 \<and> env_timeZone env s"

definition policy_valid :: "renewal_env \<Rightarrow> renewal_policy \<Rightarrow> bool" where
  "policy_valid env p \<longleftrightarrow>
     1 \<le> pol_invoiceLeadDays p \<and> pol_invoiceLeadDays p \<le> 90 \<and>
     list_all (\<lambda>n. 0 \<le> n \<and> n \<le> 90) (pol_reminderDaysBeforeDue p) \<and>
     length (pol_reminderDaysBeforeDue p) \<le> 10 \<and>
     0 \<le> pol_gracePeriodDays p \<and> pol_gracePeriodDays p \<le> 60 \<and>
     timeZoneSchema env (pol_timeZone p) \<and>
     distinct (pol_reminderDaysBeforeDue p) \<and>
     \<not> list_ex (\<lambda>n. pol_invoiceLeadDays p \<le> n) (pol_reminderDaysBeforeDue p)"

definition policy_json :: "renewal_policy \<Rightarrow> json" where
  "policy_json p =
     JObj [(''enabled'', JBool (pol_enabled p)), (''invoiceLeadDays'', JNum (pol_invoiceLeadDays p)),
           (''reminderDaysBeforeDue'', JArr (map JNum (pol_reminderDaysBeforeDue p))),
           (''gracePeriodDays'', JNum (pol_gracePeriodDays p)), (''timeZone'', JStr (pol_timeZone p))]"

definition renewalAutomationPolicySchema :: "renewal_env \<Rightarrow> json \<Rightarrow> renewal_policy option" where
  "renewalAutomationPolicySchema env j =
     (if \<not> only_keys [''enabled'', ''invoiceLeadDays'', ''reminderDaysBeforeDue'', ''gracePeriodDays'',
                      ''timeZone''] j
      then None
      else
        Option.bind (Option.bind (jfield ''enabled'' j) as_bool) (\<lambda>enabled.
        Option.bind (Option.bind (jfield ''invoiceLeadDays'' j) as_int) (\<lambda>lead.
        Option.bind (Option.bind (Option.bind (jfield ''reminderDaysBeforeDue'' j) as_array) as_ints) (\<lambda>days.
        Option.bind (Option.bind (jfield ''gracePeriodDays'' j) as_int) (\<lambda>grace.
        Option.bind (str_field ''timeZone'' j) (\<lambda>zone.
          let p = \<lparr>pol_enabled = enabled, pol_invoiceLeadDays = lead, pol_reminderDaysBeforeDue = days,
                   pol_gracePeriodDays = grace, pol_timeZone = zone\<rparr>
          in if policy_valid env p then Some p else None))))))"

definition RENEWAL_POLICY_SETTING_KEY :: string where
  "RENEWAL_POLICY_SETTING_KEY = ''automation.renewal-policy''"

definition loadRenewalPolicy :: "renewal_env \<Rightarrow> db \<Rightarrow> renewal_policy" where
  "loadRenewalPolicy env d =
     (case Option.bind (find_setting RENEWAL_POLICY_SETTING_KEY d) (renewalAutomationPolicySchema env) of
        Some p \<Rightarrow> p | None \<Rightarrow> DEFAULT_RENEWAL_AUTOMATION_POLICY)"

record cycle_payload =
  cy_automationRunId :: uuid
  cy_businessDate :: string
  cy_scheduledFor :: string
  cy_policy :: renewal_policy

definition cycle_payload_json :: "cycle_payload \<Rightarrow> json" where
  "cycle_payload_json c =
     JObj [(''schemaVersion'', JNum 1), (''automationRunId'', JStr (cy_automationRunId c)),
           (''businessDate'', JStr (cy_businessDate c)), (''scheduledFor'', JStr (cy_scheduledFor c)),
           (''policy'', policy_json (cy_policy c))]"

definition renewalCyclePayloadSchema :: "renewal_env \<Rightarrow> json \<Rightarrow> cycle_payload option" where
  "renewalCyclePayloadSchema env j =
     (if \<not> only_keys [''schemaVersion'', ''automationRunId'', ''businessDate'', ''scheduledFor'', ''policy''] j
         \<or> jfield ''schemaVersion'' j \<noteq> Some (JNum 1)
      then None
      else
        Option.bind (str_field ''automationRunId'' j) (\<lambda>run.
        Option.bind (str_field ''businessDate'' j) (\<lambda>date.
        Option.bind (str_field ''scheduledFor'' j) (\<lambda>at.
        Option.bind (Option.bind (jfield ''policy'' j) (renewalAutomationPolicySchema env)) (\<lambda>policy.
          if env_uuid env run \<and> env_isoDate env date \<and> env_isoDatetime env at
          then Some \<lparr>cy_automationRunId = run, cy_businessDate = date, cy_scheduledFor = at, cy_policy = policy\<rparr>
          else None)))))"

definition renewalPaymentPayloadSchema :: "renewal_env \<Rightarrow> json \<Rightarrow> (uuid \<times> uuid) option" where
  \<comment> \<open>the payment and the invoice\<close>
  "renewalPaymentPayloadSchema env j =
     (if \<not> only_keys [''schemaVersion'', ''paymentId'', ''invoiceId''] j
         \<or> jfield ''schemaVersion'' j \<noteq> Some (JNum 1)
      then None
      else
        Option.bind (str_field ''paymentId'' j) (\<lambda>paymentId.
        Option.bind (str_field ''invoiceId'' j) (\<lambda>invoiceId.
          if env_uuid env paymentId \<and> env_uuid env invoiceId then Some (paymentId, invoiceId) else None)))"

definition hosting_payload_json :: "uuid \<Rightarrow> uuid \<Rightarrow> uuid \<Rightarrow> json" where
  "hosting_payload_json serviceId invoiceId runId =
     JObj [(''schemaVersion'', JNum 1), (''serviceId'', JStr serviceId), (''invoiceId'', JStr invoiceId),
           (''automationRunId'', JStr runId)]"

definition hostingAutomationPayloadSchema :: "renewal_env \<Rightarrow> json \<Rightarrow> (uuid \<times> uuid \<times> uuid) option" where
  \<comment> \<open>the service, the invoice and the automation run\<close>
  "hostingAutomationPayloadSchema env j =
     (if \<not> only_keys [''schemaVersion'', ''serviceId'', ''invoiceId'', ''automationRunId''] j
         \<or> jfield ''schemaVersion'' j \<noteq> Some (JNum 1)
      then None
      else
        Option.bind (str_field ''serviceId'' j) (\<lambda>s.
        Option.bind (str_field ''invoiceId'' j) (\<lambda>i.
        Option.bind (str_field ''automationRunId'' j) (\<lambda>r.
          if env_uuid env s \<and> env_uuid env i \<and> env_uuid env r then Some (s, i, r) else None))))"

section \<open>Automation runs and services\<close>

definition find_run :: "uuid \<Rightarrow> db \<Rightarrow> automation_run option" where
  "find_run k d = List.find (\<lambda>r. r_id r = k) (d_runs d)"

definition find_run_by_key :: "string \<Rightarrow> db \<Rightarrow> automation_run option" where
  "find_run_by_key k d = List.find (\<lambda>r. r_idempotencyKey r = k) (d_runs d)"

definition create_run :: "automation_run \<Rightarrow> uuid tx" where
  "create_run row d =
     (let k = fresh_uuid d; r = row\<lparr>r_id := k\<rparr>
      in if \<not> run_check r then Inl Check_Violation
         else if list_ex (\<lambda>q. r_id q = k \<or> r_idempotencyKey q = r_idempotencyKey r) (d_runs d)
         then Inl Unique_Violation
         else Inr (d\<lparr>d_runs := d_runs d @ [r], d_supply := Suc (d_supply d)\<rparr>, k))"

definition update_runs :: "uuid \<Rightarrow> (automation_run \<Rightarrow> automation_run) \<Rightarrow> nat tx" where
  \<comment> \<open>\<open>automationRun.updateMany\<close>\<close>
  "update_runs k f d =
     (if list_ex (\<lambda>r. r_id r = k \<and> \<not> run_check (f r)) (d_runs d) then Inl Check_Violation
      else Inr (d\<lparr>d_runs := update_many (\<lambda>r. r_id r = k) f (d_runs d)\<rparr>,
                count_where (\<lambda>r. r_id r = k) (d_runs d)))"

definition update_run :: "uuid \<Rightarrow> (automation_run \<Rightarrow> automation_run) \<Rightarrow> unit tx" where
  \<comment> \<open>\<open>automationRun.update\<close>\<close>
  "update_run k f d =
     (if find_run k d = None then Inl Record_Missing
      else rbind (update_runs k f d) (\<lambda>(d', _). Inr (d', ())))"

definition find_service :: "uuid \<Rightarrow> db \<Rightarrow> service option" where
  "find_service k d = List.find (\<lambda>s. s_id s = k) (d_services d)"

definition set_next_due :: "instant \<Rightarrow> uuid \<Rightarrow> instant \<Rightarrow> db \<Rightarrow> db" where
  \<comment> \<open>\<open>service.update\<close> of the next due date of a row that was just read\<close>
  "set_next_due now k t d =
     d\<lparr>d_services := update_many (\<lambda>s. s_id s = k) (\<lambda>s. s\<lparr>s_nextDueAt := t, s_updatedAt := now\<rparr>) (d_services d)\<rparr>"

section \<open>Scheduler\<close>

datatype schedule_outcome = Sched_CREATED | Sched_EXISTS | Sched_LOCKED

definition cycle_run :: "renewal_policy \<Rightarrow> string \<Rightarrow> instant \<Rightarrow> automation_run" where
  "cycle_run policy date now =
     \<lparr>r_id = [], r_jobName = ''renewal-cycle'', r_idempotencyKey = ''renewal-cycle:'' @ date,
      r_status = (if pol_enabled policy then Auto_RUNNING else Auto_SKIPPED), r_startedAt = now,
      r_completedAt = (if pol_enabled policy then None else Some now),
      r_processed = 0, r_succeeded = 0, r_failed = 0, r_errorSummary = None,
      r_metadata = JObj [(''businessDate'', JStr date), (''policy'', policy_json policy)]\<rparr>"

definition schedule_tx ::
    "renewal_policy \<Rightarrow> string \<Rightarrow> instant \<Rightarrow> bool \<Rightarrow> schedule_outcome tx" where
  \<comment> \<open>the last argument is the answer of \<open>pg_try_advisory_xact_lock\<close>\<close>
  "schedule_tx policy date now acquired d =
     (if \<not> acquired then Inr (d, Sched_LOCKED)
      else if find_run_by_key (''renewal-cycle:'' @ date) d \<noteq> None then Inr (d, Sched_EXISTS)
      else
        rbind (create_run (cycle_run policy date now) d) (\<lambda>(d1, run).
        if pol_enabled policy
        then rbind (create_outbox now ''AUTOMATION_RUN'' run ''RENEWAL_INVOICE_GENERATION_REQUESTED''
                     (''renewal-cycle-request:'' @ date)
                     (cycle_payload_json \<lparr>cy_automationRunId = run, cy_businessDate = date,
                        cy_scheduledFor = toISOString now, cy_policy = policy\<rparr>) d1)
               (\<lambda>(d2, _). Inr (d2, Sched_CREATED))
        else Inr (d1, Sched_CREATED)))"

definition calendar_failure :: "calendar_error + 'a \<Rightarrow> api_error + 'a" where
  "calendar_failure r =
     (case r of Inl _ \<Rightarrow> Inl (Server_Error ''Business date is unavailable'') | Inr x \<Rightarrow> Inr x)"

definition scheduleCurrentCycle :: "renewal_env \<Rightarrow> instant \<Rightarrow> bool \<Rightarrow> schedule_outcome handler" where
  "scheduleCurrentCycle env now acquired d =
     (let policy = loadRenewalPolicy env d
      in case calendar_failure (businessDate (env_parts env) now (pol_timeZone policy)) of
           Inl e \<Rightarrow> (d, Inl e)
         | Inr date \<Rightarrow> run_tx (schedule_tx policy date now acquired) d)"

section \<open>Renewal invoices\<close>

definition worker_allocateInvoiceNumber :: "string tx" where
  "worker_allocateInvoiceNumber d =
     (let d1 = (if find_setting numbering_key d = None
                then upsert_setting numbering_key (numbering_json default_numbering) d else d);
          parsed = (case find_setting numbering_key d1 of None \<Rightarrow> None | Some v \<Rightarrow> parse_numbering v);
          settings = (case parsed of Some s \<Rightarrow> s | None \<Rightarrow> default_numbering);
          invoiceNumber = formatInvoiceNumber settings
      in case parse_numbering (numbering_json
                (settings\<lparr>nu_nextNumber := nu_nextNumber settings + 1\<rparr>)) of
           None \<Rightarrow> Inl (Server_Error ''Invoice numbering range has been exhausted.'')
         | Some s \<Rightarrow> Inr (upsert_setting numbering_key (numbering_json s) d1, invoiceNumber))"

definition worker_normalizeBusinessIdentity :: "(json \<Rightarrow> json option) \<Rightarrow> json option \<Rightarrow> json" where
  \<comment> \<open>a missing setting is the value \<open>JNull\<close>\<close>
  "worker_normalizeBusinessIdentity schema stored =
     (let v = (case stored of None \<Rightarrow> JNull | Some j \<Rightarrow> j)
      in case schema v of
           Some parsed \<Rightarrow> parsed
         | None \<Rightarrow>
           (case jfield ''name'' v of
              Some (JStr name) \<Rightarrow>
                if js_trim name \<noteq> [] then JObj [(''name'', JStr (js_trim name))]
                else JObj [(''name'', JStr ''Webhost Billing'')]
            | _ \<Rightarrow> JObj [(''name'', JStr ''Webhost Billing'')]))"

definition cancellation_blocked :: "service \<Rightarrow> db \<Rightarrow> bool" where
  \<comment> \<open>\<open>cancellationRequests: { none: { status: { in: ['OPEN', 'COMPLETED'] } } }\<close> does not hold\<close>
  "cancellation_blocked s d \<longleftrightarrow>
     list_ex (\<lambda>h. h_serviceId h = s_id s \<and> cancellation_effective h) (d_cancellations d)"

definition service_billable :: "service \<Rightarrow> customer \<Rightarrow> user \<Rightarrow> db \<Rightarrow> bool" where
  "service_billable s c u d \<longleftrightarrow>
     s_status s \<in> {Svc_ACTIVE, Svc_SUSPENDED} \<and> c_deletedAt c = None \<and> u_deletedAt u = None \<and>
     \<not> cancellation_blocked s d"

definition service_owner :: "service \<Rightarrow> db \<Rightarrow> (customer \<times> user) option" where
  \<comment> \<open>the joins on the foreign keys\<close>
  "service_owner s d =
     Option.bind (List.find (\<lambda>c. c_id c = s_customerId s) (d_customers d)) (\<lambda>c.
       map_option (Pair c) (List.find (\<lambda>u. u_id u = c_userId c) (d_users d)))"

definition period_billed :: "uuid \<Rightarrow> instant \<Rightarrow> instant \<Rightarrow> db \<Rightarrow> bool" where
  \<comment> \<open>\<open>invoiceItem.findFirst\<close>\<close>
  "period_billed serviceId periodStart periodEnd d \<longleftrightarrow>
     list_ex (\<lambda>i. list_ex (\<lambda>it. it_serviceId it = Some serviceId \<and> it_periodStart it = Some periodStart \<and>
                  it_periodEnd it = Some periodEnd) (i_items i)) (d_invoices d)"

definition renewal_add_ons :: "service \<Rightarrow> billing_period \<Rightarrow> instant \<Rightarrow> db \<Rightarrow> order_item list" where
  "renewal_add_ons s billingPeriod periodStart d =
     (case Option.bind (s_orderItemId s) (\<lambda>k. List.find (\<lambda>oi. oi_id oi = k) (d_orderItems d)) of
        None \<Rightarrow> []
      | Some anchor \<Rightarrow>
        sort_key oi_id (filter (\<lambda>oi. oi_orderId oi = oi_orderId anchor \<and> oi_kind oi = Kind_ADD_ON \<and>
          oi_billingPeriod oi = Every billingPeriod \<and> oi_currency oi = s_currency s \<and>
          oi_fulfilledAt oi \<noteq> None \<and>
          (case oi_renewalEndsAt oi of None \<Rightarrow> True | Some t \<Rightarrow> periodStart < t)) (d_orderItems d)))"

definition renewal_line :: "service \<Rightarrow> instant \<Rightarrow> instant \<Rightarrow> invoice_item" where
  "renewal_line s periodStart periodEnd =
     \<lparr>it_linePosition = 1, it_orderItemId = None, it_serviceId = Some (s_id s),
      it_description = ''Renewal: '' @ s_productName s @
        (case s_domain s of Some host \<Rightarrow> if host \<noteq> [] then '' ('' @ host @ '')'' else [] | None \<Rightarrow> []),
      it_currency = s_currency s, it_quantity = 1, it_unitAmount = s_recurringAmount s,
      it_discountAmount = 0, it_taxAmount = 0, it_lineTotal = s_recurringAmount s,
      it_periodStart = Some periodStart, it_periodEnd = Some periodEnd\<rparr>"

definition add_on_line :: "instant \<Rightarrow> instant \<Rightarrow> nat \<Rightarrow> order_item \<Rightarrow> invoice_item" where
  "add_on_line periodStart periodEnd linePosition oi =
     \<lparr>it_linePosition = linePosition, it_orderItemId = Some (oi_id oi), it_serviceId = None,
      it_description = ''Renewal: '' @ oi_productName oi, it_currency = oi_currency oi,
      it_quantity = oi_quantity oi, it_unitAmount = oi_unitAmount oi, it_discountAmount = 0,
      it_taxAmount = 0, it_lineTotal = oi_lineTotal oi, it_periodStart = Some periodStart,
      it_periodEnd = Some periodEnd\<rparr>"

definition renewal_items ::
    "service \<Rightarrow> instant \<Rightarrow> instant \<Rightarrow> order_item list \<Rightarrow> invoice_item list" where
  "renewal_items s periodStart periodEnd addOns =
     renewal_line s periodStart periodEnd #
     map (\<lambda>(n, oi). add_on_line periodStart periodEnd n oi) (List.enumerate 2 addOns)"

definition renewal_total :: "service \<Rightarrow> order_item list \<Rightarrow> int" where
  "renewal_total s addOns = foldl (\<lambda>total oi. total + oi_lineTotal oi) (s_recurringAmount s) addOns"

definition renewal_row ::
    "service \<Rightarrow> invoice_snapshot \<Rightarrow> string \<Rightarrow> instant \<Rightarrow> instant \<Rightarrow> order_item list \<Rightarrow> instant \<Rightarrow> invoice" where
  "renewal_row s snapshot number periodStart periodEnd addOns now =
     (let amount = renewal_total s addOns; paid = (amount = 0)
      in \<lparr>i_id = [], i_number = number,
          i_submissionKey = ''renewal:'' @ s_id s @ '':'' @ toISOString periodStart,
          i_customerId = s_customerId s, i_orderId = None,
          i_status = (if paid then Inv_PAID else Inv_UNPAID), i_currency = s_currency s,
          i_subtotal = amount, i_discountTotal = 0, i_taxTotal = 0, i_total = amount,
          i_creditTotal = 0, i_amountPaid = 0, i_balanceDue = amount, i_snapshot = snapshot,
          i_issuedAt = Some now, i_dueAt = (if periodStart < now then now else periodStart),
          i_paidAt = (if paid then Some now else None), i_cancelledAt = None, i_updatedAt = now,
          i_items = renewal_items s periodStart periodEnd addOns\<rparr>)"

definition issueRenewal_tx ::
    "renewal_env \<Rightarrow> service \<Rightarrow> customer \<Rightarrow> user \<Rightarrow> billing_period \<Rightarrow> uuid \<Rightarrow> instant \<Rightarrow> bool tx" where
  \<comment> \<open>the part of the transaction after the guards\<close>
  "issueRenewal_tx env s c u billingPeriod automationRunId now d =
     (let periodStart = s_nextDueAt s; periodEnd = addBillingPeriod periodStart billingPeriod;
          addOns = renewal_add_ons s billingPeriod periodStart d;
          identity = worker_normalizeBusinessIdentity (env_identity env) (find_setting ''business.identity'' d)
      in if renewal_total s addOns > POSTGRES_BIGINT_MAX
         then Inl (Server_Error ''Renewal invoice total exceeds the supported range.'')
         else
           rbind (worker_allocateInvoiceNumber d) (\<lambda>(d1, number).
           rbind (create_invoice (renewal_row s (customer_snapshot c u identity) number periodStart
                    periodEnd addOns now) d1) (\<lambda>(d2, k).
           rbind (create_outbox now ''INVOICE'' k ''EMAIL_INVOICE_CREATED'' (''email:invoice-created:'' @ k)
                    (invoice_email_payload k)
                    (if renewal_total s addOns = 0 then set_next_due now (s_id s) periodEnd d2 else d2))
             (\<lambda>(d3, _).
              Inr (log_activity
                    \<lparr>a_actorUserId = None, a_action = ''RENEWAL_INVOICE_CREATED_BY_AUTOMATION'',
                     a_entityType = ''INVOICE'', a_entityId = Some k,
                     a_correlationId = Some automationRunId,
                     a_metadata = [(''serviceId'', JStr (s_id s)),
                       (''periodStart'', JStr (toISOString periodStart)),
                       (''periodEnd'', JStr (toISOString periodEnd))]\<rparr> d3, True)))))"

definition createRenewalInvoice_tx :: "renewal_env \<Rightarrow> uuid \<Rightarrow> uuid \<Rightarrow> instant \<Rightarrow> bool tx" where
  "createRenewalInvoice_tx env serviceId automationRunId now d =
     (case find_service serviceId d of
        None \<Rightarrow> Inr (d, False)
      | Some s \<Rightarrow>
        rbind (of_option (Server_Error ''Foreign key'') (service_owner s d)) (\<lambda>(c, u).
        if \<not> service_billable s c u d then Inr (d, False)
        else
          rbind (of_option (Server_Error ''ZodError'') (s_billingPeriod s)) (\<lambda>billingPeriod.
          if period_billed serviceId (s_nextDueAt s) (addBillingPeriod (s_nextDueAt s) billingPeriod) d
          then Inr (d, False)
          else issueRenewal_tx env s c u billingPeriod automationRunId now d)))"

definition createRenewalInvoice :: "renewal_env \<Rightarrow> uuid \<Rightarrow> uuid \<Rightarrow> instant \<Rightarrow> bool handler" where
  \<comment> \<open>a violated unique constraint is the answer \<open>false\<close>\<close>
  "createRenewalInvoice env serviceId automationRunId now d =
     (case run_tx (createRenewalInvoice_tx env serviceId automationRunId now) d of
        (d', Inl Unique_Violation) \<Rightarrow> (d', Inr False) | r \<Rightarrow> r)"


section \<open>Overdue invoices, reminders and suspensions\<close>

definition markOverdue_tx :: "uuid \<Rightarrow> uuid \<Rightarrow> instant \<Rightarrow> bool tx" where
  "markOverdue_tx invoiceId automationRunId now d =
     (if count_where (\<lambda>i. i_id i = invoiceId \<and> (i_status i = Inv_UNPAID \<and> 0 < i_balanceDue i \<and>
                          i_dueAt i \<le> now)) (d_invoices d) = 0
      then Inr (d, False)
      else
        rbind (update_invoice now invoiceId (\<lambda>i. i\<lparr>i_status := Inv_OVERDUE\<rparr>) d) (\<lambda>(d1, _).
        rbind (create_outbox now ''INVOICE'' invoiceId ''EMAIL_OVERDUE_NOTICE''
                 (''email:overdue-notice:'' @ invoiceId) (invoice_email_payload invoiceId) d1) (\<lambda>(d2, _).
           Inr (log_activity
                 \<lparr>a_actorUserId = None, a_action = ''INVOICE_MARKED_OVERDUE_BY_AUTOMATION'',
                  a_entityType = ''INVOICE'', a_entityId = Some invoiceId,
                  a_correlationId = Some automationRunId, a_metadata = []\<rparr> d2, True))))"

definition markOverdue :: "uuid \<Rightarrow> uuid \<Rightarrow> instant \<Rightarrow> bool handler" where
  "markOverdue invoiceId automationRunId now d = run_tx (markOverdue_tx invoiceId automationRunId now) d"

definition request_hosting ::
    "renewal_env \<Rightarrow> instant \<Rightarrow> string \<Rightarrow> string \<Rightarrow> uuid \<Rightarrow> uuid \<Rightarrow> uuid \<Rightarrow> nat tx" where
  \<comment> \<open>\<open>outboxEvent.createMany\<close> of one hosting request, with its payload checked first\<close>
  "request_hosting env now eventType keyPrefix serviceId invoiceId automationRunId d =
     (let payload = hosting_payload_json serviceId invoiceId automationRunId
      in if hostingAutomationPayloadSchema env payload = None then Inl (Server_Error ''ZodError'')
         else Inr (create_outbox_skip now ''SERVICE'' serviceId eventType
                     (keyPrefix @ serviceId @ '':'' @ invoiceId) payload d))"

definition requestSuspension :: "renewal_env \<Rightarrow> instant \<Rightarrow> uuid \<Rightarrow> uuid \<Rightarrow> uuid \<Rightarrow> bool tx" where
  "requestSuspension env now serviceId invoiceId automationRunId d =
     rbind (request_hosting env now ''HOSTING_SUSPENSION_REQUESTED'' ''automation:suspend:''
              serviceId invoiceId automationRunId d)
       (\<lambda>(d', count). Inr (d', count = 1))"

record counters =
  k_processed :: int
  k_succeeded :: int
  k_failed :: int

type_synonym job_state = "db \<times> counters"

definition count_action :: "bool handler \<Rightarrow> job_state \<Rightarrow> job_state" where
  \<comment> \<open>\<open>processed += 1; try { if (await action) succeeded += 1 } catch { failed += 1 }\<close>\<close>
  "count_action act = (\<lambda>(d, c).
     let (d', r) = act d; c1 = c\<lparr>k_processed := k_processed c + 1\<rparr>
     in (d', case r of Inr True \<Rightarrow> c1\<lparr>k_succeeded := k_succeeded c1 + 1\<rparr>
                     | Inr False \<Rightarrow> c1
                     | Inl _ \<Rightarrow> c1\<lparr>k_failed := k_failed c1 + 1\<rparr>))"

definition reminder_key :: "uuid \<Rightarrow> int \<Rightarrow> string" where
  "reminder_key invoiceId days = ''email:renewal-reminder:'' @ invoiceId @ '':'' @ bigint_to_string days"

definition send_reminder :: "instant \<Rightarrow> uuid \<Rightarrow> nat \<Rightarrow> int \<Rightarrow> bool handler" where
  "send_reminder now invoiceId n days d =
     (let (d', count) = create_outbox_skip now ''INVOICE'' invoiceId ''EMAIL_RENEWAL_REMINDER''
            (reminder_key invoiceId days)
            (JObj [(''schemaVersion'', JNum 1), (''invoiceId'', JStr invoiceId),
                   (''reminderNumber'', JNum (int n))]) d
      in (d', Inr (count = 1)))"

fun reminders_loop ::
    "instant \<Rightarrow> uuid \<Rightarrow> string \<Rightarrow> string \<Rightarrow> nat \<Rightarrow> int list \<Rightarrow> job_state \<Rightarrow> job_state \<times> (api_error + unit)" where
  "reminders_loop now invoiceId currentDate dueDate n [] st = (st, Inr ())"
| "reminders_loop now invoiceId currentDate dueDate n (days # rest) st =
     (case calendar_failure (addBusinessDays dueDate (- days)) of
        Inl e \<Rightarrow> (st, Inl e)
      | Inr date \<Rightarrow>
        reminders_loop now invoiceId currentDate dueDate (Suc n) rest
          (if isOnOrAfter currentDate date
           then count_action (send_reminder now invoiceId (Suc n) days) st else st))"

definition createReminders ::
    "renewal_env \<Rightarrow> instant \<Rightarrow> uuid \<Rightarrow> instant \<Rightarrow> renewal_policy \<Rightarrow> job_state \<Rightarrow> job_state \<times> (api_error + unit)" where
  "createReminders env now invoiceId dueAt policy st =
     (case rbind (calendar_failure (businessDate (env_parts env) now (pol_timeZone policy))) (\<lambda>currentDate.
           rbind (calendar_failure (businessDate (env_parts env) dueAt (pol_timeZone policy))) (\<lambda>dueDate.
             Inr (currentDate, dueDate))) of
        Inl e \<Rightarrow> (st, Inl e)
      | Inr (currentDate, dueDate) \<Rightarrow>
        if \<not> str_le currentDate dueDate then (st, Inr ())
        else reminders_loop now invoiceId currentDate dueDate 0
               (rev (sort (pol_reminderDaysBeforeDue policy))) st)"

section \<open>A renewal cycle\<close>

record cycle_clock =
  \<comment> \<open>the readings of the clock of one run, and the failures of its two listing queries\<close>
  cl_due :: instant
  cl_open :: instant
  cl_reminder :: "uuid \<Rightarrow> instant"
  cl_completed :: instant
  cl_dueQuery :: "api_error option"
  cl_openQuery :: "api_error option"

definition due_services :: "instant \<Rightarrow> db \<Rightarrow> service list" where
  "due_services broadCutoff d =
     take 1000 (sort_key (\<lambda>s. (s_nextDueAt s, s_id s))
       (filter (\<lambda>s. s_status s \<in> {Svc_ACTIVE, Svc_SUSPENDED} \<and> s_billingPeriod s \<noteq> None \<and>
                    s_nextDueAt s \<le> broadCutoff \<and> \<not> cancellation_blocked s d) (d_services d)))"

fun due_loop ::
    "renewal_env \<Rightarrow> uuid \<Rightarrow> renewal_policy \<Rightarrow> instant \<Rightarrow> string \<Rightarrow> service list \<Rightarrow> job_state \<Rightarrow>
     job_state \<times> (api_error + unit)" where
  "due_loop env run policy now currentDate [] st = (st, Inr ())"
| "due_loop env run policy now currentDate (s # rest) st =
     (case calendar_failure (rbind (businessDate (env_parts env) (s_nextDueAt s) (pol_timeZone policy))
             (\<lambda>date. addBusinessDays date (- pol_invoiceLeadDays policy))) of
        Inl e \<Rightarrow> (st, Inl e)
      | Inr invoiceDate \<Rightarrow>
        due_loop env run policy now currentDate rest
          (if isOnOrAfter currentDate invoiceDate
           then count_action (createRenewalInvoice env (s_id s) run now) st else st))"

definition createDueInvoices ::
    "renewal_env \<Rightarrow> cycle_clock \<Rightarrow> uuid \<Rightarrow> renewal_policy \<Rightarrow> job_state \<Rightarrow> job_state \<times> (api_error + unit)" where
  "createDueInvoices env cl run policy st =
     (case calendar_failure (businessDate (env_parts env) (cl_due cl) (pol_timeZone policy)) of
        Inl e \<Rightarrow> (st, Inl e)
      | Inr currentDate \<Rightarrow>
        (case cl_dueQuery cl of
           Some e \<Rightarrow> (st, Inl e)
         | None \<Rightarrow>
           due_loop env run policy (cl_due cl) currentDate
             (due_services (cl_due cl + (pol_invoiceLeadDays policy + 2) * 86400000) (fst st)) st))"

definition open_renewals :: "db \<Rightarrow> (invoice \<times> service option list) list" where
  \<comment> \<open>the unpaid invoices with a service line, each with the services of those lines\<close>
  "open_renewals d =
     map (\<lambda>i. (i, map (\<lambda>it. Option.bind (it_serviceId it) (\<lambda>k. find_service k d))
                    (filter (\<lambda>it. it_serviceId it \<noteq> None) (i_items i))))
       (take 1000 (sort_key (\<lambda>i. (i_dueAt i, i_id i))
         (filter (\<lambda>i. i_status i \<in> {Inv_UNPAID, Inv_OVERDUE} \<and> 0 < i_balanceDue i \<and>
                      list_ex (\<lambda>it. it_serviceId it \<noteq> None) (i_items i)) (d_invoices d))))"

fun suspend_loop :: "renewal_env \<Rightarrow> instant \<Rightarrow> uuid \<Rightarrow> uuid \<Rightarrow> service option list \<Rightarrow> job_state \<Rightarrow> job_state" where
  "suspend_loop env now run invoiceId [] st = st"
| "suspend_loop env now run invoiceId (so # rest) st =
     suspend_loop env now run invoiceId rest
       (case so of
          None \<Rightarrow> st
        | Some s \<Rightarrow>
          if s_status s \<noteq> Svc_ACTIVE then st
          else count_action (run_tx (requestSuspension env now (s_id s) invoiceId run)) st)"

definition after_due ::
    "renewal_env \<Rightarrow> cycle_clock \<Rightarrow> uuid \<Rightarrow> renewal_policy \<Rightarrow> invoice \<Rightarrow> service option list \<Rightarrow>
     job_state \<Rightarrow> job_state \<times> (api_error + unit)" where
  \<comment> \<open>the part of the loop body after the reminders\<close>
  "after_due env cl run policy i services st =
     (case rbind (calendar_failure (businessDate (env_parts env) (cl_open cl) (pol_timeZone policy))) (\<lambda>currentDate.
           rbind (calendar_failure (businessDate (env_parts env) (i_dueAt i) (pol_timeZone policy))) (\<lambda>dueDate.
             Inr (currentDate, dueDate))) of
        Inl e \<Rightarrow> (st, Inl e)
      | Inr (currentDate, dueDate) \<Rightarrow>
        let st1 = (if \<not> str_le currentDate dueDate
                   then count_action (markOverdue (i_id i) run (cl_open cl)) st else st)
        in case calendar_failure (addBusinessDays dueDate (pol_gracePeriodDays policy + 1)) of
             Inl e \<Rightarrow> (st1, Inl e)
           | Inr suspensionDate \<Rightarrow>
             (if isOnOrAfter currentDate suspensionDate
              then suspend_loop env (cl_open cl) run (i_id i) services st1 else st1, Inr ()))"

fun open_loop ::
    "renewal_env \<Rightarrow> cycle_clock \<Rightarrow> uuid \<Rightarrow> renewal_policy \<Rightarrow> (invoice \<times> service option list) list \<Rightarrow>
     job_state \<Rightarrow> job_state \<times> (api_error + unit)" where
  "open_loop env cl run policy [] st = (st, Inr ())"
| "open_loop env cl run policy ((i, services) # rest) st =
     (case (if i_status i = Inv_UNPAID
            then createReminders env (cl_reminder cl (i_id i)) (i_id i) (i_dueAt i) policy st
            else (st, Inr ())) of
        (st1, Inl e) \<Rightarrow> (st1, Inl e)
      | (st1, Inr _) \<Rightarrow>
        (case after_due env cl run policy i services st1 of
           (st2, Inl e) \<Rightarrow> (st2, Inl e)
         | (st2, Inr _) \<Rightarrow> open_loop env cl run policy rest st2))"

definition processOpenRenewals ::
    "renewal_env \<Rightarrow> cycle_clock \<Rightarrow> uuid \<Rightarrow> renewal_policy \<Rightarrow> job_state \<Rightarrow> job_state \<times> (api_error + unit)" where
  "processOpenRenewals env cl run policy st =
     (case cl_openQuery cl of
        Some e \<Rightarrow> (st, Inl e)
      | None \<Rightarrow> open_loop env cl run policy (open_renewals (fst st)) st)"


section \<open>Jobs\<close>

datatype job_error = Permanent string | Temporary string | Inconsistent string | Database_Error api_error
  \<comment> \<open>\<open>BackgroundJobError\<close> of the three kinds, and an error of the database that escapes\<close>

record job_data =
  jd_outboxEventId :: uuid
  jd_aggregateType :: string
  jd_aggregateId :: uuid
  jd_eventType :: string

definition publishedEvent :: "job_data \<Rightarrow> db \<Rightarrow> job_error + outbox_event" where
  "publishedEvent data d =
     (case List.find (\<lambda>e. o_id e = jd_outboxEventId data) (d_outbox d) of
        None \<Rightarrow> Inl (Permanent ''RENEWAL_OUTBOX_REFERENCE_INVALID'')
      | Some e \<Rightarrow>
        if o_status e = Out_FAILED \<or> o_eventType e \<noteq> jd_eventType data \<or>
           o_aggregateType e \<noteq> jd_aggregateType data \<or> o_aggregateId e \<noteq> jd_aggregateId data
        then Inl (Permanent ''RENEWAL_OUTBOX_REFERENCE_INVALID'')
        else if o_status e \<noteq> Out_PUBLISHED then Inl (Temporary ''RENEWAL_OUTBOX_PUBLICATION_PENDING'')
        else Inr e)"

definition finish_update :: "instant \<Rightarrow> counters \<Rightarrow> automation_run \<Rightarrow> automation_run" where
  "finish_update now c r =
     r\<lparr>r_status := (if k_failed c = 0 then Auto_SUCCEEDED
                    else if k_succeeded c > 0 then Auto_PARTIALLY_SUCCEEDED else Auto_FAILED),
       r_completedAt := Some now, r_processed := k_processed c, r_succeeded := k_succeeded c,
       r_failed := k_failed c,
       r_errorSummary := (if k_failed c > 0 then Some ''RENEWAL_ACTIONS_FAILED'' else None)\<rparr>"

definition finishRun :: "instant \<Rightarrow> uuid \<Rightarrow> counters \<Rightarrow> unit tx" where
  "finishRun now k c d = update_run k (finish_update now c) d"

definition cycle_failed_update :: "instant \<Rightarrow> counters \<Rightarrow> automation_run \<Rightarrow> automation_run" where
  "cycle_failed_update now c r =
     r\<lparr>r_status := Auto_FAILED, r_completedAt := Some now, r_processed := k_processed c,
       r_succeeded := k_succeeded c, r_failed := max 1 (k_failed c),
       r_errorSummary := Some ''RENEWAL_CYCLE_TEMPORARILY_UNAVAILABLE''\<rparr>"

definition failCycle :: "instant \<Rightarrow> uuid \<Rightarrow> counters \<Rightarrow> db \<Rightarrow> db \<times> (job_error + unit)" where
  "failCycle now k c d =
     (case run_tx (update_runs k (cycle_failed_update now c)) d of
        (d', Inl e) \<Rightarrow> (d', Inl (Database_Error e))
      | (d', Inr _) \<Rightarrow> (d', Inl (Temporary ''RENEWAL_CYCLE_TEMPORARILY_UNAVAILABLE'')))"

definition no_counts :: counters where
  "no_counts = \<lparr>k_processed = 0, k_succeeded = 0, k_failed = 0\<rparr>"

definition runCycle ::
    "renewal_env \<Rightarrow> cycle_clock \<Rightarrow> cycle_payload \<Rightarrow> db \<Rightarrow> job_state \<times> (api_error + unit)" where
  \<comment> \<open>the two passes of the \<open>try\<close> block\<close>
  "runCycle env cl p d =
     (case createDueInvoices env cl (cy_automationRunId p) (cy_policy p) (d, no_counts) of
        (st, Inl e) \<Rightarrow> (st, Inl e)
      | (st, Inr _) \<Rightarrow> processOpenRenewals env cl (cy_automationRunId p) (cy_policy p) st)"

definition attemptCycle :: "renewal_env \<Rightarrow> cycle_clock \<Rightarrow> cycle_payload \<Rightarrow> db \<Rightarrow> db \<times> (job_error + unit)" where
  \<comment> \<open>the passes with the \<open>catch\<close> block, and what follows when they came to their end\<close>
  "attemptCycle env cl p d =
     (case runCycle env cl p d of
        ((d1, c), Inl _) \<Rightarrow> failCycle (cl_completed cl) (cy_automationRunId p) c d1
      | ((d1, c), Inr _) \<Rightarrow>
        (case run_tx (finishRun (cl_completed cl) (cy_automationRunId p) c) d1 of
           (d2, Inl e) \<Rightarrow> (d2, Inl (Database_Error e))
         | (d2, Inr _) \<Rightarrow>
           (d2, if k_failed c > 0 then Inl (Temporary ''RENEWAL_ACTIONS_FAILED'') else Inr ())))"

definition processCycle :: "renewal_env \<Rightarrow> cycle_clock \<Rightarrow> job_data \<Rightarrow> db \<Rightarrow> db \<times> (job_error + unit)" where
  "processCycle env cl data d =
     (case publishedEvent data d of
        Inl e \<Rightarrow> (d, Inl e)
      | Inr event \<Rightarrow>
        (case renewalCyclePayloadSchema env (o_payload event) of
           None \<Rightarrow> (d, Inl (Permanent ''RENEWAL_CYCLE_PAYLOAD_INVALID''))
         | Some p \<Rightarrow>
           if cy_automationRunId p \<noteq> jd_aggregateId data
           then (d, Inl (Permanent ''RENEWAL_CYCLE_PAYLOAD_INVALID''))
           else
             (case find_run (cy_automationRunId p) d of
                None \<Rightarrow> (d, Inl (Permanent ''RENEWAL_RUN_UNAVAILABLE''))
              | Some r \<Rightarrow>
                if r_status r \<in> {Auto_SUCCEEDED, Auto_SKIPPED} then (d, Inr ())
                else
                  attemptCycle env cl p d)))"

section \<open>Renewal payments\<close>

definition apply_item ::
    "renewal_env \<Rightarrow> instant \<Rightarrow> uuid \<Rightarrow> uuid \<Rightarrow> uuid \<Rightarrow> invoice_item \<Rightarrow> nat tx" where
  \<comment> \<open>one round of the loop over the service lines: how many things it processed\<close>
  "apply_item env now paymentId invoiceId automationRunId it d =
     (case (it_serviceId it, it_periodEnd it) of
        (Some serviceId, Some periodEnd) \<Rightarrow>
          (case find_service serviceId d of
             None \<Rightarrow> Inr (d, 0)
           | Some s \<Rightarrow>
             let advanced = s_nextDueAt s < periodEnd;
                 d1 = (if advanced then set_next_due now (s_id s) periodEnd d else d);
                 n1 = (if advanced then 1 else 0)
             in rbind (if s_status s = Svc_SUSPENDED \<and> s_suspensionInvoiceId s = Some invoiceId
                       then request_hosting env now ''HOSTING_UNSUSPENSION_REQUESTED'' ''automation:unsuspend:''
                              (s_id s) invoiceId automationRunId d1
                       else Inr (d1, 0)) (\<lambda>(d2, requested).
                Inr (if advanced \<or> requested = 1
                     then log_activity
                            \<lparr>a_actorUserId = None, a_action = ''SERVICE_RENEWAL_APPLIED_AFTER_PAYMENT'',
                             a_entityType = ''SERVICE'', a_entityId = Some (s_id s),
                             a_correlationId = Some automationRunId,
                             a_metadata = [(''invoiceId'', JStr invoiceId), (''paymentId'', JStr paymentId)]\<rparr> d2
                     else d2, n1 + requested)))
      | _ \<Rightarrow> Inr (d, 0))"

fun apply_items ::
    "renewal_env \<Rightarrow> instant \<Rightarrow> uuid \<Rightarrow> uuid \<Rightarrow> uuid \<Rightarrow> invoice_item list \<Rightarrow> nat \<Rightarrow> nat tx" where
  "apply_items env now paymentId invoiceId automationRunId [] n d = Inr (d, n)"
| "apply_items env now paymentId invoiceId automationRunId (it # rest) n d =
     rbind (apply_item env now paymentId invoiceId automationRunId it d) (\<lambda>(d', k).
       apply_items env now paymentId invoiceId automationRunId rest (n + k) d')"

definition applyRenewalPayment_tx :: "renewal_env \<Rightarrow> instant \<Rightarrow> uuid \<Rightarrow> uuid \<Rightarrow> uuid \<Rightarrow> nat tx" where
  "applyRenewalPayment_tx env now paymentId invoiceId automationRunId d =
     (case List.find (\<lambda>p. p_id p = paymentId \<and> p_invoiceId p = invoiceId \<and> p_status p = Pay_SUCCEEDED)
             (d_payments d) of
        None \<Rightarrow> Inr (d, 0)
      | Some p \<Rightarrow>
        (case find_invoice (p_invoiceId p) d of
           None \<Rightarrow> Inl (Server_Error ''Foreign key'')
         | Some i \<Rightarrow>
           if i_status i \<noteq> Inv_PAID \<or> i_balanceDue i \<noteq> 0 then Inr (d, 0)
           else apply_items env now paymentId invoiceId automationRunId
                  (filter (\<lambda>it. it_serviceId it \<noteq> None) (i_items i)) 0 d))"

definition payment_run :: "uuid \<Rightarrow> uuid \<Rightarrow> instant \<Rightarrow> automation_run" where
  "payment_run paymentId invoiceId now =
     \<lparr>r_id = [], r_jobName = ''renewal-payment'', r_idempotencyKey = ''renewal-payment:'' @ paymentId,
      r_status = Auto_RUNNING, r_startedAt = now, r_completedAt = None, r_processed = 0,
      r_succeeded = 0, r_failed = 0, r_errorSummary = None,
      r_metadata = JObj [(''invoiceId'', JStr invoiceId)]\<rparr>"

definition upsert_payment_run :: "uuid \<Rightarrow> uuid \<Rightarrow> instant \<Rightarrow> automation_run tx" where
  "upsert_payment_run paymentId invoiceId now d =
     (case find_run_by_key (''renewal-payment:'' @ paymentId) d of
        Some r \<Rightarrow> Inr (d, r)
      | None \<Rightarrow>
        rbind (create_run (payment_run paymentId invoiceId now) d) (\<lambda>(d', k).
          Inr (d', (payment_run paymentId invoiceId now)\<lparr>r_id := k\<rparr>)))"

definition payment_done_update :: "instant \<Rightarrow> nat \<Rightarrow> automation_run \<Rightarrow> automation_run" where
  "payment_done_update now n r =
     r\<lparr>r_status := Auto_SUCCEEDED, r_completedAt := Some now, r_processed := int n,
       r_succeeded := int n, r_failed := 0, r_errorSummary := None\<rparr>"

definition payment_failed_update :: "instant \<Rightarrow> automation_run \<Rightarrow> automation_run" where
  "payment_failed_update now r =
     r\<lparr>r_status := Auto_FAILED, r_completedAt := Some now, r_processed := 1, r_failed := 1,
       r_errorSummary := Some ''RENEWAL_PAYMENT_TEMPORARILY_UNAVAILABLE''\<rparr>"

definition payment_attempt ::
    "renewal_env \<Rightarrow> instant \<Rightarrow> uuid \<Rightarrow> uuid \<Rightarrow> uuid \<Rightarrow> db \<Rightarrow> db \<times> (api_error + unit)" where
  \<comment> \<open>the \<open>try\<close> block: a transaction, and the update of the run after it\<close>
  "payment_attempt env now paymentId invoiceId run d =
     (case run_tx (applyRenewalPayment_tx env now paymentId invoiceId run) d of
        (d1, Inl e) \<Rightarrow> (d1, Inl e)
      | (d1, Inr n) \<Rightarrow> run_tx (update_run run (payment_done_update now n)) d1)"

definition processPayment :: "renewal_env \<Rightarrow> instant \<Rightarrow> job_data \<Rightarrow> db \<Rightarrow> db \<times> (job_error + unit)" where
  "processPayment env now data d =
     (case publishedEvent data d of
        Inl e \<Rightarrow> (d, Inl e)
      | Inr event \<Rightarrow>
        (case renewalPaymentPayloadSchema env (o_payload event) of
           None \<Rightarrow> (d, Inl (Permanent ''RENEWAL_PAYMENT_PAYLOAD_INVALID''))
         | Some (paymentId, invoiceId) \<Rightarrow>
           if paymentId \<noteq> jd_aggregateId data
           then (d, Inl (Permanent ''RENEWAL_PAYMENT_PAYLOAD_INVALID''))
           else
             (case run_tx (upsert_payment_run paymentId invoiceId now) d of
                (d1, Inl e) \<Rightarrow> (d1, Inl (Database_Error e))
              | (d1, Inr r) \<Rightarrow>
                if r_status r = Auto_SUCCEEDED then (d1, Inr ())
                else
                  (case payment_attempt env now paymentId invoiceId (r_id r) d1 of
                     (d2, Inr _) \<Rightarrow> (d2, Inr ())
                   | (d2, Inl _) \<Rightarrow>
                     (case run_tx (update_runs (r_id r) (payment_failed_update now)) d2 of
                        (d3, Inl e) \<Rightarrow> (d3, Inl (Database_Error e))
                      | (d3, Inr _) \<Rightarrow>
                        (d3, Inl (Temporary ''RENEWAL_PAYMENT_TEMPORARILY_UNAVAILABLE'')))))))"

definition renewal_process ::
    "renewal_env \<Rightarrow> cycle_clock \<Rightarrow> instant \<Rightarrow> job_data \<Rightarrow> db \<Rightarrow> db \<times> (job_error + unit)" where
  \<comment> \<open>\<open>process\<close>\<close>
  "renewal_process env cl now data d =
     (if jd_eventType data = ''RENEWAL_INVOICE_GENERATION_REQUESTED'' then processCycle env cl data d
      else if jd_eventType data = ''RENEWAL_PAYMENT_COMPLETED'' then processPayment env now data d
      else (d, Inl (Permanent ''RENEWAL_EVENT_UNSUPPORTED'')))"


section \<open>The renewals and the ledger\<close>

lemma worker_allocate_eq: "worker_allocateInvoiceNumber d = allocateInvoiceNumber d"
  by (simp add: worker_allocateInvoiceNumber_def allocateInvoiceNumber_def Let_def)

lemma set_next_due_frame [simp]:
  "ledger_of (set_next_due now k t d) = ledger_of d" "d_invoices (set_next_due now k t d) = d_invoices d"
  "d_outbox (set_next_due now k t d) = d_outbox d" "d_runs (set_next_due now k t d) = d_runs d"
  "d_payments (set_next_due now k t d) = d_payments d" "d_supply (set_next_due now k t d) = d_supply d"
  by (simp_all add: set_next_due_def ledger_of_def)

lemma renewal_items_keys [simp]:
  "service_keys (renewal_items s a b addOns) = [(Some (s_id s), Some a, Some b)]"
proof -
  have "filter (\<lambda>it. it_serviceId it \<noteq> None) (map (\<lambda>(n, oi). add_on_line a b n oi) xs) = []" for xs
    by (induction xs) (auto simp: add_on_line_def)
  then show ?thesis by (simp add: renewal_items_def service_keys_def renewal_line_def)
qed

lemma period_billed_iff:
  "period_billed k a b d \<longleftrightarrow> (Some k, Some a, Some b) \<in> set (billed_periods (d_invoices d))"
proof -
  have "list_ex (\<lambda>it. it_serviceId it = Some k \<and> it_periodStart it = Some a \<and> it_periodEnd it = Some b) items \<longleftrightarrow>
      (Some k, Some a, Some b) \<in> set (service_keys items)" for items
    by (induction items) (auto simp: service_keys_def)
  then show ?thesis by (simp add: period_billed_def billed_periods_def list_ex_iff)
qed

lemma issueRenewal_tx_cases:
  assumes "issueRenewal_tx env s c u bp run now d = Inr (d', x)"
  obtains number snapshot row k where
    "row = (renewal_row s snapshot number (s_nextDueAt s) (addBillingPeriod (s_nextDueAt s) bp)
              (renewal_add_ons s bp (s_nextDueAt s) d) now)\<lparr>i_id := k\<rparr>"
    and "x" and "renewal_total s (renewal_add_ons s bp (s_nextDueAt s) d) \<le> POSTGRES_BIGINT_MAX"
    and "invoice_check row" and "list_all invoice_item_check (i_items row)"
    and "k \<notin> i_id ` set (d_invoices d)" and "number \<notin> i_number ` set (d_invoices d)"
    and "i_submissionKey row \<notin> i_submissionKey ` set (d_invoices d)"
    and "d_invoices d' = d_invoices d @ [row]" and "d_payments d' = d_payments d"
proof -
  let ?addOns = "renewal_add_ons s bp (s_nextDueAt s) d"
  let ?till = "addBillingPeriod (s_nextDueAt s) bp"
  from assms obtain number snapshot k d1 d2 d3 where
    1: "allocateInvoiceNumber d = Inr (d1, number)"
    and 2: "create_invoice (renewal_row s snapshot number (s_nextDueAt s) ?till ?addOns now) d1 = Inr (d2, k)"
    and 3: "ledger_of d3 = ledger_of d2" "ledger_of d' = ledger_of d3"
    and x: "x" "renewal_total s ?addOns \<le> POSTGRES_BIGINT_MAX"
    by (auto simp: issueRenewal_tx_def Let_def result_simps worker_allocate_eq
        dest!: create_outbox_ledger split: if_splits)
  have same: "d_invoices d1 = d_invoices d" "d_payments d1 = d_payments d"
    using allocateInvoiceNumber_ledger [OF 1] by (simp_all add: ledger_of_def)
  from 2 show ?thesis
    by (rule create_invoice_cases)
      (rule that [OF refl x], use 3 same in \<open>simp_all add: ledger_of_def renewal_row_def Let_def\<close>)
qed

lemma createRenewalInvoice_tx_cases:
  assumes "createRenewalInvoice_tx env k run now d = Inr (d', x)"
  obtains (skipped) "d' = d" and "\<not> x"
  | (issued) s c u bp where "find_service k d = Some s" and "service_owner s d = Some (c, u)"
    and "service_billable s c u d" and "s_billingPeriod s = Some bp"
    and "\<not> period_billed k (s_nextDueAt s) (addBillingPeriod (s_nextDueAt s) bp) d"
    and "issueRenewal_tx env s c u bp run now d = Inr (d', x)"
  using assms
  by (auto simp: createRenewalInvoice_tx_def result_simps split: option.splits if_splits)

lemma find_service_idD: "find_service k d = Some s \<Longrightarrow> s_id s = k"
  by (auto simp: find_service_def dest: find_Some_D)

interpretation renewal_invoice: ledger_client "createRenewalInvoice_tx env k run now"
  for env k run now
proof
  fix d d' x
  assume inv: "ledger_inv (ledger_of d)" and tx: "createRenewalInvoice_tx env k run now d = Inr (d', x)"
  from tx show "ledger_steps (ledger_of d) (ledger_of d')"
  proof (cases rule: createRenewalInvoice_tx_cases)
    case skipped
    then show ?thesis by simp
  next
    case (issued s c u bp)
    from issued(6) obtain number snapshot row i where
      row: "row = (renewal_row s snapshot number (s_nextDueAt s) (addBillingPeriod (s_nextDueAt s) bp)
              (renewal_add_ons s bp (s_nextDueAt s) d) now)\<lparr>i_id := i\<rparr>"
      and checks: "invoice_check row" "list_all invoice_item_check (i_items row)"
      and fresh: "i \<notin> i_id ` set (d_invoices d)"
      and d': "d_invoices d' = d_invoices d @ [row]" "d_payments d' = d_payments d"
      by (rule issueRenewal_tx_cases)
    have fields: "i_id row = i" "i_amountPaid row = 0" "i_status row \<in> {Inv_PAID, Inv_UNPAID}"
      "i_status row = Inv_PAID \<Longrightarrow> i_balanceDue row = 0"
      "service_keys (i_items row) = [(Some k, Some (s_nextDueAt s), Some (addBillingPeriod (s_nextDueAt s) bp))]"
      using find_service_idD [OF issued(1)]
      by (auto simp: row renewal_row_def Let_def split: if_splits)
    have "distinct (billed_periods (d_invoices d @ [row]))"
      using inv issued(5) by (simp add: fields period_billed_iff ledger_inv_iff ledger_of_def)
    moreover have "invoice_ok row" using checks fields by (auto simp: invoice_ok_def)
    ultimately have "ledger_step (d_invoices d, d_payments d) (d_invoices d @ [row], d_payments d)"
      using fresh fields by (intro open_invoice) simp_all
    then show ?thesis using d' by (simp add: ledger_of_def r_into_rtranclp)
  qed
qed

lemma counted_some:
  assumes "distinct (map i_id is)" and "count_where (\<lambda>i. i_id i = k \<and> P i) is \<noteq> 0"
  obtains i where "row_of k is = Some i" and "P i"
proof -
  obtain i where i: "i \<in> set is" "i_id i = k" "P i"
    using assms(2) count_where_pos [of "\<lambda>i. i_id i = k \<and> P i" "is"] by auto
  with find_key_eq [OF assms(1) i(1)] that show ?thesis by auto
qed

lemma markOverdue_tx_cases:
  assumes "markOverdue_tx k run now d = Inr (d', x)" and "ledger_inv (ledger_of d)"
  obtains (unchanged) "d' = d" and "\<not> x"
  | (marked) i d1 where "find_invoice k d = Some i" and "i_status i = Inv_UNPAID" and "0 < i_balanceDue i"
    and "i_dueAt i \<le> now" and "update_invoice now k (\<lambda>i. i\<lparr>i_status := Inv_OVERDUE\<rparr>) d = Inr (d1, ())"
    and "ledger_of d' = ledger_of d1" and "x"
proof (cases "count_where (\<lambda>i. i_id i = k \<and> (i_status i = Inv_UNPAID \<and> 0 < i_balanceDue i \<and>
                          i_dueAt i \<le> now)) (d_invoices d) = 0")
  case True
  then show ?thesis using assms(1) unchanged by (simp add: markOverdue_tx_def)
next
  case False
  have "distinct (map i_id (d_invoices d))" using assms(2) by (simp add: ledger_inv_iff ledger_of_def)
  then obtain i where i: "row_of k (d_invoices d) = Some i"
      "i_status i = Inv_UNPAID \<and> 0 < i_balanceDue i \<and> i_dueAt i \<le> now"
    using False by (rule counted_some)
  from assms(1) False obtain d1 where
    "update_invoice now k (\<lambda>i. i\<lparr>i_status := Inv_OVERDUE\<rparr>) d = Inr (d1, ())"
    "ledger_of d' = ledger_of d1" "x"
    by (auto simp: markOverdue_tx_def result_simps dest!: create_outbox_ledger)
  moreover have "find_invoice k d = Some i" using i(1) by (simp add: find_invoice_def)
  moreover have "i_status i = Inv_UNPAID" "0 < i_balanceDue i" "i_dueAt i \<le> now" using i(2) by blast+
  ultimately show ?thesis using marked by blast
qed

interpretation mark_overdue: ledger_client "markOverdue_tx k run now"
  for k run now
proof
  fix d d' x
  assume inv: "ledger_inv (ledger_of d)" and tx: "markOverdue_tx k run now d = Inr (d', x)"
  from tx inv show "ledger_steps (ledger_of d) (ledger_of d')"
  proof (cases rule: markOverdue_tx_cases)
    case unchanged
    then show ?thesis by simp
  next
    case (marked i d1)
    have "ledger_step (ledger_of d) (ledger_of d1)"
      using marked(2,3) find_invoice_idD [OF marked(1)]
      by (intro update_invoice_step [OF marked(5,1)]) simp_all
    then show ?thesis using marked(6) by (simp add: r_into_rtranclp)
  qed
qed


section \<open>What a renewal action changes\<close>

definition same_tables :: "db \<Rightarrow> db \<Rightarrow> bool" where
  \<comment> \<open>neither a service, a run, a cancellation nor a panel operation is touched\<close>
  "same_tables d d' \<longleftrightarrow>
     d_services d' = d_services d \<and> d_runs d' = d_runs d \<and> hosting_tables d' = hosting_tables d"

lemma hosting_tables_updates [simp]:
  "hosting_tables (d\<lparr>d_outbox := x1\<rparr>) = hosting_tables d"
  "hosting_tables (d\<lparr>d_supply := n\<rparr>) = hosting_tables d"
  "hosting_tables (d\<lparr>d_services := x2\<rparr>) = hosting_tables d"
  "hosting_tables (d\<lparr>d_runs := x3\<rparr>) = hosting_tables d"
  "hosting_tables (d\<lparr>d_activity := x4\<rparr>) = hosting_tables d"
  "hosting_tables (log_activity a d) = hosting_tables d"
  "hosting_tables (set_next_due now k t d) = hosting_tables d"
  by (simp_all add: hosting_tables_def log_activity_def set_next_due_def)

lemma same_tables_calls:
  "allocateInvoiceNumber d = Inr (d', n) \<Longrightarrow> same_tables d d'"
  "create_invoice row d = Inr (d', k) \<Longrightarrow> same_tables d d'"
  "update_invoice now k f d = Inr (d', u) \<Longrightarrow> same_tables d d'"
  "create_outbox now a k t key v d = Inr (d', u) \<Longrightarrow> same_tables d d'"
  by (auto simp: same_tables_def hosting_tables_def allocateInvoiceNumber_def upsert_setting_def Let_def create_invoice_def
      update_invoice_def create_outbox_def split: option.splits if_splits)

lemma same_tables_log [simp]: "same_tables d (log_activity a d') = same_tables d d'"
  by (simp add: same_tables_def hosting_tables_def log_activity_def)

lemma same_tables_trans: "same_tables d d1 \<Longrightarrow> same_tables d1 d2 \<Longrightarrow> same_tables d d2"
  by (simp add: same_tables_def)

definition moved_forward :: "service \<Rightarrow> service \<Rightarrow> bool" where
  \<comment> \<open>at most the next due date changed, and it did not go back\<close>
  "moved_forward s s' \<longleftrightarrow>
     s' = s\<lparr>s_nextDueAt := s_nextDueAt s', s_updatedAt := s_updatedAt s'\<rparr> \<and> s_nextDueAt s \<le> s_nextDueAt s'"

lemma moved_forward_refl [simp]: "moved_forward s s"
  by (simp add: moved_forward_def)

lemma moved_forward_iff:
  "moved_forward s s' \<longleftrightarrow> (\<exists>t now. s' = s\<lparr>s_nextDueAt := t, s_updatedAt := now\<rparr> \<and> s_nextDueAt s \<le> t)"
  by (auto simp: moved_forward_def)

lemma moved_forward_trans: "moved_forward s t \<Longrightarrow> moved_forward t u \<Longrightarrow> moved_forward s u"
  unfolding moved_forward_iff
  by (elim exE conjE, rule exI [of _ "s_nextDueAt u"], rule exI [of _ "s_updatedAt u"]) simp

definition services_forward :: "db \<Rightarrow> db \<Rightarrow> bool" where
  "services_forward d d' \<longleftrightarrow> list_all2 moved_forward (d_services d) (d_services d')"

lemma services_forward_same: "d_services d' = d_services d \<Longrightarrow> services_forward d d'"
  by (simp add: services_forward_def list_all2_refl)

lemma services_forward_trans: "services_forward d d1 \<Longrightarrow> services_forward d1 d2 \<Longrightarrow> services_forward d d2"
  unfolding services_forward_def by (rule list_all2_trans [OF moved_forward_trans])

definition services_ready :: "db \<Rightarrow> bool" where
  \<comment> \<open>the primary key, and due dates the calendar can advance\<close>
  "services_ready d \<longleftrightarrow>
     distinct (map s_id (d_services d)) \<and> (\<forall>s \<in> set (d_services d). 100 \<le> getUTCFullYear (s_nextDueAt s))"

lemma getUTCFullYear_mono: "s \<le> t \<Longrightarrow> getUTCFullYear s \<le> getUTCFullYear t"
  using month_index_less [of t s] instant_fields(1,2) [of s] instant_fields(1,2) [of t]
  by (auto simp: month_index_def not_less [symmetric])

lemma services_ready_forward:
  assumes "services_ready d" and "services_forward d d'"
  shows "services_ready d'"
proof -
  have "s_id s' = s_id s" if "moved_forward s s'" for s s'
    using that by (auto simp: moved_forward_iff)
  then have "list_all2 (\<lambda>s s'. s_id s = s_id s') (d_services d) (d_services d')"
    using assms(2) unfolding services_forward_def by (auto elim!: list_all2_mono)
  then have ids: "map s_id (d_services d') = map s_id (d_services d)"
    by (simp add: list_all2_conv_all_nth list_eq_iff_nth_eq)
  have "100 \<le> getUTCFullYear (s_nextDueAt s')" if mem: "s' \<in> set (d_services d')" for s'
  proof -
    obtain n where n: "n < length (d_services d')" "s' = d_services d' ! n"
      using mem by (auto simp: in_set_conv_nth)
    obtain s where "s \<in> set (d_services d)" "moved_forward s s'"
    proof
      show "d_services d ! n \<in> set (d_services d)" "moved_forward (d_services d ! n) s'"
        using assms(2) n by (auto simp: services_forward_def list_all2_conv_all_nth)
    qed
    with assms(1) show ?thesis
      using getUTCFullYear_mono [of "s_nextDueAt s" "s_nextDueAt s'"]
      by (fastforce simp: services_ready_def moved_forward_def)
  qed
  with ids assms(1) show ?thesis by (simp add: services_ready_def)
qed

lemma set_next_due_forward:
  assumes "distinct (map s_id (d_services d))" and "find_service k d = Some s" and "s_nextDueAt s \<le> t"
  shows "services_forward d (set_next_due now k t d)"
proof -
  have s: "s \<in> set (d_services d)" "s_id s = k"
    using assms(2) by (auto simp: find_service_def dest: find_Some_D)
  have "moved_forward r (if s_id r = k then r\<lparr>s_nextDueAt := t, s_updatedAt := now\<rparr> else r)" if "r \<in> set (d_services d)" for r
  proof (cases "s_id r = k")
    case True
    then have "r = s" using distinct_key_inj [OF assms(1) that s(1)] s(2) by simp
    with assms(3) True show ?thesis by (simp add: moved_forward_def)
  qed simp
  then show ?thesis
    by (simp add: services_forward_def set_next_due_def update_many_def list_all2_map2 list_all2_same)
qed

section \<open>A cycle only makes renewal steps\<close>

definition renewal_ready :: "db \<Rightarrow> bool" where
  "renewal_ready d \<longleftrightarrow> ledger_inv (ledger_of d) \<and> services_ready d"

definition renewal_step :: "db \<Rightarrow> db \<Rightarrow> bool" where
  \<comment> \<open>accounting steps, due dates that move forward, no change of a run or of a panel operation\<close>
  "renewal_step d d' \<longleftrightarrow>
     ledger_steps (ledger_of d) (ledger_of d') \<and> services_forward d d' \<and> d_runs d' = d_runs d \<and>
     hosting_tables d' = hosting_tables d"

lemma renewal_step_refl [simp]: "renewal_step d d"
  by (simp add: renewal_step_def services_forward_same)

lemma renewal_step_trans: "renewal_step d d1 \<Longrightarrow> renewal_step d1 d2 \<Longrightarrow> renewal_step d d2"
  unfolding renewal_step_def using services_forward_trans by (auto intro: rtranclp_trans)

lemma renewal_ready_step: "renewal_ready d \<Longrightarrow> renewal_step d d' \<Longrightarrow> renewal_ready d'"
  unfolding renewal_ready_def renewal_step_def using ledger_steps_inv services_ready_forward by blast

lemma renewal_step_same: "ledger_of d' = ledger_of d \<Longrightarrow> same_tables d d' \<Longrightarrow> renewal_step d d'"
  by (simp add: renewal_step_def same_tables_def services_forward_same)

definition job_ok :: "db \<Rightarrow> job_state \<Rightarrow> bool" where
  \<comment> \<open>what holds at every moment of a cycle that began in the database \<open>d0\<close>\<close>
  "job_ok d0 = (\<lambda>(d, c). renewal_ready d \<and> renewal_step d0 d \<and>
     0 \<le> k_succeeded c \<and> 0 \<le> k_failed c \<and> k_succeeded c + k_failed c \<le> k_processed c)"

text \<open>The contract of an action that a cycle counts, and what a cycle makes of it.\<close>

locale renewal_action =
  fixes act :: "bool handler"
  assumes act_step: "renewal_ready d \<Longrightarrow> act d = (d', r) \<Longrightarrow> renewal_step d d'"
begin

lemma counted: "job_ok d0 st \<Longrightarrow> job_ok d0 (count_action act st)"
proof -
  obtain d c where st: "st = (d, c)" by (cases st)
  obtain d' r where act: "act d = (d', r)" by (cases "act d")
  assume ok: "job_ok d0 st"
  then have "renewal_step d d'" using act_step [OF _ act] by (simp add: st job_ok_def)
  with ok have "renewal_ready d'" "renewal_step d0 d'"
    using renewal_ready_step renewal_step_trans by (auto simp: st job_ok_def)
  with ok show ?thesis
    by (auto simp: st act job_ok_def count_action_def Let_def split: sum.splits bool.splits)
qed

end

lemma issueRenewal_services:
  assumes "issueRenewal_tx env s c u bp run now d = Inr (d', x)"
  shows "d_runs d' = d_runs d \<and> hosting_tables d' = hosting_tables d \<and>
    d_services d' =
      (if renewal_total s (renewal_add_ons s bp (s_nextDueAt s) d) = 0
       then d_services (set_next_due now (s_id s) (addBillingPeriod (s_nextDueAt s) bp) d) else d_services d)"
proof -
  let ?free = "renewal_total s (renewal_add_ons s bp (s_nextDueAt s) d) = 0"
  let ?till = "addBillingPeriod (s_nextDueAt s) bp"
  have fits: "\<not> POSTGRES_BIGINT_MAX < renewal_total s (renewal_add_ons s bp (s_nextDueAt s) d)"
    using assms by (auto simp: issueRenewal_tx_def Let_def)
  from assms obtain d1 number row d2 k key v d3 a where
    "allocateInvoiceNumber d = Inr (d1, number)" and "create_invoice row d1 = Inr (d2, k)"
    and "create_outbox now ''INVOICE'' k ''EMAIL_INVOICE_CREATED'' key v
           (if ?free then set_next_due now (s_id s) ?till d2 else d2) = Inr (d3, ())"
    and d': "d' = log_activity a d3"
    using fits by (auto simp: issueRenewal_tx_def Let_def result_simps worker_allocate_eq split del: if_split)
  then have "same_tables d d1" "same_tables d1 d2"
    "same_tables (if ?free then set_next_due now (s_id s) ?till d2 else d2) d3"
    by (simp_all only: same_tables_calls)
  then show ?thesis
    by (simp add: d' same_tables_def hosting_tables_def set_next_due_def log_activity_def)
qed

lemma createRenewalInvoice_step:
  assumes ready: "renewal_ready d" and tx: "createRenewalInvoice_tx env k run now d = Inr (d', x)"
  shows "renewal_step d d'"
proof -
  have "ledger_steps (ledger_of d) (ledger_of d')"
    using ready renewal_invoice.refines [OF _ tx] by (simp add: renewal_ready_def)
  moreover from tx have "services_forward d d' \<and> d_runs d' = d_runs d \<and> hosting_tables d' = hosting_tables d"
  proof (cases rule: createRenewalInvoice_tx_cases)
    case skipped
    then show ?thesis by (simp add: services_forward_same)
  next
    case (issued s c u bp)
    have "s \<in> set (d_services d)" using issued(1) by (auto simp: find_service_def dest: find_Some_D)
    then have "100 \<le> getUTCFullYear (s_nextDueAt s)"
      using ready by (simp add: renewal_ready_def services_ready_def)
    then have "s_nextDueAt s \<le> addBillingPeriod (s_nextDueAt s) bp"
      using worker_calendar.advance_later [of "s_nextDueAt s" bp] by simp
    then have "services_forward d (set_next_due now (s_id s) (addBillingPeriod (s_nextDueAt s) bp) d)"
      using ready set_next_due_forward issued(1) find_service_idD [OF issued(1)]
      by (auto simp: renewal_ready_def services_ready_def)
    with issueRenewal_services [OF issued(6)] show ?thesis
      by (auto simp: services_forward_def list_all2_refl split: if_splits)
  qed
  ultimately show ?thesis by (simp add: renewal_step_def)
qed

lemma run_tx_step:
  assumes "run_tx t d = (d', r)" and "\<And>d' x. t d = Inr (d', x) \<Longrightarrow> renewal_step d d'"
  shows "renewal_step d d'"
  using assms by (auto simp: run_tx_def split: sum.splits)

interpretation count_invoice: renewal_action "createRenewalInvoice env k run now" for env k run now
proof
  fix d d' r
  assume ready: "renewal_ready d" and act: "createRenewalInvoice env k run now d = (d', r)"
  from act obtain r' where "run_tx (createRenewalInvoice_tx env k run now) d = (d', r')"
    by (auto simp: createRenewalInvoice_def split: prod.splits sum.splits api_error.splits)
  then show "renewal_step d d'" using createRenewalInvoice_step [OF ready] run_tx_step by blast
qed


interpretation count_overdue: renewal_action "markOverdue k run now" for k run now
proof
  fix d d' r
  assume ready: "renewal_ready d" and act: "markOverdue k run now d = (d', r)"
  have "renewal_step d d'" if tx: "markOverdue_tx k run now d = Inr (d', x)" for d' x
  proof -
    have inv: "ledger_inv (ledger_of d)" using ready by (simp add: renewal_ready_def)
    have "same_tables d d'"
      using tx by (auto simp: markOverdue_tx_def result_simps dest!: same_tables_calls
          intro: same_tables_trans split: if_splits) (simp add: same_tables_def hosting_tables_def)
    then show ?thesis
      using mark_overdue.refines [OF inv tx] by (simp add: renewal_step_def same_tables_def services_forward_same)
  qed
  then show "renewal_step d d'" using act run_tx_step unfolding markOverdue_def by blast
qed

lemma create_outbox_skip_step: "create_outbox_skip now a k t key v d = (d', n) \<Longrightarrow> renewal_step d d'"
  unfolding create_outbox_skip_def
  by (auto intro!: renewal_step_same dest: create_outbox_ledger same_tables_calls split: sum.splits)

lemma request_hosting_step: "request_hosting env now t keyPrefix s i run d = Inr (d', n) \<Longrightarrow> renewal_step d d'"
  by (auto simp: request_hosting_def Let_def dest: create_outbox_skip_step split: if_splits)

interpretation count_suspension: renewal_action "run_tx (requestSuspension env now s i run)" for env now s i run
proof
  fix d d' r
  assume "run_tx (requestSuspension env now s i run) d = (d', r)"
  then show "renewal_step d d'"
    by (rule run_tx_step) (auto simp: requestSuspension_def result_simps dest: request_hosting_step)
qed

interpretation count_reminder: renewal_action "send_reminder now k n days" for now k n days
  by unfold_locales (auto simp: send_reminder_def dest: create_outbox_skip_step split: prod.splits)

lemma due_loop_ok: "job_ok d0 st \<Longrightarrow> job_ok d0 (fst (due_loop env run policy now date ss st))"
  by (induction ss arbitrary: st) (auto simp: count_invoice.counted split: sum.splits)

lemma createDueInvoices_ok: "job_ok d0 st \<Longrightarrow> job_ok d0 (fst (createDueInvoices env cl run policy st))"
  by (auto simp: createDueInvoices_def due_loop_ok split: sum.splits option.splits)

lemma reminders_loop_ok: "job_ok d0 st \<Longrightarrow> job_ok d0 (fst (reminders_loop now k date due n ds st))"
  by (induction ds arbitrary: n st) (auto simp: count_reminder.counted split: sum.splits)

lemma createReminders_ok: "job_ok d0 st \<Longrightarrow> job_ok d0 (fst (createReminders env now k due policy st))"
  by (auto simp: createReminders_def reminders_loop_ok split: sum.splits)

lemma suspend_loop_ok: "job_ok d0 st \<Longrightarrow> job_ok d0 (suspend_loop env now run k ss st)"
  by (induction ss arbitrary: st) (auto simp: count_suspension.counted split: option.splits)

lemma after_due_ok: "job_ok d0 st \<Longrightarrow> job_ok d0 (fst (after_due env cl run policy i ss st))"
  by (auto simp: after_due_def Let_def suspend_loop_ok count_overdue.counted split: sum.splits)

lemma open_loop_ok: "job_ok d0 st \<Longrightarrow> job_ok d0 (fst (open_loop env cl run policy is st))"
proof (induction "is" arbitrary: st)
  case (Cons x "is")
  obtain i ss where x: "x = (i, ss)" by (cases x)
  obtain st1 r1 where 1: "(if i_status i = Inv_UNPAID
      then createReminders env (cl_reminder cl (i_id i)) (i_id i) (i_dueAt i) policy st
      else (st, Inr ())) = (st1, r1)" by fastforce
  have ok1: "job_ok d0 st1"
    using 1 Cons.prems createReminders_ok [OF Cons.prems, of env "cl_reminder cl (i_id i)" "i_id i" "i_dueAt i" policy]
    by (auto split: if_splits)
  obtain st2 r2 where 2: "after_due env cl run policy i ss st1 = (st2, r2)" by fastforce
  then have "job_ok d0 st2" using after_due_ok [OF ok1] by (metis fst_conv)
  then show ?case using ok1 Cons.IH by (simp add: x 1 2 split: sum.splits)
qed simp

lemma processOpenRenewals_ok: "job_ok d0 st \<Longrightarrow> job_ok d0 (fst (processOpenRenewals env cl run policy st))"
  by (auto simp: processOpenRenewals_def open_loop_ok split: option.splits)

lemma runCycle_ok:
  assumes "renewal_ready d"
  shows "job_ok d (fst (runCycle env cl p d))"
proof -
  have "job_ok d (d, no_counts)" using assms by (simp add: job_ok_def no_counts_def)
  then have "job_ok d (fst (createDueInvoices env cl (cy_automationRunId p) (cy_policy p) (d, no_counts)))"
    by (rule createDueInvoices_ok)
  then show ?thesis
    by (auto simp: runCycle_def processOpenRenewals_ok split: prod.splits sum.splits)
qed


section \<open>Renewal payments are applied once\<close>

lemma find_service_set_next_due:
  "find_service k' (set_next_due now k t d) =
     map_option (\<lambda>s. if k' = k then s\<lparr>s_nextDueAt := t, s_updatedAt := now\<rparr> else s) (find_service k' d)"
  unfolding find_service_def set_next_due_def
  by (simp add: find_update_many_key option.map_id0 [unfolded id_def])

definition outbox_blocked :: "string \<Rightarrow> db \<Rightarrow> bool" where
  "outbox_blocked key d \<longleftrightarrow> list_ex (\<lambda>e. o_idempotencyKey e = key \<or> o_id e = fresh_uuid d) (d_outbox d)"

lemma create_outbox_skip_cases:
  assumes "create_outbox_skip now a k t key v d = (d', n)"
  obtains (skipped) "outbox_blocked key d" and "d' = d" and "n = 0"
  | (created) e where "\<not> outbox_blocked key d" and "o_idempotencyKey e = key"
      and "d' = d\<lparr>d_outbox := d_outbox d @ [e], d_supply := Suc (d_supply d)\<rparr>" and "n = 1"
proof (cases "outbox_blocked key d")
  case True
  then have "create_outbox now a k t key v d = Inl Unique_Violation"
    unfolding create_outbox_def outbox_blocked_def by (rule if_P)
  then have "d' = d" "n = 0" using assms unfolding create_outbox_skip_def by simp_all
  then show ?thesis by (rule skipped [OF True])
next
  case False
  let ?e = "\<lparr>o_id = fresh_uuid d, o_aggregateType = a, o_aggregateId = k, o_eventType = t,
    o_idempotencyKey = key, o_payload = v, o_status = Out_PENDING, o_attemptCount = 0, o_availableAt = now,
    o_lockedAt = None, o_lockedBy = None, o_publishedAt = None, o_lastError = None\<rparr>"
  have "create_outbox now a k t key v d =
      Inr (d\<lparr>d_outbox := d_outbox d @ [?e], d_supply := Suc (d_supply d)\<rparr>, ())"
    using False unfolding create_outbox_def outbox_blocked_def by (rule if_not_P)
  then have 1: "d' = d\<lparr>d_outbox := d_outbox d @ [?e], d_supply := Suc (d_supply d)\<rparr>" and 2: "n = 1"
    using assms unfolding create_outbox_skip_def by simp_all
  show ?thesis by (rule created [OF False _ 1 2]) simp
qed

lemma outbox_blocked_kept:
  assumes "create_outbox_skip now a k t key v d = (d', n)" and "outbox_blocked key' d"
  shows "outbox_blocked key' d'"
  using assms(1)
proof (cases rule: create_outbox_skip_cases)
  case skipped
  with assms(2) show ?thesis by simp
next
  case (created e)
  then have "\<not> list_ex (\<lambda>e. o_id e = fresh_uuid d) (d_outbox d)"
    by (auto simp: outbox_blocked_def list_ex_iff)
  with assms(2) have "list_ex (\<lambda>e. o_idempotencyKey e = key') (d_outbox d)"
    by (auto simp: outbox_blocked_def list_ex_iff)
  with created show ?thesis by (auto simp: outbox_blocked_def list_ex_iff)
qed

lemma outbox_blocked_created:
  "create_outbox_skip now a k t key v d = (d', n) \<Longrightarrow> outbox_blocked key d'"
  by (erule create_outbox_skip_cases) (auto simp: outbox_blocked_def)

lemma outbox_blocked_skip: "outbox_blocked key d \<Longrightarrow> create_outbox_skip now a k t key v d = (d, 0)"
  by (simp add: create_outbox_skip_def create_outbox_def outbox_blocked_def)

lemma outbox_blocked_frame [simp]:
  "outbox_blocked key (set_next_due now k t d) = outbox_blocked key d"
  "outbox_blocked key (log_activity a d) = outbox_blocked key d"
  by (simp_all add: outbox_blocked_def fresh_uuid_def log_activity_def)

lemma find_service_frame [simp]: "find_service k (log_activity a d) = find_service k d"
  by (simp add: find_service_def log_activity_def)

lemma find_service_skip:
  "create_outbox_skip now a k t key v d = (d', n) \<Longrightarrow> find_service x d' = find_service x d"
  by (erule create_outbox_skip_cases) (simp_all add: find_service_def)

definition item_settled :: "renewal_env \<Rightarrow> uuid \<Rightarrow> invoice_item \<Rightarrow> db \<Rightarrow> bool" where
  \<comment> \<open>nothing is left to do for a service line of a paid renewal invoice\<close>
  "item_settled env invoiceId it d \<longleftrightarrow>
     (case (it_serviceId it, it_periodEnd it) of
        (Some k, Some t) \<Rightarrow>
          (case find_service k d of
             None \<Rightarrow> True
           | Some s \<Rightarrow> t \<le> s_nextDueAt s \<and>
               (s_status s = Svc_SUSPENDED \<and> s_suspensionInvoiceId s = Some invoiceId \<longrightarrow>
                  outbox_blocked (''automation:unsuspend:'' @ s_id s @ '':'' @ invoiceId) d \<and>
                  env_uuid env (s_id s) \<and> env_uuid env invoiceId))
      | _ \<Rightarrow> True)"

lemma hosting_payload_ok:
  "hostingAutomationPayloadSchema env (hosting_payload_json s i r) \<noteq> None \<longleftrightarrow>
     env_uuid env s \<and> env_uuid env i \<and> env_uuid env r"
  by (simp add: hostingAutomationPayloadSchema_def hosting_payload_json_def str_field_def)

lemma request_hosting_cases:
  assumes "request_hosting env now t keyPrefix s i run d = Inr (d', n)"
  obtains v where "env_uuid env s" and "env_uuid env i"
    and "create_outbox_skip now ''SERVICE'' s t (keyPrefix @ s @ '':'' @ i) v d = (d', n)"
  using assms hosting_payload_ok [of env s i run]
  by (auto simp: request_hosting_def Let_def split: if_splits)

lemma apply_item_cases:
  assumes "apply_item env now pay bill run it d = Inr (d', n)"
  obtains (idle) "d' = d" and "n = 0"
      and "it_serviceId it = None \<or> it_periodEnd it = None \<or> (\<exists>k. it_serviceId it = Some k \<and> find_service k d = None)"
  | (applied) k t s d1 d2 m where "it_serviceId it = Some k" and "it_periodEnd it = Some t"
      and "find_service k d = Some s" and "d1 = (if s_nextDueAt s < t then set_next_due now k t d else d)"
      and "if s_status s = Svc_SUSPENDED \<and> s_suspensionInvoiceId s = Some bill
           then request_hosting env now ''HOSTING_UNSUSPENSION_REQUESTED'' ''automation:unsuspend:'' k bill run d1
                  = Inr (d2, m)
           else d2 = d1 \<and> m = 0"
      and "d' = d2 \<or> (\<exists>a. d' = log_activity a d2)"
proof (cases "it_serviceId it = None \<or> it_periodEnd it = None \<or> (\<exists>k. it_serviceId it = Some k \<and> find_service k d = None)")
  case True
  have "d' = d \<and> n = 0" using assms True by (auto simp: apply_item_def split: option.splits)
  then show ?thesis by (intro idle) (use True in simp_all)
next
  case False
  then obtain k t s where k: "it_serviceId it = Some k" "it_periodEnd it = Some t" "find_service k d = Some s"
    by auto
  have id: "s_id s = k" using find_service_idD [OF k(3)] .
  let ?d1 = "if s_nextDueAt s < t then set_next_due now k t d else d"
  let ?a = "\<lparr>a_actorUserId = None, a_action = ''SERVICE_RENEWAL_APPLIED_AFTER_PAYMENT'',
    a_entityType = ''SERVICE'', a_entityId = Some k, a_correlationId = Some run,
    a_metadata = [(''invoiceId'', JStr bill), (''paymentId'', JStr pay)]\<rparr>"
  from assms obtain d2 m where
    1: "(if s_status s = Svc_SUSPENDED \<and> s_suspensionInvoiceId s = Some bill
         then request_hosting env now ''HOSTING_UNSUSPENSION_REQUESTED'' ''automation:unsuspend:'' k bill run ?d1
         else Inr (?d1, 0)) = Inr (d2, m)"
    and log: "d' = (if s_nextDueAt s < t \<or> m = 1 then log_activity ?a d2 else d2)"
    unfolding apply_item_def k option.case prod.case Let_def id rbind_eq_Inr by auto
  from log have 2: "d' = d2 \<or> (\<exists>a. d' = log_activity a d2)" by auto
  show ?thesis
    by (rule applied [OF k refl _ 2]) (use 1 in \<open>auto split: if_splits\<close>)
qed


lemma request_hosting_frame:
  assumes "request_hosting env now t keyPrefix s i run d = Inr (d', n)"
  shows "find_service k d' = find_service k d" and "outbox_blocked key d \<Longrightarrow> outbox_blocked key d'"
    and "outbox_blocked (keyPrefix @ s @ '':'' @ i) d'" and "env_uuid env s" and "env_uuid env i"
  using assms
  by (auto elim!: request_hosting_cases dest: find_service_skip outbox_blocked_kept outbox_blocked_created)

lemma apply_item_settles:
  assumes "apply_item env now pay bill run it d = Inr (d', n)"
  shows "item_settled env bill it d'"
  using assms
proof (cases rule: apply_item_cases)
  case idle
  then show ?thesis by (auto simp: item_settled_def split: option.splits)
next
  case (applied k t s d1 d2 m)
  have "find_service k d1 = Some (if s_nextDueAt s < t then s\<lparr>s_nextDueAt := t, s_updatedAt := now\<rparr> else s)"
    using applied(3,4) by (simp add: find_service_set_next_due)
  moreover have "find_service k d' = find_service k d1"
    using applied(5,6) request_hosting_frame(1) by (auto split: if_splits)
  moreover have "s_status s = Svc_SUSPENDED \<and> s_suspensionInvoiceId s = Some bill \<longrightarrow>
      outbox_blocked (''automation:unsuspend:'' @ k @ '':'' @ bill) d' \<and> env_uuid env k \<and> env_uuid env bill"
  proof
    assume "s_status s = Svc_SUSPENDED \<and> s_suspensionInvoiceId s = Some bill"
    with applied(5) have "request_hosting env now ''HOSTING_UNSUSPENSION_REQUESTED'' ''automation:unsuspend:'' k
        bill run d1 = Inr (d2, m)" by (simp only: if_True)
    note frame = request_hosting_frame [OF this]
    have "outbox_blocked key d' = outbox_blocked key d2" for key using applied(6) by auto
    with frame show "outbox_blocked (''automation:unsuspend:'' @ k @ '':'' @ bill) d' \<and> env_uuid env k \<and>
        env_uuid env bill" by blast
  qed
  ultimately show ?thesis
    using applied(1,2) find_service_idD [OF applied(3)] by (simp add: item_settled_def)
qed

lemma apply_item_keeps_settled:
  assumes "apply_item env now pay bill run it d = Inr (d', n)" and "item_settled env bill it' d"
  shows "item_settled env bill it' d'"
  using assms(1)
proof (cases rule: apply_item_cases)
  case idle
  with assms(2) show ?thesis by simp
next
  case (applied k t s d1 d2 m)
  have blocked: "outbox_blocked key d \<Longrightarrow> outbox_blocked key d'" for key
    using applied(4-6) request_hosting_frame(2) by (auto split: if_splits)
  have find: "find_service k' d' = find_service k' d1" for k'
    using applied(5,6) request_hosting_frame(1) by (auto split: if_splits)
  show ?thesis
    using assms(2) applied(3,4) blocked
    by (auto simp: item_settled_def find find_service_set_next_due split: option.splits if_splits)
qed

lemma apply_item_settled:
  assumes "item_settled env bill it d" and "env_uuid env run"
  shows "apply_item env now pay bill run it d = Inr (d, 0)"
proof -
  have "request_hosting env now t ''automation:unsuspend:'' k bill run d = Inr (d, 0)"
    if "outbox_blocked (''automation:unsuspend:'' @ k @ '':'' @ bill) d" "env_uuid env k" "env_uuid env bill" for k t
    using that hosting_payload_ok [of env k bill run] assms(2)
    by (simp add: request_hosting_def Let_def outbox_blocked_skip)
  then show ?thesis
    using assms(1) by (auto simp: item_settled_def apply_item_def Let_def split: option.splits)
qed

lemma apply_items_settles:
  "apply_items env now pay bill run items n d = Inr (d', m) \<Longrightarrow>
   (\<forall>it \<in> set items. item_settled env bill it d') \<and>
   (\<forall>it. item_settled env bill it d \<longrightarrow> item_settled env bill it d')"
proof (induction items arbitrary: n d)
  case (Cons it items)
  from Cons.prems obtain d1 k where
    1: "apply_item env now pay bill run it d = Inr (d1, k)"
    and "apply_items env now pay bill run items (n + k) d1 = Inr (d', m)"
    by (auto simp: result_simps)
  from Cons.IH [OF this(2)] show ?case
    using apply_item_settles [OF 1] apply_item_keeps_settled [OF 1] by auto
qed simp

lemma apply_items_settled:
  "\<forall>it \<in> set items. item_settled env bill it d \<Longrightarrow> env_uuid env run \<Longrightarrow>
   apply_items env now pay bill run items n d = Inr (d, n)"
  by (induction items arbitrary: n) (simp_all add: apply_item_settled)

lemma create_outbox_skip_frame:
  "create_outbox_skip now a k t key v d = (d', n) \<Longrightarrow> ledger_of d' = ledger_of d \<and> same_tables d d'"
  by (auto elim!: create_outbox_skip_cases simp: ledger_of_def same_tables_def)

lemma apply_item_frame:
  assumes "apply_item env now pay bill run it d = Inr (d', n)"
  shows "ledger_of d' = ledger_of d \<and> d_runs d' = d_runs d \<and> hosting_tables d' = hosting_tables d"
    and "services_ready d \<Longrightarrow> services_forward d d'"
proof -
  have "ledger_of d' = ledger_of d \<and> d_runs d' = d_runs d \<and> hosting_tables d' = hosting_tables d \<and> (services_ready d \<longrightarrow> services_forward d d')"
    using assms
  proof (cases rule: apply_item_cases)
    case idle
    then show ?thesis by (simp add: services_forward_same)
  next
    case (applied k t s d1 d2 m)
    have "ledger_of d1 = ledger_of d \<and> d_runs d1 = d_runs d \<and> hosting_tables d1 = hosting_tables d \<and> (services_ready d \<longrightarrow> services_forward d d1)"
      using applied(4) set_next_due_forward [OF _ applied(3)]
      by (simp add: services_ready_def services_forward_same)
    moreover have "ledger_of d2 = ledger_of d1 \<and> same_tables d1 d2"
      using applied(5) create_outbox_skip_frame
      by (fastforce elim!: request_hosting_cases simp: same_tables_def split: if_splits)
    ultimately show ?thesis
      using applied(6) by (auto simp: same_tables_def services_forward_def log_activity_def ledger_of_def)
  qed
  then show "ledger_of d' = ledger_of d \<and> d_runs d' = d_runs d \<and> hosting_tables d' = hosting_tables d"
    and "services_ready d \<Longrightarrow> services_forward d d'" by blast+
qed

lemma apply_items_frame:
  "apply_items env now pay bill run items n d = Inr (d', m) \<Longrightarrow>
   ledger_of d' = ledger_of d \<and> d_runs d' = d_runs d \<and> hosting_tables d' = hosting_tables d \<and> (services_ready d \<longrightarrow> services_forward d d')"
proof (induction items arbitrary: n d)
  case Nil
  then show ?case by (simp add: services_forward_same)
next
  case (Cons it items)
  from Cons.prems obtain d1 k where
    1: "apply_item env now pay bill run it d = Inr (d1, k)"
    and 2: "apply_items env now pay bill run items (n + k) d1 = Inr (d', m)"
    by (auto simp: result_simps)
  show ?case
    using apply_item_frame [OF 1] Cons.IH [OF 2] services_ready_forward services_forward_trans by metis
qed

lemma applyRenewalPayment_cases:
  assumes "applyRenewalPayment_tx env now pay bill run d = Inr (d', n)"
  obtains (refused) "d' = d" and "n = 0"
    and "\<And>now run. applyRenewalPayment_tx env now pay bill run d = Inr (d, 0)"
  | (paid) p i where
      "List.find (\<lambda>p. p_id p = pay \<and> p_invoiceId p = bill \<and> p_status p = Pay_SUCCEEDED) (d_payments d) = Some p"
      and "find_invoice bill d = Some i" and "i_status i = Inv_PAID" and "i_balanceDue i = 0"
      and "apply_items env now pay bill run (filter (\<lambda>it. it_serviceId it \<noteq> None) (i_items i)) 0 d = Inr (d', n)"
proof (cases "List.find (\<lambda>p. p_id p = pay \<and> p_invoiceId p = bill \<and> p_status p = Pay_SUCCEEDED) (d_payments d)")
  case None
  with assms show ?thesis by (intro refused) (simp_all add: applyRenewalPayment_tx_def)
next
  case (Some p)
  then have bill: "p_invoiceId p = bill" using find_Some_D [OF Some] by simp
  with assms Some obtain i where i: "find_invoice bill d = Some i"
    by (auto simp: applyRenewalPayment_tx_def split: option.splits)
  show ?thesis
  proof (cases "i_status i = Inv_PAID \<and> i_balanceDue i = 0")
    case True
    with assms Some i bill show ?thesis by (intro paid) (simp_all add: applyRenewalPayment_tx_def)
  next
    case False
    then have "applyRenewalPayment_tx env now pay bill run d = Inr (d, 0)" for now run
      by (auto simp: applyRenewalPayment_tx_def Some bill i)
    with assms show ?thesis by (intro refused) simp_all
  qed
qed

lemma applyRenewalPayment_frame:
  assumes "applyRenewalPayment_tx env now pay bill run d = Inr (d', n)"
  shows "ledger_of d' = ledger_of d \<and> d_runs d' = d_runs d \<and> hosting_tables d' = hosting_tables d \<and> (services_ready d \<longrightarrow> services_forward d d')"
  using assms
proof (cases rule: applyRenewalPayment_cases)
  case refused
  then show ?thesis by (simp add: services_forward_same)
next
  case (paid p i)
  then show ?thesis using apply_items_frame by blast
qed

text \<open>
  A renewal payment is applied once: however the first application moved the services and
  asked for their reactivation, applying the payment again, by whatever run, processes nothing
  and leaves the database as it is.
\<close>

theorem renewal_payment_applied_once:
  assumes "applyRenewalPayment_tx env now pay bill run d = Inr (d', n)" and "env_uuid env run'"
  shows "applyRenewalPayment_tx env later pay bill run' d' = Inr (d', 0)"
  using assms(1)
proof (cases rule: applyRenewalPayment_cases)
  case refused
  then show ?thesis by simp
next
  case (paid p i)
  have "ledger_of d' = ledger_of d" using applyRenewalPayment_frame [OF assms(1)] by blast
  then have same: "d_payments d' = d_payments d" "find_invoice bill d' = Some i"
    using paid(2) by (simp_all add: ledger_of_def find_invoice_def)
  have "p_invoiceId p = bill" using find_Some_D [OF paid(1)] by simp
  with paid same show ?thesis
    using apply_items_settled [where env = env and bill = bill and d = d' and run = run']
      apply_items_settles [OF paid(5)] assms(2)
    by (simp add: applyRenewalPayment_tx_def)
qed


interpretation apply_payment: ledger_client "applyRenewalPayment_tx env now pay bill run"
  for env now pay bill run
  by unfold_locales (use applyRenewalPayment_frame in fastforce)

section \<open>Jobs refine the ledger\<close>

definition job_progress :: "db \<Rightarrow> db \<Rightarrow> bool" where
  \<comment> \<open>a renewal step, with the automation runs left open\<close>
  "job_progress d d' \<longleftrightarrow> ledger_steps (ledger_of d) (ledger_of d') \<and> services_forward d d' \<and> hosting_tables d' = hosting_tables d"

lemma job_progress_refl [simp]: "job_progress d d"
  by (simp add: job_progress_def services_forward_same)

lemma job_progress_trans: "job_progress d d1 \<Longrightarrow> job_progress d1 d2 \<Longrightarrow> job_progress d d2"
  unfolding job_progress_def using services_forward_trans by (auto intro: rtranclp_trans)

lemma run_tables_progress:
  "ledger_of d' = ledger_of d \<Longrightarrow> d_services d' = d_services d \<Longrightarrow> hosting_tables d' = hosting_tables d \<Longrightarrow>
   job_progress d d'"
  by (simp add: job_progress_def services_forward_same)

lemma update_runs_progress: "update_runs k f d = Inr (d', n) \<Longrightarrow> job_progress d d'"
  by (rule run_tables_progress) (auto simp: update_runs_def split: if_splits)

lemma update_run_progress: "update_run k f d = Inr (d', n) \<Longrightarrow> job_progress d d'"
  by (auto simp: update_run_def result_simps dest: update_runs_progress split: if_splits)

lemma upsert_payment_run_progress: "upsert_payment_run pay bill now d = Inr (d', r) \<Longrightarrow> job_progress d d'"
  by (rule run_tables_progress)
    (auto simp: upsert_payment_run_def create_run_def Let_def result_simps ledger_of_def split: option.splits if_splits)

lemma run_tx_progress:
  assumes "run_tx t d = (d', r)" and "\<And>d' x. t d = Inr (d', x) \<Longrightarrow> job_progress d d'"
  shows "job_progress d d'"
  using assms by (auto simp: run_tx_def split: sum.splits)

lemma failCycle_progress: "failCycle now k c d = (d', r) \<Longrightarrow> job_progress d d'"
  by (auto simp: failCycle_def elim!: run_tx_progress dest: update_runs_progress split: prod.splits sum.splits)

lemma attemptCycle_progress:
  assumes "renewal_ready d" and "attemptCycle env cl p d = (d', r)"
  shows "job_progress d d'"
proof -
  obtain d1 c x where run: "runCycle env cl p d = ((d1, c), x)" by (metis surj_pair)
  then have 1: "job_progress d d1"
    using runCycle_ok [OF assms(1), of env cl p] by (simp add: job_ok_def job_progress_def renewal_step_def)
  have "job_progress d1 d'"
  proof (cases x)
    case (Inl e)
    then show ?thesis using assms(2) run by (auto simp: attemptCycle_def intro: failCycle_progress)
  next
    case (Inr u)
    obtain d2 y where fin: "run_tx (finishRun (cl_completed cl) (cy_automationRunId p) c) d1 = (d2, y)"
      by fastforce
    then have "job_progress d1 d2"
      by (rule run_tx_progress) (auto simp: finishRun_def dest: update_run_progress)
    moreover have "d' = d2" using assms(2) run fin Inr by (auto simp: attemptCycle_def split: sum.splits)
    ultimately show ?thesis by simp
  qed
  with 1 show ?thesis by (rule job_progress_trans)
qed

lemma processCycle_cases:
  assumes "processCycle env cl data d = (d', r)"
  obtains (skipped) "d' = d"
  | (attempted) p where "attemptCycle env cl p d = (d', r)"
  using assms by (auto simp: processCycle_def split: sum.splits option.splits if_splits)

lemma processPayment_cases:
  assumes "processPayment env now data d = (d', r)"
  obtains (skipped) "d' = d"
  | (opened) pay bill x where "run_tx (upsert_payment_run pay bill now) d = (d', x)"
  | (applied) pay bill d1 x k y where "run_tx (upsert_payment_run pay bill now) d = (d1, x)"
      and "payment_attempt env now pay bill k d1 = (d', y)"
  | (failed) pay bill d1 x k d2 y z where "run_tx (upsert_payment_run pay bill now) d = (d1, x)"
      and "payment_attempt env now pay bill k d1 = (d2, y)"
      and "run_tx (update_runs k (payment_failed_update now)) d2 = (d', z)"
  using assms
  by (auto simp: processPayment_def split: sum.splits option.splits prod.splits if_splits)

lemma payment_attempt_progress:
  assumes "services_ready d" and "payment_attempt env now pay bill k d = (d', r)"
  shows "job_progress d d'"
proof -
  obtain d1 x where tx: "run_tx (applyRenewalPayment_tx env now pay bill k) d = (d1, x)" by fastforce
  then have 1: "job_progress d d1"
    by (rule run_tx_progress) (use assms(1) applyRenewalPayment_frame in \<open>fastforce simp: job_progress_def\<close>)
  have "d' = d1 \<or> (\<exists>n. run_tx (update_run k (payment_done_update now n)) d1 = (d', r))"
    using assms(2) tx by (auto simp: payment_attempt_def split: sum.splits)
  then have "job_progress d1 d'" using run_tx_progress update_run_progress by (metis job_progress_refl)
  with 1 show ?thesis by (rule job_progress_trans)
qed

lemma upsert_run_progress:
  assumes "run_tx (upsert_payment_run pay bill now) d = (d1, x)"
  shows "job_progress d d1"
  using assms by (rule run_tx_progress) (rule upsert_payment_run_progress)

lemma processPayment_progress:
  assumes "services_ready d" and "processPayment env now data d = (d', r)"
  shows "job_progress d d'"
proof -
  have ready: "services_ready d1" if "job_progress d d1" for d1
    using that assms(1) services_ready_forward by (auto simp: job_progress_def)
  from assms(2) show ?thesis
  proof (cases rule: processPayment_cases)
    case skipped
    then show ?thesis by simp
  next
    case (opened pay bill x)
    then show ?thesis by (rule upsert_run_progress)
  next
    case (applied pay bill d1 x k y)
    have 1: "job_progress d d1" using applied(1) by (rule upsert_run_progress)
    then show ?thesis using payment_attempt_progress [OF ready applied(2)] job_progress_trans by blast
  next
    case (failed pay bill d1 x k d2 y z)
    have 1: "job_progress d d1" using failed(1) by (rule upsert_run_progress)
    moreover have "job_progress d1 d2" using payment_attempt_progress [OF ready [OF 1] failed(2)] .
    moreover have "job_progress d2 d'" using failed(3) update_runs_progress by (rule run_tx_progress)
    ultimately show ?thesis using job_progress_trans by blast
  qed
qed

lemma renewal_job_eq:
  assumes "renewal_ready d" and "renewal_process env cl now data d = (d', r)"
  shows "ledger_steps (ledger_of d) (ledger_of d') \<and> services_forward d d' \<and>
         hosting_tables d' = hosting_tables d \<and> renewal_ready d'"
proof -
  have "job_progress d d'"
  proof -
    consider "processCycle env cl data d = (d', r)" | "processPayment env now data d = (d', r)" | "d' = d"
      using assms(2) by (auto simp: renewal_process_def split: if_splits)
    then show ?thesis
    proof cases
      case 1
      then show ?thesis
        by (cases rule: processCycle_cases) (use assms(1) attemptCycle_progress in auto)
    next
      case 2
      then show ?thesis using assms(1) processPayment_progress by (simp add: renewal_ready_def)
    qed simp
  qed
  with assms(1) show ?thesis
    using ledger_steps_inv [of "ledger_of d" "ledger_of d'"] services_ready_forward [of d d']
    by (simp add: job_progress_def renewal_ready_def)
qed

text \<open>
  C31: a job of the renewal worker, whatever it is and however it ends, refines the accounting
  steps of the ledger, and no service's next due date ever moves back or anything else of a
  service, of a cancellation or of a panel operation changes; so what a cycle did before an error is still a consistent state.
\<close>

theorem renewal_job_refines:
  assumes "renewal_ready d" and "renewal_process env cl now data d = (d', r)"
  shows "ledger_steps (ledger_of d) (ledger_of d') \<and> services_forward d d' \<and>
         hosting_tables d' = hosting_tables d \<and> renewal_ready d'"
  by (rule renewal_job_eq [OF assms])

section \<open>A service period is billed once\<close>

lemma billed_step:
  "ledger_step L M \<Longrightarrow> ledger_inv L \<Longrightarrow> set (billed_periods (fst L)) \<subseteq> set (billed_periods (fst M))"
proof (induction rule: ledger_step.induct)
  case (revise_invoice k "is" i f ps)
  then show ?case
    using billed_periods_set_row [where f = f, OF _ revise_invoice(1,7)] by (simp add: ledger_inv_iff)
next
  case (settle_payment k ps p f "is" i g)
  then show ?case
    using billed_periods_set_row [where f = g, OF _ settle_payment(7)] by (simp add: ledger_inv_iff same_account_def)
next
  case (record_payment p ps "is" i g)
  then show ?case
    using billed_periods_set_row [where f = g, OF _ record_payment(5)] by (simp add: ledger_inv_iff same_account_def)
next
  case (adjust_payment p ps k q "is" i g)
  then show ?case
    using billed_periods_set_row [where f = g, OF _ adjust_payment(10)] by (simp add: ledger_inv_iff same_account_def)
qed auto

lemma billed_steps:
  assumes "ledger_steps L M" and "ledger_inv L"
  shows "set (billed_periods (fst L)) \<subseteq> set (billed_periods (fst M))"
  using assms
proof (induction rule: rtranclp_induct)
  case (step M N)
  then show ?case using billed_step [of M N] ledger_steps_inv [of L M] by blast
qed simp

lemma createRenewalInvoice_True:
  "createRenewalInvoice env k run now d = (d', Inr True) \<longleftrightarrow>
     createRenewalInvoice_tx env k run now d = Inr (d', True)"
  by (auto simp: createRenewalInvoice_def run_tx_def split: prod.splits sum.splits api_error.splits)

text \<open>
  C13: a period of a service is billed once. After a cycle has issued the renewal invoice of
  the period at hand, another attempt, in whatever state later transactions have left the
  database while the service still stands at that due date, issues nothing and changes nothing.
\<close>

theorem renewal_period_billed_once:
  assumes "ledger_inv (ledger_of d)" and "createRenewalInvoice env k run now d = (d1, Inr True)"
    and "find_service k d = Some s" and "ledger_steps (ledger_of d1) (ledger_of d2)"
    and "find_service k d2 = Some s2" and "s_nextDueAt s2 = s_nextDueAt s"
    and "s_billingPeriod s2 = s_billingPeriod s"
  shows "fst (createRenewalInvoice env k run' later d2) = d2 \<and>
    snd (createRenewalInvoice env k run' later d2) \<noteq> Inr True"
proof -
  have tx: "createRenewalInvoice_tx env k run now d = Inr (d1, True)"
    using assms(2) by (simp add: createRenewalInvoice_True)
  from tx obtain c u bp where bp: "s_billingPeriod s = Some bp"
    and issue: "issueRenewal_tx env s c u bp run now d = Inr (d1, True)"
    by (cases rule: createRenewalInvoice_tx_cases) (use assms(3) in auto)
  from issue have "period_billed k (s_nextDueAt s) (addBillingPeriod (s_nextDueAt s) bp) d1"
    by (rule issueRenewal_tx_cases)
      (simp add: period_billed_iff renewal_row_def Let_def find_service_idD [OF assms(3)])
  moreover have "ledger_inv (ledger_of d1)" using renewal_invoice.keeps_inv [OF assms(1) tx] .
  ultimately have billed: "period_billed k (s_nextDueAt s2) (addBillingPeriod (s_nextDueAt s2) bp) d2"
    using billed_steps [OF assms(4)] assms(6) by (auto simp: period_billed_iff ledger_of_def)
  have again: "d3 = d2 \<and> \<not> x" if "createRenewalInvoice_tx env k run' later d2 = Inr (d3, x)" for d3 x
    using that
  proof (cases rule: createRenewalInvoice_tx_cases)
    case (issued s' c' u' bp')
    then have "s' = s2" "bp' = bp" using assms(5,7) bp by simp_all
    with issued(5) billed show ?thesis by simp
  qed simp
  show ?thesis
  proof (cases "createRenewalInvoice_tx env k run' later d2")
    case (Inl err)
    then show ?thesis by (cases err) (simp_all add: createRenewalInvoice_def run_tx_def)
  next
    case (Inr y)
    then obtain d3 x where y: "createRenewalInvoice_tx env k run' later d2 = Inr (d3, x)" by (cases y) simp
    then show ?thesis using again [OF y] by (simp add: createRenewalInvoice_def run_tx_def)
  qed
qed


section \<open>What a cycle records of itself\<close>

lemma update_runs_found:
  assumes "distinct (map r_id (d_runs d))" and "find_run k d = Some r"
  shows "update_runs k f d =
    (if run_check (f r) then Inr (d\<lparr>d_runs := update_many (\<lambda>r. r_id r = k) f (d_runs d)\<rparr>,
                                  count_where (\<lambda>r. r_id r = k) (d_runs d))
     else Inl Check_Violation)"
proof -
  have r: "r \<in> set (d_runs d)" "r_id r = k" using assms(2) by (auto simp: find_run_def dest: find_Some_D)
  have only: "q = r" if "q \<in> set (d_runs d)" "r_id q = k" for q
    using distinct_key_inj [OF assms(1) that(1) r(1)] that(2) r(2) by simp
  have "list_ex (\<lambda>q. r_id q = k \<and> \<not> run_check (f q)) (d_runs d) \<longleftrightarrow> \<not> run_check (f r)"
    unfolding list_ex_iff using only r by metis
  then show ?thesis by (simp add: update_runs_def)
qed

lemma find_run_update:
  assumes "\<And>r. r_id (f r) = r_id r"
  shows "find_run k (d\<lparr>d_runs := update_many (\<lambda>r. r_id r = k) f (d_runs d)\<rparr>) = map_option f (find_run k d)"
  using assms by (simp add: find_run_def find_update_many_key)

definition cycle_record :: "instant \<Rightarrow> counters \<Rightarrow> api_error + unit \<Rightarrow> automation_run \<Rightarrow> automation_run" where
  \<comment> \<open>what the row of the run becomes, by the counts and the outcome of the passes\<close>
  "cycle_record now c x r =
     (case x of
        Inr _ \<Rightarrow> finish_update now c r
      | Inl _ \<Rightarrow> if k_succeeded c + max 1 (k_failed c) \<le> k_processed c then cycle_failed_update now c r else r)"

definition cycle_answer :: "counters \<Rightarrow> api_error + unit \<Rightarrow> job_error + unit" where
  "cycle_answer c x =
     (case x of
        Inr _ \<Rightarrow> if k_failed c > 0 then Inl (Temporary ''RENEWAL_ACTIONS_FAILED'') else Inr ()
      | Inl _ \<Rightarrow> if k_succeeded c + max 1 (k_failed c) \<le> k_processed c
                 then Inl (Temporary ''RENEWAL_CYCLE_TEMPORARILY_UNAVAILABLE'')
                 else Inl (Database_Error Check_Violation))"

lemma processCycle_accepted:
  assumes "publishedEvent data d = Inr e" and "renewalCyclePayloadSchema env (o_payload e) = Some p"
    and "cy_automationRunId p = jd_aggregateId data" and "find_run (cy_automationRunId p) d = Some r"
    and "r_status r \<notin> {Auto_SUCCEEDED, Auto_SKIPPED}"
  shows "processCycle env cl data d = attemptCycle env cl p d"
  using assms by (simp add: processCycle_def)

lemma run_checks:
  assumes "0 \<le> k_succeeded c" and "0 \<le> k_failed c" and "k_succeeded c + k_failed c \<le> k_processed c"
  shows "run_check (finish_update now c r)"
    and "run_check (cycle_failed_update now c r) \<longleftrightarrow> k_succeeded c + max 1 (k_failed c) \<le> k_processed c"
  using assms by (auto simp: run_check_def finish_update_def cycle_failed_update_def)

lemma run_updates_id [simp]:
  "r_id (finish_update now c r) = r_id r" "r_id (cycle_failed_update now c r) = r_id r"
  by (simp_all add: finish_update_def cycle_failed_update_def)

text \<open>
  C34: a cycle that comes to its end records its counts, and its record never violates the
  constraint on them. A cycle that is interrupted marks its run as failed only when the counts
  leave room for one more failure; when every processed action had succeeded (or none was
  processed) the record \<open>failed = 1\<close> violates the constraint, the run keeps its old row and
  the constraint error, not the intended one, is what the job reports.
\<close>

theorem cycle_outcome_recorded:
  assumes "renewal_ready d" and "distinct (map r_id (d_runs d))"
    and "publishedEvent data d = Inr e" and "renewalCyclePayloadSchema env (o_payload e) = Some p"
    and "cy_automationRunId p = jd_aggregateId data" and "find_run (cy_automationRunId p) d = Some r"
    and "r_status r \<notin> {Auto_SUCCEEDED, Auto_SKIPPED}" and "runCycle env cl p d = ((d1, c), x)"
  shows "find_run (cy_automationRunId p) (fst (processCycle env cl data d)) =
           Some (cycle_record (cl_completed cl) c x r) \<and>
         snd (processCycle env cl data d) = cycle_answer c x"
proof -
  have ok: "job_ok d (d1, c)" using runCycle_ok [OF assms(1), of env cl p] assms(8) by simp
  then have runs: "d_runs d1 = d_runs d" by (simp add: job_ok_def renewal_step_def)
  then have r: "find_run (cy_automationRunId p) d1 = Some r" and dist: "distinct (map r_id (d_runs d1))"
    using assms(2,6) by (simp_all add: find_run_def)
  have counts: "0 \<le> k_succeeded c" "0 \<le> k_failed c" "k_succeeded c + k_failed c \<le> k_processed c"
    using ok by (simp_all add: job_ok_def)
  note found = update_runs_found [OF dist r]
  show ?thesis
  proof (cases x)
    case (Inl a)
    show ?thesis
      using Inl r
      by (simp add: processCycle_accepted [OF assms(3-7)] attemptCycle_def assms(8) failCycle_def run_tx_def
          found run_checks(2) [OF counts] cycle_record_def cycle_answer_def find_run_update)
  next
    case (Inr u)
    show ?thesis
      using Inr r
      by (simp add: processCycle_accepted [OF assms(3-7)] attemptCycle_def assms(8) finishRun_def run_tx_def
          update_run_def found run_checks(1) [OF counts] cycle_record_def cycle_answer_def find_run_update)
  qed
qed

section \<open>Policies and payloads are read back\<close>

lemma as_ints_JNum [simp]: "as_ints (map JNum ns) = Some ns"
  by (induction ns) simp_all

lemma policy_roundtrip_eq:
  "renewalAutomationPolicySchema env (policy_json p) = (if policy_valid env p then Some p else None)"
  by (cases p) (simp add: renewalAutomationPolicySchema_def policy_json_def str_field_def)

lemma policy_schema_valid:
  "renewalAutomationPolicySchema env j = Some p \<Longrightarrow> policy_valid env p"
  by (auto simp: renewalAutomationPolicySchema_def Let_def bind_eq_Some_conv split: if_splits)

lemma default_policy_valid:
  "timeZoneSchema env ''Asia/Dhaka'' \<Longrightarrow> policy_valid env DEFAULT_RENEWAL_AUTOMATION_POLICY"
  by (simp add: policy_valid_def DEFAULT_RENEWAL_AUTOMATION_POLICY_def)

lemma cycle_payload_eq:
  "renewalCyclePayloadSchema env (cycle_payload_json c) =
     (if policy_valid env (cy_policy c) \<and> env_uuid env (cy_automationRunId c) \<and>
         env_isoDate env (cy_businessDate c) \<and> env_isoDatetime env (cy_scheduledFor c)
      then Some c else None)"
  by (cases c) (simp add: renewalCyclePayloadSchema_def cycle_payload_json_def str_field_def policy_roundtrip_eq)

lemma loaded_policy_valid:
  "timeZoneSchema env ''Asia/Dhaka'' \<Longrightarrow> policy_valid env (loadRenewalPolicy env d)"
  by (auto simp: loadRenewalPolicy_def default_policy_valid bind_eq_Some_conv dest: policy_schema_valid split: option.splits)

text \<open>
  A stored renewal policy and a cycle's payload are read back as they were written, exactly
  when the policy respects its bounds (lead time, reminder days that are distinct and earlier
  than the lead time, grace period, time zone) and the formats of the payload's texts are right.
\<close>

theorem cycle_payload_roundtrip:
  "renewalCyclePayloadSchema env (cycle_payload_json c) =
     (if policy_valid env (cy_policy c) \<and> env_uuid env (cy_automationRunId c) \<and>
         env_isoDate env (cy_businessDate c) \<and> env_isoDatetime env (cy_scheduledFor c)
      then Some c else None)"
  by (rule cycle_payload_eq)


section \<open>What a renewal invoice says\<close>

lemma renewal_total_sum:
  "renewal_total s addOns = s_recurringAmount s + sum_list (map oi_lineTotal addOns)"
proof -
  have "foldl (\<lambda>n oi. n + oi_lineTotal oi) a addOns = a + sum_list (map oi_lineTotal addOns)" for a
    by (induction addOns arbitrary: a) simp_all
  then show ?thesis by (simp add: renewal_total_def)
qed

lemma renewal_items_sum:
  "sum_list (map it_lineTotal (renewal_items s a b addOns)) = renewal_total s addOns"
proof -
  have "sum_list (map it_lineTotal (map (\<lambda>(n, oi). add_on_line a b n oi) (List.enumerate n addOns))) =
        sum_list (map oi_lineTotal addOns)" for n
    by (induction addOns arbitrary: n) (simp_all add: add_on_line_def)
  from this [of 2] show ?thesis
    by (simp add: renewal_items_def renewal_line_def renewal_total_sum)
qed

definition renewal_exact :: "service \<Rightarrow> billing_period \<Rightarrow> instant \<Rightarrow> db \<Rightarrow> invoice \<Rightarrow> bool" where
  \<comment> \<open>what an invoice for the period at hand has to say\<close>
  "renewal_exact s bp now d i \<longleftrightarrow>
     i_total i = s_recurringAmount s + sum_list (map oi_lineTotal (renewal_add_ons s bp (s_nextDueAt s) d)) \<and>
     i_total i = sum_list (map it_lineTotal (i_items i)) \<and> i_total i \<le> POSTGRES_BIGINT_MAX \<and>
     i_balanceDue i = i_total i \<and> i_dueAt i = max now (s_nextDueAt s) \<and>
     service_keys (i_items i) =
       [(Some (s_id s), Some (s_nextDueAt s), Some (addBillingPeriod (s_nextDueAt s) bp))] \<and>
     (i_status i = Inv_PAID \<longleftrightarrow> i_total i = 0)"

text \<open>
  C35: the invoice a cycle issues charges exactly the recurring amount and the add-ons of the
  period, is due no earlier than the period and the moment of issue, and bills the service for
  the one period that starts at its due date; only an invoice of nothing is paid at once, and
  only it advances the service.
\<close>

theorem renewal_invoice_exact:
  assumes "createRenewalInvoice env k run now d = (d', Inr True)"
  shows "\<exists>s bp i. find_service k d = Some s \<and> s_billingPeriod s = Some bp \<and>
    d_invoices d' = d_invoices d @ [i] \<and> renewal_exact s bp now d i \<and>
    d_services d' =
      (if i_total i = 0 then d_services (set_next_due now k (addBillingPeriod (s_nextDueAt s) bp) d)
       else d_services d)"
proof -
  have tx: "createRenewalInvoice_tx env k run now d = Inr (d', True)"
    using assms by (simp add: createRenewalInvoice_True)
  from tx obtain s c u bp where s: "find_service k d = Some s" "s_billingPeriod s = Some bp"
    and issue: "issueRenewal_tx env s c u bp run now d = Inr (d', True)"
    by (cases rule: createRenewalInvoice_tx_cases) auto
  from issue obtain number snapshot row j where
    row: "row = (renewal_row s snapshot number (s_nextDueAt s) (addBillingPeriod (s_nextDueAt s) bp)
              (renewal_add_ons s bp (s_nextDueAt s) d) now)\<lparr>i_id := j\<rparr>"
    and fits: "renewal_total s (renewal_add_ons s bp (s_nextDueAt s) d) \<le> POSTGRES_BIGINT_MAX"
    and d': "d_invoices d' = d_invoices d @ [row]"
    by (rule issueRenewal_tx_cases)
  have "renewal_exact s bp now d row"
    using fits by (auto simp: renewal_exact_def row renewal_row_def Let_def renewal_items_sum renewal_total_sum)
  moreover have "i_total row = renewal_total s (renewal_add_ons s bp (s_nextDueAt s) d)"
    by (simp add: row renewal_row_def Let_def)
  ultimately show ?thesis
    using s d' issueRenewal_services [OF issue] find_service_idD [OF s(1)] by metis
qed

text \<open>
  The worker and the API allocate the same invoice numbers from the same setting.
\<close>

theorem invoice_number_implementations_agree:
  "worker_allocateInvoiceNumber d = allocateInvoiceNumber d"
  by (rule worker_allocate_eq)


section \<open>Samples\<close>

definition sample_env :: renewal_env where
  "sample_env =
     \<lparr>env_parts = (\<lambda>zone t. (Some ''2026'', Some ''01'', Some ''15'')), env_timeZone = (\<lambda>s. True),
      env_uuid = (\<lambda>s. True), env_isoDate = (\<lambda>s. True), env_isoDatetime = (\<lambda>s. True),
      env_identity = (\<lambda>j. None)\<rparr>"

definition sample_service :: "service_status \<Rightarrow> uuid option \<Rightarrow> service" where
  "sample_service st invoice =
     \<lparr>s_id = ''s'', s_customerId = c_id sample_customer, s_orderItemId = None, s_suspensionInvoiceId = invoice,
      s_status = st, s_domain = None, s_productName = ''Hosting'', s_billingPeriod = Some MONTHLY,
      s_recurringAmount = 50000, s_currency = ''BDT'', s_nextDueAt = 0,
      s_serverId = ''host'', s_externalAccountId = Some ''account'', s_controlPanelUsername = Some ''user'',
      s_suspendedAt = (if st = Svc_SUSPENDED then Some 0 else None),
      s_suspensionReason = (if st = Svc_SUSPENDED then Some ''Overdue'' else None),
      s_productId = ''p'', s_priceId = ''pp'', s_productDescription = None, s_provisioningSnapshot = None,
      s_startedAt = -1, s_activatedAt = Some 0, s_provisioningFailureReason = None, s_cancelledAt = None,
      s_cancellationReason = None, s_terminatedAt = None, s_terminationReason = None,
      s_terminatedByUserId = None, s_updatedAt = 0\<rparr>"

definition renewal_db :: db where
  "renewal_db = empty_db\<lparr>d_users := [sample_user], d_customers := [sample_customer],
     d_services := [sample_service Svc_ACTIVE None], d_supply := 7\<rparr>"

lemma renewal_db_ledger: "ledger_inv (ledger_of renewal_db)"
  by (simp add: ledger_inv_def ledger_of_def renewal_db_def empty_db_def billed_periods_def)

lemma renewal_db_created:
  "snd (createRenewalInvoice sample_env ''s'' ''r'' 5 renewal_db) = Inr True"
proof -
  let ?s = "sample_service Svc_ACTIVE None"
  have "find_service ''s'' renewal_db = Some ?s" "s_billingPeriod ?s = Some MONTHLY" "s_nextDueAt ?s = 0"
    by (simp_all add: find_service_def renewal_db_def sample_service_def)
  moreover have "service_owner ?s renewal_db = Some (sample_customer, sample_user)"
    and "service_billable ?s sample_customer sample_user renewal_db" by code_simp+
  moreover have "\<not> period_billed ''s'' 0 t renewal_db" for t
    by (simp add: period_billed_def renewal_db_def empty_db_def)
  ultimately have "createRenewalInvoice_tx sample_env ''s'' ''r'' 5 renewal_db =
      issueRenewal_tx sample_env ?s sample_customer sample_user MONTHLY ''r'' 5 renewal_db"
    by (simp add: createRenewalInvoice_tx_def of_option_def)
  moreover have "case issueRenewal_tx sample_env ?s sample_customer sample_user MONTHLY ''r'' 5 renewal_db of
      Inl _ \<Rightarrow> False | Inr (_, x) \<Rightarrow> x" by code_simp
  ultimately show ?thesis
    by (auto simp: createRenewalInvoice_def run_tx_def split: sum.splits)
qed

theorem renewal_invoice_exact_witness:
  "case createRenewalInvoice sample_env ''s'' ''r'' 5 renewal_db of
     (d', x) \<Rightarrow> x = Inr True \<and>
       (\<exists>s bp i. find_service ''s'' renewal_db = Some s \<and> s_billingPeriod s = Some bp \<and>
          d_invoices d' = d_invoices renewal_db @ [i] \<and> renewal_exact s bp 5 renewal_db i \<and>
          d_services d' =
            (if i_total i = 0 then d_services (set_next_due 5 ''s'' (addBillingPeriod (s_nextDueAt s) bp) renewal_db)
             else d_services renewal_db))"
proof -
  obtain d' where run: "createRenewalInvoice sample_env ''s'' ''r'' 5 renewal_db = (d', Inr True)"
    using renewal_db_created by (cases "createRenewalInvoice sample_env ''s'' ''r'' 5 renewal_db") simp
  show ?thesis using renewal_invoice_exact [OF run] by (simp add: run)
qed

theorem renewal_period_billed_once_witness:
  "case createRenewalInvoice sample_env ''s'' ''r'' 5 renewal_db of
     (d1, x) \<Rightarrow> x = Inr True \<and> fst (createRenewalInvoice sample_env ''s'' ''q'' 9 d1) = d1 \<and>
       snd (createRenewalInvoice sample_env ''s'' ''q'' 9 d1) \<noteq> Inr True"
proof -
  obtain d1 where run: "createRenewalInvoice sample_env ''s'' ''r'' 5 renewal_db = (d1, Inr True)"
    using renewal_db_created by (cases "createRenewalInvoice sample_env ''s'' ''r'' 5 renewal_db") simp
  let ?s = "sample_service Svc_ACTIVE None"
  have find: "find_service ''s'' renewal_db = Some ?s"
    by (simp add: find_service_def renewal_db_def sample_service_def)
  have bp: "s_billingPeriod ?s = Some MONTHLY" by (simp add: sample_service_def)
  have amount: "s_recurringAmount ?s = 50000" "s_orderItemId ?s = None" by (simp_all add: sample_service_def)
  have tx: "createRenewalInvoice_tx sample_env ''s'' ''r'' 5 renewal_db = Inr (d1, True)"
    using run by (simp add: createRenewalInvoice_True)
  then obtain c u where issue: "issueRenewal_tx sample_env ?s c u MONTHLY ''r'' 5 renewal_db = Inr (d1, True)"
    by (cases rule: createRenewalInvoice_tx_cases) (use find bp in auto)
  have "d_services d1 = d_services renewal_db"
    using issueRenewal_services [OF issue] amount by (simp add: renewal_total_def renewal_add_ons_def)
  then have "find_service ''s'' d1 = Some ?s" using find by (simp add: find_service_def)
  then show ?thesis
    using renewal_period_billed_once [OF renewal_db_ledger run find rtranclp.rtrancl_refl] by (simp add: run)
qed

definition paid_db :: db where
  \<comment> \<open>a paid renewal of a suspended service, and the runs and events of two jobs\<close>
  "paid_db = (let i = (sample_invoice Inv_PAID 0)
     \<lparr>i_items := [renewal_line (sample_service Svc_SUSPENDED None) 0 (31 * 86400000)]\<rparr> in
   empty_db\<lparr>d_invoices := [i],
     d_payments := [\<lparr>p_id = ''p'', p_invoiceId = i_id i, p_originalPaymentId = None,
       p_createdByUserId = None, p_reviewedByUserId = None, p_kind = CHARGE, p_status = Pay_SUCCEEDED,
       p_provider = ''fake'', p_providerTransactionId = None, p_idempotencyKey = ''k'', p_amount = 50000,
       p_currency = ''BDT'', p_reference = None, p_checkoutUrl = None, p_sessionExpiresAt = None,
       p_manualMethod = None, p_proofMetadata = None, p_failureReason = None, p_receivedAt = None,
       p_reviewedAt = None, p_verifiedAt = None\<rparr>],
     d_services := [sample_service Svc_SUSPENDED (Some (i_id i))], d_supply := 7\<rparr>)"

theorem renewal_payment_applied_once_witness:
  "case applyRenewalPayment_tx sample_env 1 ''p'' ''i'' ''r'' paid_db of
     Inl _ \<Rightarrow> False
   | Inr (d', n) \<Rightarrow> n = 2 \<and> applyRenewalPayment_tx sample_env 2 ''p'' ''i'' ''q'' d' = Inr (d', 0)"
proof -
  have "case applyRenewalPayment_tx sample_env 1 ''p'' ''i'' ''r'' paid_db of
     Inl _ \<Rightarrow> False | Inr (_, n) \<Rightarrow> n = 2" by code_simp
  then show ?thesis
    using renewal_payment_applied_once [of sample_env 1 "''p''" "''i''" "''r''" paid_db _ 2 "''q''" 2]
    by (auto simp: sample_env_def split: sum.splits prod.splits)
qed


definition cycle_event :: "outbox_status \<Rightarrow> outbox_event" where
  "cycle_event st =
     \<lparr>o_id = ''e'', o_aggregateType = ''AUTOMATION_RUN'', o_aggregateId = ''r'',
      o_eventType = ''RENEWAL_INVOICE_GENERATION_REQUESTED'', o_idempotencyKey = ''k'',
      o_payload = cycle_payload_json \<lparr>cy_automationRunId = ''r'', cy_businessDate = ''2026-01-15'',
        cy_scheduledFor = [], cy_policy = DEFAULT_RENEWAL_AUTOMATION_POLICY\<rparr>,
      o_status = st, o_attemptCount = 0, o_availableAt = 0, o_lockedAt = None, o_lockedBy = None,
      o_publishedAt = None, o_lastError = None\<rparr>"

definition cycle_db :: db where
  "cycle_db = renewal_db\<lparr>d_outbox := [cycle_event Out_PUBLISHED],
     d_runs := [(cycle_run DEFAULT_RENEWAL_AUTOMATION_POLICY ''2026-01-15'' 0)\<lparr>r_id := ''r''\<rparr>]\<rparr>"

definition outage_clock :: cycle_clock where
  \<comment> \<open>the query for the due services fails\<close>
  "outage_clock = \<lparr>cl_due = 1, cl_open = 2, cl_reminder = (\<lambda>k. 3), cl_completed = 4,
     cl_dueQuery = Some (Server_Error ''connection''), cl_openQuery = None\<rparr>"

definition cycle_job :: job_data where
  "cycle_job = \<lparr>jd_outboxEventId = ''e'', jd_aggregateType = ''AUTOMATION_RUN'', jd_aggregateId = ''r'',
     jd_eventType = ''RENEWAL_INVOICE_GENERATION_REQUESTED''\<rparr>"

lemma cycle_db_ready: "renewal_ready cycle_db"
proof -
  have "ledger_of cycle_db = ledger_of renewal_db" by (simp add: cycle_db_def ledger_of_def)
  moreover have "100 \<le> getUTCFullYear 0" by code_simp
  ultimately show ?thesis
    using renewal_db_ledger
    by (simp add: renewal_ready_def services_ready_def cycle_db_def renewal_db_def sample_service_def)
qed

lemma cycle_event_payload:
  "renewalCyclePayloadSchema sample_env (o_payload (cycle_event st)) =
     Some \<lparr>cy_automationRunId = ''r'', cy_businessDate = ''2026-01-15'', cy_scheduledFor = [],
           cy_policy = DEFAULT_RENEWAL_AUTOMATION_POLICY\<rparr>"
  by code_simp

theorem cycle_outcome_recorded_witness:
  "find_run ''r'' (fst (processCycle sample_env outage_clock cycle_job cycle_db)) = find_run ''r'' cycle_db \<and>
   snd (processCycle sample_env outage_clock cycle_job cycle_db) = Inl (Database_Error Check_Violation)"
proof -
  let ?p = "\<lparr>cy_automationRunId = ''r'', cy_businessDate = ''2026-01-15'', cy_scheduledFor = [],
           cy_policy = DEFAULT_RENEWAL_AUTOMATION_POLICY\<rparr>"
  let ?r = "(cycle_run DEFAULT_RENEWAL_AUTOMATION_POLICY ''2026-01-15'' 0)\<lparr>r_id := ''r''\<rparr>"
  have 1: "distinct (map r_id (d_runs cycle_db))" by (simp add: cycle_db_def)
  have 2: "publishedEvent cycle_job cycle_db = Inr (cycle_event Out_PUBLISHED)"
    by (simp add: publishedEvent_def cycle_db_def cycle_job_def cycle_event_def)
  have 3: "find_run (cy_automationRunId ?p) cycle_db = Some ?r" by (simp add: find_run_def cycle_db_def)
  have 4: "runCycle sample_env outage_clock ?p cycle_db = ((cycle_db, no_counts), Inl (Server_Error ''connection''))"
    by (simp add: runCycle_def createDueInvoices_def businessDate_def calendar_failure_def outage_clock_def
        sample_env_def)
  have 5: "cycle_record 4 no_counts (Inl (Server_Error ''connection'')) ?r = ?r"
    "cycle_answer no_counts (Inl (Server_Error ''connection'')) = Inl (Database_Error Check_Violation)"
    by (simp_all add: cycle_record_def cycle_answer_def no_counts_def)
  show ?thesis
    using cycle_outcome_recorded [OF cycle_db_ready 1 2 cycle_event_payload _ 3 _ 4] 3 5
    by (simp add: cycle_job_def cycle_run_def DEFAULT_RENEWAL_AUTOMATION_POLICY_def outage_clock_def)
qed

theorem renewal_job_refines_witness:
  "case renewal_process sample_env outage_clock 5 cycle_job cycle_db of
     (d', r) \<Rightarrow> ledger_steps (ledger_of cycle_db) (ledger_of d') \<and> services_forward cycle_db d' \<and>
       hosting_tables d' = hosting_tables cycle_db \<and> renewal_ready d'"
  using renewal_job_refines [OF cycle_db_ready, of sample_env outage_clock 5 cycle_job]
  by (cases "renewal_process sample_env outage_clock 5 cycle_job cycle_db") simp


end
