(* ===== verification/Outbox.thy ===== *)
theory Outbox
  imports Renewals
begin

text \<open>
  The transactional outbox: the routes from event types to the background queues and their
  retry policies, the dispatcher of the worker that claims due events and hands them to the
  queue (\<^verbatim>\<open>apps/worker/src/outbox\<close>), how the worker classifies a failed job
  (\<^verbatim>\<open>packages/queue\<close>) and the manual retries of an administrator. The queue itself is
  Redis with BullMQ: the model keeps the list of the calls it accepted, and which calls it accepts
  is a parameter.
\<close>

section \<open>Queues and routes\<close>

datatype queue_name = Q_notifications | Q_emails | Q_hosting_provisioning | Q_hosting_suspension
  | Q_hosting_unsuspension | Q_hosting_status_reconciliation | Q_payment_reconciliation
  | Q_renewal_invoice_generation | Q_domain_registration

record queue_policy =
  qp_attempts :: nat
  qp_backoffMilliseconds :: int

fun backgroundQueuePolicies :: "queue_name \<Rightarrow> queue_policy" where
  "backgroundQueuePolicies Q_notifications = \<lparr>qp_attempts = 5, qp_backoffMilliseconds = 2000\<rparr>"
| "backgroundQueuePolicies Q_domain_registration = \<lparr>qp_attempts = 1, qp_backoffMilliseconds = 0\<rparr>"
| "backgroundQueuePolicies Q_emails = \<lparr>qp_attempts = 5, qp_backoffMilliseconds = 2000\<rparr>"
| "backgroundQueuePolicies Q_hosting_provisioning = \<lparr>qp_attempts = 1, qp_backoffMilliseconds = 0\<rparr>"
| "backgroundQueuePolicies Q_hosting_suspension = \<lparr>qp_attempts = 1, qp_backoffMilliseconds = 0\<rparr>"
| "backgroundQueuePolicies Q_hosting_unsuspension = \<lparr>qp_attempts = 1, qp_backoffMilliseconds = 0\<rparr>"
| "backgroundQueuePolicies Q_hosting_status_reconciliation = \<lparr>qp_attempts = 4, qp_backoffMilliseconds = 5000\<rparr>"
| "backgroundQueuePolicies Q_payment_reconciliation = \<lparr>qp_attempts = 4, qp_backoffMilliseconds = 5000\<rparr>"
| "backgroundQueuePolicies Q_renewal_invoice_generation = \<lparr>qp_attempts = 3, qp_backoffMilliseconds = 3000\<rparr>"

definition exactOutboxRoutes :: "(string \<times> queue_name \<times> string) list" where
  "exactOutboxRoutes =
    [(''NOTIFICATION_DELIVERY_REQUESTED'', Q_notifications, ''preview-notification''),
     (''DOMAIN_REGISTRATION_REQUESTED'', Q_domain_registration, ''register-domain-once''),
     (''DOMAIN_REGISTRATION_RECONCILE'', Q_domain_registration, ''reconcile-domain''),
     (''AUTH_EMAIL_VERIFICATION_REQUESTED'', Q_emails, ''send-auth-email''),
     (''AUTH_PASSWORD_RESET_REQUESTED'', Q_emails, ''send-auth-email''),
     (''AUTH_CUSTOMER_EMAIL_CODE_REQUESTED'', Q_emails, ''send-auth-email''),
     (''EMAIL_ORDER_RECEIVED'', Q_emails, ''send-order-email''),
     (''EMAIL_ORDER_APPROVED'', Q_emails, ''send-order-email''),
     (''EMAIL_PAYMENT_RECEIVED'', Q_emails, ''send-payment-email''),
     (''EMAIL_INVOICE_CREATED'', Q_emails, ''send-invoice-email''),
     (''EMAIL_RENEWAL_REMINDER'', Q_emails, ''send-invoice-email''),
     (''EMAIL_OVERDUE_NOTICE'', Q_emails, ''send-invoice-email''),
     (''EMAIL_SERVICE_PROVISIONED'', Q_emails, ''send-service-email''),
     (''EMAIL_SERVICE_SUSPENDED'', Q_emails, ''send-service-email''),
     (''EMAIL_SERVICE_REACTIVATED'', Q_emails, ''send-service-email''),
     (''EMAIL_HOSTING_CANCELLATION_REQUESTED'', Q_emails, ''send-service-email''),
     (''EMAIL_TICKET_REPLY'', Q_emails, ''send-ticket-email''),
     (''GATEWAY_PAYMENT_SUCCEEDED'', Q_payment_reconciliation, ''reconcile-payment-follow-up''),
     (''GATEWAY_PAYMENT_FAILED'', Q_payment_reconciliation, ''reconcile-payment-follow-up''),
     (''HOSTING_PROVISIONING_REQUESTED'', Q_hosting_provisioning, ''provision-hosting''),
     (''HOSTING_SUSPENSION_REQUESTED'', Q_hosting_suspension, ''suspend-hosting''),
     (''HOSTING_CANCELLATION_SUSPENSION_REQUESTED'', Q_hosting_suspension, ''suspend-hosting''),
     (''HOSTING_UNSUSPENSION_REQUESTED'', Q_hosting_unsuspension, ''unsuspend-hosting''),
     (''HOSTING_STATUS_RECONCILIATION_REQUESTED'', Q_hosting_status_reconciliation, ''reconcile-hosting-status''),
     (''PAYMENT_RECONCILIATION_REQUESTED'', Q_payment_reconciliation, ''reconcile-payment''),
     (''RENEWAL_INVOICE_GENERATION_REQUESTED'', Q_renewal_invoice_generation, ''generate-renewal-invoice''),
     (''RENEWAL_PAYMENT_COMPLETED'', Q_renewal_invoice_generation, ''apply-renewal-payment'')]"

definition routeOutboxEvent :: "string \<Rightarrow> (queue_name \<times> string) option" where
  "routeOutboxEvent eventType = map_of exactOutboxRoutes eventType"

section \<open>Jobs\<close>

definition upper_name :: "nat \<Rightarrow> string \<Rightarrow> bool" where
  \<comment> \<open>\<open>^[A-Z][A-Z0-9_]{0,n}$\<close>\<close>
  "upper_name n s \<longleftrightarrow>
     (case s of [] \<Rightarrow> False
      | c # cs \<Rightarrow> is_upper c \<and> length cs \<le> n \<and>
                  list_all (\<lambda>c. is_upper c \<or> is_digit c \<or> c = CHR ''_'') cs)"

definition backgroundJobDataSchema :: "(string \<Rightarrow> bool) \<Rightarrow> job_data \<Rightarrow> bool" where
  \<comment> \<open>the first argument is \<open>z.uuid()\<close>; the correlation is the event's identifier\<close>
  "backgroundJobDataSchema uuid j \<longleftrightarrow>
     uuid (jd_outboxEventId j) \<and> upper_name 79 (jd_aggregateType j) \<and> uuid (jd_aggregateId j) \<and>
     upper_name 119 (jd_eventType j)"

record queue_job =
  qj_queue :: queue_name
  qj_name :: string
  qj_id :: string
  qj_data :: job_data
  qj_attempts :: nat
  qj_backoff :: "int option"

definition job_data_of :: "outbox_event \<Rightarrow> job_data" where
  "job_data_of e =
     \<lparr>jd_outboxEventId = o_id e, jd_aggregateType = o_aggregateType e, jd_aggregateId = o_aggregateId e,
      jd_eventType = o_eventType e\<rparr>"

definition addOutboxJob ::
    "(string \<Rightarrow> bool) \<Rightarrow> queue_name \<times> string \<Rightarrow> outbox_event \<Rightarrow> api_error + queue_job" where
  \<comment> \<open>the call \<open>queue.add\<close> that it makes\<close>
  "addOutboxJob uuid = (\<lambda>(queue, name) e.
     if \<not> backgroundJobDataSchema uuid (job_data_of e) then Inl (Server_Error ''ZodError'')
     else
       let policy = backgroundQueuePolicies queue
       in Inr \<lparr>qj_queue = queue, qj_name = name,
               qj_id = ''outbox-'' @ filter (\<lambda>c. c \<noteq> CHR ''-'') (o_id e),
               qj_data = job_data_of e, qj_attempts = qp_attempts policy,
               qj_backoff = (if qp_backoffMilliseconds policy > 0
                             then Some (qp_backoffMilliseconds policy) else None)\<rparr>)"

section \<open>Dispatcher\<close>

definition MAX_PUBLICATION_ATTEMPTS :: nat where "MAX_PUBLICATION_ATTEMPTS = 5"

record dispatcher =
  dp_workerId :: string
  dp_batchSize :: nat
  dp_lockTimeoutSeconds :: int
  dp_uuid :: "string \<Rightarrow> bool"
    \<comment> \<open>\<open>z.uuid()\<close>\<close>

record dispatch_clock =
  \<comment> \<open>the readings of \<open>Date.now()\<close>, of the database's clock, and at a publication\<close>
  dc_cutoff :: instant
  dc_database :: instant
  dc_publish :: instant

definition claimable :: "instant \<Rightarrow> instant \<Rightarrow> outbox_event \<Rightarrow> bool" where
  "claimable databaseNow lockCutoff e \<longleftrightarrow>
     (o_status e = Out_PENDING \<and> o_availableAt e \<le> databaseNow) \<or>
     (o_status e = Out_PROCESSING \<and> (case o_lockedAt e of None \<Rightarrow> False | Some t \<Rightarrow> t < lockCutoff))"

definition claim_row :: "string \<Rightarrow> instant \<Rightarrow> outbox_event \<Rightarrow> outbox_event" where
  "claim_row workerId databaseNow e =
     e\<lparr>o_status := Out_PROCESSING, o_attemptCount := o_attemptCount e + 1,
       o_lockedAt := Some databaseNow, o_lockedBy := Some workerId\<rparr>"

definition candidates :: "dispatcher \<Rightarrow> dispatch_clock \<Rightarrow> db \<Rightarrow> uuid list" where
  \<comment> \<open>rows are kept in the order of their creation, which the stable sort keeps for equal times\<close>
  "candidates dp cl d =
     map o_id (take (dp_batchSize dp) (sort_key o_availableAt
       (filter (claimable (dc_database cl) (dc_cutoff cl - dp_lockTimeoutSeconds dp * 1000)) (d_outbox d))))"

definition claimBatch :: "dispatcher \<Rightarrow> dispatch_clock \<Rightarrow> db \<Rightarrow> db \<times> outbox_event list" where
  "claimBatch dp cl d =
     (let ids = candidates dp cl d;
          rows = update_many (\<lambda>e. List.member ids (o_id e)) (claim_row (dp_workerId dp) (dc_database cl)) (d_outbox d)
      in (d\<lparr>d_outbox := rows\<rparr>, sort_key o_availableAt (filter (\<lambda>e. List.member ids (o_id e)) rows)))"

definition update_owned ::
    "dispatcher \<Rightarrow> uuid \<Rightarrow> (outbox_event \<Rightarrow> outbox_event) \<Rightarrow> db \<Rightarrow> db" where
  \<comment> \<open>\<open>outboxEvent.updateMany\<close> of a row this dispatcher still holds\<close>
  "update_owned dp k f d =
     d\<lparr>d_outbox := update_many (\<lambda>e. o_id e = k \<and> o_status e = Out_PROCESSING \<and>
                                    o_lockedBy e = Some (dp_workerId dp)) f (d_outbox d)\<rparr>"

definition published_row :: "instant \<Rightarrow> outbox_event \<Rightarrow> outbox_event" where
  "published_row now e =
     e\<lparr>o_status := Out_PUBLISHED, o_publishedAt := Some now, o_lockedAt := None, o_lockedBy := None,
       o_lastError := None\<rparr>"

definition publication_delay :: "nat \<Rightarrow> int" where
  "publication_delay attemptCount = min 300000 (2000 * 2 ^ (attemptCount - 1))"

definition publication_failed_row :: "nat \<Rightarrow> instant \<Rightarrow> outbox_event \<Rightarrow> outbox_event" where
  "publication_failed_row attemptCount now e =
     (let exhausted = attemptCount \<ge> MAX_PUBLICATION_ATTEMPTS
      in e\<lparr>o_status := (if exhausted then Out_FAILED else Out_PENDING),
           o_availableAt := now + publication_delay attemptCount, o_lockedAt := None, o_lockedBy := None,
           o_lastError := Some (if exhausted then ''OUTBOX_PUBLICATION_ATTEMPTS_EXHAUSTED''
                                else ''OUTBOX_PUBLICATION_TEMPORARILY_UNAVAILABLE'')\<rparr>)"

definition failed_row :: "string \<Rightarrow> outbox_event \<Rightarrow> outbox_event" where
  "failed_row failureCode e =
     e\<lparr>o_status := Out_FAILED, o_lockedAt := None, o_lockedBy := None, o_lastError := Some failureCode\<rparr>"

definition publicationFailed :: "dispatcher \<Rightarrow> instant \<Rightarrow> outbox_event \<Rightarrow> db \<Rightarrow> db" where
  "publicationFailed dp now e d = update_owned dp (o_id e) (publication_failed_row (o_attemptCount e) now) d"

definition failPermanently :: "dispatcher \<Rightarrow> uuid \<Rightarrow> string \<Rightarrow> db \<Rightarrow> db" where
  "failPermanently dp k failureCode d = update_owned dp k (failed_row failureCode) d"

definition publish ::
    "dispatcher \<Rightarrow> (queue_job \<Rightarrow> bool) \<Rightarrow> instant \<Rightarrow> outbox_event \<Rightarrow> db \<times> queue_job list \<Rightarrow> db \<times> queue_job list" where
  "publish dp accepts now e = (\<lambda>(d, queued).
     case routeOutboxEvent (o_eventType e) of
       None \<Rightarrow> (failPermanently dp (o_id e) ''OUTBOX_EVENT_UNROUTABLE'' d, queued)
     | Some route \<Rightarrow>
       (case addOutboxJob (dp_uuid dp) route e of
          Inl _ \<Rightarrow> (publicationFailed dp now e d, queued)
        | Inr job \<Rightarrow>
          if accepts job then (update_owned dp (o_id e) (published_row now) d, queued @ [job])
          else (publicationFailed dp now e d, queued)))"

definition dispatchOnce ::
    "dispatcher \<Rightarrow> (queue_job \<Rightarrow> bool) \<Rightarrow> dispatch_clock \<Rightarrow> db \<times> queue_job list \<Rightarrow> (db \<times> queue_job list) \<times> nat" where
  "dispatchOnce dp accepts cl = (\<lambda>(d, queued).
     let (d1, events) = claimBatch dp cl d
     in (fold (publish dp accepts (dc_publish cl)) events (d1, queued), length events))"

section \<open>Failed jobs and manual retries\<close>

datatype failure_kind = TEMPORARY | PERMANENT | INCONSISTENT

record job_failure =
  jf_kind :: failure_kind
  jf_code :: string
  jf_manualRetryAllowed :: bool
  jf_unrecoverable :: bool

fun classify :: "job_error \<Rightarrow> failure_kind \<times> string" where
  "classify (Permanent code) = (PERMANENT, code)"
| "classify (Temporary code) = (TEMPORARY, code)"
| "classify (Inconsistent code) = (INCONSISTENT, code)"
| "classify (Database_Error e) = (TEMPORARY, ''BACKGROUND_JOB_UNEXPECTED'')"

definition worker_process ::
    "(string \<Rightarrow> bool) \<Rightarrow> (job_data \<Rightarrow> db \<Rightarrow> db \<times> (job_error + unit)) \<Rightarrow> job_data \<Rightarrow> db \<Rightarrow> db \<times> (job_failure + unit)" where
  "worker_process uuid handler data d =
     (if \<not> backgroundJobDataSchema uuid data
      then (d, Inl \<lparr>jf_kind = PERMANENT, jf_code = ''BACKGROUND_JOB_PAYLOAD_INVALID'',
                    jf_manualRetryAllowed = False, jf_unrecoverable = True\<rparr>)
      else
        (case handler data d of
           (d', Inr _) \<Rightarrow> (d', Inr ())
         | (d', Inl err) \<Rightarrow>
           (d', let (kind, code) = classify err
                in Inl \<lparr>jf_kind = kind, jf_code = code, jf_manualRetryAllowed = (kind = TEMPORARY),
                        jf_unrecoverable = (kind \<noteq> TEMPORARY)\<rparr>)))"

definition assertAdministrator :: "actor \<Rightarrow> api_error + unit" where
  "assertAdministrator ac =
     require (actor_role ac = ADMIN) (Forbidden ''Only administrators can manage background jobs.'')"

definition retry_row :: "instant \<Rightarrow> outbox_event \<Rightarrow> outbox_event" where
  "retry_row now e =
     e\<lparr>o_status := Out_PENDING, o_attemptCount := 0, o_availableAt := now, o_lockedAt := None,
       o_lockedBy := None, o_lastError := None\<rparr>"

definition retryOutboxEvent_tx :: "uuid \<Rightarrow> actor \<Rightarrow> instant \<Rightarrow> unit tx" where
  "retryOutboxEvent_tx k ac now d =
     (case List.find (\<lambda>e. o_id e = k) (d_outbox d) of
        None \<Rightarrow> Inl (Not_Found ''Outbox event was not found.'')
      | Some e \<Rightarrow>
        if o_status e \<noteq> Out_FAILED \<or> routeOutboxEvent (o_eventType e) = None
        then Inl (Conflict ''Only failed events with a recognized safe route may be retried.'')
        else
          Inr (log_activity
                \<lparr>a_actorUserId = Some (actor_userId ac), a_action = ''OUTBOX_EVENT_RETRIED'',
                 a_entityType = ''OUTBOX_EVENT'', a_entityId = Some (o_id e), a_correlationId = Some (o_id e),
                 a_metadata = [(''eventType'', JStr (o_eventType e)),
                               (''previousAttemptCount'', JNum (int (o_attemptCount e)))]\<rparr>
                (d\<lparr>d_outbox := update_many (\<lambda>x. o_id x = k) (retry_row now) (d_outbox d)\<rparr>), ()))"

definition retryOutboxEvent :: "uuid \<Rightarrow> actor \<Rightarrow> instant \<Rightarrow> unit handler" where
  "retryOutboxEvent k ac now d =
     (case assertAdministrator ac of
        Inl e \<Rightarrow> (d, Inl e)
      | Inr _ \<Rightarrow> run_tx (retryOutboxEvent_tx k ac now) d)"

definition retry_allowed ::
    "(string \<Rightarrow> bool) \<Rightarrow> (job_data \<times> job_failure option \<times> string) option \<Rightarrow> api_error + job_data" where
  \<comment> \<open>what the queue answers for the job: its data, its recorded failure and its state\<close>
  "retry_allowed uuid job =
     rbind (of_option (Not_Found ''Background job was not found.'') job) (\<lambda>(data, failure, state).
     if \<not> backgroundJobDataSchema uuid data
     then Inl (Conflict ''The job payload is invalid and cannot be retried.'')
     else if state \<noteq> ''failed'' \<or>
             (case failure of None \<Rightarrow> True | Some f \<Rightarrow> jf_kind f \<noteq> TEMPORARY \<or> \<not> jf_manualRetryAllowed f)
     then Inl (Conflict ''Only failed jobs classified as temporarily retryable may be retried.'')
     else Inr data)"

definition retryQueueJob ::
    "(string \<Rightarrow> bool) \<Rightarrow> string \<Rightarrow> string \<Rightarrow> (job_data \<times> job_failure option \<times> string) option \<Rightarrow> actor \<Rightarrow>
     unit handler" where
  \<comment> \<open>\<open>job.retry\<close> is the queue's; the audit entry is written after it\<close>
  "retryQueueJob uuid queueName jobId job ac d =
     (case rbind (assertAdministrator ac) (\<lambda>_. retry_allowed uuid job) of
        Inl e \<Rightarrow> (d, Inl e)
      | Inr data \<Rightarrow>
        (log_activity
          \<lparr>a_actorUserId = Some (actor_userId ac), a_action = ''BACKGROUND_JOB_RETRIED'',
           a_entityType = ''BACKGROUND_JOB'', a_entityId = Some (jd_outboxEventId data),
           a_correlationId = Some (jd_outboxEventId data),
           a_metadata = [(''queueName'', JStr queueName), (''jobId'', JStr jobId),
                         (''correlationId'', JStr (jd_outboxEventId data))]\<rparr> d, Inr ()))"

section \<open>A dispatch settles every claimed row by itself\<close>

definition settle_row :: "dispatcher \<Rightarrow> (queue_job \<Rightarrow> bool) \<Rightarrow> instant \<Rightarrow> outbox_event \<Rightarrow> outbox_event" where
  \<comment> \<open>the reference: what becomes of a claimed event\<close>
  "settle_row dp accepts now e =
     (case routeOutboxEvent (o_eventType e) of
        None \<Rightarrow> failed_row ''OUTBOX_EVENT_UNROUTABLE'' e
      | Some route \<Rightarrow>
        (case addOutboxJob (dp_uuid dp) route e of
           Inl _ \<Rightarrow> publication_failed_row (o_attemptCount e) now e
         | Inr job \<Rightarrow> if accepts job then published_row now e
                      else publication_failed_row (o_attemptCount e) now e))"

definition queued_job :: "dispatcher \<Rightarrow> (queue_job \<Rightarrow> bool) \<Rightarrow> outbox_event \<Rightarrow> queue_job list" where
  \<comment> \<open>the job the queue accepted for it, if any\<close>
  "queued_job dp accepts e =
     (case routeOutboxEvent (o_eventType e) of
        None \<Rightarrow> []
      | Some route \<Rightarrow>
        (case addOutboxJob (dp_uuid dp) route e of
           Inl _ \<Rightarrow> [] | Inr job \<Rightarrow> if accepts job then [job] else []))"

definition owned_by :: "dispatcher \<Rightarrow> outbox_event \<Rightarrow> bool" where
  "owned_by dp e \<longleftrightarrow> o_status e = Out_PROCESSING \<and> o_lockedBy e = Some (dp_workerId dp)"

lemma update_many_one:
  assumes "distinct (map o_id rows)" and "e \<in> set rows" and "owned_by dp e" and "f e = g e"
  shows "update_many (\<lambda>r. o_id r = o_id e \<and> o_status r = Out_PROCESSING \<and> o_lockedBy r = Some (dp_workerId dp)) f rows =
    map (\<lambda>r. if o_id r = o_id e then g r else r) rows"
proof -
  have "r = e" if "r \<in> set rows" "o_id r = o_id e" for r
    using distinct_key_inj [OF assms(1) that(1) assms(2) that(2)] .
  with assms(3,4) show ?thesis by (auto simp: update_many_def owned_by_def)
qed

lemma publish_row:
  assumes "distinct (map o_id (d_outbox d))" and "e \<in> set (d_outbox d)" and "owned_by dp e"
  shows "publish dp accepts now e (d, queued) =
    (d\<lparr>d_outbox := map (\<lambda>r. if o_id r = o_id e then settle_row dp accepts now r else r) (d_outbox d)\<rparr>,
     queued @ queued_job dp accepts e)"
proof -
  note one = update_many_one [where g = "settle_row dp accepts now", OF assms]
  show ?thesis
  proof (cases "routeOutboxEvent (o_eventType e)")
    case None
    then show ?thesis
      using one [of "failed_row ''OUTBOX_EVENT_UNROUTABLE''"]
      by (simp add: publish_def failPermanently_def update_owned_def settle_row_def queued_job_def)
  next
    case (Some route)
    show ?thesis
    proof (cases "addOutboxJob (dp_uuid dp) route e")
      case (Inl err)
      then show ?thesis
        using Some one [of "publication_failed_row (o_attemptCount e) now"]
        by (simp add: publish_def publicationFailed_def update_owned_def settle_row_def queued_job_def)
    next
      case (Inr job)
      then show ?thesis
        using Some one [of "publication_failed_row (o_attemptCount e) now"] one [of "published_row now"]
        by (simp add: publish_def publicationFailed_def update_owned_def settle_row_def queued_job_def)
    qed
  qed
qed

lemma row_updates_id [simp]:
  "o_id (settle_row dp accepts now e) = o_id e" "o_id (claim_row w now e) = o_id e"
  "o_eventType (settle_row dp accepts now e) = o_eventType e" "o_eventType (claim_row w now e) = o_eventType e"
  by (simp_all add: settle_row_def claim_row_def published_row_def publication_failed_row_def failed_row_def
      Let_def split: option.splits sum.splits)

lemma publish_all:
  assumes "distinct (map o_id (d_outbox d))" and "distinct (map o_id es)"
    and "set es \<subseteq> set (d_outbox d)" and "\<forall>e \<in> set es. owned_by dp e"
  shows "fold (publish dp accepts now) es (d, queued) =
    (d\<lparr>d_outbox := map (\<lambda>r. if o_id r \<in> o_id ` set es then settle_row dp accepts now r else r) (d_outbox d)\<rparr>,
     queued @ concat (map (queued_job dp accepts) es))"
  using assms
proof (induction es arbitrary: d queued)
  case Nil
  then show ?case by simp
next
  case (Cons e es)
  let ?f = "\<lambda>r. if o_id r = o_id e then settle_row dp accepts now r else r"
  let ?d = "d\<lparr>d_outbox := map ?f (d_outbox d)\<rparr>"
  have step: "publish dp accepts now e (d, queued) = (?d, queued @ queued_job dp accepts e)"
    using Cons.prems by (intro publish_row) auto
  have ids: "map o_id (map ?f (d_outbox d)) = map o_id (d_outbox d)" by simp
  have "set es \<subseteq> set (d_outbox ?d)"
  proof
    fix x
    assume x: "x \<in> set es"
    moreover have "o_id e \<notin> o_id ` set es" using Cons.prems(2) by simp
    ultimately have "o_id x \<noteq> o_id e" by (metis image_eqI)
    then have "x = ?f x" by simp
    with x Cons.prems(3) show "x \<in> set (d_outbox ?d)" by (auto simp: image_iff)
  qed
  moreover have "distinct (map o_id (d_outbox ?d))" using Cons.prems(1) ids by (simp del: map_map)
  ultimately have rest: "fold (publish dp accepts now) es (?d, queued @ queued_job dp accepts e) =
    (?d\<lparr>d_outbox := map (\<lambda>r. if o_id r \<in> o_id ` set es then settle_row dp accepts now r else r) (d_outbox ?d)\<rparr>,
     (queued @ queued_job dp accepts e) @ concat (map (queued_job dp accepts) es))"
    using Cons.prems by (intro Cons.IH) auto
  have "o_id e \<notin> o_id ` set es" using Cons.prems(2) by auto
  then have "map (\<lambda>r. if o_id r \<in> o_id ` set es then settle_row dp accepts now r else r) (map ?f (d_outbox d)) =
      map (\<lambda>r. if o_id r \<in> o_id ` set (e # es) then settle_row dp accepts now r else r) (d_outbox d)"
    by auto
  with step rest show ?case by simp
qed


lemma distinct_sort_key: "distinct (map f (sort_key g xs)) \<longleftrightarrow> distinct (map f xs)"
  by (simp add: distinct_map inj_on_def)

lemma claimBatch_rows:
  assumes "distinct (map o_id (d_outbox d))" and "claimBatch dp cl d = (d1, events)"
  shows "d1 = d\<lparr>d_outbox := map (\<lambda>e. if o_id e \<in> set (candidates dp cl d)
                              then claim_row (dp_workerId dp) (dc_database cl) e else e) (d_outbox d)\<rparr>"
    and "distinct (map o_id events)" and "set events \<subseteq> set (d_outbox d1)"
    and "o_id ` set events = set (candidates dp cl d)" and "\<forall>e \<in> set events. owned_by dp e"
    and "set (candidates dp cl d) \<subseteq> o_id ` set (d_outbox d)" and "distinct (candidates dp cl d)"
proof -
  let ?ids = "candidates dp cl d"
  let ?f = "\<lambda>e. if o_id e \<in> set ?ids then claim_row (dp_workerId dp) (dc_database cl) e else e"
  have d1: "d1 = d\<lparr>d_outbox := map ?f (d_outbox d)\<rparr>"
    and events: "events = sort_key o_availableAt (filter (\<lambda>e. o_id e \<in> set ?ids) (map ?f (d_outbox d)))"
    using assms(2) by (auto simp: claimBatch_def Let_def update_many_def)
  show "d1 = d\<lparr>d_outbox := map ?f (d_outbox d)\<rparr>" by (rule d1)
  have ids: "map o_id (map ?f (d_outbox d)) = map o_id (d_outbox d)" by simp
  show "distinct (map o_id events)"
    unfolding events distinct_sort_key by (rule distinct_map_filter) (simp only: ids assms(1))
  show "set events \<subseteq> set (d_outbox d1)" by (auto simp: events d1)
  have sub: "set ?ids \<subseteq> o_id ` set (d_outbox d)"
    unfolding candidates_def by (auto dest: in_set_takeD)
  then show "set ?ids \<subseteq> o_id ` set (d_outbox d)" .
  show "o_id ` set events = set ?ids"
  proof
    show "o_id ` set events \<subseteq> set ?ids" by (auto simp: events)
    show "set ?ids \<subseteq> o_id ` set events"
    proof
      fix k
      assume k: "k \<in> set ?ids"
      then obtain e where "e \<in> set (d_outbox d)" "o_id e = k" using sub by auto
      with k have "?f e \<in> set events" "o_id (?f e) = k" by (auto simp: events)
      then show "k \<in> o_id ` set events" by (metis imageI)
    qed
  qed
  show "\<forall>e \<in> set events. owned_by dp e" by (auto simp: events owned_by_def claim_row_def)
  have "distinct (map o_id (take n (sort_key o_availableAt (filter P (d_outbox d)))))" for n P
  proof -
    have "distinct (map o_id (sort_key o_availableAt (filter P (d_outbox d))))"
      using assms(1) by (simp only: distinct_sort_key distinct_map_filter)
    then show ?thesis by (simp flip: take_map add: distinct_take)
  qed
  then show "distinct ?ids" unfolding candidates_def .
qed

definition row_after :: "dispatcher \<Rightarrow> (queue_job \<Rightarrow> bool) \<Rightarrow> dispatch_clock \<Rightarrow> uuid list \<Rightarrow> outbox_event \<Rightarrow> outbox_event" where
  \<comment> \<open>a row after a dispatch that claimed the events \<open>ids\<close>\<close>
  "row_after dp accepts cl ids e =
     (if o_id e \<in> set ids
      then settle_row dp accepts (dc_publish cl) (claim_row (dp_workerId dp) (dc_database cl) e) else e)"

lemma dispatchOnce_eq:
  assumes dist: "distinct (map o_id (d_outbox d))"
    and run: "dispatchOnce dp accepts cl (d, queued) = ((d', queued'), n)"
  shows "d' = d\<lparr>d_outbox := map (row_after dp accepts cl (candidates dp cl d)) (d_outbox d)\<rparr> \<and>
    n = length (candidates dp cl d) \<and> n \<le> dp_batchSize dp \<and>
    (\<exists>events. queued' = queued @ concat (map (queued_job dp accepts) events) \<and>
       set events = {claim_row (dp_workerId dp) (dc_database cl) e |e.
                       e \<in> set (d_outbox d) \<and> o_id e \<in> set (candidates dp cl d)})"
proof -
  obtain d1 events where claim: "claimBatch dp cl d = (d1, events)" by fastforce
  note rows = claimBatch_rows [OF dist claim]
  have ids: "map o_id (d_outbox d1) = map o_id (d_outbox d)" by (simp add: rows(1))
  have all: "fold (publish dp accepts (dc_publish cl)) events (d1, queued) =
    (d1\<lparr>d_outbox := map (\<lambda>r. if o_id r \<in> o_id ` set events then settle_row dp accepts (dc_publish cl) r else r)
       (d_outbox d1)\<rparr>, queued @ concat (map (queued_job dp accepts) events))"
    using dist ids by (intro publish_all rows) simp
  have n: "n = length events" using run claim by (auto simp: dispatchOnce_def)
  also have "\<dots> = card (o_id ` set events)" using rows(2) by (metis distinct_card length_map list.set_map)
  also have "\<dots> = length (candidates dp cl d)" using rows(4,7) by (simp add: distinct_card)
  finally have len: "n = length (candidates dp cl d)" .
  have "set events = {claim_row (dp_workerId dp) (dc_database cl) e |e.
                       e \<in> set (d_outbox d) \<and> o_id e \<in> set (candidates dp cl d)}"
    using claim by (auto simp: claimBatch_def Let_def update_many_def)
  moreover have "d' = d\<lparr>d_outbox := map (row_after dp accepts cl (candidates dp cl d)) (d_outbox d)\<rparr>"
    using run claim all rows(4) by (auto simp: dispatchOnce_def row_after_def rows(1) comp_def cong: map_cong)
  moreover have "n \<le> dp_batchSize dp" by (simp add: len candidates_def)
  ultimately show ?thesis using len run claim all by (auto simp: dispatchOnce_def)
qed


text \<open>
  One dispatch claims at most a batch of due events and settles each row by itself,
  whatever the order of publication: a claimed event is published when it has a route and the
  queue accepts its job, is put back with a delay or given up when the queue refuses it, is
  failed when it has no route, and every other row stays as it is.
\<close>

theorem dispatch_settles_rows:
  assumes "distinct (map o_id (d_outbox d))"
    and "dispatchOnce dp accepts cl (d, queued) = ((d', queued'), n)"
  shows "d' = d\<lparr>d_outbox := map (row_after dp accepts cl (candidates dp cl d)) (d_outbox d)\<rparr> \<and>
    n = length (candidates dp cl d) \<and> n \<le> dp_batchSize dp"
  using dispatchOnce_eq [OF assms] by blast

section \<open>Refusals come to an end\<close>

lemma attempts_after_claim:
  assumes "o_id e \<in> set ids"
  shows "o_attemptCount (row_after dp accepts cl ids e) = o_attemptCount e + 1"
  using assms
  by (simp add: row_after_def settle_row_def claim_row_def published_row_def publication_failed_row_def
      failed_row_def Let_def split: option.splits sum.splits)

lemma row_after_refused:
  assumes "o_id e \<in> set ids" and "routeOutboxEvent (o_eventType e) = Some route"
  shows "row_after dp (\<lambda>j. False) cl ids e =
    publication_failed_row (o_attemptCount e + 1) (dc_publish cl) (claim_row (dp_workerId dp) (dc_database cl) e)"
  using assms by (simp add: row_after_def settle_row_def claim_row_def split: sum.splits)

lemma candidate_claimable:
  assumes "distinct (map o_id (d_outbox d))" and "k \<in> set (candidates dp cl d)"
    and "e \<in> set (d_outbox d)" and "o_id e = k"
  shows "o_status e = Out_PENDING \<or> o_status e = Out_PROCESSING"
proof -
  let ?P = "claimable (dc_database cl) (dc_cutoff cl - dp_lockTimeoutSeconds dp * 1000)"
  have "set (take n (sort_key o_availableAt (filter ?P (d_outbox d)))) \<subseteq> set (filter ?P (d_outbox d))" for n
    using set_take_subset [of n "sort_key o_availableAt (filter ?P (d_outbox d))"] by simp
  then obtain e' where e': "e' \<in> set (d_outbox d)" "o_id e' = k" "?P e'"
    using assms(2) unfolding candidates_def by fastforce
  then have "e' = e" using distinct_key_inj [OF assms(1) e'(1) assms(3)] assms(4) by simp
  with e'(3) show ?thesis by (auto simp: claimable_def)
qed

fun claimed_throughout :: "dispatcher \<Rightarrow> uuid \<Rightarrow> dispatch_clock list \<Rightarrow> db \<times> queue_job list \<Rightarrow> bool" where
  \<comment> \<open>dispatches in which the queue refuses every job, each of them claiming the event\<close>
  "claimed_throughout dp k [] st \<longleftrightarrow> True"
| "claimed_throughout dp k (cl # cls) st \<longleftrightarrow>
     k \<in> set (candidates dp cl (fst st)) \<and>
     claimed_throughout dp k cls (fst (dispatchOnce dp (\<lambda>j. False) cl st))"

lemma refused_round:
  assumes dist: "distinct (map o_id (d_outbox d))" and e: "e \<in> set (d_outbox d)"
    and route: "routeOutboxEvent (o_eventType e) = Some route"
    and claimed: "o_id e \<in> set (candidates dp cl d)"
    and run: "fst (dispatchOnce dp (\<lambda>j. False) cl (d, queued)) = (d', queued')"
  shows "distinct (map o_id (d_outbox d'))"
    and "publication_failed_row (o_attemptCount e + 1) (dc_publish cl)
           (claim_row (dp_workerId dp) (dc_database cl) e) \<in> set (d_outbox d')"
proof -
  obtain n where "dispatchOnce dp (\<lambda>j. False) cl (d, queued) = ((d', queued'), n)"
    using run by (metis prod.collapse)
  from dispatchOnce_eq [OF dist this]
  have d': "d_outbox d' = map (row_after dp (\<lambda>j. False) cl (candidates dp cl d)) (d_outbox d)"
    by simp
  have "o_id (row_after dp (\<lambda>j. False) cl ids r) = o_id r" for ids r by (simp add: row_after_def)
  then show "distinct (map o_id (d_outbox d'))" using dist by (simp add: d' comp_def)
  show "publication_failed_row (o_attemptCount e + 1) (dc_publish cl)
           (claim_row (dp_workerId dp) (dc_database cl) e) \<in> set (d_outbox d')"
    using e row_after_refused [OF claimed route, of dp cl] by (force simp: d')
qed

lemma refusals_bound:
  assumes "claimed_throughout dp k cls (d, queued)" and "distinct (map o_id (d_outbox d))"
    and "e \<in> set (d_outbox d)" and "o_id e = k" and "routeOutboxEvent (o_eventType e) = Some route"
    and "o_status e \<noteq> Out_FAILED \<longrightarrow> o_attemptCount e < MAX_PUBLICATION_ATTEMPTS"
  shows "length cls \<le> MAX_PUBLICATION_ATTEMPTS - o_attemptCount e"
  using assms
proof (induction cls arbitrary: d queued e)
  case Nil
  then show ?case by simp
next
  case (Cons cl cls)
  have claimed: "o_id e \<in> set (candidates dp cl d)" using Cons.prems(1,4) by simp
  have "o_status e \<noteq> Out_FAILED"
    using candidate_claimable [OF Cons.prems(2) claimed Cons.prems(3) refl] by auto
  with Cons.prems(6) have less: "o_attemptCount e < MAX_PUBLICATION_ATTEMPTS" by simp
  obtain d' queued' where run: "fst (dispatchOnce dp (\<lambda>j. False) cl (d, queued)) = (d', queued')"
    by fastforce
  let ?e = "publication_failed_row (o_attemptCount e + 1) (dc_publish cl)
    (claim_row (dp_workerId dp) (dc_database cl) e)"
  note round = refused_round [OF Cons.prems(2,3,5) claimed run]
  have "length cls \<le> MAX_PUBLICATION_ATTEMPTS - o_attemptCount ?e"
    using Cons.prems round run
    by (intro Cons.IH [of d' queued' ?e])
      (auto simp: publication_failed_row_def claim_row_def Let_def MAX_PUBLICATION_ATTEMPTS_def)
  with less show ?case by (simp add: publication_failed_row_def claim_row_def Let_def MAX_PUBLICATION_ATTEMPTS_def)
qed



section \<open>Interleaved dispatchers\<close>

text \<open>
  Any number of dispatchers, services and administrators at work: a publication may come long
  after the claim, by a dispatcher whose copy of the event is out of date and whose lock others
  have taken over since.
\<close>

inductive outbox_step :: "db \<times> queue_job list \<Rightarrow> db \<times> queue_job list \<Rightarrow> bool" where
  written: "create_outbox now a k t key v d = Inr (d', u) \<Longrightarrow> outbox_step (d, q) (d', q)"
| claimed: "claimBatch dp cl d = (d', events) \<Longrightarrow> outbox_step (d, q) (d', q)"
| published:
    "e' \<in> set (d_outbox d) \<Longrightarrow> job_data_of e = job_data_of e' \<Longrightarrow>
     publish dp accepts now e (d, q) = (d', q') \<Longrightarrow> outbox_step (d, q) (d', q')"
| retried: "retryOutboxEvent_tx k ac now d = Inr (d', u) \<Longrightarrow> outbox_step (d, q) (d', q)"

abbreviation outbox_steps :: "db \<times> queue_job list \<Rightarrow> db \<times> queue_job list \<Rightarrow> bool" where
  "outbox_steps \<equiv> outbox_step\<^sup>*\<^sup>*"

definition queued_for :: "queue_job list \<Rightarrow> outbox_event \<Rightarrow> bool" where
  "queued_for q e \<longleftrightarrow>
     (\<exists>j \<in> set q. qj_data j = job_data_of e \<and> map_option fst (routeOutboxEvent (o_eventType e)) = Some (qj_queue j))"

definition outbox_inv :: "db \<times> queue_job list \<Rightarrow> bool" where
  "outbox_inv = (\<lambda>(d, q). distinct (map o_id (d_outbox d)) \<and>
     (\<forall>e \<in> set (d_outbox d). o_status e = Out_PUBLISHED \<longrightarrow> queued_for q e))"

definition event_core :: "outbox_event \<Rightarrow> job_data \<times> string \<times> json" where
  \<comment> \<open>what no dispatcher changes of an event\<close>
  "event_core e = (job_data_of e, o_idempotencyKey e, o_payload e)"

lemma core_kept [simp]:
  "event_core (claim_row w t e) = event_core e" "event_core (published_row t e) = event_core e"
  "event_core (publication_failed_row n t e) = event_core e" "event_core (failed_row c e) = event_core e"
  "event_core (retry_row t e) = event_core e"
  by (simp_all add: event_core_def job_data_of_def claim_row_def published_row_def publication_failed_row_def
      failed_row_def retry_row_def Let_def)

lemma queued_for_core: "event_core e = event_core e' \<Longrightarrow> queued_for q e = queued_for q e'"
  by (simp add: queued_for_def event_core_def job_data_of_def)

lemma queued_for_mono: "queued_for q e \<Longrightarrow> queued_for (q @ q') e"
  by (auto simp: queued_for_def)

definition rows_updated :: "queue_job list \<Rightarrow> db \<Rightarrow> db \<Rightarrow> bool" where
  \<comment> \<open>each row kept its core, and was published only with its job queued\<close>
  "rows_updated q d d' \<longleftrightarrow> d_runs d' = d_runs d \<and>
     list_all2 (\<lambda>e e'. event_core e' = event_core e \<and>
       (o_status e' = Out_PUBLISHED \<longrightarrow> o_status e = Out_PUBLISHED \<or> queued_for q e')) (d_outbox d) (d_outbox d')"

lemma rows_updated_map:
  assumes "d' = d\<lparr>d_outbox := update_many P f (d_outbox d)\<rparr> \<or>
      d' = log_activity a (d\<lparr>d_outbox := update_many P f (d_outbox d)\<rparr>)"
    and "\<And>e. event_core (f e) = event_core e"
    and "\<And>e. e \<in> set (d_outbox d) \<Longrightarrow> P e \<Longrightarrow> o_status (f e) = Out_PUBLISHED \<Longrightarrow> queued_for q (f e)"
  shows "rows_updated q d d'"
proof -
  have rows: "d_outbox d' = update_many P f (d_outbox d)" and runs: "d_runs d' = d_runs d"
    using assms(1) by (auto simp: log_activity_def)
  have "list_all2 (\<lambda>e e'. event_core e' = event_core e \<and>
       (o_status e' = Out_PUBLISHED \<longrightarrow> o_status e = Out_PUBLISHED \<or> queued_for q e')) xs (update_many P f xs)"
    if "\<And>e. e \<in> set xs \<Longrightarrow> P e \<Longrightarrow> o_status (f e) = Out_PUBLISHED \<Longrightarrow> queued_for q (f e)" for xs
    using that by (induction xs) (auto simp: assms(2))
  then show ?thesis using assms(3) by (simp add: rows_updated_def rows runs)
qed

lemma rows_updated_inv:
  assumes "rows_updated q' d d'" and "outbox_inv (d, q)" and "\<And>e. queued_for q e \<Longrightarrow> queued_for q' e"
  shows "outbox_inv (d', q')"
proof -
  have all: "list_all2 (\<lambda>e e'. event_core e' = event_core e \<and>
       (o_status e' = Out_PUBLISHED \<longrightarrow> o_status e = Out_PUBLISHED \<or> queued_for q' e')) (d_outbox d) (d_outbox d')"
    using assms(1) by (simp add: rows_updated_def)
  then have "map o_id (d_outbox d') = map o_id (d_outbox d)"
    by (induction rule: list_all2_induct) (auto simp: event_core_def job_data_of_def)
  moreover have "queued_for q' e'" if e': "e' \<in> set (d_outbox d')" "o_status e' = Out_PUBLISHED" for e'
  proof -
    obtain n where n: "n < length (d_outbox d')" "e' = d_outbox d' ! n" using e'(1) by (auto simp: in_set_conv_nth)
    let ?e = "d_outbox d ! n"
    have mem: "?e \<in> set (d_outbox d)" using n(1) all by (simp add: list_all2_lengthD)
    have e: "event_core e' = event_core ?e" "o_status ?e = Out_PUBLISHED \<or> queued_for q' e'"
      using all n e'(2) by (auto simp: list_all2_conv_all_nth)
    from e(2) show ?thesis
    proof
      assume "o_status ?e = Out_PUBLISHED"
      then have "queued_for q' ?e" using assms(2,3) mem by (auto simp: outbox_inv_def)
      then show ?thesis using queued_for_core [OF e(1)] by simp
    qed
  qed
  ultimately show ?thesis using assms(2) by (simp add: outbox_inv_def)
qed

lemma addOutboxJob_data:
  "addOutboxJob uuid route e = Inr job \<Longrightarrow> qj_data job = job_data_of e \<and> qj_queue job = fst route"
  by (auto simp: addOutboxJob_def Let_def split: prod.splits if_splits)

lemma unpublished_rows:
  assumes "\<And>e. event_core (f e) = event_core e" and "\<And>e. o_status (f e) \<noteq> Out_PUBLISHED"
  shows "rows_updated q d (update_owned dp k f d)"
  by (rule rows_updated_map [where f = f, OF disjI1 [OF update_owned_def] assms(1)]) (simp add: assms(2))

lemma publish_rows:
  assumes dist: "distinct (map o_id (d_outbox d))" and e': "e' \<in> set (d_outbox d)"
    and same: "job_data_of e = job_data_of e'" and run: "publish dp accepts now e (d, q) = (d', q')"
  shows "rows_updated q' d d' \<and> (\<exists>js. q' = q @ js)"
proof -
  have row: "r = e'" if "r \<in> set (d_outbox d)" "o_id r = o_id e" for r
    using distinct_key_inj [OF dist that(1) e'] that(2) same by (simp add: job_data_of_def)
  have status: "o_status (failed_row c r) \<noteq> Out_PUBLISHED" "o_status (publication_failed_row n now r) \<noteq> Out_PUBLISHED"
    for c n r by (simp_all add: failed_row_def publication_failed_row_def Let_def)
  show ?thesis
  proof (cases "routeOutboxEvent (o_eventType e)")
    case None
    then have "q' = q \<and> d' = update_owned dp (o_id e) (failed_row ''OUTBOX_EVENT_UNROUTABLE'') d"
      using run by (simp add: publish_def failPermanently_def)
    then show ?thesis using unpublished_rows [of "failed_row ''OUTBOX_EVENT_UNROUTABLE''" q d dp "o_id e"] status by simp
  next
    case (Some route)
    consider (refused) "q' = q" "d' = publicationFailed dp now e d"
      | (accepted) job where "addOutboxJob (dp_uuid dp) route e = Inr job" "q' = q @ [job]"
          "d' = update_owned dp (o_id e) (published_row now) d"
      using run Some by (auto simp: publish_def split: sum.splits if_splits)
    then show ?thesis
    proof cases
      case refused
      then show ?thesis
        using unpublished_rows [of "publication_failed_row (o_attemptCount e) now" q d dp "o_id e"] status
        by (simp add: publicationFailed_def)
    next
      case accepted
      have "queued_for q' (published_row now r)" if "r \<in> set (d_outbox d)" "o_id r = o_id e" for r
      proof -
        have "job_data_of r = job_data_of e" using row [OF that] same by simp
        then have "job_data_of (published_row now r) = job_data_of e"
          "o_eventType (published_row now r) = o_eventType e"
          by (simp_all add: published_row_def job_data_of_def)
        then show ?thesis
          using addOutboxJob_data [OF accepted(1)] Some accepted(2) by (simp add: queued_for_def)
      qed
      then have "rows_updated q' d d'"
        unfolding accepted(3)
        by (intro rows_updated_map [where f = "published_row now", OF disjI1 [OF update_owned_def]]) simp_all
      with accepted(2) show ?thesis by auto
    qed
  qed
qed

lemma outbox_step_cases:
  assumes "outbox_step (d, q) (d', q')" and "distinct (map o_id (d_outbox d))"
  obtains (updated) js where "rows_updated q' d d'" and "q' = q @ js"
  | (new) e where "d_outbox d' = d_outbox d @ [e]" and "o_status e = Out_PENDING"
      and "o_id e \<notin> o_id ` set (d_outbox d)" and "o_idempotencyKey e \<notin> o_idempotencyKey ` set (d_outbox d)"
      and "d_runs d' = d_runs d" and "q' = q"
  using assms(1)
proof (cases rule: outbox_step.cases)
  case (written now a k t key v u)
  from written(2) show ?thesis
    by (auto simp: create_outbox_def list_ex_iff written(1) intro!: new split: if_splits)
next
  case (claimed dp cl events)
  then have "rows_updated q' d d'"
    by (intro rows_updated_map [where f = "claim_row (dp_workerId dp) (dc_database cl)"])
      (auto simp: claimBatch_def Let_def claim_row_def event_core_def job_data_of_def)
  with claimed show ?thesis by (intro updated [of "[]"]) simp_all
next
  case (published e' e dp accepts now)
  then show ?thesis using publish_rows [OF assms(2)] updated by blast
next
  case (retried k ac now u)
  then have "rows_updated q' d d'"
    by (auto simp: retryOutboxEvent_tx_def split: option.splits if_splits
        intro!: rows_updated_map [where f = "retry_row now"]) (simp_all add: retry_row_def)
  with retried show ?thesis by (intro updated [of "[]"]) simp_all
qed

lemma outbox_step_inv:
  assumes "outbox_step (d, q) (d', q')" and "outbox_inv (d, q)"
  shows "outbox_inv (d', q')"
proof -
  have "distinct (map o_id (d_outbox d))" using assms(2) by (simp add: outbox_inv_def)
  with assms(1) show ?thesis
  proof (cases rule: outbox_step_cases)
    case (updated js)
    then show ?thesis using rows_updated_inv [OF updated(1) assms(2)] queued_for_mono by simp
  next
    case (new e)
    then show ?thesis using assms(2) by (auto simp: outbox_inv_def)
  qed
qed

lemma outbox_steps_inv:
  assumes "outbox_steps st st'" and "outbox_inv st"
  shows "outbox_inv st'"
  using assms
proof (induction rule: rtranclp_induct)
  case (step s t)
  then show ?case by (cases s; cases t) (simp add: outbox_step_inv)
qed simp

text \<open>
  C7: no event is marked as published that the queue did not accept. However dispatchers,
  writers and manual retries interleave, and however stale the copies are that a dispatcher
  publishes, a published event always has its own job in the queue of its route.
\<close>

theorem published_events_are_queued:
  assumes "outbox_steps (empty_db, []) (d, q)" and "e \<in> set (d_outbox d)" and "o_status e = Out_PUBLISHED"
  shows "\<exists>j \<in> set q. qj_data j = job_data_of e \<and>
    map_option fst (routeOutboxEvent (o_eventType e)) = Some (qj_queue j)"
proof -
  have "outbox_inv (empty_db, [])" by (simp add: outbox_inv_def empty_db_def)
  then have "outbox_inv (d, q)" using outbox_steps_inv [OF assms(1)] by simp
  then show ?thesis using assms(2,3) by (auto simp: outbox_inv_def queued_for_def)
qed


section \<open>A scheduled cycle is processed\<close>

definition core_at :: "string \<Rightarrow> job_data \<times> string \<times> json \<Rightarrow> db \<Rightarrow> bool" where
  \<comment> \<open>the event with this key is there, with this content\<close>
  "core_at key core d \<longleftrightarrow>
     (\<exists>e \<in> set (d_outbox d). o_idempotencyKey e = key) \<and>
     (\<forall>e \<in> set (d_outbox d). o_idempotencyKey e = key \<longrightarrow> event_core e = core)"

lemma core_atD: "core_at key core d \<Longrightarrow> e \<in> set (d_outbox d) \<Longrightarrow> o_idempotencyKey e = key \<Longrightarrow> event_core e = core"
  by (simp add: core_at_def)

lemma core_at_step:
  assumes "outbox_step (d, q) (d', q')" and "outbox_inv (d, q)" and "core_at key core d"
  shows "core_at key core d' \<and> d_runs d' = d_runs d"
proof -
  have "distinct (map o_id (d_outbox d))" using assms(2) by (simp add: outbox_inv_def)
  with assms(1) show ?thesis
  proof (cases rule: outbox_step_cases)
    case (updated js)
    then have "list_all2 (\<lambda>e e'. event_core e' = event_core e) (d_outbox d) (d_outbox d')"
      by (auto simp: rows_updated_def elim!: list_all2_mono)
    then have cores: "map event_core (d_outbox d') = map event_core (d_outbox d)"
      by (simp add: list_all2_conv_all_nth list_eq_iff_nth_eq)
    then have same: "event_core ` set (d_outbox d') = event_core ` set (d_outbox d)" by (metis list.set_map)
    have alt: "core_at key core d \<longleftrightarrow> (\<exists>x \<in> event_core ` set (d_outbox d). fst (snd x) = key) \<and>
        (\<forall>x \<in> event_core ` set (d_outbox d). fst (snd x) = key \<longrightarrow> x = core)" for d
      by (simp add: core_at_def event_core_def)
    show ?thesis using assms(3) updated(1) unfolding alt same rows_updated_def by blast
  next
    case (new e)
    have "o_idempotencyKey e \<noteq> key" using new(4) assms(3) by (auto simp: core_at_def)
    with new assms(3) show ?thesis by (auto simp: core_at_def)
  qed
qed

lemma core_at_steps:
  assumes "outbox_steps st st'" and "outbox_inv st" and "core_at key core (fst st)"
  shows "core_at key core (fst st') \<and> d_runs (fst st') = d_runs (fst st)"
  using assms
proof (induction rule: rtranclp_induct)
  case (step s t)
  then show ?case
    using outbox_steps_inv [OF step(1,4)] core_at_step [of "fst s" "snd s" "fst t" "snd t" key core] by simp
qed simp

lemma schedule_tx_cases:
  assumes "schedule_tx policy date now acquired d = Inr (d', Sched_CREATED)" and "pol_enabled policy"
  obtains e r where "d_outbox d' = d_outbox d @ [e]" and "d_runs d' = d_runs d @ [r]"
    and "o_id e \<notin> o_id ` set (d_outbox d)" and "o_status e = Out_PENDING"
    and "o_idempotencyKey e \<notin> o_idempotencyKey ` set (d_outbox d)" and "r_id r \<notin> r_id ` set (d_runs d)"
    and "r_id r = fresh_uuid d" and "r_status r = Auto_RUNNING"
    and "event_core e =
      (\<lparr>jd_outboxEventId = o_id e, jd_aggregateType = ''AUTOMATION_RUN'', jd_aggregateId = fresh_uuid d,
        jd_eventType = ''RENEWAL_INVOICE_GENERATION_REQUESTED''\<rparr>, ''renewal-cycle-request:'' @ date,
       cycle_payload_json \<lparr>cy_automationRunId = fresh_uuid d, cy_businessDate = date,
         cy_scheduledFor = toISOString now, cy_policy = policy\<rparr>)"
proof -
  let ?r = "(cycle_run policy date now)\<lparr>r_id := fresh_uuid d\<rparr>"
  let ?key = "''renewal-cycle-request:'' @ date"
  let ?p = "cycle_payload_json \<lparr>cy_automationRunId = fresh_uuid d, cy_businessDate = date,
         cy_scheduledFor = toISOString now, cy_policy = policy\<rparr>"
  obtain d1 k where run: "create_run (cycle_run policy date now) d = Inr (d1, k)"
    and out: "create_outbox now ''AUTOMATION_RUN'' k ''RENEWAL_INVOICE_GENERATION_REQUESTED'' ?key
       (cycle_payload_json \<lparr>cy_automationRunId = k, cy_businessDate = date,
         cy_scheduledFor = toISOString now, cy_policy = policy\<rparr>) d1 = Inr (d', ())"
    using assms by (auto simp: schedule_tx_def result_simps split: if_splits)
  have r: "k = fresh_uuid d" "d1 = d\<lparr>d_runs := d_runs d @ [?r], d_supply := Suc (d_supply d)\<rparr>"
    "fresh_uuid d \<notin> r_id ` set (d_runs d)"
    using run by (auto simp: create_run_def Let_def list_ex_iff split: if_splits)
  let ?e = "\<lparr>o_id = fresh_uuid d1, o_aggregateType = ''AUTOMATION_RUN'', o_aggregateId = k,
      o_eventType = ''RENEWAL_INVOICE_GENERATION_REQUESTED'', o_idempotencyKey = ?key, o_payload = ?p,
      o_status = Out_PENDING, o_attemptCount = 0, o_availableAt = now, o_lockedAt = None, o_lockedBy = None,
      o_publishedAt = None, o_lastError = None\<rparr>"
  have fresh: "\<not> list_ex (\<lambda>e. o_idempotencyKey e = ?key \<or> o_id e = fresh_uuid d1) (d_outbox d1)"
    and d': "d' = d1\<lparr>d_outbox := d_outbox d1 @ [?e], d_supply := Suc (d_supply d1)\<rparr>"
    using out r(1) unfolding create_outbox_def by (auto split: if_splits)
  show ?thesis
  proof (rule that [of ?e ?r])
    show "o_id ?e \<notin> o_id ` set (d_outbox d)" "o_idempotencyKey ?e \<notin> o_idempotencyKey ` set (d_outbox d)"
      using fresh r(2) by (auto simp: list_ex_iff)
  qed (use r d' assms(2) in \<open>simp_all add: cycle_run_def event_core_def job_data_of_def\<close>)
qed

lemma attemptCycle_retryable: "snd (attemptCycle env cl p d) \<noteq> Inl (Permanent code)"
  by (auto simp: attemptCycle_def failCycle_def split: prod.splits sum.splits)

text \<open>
  C30: the scheduler, the outbox and the processor fit together. The event of a scheduled cycle,
  once some dispatcher has published it, is a job in the queue of the renewals that the processor
  takes up: whatever else happened to the outbox meanwhile, it never refuses the event, its
  payload or its run as invalid.
\<close>

theorem scheduled_cycle_accepted:
  assumes "outbox_inv (d, q)" and "scheduleCurrentCycle env now True d = (d1, Inr Sched_CREATED)"
    and "pol_enabled (loadRenewalPolicy env d)" and "timeZoneSchema env ''Asia/Dhaka''"
    and "businessDate (env_parts env) now (pol_timeZone (loadRenewalPolicy env d)) = Inr date"
    and "env_uuid env (fresh_uuid d)" and "env_isoDate env date" and "env_isoDatetime env (toISOString now)"
    and "outbox_steps (d1, q) (d2, q2)" and "e \<in> set (d_outbox d2)"
    and "o_idempotencyKey e = ''renewal-cycle-request:'' @ date" and "o_status e = Out_PUBLISHED"
  shows "queued_for q2 e \<and> snd (processCycle env cl (job_data_of e) d2) \<noteq> Inl (Permanent code)"
proof -
  let ?policy = "loadRenewalPolicy env d"
  let ?p = "\<lparr>cy_automationRunId = fresh_uuid d, cy_businessDate = date, cy_scheduledFor = toISOString now,
    cy_policy = ?policy\<rparr>"
  have "schedule_tx ?policy date now True d = Inr (d1, Sched_CREATED)"
    using assms(2,5) by (auto simp: scheduleCurrentCycle_def calendar_failure_def run_tx_def split: sum.splits)
  from this assms(3) obtain e0 r where e0: "d_outbox d1 = d_outbox d @ [e0]" "d_runs d1 = d_runs d @ [r]"
    "o_id e0 \<notin> o_id ` set (d_outbox d)" "o_status e0 = Out_PENDING"
    "o_idempotencyKey e0 \<notin> o_idempotencyKey ` set (d_outbox d)" "r_id r \<notin> r_id ` set (d_runs d)"
    "r_id r = fresh_uuid d" "r_status r = Auto_RUNNING"
    "event_core e0 = (\<lparr>jd_outboxEventId = o_id e0, jd_aggregateType = ''AUTOMATION_RUN'',
        jd_aggregateId = fresh_uuid d, jd_eventType = ''RENEWAL_INVOICE_GENERATION_REQUESTED''\<rparr>,
        ''renewal-cycle-request:'' @ date, cycle_payload_json ?p)"
    by (rule schedule_tx_cases)
  have key0: "o_idempotencyKey e0 = ''renewal-cycle-request:'' @ date"
    using e0(9) by (simp add: event_core_def)
  have inv1: "outbox_inv (d1, q)" using assms(1) e0(1,3,4) by (auto simp: outbox_inv_def)
  have "o_idempotencyKey x \<noteq> ''renewal-cycle-request:'' @ date" if "x \<in> set (d_outbox d)" for x
    using that e0(5) key0 by (metis image_eqI)
  then have "core_at (''renewal-cycle-request:'' @ date) (event_core e0) d1"
    using key0 unfolding core_at_def e0(1) by simp
  then have at: "core_at (''renewal-cycle-request:'' @ date) (event_core e0) d2" and runs: "d_runs d2 = d_runs d @ [r]"
    using core_at_steps [OF assms(9) inv1] e0(2) by simp_all
  have "event_core e = event_core e0" by (rule core_atD [OF at assms(10,11)])
  with e0(9) have job: "jd_aggregateId (job_data_of e) = fresh_uuid d" and payload: "o_payload e = cycle_payload_json ?p"
    by (simp_all add: event_core_def)
  have inv2: "outbox_inv (d2, q2)" by (rule outbox_steps_inv [OF assms(9) inv1])
  then have "List.find (\<lambda>x. o_id x = o_id e) (d_outbox d2) = Some e"
    using find_key_eq [of o_id "d_outbox d2" e] assms(10) by (simp add: outbox_inv_def)
  then have event: "publishedEvent (job_data_of e) d2 = Inr e"
    using assms(12) by (simp add: publishedEvent_def job_data_of_def)
  have schema: "renewalCyclePayloadSchema env (o_payload e) = Some ?p"
    using assms(6-8) loaded_policy_valid [OF assms(4)] by (simp add: payload cycle_payload_eq)
  have "List.find (\<lambda>x. r_id x = fresh_uuid d) (d_runs d) = None"
    using e0(6,7) unfolding find_None_iff_all by (metis image_eqI)
  then have find: "find_run (fresh_uuid d) d2 = Some r"
    using e0(7) by (simp add: find_run_def runs find_app)
  have "processCycle env cl (job_data_of e) d2 = attemptCycle env cl ?p d2"
    using processCycle_accepted [OF event schema, of r cl] job find e0(8) by simp
  then show ?thesis
    using inv2 assms(10,12) attemptCycle_retryable by (auto simp: outbox_inv_def)
qed


section \<open>Samples\<close>

lemma publish_fold_steps:
  assumes "\<forall>e \<in> set es. job_data_of e \<in> job_data_of ` set (d_outbox d)" and "outbox_inv (d, q)"
  shows "outbox_steps (d, q) (fold (publish dp accepts now) es (d, q))"
  using assms
proof (induction es arbitrary: d q)
  case (Cons e es)
  obtain d1 q1 where step: "publish dp accepts now e (d, q) = (d1, q1)" by fastforce
  obtain e' where e': "e' \<in> set (d_outbox d)" "job_data_of e = job_data_of e'" using Cons.prems(1) by auto
  have s: "outbox_step (d, q) (d1, q1)" by (rule published [OF e' step])
  have "distinct (map o_id (d_outbox d))" using Cons.prems(2) by (simp add: outbox_inv_def)
  then have "rows_updated q1 d d1" using publish_rows [OF _ e' step] by blast
  then have "list_all2 (\<lambda>e e'. job_data_of e = job_data_of e') (d_outbox d) (d_outbox d1)"
    by (auto simp: rows_updated_def event_core_def elim!: list_all2_mono)
  then have "map job_data_of (d_outbox d1) = map job_data_of (d_outbox d)"
    by (simp add: list_all2_conv_all_nth list_eq_iff_nth_eq)
  then have "job_data_of ` set (d_outbox d1) = job_data_of ` set (d_outbox d)" by (metis list.set_map)
  then have "outbox_steps (d1, q1) (fold (publish dp accepts now) es (d1, q1))"
    using Cons.prems(1) outbox_step_inv [OF s Cons.prems(2)] by (intro Cons.IH) simp_all
  with s step show ?case by (simp add: converse_rtranclp_into_rtranclp)
qed simp

lemma dispatchOnce_steps:
  assumes "outbox_inv (d, q)" and "dispatchOnce dp accepts cl (d, q) = (st', n)"
  shows "outbox_steps (d, q) st'"
proof -
  obtain d1 events where claim: "claimBatch dp cl d = (d1, events)" by fastforce
  have s: "outbox_step (d, q) (d1, q)" by (rule claimed [OF claim])
  have "distinct (map o_id (d_outbox d))" using assms(1) by (simp add: outbox_inv_def)
  then have "set events \<subseteq> set (d_outbox d1)" using claimBatch_rows(3) [OF _ claim] by simp
  then have "outbox_steps (d1, q) (fold (publish dp accepts (dc_publish cl)) events (d1, q))"
    using outbox_step_inv [OF s assms(1)] by (intro publish_fold_steps) auto
  with s claim assms(2) show ?thesis
    by (auto simp: dispatchOnce_def intro: converse_rtranclp_into_rtranclp)
qed

definition sample_dispatcher :: dispatcher where
  "sample_dispatcher = \<lparr>dp_workerId = ''outbox-1'', dp_batchSize = 10, dp_lockTimeoutSeconds = 60,
     dp_uuid = (\<lambda>s. True)\<rparr>"

definition sample_dispatch_clock :: "instant \<Rightarrow> dispatch_clock" where
  "sample_dispatch_clock t = \<lparr>dc_cutoff = t, dc_database = t, dc_publish = t\<rparr>"

definition outbox_db :: db where
  "outbox_db = empty_db\<lparr>d_outbox := [cycle_event Out_PENDING], d_supply := 7\<rparr>"

theorem dispatch_settles_rows_witness:
  "case dispatchOnce sample_dispatcher (\<lambda>j. True) (sample_dispatch_clock 5) (outbox_db, []) of
     ((d', q'), n) \<Rightarrow> n = 1 \<and>
       d' = outbox_db\<lparr>d_outbox := map (row_after sample_dispatcher (\<lambda>j. True) (sample_dispatch_clock 5)
              (candidates sample_dispatcher (sample_dispatch_clock 5) outbox_db)) (d_outbox outbox_db)\<rparr>"
proof -
  obtain d' q' n where run: "dispatchOnce sample_dispatcher (\<lambda>j. True) (sample_dispatch_clock 5) (outbox_db, []) =
      ((d', q'), n)" by (metis surj_pair)
  have "distinct (map o_id (d_outbox outbox_db))" by (simp add: outbox_db_def)
  moreover have "candidates sample_dispatcher (sample_dispatch_clock 5) outbox_db = [''e'']" by code_simp
  ultimately show ?thesis using dispatch_settles_rows [OF _ run] run by simp
qed


theorem published_events_are_queued_witness:
  "case create_outbox 0 ''AUTOMATION_RUN'' ''r'' ''RENEWAL_PAYMENT_COMPLETED'' ''k'' JNull empty_db of
     Inl _ \<Rightarrow> False
   | Inr (d, _) \<Rightarrow>
     (case dispatchOnce sample_dispatcher (\<lambda>j. True) (sample_dispatch_clock 5) (d, []) of
        ((d', q'), n) \<Rightarrow> \<exists>e \<in> set (d_outbox d'). o_status e = Out_PUBLISHED \<and>
          (\<exists>j \<in> set q'. qj_data j = job_data_of e \<and>
             map_option fst (routeOutboxEvent (o_eventType e)) = Some (qj_queue j)))"
proof -
  let ?create = "create_outbox 0 ''AUTOMATION_RUN'' ''r'' ''RENEWAL_PAYMENT_COMPLETED'' ''k'' JNull empty_db"
  have "case ?create of Inl _ \<Rightarrow> False
    | Inr (d, _) \<Rightarrow> (case dispatchOnce sample_dispatcher (\<lambda>j. True) (sample_dispatch_clock 5) (d, []) of
        ((d', q'), n) \<Rightarrow> list_ex (\<lambda>e. o_status e = Out_PUBLISHED) (d_outbox d'))" by code_simp
  then obtain d u d' q' n e where create: "?create = Inr (d, u)"
    and run: "dispatchOnce sample_dispatcher (\<lambda>j. True) (sample_dispatch_clock 5) (d, []) = ((d', q'), n)"
    and e: "e \<in> set (d_outbox d')" "o_status e = Out_PUBLISHED"
    by (auto simp: list_ex_iff split: sum.splits prod.splits)
  have step: "outbox_step (empty_db, []) (d, [])" by (rule written [OF create])
  moreover have "outbox_inv (d, [])"
    using outbox_step_inv [OF step] by (simp add: outbox_inv_def empty_db_def)
  ultimately have "outbox_steps (empty_db, []) (d', q')"
    using dispatchOnce_steps [OF _ run] by (simp add: converse_rtranclp_into_rtranclp)
  then show ?thesis using published_events_are_queued [OF _ e] e create run by (auto split: prod.splits)
qed


theorem scheduled_cycle_accepted_witness:
  "case scheduleCurrentCycle sample_env 5 True renewal_db of
     (d1, r) \<Rightarrow> r = Inr Sched_CREATED \<and>
       (case dispatchOnce sample_dispatcher (\<lambda>j. True) (sample_dispatch_clock 9) (d1, []) of
          ((d2, q2), n) \<Rightarrow> \<exists>e \<in> set (d_outbox d2). o_status e = Out_PUBLISHED \<and> queued_for q2 e \<and>
            (\<forall>code. snd (processCycle sample_env outage_clock (job_data_of e) d2) \<noteq> Inl (Permanent code)))"
proof -
  let ?key = "''renewal-cycle-request:'' @ ''2026-01-15''"
  have "case scheduleCurrentCycle sample_env 5 True renewal_db of (d1, r) \<Rightarrow> r = Inr Sched_CREATED \<and>
      (case dispatchOnce sample_dispatcher (\<lambda>j. True) (sample_dispatch_clock 9) (d1, []) of
        ((d2, q2), n) \<Rightarrow> list_ex (\<lambda>e. o_idempotencyKey e = ?key \<and> o_status e = Out_PUBLISHED) (d_outbox d2))"
    by code_simp
  then obtain d1 d2 q2 n e where sched: "scheduleCurrentCycle sample_env 5 True renewal_db = (d1, Inr Sched_CREATED)"
    and run: "dispatchOnce sample_dispatcher (\<lambda>j. True) (sample_dispatch_clock 9) (d1, []) = ((d2, q2), n)"
    and e: "e \<in> set (d_outbox d2)" "o_idempotencyKey e = ?key" "o_status e = Out_PUBLISHED"
    by (auto simp: list_ex_iff split: prod.splits)
  have policy: "loadRenewalPolicy sample_env renewal_db = DEFAULT_RENEWAL_AUTOMATION_POLICY"
    by (simp add: loadRenewalPolicy_def find_setting_def renewal_db_def empty_db_def)
  have date: "businessDate (env_parts sample_env) 5 (pol_timeZone (loadRenewalPolicy sample_env renewal_db)) =
      Inr ''2026-01-15''"
    by (simp add: businessDate_def sample_env_def)
  have inv: "outbox_inv (renewal_db, [])" by (simp add: outbox_inv_def renewal_db_def empty_db_def)
  have "d_outbox renewal_db = []" by (simp add: renewal_db_def empty_db_def)
  moreover have "case scheduleCurrentCycle sample_env 5 True renewal_db of (d1, r) \<Rightarrow>
      length (d_outbox d1) = 1 \<and> list_all (\<lambda>e. o_status e = Out_PENDING) (d_outbox d1)" by code_simp
  then have "length (d_outbox d1) = 1" "list_all (\<lambda>e. o_status e = Out_PENDING) (d_outbox d1)"
    by (simp_all add: sched)
  then have "outbox_inv (d1, [])"
    by (cases "d_outbox d1") (auto simp: outbox_inv_def)
  then have "outbox_steps (d1, []) (d2, q2)" by (rule dispatchOnce_steps [OF _ run])
  moreover have "pol_enabled (loadRenewalPolicy sample_env renewal_db)"
    by (simp add: policy DEFAULT_RENEWAL_AUTOMATION_POLICY_def)
  moreover have "timeZoneSchema sample_env ''Asia/Dhaka''" "\<And>s. env_uuid sample_env s"
    "\<And>s. env_isoDate sample_env s" "\<And>s. env_isoDatetime sample_env s"
    by (simp_all add: timeZoneSchema_def sample_env_def)
  ultimately have "queued_for q2 e \<and>
      (\<forall>code. snd (processCycle sample_env outage_clock (job_data_of e) d2) \<noteq> Inl (Permanent code))"
    using scheduled_cycle_accepted [OF inv sched _ _ date _ _ _ _ e] by blast
  with e show ?thesis by (auto simp: sched run)
qed


end
