(* ===== verification/Cancellations.thy ===== *)
theory Cancellations
  imports Outbox
begin

text \<open>
  The cancellation requests of hosting services
  (\<^verbatim>\<open>apps/api/src/modules/services/hosting-cancellation.service.ts\<close>): a customer asks for
  an immediate cancellation or one at the end of the period and may take it back, an
  administrator approves an immediate one, and the suspension is left to the hosting
  automation by an outbox event. Dates of the input are read by \<open>Date.parse\<close>, a parameter.
\<close>

section \<open>Input\<close>

record staff_actor = actor +
  actor_staffRole :: "string option"

record cancellation_input =
  ci_timing :: cancellation_timing
  ci_reason :: "string option"
  ci_expectedEffectiveAt :: "string option"

definition cancellationReason :: "json option \<Rightarrow> string option option" where
  \<comment> \<open>\<open>z.string().trim().max(1000).optional()\<close>\<close>
  "cancellationReason j =
     (case j of
        None \<Rightarrow> Some None
      | Some (JStr s) \<Rightarrow> if length (js_trim s) \<le> 1000 then Some (Some (js_trim s)) else None
      | _ \<Rightarrow> None)"

definition hostingCancellationInputSchema :: "renewal_env \<Rightarrow> json \<Rightarrow> cancellation_input option" where
  "hostingCancellationInputSchema env j =
     (if str_field ''timing'' j = Some ''IMMEDIATE'' \<and> only_keys [''timing'', ''reason''] j
      then map_option (\<lambda>reason. \<lparr>ci_timing = IMMEDIATE, ci_reason = reason, ci_expectedEffectiveAt = None\<rparr>)
             (cancellationReason (jfield ''reason'' j))
      else if str_field ''timing'' j = Some ''END_OF_PERIOD'' \<and>
              only_keys [''timing'', ''reason'', ''expectedEffectiveAt''] j
      then Option.bind (cancellationReason (jfield ''reason'' j)) (\<lambda>reason.
           Option.bind (str_field ''expectedEffectiveAt'' j) (\<lambda>at.
             if env_isoDatetime env at
             then Some \<lparr>ci_timing = END_OF_PERIOD, ci_reason = reason, ci_expectedEffectiveAt = Some at\<rparr>
             else None))
      else None)"

definition hosting_cancellation_json :: "uuid \<Rightarrow> uuid \<Rightarrow> json" where
  "hosting_cancellation_json serviceId cancellationId =
     JObj [(''schemaVersion'', JNum 1), (''serviceId'', JStr serviceId),
           (''cancellationId'', JStr cancellationId)]"

definition hostingCancellationJobSchema :: "renewal_env \<Rightarrow> json \<Rightarrow> (uuid \<times> uuid) option" where
  \<comment> \<open>the service and the cancellation\<close>
  "hostingCancellationJobSchema env j =
     (if \<not> only_keys [''schemaVersion'', ''serviceId'', ''cancellationId''] j
         \<or> jfield ''schemaVersion'' j \<noteq> Some (JNum 1)
      then None
      else
        Option.bind (str_field ''serviceId'' j) (\<lambda>s.
        Option.bind (str_field ''cancellationId'' j) (\<lambda>h.
          if env_uuid env s \<and> env_uuid env h then Some (s, h) else None)))"

section \<open>Rows\<close>

definition find_cancellation :: "uuid \<Rightarrow> uuid \<Rightarrow> db \<Rightarrow> cancellation option" where
  "find_cancellation serviceId k d =
     List.find (\<lambda>h. h_id h = k \<and> h_serviceId h = serviceId) (d_cancellations d)"

definition create_cancellation :: "cancellation \<Rightarrow> uuid tx" where
  "create_cancellation row d =
     (let k = fresh_uuid d; h = row\<lparr>h_id := k\<rparr>
      in if \<not> cancellation_check h then Inl Check_Violation
         else if list_ex (\<lambda>g. h_id g = k \<or>
                 (h_serviceId g = h_serviceId h \<and> cancellation_effective g \<and> cancellation_effective h))
                 (d_cancellations d)
         then Inl Unique_Violation
         else Inr (d\<lparr>d_cancellations := d_cancellations d @ [h], d_supply := Suc (d_supply d)\<rparr>, k))"

definition update_cancellation :: "uuid \<Rightarrow> (cancellation \<Rightarrow> cancellation) \<Rightarrow> unit tx" where
  \<comment> \<open>\<open>hostingCancellationRequest.update\<close>; no caller makes a withdrawn request effective again\<close>
  "update_cancellation k f d =
     (case List.find (\<lambda>h. h_id h = k) (d_cancellations d) of
        None \<Rightarrow> Inl Record_Missing
      | Some h \<Rightarrow>
        if \<not> cancellation_check (f h) then Inl Check_Violation
        else Inr (d\<lparr>d_cancellations := update_many (\<lambda>g. h_id g = k) f (d_cancellations d)\<rparr>, ()))"

section \<open>Handlers\<close>

record cancellation_view =
  cv_id :: uuid
  cv_serviceId :: uuid
  cv_timing :: cancellation_timing
  cv_status :: cancellation_status
  cv_reason :: "string option"
  cv_effectiveAt :: "string option"
  cv_approvedAt :: "string option"
  cv_createdAt :: string
  cv_resolvedAt :: "string option"

definition serialize :: "cancellation \<Rightarrow> cancellation_view" where
  "serialize h =
     \<lparr>cv_id = h_id h, cv_serviceId = h_serviceId h, cv_timing = h_timing h, cv_status = h_status h,
      cv_reason = h_reason h, cv_effectiveAt = map_option toISOString (h_effectiveAt h),
      cv_approvedAt = map_option toISOString (h_approvedAt h), cv_createdAt = toISOString (h_createdAt h),
      cv_resolvedAt = map_option toISOString (h_resolvedAt h)\<rparr>"

definition ownedService :: "uuid \<Rightarrow> staff_actor \<Rightarrow> db \<Rightarrow> api_error + service" where
  "ownedService serviceId ac d =
     (case find_service serviceId d of
        None \<Rightarrow> Inl (Forbidden ''You do not have access to this service.'')
      | Some s \<Rightarrow>
        if actor_role ac \<noteq> CUSTOMER \<or> Some (s_customerId s) \<noteq> actor_customerId ac
        then Inl (Forbidden ''You do not have access to this service.'') else Inr s)"

definition findRequest :: "uuid \<Rightarrow> uuid \<Rightarrow> db \<Rightarrow> api_error + cancellation" where
  "findRequest serviceId k d =
     of_option (Unprocessable ''Cancellation request was not found.'') (find_cancellation serviceId k d)"

definition queueSuspension :: "cancellation \<Rightarrow> instant \<Rightarrow> unit tx" where
  "queueSuspension h availableAt d =
     create_outbox availableAt ''SERVICE'' (h_serviceId h) ''HOSTING_CANCELLATION_SUSPENSION_REQUESTED''
       (''hosting-cancellation:'' @ h_id h) (hosting_cancellation_json (h_serviceId h) (h_id h)) d"

fun timing_name :: "cancellation_timing \<Rightarrow> string" where
  "timing_name IMMEDIATE = ''IMMEDIATE''"
| "timing_name END_OF_PERIOD = ''END_OF_PERIOD''"

definition audit :: "cancellation \<Rightarrow> string \<Rightarrow> staff_actor \<Rightarrow> db \<Rightarrow> db" where
  "audit h action ac d =
     log_activity
       \<lparr>a_actorUserId = Some (actor_userId ac), a_action = ''HOSTING_CANCELLATION_'' @ action,
        a_entityType = ''SERVICE'', a_entityId = Some (h_serviceId h), a_correlationId = None,
        a_metadata = [(''cancellationId'', JStr (h_id h)), (''timing'', JStr (timing_name (h_timing h)))]\<rparr> d"

definition latest_cancellation :: "uuid \<Rightarrow> db \<Rightarrow> cancellation option" where
  \<comment> \<open>\<open>orderBy: [{ createdAt: 'desc' }, { id: 'desc' }]\<close>\<close>
  "latest_cancellation serviceId d =
     (case rev (sort_key (\<lambda>h. (h_createdAt h, h_id h))
              (filter (\<lambda>h. h_serviceId h = serviceId) (d_cancellations d))) of
        [] \<Rightarrow> None | h # _ \<Rightarrow> Some h)"

definition detail :: "uuid \<Rightarrow> staff_actor \<Rightarrow> db \<Rightarrow> api_error + cancellation_view option" where
  "detail serviceId ac d =
     rbind (ownedService serviceId ac d) (\<lambda>_. Inr (map_option serialize (latest_cancellation serviceId d)))"

definition cancellation_list ::
    "nat \<Rightarrow> nat \<Rightarrow> db \<Rightarrow> (cancellation_view \<times> (string \<times> string option) option) list \<times> nat" where
  \<comment> \<open>\<open>list\<close>: a page of the open requests with the service's name and domain, and their number\<close>
  "cancellation_list page pageSize d =
     (let rows = filter (\<lambda>h. h_status h = Can_OPEN) (d_cancellations d)
      in (map (\<lambda>h. (serialize h, map_option (\<lambda>s. (s_productName s, s_domain s)) (find_service (h_serviceId h) d)))
            (take pageSize (drop ((page - 1) * pageSize) (sort_key (\<lambda>h. (h_createdAt h, h_id h)) rows))),
          length rows))"

definition requested_row :: "uuid \<Rightarrow> cancellation_input \<Rightarrow> instant option \<Rightarrow> instant \<Rightarrow> cancellation" where
  "requested_row serviceId input effectiveAt now =
     \<lparr>h_id = [], h_serviceId = serviceId, h_timing = ci_timing input, h_status = Can_OPEN,
      h_reason = (case ci_reason input of Some r \<Rightarrow> if r = [] then None else Some r | None \<Rightarrow> None),
      h_effectiveAt = effectiveAt, h_approvedAt = None, h_createdAt = now, h_resolvedAt = None\<rparr>"

definition open_request_tx ::
    "service \<Rightarrow> cancellation_input \<Rightarrow> instant option \<Rightarrow> staff_actor \<Rightarrow> instant \<Rightarrow> cancellation_view tx" where
  \<comment> \<open>the writes of \<open>request\<close>\<close>
  "open_request_tx s input effectiveAt ac now d =
     rbind (create_cancellation (requested_row (s_id s) input effectiveAt now) d) (\<lambda>(d1, k).
     let h = (requested_row (s_id s) input effectiveAt now)\<lparr>h_id := k\<rparr>
     in rbind (create_outbox now ''SERVICE'' (s_id s) ''EMAIL_HOSTING_CANCELLATION_REQUESTED''
                 (''email:hosting-cancellation:'' @ k)
                 (JObj [(''schemaVersion'', JNum 1), (''cancellationId'', JStr k)]) d1) (\<lambda>(d2, _).
        rbind (case effectiveAt of None \<Rightarrow> Inr (d2, ()) | Some t \<Rightarrow> queueSuspension h t d2) (\<lambda>(d3, _).
        Inr (audit h ''REQUESTED'' ac d3, serialize h))))"

definition request_tx ::
    "(string \<Rightarrow> instant option) \<Rightarrow> uuid \<Rightarrow> cancellation_input \<Rightarrow> staff_actor \<Rightarrow> instant \<Rightarrow> cancellation_view tx" where
  "request_tx date_parse serviceId input ac now d =
     rbind (ownedService serviceId ac d) (\<lambda>s.
     case List.find (\<lambda>h. h_serviceId h = serviceId \<and> cancellation_effective h) (d_cancellations d) of
       Some h \<Rightarrow>
         if h_status h = Can_OPEN \<and> h_timing h = ci_timing input \<and>
            h_reason h = h_reason (requested_row serviceId input None now)
         then Inr (d, serialize h)
         else Inl (Unprocessable ''This service already has a cancellation request.'')
     | None \<Rightarrow>
       if s_status s \<noteq> Svc_ACTIVE \<and> s_status s \<noteq> Svc_SUSPENDED
       then Inl (Unprocessable ''This service cannot be cancelled in its current state.'')
       else if ci_timing input = END_OF_PERIOD \<and>
               Option.bind (ci_expectedEffectiveAt input) date_parse \<noteq> Some (s_nextDueAt s)
       then Inl (Unprocessable ''The billing date changed. Reload the service and review the new date.'')
       else if ci_timing input = END_OF_PERIOD \<and> s_nextDueAt s \<le> now
       then Inl (Unprocessable ''This billing period has ended. Select immediate review.'')
       else open_request_tx s input (if ci_timing input = END_OF_PERIOD then Some (s_nextDueAt s) else None) ac now d)"

definition request_cancellation ::
    "(string \<Rightarrow> instant option) \<Rightarrow> uuid \<Rightarrow> cancellation_input \<Rightarrow> staff_actor \<Rightarrow> instant \<Rightarrow>
     cancellation_view handler" where
  "request_cancellation date_parse serviceId input ac now =
     run_tx (request_tx date_parse serviceId input ac now)"

definition withdrawn_row :: "instant \<Rightarrow> cancellation \<Rightarrow> cancellation" where
  "withdrawn_row now h = h\<lparr>h_status := Can_WITHDRAWN, h_resolvedAt := Some now\<rparr>"

definition withdraw_tx :: "uuid \<Rightarrow> uuid \<Rightarrow> staff_actor \<Rightarrow> instant \<Rightarrow> cancellation_view tx" where
  "withdraw_tx serviceId k ac now d =
     rbind (ownedService serviceId ac d) (\<lambda>_.
     rbind (findRequest serviceId k d) (\<lambda>h.
     if h_status h = Can_WITHDRAWN then Inr (d, serialize h)
     else if h_status h \<noteq> Can_OPEN \<or> h_approvedAt h \<noteq> None \<or>
             (case h_effectiveAt h of None \<Rightarrow> False | Some t \<Rightarrow> t \<le> now)
     then Inl (Unprocessable ''This cancellation can no longer be withdrawn.'')
     else
       rbind (update_cancellation k (withdrawn_row now) d) (\<lambda>(d1, _).
       Inr (audit h ''WITHDRAWN'' ac d1, serialize (withdrawn_row now h)))))"

definition withdraw :: "uuid \<Rightarrow> uuid \<Rightarrow> staff_actor \<Rightarrow> instant \<Rightarrow> cancellation_view handler" where
  "withdraw serviceId k ac now = run_tx (withdraw_tx serviceId k ac now)"

definition approved_row :: "instant \<Rightarrow> cancellation \<Rightarrow> cancellation" where
  "approved_row now h = h\<lparr>h_approvedAt := Some now\<rparr>"

definition approve_tx :: "uuid \<Rightarrow> uuid \<Rightarrow> staff_actor \<Rightarrow> instant \<Rightarrow> cancellation_view tx" where
  "approve_tx serviceId k ac now d =
     rbind (findRequest serviceId k d) (\<lambda>h.
     if h_approvedAt h \<noteq> None then Inr (d, serialize h)
     else if h_status h \<noteq> Can_OPEN \<or> h_timing h \<noteq> IMMEDIATE
     then Inl (Unprocessable ''Only a pending immediate request can be approved.'')
     else
       rbind (update_cancellation k (approved_row now) d) (\<lambda>(d1, _).
       rbind (queueSuspension (approved_row now h) now d1) (\<lambda>(d2, _).
       Inr (audit h ''APPROVED'' ac d2, serialize (approved_row now h)))))"

definition approve :: "uuid \<Rightarrow> uuid \<Rightarrow> staff_actor \<Rightarrow> instant \<Rightarrow> cancellation_view handler" where
  "approve serviceId k ac now d =
     (if actor_role ac \<noteq> ADMIN \<or> actor_staffRole ac \<noteq> Some ''FULL_ADMINISTRATOR''
      then (d, Inl (Forbidden ''You do not have access to this service.''))
      else run_tx (approve_tx serviceId k ac now) d)"

end
