(* ===== verification/Hosting.thy ===== *)
theory Hosting
  imports Cancellations
begin

text \<open>
  The hosting automation of the worker (\<^verbatim>\<open>apps/worker/src/renewal/hosting-automation.service.ts\<close>):
  a job suspends or reactivates the account of one service on its hosting panel, as a row of
  \<open>hosting_panel_operations\<close> records. The panel is an HTTP server outside of the
  repository: the requests made to it are a list, and what it answers, to which request and
  after which others, is a parameter, as are the cipher of the stored credential, the digest of a
  payload, and which host names make a valid URL.
\<close>

section \<open>The panel\<close>

datatype failure_class = Panel_Error panel_error_kind string | Unexpected
  \<comment> \<open>a \<open>PanelAutomationError\<close>, and any other error\<close>

record whm_request =
  wr_hostname :: string
  wr_port :: int
  wr_operation :: string
  wr_parameters :: "(string \<times> string) list"
  wr_username :: string
  wr_token :: string

datatype whm_body = Body_Lost | Body int "json option"
  \<comment> \<open>reading the text fails; its length in bytes and what \<open>JSON.parse\<close> makes of it\<close>

datatype whm_answer = No_Answer | Answer nat whm_body
  \<comment> \<open>\<open>fetch\<close> rejects; the status and the body\<close>

type_synonym exchange = "whm_request \<times> whm_answer"

record hosting_env =
  he_env :: renewal_env
  he_panel :: "exchange list \<Rightarrow> whm_request \<Rightarrow> whm_answer"
  he_url :: "string \<Rightarrow> int \<Rightarrow> bool"
  he_decipher :: "uuid \<Rightarrow> string \<Rightarrow> string \<Rightarrow> string \<Rightarrow> string option"
    \<comment> \<open>the server of the AAD, the encoded IV, tag and ciphertext\<close>
  he_digest :: "json \<Rightarrow> string"
    \<comment> \<open>SHA-256 of \<open>JSON.stringify\<close>\<close>

datatype panel_state = Panel_ACTIVE | Panel_SUSPENDED
datatype automation_action = SUSPEND | UNSUSPEND

record panel_account =
  pa_externalAccountId :: string
  pa_username :: string
  pa_domain :: string
  pa_state :: panel_state

definition is_letter :: "char \<Rightarrow> bool" where
  "is_letter c \<longleftrightarrow> is_lower c \<or> is_upper c"

definition api_username_valid :: "string \<Rightarrow> bool" where
  \<comment> \<open>\<open>/^[A-Za-z][A-Za-z0-9_-]{0,127}$/\<close>\<close>
  "api_username_valid s \<longleftrightarrow>
     (case s of [] \<Rightarrow> False
      | c # cs \<Rightarrow> is_letter c \<and> length cs \<le> 127 \<and>
          list_all (\<lambda>x. is_letter x \<or> is_digit x \<or> x = CHR ''_'' \<or> x = CHR ''-'') cs)"

definition hasControlCharacters :: "string \<Rightarrow> bool" where
  "hasControlCharacters s \<longleftrightarrow> list_ex (\<lambda>c. of_char c \<le> (31 :: nat) \<or> of_char c = (127 :: nat)) s"

fun split_on :: "char \<Rightarrow> string \<Rightarrow> string list" where
  \<comment> \<open>\<open>String.prototype.split\<close>\<close>
  "split_on c [] = [[]]"
| "split_on c (x # xs) =
     (if x = c then [] # split_on c xs
      else (case split_on c xs of [] \<Rightarrow> [[x]] | w # ws \<Rightarrow> (x # w) # ws))"

definition decryptToken :: "hosting_env \<Rightarrow> server \<Rightarrow> failure_class + string" where
  "decryptToken env sv =
     (let unavailable = Panel_Error Panel_PERMANENT ''PANEL_CREDENTIAL_UNAVAILABLE''
      in if sv_credentialKeyVersion sv \<noteq> Some ''cpanel-token-v1'' then Inl unavailable
         else
           (case map_option (split_on CHR ''.'') (sv_credentialsCiphertext sv) of
              Some (version # iv # tag # ciphertext # _) \<Rightarrow>
                if version \<noteq> ''v1'' \<or> iv = [] \<or> tag = [] \<or> ciphertext = [] then Inl unavailable
                else of_option unavailable (he_decipher env (sv_id sv) iv tag ciphertext)
            | _ \<Rightarrow> Inl unavailable))"

fun one_or_text :: "json \<Rightarrow> bool" where
  \<comment> \<open>\<open>value === 1 || value === '1'\<close>\<close>
  "one_or_text (JNum n) \<longleftrightarrow> n = 1"
| "one_or_text (JStr s) \<longleftrightarrow> s = ''1''"
| "one_or_text _ \<longleftrightarrow> False"

definition whmSucceeded :: "json \<Rightarrow> bool" where
  "whmSucceeded v \<longleftrightarrow>
     (case Option.bind (jfield ''metadata'' v) (jfield ''result'') of Some r \<Rightarrow> one_or_text r | None \<Rightarrow> False)"

definition read_answer :: "bool \<Rightarrow> whm_answer \<Rightarrow> failure_class + json" where
  \<comment> \<open>what \<open>whmCall\<close> makes of the answer\<close>
  "read_answer mutation answer =
     (case answer of
        No_Answer \<Rightarrow>
          Inl (if mutation then Panel_Error Panel_INCONSISTENT ''CPANEL_RESULT_UNKNOWN''
               else Panel_Error Panel_TEMPORARY ''CPANEL_TEMPORARILY_UNAVAILABLE'')
      | Answer status body \<Rightarrow>
          if status = 401 \<or> status = 403
          then Inl (Panel_Error Panel_PERMANENT ''CPANEL_AUTHENTICATION_FAILED'')
          else if status < 200 \<or> 299 < status
          then Inl (if mutation then Panel_Error Panel_INCONSISTENT ''CPANEL_RESULT_UNKNOWN''
                    else if 500 \<le> status then Panel_Error Panel_TEMPORARY ''CPANEL_REQUEST_REJECTED''
                    else Panel_Error Panel_PERMANENT ''CPANEL_REQUEST_REJECTED'')
          else
            (case body of
               Body_Lost \<Rightarrow> Inl Unexpected
             | Body bytes parsed \<Rightarrow>
               (let invalid = Panel_Error (if mutation then Panel_INCONSISTENT else Panel_TEMPORARY)
                                ''CPANEL_RESPONSE_INVALID''
                in if 1048576 < bytes then Inl invalid
                   else (case parsed of
                           None \<Rightarrow> Inl invalid
                         | Some v \<Rightarrow>
                           if whmSucceeded v then Inr v
                           else Inl (Panel_Error (if mutation then Panel_PERMANENT else Panel_TEMPORARY)
                                       ''CPANEL_OPERATION_REJECTED'')))))"

definition whmCall ::
    "hosting_env \<Rightarrow> server \<Rightarrow> string \<Rightarrow> string \<Rightarrow> (string \<times> string) list \<Rightarrow> bool \<Rightarrow> exchange list \<Rightarrow>
     exchange list \<times> (failure_class + json)" where
  "whmCall env sv token operation parameters mutation sent =
     (case sv_apiUsername sv of
        None \<Rightarrow> (sent, Inl (Panel_Error Panel_PERMANENT ''CPANEL_CONFIGURATION_INVALID''))
      | Some username \<Rightarrow>
        if \<not> sv_useTls sv \<or> \<not> (sv_port sv = 443 \<or> sv_port sv = 2087) \<or> \<not> api_username_valid username
           \<or> hasControlCharacters token
        then (sent, Inl (Panel_Error Panel_PERMANENT ''CPANEL_CONFIGURATION_INVALID''))
        else if \<not> he_url env (sv_hostname sv) (sv_port sv) then (sent, Inl Unexpected)
        else
          let req = \<lparr>wr_hostname = sv_hostname sv, wr_port = sv_port sv, wr_operation = operation,
                     wr_parameters = parameters, wr_username = username, wr_token = token\<rparr>;
              answer = he_panel env sent req
          in (sent @ [(req, answer)], read_answer mutation answer))"

fun scalar :: "json \<Rightarrow> string option" where
  "scalar (JStr s) = Some s"
| "scalar (JNum n) = Some (bigint_to_string n)"
| "scalar _ = None"

definition accountFromSummary :: "json \<Rightarrow> (string \<times> string \<times> panel_state) option" where
  \<comment> \<open>the user name, the domain and the state of the first account\<close>
  "accountFromSummary v =
     (case Option.bind (jfield ''data'' v) (jfield ''acct'') of
        Some (JArr (first # _)) \<Rightarrow>
          (case (Option.bind (jfield ''user'' first) scalar, Option.bind (jfield ''domain'' first) scalar) of
             (Some username, Some host) \<Rightarrow>
               if username = [] \<or> host = [] then None
               else Some (username, js_lower host,
                 if (case jfield ''suspended'' first of Some (JBool b) \<Rightarrow> b | Some r \<Rightarrow> one_or_text r | None \<Rightarrow> False)
                 then Panel_SUSPENDED else Panel_ACTIVE)
           | _ \<Rightarrow> None)
      | _ \<Rightarrow> None)"

definition mutation_name :: "automation_action \<Rightarrow> string" where
  "mutation_name action = (case action of SUSPEND \<Rightarrow> ''suspendacct'' | UNSUSPEND \<Rightarrow> ''unsuspendacct'')"

definition suspension_reason :: "bool \<Rightarrow> string" where
  "suspension_reason cancellation =
     (if cancellation then ''Customer requested hosting cancellation.''
      else ''Renewal invoice overdue after grace period.'')"

definition mutation_parameters :: "automation_action \<Rightarrow> string \<Rightarrow> bool \<Rightarrow> (string \<times> string) list" where
  "mutation_parameters action username cancellation =
     (case action of
        SUSPEND \<Rightarrow> [(''user'', username), (''reason'', suspension_reason cancellation), (''disallowun'', ''0'')]
      | UNSUSPEND \<Rightarrow> [(''user'', username)])"

definition verify_account ::
    "hosting_env \<Rightarrow> server \<Rightarrow> string \<Rightarrow> string \<Rightarrow> string \<Rightarrow> string \<Rightarrow> exchange list \<Rightarrow>
     exchange list \<times> (failure_class + panel_account)" where
  \<comment> \<open>the \<open>try\<close> block after the mutation\<close>
  "verify_account env sv token externalId username host sent =
     (let (sent', r) = whmCall env sv token ''accountsummary'' [(''user'', username)] False sent;
          unverified = Inl (Panel_Error Panel_INCONSISTENT ''CPANEL_MUTATION_NOT_VERIFIED'')
      in (sent',
          case r of
            Inl _ \<Rightarrow> unverified
          | Inr v \<Rightarrow>
            (case accountFromSummary v of
               Some (user, acctHost, state) \<Rightarrow>
                 if user = username \<and> acctHost = js_lower host
                 then Inr \<lparr>pa_externalAccountId = externalId, pa_username = user, pa_domain = acctHost,
                           pa_state = state\<rparr>
                 else unverified
             | None \<Rightarrow> unverified)))"

definition wanted_state :: "automation_action \<Rightarrow> panel_state" where
  "wanted_state action = (case action of SUSPEND \<Rightarrow> Panel_SUSPENDED | UNSUSPEND \<Rightarrow> Panel_ACTIVE)"

definition service_identity :: "service option \<Rightarrow> (service \<times> string \<times> string \<times> string) option" where
  \<comment> \<open>the account's user name, external identifier and domain, none of them empty\<close>
  "service_identity so =
     (case so of
        None \<Rightarrow> None
      | Some s \<Rightarrow>
        (case (s_controlPanelUsername s, s_externalAccountId s, s_domain s) of
           (Some username, Some externalId, Some host) \<Rightarrow>
             if username = [] \<or> externalId = [] \<or> host = [] then None
             else Some (s, username, externalId, host)
         | _ \<Rightarrow> None))"

definition find_server :: "uuid \<Rightarrow> db \<Rightarrow> server option" where
  "find_server k d = List.find (\<lambda>sv. sv_id sv = k) (d_servers d)"

definition mutatePanel ::
    "hosting_env \<Rightarrow> automation_action \<Rightarrow> uuid \<Rightarrow> bool \<Rightarrow> db \<Rightarrow> exchange list \<Rightarrow>
     exchange list \<times> (failure_class + panel_account)" where
  "mutatePanel env action serviceId cancellation d sent =
     (case service_identity (find_service serviceId d) of
        None \<Rightarrow> (sent, Inl (Panel_Error Panel_PERMANENT ''HOSTING_ACCOUNT_IDENTITY_UNAVAILABLE''))
      | Some (s, username, externalId, host) \<Rightarrow>
        (case find_server (s_serverId s) d of
           None \<Rightarrow> (sent, Inl Unexpected)
         | Some sv \<Rightarrow>
           if sv_adapterKey sv = ''fake-panel''
           then (sent, Inr \<lparr>pa_externalAccountId = externalId, pa_username = username,
                            pa_domain = js_lower host, pa_state = wanted_state action\<rparr>)
           else if sv_adapterKey sv \<noteq> ''cpanel-whm''
           then (sent, Inl (Panel_Error Panel_PERMANENT ''HOSTING_PANEL_ADAPTER_UNSUPPORTED''))
           else
             (case decryptToken env sv of
                Inl e \<Rightarrow> (sent, Inl e)
              | Inr token \<Rightarrow>
                (case whmCall env sv token (mutation_name action)
                        (mutation_parameters action username cancellation) True sent of
                   (sent1, Inl e) \<Rightarrow> (sent1, Inl e)
                 | (sent1, Inr _) \<Rightarrow> verify_account env sv token externalId username host sent1))))"

section \<open>Jobs\<close>

datatype automation_payload = Renewal_Job uuid uuid uuid | Cancellation_Job uuid uuid
  \<comment> \<open>the service, the invoice and the automation run; the service and the cancellation\<close>

fun payload_service :: "automation_payload \<Rightarrow> uuid" where
  "payload_service (Renewal_Job s i r) = s"
| "payload_service (Cancellation_Job s h) = s"

fun payload_source :: "automation_payload \<Rightarrow> uuid" where
  "payload_source (Renewal_Job s i r) = i"
| "payload_source (Cancellation_Job s h) = h"

fun payload_cancellation :: "automation_payload \<Rightarrow> uuid option" where
  "payload_cancellation (Renewal_Job s i r) = None"
| "payload_cancellation (Cancellation_Job s h) = Some h"

fun payload_invoice :: "automation_payload \<Rightarrow> uuid option" where
  "payload_invoice (Renewal_Job s i r) = Some i"
| "payload_invoice (Cancellation_Job s h) = None"

fun payload_run :: "automation_payload \<Rightarrow> uuid option" where
  "payload_run (Renewal_Job s i r) = Some r"
| "payload_run (Cancellation_Job s h) = None"

fun payload_json :: "automation_payload \<Rightarrow> json" where
  "payload_json (Renewal_Job s i r) = hosting_payload_json s i r"
| "payload_json (Cancellation_Job s h) = hosting_cancellation_json s h"

fun sourceMetadata :: "automation_payload \<Rightarrow> (string \<times> json) list" where
  "sourceMetadata (Renewal_Job s i r) = [(''invoiceId'', JStr i)]"
| "sourceMetadata (Cancellation_Job s h) = [(''cancellationId'', JStr h)]"

definition automation_action_of :: "string \<Rightarrow> job_error + automation_action" where
  "automation_action_of eventType =
     (if eventType = ''HOSTING_SUSPENSION_REQUESTED'' \<or> eventType = ''HOSTING_CANCELLATION_SUSPENSION_REQUESTED''
      then Inr SUSPEND
      else if eventType = ''HOSTING_UNSUSPENSION_REQUESTED'' then Inr UNSUSPEND
      else Inl (Permanent ''HOSTING_AUTOMATION_EVENT_UNSUPPORTED''))"

definition parse_payload :: "renewal_env \<Rightarrow> string \<Rightarrow> json \<Rightarrow> automation_payload option" where
  "parse_payload env eventType j =
     (if eventType = ''HOSTING_CANCELLATION_SUSPENSION_REQUESTED''
      then map_option (\<lambda>(s, h). Cancellation_Job s h) (hostingCancellationJobSchema env j)
      else map_option (\<lambda>(s, i, r). Renewal_Job s i r) (hostingAutomationPayloadSchema env j))"

definition job_payload :: "renewal_env \<Rightarrow> job_data \<Rightarrow> db \<Rightarrow> job_error + automation_payload" where
  "job_payload env data d =
     (let invalid = Inl (Permanent ''HOSTING_AUTOMATION_OUTBOX_REFERENCE_INVALID'')
      in case List.find (\<lambda>e. o_id e = jd_outboxEventId data) (d_outbox d) of
           None \<Rightarrow> invalid
         | Some e \<Rightarrow>
           if o_status e \<noteq> Out_PUBLISHED \<or> o_eventType e \<noteq> jd_eventType data \<or>
              o_aggregateType e \<noteq> ''SERVICE'' \<or> o_aggregateId e \<noteq> jd_aggregateId data
           then invalid
           else
             (case parse_payload env (jd_eventType data) (o_payload e) of
                None \<Rightarrow> invalid
              | Some p \<Rightarrow> if payload_service p \<noteq> jd_aggregateId data then invalid else Inr p))"

fun jobError :: "panel_error_kind \<Rightarrow> string \<Rightarrow> job_error" where
  "jobError Panel_TEMPORARY code = Temporary code"
| "jobError Panel_PERMANENT code = Permanent code"
| "jobError Panel_INCONSISTENT code = Inconsistent code"

section \<open>Operations\<close>

definition create_operation :: "hosting_operation \<Rightarrow> hosting_operation tx" where
  "create_operation row d =
     (let k = fresh_uuid d; p = row\<lparr>op_id := k\<rparr>
      in if \<not> operation_check p then Inl Check_Violation
         else if list_ex (\<lambda>q. op_id q = k \<or> op_idempotencyKey q = op_idempotencyKey p \<or>
                 (op_retryOfOperationId p \<noteq> None \<and> op_retryOfOperationId q = op_retryOfOperationId p))
                 (d_operations d)
         then Inl Unique_Violation
         else Inr (d\<lparr>d_operations := d_operations d @ [p], d_supply := Suc (d_supply d)\<rparr>, p))"

definition update_operations ::
    "(hosting_operation \<Rightarrow> bool) \<Rightarrow> (hosting_operation \<Rightarrow> hosting_operation) \<Rightarrow> nat tx" where
  \<comment> \<open>\<open>hostingPanelOperation.updateMany\<close>\<close>
  "update_operations P f d =
     (if list_ex (\<lambda>p. P p \<and> \<not> operation_check (f p)) (d_operations d) then Inl Check_Violation
      else Inr (d\<lparr>d_operations := update_many P f (d_operations d)\<rparr>, count_where P (d_operations d)))"

definition update_services :: "(service \<Rightarrow> bool) \<Rightarrow> (service \<Rightarrow> service) \<Rightarrow> nat tx" where
  \<comment> \<open>\<open>service.updateMany\<close>\<close>
  "update_services P f d =
     (if list_ex (\<lambda>s. P s \<and> \<not> service_check (f s)) (d_services d) then Inl Check_Violation
      else Inr (d\<lparr>d_services := update_many P f (d_services d)\<rparr>, count_where P (d_services d)))"

definition update_cancellations :: "(cancellation \<Rightarrow> bool) \<Rightarrow> (cancellation \<Rightarrow> cancellation) \<Rightarrow> nat tx" where
  \<comment> \<open>\<open>hostingCancellationRequest.updateMany\<close>; no caller makes a withdrawn request effective again\<close>
  "update_cancellations P f d =
     (if list_ex (\<lambda>h. P h \<and> \<not> cancellation_check (f h)) (d_cancellations d) then Inl Check_Violation
      else Inr (d\<lparr>d_cancellations := update_many P f (d_cancellations d)\<rparr>, count_where P (d_cancellations d)))"

definition MAX_AUTOMATION_ATTEMPTS :: nat where
  "MAX_AUTOMATION_ATTEMPTS = 3"

definition operation_key :: "automation_action \<Rightarrow> automation_payload \<Rightarrow> string" where
  "operation_key action p =
     ''automation:'' @ (case action of SUSPEND \<Rightarrow> ''suspend'' | UNSUSPEND \<Rightarrow> ''unsuspend'') @ '':'' @
     payload_service p @ '':'' @ payload_source p"

definition latest_operation :: "string \<Rightarrow> db \<Rightarrow> hosting_operation option" where
  \<comment> \<open>\<open>findFirst({ where: { idempotencyKey: { startsWith } }, orderBy: { attemptNumber: 'desc' } })\<close>\<close>
  "latest_operation key d =
     (case rev (sort_key op_attemptNumber
              (filter (\<lambda>p. prefix key (op_idempotencyKey p)) (d_operations d))) of
        [] \<Rightarrow> None | p # _ \<Rightarrow> Some p)"

definition other_running :: "uuid \<Rightarrow> hosting_operation option \<Rightarrow> db \<Rightarrow> bool" where
  "other_running serviceId existing d \<longleftrightarrow>
     list_ex (\<lambda>p. op_serviceId p = Some serviceId \<and> op_status p = Op_RUNNING \<and>
                  (case existing of None \<Rightarrow> True | Some q \<Rightarrow> op_id p \<noteq> op_id q)) (d_operations d)"

definition retry_operation ::
    "string \<Rightarrow> automation_payload \<Rightarrow> hosting_operation \<Rightarrow> hosting_operation" where
  "retry_operation key payload p =
     \<lparr>op_id = [], op_serviceId = op_serviceId p, op_serverId = op_serverId p,
      op_requestedByUserId = op_requestedByUserId p, op_automationRunId = payload_run payload,
      op_retryOfOperationId = Some (op_id p), op_type = op_type p, op_status = Op_RUNNING,
      op_adapterKey = op_adapterKey p,
      op_idempotencyKey = key @ '':retry:'' @ show_nat (op_attemptNumber p + 1),
      op_requestFingerprint = op_requestFingerprint p, op_attemptNumber = op_attemptNumber p + 1,
      op_retryable = False, op_errorKind = None, op_errorCode = None, op_errorMessage = None,
      op_requestMetadata = Some (JObj (sourceMetadata payload)), op_resultMetadata = None,
      op_completedAt = None\<rparr>"

definition first_operation ::
    "hosting_env \<Rightarrow> automation_action \<Rightarrow> automation_payload \<Rightarrow> service \<Rightarrow> server \<Rightarrow> uuid \<Rightarrow> hosting_operation" where
  "first_operation env action payload s sv userId =
     \<lparr>op_id = [], op_serviceId = Some (s_id s), op_serverId = s_serverId s,
      op_requestedByUserId = (if payload_cancellation payload = None then None else Some userId),
      op_automationRunId = payload_run payload, op_retryOfOperationId = None,
      op_type = (case action of SUSPEND \<Rightarrow> SUSPEND_ACCOUNT | UNSUSPEND \<Rightarrow> UNSUSPEND_ACCOUNT),
      op_status = Op_RUNNING, op_adapterKey = sv_adapterKey sv,
      op_idempotencyKey = operation_key action payload,
      op_requestFingerprint = he_digest env (payload_json payload), op_attemptNumber = 1,
      op_retryable = False, op_errorKind = None, op_errorCode = None, op_errorMessage = None,
      op_requestMetadata = Some (JObj (sourceMetadata payload)), op_resultMetadata = None,
      op_completedAt = None\<rparr>"

section \<open>Preparing an operation\<close>

type_synonym preparation = "(hosting_operation \<times> bool) option"
  \<comment> \<open>the operation and whether it was created now; or nothing to do\<close>

definition in_job :: "('a \<Rightarrow> 'b) \<Rightarrow> api_error + 'a \<Rightarrow> job_error + 'b" where
  \<comment> \<open>an error of the database leaves the transaction as it is\<close>
  "in_job f r = (case r of Inl e \<Rightarrow> Inl (Database_Error e) | Inr x \<Rightarrow> Inr (f x))"

definition deferCancellation :: "automation_payload \<Rightarrow> uuid \<Rightarrow> instant \<Rightarrow> db \<Rightarrow> db" where
  "deferCancellation payload outboxEventId availableAt d =
     fst (create_outbox_skip availableAt ''SERVICE'' (payload_service payload)
            ''HOSTING_CANCELLATION_SUSPENSION_REQUESTED''
            (''hosting-cancellation-deferred:'' @ outboxEventId) (payload_json payload) d)"

definition completed_row :: "instant \<Rightarrow> cancellation \<Rightarrow> cancellation" where
  "completed_row now h = h\<lparr>h_status := Can_COMPLETED, h_resolvedAt := Some now\<rparr>"

definition finishCancellation :: "uuid \<Rightarrow> uuid \<Rightarrow> instant \<Rightarrow> unit tx" where
  "finishCancellation serviceId k now d =
     rbind (update_cancellations (\<lambda>h. h_id h = k \<and> h_serviceId h = serviceId \<and> h_status h = Can_OPEN)
              (completed_row now) d) (\<lambda>(d1, count).
     if count \<noteq> 1 then Inl (Server_Error ''CANCELLATION_STATE_CHANGED'')
     else Inr (log_activity
            \<lparr>a_actorUserId = None, a_action = ''HOSTING_CANCELLATION_COMPLETED'', a_entityType = ''SERVICE'',
             a_entityId = Some serviceId, a_correlationId = None,
             a_metadata = [(''cancellationId'', JStr k)]\<rparr> d1, ()))"

definition rescheduled :: "automation_payload \<Rightarrow> cancellation \<Rightarrow> service \<Rightarrow> uuid \<Rightarrow> unit tx" where
  \<comment> \<open>the period was renewed: the cancellation waits for the new due date\<close>
  "rescheduled payload h s outboxEventId d =
     rbind (update_cancellation (h_id h) (\<lambda>g. g\<lparr>h_effectiveAt := Some (s_nextDueAt s)\<rparr>) d) (\<lambda>(d1, _).
     Inr (log_activity
       \<lparr>a_actorUserId = None, a_action = ''HOSTING_CANCELLATION_RESCHEDULED'', a_entityType = ''SERVICE'',
        a_entityId = Some (s_id s), a_correlationId = None,
        a_metadata = [(''cancellationId'', JStr (h_id h)),
                      (''effectiveAt'', JStr (toISOString (s_nextDueAt s)))]\<rparr>
       (deferCancellation payload outboxEventId (s_nextDueAt s) d1), ()))"

definition suspension_released :: "instant \<Rightarrow> uuid \<Rightarrow> db \<Rightarrow> db" where
  \<comment> \<open>\<open>service.update\<close> of the suspension invoice of a row that was just read\<close>
  "suspension_released now k d =
     d\<lparr>d_services := update_many (\<lambda>s. s_id s = k) (\<lambda>s. s\<lparr>s_suspensionInvoiceId := None, s_updatedAt := now\<rparr>)
       (d_services d)\<rparr>"

datatype cancellation_progress = Settled db | Proceed

definition prepare_cancellation ::
    "automation_payload \<Rightarrow> uuid \<Rightarrow> uuid \<Rightarrow> instant \<Rightarrow> bool \<Rightarrow> service \<Rightarrow> db \<Rightarrow> job_error + cancellation_progress" where
  \<comment> \<open>the part of \<open>prepare\<close> for a cancellation: nothing is left to do, or the account is to be suspended\<close>
  "prepare_cancellation payload k outboxEventId now running s d =
     (case List.find (\<lambda>h. h_id h = k \<and> h_serviceId h = s_id s \<and> h_status h = Can_OPEN) (d_cancellations d) of
        None \<Rightarrow> Inr (Settled d)
      | Some h \<Rightarrow>
        (case (case h_effectiveAt h of Some t \<Rightarrow> Some t | None \<Rightarrow> h_approvedAt h) of
           None \<Rightarrow> Inr (Settled d)
         | Some due \<Rightarrow>
           if now < due then Inr (Settled d)
           else if running then
             if 5 * 60000 \<le> now - due then Inl (Temporary ''HOSTING_OPERATION_IN_PROGRESS'')
             else Inr (Settled (deferCancellation payload outboxEventId (now + 60000) d))
           else if h_effectiveAt h \<noteq> None \<and> due < s_nextDueAt s then
             in_job (\<lambda>(d1, _). Settled d1) (rescheduled payload h s outboxEventId d)
           else if s_status s = Svc_SUSPENDED \<or> s_status s = Svc_TERMINATED then
             in_job (\<lambda>(d1, _). Settled d1)
               (finishCancellation (s_id s) k now
                 (if s_suspensionInvoiceId s \<noteq> None then suspension_released now (s_id s) d else d))
           else if s_status s \<noteq> Svc_ACTIVE then Inl (Permanent ''HOSTING_CANCELLATION_SERVICE_STATE_INVALID'')
           else Inr Proceed))"

definition open_operation ::
    "hosting_env \<Rightarrow> automation_action \<Rightarrow> automation_payload \<Rightarrow> hosting_operation option \<Rightarrow> service \<Rightarrow>
     server \<Rightarrow> uuid \<Rightarrow> db \<Rightarrow> job_error + db \<times> preparation" where
  \<comment> \<open>the end of \<open>prepare\<close>: a retry, the operation that exists, or the first one\<close>
  "open_operation env action payload existing s sv userId d =
     (case existing of
        Some p \<Rightarrow>
          if op_status p = Op_FAILED \<and> op_errorKind p = Some Panel_TEMPORARY \<and> op_retryable p \<and>
             op_attemptNumber p < MAX_AUTOMATION_ATTEMPTS
          then in_job (\<lambda>(d1, q). (d1, Some (q, True)))
                 (create_operation (retry_operation (operation_key action payload) payload p) d)
          else Inr (d, Some (p, False))
      | None \<Rightarrow>
          in_job (\<lambda>(d1, q). (d1, Some (q, True)))
            (create_operation (first_operation env action payload s sv userId) d))"

definition service_joins :: "service \<Rightarrow> db \<Rightarrow> (server \<times> uuid) option" where
  \<comment> \<open>the server and the customer's user, by the foreign keys\<close>
  "service_joins s d =
     Option.bind (find_server (s_serverId s) d) (\<lambda>sv.
       map_option (\<lambda>c. (sv, c_userId c)) (List.find (\<lambda>c. c_id c = s_customerId s) (d_customers d)))"

definition prepare ::
    "hosting_env \<Rightarrow> automation_action \<Rightarrow> automation_payload \<Rightarrow> uuid \<Rightarrow> instant \<Rightarrow> db \<Rightarrow>
     job_error + db \<times> preparation" where
  "prepare env action payload outboxEventId now d =
     (let existing = latest_operation (operation_key action payload) d;
          running = other_running (payload_service payload) existing d
      in if payload_cancellation payload = None \<and> map_option op_status existing = Some Op_SUCCEEDED
         then Inr (d, map_option (\<lambda>p. (p, False)) existing)
         else if running \<and> payload_cancellation payload = None
         then Inl (Temporary ''HOSTING_OPERATION_IN_PROGRESS'')
         else
           (case find_service (payload_service payload) d of
              None \<Rightarrow> Inl (Permanent ''HOSTING_AUTOMATION_SERVICE_UNAVAILABLE'')
            | Some s \<Rightarrow>
              (case service_joins s d of
                 None \<Rightarrow> Inl (Database_Error (Server_Error ''Foreign key''))
               | Some (sv, userId) \<Rightarrow>
                 rbind (case payload_cancellation payload of
                          None \<Rightarrow> Inr Proceed
                        | Some k \<Rightarrow> prepare_cancellation payload k outboxEventId now running s d) (\<lambda>progress.
                 case progress of
                   Settled d1 \<Rightarrow> Inr (d1, None)
                 | Proceed \<Rightarrow> open_operation env action payload existing s sv userId d))))"

section \<open>Carrying it out\<close>

definition invoice_for_service :: "invoice \<Rightarrow> uuid \<Rightarrow> bool" where
  "invoice_for_service i k \<longleftrightarrow> list_ex (\<lambda>it. it_serviceId it = Some k) (i_items i)"

definition reactivation_barred :: "uuid \<Rightarrow> instant \<Rightarrow> db \<Rightarrow> bool" where
  \<comment> \<open>a cancellation of the service is completed, approved or due\<close>
  "reactivation_barred k now d \<longleftrightarrow>
     list_ex (\<lambda>h. h_serviceId h = k \<and>
       (h_status h = Can_COMPLETED \<or> (h_status h = Can_OPEN \<and> h_approvedAt h \<noteq> None) \<or>
        (h_status h = Can_OPEN \<and> (case h_effectiveAt h of None \<Rightarrow> False | Some t \<Rightarrow> t \<le> now))))
       (d_cancellations d)"

definition eligible :: "automation_action \<Rightarrow> automation_payload \<Rightarrow> instant \<Rightarrow> db \<Rightarrow> bool" where
  "eligible action payload now d =
     (let service = find_service (payload_service payload) d
      in case payload_invoice payload of
           None \<Rightarrow> map_option s_status service = Some Svc_ACTIVE
         | Some invoiceId \<Rightarrow>
           (case (service, find_invoice invoiceId d) of
              (Some s, Some i) \<Rightarrow>
                if \<not> invoice_for_service i (payload_service payload) then False
                else if action = UNSUSPEND \<and> reactivation_barred (s_id s) now d then False
                else
                  (case action of
                     SUSPEND \<Rightarrow> s_status s = Svc_ACTIVE \<and> i_status i = Inv_OVERDUE \<and> 0 < i_balanceDue i
                   | UNSUSPEND \<Rightarrow> s_status s = Svc_SUSPENDED \<and> s_suspensionInvoiceId s = Some (i_id i) \<and>
                       i_status i = Inv_PAID \<and> i_balanceDue i = 0)
            | _ \<Rightarrow> False))"

fun panel_state_name :: "panel_state \<Rightarrow> string" where
  "panel_state_name Panel_ACTIVE = ''ACTIVE''"
| "panel_state_name Panel_SUSPENDED = ''SUSPENDED''"

definition account_json :: "panel_account \<Rightarrow> json" where
  "account_json acct =
     JObj [(''username'', JStr (pa_username acct)), (''domain'', JStr (pa_domain acct)),
           (''state'', JStr (panel_state_name (pa_state acct))),
           (''externalAccountId'', JStr (pa_externalAccountId acct))]"

definition succeeded_row :: "instant \<Rightarrow> json \<Rightarrow> hosting_operation \<Rightarrow> hosting_operation" where
  "succeeded_row now result p =
     p\<lparr>op_status := Op_SUCCEEDED, op_completedAt := Some now, op_resultMetadata := Some result\<rparr>"

definition service_matches :: "automation_action \<Rightarrow> automation_payload \<Rightarrow> service \<Rightarrow> bool" where
  "service_matches action payload s \<longleftrightarrow>
     s_id s = payload_service payload \<and>
     (case action of
        SUSPEND \<Rightarrow> s_status s = Svc_ACTIVE
      | UNSUSPEND \<Rightarrow> s_status s = Svc_SUSPENDED \<and> s_suspensionInvoiceId s = payload_invoice payload)"

definition service_after :: "automation_action \<Rightarrow> automation_payload \<Rightarrow> instant \<Rightarrow> service \<Rightarrow> service" where
  "service_after action payload now s =
     (case action of
        SUSPEND \<Rightarrow>
          s\<lparr>s_status := Svc_SUSPENDED, s_suspendedAt := Some now,
            s_suspensionReason := Some (suspension_reason (payload_cancellation payload \<noteq> None)),
            s_suspensionInvoiceId := payload_invoice payload, s_updatedAt := now\<rparr>
      | UNSUSPEND \<Rightarrow> s\<lparr>s_status := Svc_ACTIVE, s_suspensionInvoiceId := None, s_updatedAt := now\<rparr>)"

definition update_operation :: "uuid \<Rightarrow> (hosting_operation \<Rightarrow> hosting_operation) \<Rightarrow> unit tx" where
  \<comment> \<open>\<open>hostingPanelOperation.update\<close>\<close>
  "update_operation k f d =
     rbind (update_operations (\<lambda>p. op_id p = k) f d) (\<lambda>(d', count).
       if count = 0 then Inl Record_Missing else Inr (d', ()))"

definition complete_log :: "uuid \<Rightarrow> automation_action \<Rightarrow> automation_payload \<Rightarrow> db \<Rightarrow> db" where
  "complete_log operationId action payload d =
     (if payload_cancellation payload \<noteq> None then d
      else log_activity
        \<lparr>a_actorUserId = None,
         a_action = (case action of SUSPEND \<Rightarrow> ''SERVICE_SUSPENDED_BY_RENEWAL_AUTOMATION''
                     | UNSUSPEND \<Rightarrow> ''SERVICE_UNSUSPENDED_AFTER_VERIFIED_PAYMENT''),
         a_entityType = ''SERVICE'', a_entityId = Some (payload_service payload),
         a_correlationId = payload_run payload,
         a_metadata = [(''invoiceId'', jstr_opt (payload_invoice payload)), (''operationId'', JStr operationId)]\<rparr> d)"

definition complete ::
    "uuid \<Rightarrow> automation_action \<Rightarrow> automation_payload \<Rightarrow> panel_account \<Rightarrow> instant \<Rightarrow> unit tx" where
  "complete operationId action payload acct now d =
     rbind (update_services (service_matches action payload) (service_after action payload now) d) (\<lambda>(d1, count).
     if count \<noteq> 1 then Inl (Server_Error ''SERVICE_STATE_CHANGED'')
     else
       rbind (case payload_cancellation payload of
                None \<Rightarrow> Inr (d1, ())
              | Some k \<Rightarrow> finishCancellation (payload_service payload) k now d1) (\<lambda>(d2, _).
       rbind (update_operation operationId (succeeded_row now (JObj [(''account'', account_json acct)])) d2) (\<lambda>(d3, _).
       rbind (create_outbox now ''SERVICE'' (payload_service payload)
                (case action of SUSPEND \<Rightarrow> ''EMAIL_SERVICE_SUSPENDED'' | UNSUSPEND \<Rightarrow> ''EMAIL_SERVICE_REACTIVATED'')
                (''email:service:'' @ operationId)
                (JObj [(''schemaVersion'', JNum 1), (''serviceId'', JStr (payload_service payload))]) d3) (\<lambda>(d4, _).
       Inr (complete_log operationId action payload d4, ())))))"

fun action_name :: "automation_action \<Rightarrow> string" where
  "action_name SUSPEND = ''SUSPEND''"
| "action_name UNSUSPEND = ''UNSUSPEND''"

definition completeSkipped :: "uuid \<Rightarrow> automation_action \<Rightarrow> automation_payload \<Rightarrow> instant \<Rightarrow> nat tx" where
  "completeSkipped operationId action payload now =
     update_operations (\<lambda>p. op_id p = operationId \<and> op_status p = Op_RUNNING)
       (succeeded_row now (JObj ([(''skipped'', JStr ''NO_LONGER_ELIGIBLE''), (''action'', JStr (action_name action))]
          @ sourceMetadata payload)))"

definition failed_operation ::
    "nat \<Rightarrow> panel_error_kind \<Rightarrow> string \<Rightarrow> instant \<Rightarrow> hosting_operation \<Rightarrow> hosting_operation" where
  "failed_operation attemptNumber kind code now p =
     p\<lparr>op_status := (if kind = Panel_INCONSISTENT then Op_INCONSISTENT else Op_FAILED),
       op_retryable := (kind = Panel_TEMPORARY \<and> attemptNumber < MAX_AUTOMATION_ATTEMPTS),
       op_errorKind := Some kind, op_errorCode := Some code,
       op_errorMessage := Some ''The automated hosting-panel operation did not complete.'',
       op_completedAt := Some now\<rparr>"

definition fail :: "uuid \<Rightarrow> nat \<Rightarrow> panel_error_kind \<Rightarrow> string \<Rightarrow> instant \<Rightarrow> nat tx" where
  "fail operationId attemptNumber kind code now =
     update_operations (\<lambda>p. op_id p = operationId \<and> op_status p = Op_RUNNING)
       (failed_operation attemptNumber kind code now)"

section \<open>The whole job\<close>

record hosting_run =
  \<comment> \<open>the readings of the clock, and which of the two reads of the service fail\<close>
  hr_prepare :: instant
  hr_eligible :: instant
  hr_completed :: instant
  hr_failed :: instant
  hr_eligibleFails :: bool
  hr_serviceFails :: bool

definition normalized :: "failure_class \<Rightarrow> panel_error_kind \<times> string" where
  \<comment> \<open>an error before the mutation was verified\<close>
  "normalized e =
     (case e of
        Panel_Error kind code \<Rightarrow> (kind, code)
      | Unexpected \<Rightarrow> (Panel_TEMPORARY, ''HOSTING_AUTOMATION_TEMPORARILY_UNAVAILABLE''))"

type_synonym hosting_log = "(uuid \<times> exchange) list"

definition fail_job ::
    "hosting_operation \<Rightarrow> panel_error_kind \<times> string \<Rightarrow> instant \<Rightarrow> db \<Rightarrow> db \<times> (job_error + unit)" where
  \<comment> \<open>record the failure and throw it; an error of the record itself escapes\<close>
  "fail_job p = (\<lambda>(kind, code) now d.
     (case run_tx (fail (op_id p) (op_attemptNumber p) kind code now) d of
        (d', Inl e) \<Rightarrow> (d', Inl (Database_Error e))
      | (d', Inr _) \<Rightarrow> (d', Inl (jobError kind code))))"

definition previous_outcome :: "hosting_operation \<Rightarrow> job_error" where
  \<comment> \<open>what a job answers when its operation has failed before\<close>
  "previous_outcome p =
     (if op_errorKind p = Some Panel_TEMPORARY \<and> \<not> op_retryable p
      then jobError Panel_PERMANENT ''HOSTING_AUTOMATION_RETRY_LIMIT''
      else jobError (case op_errorKind p of Some kind \<Rightarrow> kind | None \<Rightarrow> Panel_PERMANENT)
             (case op_errorCode p of Some code \<Rightarrow> code | None \<Rightarrow> ''HOSTING_AUTOMATION_PREVIOUSLY_FAILED''))"

definition call_panel ::
    "hosting_env \<Rightarrow> hosting_run \<Rightarrow> automation_action \<Rightarrow> automation_payload \<Rightarrow> db \<Rightarrow> exchange list \<Rightarrow>
     exchange list \<times> (failure_class + panel_account)" where
  \<comment> \<open>the call of \<open>mutatePanel\<close> and the check of the state it reports\<close>
  "call_panel env run action payload d sent =
     (if hr_serviceFails run then (sent, Inl Unexpected)
      else
        let (sent', r) = mutatePanel env action (payload_service payload)
                           (payload_cancellation payload \<noteq> None) d sent
        in (sent', rbind r (\<lambda>acct.
             if pa_state acct \<noteq> wanted_state action
             then Inl (Panel_Error Panel_INCONSISTENT ''CPANEL_ACCOUNT_STATE_NOT_VERIFIED'')
             else Inr acct)))"

definition carry_out ::
    "hosting_env \<Rightarrow> hosting_run \<Rightarrow> automation_action \<Rightarrow> automation_payload \<Rightarrow> hosting_operation \<Rightarrow>
     db \<Rightarrow> exchange list \<Rightarrow> db \<times> exchange list \<times> (job_error + unit)" where
  \<comment> \<open>the \<open>try\<close> block and its \<open>catch\<close>\<close>
  "carry_out env run action payload p d sent =
     (let failing = (\<lambda>e s. let (d', r) = fail_job p e (hr_failed run) d in (d', s, r))
      in if hr_eligibleFails run then failing (normalized Unexpected) sent
         else if \<not> eligible action payload (hr_eligible run) d then
           (case run_tx (completeSkipped (op_id p) action payload (hr_completed run)) d of
              (d', Inl _) \<Rightarrow> failing (normalized Unexpected) sent
            | (d', Inr _) \<Rightarrow> (d', sent, Inr ()))
         else
           (case call_panel env run action payload d sent of
              (sent', Inl e) \<Rightarrow> failing (normalized e) sent'
            | (sent', Inr acct) \<Rightarrow>
              (case run_tx (complete (op_id p) action payload acct (hr_completed run)) d of
                 (d', Inl _) \<Rightarrow> failing (Panel_INCONSISTENT, ''HOSTING_AUTOMATION_RESULT_UNKNOWN'') sent'
               | (d', Inr _) \<Rightarrow> (d', sent', Inr ()))))"

definition resume ::
    "hosting_env \<Rightarrow> hosting_run \<Rightarrow> automation_action \<Rightarrow> automation_payload \<Rightarrow> hosting_operation \<Rightarrow> bool \<Rightarrow>
     db \<Rightarrow> exchange list \<Rightarrow> db \<times> exchange list \<times> (job_error + unit)" where
  \<comment> \<open>what follows \<open>prepare\<close>\<close>
  "resume env run action payload p fresh d sent =
     (if op_status p = Op_SUCCEEDED then (d, sent, Inr ())
      else if \<not> fresh \<and> op_status p = Op_RUNNING then
        (let (d', r) = fail_job p (Panel_INCONSISTENT, ''HOSTING_AUTOMATION_RESULT_UNKNOWN'') (hr_failed run) d
         in (d', sent, r))
      else if op_status p \<noteq> Op_RUNNING then (d, sent, Inl (previous_outcome p))
      else carry_out env run action payload p d sent)"

definition process_hosting ::
    "hosting_env \<Rightarrow> hosting_run \<Rightarrow> job_data \<Rightarrow> db \<times> hosting_log \<Rightarrow> (db \<times> hosting_log) \<times> (job_error + unit)" where
  \<comment> \<open>\<open>process\<close>; the requests are noted with the operation that made them\<close>
  "process_hosting env run data = (\<lambda>(d, log).
     case rbind (automation_action_of (jd_eventType data)) (\<lambda>action.
          rbind (job_payload (he_env env) data d) (\<lambda>payload. Inr (action, payload))) of
       Inl e \<Rightarrow> ((d, log), Inl e)
     | Inr (action, payload) \<Rightarrow>
       (case prepare env action payload (jd_outboxEventId data) (hr_prepare run) d of
          Inl e \<Rightarrow> ((d, log), Inl e)
        | Inr (d1, None) \<Rightarrow> ((d1, log), Inr ())
        | Inr (d1, Some (p, fresh)) \<Rightarrow>
          (let (d2, sent, r) = resume env run action payload p fresh d1 (map snd log)
           in ((d2, log @ map (Pair (op_id p)) (drop (length log) sent)), r))))"

section \<open>Samples\<close>

definition hosted_id :: uuid where "hosted_id = replicate 36 CHR ''s''"
definition bill_id :: uuid where "bill_id = replicate 36 CHR ''b''"
definition run_id :: uuid where "run_id = replicate 36 CHR ''r''"

definition hosted_service :: "service_status \<Rightarrow> service" where
  "hosted_service st = (sample_service st None)\<lparr>s_id := hosted_id, s_domain := Some ''a.b''\<rparr>"

definition whm_server :: server where
  "whm_server = \<lparr>sv_id = ''host'', sv_hostname = ''h'', sv_adapterKey = ''cpanel-whm'', sv_apiUsername = Some ''root'',
     sv_credentialsCiphertext = Some ''v1.i.t.c'', sv_credentialKeyVersion = Some ''cpanel-token-v1'', sv_port = 443,
     sv_useTls = True, sv_name = ''n'', sv_status = Srv_ACTIVE, sv_maxAccounts = None, sv_deletedAt = None\<rparr>"

definition overdue_bill :: invoice where
  "overdue_bill = (sample_invoice Inv_OVERDUE 50000)
     \<lparr>i_id := bill_id, i_items := [renewal_line (hosted_service Svc_ACTIVE) 0 (31 * 86400000)]\<rparr>"

definition suspension_job :: job_data where
  "suspension_job = \<lparr>jd_outboxEventId = ''e'', jd_aggregateType = ''SERVICE'', jd_aggregateId = hosted_id,
     jd_eventType = ''HOSTING_SUSPENSION_REQUESTED''\<rparr>"

definition hosting_db :: db where
  \<comment> \<open>an active service with an overdue renewal, and the published request to suspend it\<close>
  "hosting_db = empty_db\<lparr>d_users := [sample_user], d_customers := [sample_customer],
     d_services := [hosted_service Svc_ACTIVE], d_servers := [whm_server], d_invoices := [overdue_bill],
     d_outbox := [\<lparr>o_id = ''e'', o_aggregateType = ''SERVICE'', o_aggregateId = hosted_id,
       o_eventType = ''HOSTING_SUSPENSION_REQUESTED'', o_idempotencyKey = ''k'',
       o_payload = hosting_payload_json hosted_id bill_id run_id, o_status = Out_PUBLISHED, o_attemptCount = 1,
       o_availableAt = 0, o_lockedAt = None, o_lockedBy = None, o_publishedAt = Some 0, o_lastError = None\<rparr>],
     d_supply := 7\<rparr>"

definition hosting_sample_env :: "(exchange list \<Rightarrow> whm_request \<Rightarrow> whm_answer) \<Rightarrow> hosting_env" where
  "hosting_sample_env panel =
     \<lparr>he_env = sample_env\<lparr>env_uuid := (\<lambda>s. length s = 36)\<rparr>, he_panel = panel, he_url = (\<lambda>_ _. True),
      he_decipher = (\<lambda>_ _ _ _. Some ''t''), he_digest = (\<lambda>_. replicate 64 CHR ''0'')\<rparr>"

definition silent_panel :: "exchange list \<Rightarrow> whm_request \<Rightarrow> whm_answer" where
  \<comment> \<open>every answer breaks off after its headers\<close>
  "silent_panel sent req = Answer 200 Body_Lost"

definition obedient_panel :: "exchange list \<Rightarrow> whm_request \<Rightarrow> whm_answer" where
  "obedient_panel sent req =
     Answer 200 (Body 100 (Some (JObj [(''metadata'', JObj [(''result'', JNum 1)]),
       (''data'', JObj [(''acct'', JArr [JObj [(''user'', JStr ''user''), (''domain'', JStr ''a.b''),
          (''suspended'', JNum (case sent of [] \<Rightarrow> 0 | _ \<Rightarrow> 1))]])])])))"

definition hosting_clock :: hosting_run where
  "hosting_clock = \<lparr>hr_prepare = 1, hr_eligible = 2, hr_completed = 3, hr_failed = 4, hr_eligibleFails = False,
     hr_serviceFails = False\<rparr>"

end
