(* ===== verification/Hosting_Steps.thy ===== *)
theory Hosting_Steps
  imports Hosting
begin

text \<open>
  Hosting jobs at once: the requests a job makes to the panel, the steps that any number of jobs,
  deliveries and crashes may take in turn, the invariant of the operation rows that makes sure the
  panel is not asked twice, and that the handler is a run of those steps.
\<close>

section \<open>What is sent to the panel\<close>

definition is_mutation :: "exchange \<Rightarrow> bool" where
  "is_mutation x \<longleftrightarrow> wr_operation (fst x) = ''suspendacct'' \<or> wr_operation (fst x) = ''unsuspendacct''"

definition answer_lost :: "exchange \<Rightarrow> bool" where
  \<comment> \<open>the panel answered with success, but its answer could not be read\<close>
  "answer_lost x \<longleftrightarrow> (\<exists>status. snd x = Answer status Body_Lost \<and> 200 \<le> status \<and> status \<le> 299)"

lemma read_answer_temporary:
  "read_answer True ans = Inl e \<Longrightarrow> fst (normalized e) = Panel_TEMPORARY \<Longrightarrow> answer_lost (req, ans)"
  by (auto simp: read_answer_def normalized_def answer_lost_def Let_def
      split: whm_answer.splits whm_body.splits if_splits option.splits failure_class.splits)

lemma whmCall_cases:
  assumes "whmCall env sv token operation ps m sent = (sent', r)"
  obtains (refused) e where "sent' = sent" and "r = Inl e"
  | (sent) req where "sent' = sent @ [(req, he_panel env sent req)]" and "wr_operation req = operation"
      and "r = read_answer m (he_panel env sent req)"
  using assms by (auto simp: whmCall_def Let_def split: option.splits if_splits)

definition exchange_ok :: "exchange list \<Rightarrow> failure_class + panel_account \<Rightarrow> bool" where
  \<comment> \<open>at most one mutation, and a temporary failure after one means its answer was lost\<close>
  "exchange_ok new r \<longleftrightarrow>
     length (filter is_mutation new) \<le> 1 \<and>
     (\<forall>x e. x \<in> set new \<and> is_mutation x \<and> r = Inl e \<and> fst (normalized e) = Panel_TEMPORARY \<longrightarrow> answer_lost x)"

lemma exchange_ok_refused [simp]: "exchange_ok [] r"
  by (simp add: exchange_ok_def)

lemma verify_account_sent:
  assumes "verify_account env sv token externalId username host sent = (sent', r)"
  shows "\<exists>new. sent' = sent @ new \<and> filter is_mutation new = [] \<and>
           (\<forall>e. r = Inl e \<longrightarrow> fst (normalized e) \<noteq> Panel_TEMPORARY)"
proof -
  obtain s1 r1 where call: "whmCall env sv token ''accountsummary'' [(''user'', username)] False sent = (s1, r1)"
    by fastforce
  have sent': "sent' = s1" and r: "\<And>e. r = Inl e \<Longrightarrow> fst (normalized e) \<noteq> Panel_TEMPORARY"
    using assms call by (auto simp: verify_account_def normalized_def Let_def split: sum.splits option.splits if_splits)
  from call show ?thesis
  proof (cases rule: whmCall_cases)
    case (refused e)
    then show ?thesis using sent' r by auto
  next
    case (sent req)
    then show ?thesis using sent' r by (intro exI [of _ "[(req, he_panel env sent req)]"]) (auto simp: is_mutation_def)
  qed
qed

lemma mutatePanel_sent:
  assumes "mutatePanel env action k c d sent = (sent', r)"
  shows "\<exists>new. sent' = sent @ new \<and> exchange_ok new r"
proof -
  consider (none) "sent' = sent"
    | (called) sv token ps s1 r1 externalId username host where
        "whmCall env sv token (mutation_name action) ps True sent = (s1, r1)"
        and "case r1 of Inl e \<Rightarrow> sent' = s1 \<and> r = Inl e
             | Inr v \<Rightarrow> verify_account env sv token externalId username host s1 = (sent', r)"
    using assms
    by (fastforce simp: mutatePanel_def split: option.splits if_splits sum.splits prod.splits)
  then show ?thesis
  proof cases
    case none
    then show ?thesis by auto
  next
    case called
    from called(1) show ?thesis
    proof (cases rule: whmCall_cases)
      case (refused e)
      then show ?thesis using called(2) by auto
    next
      case (sent req)
      let ?x = "(req, he_panel env sent req)"
      have mut: "is_mutation ?x" using sent(2) by (simp add: is_mutation_def mutation_name_def split: automation_action.splits)
      show ?thesis
      proof (cases r1)
        case (Inl e)
        then have "exchange_ok [?x] r"
          using called(2) sent(3) read_answer_temporary [of "he_panel env sent req"]
          by (auto simp: exchange_ok_def)
        then show ?thesis using called(2) Inl sent(1) by auto
      next
        case (Inr v)
        then obtain new where new: "sent' = s1 @ new" "filter is_mutation new = []"
          "\<And>e. r = Inl e \<Longrightarrow> fst (normalized e) \<noteq> Panel_TEMPORARY"
          using called(2) verify_account_sent by fastforce
        then have "exchange_ok (?x # new) r" by (auto simp: exchange_ok_def)
        then show ?thesis using new(1) sent(1) by auto
      qed
    qed
  qed
qed

lemma call_panel_sent:
  assumes "call_panel env run action p d sent = (sent', r)"
  shows "\<exists>new. sent' = sent @ new \<and> exchange_ok new r"
proof (cases "hr_serviceFails run")
  case True
  then show ?thesis using assms by (auto simp: call_panel_def)
next
  case False
  obtain s1 r1 where m: "mutatePanel env action (payload_service p) (payload_cancellation p \<noteq> None) d sent = (s1, r1)"
    by fastforce
  then obtain new where new: "s1 = sent @ new" "exchange_ok new r1" using mutatePanel_sent by blast
  have "sent' = s1" and "\<And>e. r = Inl e \<Longrightarrow> fst (normalized e) = Panel_TEMPORARY \<Longrightarrow> r1 = Inl e"
    using assms m False by (auto simp: call_panel_def normalized_def result_simps split: sum.splits if_splits)
  with new show ?thesis by (auto simp: exchange_ok_def)
qed


section \<open>Interleaved jobs\<close>

text \<open>
  Any number of jobs at once: an operation is opened, the panel is
  called by a job whose reading of the database may be out of date, and the outcome is recorded
  later or, when the process dies, never. A second delivery that finds the operation running
  marks it as uncertain. What else happens to the database leaves the automation's rows alone.
\<close>

datatype phase = Waiting | Called "failure_class + panel_account"

type_synonym hosting_state = "db \<times> (uuid \<times> phase) list \<times> hosting_log"

fun failure_of :: "phase \<Rightarrow> panel_error_kind \<times> string \<Rightarrow> bool" where
  "failure_of Waiting e \<longleftrightarrow> True"
| "failure_of (Called (Inl x)) e \<longleftrightarrow> e = normalized x"
| "failure_of (Called (Inr acct)) e \<longleftrightarrow> fst e = Panel_INCONSISTENT"

definition payload_valid :: "hosting_env \<Rightarrow> automation_payload \<Rightarrow> bool" where
  "payload_valid env p \<longleftrightarrow> env_uuid (he_env env) (payload_service p) \<and> env_uuid (he_env env) (payload_source p)"

definition automation_rows :: "db \<Rightarrow> hosting_operation list" where
  "automation_rows d = filter (\<lambda>p. prefix ''automation:'' (op_idempotencyKey p)) (d_operations d)"

inductive hosting_step :: "hosting_env \<Rightarrow> hosting_state \<Rightarrow> hosting_state \<Rightarrow> bool" for env where
  opened:
    "payload_valid env p \<Longrightarrow> prepare env action p ev now d = Inr (d', Some (q, True)) \<Longrightarrow>
     hosting_step env (d, A, log) (d', (op_id q, Waiting) # A, log)"
| settled:
    "prepare env action p ev now d = Inr (d', None) \<Longrightarrow> hosting_step env (d, A, log) (d', A, log)"
| called:
    "(k, Waiting) \<in> set A \<Longrightarrow> call_panel env run action p d0 (map snd log) = (sent', r) \<Longrightarrow>
     hosting_step env (d, A, log)
       (d, (k, Called r) # remove1 (k, Waiting) A, log @ map (Pair k) (drop (length log) sent'))"
| failed:
    "(k, ph) \<in> set A \<Longrightarrow> failure_of ph e \<Longrightarrow> fail k n (fst e) (snd e) now d = Inr (d', m) \<Longrightarrow>
     hosting_step env (d, A, log) (d', remove1 (k, ph) A, log)"
| uncertain:
    "fail k n Panel_INCONSISTENT code now d = Inr (d', m) \<Longrightarrow> hosting_step env (d, A, log) (d', A, log)"
| completed:
    "(k, Called (Inr acct)) \<in> set A \<Longrightarrow> complete k action p acct now d = Inr (d', u) \<Longrightarrow>
     hosting_step env (d, A, log) (d', remove1 (k, Called (Inr acct)) A, log)"
| skipped:
    "(k, Waiting) \<in> set A \<Longrightarrow> completeSkipped k action p now d = Inr (d', m) \<Longrightarrow>
     hosting_step env (d, A, log) (d', remove1 (k, Waiting) A, log)"
| crashed: "hosting_step env (d, A, log) (d, remove1 x A, log)"
| unrelated: "automation_rows d' = automation_rows d \<Longrightarrow> hosting_step env (d, A, log) (d', A, log)"

abbreviation hosting_steps :: "hosting_env \<Rightarrow> hosting_state \<Rightarrow> hosting_state \<Rightarrow> bool" where
  "hosting_steps env \<equiv> (hosting_step env)\<^sup>*\<^sup>*"

section \<open>Operation keys\<close>

definition chain_key :: "string \<Rightarrow> bool" where
  \<comment> \<open>the key of a first operation, with identifiers in the format of a UUID\<close>
  "chain_key b \<longleftrightarrow>
     (\<exists>action p. b = operation_key action p \<and> length (payload_service p) = 36 \<and> length (payload_source p) = 36)"

lemma chain_key_prefix_eq:
  assumes "chain_key b" and "chain_key c" and "prefix b (c @ s)"
  shows "b = c"
proof -
  obtain a p where b: "b = operation_key a p" "length (payload_service p) = 36" "length (payload_source p) = 36"
    using assms(1) by (auto simp: chain_key_def)
  obtain a' p' where c: "c = operation_key a' p'" "length (payload_service p') = 36" "length (payload_source p') = 36"
    using assms(2) by (auto simp: chain_key_def)
  have "a = a'"
    using assms(3) by (cases a; cases a') (simp_all add: b(1) c(1) operation_key_def)
  then have "length b = length c" using b c by (simp add: operation_key_def)
  moreover obtain z where "c @ s = b @ z" using assms(3) by (auto simp: prefix_def)
  ultimately show ?thesis by (metis append_eq_append_conv)
qed

lemma chain_key_automation: "chain_key b \<Longrightarrow> prefix b k \<Longrightarrow> prefix ''automation:'' k"
  by (auto simp: chain_key_def operation_key_def prefix_def)

definition attempt_key :: "string \<Rightarrow> nat \<Rightarrow> string" where
  "attempt_key b n = (if n = 1 then b else b @ '':retry:'' @ show_nat n)"

lemma attempt_key_prefix [simp]: "prefix b (attempt_key b n)"
  by (simp add: attempt_key_def)

lemma latest_operation_None:
  assumes "latest_operation b d = None" and "p \<in> set (d_operations d)"
  shows "\<not> prefix b (op_idempotencyKey p)"
proof -
  let ?ps = "filter (\<lambda>p. prefix b (op_idempotencyKey p)) (d_operations d)"
  have "rev (sort_key op_attemptNumber ?ps) = []"
    using assms(1) by (auto simp: latest_operation_def split: list.splits)
  then have "set (sort_key op_attemptNumber ?ps) = {}" by simp
  then show ?thesis using assms(2) by (auto simp: filter_empty_conv)
qed

lemma latest_operation_Some:
  assumes "latest_operation b d = Some p"
  shows "p \<in> set (d_operations d)" and "prefix b (op_idempotencyKey p)"
    and "\<And>q. q \<in> set (d_operations d) \<Longrightarrow> prefix b (op_idempotencyKey q) \<Longrightarrow> op_attemptNumber q \<le> op_attemptNumber p"
proof -
  let ?ps = "filter (\<lambda>p. prefix b (op_idempotencyKey p)) (d_operations d)"
  obtain rest where r: "rev (sort_key op_attemptNumber ?ps) = p # rest"
    using assms by (auto simp: latest_operation_def split: list.splits)
  then have s: "sort_key op_attemptNumber ?ps = rev rest @ [p]"
    by (metis rev.simps(2) rev_rev_ident)
  then have "p \<in> set (sort_key op_attemptNumber ?ps)" by (simp del: set_sort)
  then show "p \<in> set (d_operations d)" "prefix b (op_idempotencyKey p)" by auto
  have "sorted (map op_attemptNumber (rev rest @ [p]))" using s sorted_sort_key by metis
  then show "op_attemptNumber q \<le> op_attemptNumber p"
    if "q \<in> set (d_operations d)" "prefix b (op_idempotencyKey q)" for q
  proof -
    have "q \<in> set (rev rest @ [p])" unfolding s [symmetric] using that by simp
    then show ?thesis using \<open>sorted (map op_attemptNumber (rev rest @ [p]))\<close>
      by (auto simp: sorted_append)
  qed
qed

section \<open>The invariant of the operations\<close>

definition refused :: "hosting_operation \<Rightarrow> bool" where
  \<comment> \<open>only such an operation is ever retried\<close>
  "refused p \<longleftrightarrow> op_status p = Op_FAILED \<and> op_errorKind p = Some Panel_TEMPORARY"

definition mutations :: "uuid \<Rightarrow> hosting_log \<Rightarrow> exchange list" where
  "mutations k log = filter is_mutation (map snd (filter (\<lambda>x. fst x = k) log))"

definition rows_ok :: "hosting_operation list \<Rightarrow> bool" where
  "rows_ok R \<longleftrightarrow> distinct (map op_id R) \<and> distinct (map op_idempotencyKey R) \<and>
     (\<forall>p \<in> set R. 0 < op_attemptNumber p \<and>
        (\<exists>b. chain_key b \<and> op_idempotencyKey p = attempt_key b (op_attemptNumber p))) \<and>
     (\<forall>p \<in> set R. \<forall>q \<in> set R. \<forall>b. chain_key b \<and> prefix b (op_idempotencyKey p) \<and>
        prefix b (op_idempotencyKey q) \<and> op_attemptNumber p < op_attemptNumber q \<longrightarrow> refused p)"

definition log_ok :: "hosting_operation list \<Rightarrow> hosting_log \<Rightarrow> bool" where
  "log_ok R log \<longleftrightarrow>
     fst ` set log \<subseteq> op_id ` set R \<and> (\<forall>k. length (mutations k log) \<le> 1) \<and>
     (\<forall>p \<in> set R. refused p \<longrightarrow> (\<forall>x \<in> set (mutations (op_id p) log). answer_lost x))"

definition job_phase_ok :: "hosting_operation list \<Rightarrow> hosting_log \<Rightarrow> uuid \<Rightarrow> phase \<Rightarrow> bool" where
  "job_phase_ok R log k ph \<longleftrightarrow>
     (\<exists>p \<in> set R. op_id p = k \<and> \<not> refused p) \<and> (ph = Waiting \<longrightarrow> k \<notin> fst ` set log) \<and>
     (\<forall>e. ph = Called (Inl e) \<and> fst (normalized e) = Panel_TEMPORARY \<longrightarrow>
        (\<forall>x \<in> set (mutations k log). answer_lost x))"

definition hosting_inv :: "hosting_state \<Rightarrow> bool" where
  "hosting_inv = (\<lambda>(d, A, log). let R = automation_rows d in
     rows_ok R \<and> log_ok R log \<and> distinct (map fst A) \<and> (\<forall>(k, ph) \<in> set A. job_phase_ok R log k ph))"

lemma mutations_none: "k \<notin> fst ` set log \<Longrightarrow> mutations k log = []"
  by (force simp: mutations_def filter_empty_conv)

lemma mutations_append:
  "mutations k (log @ map (Pair k') new) = mutations k log @ (if k' = k then filter is_mutation new else [])"
  by (induction new) (auto simp: mutations_def)


definition row_kept :: "hosting_operation \<Rightarrow> hosting_operation \<Rightarrow> bool" where
  "row_kept p q \<longleftrightarrow> op_id q = op_id p \<and> op_idempotencyKey q = op_idempotencyKey p \<and>
     op_attemptNumber q = op_attemptNumber p"

lemma row_updates_kept [simp]:
  "row_kept p (failed_operation n kind code now p)" "row_kept p (succeeded_row now v p)"
  by (simp_all add: row_kept_def failed_operation_def succeeded_row_def)

lemma automation_rows_update:
  assumes "\<And>p. row_kept p (f p)"
  shows "automation_rows (d\<lparr>d_operations := update_many P f (d_operations d)\<rparr>) = update_many P f (automation_rows d)"
proof -
  have "prefix ''automation:'' (op_idempotencyKey (f p)) = prefix ''automation:'' (op_idempotencyKey p)" for p
    using assms [of p] by (simp add: row_kept_def)
  then show ?thesis
    by (simp add: automation_rows_def update_many_def filter_map comp_def if_distrib cong: filter_cong)
qed

lemma update_rows_inv:
  assumes inv: "hosting_inv (d, A, log)" and rows: "automation_rows d' = update_many P f (automation_rows d)"
    and kept: "\<And>p. row_kept p (f p)" and P: "\<And>p. P p \<Longrightarrow> op_id p = k"
    and status: "\<And>p. p \<in> set (automation_rows d) \<Longrightarrow> P p \<Longrightarrow> \<not> refused p \<and>
      (refused (f p) \<longrightarrow> k \<notin> fst ` set A' \<and> (\<forall>x \<in> set (mutations k log). answer_lost x))"
    and A': "set A' \<subseteq> set A" "distinct (map fst A')"
  shows "hosting_inv (d', A', log)"
proof -
  let ?R = "automation_rows d" and ?R' = "automation_rows d'"
  have ids: "map op_id ?R' = map op_id ?R" "map op_idempotencyKey ?R' = map op_idempotencyKey ?R"
    using kept by (simp_all add: rows update_many_def row_kept_def)
  have old: "\<exists>p \<in> set ?R. row_kept p q \<and> (refused p \<longrightarrow> refused q) \<and>
      (refused q \<longrightarrow> refused p \<or> (op_id q = k \<and> k \<notin> fst ` set A' \<and> (\<forall>x \<in> set (mutations k log). answer_lost x)))"
    if q: "q \<in> set ?R'" for q
  proof -
    obtain p where p: "p \<in> set ?R" "q = (if P p then f p else p)" using q by (auto simp: rows update_many_def)
    show ?thesis
    proof (cases "P p")
      case True
      then show ?thesis using p kept [of p] P [OF True] status [OF p(1) True]
        by (intro bexI [of _ p]) (auto simp: row_kept_def)
    next
      case False
      then show ?thesis using p by (intro bexI [of _ p]) (auto simp: row_kept_def)
    qed
  qed
  have new: "\<exists>q \<in> set ?R'. row_kept p q \<and> (refused q \<longrightarrow> refused p \<or> (op_id p = k \<and> k \<notin> fst ` set A'))"
    if p: "p \<in> set ?R" for p
  proof (cases "P p")
    case True
    then show ?thesis using p kept [of p] status [OF p True] P [OF True]
      by (intro bexI [of _ "f p"]) (auto simp: rows mem_update_many)
  next
    case False
    then show ?thesis using p by (intro bexI [of _ p]) (auto simp: rows mem_update_many row_kept_def)
  qed
  have R: "rows_ok ?R" "log_ok ?R log" "\<forall>(k, ph) \<in> set A. job_phase_ok ?R log k ph"
    using inv by (simp_all add: hosting_inv_def Let_def)
  have "rows_ok ?R'"
    unfolding rows_ok_def ids
  proof (intro conjI ballI allI impI)
    show "distinct (map op_id ?R)" "distinct (map op_idempotencyKey ?R)" using R(1) by (simp_all add: rows_ok_def)
  next
    fix q assume "q \<in> set ?R'"
    with old obtain p where "p \<in> set ?R" "row_kept p q" by blast
    then show "0 < op_attemptNumber q" "\<exists>b. chain_key b \<and> op_idempotencyKey q = attempt_key b (op_attemptNumber q)"
      using R(1) by (auto simp: rows_ok_def row_kept_def)
  next
    fix q q' b
    assume q: "q \<in> set ?R'" "q' \<in> set ?R'" and b: "chain_key b \<and> prefix b (op_idempotencyKey q) \<and>
        prefix b (op_idempotencyKey q') \<and> op_attemptNumber q < op_attemptNumber q'"
    obtain p where p: "p \<in> set ?R" "row_kept p q" "refused p \<longrightarrow> refused q" using old [OF q(1)] by blast
    obtain p' where p': "p' \<in> set ?R" "row_kept p' q'" using old [OF q(2)] by blast
    have "refused p" using R(1) p p' b unfolding rows_ok_def row_kept_def by metis
    with p(3) show "refused q" by simp
  qed
  moreover have "log_ok ?R' log"
  proof -
    have "op_id ` set ?R' = op_id ` set ?R" using ids(1) by (metis set_map)
    moreover have "\<forall>x \<in> set (mutations (op_id q) log). answer_lost x" if q: "q \<in> set ?R'" "refused q" for q
    proof -
      obtain p where p: "p \<in> set ?R" "row_kept p q"
        "refused p \<or> (op_id q = k \<and> (\<forall>x \<in> set (mutations k log). answer_lost x))"
        using old [OF q(1)] q(2) by blast
      then show ?thesis using R(2) by (auto simp: log_ok_def row_kept_def)
    qed
    ultimately show ?thesis using R(2) by (simp add: log_ok_def)
  qed
  moreover have "job_phase_ok ?R' log j ph" if j: "(j, ph) \<in> set A'" for j ph
  proof -
    have ok: "job_phase_ok ?R log j ph" using R(3) j A'(1) by auto
    then obtain p where p: "p \<in> set ?R" "op_id p = j" "\<not> refused p" by (auto simp: job_phase_ok_def)
    have "j \<in> fst ` set A'" using j by (metis fst_conv image_eqI)
    with new [OF p(1)] p obtain q where "q \<in> set ?R'" "row_kept p q" "\<not> refused q" by auto
    with p ok show ?thesis by (auto simp: job_phase_ok_def row_kept_def)
  qed
  ultimately show ?thesis using A'(2) by (auto simp: hosting_inv_def Let_def)
qed

lemma update_operations_cases:
  assumes "update_operations P f d = Inr (d', m)"
  obtains "d' = d\<lparr>d_operations := update_many P f (d_operations d)\<rparr>"
    and "m = count_where P (d_operations d)"
    and "\<And>p. p \<in> set (d_operations d) \<Longrightarrow> P p \<Longrightarrow> operation_check (f p)"
  using assms by (auto simp: update_operations_def list_ex_iff split: if_splits)

lemma automation_row_mem: "p \<in> set (automation_rows d) \<Longrightarrow> p \<in> set (d_operations d)"
  by (simp add: automation_rows_def)

lemma phase_removed:
  assumes "distinct (map fst A)" and "(k, ph) \<in> set A"
  shows "k \<notin> fst ` set (remove1 (k, ph) A)" and "distinct (map fst (remove1 (k, ph) A))"
    and "set (remove1 (k, ph) A) \<subseteq> set A"
proof -
  have d: "distinct A" using assms(1) by (simp add: distinct_map)
  have "fst x \<noteq> k" if "x \<in> set A" "x \<noteq> (k, ph)" for x
    using that assms by (auto simp: distinct_map inj_on_def)
  then show "k \<notin> fst ` set (remove1 (k, ph) A)" using d by auto
  show "distinct (map fst (remove1 (k, ph) A))"
    using assms(1) d by (auto simp: distinct_map distinct_remove1 intro: inj_on_subset)
  show "set (remove1 (k, ph) A) \<subseteq> set A" by (rule set_remove1_subset)
qed

lemma fail_inv:
  assumes inv: "hosting_inv (d, A, log)" and run: "fail k n kind code now d = Inr (d', m)"
    and A': "set A' \<subseteq> set A" "distinct (map fst A')"
    and temporary: "kind = Panel_TEMPORARY \<Longrightarrow>
      k \<notin> fst ` set A' \<and> (\<forall>x \<in> set (mutations k log). answer_lost x)"
  shows "hosting_inv (d', A', log)"
proof -
  let ?f = "failed_operation n kind code now"
  from run obtain d': "d' = d\<lparr>d_operations := update_many (\<lambda>p. op_id p = k \<and> op_status p = Op_RUNNING) ?f (d_operations d)\<rparr>"
    unfolding fail_def by (cases rule: update_operations_cases) blast
  have rows: "automation_rows d' = update_many (\<lambda>p. op_id p = k \<and> op_status p = Op_RUNNING) ?f (automation_rows d)"
    unfolding d' by (rule automation_rows_update) simp
  show ?thesis
    by (rule update_rows_inv [OF inv rows])
      (use A' temporary in \<open>auto simp: refused_def failed_operation_def row_kept_def\<close>)
qed


lemma automation_rows_cong: "d_operations d' = d_operations d \<Longrightarrow> automation_rows d' = automation_rows d"
  by (simp add: automation_rows_def)

lemma create_outbox_operations: "create_outbox now a k t key v d = Inr (d', u) \<Longrightarrow> d_operations d' = d_operations d"
  by (auto simp: create_outbox_def split: if_splits)

lemma finishCancellation_operations: "finishCancellation s k now d = Inr (d', u) \<Longrightarrow> d_operations d' = d_operations d"
  by (auto simp: finishCancellation_def update_cancellations_def result_simps log_activity_def split: if_splits)

lemma complete_cases:
  assumes "complete k action p acct now d = Inr (d', u)"
  obtains d1 d2 d3 d4 where
      "update_services (service_matches action p) (service_after action p now) d = Inr (d1, Suc 0)"
    and "(case payload_cancellation p of None \<Rightarrow> Inr (d1, ())
          | Some h \<Rightarrow> finishCancellation (payload_service p) h now d1) = Inr (d2, ())"
    and "update_operation k (succeeded_row now (JObj [(''account'', account_json acct)])) d2 = Inr (d3, ())"
    and "create_outbox now ''SERVICE'' (payload_service p)
           (case action of SUSPEND \<Rightarrow> ''EMAIL_SERVICE_SUSPENDED'' | UNSUSPEND \<Rightarrow> ''EMAIL_SERVICE_REACTIVATED'')
           (''email:service:'' @ k)
           (JObj [(''schemaVersion'', JNum 1), (''serviceId'', JStr (payload_service p))]) d3 = Inr (d4, ())"
    and "d' = complete_log k action p d4"
  using assms by (auto simp: complete_def result_simps split: if_splits)

lemma complete_operations:
  assumes "complete k action p acct now d = Inr (d', u)"
  shows "\<exists>v. d_operations d' = update_many (\<lambda>p. op_id p = k) (succeeded_row now v) (d_operations d) \<and>
    (\<forall>p \<in> set (d_operations d). op_id p = k \<longrightarrow> operation_check (succeeded_row now v p))"
  using assms
proof (cases rule: complete_cases)
  case (1 d1 d2 d3 d4)
  let ?v = "JObj [(''account'', account_json acct)]"
  have "d_operations d1 = d_operations d" using 1(1) by (auto simp: update_services_def split: if_splits)
  moreover have "d_operations d2 = d_operations d1"
    using 1(2) finishCancellation_operations by (auto split: option.splits)
  moreover have "d_operations d3 = update_many (\<lambda>p. op_id p = k) (succeeded_row now ?v) (d_operations d2) \<and>
      (\<forall>p \<in> set (d_operations d2). op_id p = k \<longrightarrow> operation_check (succeeded_row now ?v p))"
    using 1(3) by (auto simp: update_operation_def result_simps elim!: update_operations_cases split: if_splits)
  moreover have "d_operations d4 = d_operations d3" using 1(4) create_outbox_operations by blast
  moreover have "d_operations d' = d_operations d4" by (simp add: 1(5) complete_log_def log_activity_def)
  ultimately show ?thesis by metis
qed

lemma succeeded_not_refused:
  "operation_check (succeeded_row now v p) \<Longrightarrow> \<not> refused p" "\<not> refused (succeeded_row now v p)"
  by (auto simp: operation_check_def operation_evidence_check_def succeeded_row_def refused_def)

lemma succeeded_inv:
  assumes inv: "hosting_inv (d, A, log)"
    and rows: "d_operations d' = update_many P (succeeded_row now v) (d_operations d)"
    and P: "\<And>p. P p \<Longrightarrow> op_id p = k"
    and check: "\<And>p. p \<in> set (d_operations d) \<Longrightarrow> P p \<Longrightarrow> operation_check (succeeded_row now v p)"
    and A': "set A' \<subseteq> set A" "distinct (map fst A')"
  shows "hosting_inv (d', A', log)"
proof (rule update_rows_inv [OF inv _ _ P _ A'])
  have "automation_rows d' = automation_rows (d\<lparr>d_operations := update_many P (succeeded_row now v) (d_operations d)\<rparr>)"
    by (rule automation_rows_cong) (simp add: rows)
  then show "automation_rows d' = update_many P (succeeded_row now v) (automation_rows d)"
    by (simp add: automation_rows_update)
  show "\<not> refused p \<and> (refused (succeeded_row now v p) \<longrightarrow>
      k \<notin> fst ` set A' \<and> (\<forall>x \<in> set (mutations k log). answer_lost x))"
    if "p \<in> set (automation_rows d)" "P p" for p
    using succeeded_not_refused(1) [OF check [OF automation_row_mem [OF that(1)] that(2)]]
      succeeded_not_refused(2) by simp
qed simp

lemma called_inv:
  assumes inv: "hosting_inv (d, A, log)" and k: "(k, Waiting) \<in> set A"
    and call: "call_panel env run action p d0 (map snd log) = (sent', r)"
  shows "hosting_inv (d, (k, Called r) # remove1 (k, Waiting) A, log @ map (Pair k) (drop (length log) sent'))"
proof -
  let ?R = "automation_rows d"
  obtain new where new: "sent' = map snd log @ new" "exchange_ok new r" using call_panel_sent [OF call] by blast
  then have drop: "drop (length log) sent' = new" by simp
  let ?log = "log @ map (Pair k) new"
  have parts: "rows_ok ?R" "log_ok ?R log" "distinct (map fst A)" "\<forall>(j, ph) \<in> set A. job_phase_ok ?R log j ph"
    using inv by (simp_all add: hosting_inv_def Let_def)
  have ok: "job_phase_ok ?R log k Waiting" using parts(4) k by auto
  then have none: "mutations k log = []" and fresh: "k \<notin> fst ` set log"
    using mutations_none by (auto simp: job_phase_ok_def)
  obtain q where q: "q \<in> set ?R" "op_id q = k" "\<not> refused q" using ok by (auto simp: job_phase_ok_def)
  have muts: "mutations k ?log = filter is_mutation new" "\<And>j. j \<noteq> k \<Longrightarrow> mutations j ?log = mutations j log"
    by (simp_all add: mutations_append none)
  have only: "p = q" if "p \<in> set ?R" "op_id p = k" for p
    using parts(1) that q by (auto simp: rows_ok_def intro: distinct_key_inj)
  have "log_ok ?R ?log"
    unfolding log_ok_def
  proof (intro conjI ballI allI impI)
    show "fst ` set ?log \<subseteq> op_id ` set ?R" using parts(2) q by (auto simp: log_ok_def)
    show "length (mutations j ?log) \<le> 1" for j
      using new(2) parts(2) by (cases "j = k") (auto simp: log_ok_def exchange_ok_def muts)
    fix p x assume p: "p \<in> set ?R" "refused p" "x \<in> set (mutations (op_id p) ?log)"
    then have "op_id p \<noteq> k" using only q(3) by blast
    then show "answer_lost x" using p parts(2) muts(2) by (auto simp: log_ok_def)
  qed
  moreover note removed = phase_removed [OF parts(3) k]
  moreover have "job_phase_ok ?R ?log k (Called r)"
    using q new(2) by (auto simp: job_phase_ok_def muts exchange_ok_def)
  moreover have "job_phase_ok ?R ?log j ph" if j: "(j, ph) \<in> set (remove1 (k, Waiting) A)" for j ph
  proof -
    have "j \<noteq> k" using j removed(1) by (metis fst_conv image_eqI)
    then have "mutations j ?log = mutations j log" and "j \<in> fst ` set ?log \<longleftrightarrow> j \<in> fst ` set log"
      using muts(2) by auto
    moreover have "job_phase_ok ?R log j ph" using parts(4) j removed(3) by auto
    ultimately show ?thesis unfolding job_phase_ok_def by simp
  qed
  ultimately show ?thesis using parts(1) by (auto simp: hosting_inv_def Let_def drop)
qed


lemma hosting_inv_cong:
  "automation_rows d' = automation_rows d \<Longrightarrow> hosting_inv (d', A, log) = hosting_inv (d, A, log)"
  by (simp add: hosting_inv_def)

lemma hosting_inv_fewer:
  "hosting_inv (d, A, log) \<Longrightarrow> set A' \<subseteq> set A \<Longrightarrow> distinct (map fst A') \<Longrightarrow> hosting_inv (d, A', log)"
  by (auto simp: hosting_inv_def Let_def)

lemma create_operation_cases:
  assumes "create_operation row d = Inr (d', q)"
  obtains "q = row\<lparr>op_id := fresh_uuid d\<rparr>" and "operation_check q" and "op_id q \<notin> op_id ` set (d_operations d)"
    and "op_idempotencyKey q \<notin> op_idempotencyKey ` set (d_operations d)"
    and "d' = d\<lparr>d_operations := d_operations d @ [q], d_supply := Suc (d_supply d)\<rparr>"
  using assms by (fastforce simp: create_operation_def Let_def list_ex_iff split: if_splits)

lemma prepare_cancellation_operations:
  "prepare_cancellation p h ev now running s d = Inr (Settled d') \<Longrightarrow> d_operations d' = d_operations d"
  by (auto simp: prepare_cancellation_def rescheduled_def deferCancellation_def create_outbox_skip_def
      update_cancellation_def suspension_released_def log_activity_def result_simps in_job_def Let_def
      dest!: create_outbox_operations finishCancellation_operations
      split: option.splits if_splits sum.splits prod.splits)

lemma open_operation_cases:
  assumes "open_operation env action p existing s sv userId d = Inr (d', r)"
  obtains (existing) q where "existing = Some q" and "d' = d" and "r = Some (q, False)"
  | (retried) q0 q where "existing = Some q0" and "refused q0"
      and "op_retryable q0" and "op_attemptNumber q0 < MAX_AUTOMATION_ATTEMPTS"
      and "create_operation (retry_operation (operation_key action p) p q0) d = Inr (d', q)"
      and "r = Some (q, True)"
  | (first) q where "existing = None"
      and "create_operation (first_operation env action p s sv userId) d = Inr (d', q)"
      and "r = Some (q, True)"
  using assms
  by (auto simp: open_operation_def refused_def in_job_def split: option.splits if_splits sum.splits)

lemma prepare_cases:
  assumes "prepare env action p ev now d = Inr (d', r)"
  obtains (answered) q where "latest_operation (operation_key action p) d = Some q"
      and "op_status q = Op_SUCCEEDED" and "d' = d" and "r = Some (q, False)" and "payload_cancellation p = None"
  | (settled) h s where "payload_cancellation p = Some h" and "find_service (payload_service p) d = Some s"
      and "prepare_cancellation p h ev now
             (other_running (payload_service p) (latest_operation (operation_key action p) d) d) s d = Inr (Settled d')"
      and "r = None"
  | (opened) s sv userId where "find_service (payload_service p) d = Some s"
      and "service_joins s d = Some (sv, userId)"
      and "open_operation env action p (latest_operation (operation_key action p) d) s sv userId d = Inr (d', r)"
      and "\<And>h. payload_cancellation p = Some h \<Longrightarrow> prepare_cancellation p h ev now
             (other_running (payload_service p) (latest_operation (operation_key action p) d) d) s d = Inr Proceed"
  using assms
  by (auto simp: prepare_def Let_def result_simps split: if_splits option.splits cancellation_progress.splits)
    (metis cancellation_progress.exhaust)

lemma new_operation_inv:
  assumes inv: "hosting_inv (d, A, log)" and create: "create_operation row d = Inr (d', q)"
    and b: "chain_key b" "op_idempotencyKey row = attempt_key b (op_attemptNumber row)"
    and below: "\<And>p. p \<in> set (automation_rows d) \<Longrightarrow> prefix b (op_idempotencyKey p) \<Longrightarrow>
      op_attemptNumber p < op_attemptNumber row \<and> refused p"
    and row: "op_status row = Op_RUNNING"
  shows "hosting_inv (d', (op_id q, Waiting) # A, log)"
proof -
  let ?R = "automation_rows d"
  have parts: "rows_ok ?R" "log_ok ?R log" "distinct (map fst A)" "\<forall>(j, ph) \<in> set A. job_phase_ok ?R log j ph"
    using inv by (simp_all add: hosting_inv_def Let_def)
  from create obtain q: "q = row\<lparr>op_id := fresh_uuid d\<rparr>" "operation_check q" "op_id q \<notin> op_id ` set (d_operations d)"
    "op_idempotencyKey q \<notin> op_idempotencyKey ` set (d_operations d)"
    "d' = d\<lparr>d_operations := d_operations d @ [q], d_supply := Suc (d_supply d)\<rparr>"
    by (rule create_operation_cases)
  have key: "op_idempotencyKey q = attempt_key b (op_attemptNumber q)" using b(2) q(1) by simp
  have auto_q: "prefix ''automation:'' (op_idempotencyKey q)"
    using chain_key_automation [OF b(1)] by (simp add: key)
  then have R': "automation_rows d' = ?R @ [q]" by (simp add: automation_rows_def q(5))
  have notin: "op_id q \<notin> op_id ` set ?R" "op_idempotencyKey q \<notin> op_idempotencyKey ` set ?R"
    using q(3,4) automation_row_mem by blast+
  have same: "c = b" if "chain_key c" "prefix c (op_idempotencyKey q)" for c
    using that chain_key_prefix_eq [of c b] b(1) by (auto simp: key attempt_key_def split: if_splits)
  have "rows_ok (?R @ [q])"
    unfolding rows_ok_def
  proof (intro conjI ballI allI impI)
    show "distinct (map op_id (?R @ [q]))" "distinct (map op_idempotencyKey (?R @ [q]))"
      using parts(1) notin by (simp_all add: rows_ok_def)
    fix p assume "p \<in> set (?R @ [q])"
    then show "0 < op_attemptNumber p" "\<exists>b. chain_key b \<and> op_idempotencyKey p = attempt_key b (op_attemptNumber p)"
      using parts(1) q(2) b(1) key by (auto simp: rows_ok_def operation_check_def)
  next
    fix p p' c
    assume mem: "p \<in> set (?R @ [q])" "p' \<in> set (?R @ [q])"
      and c: "chain_key c \<and> prefix c (op_idempotencyKey p) \<and> prefix c (op_idempotencyKey p') \<and>
        op_attemptNumber p < op_attemptNumber p'"
    consider "p \<in> set ?R" "p' \<in> set ?R" | "p \<in> set ?R" "p' = q" | "p = q" "p' \<in> set ?R"
      using mem c by auto
    then show "refused p"
    proof cases
      case 1
      then show ?thesis using parts(1) c by (auto simp: rows_ok_def)
    next
      case 2
      then show ?thesis using below same c by auto
    next
      case 3
      then have "op_attemptNumber p' < op_attemptNumber q" using below [of p'] same c q(1) by auto
      with c 3 show ?thesis by simp
    qed
  qed
  moreover have "op_id q \<notin> fst ` set log" using parts(2) notin(1) by (auto simp: log_ok_def)
  moreover have "op_id q \<notin> fst ` set A"
  proof
    assume "op_id q \<in> fst ` set A"
    then obtain ph where "(op_id q, ph) \<in> set A" by auto
    then have "job_phase_ok ?R log (op_id q) ph" using parts(4) by auto
    then obtain p where "p \<in> set ?R" "op_id p = op_id q" by (auto simp: job_phase_ok_def)
    then show False using notin(1) by (metis image_eqI)
  qed
  moreover have "log_ok (?R @ [q]) log"
    using parts(2) row by (auto simp: log_ok_def refused_def q(1))
  moreover have "job_phase_ok (?R @ [q]) log j ph" if "(j, ph) \<in> set A" for j ph
    using parts(4) that by (auto simp: job_phase_ok_def)
  moreover have "job_phase_ok (?R @ [q]) log (op_id q) Waiting"
    using \<open>op_id q \<notin> fst ` set log\<close> row by (auto simp: job_phase_ok_def refused_def q(1))
  ultimately show ?thesis using parts(3) R' by (auto simp: hosting_inv_def Let_def)
qed


lemma same_attempt:
  assumes rows: "rows_ok R" and b: "chain_key b" and mem: "p \<in> set R" "q \<in> set R"
    and pre: "prefix b (op_idempotencyKey p)" "prefix b (op_idempotencyKey q)"
    and eq: "op_attemptNumber p = op_attemptNumber q"
  shows "p = q"
proof -
  have key: "op_idempotencyKey r = attempt_key b (op_attemptNumber r)"
    if r: "r \<in> set R" "prefix b (op_idempotencyKey r)" for r
  proof -
    obtain c where c: "chain_key c" "op_idempotencyKey r = attempt_key c (op_attemptNumber r)"
      using rows r(1) unfolding rows_ok_def by metis
    then have "b = c"
      using chain_key_prefix_eq [OF b c(1)] r(2) by (metis append_Nil2 attempt_key_def)
    with c show ?thesis by simp
  qed
  have "op_idempotencyKey p = op_idempotencyKey q"
    using key [OF mem(1) pre(1)] key [OF mem(2) pre(2)] eq by simp
  then show ?thesis using rows mem by (auto simp: rows_ok_def intro: distinct_key_inj)
qed

lemma opened_inv:
  assumes uuids: "\<And>s. env_uuid (he_env env) s \<Longrightarrow> length s = 36" and valid: "payload_valid env p"
    and inv: "hosting_inv (d, A, log)" and run: "prepare env action p ev now d = Inr (d', Some (q, True))"
  shows "hosting_inv (d', (op_id q, Waiting) # A, log)"
proof -
  let ?b = "operation_key action p"
  have b: "chain_key ?b" using uuids valid by (auto simp: chain_key_def payload_valid_def)
  have rows: "rows_ok (automation_rows d)" using inv by (simp add: hosting_inv_def Let_def)
  obtain s sv userId where run': "open_operation env action p (latest_operation ?b d) s sv userId d = Inr (d', Some (q, True))"
    using run by (cases rule: prepare_cases) auto
  from run' show ?thesis
  proof (cases rule: open_operation_cases)
    case (retried q0 q')
    note latest = latest_operation_Some [OF retried(1)]
    let ?row = "retry_operation ?b p q0"
    have q0: "q0 \<in> set (automation_rows d)"
      using latest(1) chain_key_automation [OF b latest(2)] by (simp add: automation_rows_def)
    have "op_attemptNumber r < op_attemptNumber ?row \<and> refused r"
      if r: "r \<in> set (automation_rows d)" "prefix ?b (op_idempotencyKey r)" for r
    proof -
      have le: "op_attemptNumber r \<le> op_attemptNumber q0" using latest(3) automation_row_mem r by blast
      moreover have "refused r"
      proof (cases "op_attemptNumber r = op_attemptNumber q0")
        case True
        then have "r = q0" using same_attempt [OF rows b r(1) q0 r(2) latest(2)] by simp
        with retried(2) show ?thesis by simp
      next
        case False
        then show ?thesis using rows r q0 le latest(2) b unfolding rows_ok_def by (metis le_neq_implies_less)
      qed
      ultimately show ?thesis by (simp add: retry_operation_def)
    qed
    moreover have "0 < op_attemptNumber q0" using rows q0 by (auto simp: rows_ok_def)
    ultimately show ?thesis
      using new_operation_inv [OF inv retried(5) b] retried(6)
      by (simp add: retry_operation_def attempt_key_def)
  next
    case (first q')
    have "\<not> prefix ?b (op_idempotencyKey r)" if "r \<in> set (automation_rows d)" for r
      using latest_operation_None [OF first(1)] automation_row_mem that by blast
    then show ?thesis
      using new_operation_inv [OF inv first(2) b] first(3)
      by (simp add: first_operation_def attempt_key_def)
  qed simp
qed

lemma hosting_step_inv:
  assumes uuids: "\<And>s. env_uuid (he_env env) s \<Longrightarrow> length s = 36"
    and step: "hosting_step env S S'" and inv: "hosting_inv S"
  shows "hosting_inv S'"
  using step inv
proof (cases rule: hosting_step.cases)
  case (opened p action ev now d d' q A log)
  then show ?thesis using opened_inv [OF uuids opened(3) _ opened(4)] inv by simp
next
  case (settled action p ev now d d' A log)
  from settled(3) have "automation_rows d' = automation_rows d"
  proof (cases rule: prepare_cases)
    case (settled h s)
    show ?thesis using prepare_cancellation_operations [OF settled(3)] by (rule automation_rows_cong)
  next
    case (opened s sv userId)
    from opened(3) show ?thesis by (cases rule: open_operation_cases) simp_all
  qed simp
  then have "hosting_inv (d', A, log) = hosting_inv (d, A, log)" by (rule hosting_inv_cong)
  then show ?thesis using inv settled(1,2) by simp
next
  case (called k A run action p d0 log sent' r d)
  then show ?thesis using called_inv [OF _ called(3,4)] inv by simp
next
  case (failed k ph A e n now d d' m log)
  have inv': "hosting_inv (d, A, log)" using inv failed(1) by simp
  then have dist: "distinct (map fst A)" and ok: "job_phase_ok (automation_rows d) log k ph"
    using failed(3) by (auto simp: hosting_inv_def Let_def)
  have "\<forall>x \<in> set (mutations k log). answer_lost x" if temporary: "fst e = Panel_TEMPORARY"
  proof (cases ph)
    case Waiting
    then show ?thesis using ok mutations_none by (auto simp: job_phase_ok_def)
  next
    case (Called r)
    then obtain x where "r = Inl x" "e = normalized x"
      using failed(4) temporary by (cases r) auto
    then show ?thesis using ok temporary Called by (auto simp: job_phase_ok_def)
  qed
  then show ?thesis
    using fail_inv [OF inv' failed(5), of "remove1 (k, ph) A"] phase_removed [OF dist failed(3)] failed(2) by simp
next
  case (uncertain k n code now d d' m A log)
  have inv': "hosting_inv (d, A, log)" using inv uncertain(1) by simp
  then have "distinct (map fst A)" by (simp add: hosting_inv_def Let_def)
  then show ?thesis using fail_inv [OF inv' uncertain(3), of A] uncertain(2) by simp
next
  case (completed k acct A action p now d d' u log)
  have inv': "hosting_inv (d, A, log)" using inv completed(1) by simp
  then have dist: "distinct (map fst A)" by (simp add: hosting_inv_def Let_def)
  obtain v where v: "d_operations d' = update_many (\<lambda>p. op_id p = k) (succeeded_row now v) (d_operations d)"
    "\<forall>p \<in> set (d_operations d). op_id p = k \<longrightarrow> operation_check (succeeded_row now v p)"
    using complete_operations [OF completed(4)] by blast
  show ?thesis
    unfolding completed(2)
    by (rule succeeded_inv [OF inv' v(1)]) (use v(2) phase_removed [OF dist completed(3)] in auto)
next
  case (skipped k A action p now d d' m log)
  have inv': "hosting_inv (d, A, log)" using inv skipped(1) by simp
  then have dist: "distinct (map fst A)" by (simp add: hosting_inv_def Let_def)
  obtain v where v: "d_operations d' = update_many (\<lambda>p. op_id p = k \<and> op_status p = Op_RUNNING)
      (succeeded_row now v) (d_operations d)"
    "\<And>p. p \<in> set (d_operations d) \<Longrightarrow> op_id p = k \<and> op_status p = Op_RUNNING \<Longrightarrow> operation_check (succeeded_row now v p)"
    using skipped(4) unfolding completeSkipped_def by (cases rule: update_operations_cases) auto
  show ?thesis
    unfolding skipped(2)
    by (rule succeeded_inv [OF inv' v(1)]) (use v(2) phase_removed [OF dist skipped(3)] in auto)
next
  case (crashed d A log x)
  have "distinct (map fst A)" using inv crashed(1) by (simp add: hosting_inv_def Let_def)
  then have "distinct (map fst (remove1 x A))"
    using phase_removed(2) [of A "fst x" "snd x"] by (cases "x \<in> set A") (simp_all add: remove1_idem)
  moreover have "set (remove1 x A) \<subseteq> set A" by (rule set_remove1_subset)
  ultimately show ?thesis using hosting_inv_fewer inv crashed(1,2) by blast
next
  case (unrelated d' d A log)
  have "hosting_inv (d', A, log) = hosting_inv (d, A, log)" using unrelated(3) by (rule hosting_inv_cong)
  then show ?thesis using inv unrelated(1,2) by simp
qed


lemma hosting_steps_inv:
  assumes "\<And>s. env_uuid (he_env env) s \<Longrightarrow> length s = 36"
    and "hosting_steps env S S'" and "hosting_inv S"
  shows "hosting_inv S'"
  using assms(2,3) by (induction rule: rtranclp_induct) (auto intro: hosting_step_inv [OF assms(1)])

lemma mutations_mem: "x \<in> set (mutations k log) \<longleftrightarrow> (k, x) \<in> set log \<and> is_mutation x"
  by (force simp: mutations_def)

text \<open>
  C8: the panel is asked to change an account at most once for one reason, under any interleaving of
  jobs, deliveries and crashes: an operation makes one such request at most, and if two operations for the same
  service, action and invoice (or cancellation) both made one, then the earlier answered with success in a
  response whose body could not be read.
\<close>

theorem panel_mutated_once:
  assumes "\<And>s. env_uuid (he_env env) s \<Longrightarrow> length s = 36"
    and "automation_rows d0 = []" and "hosting_steps env (d0, [], []) (d, A, log)"
    and "p \<in> set (d_operations d)" and "q \<in> set (d_operations d)"
    and "prefix (operation_key action payload) (op_idempotencyKey p)"
    and "prefix (operation_key action payload) (op_idempotencyKey q)"
    and "payload_valid env payload"
    and "(op_id p, x) \<in> set log" and "is_mutation x" and "(op_id q, y) \<in> set log" and "is_mutation y"
  shows "length (mutations (op_id p) log) = 1 \<and>
    (p = q \<or> op_attemptNumber p < op_attemptNumber q \<and> answer_lost x \<or>
     op_attemptNumber q < op_attemptNumber p \<and> answer_lost y)"
proof -
  let ?b = "operation_key action payload" and ?R = "automation_rows d"
  have b: "chain_key ?b" using assms(1,8) by (auto simp: chain_key_def payload_valid_def)
  have "hosting_inv (d0, [], [])"
    using assms(2) by (simp add: hosting_inv_def rows_ok_def log_ok_def mutations_def)
  then have inv: "rows_ok ?R" "log_ok ?R log"
    using hosting_steps_inv [OF assms(1,3)] by (simp_all add: hosting_inv_def Let_def)
  have mem: "p \<in> set ?R" "q \<in> set ?R"
    using assms(4-7) chain_key_automation [OF b] by (simp_all add: automation_rows_def)
  have muts: "x \<in> set (mutations (op_id p) log)" "y \<in> set (mutations (op_id q) log)"
    using assms(9-12) by (simp_all add: mutations_mem)
  then have "mutations (op_id p) log \<noteq> []" by auto
  then have "length (mutations (op_id p) log) = 1"
    using inv(2) by (metis One_nat_def le_antisym length_greater_0_conv log_ok_def Suc_leI)
  moreover have earlier: "answer_lost z"
    if r: "r \<in> set ?R" "r' \<in> set ?R" "prefix ?b (op_idempotencyKey r)" "prefix ?b (op_idempotencyKey r')"
      "op_attemptNumber r < op_attemptNumber r'" "z \<in> set (mutations (op_id r) log)" for r r' z
  proof -
    have "refused r" using inv(1) r b unfolding rows_ok_def by blast
    then show ?thesis using inv(2) r(1,6) by (auto simp: log_ok_def)
  qed
  moreover have "p = q" if eq: "op_attemptNumber p = op_attemptNumber q"
    by (rule same_attempt [OF inv(1) b mem assms(6,7) eq])
  ultimately show ?thesis using mem assms(6,7) muts
    by (metis linorder_less_linear)
qed


section \<open>A job is a run of these steps\<close>

lemma job_payload_valid:
  "job_payload (he_env env) data d = Inr p \<Longrightarrow> payload_valid env p"
  by (auto simp: job_payload_def parse_payload_def payload_valid_def hostingAutomationPayloadSchema_def
      hostingCancellationJobSchema_def Let_def bind_eq_Some_conv split: option.splits if_splits)

lemma create_operation_status: "create_operation row d = Inr (d', q) \<Longrightarrow> op_status q = op_status row"
  by (auto simp: create_operation_def Let_def split: if_splits)

lemma prepare_running:
  assumes "prepare env action p ev now d = Inr (d', Some (q, True))"
  shows "op_status q = Op_RUNNING"
  using assms
proof (cases rule: prepare_cases)
  case (opened s sv userId)
  from opened(3) show ?thesis
    by (cases rule: open_operation_cases)
      (auto dest: create_operation_status simp: retry_operation_def first_operation_def)
qed simp_all

lemma fail_job_steps:
  assumes "fail_job p e now d = (d', r)" and "failure_of ph e"
  shows "hosting_steps env (d, (op_id p, ph) # A, log) (d', A, log)"
proof (cases "fail (op_id p) (op_attemptNumber p) (fst e) (snd e) now d")
  case (Inl x)
  then have "d' = d" using assms(1) by (auto simp: fail_job_def run_tx_def split: prod.splits)
  then show ?thesis using crashed [of env d "(op_id p, ph) # A" log "(op_id p, ph)"] by (simp add: r_into_rtranclp)
next
  case (Inr y)
  then have "fail (op_id p) (op_attemptNumber p) (fst e) (snd e) now d = Inr (d', snd y)"
    using assms(1) by (auto simp: fail_job_def run_tx_def split: prod.splits)
  then show ?thesis
    using failed [of "op_id p" ph "(op_id p, ph) # A" e _ now d d' _ env log] assms(2)
    by (simp add: r_into_rtranclp)
qed

lemma carry_out_steps:
  assumes "carry_out env run action p q d (map snd log) = (d', sent, r)"
  shows "hosting_steps env (d, (op_id q, Waiting) # A, log)
    (d', A, log @ map (Pair (op_id q)) (drop (length log) sent))"
proof -
  let ?k = "op_id q"
  have same: "hosting_steps env (d, (?k, Waiting) # A, log) (d', A, log @ map (Pair ?k) (drop (length log) sent))"
    if "fail_job q e now d = (d', r')" "sent = map snd log" for e now r'
    using fail_job_steps [OF that(1), of Waiting env A log] that(2) by simp
  show ?thesis
  proof (cases "hr_eligibleFails run")
    case True
    then have "fail_job q (normalized Unexpected) (hr_failed run) d = (d', r)" "sent = map snd log"
      using assms by (auto simp: carry_out_def split: prod.splits)
    then show ?thesis by (rule same)
  next
    case readable: False
    show ?thesis
    proof (cases "eligible action p (hr_eligible run) d")
      case False
      obtain d1 x where run': "run_tx (completeSkipped ?k action p (hr_completed run)) d = (d1, x)" by fastforce
      show ?thesis
      proof (cases x)
        case (Inl e)
        then have "d1 = d" using run' by (auto simp: run_tx_def split: sum.splits)
        then have "fail_job q (normalized Unexpected) (hr_failed run) d = (d', r)" "sent = map snd log"
          using assms readable False run' Inl by (auto simp: carry_out_def split: prod.splits)
        then show ?thesis by (rule same)
      next
        case (Inr m)
        then have "completeSkipped ?k action p (hr_completed run) d = Inr (d1, m)" "d' = d1" "sent = map snd log"
          using assms run' readable False by (auto simp: carry_out_def run_tx_def split: sum.splits)
        then show ?thesis
          using skipped [of ?k "(?k, Waiting) # A" action p "hr_completed run" d d1 m env log]
          by (simp add: r_into_rtranclp)
      qed
    next
      case True
      obtain s x where call: "call_panel env run action p d (map snd log) = (s, x)" by fastforce
      let ?log = "log @ map (Pair ?k) (drop (length log) s)"
      have first: "hosting_step env (d, (?k, Waiting) # A, log) (d, (?k, Called x) # A, ?log)"
        using called [of ?k "(?k, Waiting) # A" env run action p d log s x d] call by simp
      have second: "hosting_steps env (d, (?k, Called x) # A, ?log) (d', A, ?log)" and s: "sent = s"
      proof -
        have "hosting_steps env (d, (?k, Called x) # A, ?log) (d', A, ?log) \<and> sent = s"
        proof (cases x)
          case (Inl e)
          then obtain r' where "fail_job q (normalized e) (hr_failed run) d = (d', r')" "sent = s"
            using assms readable True call by (auto simp: carry_out_def split: prod.splits)
          then show ?thesis using fail_job_steps [of q _ _ d d' r' "Called x"] Inl by simp
        next
          case (Inr acct)
          obtain d1 y where run': "run_tx (complete ?k action p acct (hr_completed run)) d = (d1, y)" by fastforce
          show ?thesis
          proof (cases y)
            case (Inl e)
            then have "d1 = d" using run' by (auto simp: run_tx_def split: sum.splits)
            then obtain e' r' where "fst e' = Panel_INCONSISTENT" "fail_job q e' (hr_failed run) d = (d', r')" "sent = s"
              using assms readable True call Inr Inl run' by (auto simp: carry_out_def split: prod.splits)
            then show ?thesis using fail_job_steps [of q e' _ d d' r' "Called x"] Inr by simp
          next
            case committed: (Inr u)
            then have "complete ?k action p acct (hr_completed run) d = Inr (d1, u)" "d' = d1" "sent = s"
              using assms readable True call Inr run' by (auto simp: carry_out_def run_tx_def split: sum.splits)
            then show ?thesis
              using completed [of ?k acct "(?k, Called x) # A" action p "hr_completed run" d d1 u env ?log] Inr
              by (simp add: r_into_rtranclp)
          qed
        qed
        then show "hosting_steps env (d, (?k, Called x) # A, ?log) (d', A, ?log)" "sent = s" by blast+
      qed
      show ?thesis unfolding s by (rule converse_rtranclp_into_rtranclp [OF first second])
    qed
  qed
qed

lemma resume_steps:
  assumes "resume env run action p q fresh d (map snd log) = (d', sent, r)"
    and "fresh \<Longrightarrow> op_status q = Op_RUNNING"
  shows "hosting_steps env (d, (if fresh then (op_id q, Waiting) # A else A), log)
    (d', A, log @ map (Pair (op_id q)) (drop (length log) sent))"
proof (cases fresh)
  case True
  then show ?thesis using assms carry_out_steps by (simp add: resume_def)
next
  case False
  then consider "d' = d" "sent = map snd log"
    | x where "fail_job q (Panel_INCONSISTENT, ''HOSTING_AUTOMATION_RESULT_UNKNOWN'') (hr_failed run) d = (d', x)"
        "sent = map snd log"
    using assms(1) by (auto simp: resume_def split: if_splits prod.splits)
  then show ?thesis
  proof cases
    case 1
    then show ?thesis using False by simp
  next
    case 2
    then consider "d' = d"
      | n m where "fail (op_id q) n Panel_INCONSISTENT ''HOSTING_AUTOMATION_RESULT_UNKNOWN'' (hr_failed run) d = Inr (d', m)"
      by (auto simp: fail_job_def run_tx_def split: sum.splits prod.splits)
    then show ?thesis
      using 2(2) False uncertain by cases (simp_all add: r_into_rtranclp)
  qed
qed

lemma process_hosting_cases:
  assumes "process_hosting env run data (d, log) = ((d', log'), r)"
  obtains (idle) "d' = d" and "log' = log"
  | (settled) action p where "prepare env action p (jd_outboxEventId data) (hr_prepare run) d = Inr (d', None)"
      and "log' = log"
  | (resumed) action p q fresh d1 sent where "job_payload (he_env env) data d = Inr p"
      and "prepare env action p (jd_outboxEventId data) (hr_prepare run) d = Inr (d1, Some (q, fresh))"
      and "resume env run action p q fresh d1 (map snd log) = (d', sent, r)"
      and "log' = log @ map (Pair (op_id q)) (drop (length log) sent)"
      and "automation_action_of (jd_eventType data) = Inr action"
proof (cases "rbind (automation_action_of (jd_eventType data)) (\<lambda>action.
    rbind (job_payload (he_env env) data d) (\<lambda>payload. Inr (action, payload)))")
  case (Inl e)
  then show ?thesis using assms by (intro idle) (simp_all add: process_hosting_def)
next
  case (Inr x)
  obtain action p where x: "x = (action, p)" by (cases x)
  have payload: "job_payload (he_env env) data d = Inr p" "automation_action_of (jd_eventType data) = Inr action"
    using Inr by (auto simp: x result_simps)
  show ?thesis
  proof (cases "prepare env action p (jd_outboxEventId data) (hr_prepare run) d")
    case (Inl e)
    then show ?thesis using assms Inr by (intro idle) (simp_all add: process_hosting_def x)
  next
    case prepared: (Inr y)
    obtain d1 z where y: "y = (d1, z)" by (cases y)
    show ?thesis
    proof (cases z)
      case None
      then show ?thesis using assms Inr prepared by (intro settled) (simp_all add: process_hosting_def x y)
    next
      case (Some w)
      obtain q fresh where w: "w = (q, fresh)" by (cases w)
      obtain d2 sent r2 where s: "resume env run action p q fresh d1 (map snd log) = (d2, sent, r2)"
        by (metis surj_pair)
      then show ?thesis
        using assms Inr prepared payload Some
        by (intro resumed [of p action d1 q fresh sent]) (simp_all add: process_hosting_def x y w)
    qed
  qed
qed

lemma process_hosting_steps:
  assumes "process_hosting env run data (d, log) = ((d', log'), r)"
  shows "hosting_steps env (d, A, log) (d', A, log')"
proof -
  show ?thesis
    using assms
  proof (cases rule: process_hosting_cases)
    case idle
    then show ?thesis by simp
  next
    case (settled action p)
    then show ?thesis using hosting_step.settled by (simp add: r_into_rtranclp)
  next
    case (resumed action p q fresh d1 sent)
    have opened: "hosting_steps env (d, A, log) (d1, (if fresh then (op_id q, Waiting) # A else A), log)"
    proof (cases fresh)
      case True
      then show ?thesis
        using hosting_step.opened [OF job_payload_valid [OF resumed(1)]] resumed(2) by (simp add: r_into_rtranclp)
    next
      case False
      from resumed(2) have "d1 = d"
      proof (cases rule: prepare_cases)
        case (opened s sv userId)
        from opened(3) show ?thesis by (cases rule: open_operation_cases) (use False in auto)
      qed simp_all
      then show ?thesis using False by simp
    qed
    have "op_status q = Op_RUNNING" if fresh
      using resumed(2) that prepare_running by auto
    then have "hosting_steps env (d1, (if fresh then (op_id q, Waiting) # A else A), log) (d', A, log')"
      using resume_steps [OF resumed(3)] resumed(4) by simp
    with opened show ?thesis by (rule rtranclp_trans)
  qed
qed


text \<open>
  C32: processing a hosting job, whatever it is and however it ends, is a run of the steps above, so
  that what is shown of the steps holds of any number of jobs.
\<close>

theorem process_hosting_refines:
  assumes "process_hosting env run data (d, log) = ((d', log'), r)"
  shows "hosting_steps env (d, A, log) (d', A, log')"
  by (rule process_hosting_steps [OF assms])

section \<open>Witnesses\<close>

theorem process_hosting_refines_witness:
  "case process_hosting (hosting_sample_env obedient_panel) hosting_clock suspension_job (hosting_db, []) of
     ((d', log'), r) \<Rightarrow> r = Inr () \<and>
       hosting_steps (hosting_sample_env obedient_panel) (hosting_db, [], []) (d', [], log')"
proof -
  let ?env = "hosting_sample_env obedient_panel"
  obtain d' log' r where run: "process_hosting ?env hosting_clock suspension_job (hosting_db, []) = ((d', log'), r)"
    by (metis surj_pair)
  have "case snd (process_hosting ?env hosting_clock suspension_job (hosting_db, [])) of Inr _ \<Rightarrow> True | Inl _ \<Rightarrow> False"
    by code_simp
  then show ?thesis using process_hosting_refines [OF run] by (simp add: run split: sum.splits)
qed

definition delivered_twice :: "db \<times> hosting_log" where
  \<comment> \<open>a job is delivered, fails because an answer was lost, and is retried\<close>
  "delivered_twice =
     fst (process_hosting (hosting_sample_env silent_panel) hosting_clock suspension_job
       (fst (process_hosting (hosting_sample_env silent_panel) hosting_clock suspension_job (hosting_db, []))))"

definition two_mutations :: "db \<times> hosting_log \<Rightarrow> bool" where
  "two_mutations S =
     (case d_operations (fst S) of
        [p, q] \<Rightarrow>
          (case snd S of
             [kx, ly] \<Rightarrow> fst kx = op_id p \<and> fst ly = op_id q \<and> is_mutation (snd kx) \<and> is_mutation (snd ly) \<and>
               prefix (operation_key SUSPEND (Renewal_Job hosted_id bill_id run_id)) (op_idempotencyKey p) \<and>
               prefix (operation_key SUSPEND (Renewal_Job hosted_id bill_id run_id)) (op_idempotencyKey q) \<and>
               op_attemptNumber p = 1 \<and> op_attemptNumber q = 2
           | _ \<Rightarrow> False)
      | _ \<Rightarrow> False)"

theorem panel_mutated_once_witness:
  "case delivered_twice of
     (d, log) \<Rightarrow> \<exists>p q x y. p \<in> set (d_operations d) \<and> q \<in> set (d_operations d) \<and> p \<noteq> q \<and>
       (op_id p, x) \<in> set log \<and> is_mutation x \<and> (op_id q, y) \<in> set log \<and> is_mutation y \<and>
       length (mutations (op_id p) log) = 1 \<and> op_attemptNumber p < op_attemptNumber q \<and> answer_lost x"
proof -
  let ?env = "hosting_sample_env silent_panel" and ?p = "Renewal_Job hosted_id bill_id run_id"
  obtain d1 log1 r1 where 1: "process_hosting ?env hosting_clock suspension_job (hosting_db, []) = ((d1, log1), r1)"
    by (metis surj_pair)
  obtain d log r where 2: "process_hosting ?env hosting_clock suspension_job (d1, log1) = ((d, log), r)"
    by (metis surj_pair)
  have final: "delivered_twice = (d, log)" by (simp add: delivered_twice_def 1 2)
  have steps: "hosting_steps ?env (hosting_db, [], []) (d, [], log)"
    using process_hosting_steps [OF 1] process_hosting_steps [OF 2] by (rule rtranclp_trans)
  have "two_mutations delivered_twice" by code_simp
  then obtain p q x y where rows: "d_operations d = [p, q]" "log = [(op_id p, x), (op_id q, y)]"
    and mut: "is_mutation x" "is_mutation y"
    and key: "prefix (operation_key SUSPEND ?p) (op_idempotencyKey p)" "prefix (operation_key SUSPEND ?p) (op_idempotencyKey q)"
    and att: "op_attemptNumber p = 1" "op_attemptNumber q = 2"
    by (auto simp: final two_mutations_def split: list.splits prod.splits)
  have uuid: "env_uuid (he_env ?env) s \<Longrightarrow> length s = 36" for s by (simp add: hosting_sample_env_def)
  have valid: "payload_valid ?env ?p"
    by (simp add: payload_valid_def hosting_sample_env_def hosted_id_def bill_id_def)
  have none: "automation_rows hosting_db = []" by (simp add: automation_rows_def hosting_db_def empty_db_def)
  have "length (mutations (op_id p) log) = 1 \<and> (p = q \<or> op_attemptNumber p < op_attemptNumber q \<and> answer_lost x \<or>
     op_attemptNumber q < op_attemptNumber p \<and> answer_lost y)"
    by (rule panel_mutated_once [OF uuid none steps _ _ key valid _ mut(1) _ mut(2)]) (simp_all add: rows)
  moreover have "p \<noteq> q" using att by auto
  ultimately have "p \<in> set (d_operations d) \<and> q \<in> set (d_operations d) \<and> p \<noteq> q \<and>
       (op_id p, x) \<in> set log \<and> is_mutation x \<and> (op_id q, y) \<in> set log \<and> is_mutation y \<and>
       length (mutations (op_id p) log) = 1 \<and> op_attemptNumber p < op_attemptNumber q \<and> answer_lost x"
    using mut att by (simp add: rows)
  then show ?thesis unfolding final prod.case by blast
qed

end
