(* ===== verification/Hosting_Changes.thy ===== *)
theory Hosting_Changes
  imports Hosting_Steps
begin

text \<open>
  What a hosting job does to the database: which status it may give to a service and why, what the
  panel has answered then, and how a failure is recorded.
\<close>

section \<open>What a job does to a service\<close>

lemma find_update_many_kept:
  "(\<And>x. key (f x) = key x) \<Longrightarrow>
   List.find (\<lambda>x. key x = k) (update_many P f xs) = map_option (\<lambda>x. if P x then f x else x) (List.find (\<lambda>x. key x = k) xs)"
  by (induction xs) auto

lemma service_after_id [simp]: "s_id (service_after action p now s) = s_id s"
  by (simp add: service_after_def split: automation_action.splits)

lemma prepare_frame:
  assumes "prepare env action p ev now d = Inr (d', Some x)"
  shows "\<exists>ops n. d' = d\<lparr>d_operations := ops, d_supply := n\<rparr>"
  using assms
proof (cases rule: prepare_cases)
  case (answered q)
  then show ?thesis by (intro exI [of _ "d_operations d"] exI [of _ "d_supply d"]) simp
next
  case (opened s sv userId)
  from opened(3) show ?thesis
  proof (cases rule: open_operation_cases)
    case (existing q)
    then show ?thesis by (intro exI [of _ "d_operations d"] exI [of _ "d_supply d"]) simp
  next
    case (retried q0 q)
    from retried(5) show ?thesis by (rule create_operation_cases) blast
  next
    case (first q)
    from first(2) show ?thesis by (rule create_operation_cases) blast
  qed
qed simp

lemma fail_job_frame: "fail_job p e now d = (d', r) \<Longrightarrow> \<exists>ops. d' = d\<lparr>d_operations := ops\<rparr>"
proof -
  assume "fail_job p e now d = (d', r)"
  then consider "d' = d" | n where "fail (op_id p) (op_attemptNumber p) (fst e) (snd e) now d = Inr (d', n)"
    by (auto simp: fail_job_def run_tx_def split: sum.splits prod.splits)
  then show ?thesis
  proof cases
    case 1
    then show ?thesis by (intro exI [of _ "d_operations d"]) simp
  next
    case 2
    then show ?thesis unfolding fail_def by (cases rule: update_operations_cases) blast
  qed
qed

lemma completeSkipped_frame: "completeSkipped k action p now d = Inr (d', n) \<Longrightarrow> \<exists>ops. d' = d\<lparr>d_operations := ops\<rparr>"
  unfolding completeSkipped_def by (cases rule: update_operations_cases) blast+

lemma finishCancellation_cases:
  assumes "finishCancellation s k now d = Inr (d', u)"
  obtains a where "d' = log_activity a (d\<lparr>d_cancellations :=
        update_many (\<lambda>h. h_id h = k \<and> h_serviceId h = s \<and> h_status h = Can_OPEN) (completed_row now) (d_cancellations d)\<rparr>)"
    and "count_where (\<lambda>h. h_id h = k \<and> h_serviceId h = s \<and> h_status h = Can_OPEN) (d_cancellations d) = 1"
  using assms by (auto simp: finishCancellation_def update_cancellations_def result_simps split: if_splits)

lemma complete_effect:
  assumes "complete k action p acct now d = Inr (d', u)"
  shows "d_services d' = update_many (service_matches action p) (service_after action p now) (d_services d)"
    and "count_where (service_matches action p) (d_services d) = 1"
    and "d_cancellations d' = (case payload_cancellation p of None \<Rightarrow> d_cancellations d
          | Some h \<Rightarrow> update_many (\<lambda>c. h_id c = h \<and> h_serviceId c = payload_service p \<and> h_status c = Can_OPEN)
                        (completed_row now) (d_cancellations d))"
proof -
  from assms have "d_services d' = update_many (service_matches action p) (service_after action p now) (d_services d) \<and>
    count_where (service_matches action p) (d_services d) = 1 \<and>
    d_cancellations d' = (case payload_cancellation p of None \<Rightarrow> d_cancellations d
          | Some h \<Rightarrow> update_many (\<lambda>c. h_id c = h \<and> h_serviceId c = payload_service p \<and> h_status c = Can_OPEN)
                        (completed_row now) (d_cancellations d))"
  proof (cases rule: complete_cases)
    case (1 d1 d2 d3 d4)
    have d1: "d1 = d\<lparr>d_services := update_many (service_matches action p) (service_after action p now) (d_services d)\<rparr>"
      "count_where (service_matches action p) (d_services d) = 1"
      using 1(1) by (auto simp: update_services_def split: if_splits)
    have d2: "d_services d2 = d_services d1 \<and> d_cancellations d2 = (case payload_cancellation p of None \<Rightarrow> d_cancellations d1
          | Some h \<Rightarrow> update_many (\<lambda>c. h_id c = h \<and> h_serviceId c = payload_service p \<and> h_status c = Can_OPEN)
                        (completed_row now) (d_cancellations d1))"
      using 1(2) by (auto elim!: finishCancellation_cases simp: log_activity_def split: option.splits)
    have "d_services d3 = d_services d2 \<and> d_cancellations d3 = d_cancellations d2"
      using 1(3) by (auto simp: update_operation_def result_simps elim!: update_operations_cases split: if_splits)
    moreover have "d_services d4 = d_services d3 \<and> d_cancellations d4 = d_cancellations d3"
      using 1(4) by (auto simp: create_outbox_def split: if_splits)
    moreover have "d_services d' = d_services d4 \<and> d_cancellations d' = d_cancellations d4"
      by (simp add: 1(5) complete_log_def log_activity_def)
    ultimately show ?thesis using d1 d2 by (simp split: option.splits)
  qed
  then show "d_services d' = update_many (service_matches action p) (service_after action p now) (d_services d)"
    and "count_where (service_matches action p) (d_services d) = 1"
    and "d_cancellations d' = (case payload_cancellation p of None \<Rightarrow> d_cancellations d
          | Some h \<Rightarrow> update_many (\<lambda>c. h_id c = h \<and> h_serviceId c = payload_service p \<and> h_status c = Can_OPEN)
                        (completed_row now) (d_cancellations d))" by blast+
qed

lemma carry_out_cases:
  assumes "carry_out env run action p q d sent = (d', sent', r)"
  obtains (kept) ops where "d' = d\<lparr>d_operations := ops\<rparr>"
  | (changed) acct u where "eligible action p (hr_eligible run) d"
      and "call_panel env run action p d sent = (sent', Inr acct)"
      and "complete (op_id q) action p acct (hr_completed run) d = Inr (d', u)" and "r = Inr ()"
proof (cases "hr_eligibleFails run \<or> \<not> eligible action p (hr_eligible run) d")
  case True
  then consider e where "fail_job q e (hr_failed run) d = (d', r)"
    | n where "completeSkipped (op_id q) action p (hr_completed run) d = Inr (d', n)"
    using assms by (auto simp: carry_out_def run_tx_def split: prod.splits sum.splits if_splits)
  then show ?thesis using kept fail_job_frame completeSkipped_frame by cases blast+
next
  case False
  obtain s x where call: "call_panel env run action p d sent = (s, x)" by fastforce
  show ?thesis
  proof (cases x)
    case (Inl e)
    then have "fail_job q (normalized e) (hr_failed run) d = (d', r)"
      using assms False call by (auto simp: carry_out_def split: prod.splits)
    then show ?thesis using kept fail_job_frame by blast
  next
    case (Inr acct)
    obtain d1 y where run': "run_tx (complete (op_id q) action p acct (hr_completed run)) d = (d1, y)" by fastforce
    show ?thesis
    proof (cases y)
      case (Inl e)
      then have "d1 = d" using run' by (auto simp: run_tx_def split: sum.splits)
      then obtain e' where "fail_job q e' (hr_failed run) d = (d', r)"
        using assms False call Inr Inl run' by (auto simp: carry_out_def split: prod.splits)
      then show ?thesis using kept fail_job_frame by blast
    next
      case (Inr u)
      then show ?thesis
        using assms False call \<open>x = Inr acct\<close> run'
        by (intro changed [of acct u]) (auto simp: carry_out_def run_tx_def split: sum.splits)
    qed
  qed
qed


definition panel_reports :: "server \<Rightarrow> service \<Rightarrow> panel_state \<Rightarrow> exchange \<Rightarrow> bool" where
  \<comment> \<open>the panel's own summary of the service's account shows the state\<close>
  "panel_reports sv s state x \<longleftrightarrow>
     wr_hostname (fst x) = sv_hostname sv \<and> wr_operation (fst x) = ''accountsummary'' \<and>
     (\<exists>v username host. s_controlPanelUsername s = Some username \<and> s_domain s = Some host \<and>
        wr_parameters (fst x) = [(''user'', username)] \<and>
        read_answer False (snd x) = Inr v \<and> accountFromSummary v = Some (username, js_lower host, state))"

lemma whmCall_ok:
  assumes "whmCall env sv token operation ps m sent = (sent', Inr v)"
  obtains x where "sent' = sent @ [x]" and "wr_hostname (fst x) = sv_hostname sv"
    and "wr_operation (fst x) = operation" and "wr_parameters (fst x) = ps" and "read_answer m (snd x) = Inr v"
  using assms by (auto simp: whmCall_def Let_def split: option.splits if_splits)

lemma verify_account_ok:
  assumes "verify_account env sv token externalId username host sent = (sent', Inr acct)"
  obtains x v where "sent' = sent @ [x]" and "wr_hostname (fst x) = sv_hostname sv"
    and "wr_operation (fst x) = ''accountsummary''" and "wr_parameters (fst x) = [(''user'', username)]"
    and "read_answer False (snd x) = Inr v"
    and "accountFromSummary v = Some (username, js_lower host, pa_state acct)"
proof -
  obtain s r where call: "whmCall env sv token ''accountsummary'' [(''user'', username)] False sent = (s, r)"
    by fastforce
  then obtain v where v: "r = Inr v" "s = sent'" "accountFromSummary v = Some (username, js_lower host, pa_state acct)"
    using assms by (auto simp: verify_account_def Let_def split: sum.splits option.splits if_splits)
  show ?thesis using call unfolding v(1,2) by (rule whmCall_ok) (use v(3) that in blast)
qed

lemma service_identity_Some:
  "service_identity so = Some (s, username, externalId, host) \<Longrightarrow>
   so = Some s \<and> s_controlPanelUsername s = Some username \<and> s_domain s = Some host"
  by (auto simp: service_identity_def split: option.splits if_splits)

lemma mutatePanel_ok:
  assumes "mutatePanel env action k c d sent = (sent', Inr acct)" and "find_service k d = Some s"
    and "find_server (s_serverId s) d = Some sv" and "sv_adapterKey sv \<noteq> ''fake-panel''"
  shows "\<exists>pre x. sent' = sent @ pre @ [x] \<and> panel_reports sv s (pa_state acct) x"
proof -
  obtain username externalId host where id: "service_identity (Some s) = Some (s, username, externalId, host)"
    using assms(1,2) by (auto simp: mutatePanel_def dest: service_identity_Some split: option.splits)
  obtain token s1 v where
    call: "whmCall env sv token (mutation_name action) (mutation_parameters action username c) True sent = (s1, Inr v)"
    and verify: "verify_account env sv token externalId username host s1 = (sent', Inr acct)"
    using assms id by (auto simp: mutatePanel_def split: sum.splits prod.splits if_splits)
  obtain y where y: "s1 = sent @ [y]" using call by (rule whmCall_ok) blast
  from verify show ?thesis
  proof (rule verify_account_ok)
    fix x v
    assume "sent' = s1 @ [x]" "wr_hostname (fst x) = sv_hostname sv" "wr_operation (fst x) = ''accountsummary''"
      "wr_parameters (fst x) = [(''user'', username)]" "read_answer False (snd x) = Inr v"
      "accountFromSummary v = Some (username, js_lower host, pa_state acct)"
    then show ?thesis using y service_identity_Some [OF id]
      by (intro exI [of _ "[y]"] exI [of _ x]) (auto simp: panel_reports_def)
  qed
qed

lemma call_panel_ok:
  assumes "call_panel env run action p d sent = (sent', Inr acct)"
    and "find_service (payload_service p) d = Some s"
    and "find_server (s_serverId s) d = Some sv" and "sv_adapterKey sv \<noteq> ''fake-panel''"
  shows "\<exists>pre x. sent' = sent @ pre @ [x] \<and> panel_reports sv s (wanted_state action) x"
proof -
  have "mutatePanel env action (payload_service p) (payload_cancellation p \<noteq> None) d sent = (sent', Inr acct)"
    and "pa_state acct = wanted_state action"
    using assms(1) by (auto simp: call_panel_def Let_def result_simps split: prod.splits if_splits)
  then show ?thesis using mutatePanel_ok assms(2-4) by metis
qed

definition change_justified ::
    "hosting_run \<Rightarrow> automation_payload \<Rightarrow> service \<Rightarrow> service \<Rightarrow> db \<Rightarrow> db \<Rightarrow> bool" where
  \<comment> \<open>why the job may change the status of the service\<close>
  "change_justified run p s s' d d' \<longleftrightarrow>
     (case p of
        Renewal_Job k i r \<Rightarrow>
          (\<exists>bill. find_invoice i d = Some bill \<and> invoice_for_service bill k \<and>
             (s_status s = Svc_ACTIVE \<and> s_status s' = Svc_SUSPENDED \<and> s_suspensionInvoiceId s' = Some i \<and>
              i_status bill = Inv_OVERDUE \<and> 0 < i_balanceDue bill \<or>
              s_status s = Svc_SUSPENDED \<and> s_status s' = Svc_ACTIVE \<and> s_suspensionInvoiceId s = Some i \<and>
              i_status bill = Inv_PAID \<and> i_balanceDue bill = 0 \<and> \<not> reactivation_barred k (hr_eligible run) d))
      | Cancellation_Job k h \<Rightarrow>
          s_status s = Svc_ACTIVE \<and> s_status s' = Svc_SUSPENDED \<and> s_suspensionInvoiceId s' = None \<and>
          (\<exists>c \<in> set (d_cancellations d). h_id c = h \<and> h_serviceId c = k \<and> h_status c = Can_OPEN \<and>
             (case h_effectiveAt c of
                Some t \<Rightarrow> t \<le> hr_prepare run \<and> s_nextDueAt s \<le> t
              | None \<Rightarrow> (\<exists>t. h_approvedAt c = Some t \<and> t \<le> hr_prepare run)) \<and>
             completed_row (hr_completed run) c \<in> set (d_cancellations d')))"

lemma prepare_cancellation_proceeds:
  assumes "prepare_cancellation p h ev now running s d = Inr Proceed"
  obtains c where "c \<in> set (d_cancellations d)" and "h_id c = h" and "h_serviceId c = s_id s" and "h_status c = Can_OPEN"
    and "case h_effectiveAt c of Some t \<Rightarrow> t \<le> now \<and> s_nextDueAt s \<le> t
         | None \<Rightarrow> (\<exists>t. h_approvedAt c = Some t \<and> t \<le> now)"
    and "s_status s = Svc_ACTIVE"
proof -
  obtain c where c: "List.find (\<lambda>c. h_id c = h \<and> h_serviceId c = s_id s \<and> h_status c = Can_OPEN) (d_cancellations d) = Some c"
    using assms by (auto simp: prepare_cancellation_def split: option.splits)
  have "in_job (\<lambda>(d1, _). Settled d1) x \<noteq> Inr Proceed" for x :: "api_error + db \<times> unit"
    by (cases x) (auto simp: in_job_def)
  then have "case h_effectiveAt c of Some t \<Rightarrow> t \<le> now \<and> s_nextDueAt s \<le> t
         | None \<Rightarrow> (\<exists>t. h_approvedAt c = Some t \<and> t \<le> now)" and "s_status s = Svc_ACTIVE"
    using assms c by (auto simp: prepare_cancellation_def split: option.splits if_splits)
  with find_Some_D [OF c] that show ?thesis by blast
qed

lemma prepare_proceeds:
  assumes "prepare env action p ev now d = Inr (d', Some (q, fresh))" and "payload_cancellation p = Some h"
  shows "\<exists>s running. find_service (payload_service p) d = Some s \<and> prepare_cancellation p h ev now running s d = Inr Proceed"
  using assms(1)
proof (cases rule: prepare_cases)
  case (opened s sv userId)
  then show ?thesis using assms(2) by blast
qed (use assms(2) in simp_all)


lemma resume_cases:
  assumes "resume env run action p q fresh d sent = (d', sent', r)"
  obtains (kept) ops where "d' = d\<lparr>d_operations := ops\<rparr>"
  | (changed) acct u where "eligible action p (hr_eligible run) d"
      and "call_panel env run action p d sent = (sent', Inr acct)"
      and "complete (op_id q) action p acct (hr_completed run) d = Inr (d', u)" and "r = Inr ()"
proof -
  consider (same) "d' = d" | (failed) e x where "fail_job q e (hr_failed run) d = (d', x)"
    | (carried) "carry_out env run action p q d sent = (d', sent', r)"
    using assms by (auto simp: resume_def split: if_splits prod.splits)
  then show ?thesis
  proof cases
    case same
    then show ?thesis by (intro kept [of "d_operations d"]) simp
  next
    case failed
    then show ?thesis using fail_job_frame kept by blast
  next
    case carried
    then show ?thesis by (cases rule: carry_out_cases) (use kept changed in blast)+
  qed
qed

lemma prepare_cancellation_settles:
  assumes "prepare_cancellation p h ev now running s d = Inr (Settled d')"
  shows "d_services d' = d_services d \<or> d_services d' = d_services (suspension_released now (s_id s) d)"
  using assms
  by (auto simp: prepare_cancellation_def rescheduled_def deferCancellation_def create_outbox_skip_def
      update_cancellation_def log_activity_def result_simps in_job_def create_outbox_def
      elim!: finishCancellation_cases
      split: option.splits if_splits sum.splits prod.splits)

lemma eligible_invoice:
  assumes "eligible action (Renewal_Job k i r) now d"
  obtains s bill where "find_service k d = Some s" and "find_invoice i d = Some bill" and "invoice_for_service bill k"
    and "case action of SUSPEND \<Rightarrow> s_status s = Svc_ACTIVE \<and> i_status bill = Inv_OVERDUE \<and> 0 < i_balanceDue bill
         | UNSUSPEND \<Rightarrow> s_status s = Svc_SUSPENDED \<and> s_suspensionInvoiceId s = Some i \<and>
             i_status bill = Inv_PAID \<and> i_balanceDue bill = 0 \<and> \<not> reactivation_barred k now d"
proof -
  obtain s bill where sb: "find_service k d = Some s" "find_invoice i d = Some bill"
    using assms by (auto simp: eligible_def Let_def split: option.splits)
  have "s_id s = k" "i_id bill = i"
    using sb by (auto simp: find_service_def find_invoice_def dest: find_Some_D)
  then show ?thesis
    using assms sb by (intro that [OF sb]) (auto simp: eligible_def Let_def split: automation_action.splits if_splits)
qed

lemma parse_payload_action:
  "automation_action_of t = Inr action \<Longrightarrow> parse_payload env t j = Some (Cancellation_Job k h) \<Longrightarrow> action = SUSPEND"
  by (auto simp: automation_action_of_def parse_payload_def split: if_splits)

lemma process_hosting_change:
  assumes run: "process_hosting env run data (d, log) = ((d', log'), r)"
    and s: "find_service k d = Some s" and s': "find_service k d' = Some s'" and ne: "s_status s' \<noteq> s_status s"
  obtains action p q fresh d1 acct u where "automation_action_of (jd_eventType data) = Inr action"
    and "job_payload (he_env env) data d = Inr p"
    and "prepare env action p (jd_outboxEventId data) (hr_prepare run) d = Inr (d1, Some (q, fresh))"
    and "eligible action p (hr_eligible run) d"
    and "\<exists>sent. call_panel env run action p d1 (map snd log) = (sent, Inr acct) \<and>
           log' = log @ map (Pair (op_id q)) (drop (length log) sent)"
    and "complete (op_id q) action p acct (hr_completed run) d1 = Inr (d', u)" and "r = Inr ()"
    and "\<exists>ops n. d1 = d\<lparr>d_operations := ops, d_supply := n\<rparr>"
  using run
proof (cases rule: process_hosting_cases)
  case idle
  then show ?thesis using s s' ne by simp
next
  case (settled action p)
  from settled(1) show ?thesis
  proof (cases rule: prepare_cases)
    case (settled h x)
    have "\<exists>y. find_service k d' = Some y \<and> s_status y = s_status s"
      using prepare_cancellation_settles [OF settled(3)] s
      by (auto simp: find_service_def suspension_released_def find_update_many_kept [where key = s_id])
    then show ?thesis using s' ne by simp
  next
    case (opened x sv userId)
    from opened(3) show ?thesis by (cases rule: open_operation_cases) simp_all
  qed simp
next
  case (resumed action p q fresh d1 sent)
  obtain ops n where d1: "d1 = d\<lparr>d_operations := ops, d_supply := n\<rparr>" using prepare_frame [OF resumed(2)] by blast
  then have same: "find_service k d1 = Some s" using s by (simp add: find_service_def)
  from resumed(3) show ?thesis
  proof (cases rule: resume_cases)
    case (kept ops')
    then have "find_service k d' = find_service k d1" by (simp add: find_service_def)
    then show ?thesis using same s' ne by simp
  next
    case (changed acct u)
    have "find_service x d1 = find_service x d" "find_invoice x d1 = find_invoice x d"
      "reactivation_barred x t d1 = reactivation_barred x t d" for x t
      by (simp_all add: reactivation_barred_def find_service_def find_invoice_def d1)
    then have "eligible action p (hr_eligible run) d" using changed(1) by (simp only: eligible_def)
    then show ?thesis
      using that [OF resumed(5,1,2)] changed(2-4) resumed(4) d1 by blast
  qed
qed

lemma service_status_after:
  assumes "complete k action p acct now d = Inr (d', u)" and s: "find_service sid d = Some s"
    and s': "find_service sid d' = Some s'" and ne: "s_status s' \<noteq> s_status s"
  shows "payload_service p = sid \<and> service_matches action p s \<and> s' = service_after action p now s"
proof -
  have "s' = (if service_matches action p s then service_after action p now s else s)"
    using s s' complete_effect(1) [OF assms(1)]
    by (simp add: find_service_def find_update_many_kept [where key = s_id])
  moreover have "s_id s = sid" using s by (auto simp: find_service_def dest: find_Some_D)
  ultimately show ?thesis using ne by (auto simp: service_matches_def split: if_splits)
qed

lemma renewal_change_justified:
  assumes "eligible action (Renewal_Job k i j) (hr_eligible run) d" and "find_service k d = Some s"
  shows "change_justified run (Renewal_Job k i j) s (service_after action (Renewal_Job k i j) now s) d d'"
  using assms(1)
proof (rule eligible_invoice)
  fix t bill
  assume "find_service k d = Some t" and bill: "find_invoice i d = Some bill" "invoice_for_service bill k"
    "case action of SUSPEND \<Rightarrow> s_status t = Svc_ACTIVE \<and> i_status bill = Inv_OVERDUE \<and> 0 < i_balanceDue bill
     | UNSUSPEND \<Rightarrow> s_status t = Svc_SUSPENDED \<and> s_suspensionInvoiceId t = Some i \<and>
         i_status bill = Inv_PAID \<and> i_balanceDue bill = 0 \<and> \<not> reactivation_barred k (hr_eligible run) d"
  then have "t = s" using assms(2) by simp
  then show ?thesis using bill
    by (cases action) (auto simp: change_justified_def service_after_def)
qed

lemma cancellation_change_justified:
  assumes "prepare_cancellation (Cancellation_Job k h) h ev (hr_prepare run) running s d = Inr Proceed"
    and "find_service k d = Some s" and "d_cancellations d1 = d_cancellations d"
    and "complete o1 SUSPEND (Cancellation_Job k h) acct (hr_completed run) d1 = Inr (d', u)"
  shows "change_justified run (Cancellation_Job k h) s
    (service_after SUSPEND (Cancellation_Job k h) (hr_completed run) s) d d'"
  using assms(1)
proof (rule prepare_cancellation_proceeds)
  fix c
  assume c: "c \<in> set (d_cancellations d)" "h_id c = h" "h_serviceId c = s_id s" "h_status c = Can_OPEN"
    "case h_effectiveAt c of Some u \<Rightarrow> u \<le> hr_prepare run \<and> s_nextDueAt s \<le> u
     | None \<Rightarrow> (\<exists>u. h_approvedAt c = Some u \<and> u \<le> hr_prepare run)" "s_status s = Svc_ACTIVE"
  have sid: "s_id s = k" using assms(2) by (auto simp: find_service_def dest: find_Some_D)
  have "completed_row (hr_completed run) c \<in> set (d_cancellations d')"
    using c complete_effect(3) [OF assms(4)] assms(3) sid by (auto simp: mem_update_many)
  then show ?thesis
    using c sid by (auto simp: change_justified_def service_after_def intro!: bexI [of _ c])
qed

lemma panel_shown:
  assumes "call_panel env run action p d1 (map snd log) = (sent, Inr acct)"
    and "log' = log @ map (Pair o1) (drop (length log) sent)"
    and "find_service (payload_service p) d1 = Some s" and "find_server (s_serverId s) d1 = Some sv"
    and "sv_adapterKey sv \<noteq> ''fake-panel''"
  shows "panel_reports sv s (wanted_state action) (snd (last log'))"
proof -
  obtain pre x where "sent = map snd log @ pre @ [x]" "panel_reports sv s (wanted_state action) x"
    using call_panel_ok [OF assms(1)] assms(3-5) by metis
  then show ?thesis by (simp add: assms(2))
qed


section \<open>A temporary failure of the third attempt\<close>

lemma failed_check:
  assumes "operation_check p"
  shows "operation_check (failed_operation n Panel_TEMPORARY code now p) \<longleftrightarrow> n < MAX_AUTOMATION_ATTEMPTS"
  using assms by (auto simp: operation_check_def operation_evidence_check_def operation_requester_check_def failed_operation_def)

text \<open>
  C33: a temporary failure is recorded, and answered as one, for the first two attempts only. Of the
  third, the row would say that it is temporary and may not be retried, which the table refuses: the
  operation stays RUNNING, an unexpected error escapes, and every other renewal request for the service
  is answered that an operation is in progress.
\<close>

theorem temporary_failure_recorded:
  assumes "p \<in> set (d_operations d)" and "op_status p = Op_RUNNING" and "operation_check p"
    and "distinct (map op_id (d_operations d))"
  shows "fail_job p (Panel_TEMPORARY, code) now d =
      (if op_attemptNumber p < 3
       then (d\<lparr>d_operations := update_many (\<lambda>q. op_id q = op_id p)
               (failed_operation (op_attemptNumber p) Panel_TEMPORARY code now) (d_operations d)\<rparr>, Inl (Temporary code))
       else (d, Inl (Database_Error Check_Violation))) \<and>
    (3 \<le> op_attemptNumber p \<and> op_serviceId p = Some (payload_service payload) \<and>
     payload_cancellation payload = None \<and> \<not> prefix (operation_key action payload) (op_idempotencyKey p) \<and>
     map_option op_status (latest_operation (operation_key action payload) d) \<noteq> Some Op_SUCCEEDED \<longrightarrow>
     prepare env action payload ev later (fst (fail_job p (Panel_TEMPORARY, code) now d)) =
       Inl (Temporary ''HOSTING_OPERATION_IN_PROGRESS''))"
proof -
  let ?P = "\<lambda>q. op_id q = op_id p \<and> op_status q = Op_RUNNING" and ?n = "op_attemptNumber p"
  let ?f = "failed_operation ?n Panel_TEMPORARY code now"
  have only: "q = p" if "q \<in> set (d_operations d)" "op_id q = op_id p" for q
    using distinct_key_inj [OF assms(4) that(1) assms(1) that(2)] .
  have check: "list_ex (\<lambda>q. ?P q \<and> \<not> operation_check (?f q)) (d_operations d) \<longleftrightarrow> \<not> ?n < 3"
    using failed_check [OF assms(3), of ?n code now] assms(1,2) only
    by (auto simp: list_ex_iff MAX_AUTOMATION_ATTEMPTS_def)
  have rows: "update_many ?P ?f (d_operations d) = update_many (\<lambda>q. op_id q = op_id p) ?f (d_operations d)"
    using only assms(2) by (auto simp: update_many_def)
  have job: "fail_job p (Panel_TEMPORARY, code) now d =
      (if ?n < 3
       then (d\<lparr>d_operations := update_many (\<lambda>q. op_id q = op_id p) ?f (d_operations d)\<rparr>, Inl (Temporary code))
       else (d, Inl (Database_Error Check_Violation)))"
    using check rows by (simp add: fail_job_def fail_def update_operations_def run_tx_def)
  moreover have "prepare env action payload ev later d = Inl (Temporary ''HOSTING_OPERATION_IN_PROGRESS'')"
    if *: "op_serviceId p = Some (payload_service payload)" "payload_cancellation payload = None"
      "\<not> prefix (operation_key action payload) (op_idempotencyKey p)"
      "map_option op_status (latest_operation (operation_key action payload) d) \<noteq> Some Op_SUCCEEDED"
  proof -
    have "op_id p \<noteq> op_id q" if q: "latest_operation (operation_key action payload) d = Some q" for q
      using latest_operation_Some [OF q] only [of q] *(3) by auto
    then have "other_running (payload_service payload) (latest_operation (operation_key action payload) d) d"
      using assms(1,2) *(1) by (auto simp: other_running_def list_ex_iff split: option.splits)
    with * show ?thesis by (simp add: prepare_def Let_def)
  qed
  ultimately show ?thesis by simp
qed

section \<open>Witnesses\<close>


definition third_attempt :: hosting_operation where
  "third_attempt = \<lparr>op_id = ''o3'', op_serviceId = Some hosted_id, op_serverId = ''host'', op_requestedByUserId = None,
     op_automationRunId = Some run_id, op_retryOfOperationId = Some ''o2'', op_type = SUSPEND_ACCOUNT,
     op_status = Op_RUNNING, op_adapterKey = ''cpanel-whm'',
     op_idempotencyKey = attempt_key (operation_key SUSPEND (Renewal_Job hosted_id bill_id run_id)) 3,
     op_requestFingerprint = replicate 64 CHR ''0'', op_attemptNumber = 3, op_retryable = False,
     op_errorKind = None, op_errorCode = None, op_errorMessage = None, op_requestMetadata = None,
     op_resultMetadata = None, op_completedAt = None\<rparr>"

theorem temporary_failure_recorded_witness:
  "fail_job third_attempt (Panel_TEMPORARY, ''c'') 4 (hosting_db\<lparr>d_operations := [third_attempt]\<rparr>) =
     (hosting_db\<lparr>d_operations := [third_attempt]\<rparr>, Inl (Database_Error Check_Violation)) \<and>
   prepare (hosting_sample_env silent_panel) UNSUSPEND (Renewal_Job hosted_id bill_id run_id) ''e'' 9
     (hosting_db\<lparr>d_operations := [third_attempt]\<rparr>) = Inl (Temporary ''HOSTING_OPERATION_IN_PROGRESS'')"
proof -
  let ?d = "hosting_db\<lparr>d_operations := [third_attempt]\<rparr>" and ?p = "Renewal_Job hosted_id bill_id run_id"
  have 1: "third_attempt \<in> set (d_operations ?d)" "op_status third_attempt = Op_RUNNING"
    "distinct (map op_id (d_operations ?d))" "op_attemptNumber third_attempt = 3"
    "op_serviceId third_attempt = Some (payload_service ?p)" "payload_cancellation ?p = None"
    by (simp_all add: third_attempt_def)
  have 2: "operation_check third_attempt" by code_simp
  have 3: "\<not> prefix (operation_key UNSUSPEND ?p) (op_idempotencyKey third_attempt)"
    by (simp add: third_attempt_def operation_key_def attempt_key_def)
  then have "latest_operation (operation_key UNSUSPEND ?p) ?d = None" by (simp add: latest_operation_def)
  moreover have fail: "fail_job third_attempt (Panel_TEMPORARY, ''c'') 4 ?d = (?d, Inl (Database_Error Check_Violation))"
    using temporary_failure_recorded [OF 1(1,2) 2 1(3), of "''c''" 4 ?p UNSUSPEND "hosting_sample_env silent_panel" "''e''" 9] 1
    by simp
  ultimately have "prepare (hosting_sample_env silent_panel) UNSUSPEND ?p ''e'' 9 (fst (?d, Inl (Database_Error Check_Violation) :: job_error + unit)) =
      Inl (Temporary ''HOSTING_OPERATION_IN_PROGRESS'')"
    using temporary_failure_recorded [OF 1(1,2) 2 1(3), of "''c''" 4 ?p UNSUSPEND "hosting_sample_env silent_panel" "''e''" 9] 1 3
    unfolding fail by simp
  then show ?thesis using fail by simp
qed

end
