(* ===== verification/Services.thy ===== *)
theory Services
  imports Hosting_Changes
begin

text \<open>
  Services and their add-ons as the API manages them
  (\<^verbatim>\<open>apps/api/src/modules/services/service.service.ts\<close>,
  \<^verbatim>\<open>service-add-ons.service.ts\<close> and
  \<^verbatim>\<open>packages/database/src/fulfillment.ts\<close>): creation from a paid order, the status
  transitions of an administrator, the completion of the order behind a service, and the
  cancellation of an add-on's renewal by the customer.
\<close>

section \<open>The active panel adapter\<close>

definition hosting_adapter :: "json option \<Rightarrow> string option" where
  \<comment> \<open>\<open>activeProviderSettingsSchema\<close>: its adapter\<close>
  "hosting_adapter setting =
     Option.bind setting (\<lambda>j.
       case (str_field ''activeGateway'' j, str_field ''activeHostingPanelAdapter'' j) of
         (Some g, Some h) \<Rightarrow>
           if only_keys [''activeGateway'', ''activeHostingPanelAdapter''] j \<and>
              List.member [''manual'', ''bkash'', ''sslcommerz'', ''fake''] g \<and>
              List.member [''cpanel-whm'', ''fake-panel''] h
           then Some h else None
       | _ \<Rightarrow> None)"

definition activeHostingPanelAdapter :: "bool \<Rightarrow> db \<Rightarrow> string" where
  "activeHostingPanelAdapter production d =
     (case find_setting ''integration.active-providers'' d of
        None \<Rightarrow> if production then ''cpanel-whm'' else ''fake-panel''
      | Some v \<Rightarrow> (case hosting_adapter (Some v) of Some h \<Rightarrow> h | None \<Rightarrow> ''cpanel-whm''))"

section \<open>Orders and their fulfilment\<close>

definition find_order :: "uuid \<Rightarrow> db \<Rightarrow> order option" where
  "find_order k d = List.find (\<lambda>r. ord_id r = k) (d_orders d)"

definition find_order_item :: "uuid \<Rightarrow> db \<Rightarrow> order_item option" where
  "find_order_item k d = List.find (\<lambda>oi. oi_id oi = k) (d_orderItems d)"

definition service_of_item :: "uuid \<Rightarrow> db \<Rightarrow> service option" where
  "service_of_item k d = List.find (\<lambda>s. s_orderItemId s = Some k) (d_services d)"

definition items_of_order :: "uuid \<Rightarrow> db \<Rightarrow> order_item list" where
  "items_of_order orderId d = filter (\<lambda>oi. oi_orderId oi = orderId) (d_orderItems d)"

definition item_pending :: "db \<Rightarrow> order_item \<Rightarrow> bool" where
  \<comment> \<open>a hosting item without an active service, or an add-on that is not fulfilled\<close>
  "item_pending d oi \<longleftrightarrow>
     (oi_kind oi = Kind_HOSTING \<and> map_option s_status (service_of_item (oi_id oi) d) \<noteq> Some Svc_ACTIVE) \<or>
     (oi_kind oi = Kind_ADD_ON \<and> oi_fulfilledAt oi = None)"

definition links_existing_domain :: "order_item \<Rightarrow> bool" where
  "links_existing_domain oi \<longleftrightarrow>
     oi_kind oi = Kind_DOMAIN \<and>
     Option.bind (oi_provisioningSnapshot oi) (str_field ''adminDomainAction'') = Some ''EXISTING''"

definition registered_items :: "uuid list \<Rightarrow> db \<Rightarrow> nat" where
  "registered_items ids d =
     count_where (\<lambda>dm. (case dm_orderItemId dm of None \<Rightarrow> False | Some k \<Rightarrow> List.member ids k) \<and>
        dm_state dm = ''REGISTERED'') (rg_domains (d_registry d))"

definition linked_items :: "uuid list \<Rightarrow> db \<Rightarrow> nat" where
  "linked_items ids d =
     (let existing = filter (\<lambda>eo. List.member ids (eo_orderItemId eo)) (rg_existingOrders (d_registry d))
      in count_where (\<lambda>dm. List.member (map eo_domainId existing) (dm_id dm) \<and> dm_origin dm = ''EXISTING'' \<and>
           dm_state dm = ''REGISTERED'') (rg_domains (d_registry d)))"

definition orderFulfillmentComplete :: "uuid \<Rightarrow> db \<Rightarrow> bool" where
  "orderFulfillmentComplete orderId d =
     (let items = items_of_order orderId d
      in if items = [] then False
         else if list_ex (item_pending d) items then False
         else
           let domainIds = map oi_id (filter (\<lambda>oi. oi_kind oi = Kind_DOMAIN) items)
           in if domainIds = [] then True
              else registered_items domainIds d + linked_items (map oi_id (filter links_existing_domain items)) d
                   = length domainIds)"

definition update_order :: "uuid \<Rightarrow> order_status \<Rightarrow> (order \<Rightarrow> order) \<Rightarrow> instant \<Rightarrow> unit tx" where
  \<comment> \<open>\<open>order.update\<close> to a status, with the other columns that \<open>f\<close> writes\<close>
  "update_order k status f now d =
     (if find_order k d = None then Inl Record_Missing
      else if \<not> domain_order_guard k status d then Inl (Server_Error ''domain_order_guard'')
      else Inr (d\<lparr>d_orders := update_many (\<lambda>r. ord_id r = k)
                   (\<lambda>r. (f r)\<lparr>ord_status := status, ord_updatedAt := now\<rparr>) (d_orders d)\<rparr>, ()))"

definition complete_order :: "uuid \<Rightarrow> instant \<Rightarrow> unit tx" where
  \<comment> \<open>\<open>order.updateMany\<close> from PROCESSING to COMPLETED\<close>
  "complete_order k now d =
     (if map_option ord_status (find_order k d) \<noteq> Some Ord_PROCESSING then Inr (d, ())
      else update_order k Ord_COMPLETED (\<lambda>r. r\<lparr>ord_completedAt := Some now\<rparr>) now d)"

section \<open>Rows\<close>

definition hosting_mode_pinned :: "json option \<Rightarrow> bool" where
  "hosting_mode_pinned snapshot \<longleftrightarrow> Option.bind snapshot (jfield ''hostingProvisioningMode'') \<noteq> None"

definition service_insert_guard :: "service \<Rightarrow> db \<Rightarrow> bool" where
  \<comment> \<open>the triggers on new services: no domain is a hosting service, and the service keeps a snapshot
    of the order that pins its mode\<close>
  "service_insert_guard s d =
     (let item = Option.bind (s_orderItemId s) (\<lambda>k. find_order_item k d);
          source = Option.bind item oi_provisioningSnapshot
      in map_option oi_kind item \<noteq> Some Kind_DOMAIN \<and>
         \<not> list_ex (\<lambda>p. pr_id p = s_productId s \<and> pr_kind p = Kind_DOMAIN) (d_products d) \<and>
         (hosting_mode_pinned (s_provisioningSnapshot s) \<or> hosting_mode_pinned source \<longrightarrow>
            source = s_provisioningSnapshot s))"

definition account_taken :: "service \<Rightarrow> service list \<Rightarrow> bool" where
  \<comment> \<open>the unique index on the server and the external account\<close>
  "account_taken s ss \<longleftrightarrow>
     list_ex (\<lambda>t. s_id t \<noteq> s_id s \<and> s_serverId t = s_serverId s \<and> s_externalAccountId s \<noteq> None \<and>
                  s_externalAccountId t = s_externalAccountId s) ss"

definition create_service :: "service \<Rightarrow> uuid tx" where
  "create_service row d =
     (let k = fresh_uuid d; s = row\<lparr>s_id := k\<rparr>
      in if \<not> service_insert_guard s d then Inl (Server_Error ''service guard'')
         else if \<not> service_check s then Inl Check_Violation
         else if list_ex (\<lambda>t. s_id t = k \<or>
                 (s_orderItemId s \<noteq> None \<and> s_orderItemId t = s_orderItemId s)) (d_services d) \<or>
                 account_taken s (d_services d)
         then Inl Unique_Violation
         else Inr (d\<lparr>d_services := d_services d @ [s], d_supply := Suc (d_supply d)\<rparr>, k))"

definition update_service :: "uuid \<Rightarrow> (service \<Rightarrow> service) \<Rightarrow> instant \<Rightarrow> unit tx" where
  \<comment> \<open>\<open>service.update\<close>\<close>
  "update_service k f now d =
     (case find_service k d of
        None \<Rightarrow> Inl Record_Missing
      | Some s \<Rightarrow>
        if \<not> service_check (f s) then Inl Check_Violation
        else if account_taken (f s) (d_services d) then Inl Unique_Violation
        else Inr (d\<lparr>d_services := update_many (\<lambda>t. s_id t = k) (\<lambda>t. (f t)\<lparr>s_updatedAt := now\<rparr>) (d_services d)\<rparr>,
                  ()))"

section \<open>Creating a service\<close>

record create_service_input =
  cs_orderItemId :: uuid
  cs_serverId :: uuid

fun hosting_period :: "price_period \<Rightarrow> billing_period option" where
  \<comment> \<open>\<open>hostingBillingPeriodSchema\<close>\<close>
  "hosting_period (Every p) = Some p"
| "hosting_period _ = None"

definition live_status :: "service_status \<Rightarrow> bool" where
  "live_status st \<longleftrightarrow> st \<noteq> Svc_CANCELLED \<and> st \<noteq> Svc_TERMINATED"

definition assigned :: "uuid \<Rightarrow> db \<Rightarrow> nat" where
  \<comment> \<open>\<open>service.count\<close> of a server's services that are neither cancelled nor terminated\<close>
  "assigned serverId d = count_where (\<lambda>s. s_serverId s = serverId \<and> live_status (s_status s)) (d_services d)"

definition server_full :: "server \<Rightarrow> db \<Rightarrow> bool" where
  "server_full sv d = (case sv_maxAccounts sv of None \<Rightarrow> False | Some m \<Rightarrow> m \<le> int (assigned (sv_id sv) d))"

definition active_server :: "string \<Rightarrow> uuid \<Rightarrow> db \<Rightarrow> server option" where
  "active_server adapter k d =
     List.find (\<lambda>sv. sv_id sv = k \<and> sv_adapterKey sv = adapter \<and> sv_status sv = Srv_ACTIVE \<and>
       sv_deletedAt sv = None) (d_servers d)"

definition new_service_row :: "order \<Rightarrow> order_item \<Rightarrow> string \<Rightarrow> server \<Rightarrow> billing_period \<Rightarrow> instant \<Rightarrow> service" where
  "new_service_row ord item host sv billingPeriod startedAt =
     \<lparr>s_id = [], s_customerId = ord_customerId ord, s_orderItemId = Some (oi_id item), s_suspensionInvoiceId = None,
      s_status = Svc_PENDING, s_domain = Some host, s_productName = oi_productName item,
      s_billingPeriod = Some billingPeriod, s_recurringAmount = oi_unitAmount item, s_currency = oi_currency item,
      s_nextDueAt = nextServiceDueAt startedAt billingPeriod, s_serverId = sv_id sv, s_externalAccountId = None,
      s_controlPanelUsername = None, s_suspendedAt = None, s_suspensionReason = None,
      s_productId = oi_productId item, s_priceId = oi_priceId item, s_productDescription = oi_description item,
      s_provisioningSnapshot = oi_provisioningSnapshot item, s_startedAt = startedAt, s_activatedAt = None,
      s_provisioningFailureReason = None, s_cancelledAt = None, s_cancellationReason = None,
      s_terminatedAt = None, s_terminationReason = None, s_terminatedByUserId = None, s_updatedAt = startedAt\<rparr>"

definition created_metadata :: "order_item \<Rightarrow> order \<Rightarrow> server \<Rightarrow> (string \<times> json) list" where
  "created_metadata item ord sv =
     [(''orderId'', JStr (oi_orderId item)), (''orderItemId'', JStr (oi_id item)),
      (''customerId'', JStr (ord_customerId ord)), (''productId'', JStr (oi_productId item)),
      (''productPriceId'', JStr (oi_priceId item)), (''serverId'', JStr (sv_id sv)), (''status'', JStr ''PENDING'')]"

definition insert_service_tx ::
    "order \<Rightarrow> order_item \<Rightarrow> string \<Rightarrow> server \<Rightarrow> actor \<Rightarrow> instant \<Rightarrow> uuid tx" where
  \<comment> \<open>the writes of the transaction\<close>
  "insert_service_tx ord item host sv ac now d =
     rbind (of_option (Server_Error ''ZodError'') (hosting_period (oi_billingPeriod item))) (\<lambda>billingPeriod.
     rbind (create_service (new_service_row ord item host sv billingPeriod now) d) (\<lambda>(d1, k).
     rbind (if ord_status ord = Ord_PAID then update_order (oi_orderId item) Ord_PROCESSING (\<lambda>r. r) now d1
            else Inr (d1, ())) (\<lambda>(d2, _).
     Inr (log_activity (admin_activity ac ''SERVICE_CREATED_FROM_PAID_ORDER'' ''SERVICE'' (Some k)
            (created_metadata item ord sv)) d2, k))))"

definition createService_tx :: "string \<Rightarrow> create_service_input \<Rightarrow> actor \<Rightarrow> instant \<Rightarrow> uuid tx" where
  "createService_tx adapter input ac now d =
     (case find_order_item (cs_orderItemId input) d of
        None \<Rightarrow> Inl (Conflict ''This order item already has a service or is unavailable.'')
      | Some item \<Rightarrow>
        rbind (of_option (Server_Error ''Foreign key'') (find_order (oi_orderId item) d)) (\<lambda>ord.
        if service_of_item (oi_id item) d \<noteq> None \<or> oi_kind item \<noteq> Kind_HOSTING
        then Inl (Conflict ''This order item already has a service or is unavailable.'')
        else if ord_status ord \<noteq> Ord_PAID \<and> ord_status ord \<noteq> Ord_PROCESSING
        then Inl (Unprocessable ''A service can be created only from a paid order awaiting fulfilment.'')
        else
          (case oi_requestedDomain item of
             None \<Rightarrow> Inl (Unprocessable ''The order item does not have a hosting domain.'')
           | Some host \<Rightarrow>
             if host = [] then Inl (Unprocessable ''The order item does not have a hosting domain.'')
             else
               (case active_server adapter (cs_serverId input) d of
                  None \<Rightarrow> Inl (Unprocessable ''The selected server is not active.'')
                | Some sv \<Rightarrow>
                  if server_full sv d
                  then Inl (Unprocessable ''The selected server has reached its account limit.'')
                  else insert_service_tx ord item host sv ac now d))))"

definition service_duplicateResult :: "service \<Rightarrow> create_service_input \<Rightarrow> api_error + uuid \<times> bool" where
  "service_duplicateResult existing input =
     (if s_serverId existing \<noteq> cs_serverId input
      then Inl (Conflict ''This order item already has a service on another server.'')
      else Inr (s_id existing, True))"

definition createService ::
    "bool \<Rightarrow> create_service_input \<Rightarrow> actor \<Rightarrow> instant \<Rightarrow> (uuid \<times> bool) handler" where
  "createService production input ac now d =
     (case service_of_item (cs_orderItemId input) d of
        Some existing \<Rightarrow> (d, service_duplicateResult existing input)
      | None \<Rightarrow>
        (case run_tx (createService_tx (activeHostingPanelAdapter production d) input ac now) d of
           (d', Inr k) \<Rightarrow> (d', Inr (k, False))
         | (d', Inl Unique_Violation) \<Rightarrow>
             (case service_of_item (cs_orderItemId input) d' of
                Some raced \<Rightarrow> (d', service_duplicateResult raced input)
              | None \<Rightarrow> (d', Inl (Conflict ''The service could not be created safely.'')))
         | (d', Inl e) \<Rightarrow> (d', Inl e)))"

section \<open>Reading\<close>

definition service_get :: "uuid \<Rightarrow> actor \<Rightarrow> uuid option \<Rightarrow> db \<Rightarrow> api_error + service" where
  "service_get k ac scope d =
     (case find_service k d of
        None \<Rightarrow> Inl (Not_Found ''Service was not found.'')
      | Some s \<Rightarrow>
        if (actor_role ac = CUSTOMER \<and> actor_customerId ac \<noteq> Some (s_customerId s)) \<or>
           (case scope of None \<Rightarrow> False | Some c \<Rightarrow> js_lower (s_customerId s) \<noteq> js_lower c)
        then Inl (Forbidden ''You do not have access to this service.'') else Inr s)"

definition setupOptions :: "bool \<Rightarrow> db \<Rightarrow> server list \<times> order_item list" where
  \<comment> \<open>the active servers of the adapter, and the hosting items that still need a service\<close>
  "setupOptions production d =
     (sort_key (\<lambda>sv. (sv_name sv, sv_id sv))
        (filter (\<lambda>sv. sv_status sv = Srv_ACTIVE \<and> sv_adapterKey sv = activeHostingPanelAdapter production d \<and>
           sv_deletedAt sv = None) (d_servers d)),
      filter (\<lambda>oi. oi_kind oi = Kind_HOSTING \<and> oi_requestedDomain oi \<noteq> None \<and>
           hosting_period (oi_billingPeriod oi) \<noteq> None \<and> service_of_item (oi_id oi) d = None \<and>
           (case map_option ord_status (find_order (oi_orderId oi) d) of
              Some st \<Rightarrow> st = Ord_PAID \<or> st = Ord_PROCESSING | None \<Rightarrow> False)) (d_orderItems d))"

section \<open>Transitions\<close>

datatype transition_input =
    To_PROVISIONING
  | To_ACTIVE "string option" "string option"
    \<comment> \<open>the external account and the control panel's user name\<close>
  | To_SUSPENDED string | To_PROVISION_FAILED string | To_CANCELLED string | To_TERMINATED string

fun target_status :: "transition_input \<Rightarrow> service_status" where
  "target_status To_PROVISIONING = Svc_PROVISIONING"
| "target_status (To_ACTIVE a u) = Svc_ACTIVE"
| "target_status (To_SUSPENDED r) = Svc_SUSPENDED"
| "target_status (To_PROVISION_FAILED r) = Svc_PROVISION_FAILED"
| "target_status (To_CANCELLED r) = Svc_CANCELLED"
| "target_status (To_TERMINATED r) = Svc_TERMINATED"

fun transition_reason :: "transition_input \<Rightarrow> string option" where
  "transition_reason (To_SUSPENDED r) = Some r"
| "transition_reason (To_PROVISION_FAILED r) = Some r"
| "transition_reason (To_CANCELLED r) = Some r"
| "transition_reason (To_TERMINATED r) = Some r"
| "transition_reason _ = None"

fun allowedTransitions :: "service_status \<Rightarrow> service_status list" where
  "allowedTransitions Svc_PENDING = [Svc_PROVISIONING, Svc_CANCELLED]"
| "allowedTransitions Svc_PROVISIONING = [Svc_ACTIVE, Svc_PROVISION_FAILED, Svc_CANCELLED]"
| "allowedTransitions Svc_ACTIVE = [Svc_SUSPENDED, Svc_TERMINATED]"
| "allowedTransitions Svc_SUSPENDED = [Svc_ACTIVE, Svc_TERMINATED]"
| "allowedTransitions Svc_PROVISION_FAILED = [Svc_PROVISIONING, Svc_CANCELLED]"
| "allowedTransitions Svc_CANCELLED = []"
| "allowedTransitions Svc_TERMINATED = []"

definition isServiceTransitionAllowed :: "service_status \<Rightarrow> service_status \<Rightarrow> bool" where
  "isServiceTransitionAllowed current next_status \<longleftrightarrow> List.member (allowedTransitions current) next_status"

fun service_status_name :: "service_status \<Rightarrow> string" where
  "service_status_name Svc_PENDING = ''PENDING''"
| "service_status_name Svc_PROVISIONING = ''PROVISIONING''"
| "service_status_name Svc_ACTIVE = ''ACTIVE''"
| "service_status_name Svc_SUSPENDED = ''SUSPENDED''"
| "service_status_name Svc_PROVISION_FAILED = ''PROVISION_FAILED''"
| "service_status_name Svc_CANCELLED = ''CANCELLED''"
| "service_status_name Svc_TERMINATED = ''TERMINATED''"

fun present :: "string option \<Rightarrow> string option \<Rightarrow> string option" where
  \<comment> \<open>\<open>a ?? b\<close>\<close>
  "present (Some a) b = Some a"
| "present None b = b"

definition filled :: "string option \<Rightarrow> bool" where
  "filled s \<longleftrightarrow> s \<noteq> None \<and> s \<noteq> Some []"

definition transitionData ::
    "transition_input \<Rightarrow> service \<Rightarrow> actor \<Rightarrow> instant \<Rightarrow> api_error + (service \<Rightarrow> service)" where
  "transitionData input current ac now =
     (case input of
        To_PROVISIONING \<Rightarrow> Inr (\<lambda>s. s\<lparr>s_status := Svc_PROVISIONING, s_provisioningFailureReason := None\<rparr>)
      | To_ACTIVE account username \<Rightarrow>
          let externalAccountId = present account (s_externalAccountId current);
              controlPanelUsername = present username (s_controlPanelUsername current)
          in if \<not> filled externalAccountId \<or> \<not> filled controlPanelUsername
             then Inl (Unprocessable ''Activation requires an external account ID and control-panel username.'')
             else Inr (\<lambda>s. s\<lparr>s_status := Svc_ACTIVE, s_externalAccountId := externalAccountId,
                    s_controlPanelUsername := controlPanelUsername,
                    s_activatedAt := (case s_activatedAt current of Some t \<Rightarrow> Some t | None \<Rightarrow> Some now),
                    s_provisioningFailureReason := None, s_suspensionInvoiceId := None\<rparr>)
      | To_SUSPENDED reason \<Rightarrow>
          Inr (\<lambda>s. s\<lparr>s_status := Svc_SUSPENDED, s_suspendedAt := Some now, s_suspensionReason := Some reason,
                 s_suspensionInvoiceId := None\<rparr>)
      | To_PROVISION_FAILED reason \<Rightarrow>
          Inr (\<lambda>s. s\<lparr>s_status := Svc_PROVISION_FAILED, s_provisioningFailureReason := Some reason\<rparr>)
      | To_CANCELLED reason \<Rightarrow>
          Inr (\<lambda>s. s\<lparr>s_status := Svc_CANCELLED, s_cancelledAt := Some now, s_cancellationReason := Some reason\<rparr>)
      | To_TERMINATED reason \<Rightarrow>
          Inr (\<lambda>s. s\<lparr>s_status := Svc_TERMINATED, s_terminatedAt := Some now, s_terminationReason := Some reason,
                 s_terminatedByUserId := Some (actor_userId ac)\<rparr>))"

definition transition_email :: "service_status \<Rightarrow> service_status \<Rightarrow> string option" where
  "transition_email current next_status =
     (if next_status = Svc_SUSPENDED then Some ''EMAIL_SERVICE_SUSPENDED''
      else if next_status = Svc_ACTIVE
      then if current = Svc_SUSPENDED then Some ''EMAIL_SERVICE_REACTIVATED'' else Some ''EMAIL_SERVICE_PROVISIONED''
      else None)"

definition transition_outbox :: "service \<Rightarrow> service_status \<Rightarrow> instant \<Rightarrow> unit tx" where
  "transition_outbox current next_status now d =
     (case transition_email (s_status current) next_status of
        None \<Rightarrow> Inr (d, ())
      | Some t \<Rightarrow>
        create_outbox now ''SERVICE'' (s_id current) t
          (''email:service-transition:'' @ s_id current @ '':'' @ toISOString (s_updatedAt current) @ '':'' @
             service_status_name next_status)
          (JObj [(''schemaVersion'', JNum 1), (''serviceId'', JStr (s_id current))]) d)"

definition transition_order :: "service \<Rightarrow> service_status \<Rightarrow> instant \<Rightarrow> unit tx" where
  \<comment> \<open>completes the order when the activation was its last missing part\<close>
  "transition_order current next_status now d =
     (case Option.bind (s_orderItemId current) (\<lambda>k. find_order_item k d) of
        Some item \<Rightarrow>
          if next_status = Svc_ACTIVE \<and> orderFulfillmentComplete (oi_orderId item) d
          then complete_order (oi_orderId item) now d else Inr (d, ())
      | None \<Rightarrow> Inr (d, ()))"

definition cancellation_completed :: "uuid \<Rightarrow> db \<Rightarrow> bool" where
  "cancellation_completed serviceId d \<longleftrightarrow>
     list_ex (\<lambda>h. h_serviceId h = serviceId \<and> h_status h = Can_COMPLETED) (d_cancellations d)"

definition transition_checks :: "transition_input \<Rightarrow> service \<Rightarrow> server \<Rightarrow> db \<Rightarrow> api_error + unit" where
  "transition_checks input s sv d =
     (if target_status input = Svc_ACTIVE \<and> s_status s = Svc_SUSPENDED \<and> cancellation_completed (s_id s) d
      then Inl (Unprocessable ''This service has a completed cancellation.'')
      else if \<not> isServiceTransitionAllowed (s_status s) (target_status input)
      then Inl (Unprocessable (''Service cannot move from '' @ service_status_name (s_status s) @ '' to '' @
             service_status_name (target_status input) @ ''.''))
      else if target_status input = Svc_PROVISIONING \<and> (sv_status sv \<noteq> Srv_ACTIVE \<or> sv_deletedAt sv \<noteq> None)
      then Inl (Unprocessable ''The assigned server is not active.'')
      else Inr ())"

definition transition_tx :: "uuid \<Rightarrow> transition_input \<Rightarrow> actor \<Rightarrow> instant \<Rightarrow> unit tx" where
  "transition_tx serviceId input ac now d =
     (case find_service serviceId d of
        None \<Rightarrow> Inl (Not_Found ''Service was not found.'')
      | Some s \<Rightarrow>
        rbind (of_option (Server_Error ''Foreign key'') (find_server (s_serverId s) d)) (\<lambda>sv.
        rbind (transition_checks input s sv d) (\<lambda>_.
        rbind (transitionData input s ac now) (\<lambda>f.
        rbind (update_service serviceId f now d) (\<lambda>(d1, _).
        rbind (transition_outbox s (target_status input) now d1) (\<lambda>(d2, _).
        rbind (transition_order s (target_status input) now d2) (\<lambda>(d3, _).
        Inr (log_activity (admin_activity ac ''SERVICE_STATUS_CHANGED_BY_ADMIN'' ''SERVICE'' (Some serviceId)
               ([(''previousStatus'', JStr (service_status_name (s_status s))),
                 (''status'', JStr (service_status_name (target_status input)))] @
                (case transition_reason input of None \<Rightarrow> [] | Some r \<Rightarrow> [(''reason'', JStr r)]))) d3, ()))))))))"

definition transition :: "uuid \<Rightarrow> transition_input \<Rightarrow> actor \<Rightarrow> instant \<Rightarrow> unit handler" where
  "transition serviceId input ac now = run_tx (transition_tx serviceId input ac now)"

section \<open>Cancelling the renewal of an add-on\<close>

record portal_actor = actor +
  actor_supportAdministratorId :: "uuid option"

record add_on_view =
  av_id :: uuid
  av_name :: string
  av_recurringAmount :: serialized_money
  av_renewalEndsAt :: "string option"
  av_availableEndAt :: "string option"

definition add_on_forbidden :: api_error where
  "add_on_forbidden = Forbidden ''You do not have access to this hosting add-on.''"

definition portal_customer :: "portal_actor \<Rightarrow> api_error + uuid" where
  \<comment> \<open>\<open>customerId\<close>\<close>
  "portal_customer ac =
     (if actor_role ac \<noteq> CUSTOMER then Inl add_on_forbidden
      else of_option add_on_forbidden (actor_customerId ac))"

definition owned_add_on_service :: "uuid \<Rightarrow> uuid \<Rightarrow> db \<Rightarrow> api_error + service" where
  "owned_add_on_service k customerId d =
     of_option add_on_forbidden (List.find (\<lambda>s. s_id s = k \<and> s_customerId s = customerId) (d_services d))"

definition bills_due_period :: "service \<Rightarrow> invoice \<Rightarrow> bool" where
  \<comment> \<open>an issued invoice for the service's period at hand\<close>
  "bills_due_period s i \<longleftrightarrow>
     i_issuedAt i \<noteq> None \<and> i_status i \<noteq> Inv_CANCELLED \<and>
     list_ex (\<lambda>it. it_serviceId it = Some (s_id s) \<and> it_periodStart it = Some (s_nextDueAt s)) (i_items i)"

definition billed_ends :: "service \<Rightarrow> uuid \<Rightarrow> db \<Rightarrow> instant list" where
  \<comment> \<open>the ends of the periods at hand that were billed for the add-on\<close>
  "billed_ends s k d =
     List.map_filter (\<lambda>it. if it_orderItemId it = Some k \<and> it_periodStart it = Some (s_nextDueAt s)
                           then it_periodEnd it else None)
       (concat (map i_items (filter (bills_due_period s) (d_invoices d))))"

definition findAddOns :: "service \<Rightarrow> db \<Rightarrow> order_item list" where
  "findAddOns s d =
     (case Option.bind (s_orderItemId s) (\<lambda>k. find_order_item k d) of
        None \<Rightarrow> []
      | Some anchor \<Rightarrow>
        sort_key (\<lambda>oi. (oi_productName oi, oi_id oi))
          (filter (\<lambda>oi. oi_orderId oi = oi_orderId anchor \<and> oi_kind oi = Kind_ADD_ON \<and>
             map_option Every (s_billingPeriod s) = Some (oi_billingPeriod oi) \<and> oi_currency oi = s_currency s \<and>
             oi_fulfilledAt oi \<noteq> None) (d_orderItems d)))"

definition availableEndAt :: "service \<Rightarrow> order_item \<Rightarrow> db \<Rightarrow> instant option" where
  "availableEndAt s oi d =
     (if oi_renewalEndsAt oi \<noteq> None \<or> (s_status s \<noteq> Svc_ACTIVE \<and> s_status s \<noteq> Svc_SUSPENDED) then None
      else Some (case billed_ends s (oi_id oi) d of [] \<Rightarrow> s_nextDueAt s | t # ts \<Rightarrow> Max (set (t # ts))))"

definition add_on_serialize :: "order_item \<Rightarrow> instant option \<Rightarrow> api_error + add_on_view" where
  "add_on_serialize oi available =
     (case serializeMoney (oi_lineTotal oi) (oi_currency oi) of
        Inl _ \<Rightarrow> Inl (Server_Error ''ZodError'')
      | Inr amount \<Rightarrow>
        Inr \<lparr>av_id = oi_id oi, av_name = oi_productName oi, av_recurringAmount = amount,
             av_renewalEndsAt = map_option toISOString (oi_renewalEndsAt oi),
             av_availableEndAt = map_option toISOString available\<rparr>)"

fun add_on_views :: "(order_item \<Rightarrow> instant option) \<Rightarrow> order_item list \<Rightarrow> api_error + add_on_view list" where
  "add_on_views end_of [] = Inr []"
| "add_on_views end_of (oi # ois) =
     rbind (add_on_serialize oi (end_of oi)) (\<lambda>v. rbind (add_on_views end_of ois) (\<lambda>vs. Inr (v # vs)))"

definition add_on_list :: "uuid \<Rightarrow> portal_actor \<Rightarrow> db \<Rightarrow> api_error + add_on_view list" where
  "add_on_list serviceId ac d =
     rbind (portal_customer ac) (\<lambda>customerId.
     rbind (owned_add_on_service serviceId customerId d) (\<lambda>s.
     add_on_views (\<lambda>oi. if actor_supportAdministratorId ac \<noteq> None then None else availableEndAt s oi d)
       (findAddOns s d)))"

definition order_item_check :: "order_item \<Rightarrow> bool" where
  "order_item_check oi \<longleftrightarrow>
     currencyCodeSchema (oi_currency oi) \<and> 0 < oi_quantity oi \<and> 0 \<le> oi_unitAmount oi \<and> 0 \<le> oi_setupFee oi \<and>
     0 \<le> oi_lineTotal oi \<and> oi_lineTotal oi = oi_unitAmount oi * oi_quantity oi + oi_setupFee oi \<and>
     (oi_renewalEndsAt oi = None \<or>
      oi_kind oi = Kind_ADD_ON \<and> hosting_period (oi_billingPeriod oi) \<noteq> None \<and> oi_fulfilledAt oi \<noteq> None)"

definition update_order_item :: "uuid \<Rightarrow> (order_item \<Rightarrow> order_item) \<Rightarrow> unit tx" where
  \<comment> \<open>\<open>orderItem.update\<close>; no caller touches the provisioning snapshot\<close>
  "update_order_item k f d =
     (case find_order_item k d of
        None \<Rightarrow> Inl Record_Missing
      | Some oi \<Rightarrow>
        if \<not> order_item_check (f oi) then Inl Check_Violation
        else Inr (d\<lparr>d_orderItems := update_many (\<lambda>oi. oi_id oi = k) f (d_orderItems d)\<rparr>, ()))"

definition cancelAddOn_tx ::
    "(string \<Rightarrow> instant option) \<Rightarrow> uuid \<Rightarrow> uuid \<Rightarrow> string \<Rightarrow> portal_actor \<Rightarrow> uuid \<Rightarrow> add_on_view tx" where
  "cancelAddOn_tx date_parse serviceId addOnId expectedEndAt ac customerId d =
     rbind (owned_add_on_service serviceId customerId d) (\<lambda>s.
     case List.find (\<lambda>oi. oi_id oi = addOnId) (findAddOns s d) of
       None \<Rightarrow> Inl add_on_forbidden
     | Some oi \<Rightarrow>
       if oi_renewalEndsAt oi \<noteq> None then rbind (add_on_serialize oi None) (\<lambda>v. Inr (d, v))
       else
         (case availableEndAt s oi d of
            None \<Rightarrow> Inl (Conflict ''The billing period changed. Reload the service and review the cancellation date.'')
          | Some endAt \<Rightarrow>
            if date_parse expectedEndAt \<noteq> Some endAt
            then Inl (Conflict ''The billing period changed. Reload the service and review the cancellation date.'')
            else
              rbind (update_order_item addOnId (\<lambda>oi. oi\<lparr>oi_renewalEndsAt := Some endAt\<rparr>) d) (\<lambda>(d1, _).
              rbind (add_on_serialize (oi\<lparr>oi_renewalEndsAt := Some endAt\<rparr>) None) (\<lambda>v.
              Inr (log_activity
                     \<lparr>a_actorUserId = Some (actor_userId ac), a_action = ''HOSTING_ADD_ON_RENEWAL_CANCELLED'',
                      a_entityType = ''SERVICE'', a_entityId = Some serviceId, a_correlationId = None,
                      a_metadata = [(''orderItemId'', JStr addOnId), (''renewalEndsAt'', JStr (toISOString endAt))]\<rparr> d1, v)))))"

definition cancelAddOn ::
    "(string \<Rightarrow> instant option) \<Rightarrow> uuid \<Rightarrow> uuid \<Rightarrow> string \<Rightarrow> portal_actor \<Rightarrow> add_on_view handler" where
  "cancelAddOn date_parse serviceId addOnId expectedEndAt ac d =
     (if actor_supportAdministratorId ac \<noteq> None then (d, Inl add_on_forbidden)
      else
        (case portal_customer ac of
           Inl e \<Rightarrow> (d, Inl e)
         | Inr customerId \<Rightarrow> run_tx (cancelAddOn_tx date_parse serviceId addOnId expectedEndAt ac customerId) d))"

section \<open>What the calls change\<close>

lemma create_service_cases:
  assumes "create_service row d = Inr (d', k)"
  obtains s where "s = row\<lparr>s_id := k\<rparr>" and "service_check s" and "k \<notin> s_id ` set (d_services d)"
    and "s_orderItemId row = None \<or> service_of_item (the (s_orderItemId row)) d = None"
    and "d' = d\<lparr>d_services := d_services d @ [s], d_supply := Suc (d_supply d)\<rparr>"
proof -
  let ?s = "row\<lparr>s_id := k\<rparr>"
  have k: "k = fresh_uuid d" and "service_check ?s" and d': "d' = d\<lparr>d_services := d_services d @ [?s], d_supply := Suc (d_supply d)\<rparr>"
    and fresh: "\<not> list_ex (\<lambda>t. s_id t = k \<or> (s_orderItemId ?s \<noteq> None \<and> s_orderItemId t = s_orderItemId ?s)) (d_services d)"
    using assms by (auto simp: create_service_def Let_def split: if_splits)
  moreover have "k \<notin> s_id ` set (d_services d)" using fresh by (auto simp: list_ex_iff)
  moreover have "s_orderItemId row = None \<or> service_of_item (the (s_orderItemId row)) d = None"
    using fresh by (auto simp: list_ex_iff service_of_item_def find_None_iff_all)
  ultimately show ?thesis using that by blast
qed

lemma update_service_cases:
  assumes "update_service k f now d = Inr (d', u)"
  obtains s where "find_service k d = Some s" and "service_check (f s)" and "\<not> account_taken (f s) (d_services d)"
    and "d' = d\<lparr>d_services := update_many (\<lambda>t. s_id t = k) (\<lambda>t. (f t)\<lparr>s_updatedAt := now\<rparr>) (d_services d)\<rparr>"
  using assms by (auto simp: update_service_def split: option.splits if_splits)

lemma update_order_cases:
  assumes "update_order k st f now d = Inr (d', u)"
  obtains r where "find_order k d = Some r" and "domain_order_guard k st d"
    and "d' = d\<lparr>d_orders := update_many (\<lambda>r. ord_id r = k)
                   (\<lambda>r. (f r)\<lparr>ord_status := st, ord_updatedAt := now\<rparr>) (d_orders d)\<rparr>"
  using assms by (auto simp: update_order_def split: if_splits)

lemma complete_order_cases:
  assumes "complete_order k now d = Inr (d', u)"
  obtains "d' = d" | "update_order k Ord_COMPLETED (\<lambda>r. r\<lparr>ord_completedAt := Some now\<rparr>) now d = Inr (d', u)"
proof (cases "map_option ord_status (find_order k d) = Some Ord_PROCESSING")
  case True
  then show ?thesis using assms that(2) by (simp only: complete_order_def not_True_eq_False if_False simp_thms)
next
  case False
  then show ?thesis using assms that(1) by (simp add: complete_order_def)
qed

definition beside_orders :: "db \<Rightarrow> db" where
  "beside_orders d = d\<lparr>d_orders := [], d_outbox := [], d_supply := 0, d_activity := []\<rparr>"

definition orders_only :: "db \<Rightarrow> db \<Rightarrow> bool" where
  \<comment> \<open>nothing changed but orders, outbox events and the log\<close>
  "orders_only d d' \<longleftrightarrow> beside_orders d' = beside_orders d"

lemma orders_only_refl [simp]: "orders_only d d"
  by (simp add: orders_only_def)

lemma orders_only_trans: "orders_only d d1 \<Longrightarrow> orders_only d1 d2 \<Longrightarrow> orders_only d d2"
  by (simp add: orders_only_def)

lemma orders_only_fields:
  assumes "orders_only d d'"
  shows "d_services d' = d_services d" "d_servers d' = d_servers d" "d_cancellations d' = d_cancellations d"
    "d_invoices d' = d_invoices d" "d_payments d' = d_payments d" "d_orderItems d' = d_orderItems d"
    "d_operations d' = d_operations d" "d_registry d' = d_registry d" "d_runs d' = d_runs d"
  using arg_cong [OF assms [unfolded orders_only_def], of d_services]
    arg_cong [OF assms [unfolded orders_only_def], of d_servers]
    arg_cong [OF assms [unfolded orders_only_def], of d_cancellations]
    arg_cong [OF assms [unfolded orders_only_def], of d_invoices]
    arg_cong [OF assms [unfolded orders_only_def], of d_payments]
    arg_cong [OF assms [unfolded orders_only_def], of d_orderItems]
    arg_cong [OF assms [unfolded orders_only_def], of d_operations]
    arg_cong [OF assms [unfolded orders_only_def], of d_registry]
    arg_cong [OF assms [unfolded orders_only_def], of d_runs]
  by (simp_all add: beside_orders_def)

lemma orders_only_update: "update_order k st f now d = Inr (d', u) \<Longrightarrow> orders_only d d'"
  by (erule update_order_cases) (simp add: orders_only_def beside_orders_def)

lemma orders_only_complete: "complete_order k now d = Inr (d', u) \<Longrightarrow> orders_only d d'"
  by (erule complete_order_cases) (simp_all add: orders_only_update)

lemma orders_only_outbox: "create_outbox now t k e key v d = Inr (d', u) \<Longrightarrow> orders_only d d'"
  by (auto simp: create_outbox_def orders_only_def beside_orders_def split: if_splits)

lemma orders_only_log [simp]: "orders_only d (log_activity entry d)"
  by (simp add: log_activity_def orders_only_def beside_orders_def)

lemmas orders_only_calls = orders_only_update orders_only_complete orders_only_outbox

lemma transitionData_keeps:
  assumes "transitionData input s ac now = Inr f"
  shows "s_id (f t) = s_id t" and "s_status (f t) = target_status input" and "s_serverId (f t) = s_serverId t"
    and "s_orderItemId (f t) = s_orderItemId t" and "s_nextDueAt (f t) = s_nextDueAt t"
  using assms by (auto simp: transitionData_def Let_def split: transition_input.splits if_splits)

lemma transition_outbox_frame: "transition_outbox s st now d = Inr (d', u) \<Longrightarrow> orders_only d d'"
  by (auto simp: transition_outbox_def intro: orders_only_calls split: option.splits)

lemma transition_order_frame: "transition_order s st now d = Inr (d', u) \<Longrightarrow> orders_only d d'"
  by (auto simp: transition_order_def intro: orders_only_calls split: option.splits if_splits)

lemma transition_tx_cases:
  assumes "transition_tx k input ac now d = Inr (d', u)"
  obtains s sv f d1 d2 d3 where "find_service k d = Some s" and "find_server (s_serverId s) d = Some sv"
    and "transition_checks input s sv d = Inr ()" and "transitionData input s ac now = Inr f"
    and "update_service k f now d = Inr (d1, ())" and "transition_outbox s (target_status input) now d1 = Inr (d2, ())"
    and "transition_order s (target_status input) now d2 = Inr (d3, ())" and "orders_only d3 d'"
    and "orders_only d1 d'"
proof -
  obtain s sv f d1 d2 d3 where 1: "find_service k d = Some s" "find_server (s_serverId s) d = Some sv"
    "transition_checks input s sv d = Inr ()" "transitionData input s ac now = Inr f"
    "update_service k f now d = Inr (d1, ())" "transition_outbox s (target_status input) now d1 = Inr (d2, ())"
    "transition_order s (target_status input) now d2 = Inr (d3, ())" "orders_only d3 d'"
    using assms unfolding transition_tx_def
    by (auto simp: result_simps split: option.splits)
  moreover have "orders_only d1 d'"
    using orders_only_trans [OF transition_outbox_frame [OF 1(6)]
        orders_only_trans [OF transition_order_frame [OF 1(7)] 1(8)]] .
  ultimately show ?thesis using that by blast
qed

lemma transition_service:
  assumes "update_service k f now d = Inr (d1, ())" and "transitionData input s ac now = Inr f"
    and "orders_only d1 d'" and "find_service k d = Some s"
  shows "find_service x d' = (if x = k then Some ((f s)\<lparr>s_updatedAt := now\<rparr>) else find_service x d)"
  using assms(1)
proof (rule update_service_cases)
  assume "d1 = d\<lparr>d_services := update_many (\<lambda>t. s_id t = k) (\<lambda>t. (f t)\<lparr>s_updatedAt := now\<rparr>) (d_services d)\<rparr>"
  then show ?thesis
    using assms(4) orders_only_fields(1) [OF assms(3)] transitionData_keeps(1) [OF assms(2)]
    by (simp add: find_service_def find_update_many_key [where key = s_id])
qed

text \<open>
  C17: a status change of an administrator that commits is a legal one for the row as it stands at the
  commit: the table allows it, the new row satisfies the constraints of its status, a service whose
  cancellation was completed is not reactivated, and no other service is touched.
\<close>

theorem transition_commits_legally:
  assumes "transition_tx k input ac now d = Inr (d', u)"
  shows "\<exists>s s'. find_service k d = Some s \<and> find_service k d' = Some s' \<and>
     isServiceTransitionAllowed (s_status s) (s_status s') \<and> s_status s' = target_status input \<and> service_check s' \<and>
     \<not> (s_status s = Svc_SUSPENDED \<and> s_status s' = Svc_ACTIVE \<and> cancellation_completed k d) \<and>
     (\<forall>x. x \<noteq> k \<longrightarrow> find_service x d' = find_service x d) \<and> d_cancellations d' = d_cancellations d"
  using assms
proof (rule transition_tx_cases)
  fix s sv f d1
  assume s: "find_service k d = Some s" and ok: "transition_checks input s sv d = Inr ()"
    and f: "transitionData input s ac now = Inr f" and upd: "update_service k f now d = Inr (d1, ())"
    and frame: "orders_only d1 d'"
  have "s_id s = k" using find_service_idD [OF s] .
  moreover have "service_check (f s)" and "d_cancellations d1 = d_cancellations d"
    using upd s by (auto elim!: update_service_cases)
  moreover have "service_check (t\<lparr>s_updatedAt := now\<rparr>) = service_check t" for t
    by (simp add: service_check_def)
  ultimately show ?thesis
    using s ok transition_service [OF upd f frame s] transitionData_keeps(2) [OF f] orders_only_fields(3) [OF frame]
    by (auto simp: transition_checks_def split: if_splits)
qed

section \<open>Creating a service again\<close>

lemma createService_tx_cases:
  assumes "createService_tx adapter input ac now d = Inr (d', k)"
  obtains item ord sv host bp d1 where "find_order_item (cs_orderItemId input) d = Some item"
    and "find_order (oi_orderId item) d = Some ord" and "service_of_item (oi_id item) d = None"
    and "oi_kind item = Kind_HOSTING" and "ord_status ord \<in> {Ord_PAID, Ord_PROCESSING}"
    and "active_server adapter (cs_serverId input) d = Some sv" and "\<not> server_full sv d"
    and "hosting_period (oi_billingPeriod item) = Some bp"
    and "create_service (new_service_row ord item host sv bp now) d = Inr (d1, k)" and "orders_only d1 d'"
proof -
  from assms obtain item ord where item: "find_order_item (cs_orderItemId input) d = Some item"
    "find_order (oi_orderId item) d = Some ord"
    unfolding createService_tx_def by (auto simp: rbind_eq_Inr of_option_eq_Inr split: option.split_asm)
  with assms obtain sv host where 1: "service_of_item (oi_id item) d = None"
    "oi_kind item = Kind_HOSTING" "ord_status ord \<in> {Ord_PAID, Ord_PROCESSING}"
    "active_server adapter (cs_serverId input) d = Some sv" "\<not> server_full sv d"
    and tx: "insert_service_tx ord item host sv ac now d = Inr (d', k)"
    unfolding createService_tx_def option.case of_option_simps rbind_simps
    by (simp del: not_None_eq split: if_split_asm option.split_asm)
  from tx obtain bp d1 d2 entry where 2: "hosting_period (oi_billingPeriod item) = Some bp"
    "create_service (new_service_row ord item host sv bp now) d = Inr (d1, k)"
    and paid: "(if ord_status ord = Ord_PAID then update_order (oi_orderId item) Ord_PROCESSING (\<lambda>r. r) now d1
       else Inr (d1, ())) = Inr (d2, ())" and d': "d' = log_activity entry d2"
    unfolding insert_service_tx_def by (auto simp: result_simps split del: if_split)
  from paid have "orders_only d1 d2" by (auto intro: orders_only_calls split: if_splits)
  then have "orders_only d1 d'" using orders_only_trans d' by simp
  with item 1 2 show ?thesis using that by blast
qed

lemma createService_fresh:
  assumes "createService production input ac now d = (d', Inr (k, False))"
  shows "createService_tx (activeHostingPanelAdapter production d) input ac now d = Inr (d', k)"
  using assms
  by (auto simp: createService_def service_duplicateResult_def run_tx_def
      split: option.splits sum.splits api_error.splits if_splits)

text \<open>
  Creating a service again is harmless: after one was created for an order item, the same request,
  by any administrator, at any later time and under any panel setting, answers with the same service,
  marked as a duplicate, and changes nothing.
\<close>

theorem createService_idempotent:
  assumes "createService production input ac now d = (d', Inr (k, False))"
  shows "createService production2 input ac2 now2 d' = (d', Inr (k, True))"
  using createService_fresh [OF assms]
proof (rule createService_tx_cases)
  fix item ord sv host bp d1
  assume item: "find_order_item (cs_orderItemId input) d = Some item" "service_of_item (oi_id item) d = None"
    and sv: "active_server (activeHostingPanelAdapter production d) (cs_serverId input) d = Some sv"
    and new: "create_service (new_service_row ord item host sv bp now) d = Inr (d1, k)" and frame: "orders_only d1 d'"
  have "oi_id item = cs_orderItemId input" "sv_id sv = cs_serverId input"
    using item(1) sv by (auto simp: find_order_item_def active_server_def dest: find_Some_D)
  moreover from new obtain s where "s = (new_service_row ord item host sv bp now)\<lparr>s_id := k\<rparr>"
    "d_services d' = d_services d @ [s]"
    using orders_only_fields(1) [OF frame] by (auto elim!: create_service_cases)
  ultimately have "service_of_item (cs_orderItemId input) d' = Some s" "s_serverId s = cs_serverId input" "s_id s = k"
    using item(2) by (auto simp: service_of_item_def find_app new_service_row_def)
  then show ?thesis by (simp add: createService_def service_duplicateResult_def)
qed

section \<open>Capacity\<close>

definition capacity_ok :: "db \<Rightarrow> bool" where
  \<comment> \<open>no server holds more live services than it may, under the primary keys\<close>
  "capacity_ok d \<longleftrightarrow> distinct (map sv_id (d_servers d)) \<and> distinct (map s_id (d_services d)) \<and>
     (\<forall>sv \<in> set (d_servers d). case sv_maxAccounts sv of None \<Rightarrow> True | Some m \<Rightarrow> int (assigned (sv_id sv) d) \<le> m)"

lemma assigned_mono:
  assumes "d_services d' = update_many P f (d_services d)"
    and "\<And>s. s \<in> set (d_services d) \<Longrightarrow> P s \<Longrightarrow> s_serverId (f s) = s_serverId s \<and> (live_status (s_status (f s)) \<longrightarrow> live_status (s_status s))"
  shows "assigned k d' \<le> assigned k d"
proof -
  have "count_where Q (update_many P f ss) \<le> count_where Q ss" if "\<forall>s \<in> set ss. P s \<longrightarrow> Q (f s) \<longrightarrow> Q s" for Q and ss :: "service list"
    using that by (induction ss) auto
  then show ?thesis unfolding assigned_def assms(1) using assms(2) by auto
qed

lemma capacity_kept:
  assumes "capacity_ok d" and "d_servers d' = d_servers d" and "\<And>k. assigned k d' \<le> assigned k d"
    and "map s_id (d_services d') = map s_id (d_services d)"
  shows "capacity_ok d'"
proof -
  have "int (assigned k d') \<le> m" if "int (assigned k d) \<le> m" for k m
    using that assms(3) [of k] by linarith
  then show ?thesis using assms(1,2,4) unfolding capacity_ok_def by (auto split: option.splits)
qed

lemma allowed_from_live: "isServiceTransitionAllowed a b \<Longrightarrow> live_status a"
  by (cases a) (simp_all add: isServiceTransitionAllowed_def live_status_def)


lemma transition_capacity:
  assumes "transition_tx k input ac now d = Inr (d', u)" and "capacity_ok d"
  shows "capacity_ok d'"
  using assms(1)
proof (rule transition_tx_cases)
  fix s sv f d1
  assume s: "find_service k d = Some s" and ok: "transition_checks input s sv d = Inr ()"
    and f: "transitionData input s ac now = Inr f" and upd: "update_service k f now d = Inr (d1, ())"
    and frame: "orders_only d1 d'"
  from upd have rows: "d_services d' = update_many (\<lambda>t. s_id t = k) (\<lambda>t. (f t)\<lparr>s_updatedAt := now\<rparr>) (d_services d)"
    and "d_servers d' = d_servers d"
    using orders_only_fields(1,2) [OF frame] by (auto elim!: update_service_cases)
  moreover have "assigned x d' \<le> assigned x d" for x
  proof (rule assigned_mono [OF rows])
    fix t assume t: "t \<in> set (d_services d)" "s_id t = k"
    then have "t = s"
      using find_key_eq [of s_id "d_services d" t] assms(2) s by (simp add: capacity_ok_def find_service_def)
    then show "s_serverId ((f t)\<lparr>s_updatedAt := now\<rparr>) = s_serverId t \<and>
        (live_status (s_status ((f t)\<lparr>s_updatedAt := now\<rparr>)) \<longrightarrow> live_status (s_status t))"
      using ok transitionData_keeps(3) [OF f] allowed_from_live
      by (auto simp: transition_checks_def split: if_splits)
  qed
  moreover have "map s_id (d_services d') = map s_id (d_services d)"
    unfolding rows by (rule map_update_many_inv) (simp add: transitionData_keeps(1) [OF f])
  ultimately show ?thesis using capacity_kept [OF assms(2)] by blast
qed

lemma new_service_row_fields [simp]:
  "s_serverId (new_service_row ord item host sv bp now) = sv_id sv"
  "s_orderItemId (new_service_row ord item host sv bp now) = Some (oi_id item)"
  "s_status (new_service_row ord item host sv bp now) = Svc_PENDING"
  by (simp_all add: new_service_row_def)

lemma createService_capacity:
  assumes "createService_tx adapter input ac now d = Inr (d', k)" and "capacity_ok d"
  shows "capacity_ok d'"
  using assms(1)
proof (rule createService_tx_cases)
  fix item ord sv host bp d1
  assume sv: "active_server adapter (cs_serverId input) d = Some sv" "\<not> server_full sv d"
    and new: "create_service (new_service_row ord item host sv bp now) d = Inr (d1, k)" and frame: "orders_only d1 d'"
  have mem: "sv \<in> set (d_servers d)" using sv(1) by (auto simp: active_server_def dest: find_Some_D)
  from new obtain s where s: "s_serverId s = sv_id sv" "d_services d' = d_services d @ [s]" "d_servers d' = d_servers d"
    and key: "s_id s \<notin> s_id ` set (d_services d)"
  proof (rule create_service_cases)
    fix s assume "s = (new_service_row ord item host sv bp now)\<lparr>s_id := k\<rparr>" "k \<notin> s_id ` set (d_services d)"
      "d1 = d\<lparr>d_services := d_services d @ [s], d_supply := Suc (d_supply d)\<rparr>"
    then show thesis using that [of s] orders_only_fields(1,2) [OF frame] by simp
  qed
  have count: "assigned x d' \<le> (if x = sv_id sv then Suc (assigned x d) else assigned x d)" for x
    by (simp add: assigned_def s count_where_def)
  show ?thesis unfolding capacity_ok_def s(3)
  proof (intro conjI ballI)
    fix sv' assume sv': "sv' \<in> set (d_servers d)"
    show "case sv_maxAccounts sv' of None \<Rightarrow> True | Some m \<Rightarrow> int (assigned (sv_id sv') d') \<le> m"
    proof (cases "sv_id sv' = sv_id sv")
      case True
      then have "sv' = sv" using assms(2) mem sv' distinct_key_inj by (fastforce simp: capacity_ok_def)
      then show ?thesis using sv(2) count [of "sv_id sv"] by (auto simp: server_full_def split: option.splits)
    next
      case False
      then show ?thesis using assms(2) sv' count [of "sv_id sv'"] by (fastforce simp: capacity_ok_def split: option.splits)
    qed
  qed (use assms(2) key s(2) in \<open>simp_all add: capacity_ok_def\<close>)
qed


text \<open>
  C18: no administrator overbooks a server: creating services and changing their status keeps the number
  of live services of every server within its account limit.
\<close>

theorem server_capacity_kept:
  assumes "capacity_ok d"
    and "createService_tx adapter input ac now d = Inr (d', k) \<or> transition_tx x change ac now d = Inr (d', u)"
  shows "capacity_ok d'"
  using assms createService_capacity transition_capacity by metis

section \<open>Witnesses\<close>

definition sample_order :: "order_status \<Rightarrow> order" where
  "sample_order st =
     \<lparr>ord_id = ''o'', ord_number = ''ORD-1'', ord_submissionKey = ''k'', ord_customerId = ''c'', ord_status = st,
      ord_currency = ''BDT'', ord_subtotal = 500, ord_setupTotal = 0, ord_discountTotal = 0, ord_taxTotal = 0,
      ord_total = 500, ord_customerEmail = ''a@b.c'', ord_termsAcceptance = None, ord_notes = None, ord_placedAt = 0,
      ord_completedAt = None, ord_cancelledAt = None, ord_updatedAt = 0\<rparr>"

definition sample_order_item :: order_item where
  "sample_order_item =
     \<lparr>oi_id = ''oi'', oi_orderId = ''o'', oi_kind = Kind_HOSTING, oi_productId = ''p'', oi_priceId = ''pp'',
      oi_productName = ''Hosting'', oi_description = None, oi_billingPeriod = Every MONTHLY, oi_currency = ''BDT'',
      oi_unitAmount = 500, oi_setupFee = 0, oi_quantity = 1, oi_lineTotal = 500, oi_requestedDomain = Some ''a.b'',
      oi_provisioningSnapshot = None, oi_fulfilledAt = None, oi_renewalEndsAt = None\<rparr>"

definition service_db :: db where
  \<comment> \<open>a paid order for hosting, and a server with room for one account\<close>
  "service_db = empty_db\<lparr>d_orders := [sample_order Ord_PAID], d_orderItems := [sample_order_item],
     d_servers := [whm_server\<lparr>sv_maxAccounts := Some 1\<rparr>],
     d_settings := [(''integration.active-providers'',
       JObj [(''activeGateway'', JStr ''manual''), (''activeHostingPanelAdapter'', JStr ''cpanel-whm'')])], d_supply := 7\<rparr>"

definition sample_create :: create_service_input where
  "sample_create = \<lparr>cs_orderItemId = ''oi'', cs_serverId = ''host''\<rparr>"

lemma sample_created:
  "case createService_tx ''cpanel-whm'' sample_create sample_actor 5 service_db of Inl _ \<Rightarrow> False | Inr _ \<Rightarrow> True"
proof -
  let ?sv = "whm_server\<lparr>sv_maxAccounts := Some 1\<rparr>"
  have "find_order_item (cs_orderItemId sample_create) service_db = Some sample_order_item"
    "find_order (oi_orderId sample_order_item) service_db = Some (sample_order Ord_PAID)"
    "service_of_item (oi_id sample_order_item) service_db = None"
    by (simp_all add: find_order_item_def find_order_def service_of_item_def service_db_def empty_db_def
        sample_create_def sample_order_item_def sample_order_def)
  moreover have "active_server ''cpanel-whm'' (cs_serverId sample_create) service_db = Some ?sv"
    by (simp add: active_server_def service_db_def sample_create_def whm_server_def)
  moreover have "\<not> server_full ?sv service_db" by code_simp
  moreover have "oi_kind sample_order_item = Kind_HOSTING" "oi_requestedDomain sample_order_item = Some ''a.b''"
    "ord_status (sample_order Ord_PAID) = Ord_PAID"
    by (simp_all add: sample_order_item_def sample_order_def)
  ultimately have "createService_tx ''cpanel-whm'' sample_create sample_actor 5 service_db =
      insert_service_tx (sample_order Ord_PAID) sample_order_item ''a.b'' ?sv sample_actor 5 service_db"
    by (simp add: createService_tx_def)
  moreover have "case create_service (new_service_row (sample_order Ord_PAID) sample_order_item ''a.b'' ?sv MONTHLY 5) service_db of
      Inl _ \<Rightarrow> False | Inr _ \<Rightarrow> True" by code_simp
  then obtain d1 k where new: "create_service (new_service_row (sample_order Ord_PAID) sample_order_item ''a.b'' ?sv MONTHLY 5) service_db
      = Inr (d1, k)" by (auto split: sum.splits)
  then have "d_orders d1 = [sample_order Ord_PAID]" by (rule create_service_cases) (simp add: service_db_def)
  then have "case insert_service_tx (sample_order Ord_PAID) sample_order_item ''a.b'' ?sv sample_actor 5 service_db of
      Inl _ \<Rightarrow> False | Inr _ \<Rightarrow> True"
    using new by (simp add: insert_service_tx_def update_order_def find_order_def domain_order_guard_def
        sample_order_item_def sample_order_def)
  ultimately show ?thesis by simp
qed

theorem createService_idempotent_witness:
  "case createService True sample_create sample_actor 5 service_db of
     (d', r) \<Rightarrow> (\<exists>k. r = Inr (k, False) \<and> createService False sample_create sample_actor 9 d' = (d', Inr (k, True)))"
proof -
  obtain d' r where run: "createService True sample_create sample_actor 5 service_db = (d', r)" by (metis surj_pair)
  have "activeHostingPanelAdapter True service_db = ''cpanel-whm''" by code_simp
  moreover have "service_of_item (cs_orderItemId sample_create) service_db = None"
    by (simp add: service_of_item_def service_db_def empty_db_def)
  ultimately obtain k where "r = Inr (k, False)"
    using run sample_created by (auto simp: createService_def run_tx_def split: sum.splits)
  with run show ?thesis using createService_idempotent [of True sample_create sample_actor 5 service_db d' k False sample_actor 9]
    by simp
qed

definition active_db :: db where
  "active_db = empty_db\<lparr>d_services := [sample_service Svc_ACTIVE None], d_servers := [whm_server\<lparr>sv_maxAccounts := Some 1\<rparr>],
     d_supply := 7\<rparr>"

theorem transition_commits_legally_witness:
  "case transition_tx ''s'' (To_SUSPENDED ''abuse'') sample_actor 5 active_db of
     Inl _ \<Rightarrow> False
   | Inr (d', _) \<Rightarrow> \<exists>s s'. find_service ''s'' active_db = Some s \<and> find_service ''s'' d' = Some s' \<and>
       isServiceTransitionAllowed (s_status s) (s_status s') \<and> s_status s' = Svc_SUSPENDED"
proof -
  have "case transition_tx ''s'' (To_SUSPENDED ''abuse'') sample_actor 5 active_db of Inl _ \<Rightarrow> False | Inr _ \<Rightarrow> True"
    by code_simp
  then obtain d' u where run: "transition_tx ''s'' (To_SUSPENDED ''abuse'') sample_actor 5 active_db = Inr (d', u)"
    by (auto split: sum.splits)
  then show ?thesis using transition_commits_legally [OF run] by auto
qed

theorem server_capacity_kept_witness:
  "case transition_tx ''s'' (To_TERMINATED ''abuse'') sample_actor 5 active_db of
     Inl _ \<Rightarrow> False | Inr (d', _) \<Rightarrow> capacity_ok active_db \<and> capacity_ok d'"
proof -
  have ok: "capacity_ok active_db"
    by (simp add: capacity_ok_def active_db_def empty_db_def assigned_def sample_service_def whm_server_def)
  have "case transition_tx ''s'' (To_TERMINATED ''abuse'') sample_actor 5 active_db of Inl _ \<Rightarrow> False | Inr _ \<Rightarrow> True"
    by code_simp
  then obtain d' u where run: "transition_tx ''s'' (To_TERMINATED ''abuse'') sample_actor 5 active_db = Inr (d', u)"
    by (auto split: sum.splits)
  then show ?thesis using server_capacity_kept [OF ok, of "''a''" sample_create sample_actor 5 d' "''k''"] ok run by (simp) blast
qed

end
