(* ===== verification/Orders.thy ===== *)
theory Orders
  imports Services
begin

text \<open>
  Orders of hosting and add-ons (\<^verbatim>\<open>apps/api/src/modules/orders/order.service.ts\<close>,
  \<^verbatim>\<open>apps/api/src/modules/settings/checkout-terms.ts\<close>,
  \<^verbatim>\<open>apps/api/src/common/identifiers/business-number.ts\<close>): placing an order with its first
  invoice, the answer to a repeated submission, the status changes of an administrator and the
  fulfilment of add-ons. A request here selects no domain: the branches for domain quotes and
  existing domains, and the checkout of guests, are left out.
\<close>

section \<open>Requests and parameters\<close>

record order_input =
  or_customerId :: uuid
  or_productId :: uuid
  or_priceId :: uuid
  or_requestedDomain :: string
  or_submissionKey :: string
  or_addOnPriceIds :: "uuid list"
  or_acceptedTermsVersion :: "string option"
  or_notes :: "string option"
  or_hostingMode :: "string option"

datatype order_source = By_ADMIN | By_CUSTOMER

record order_env =
  oe_uuid :: "string \<Rightarrow> bool"
    \<comment> \<open>\<open>z.uuid()\<close>\<close>
  oe_termsUrl :: "string \<Rightarrow> bool"
    \<comment> \<open>\<open>termsUrl\<close>: an HTTPS URL without credentials\<close>

section \<open>Terms of the checkout\<close>

record terms_policy =
  tp_required :: bool
  tp_url :: "string option"
  tp_revision :: "string option"
  tp_version :: "string option"

definition DEFAULT_CHECKOUT_TERMS :: terms_policy where
  "DEFAULT_CHECKOUT_TERMS = \<lparr>tp_required = False, tp_url = None, tp_revision = None, tp_version = None\<rparr>"

definition terms_revision :: "string \<Rightarrow> string option" where
  \<comment> \<open>\<open>z.string().trim().min(1).max(80)\<close>\<close>
  "terms_revision s = (let t = js_trim s in if 1 \<le> length t \<and> length t \<le> 80 then Some t else None)"

definition nullable :: "(string \<Rightarrow> string option) \<Rightarrow> json option \<Rightarrow> string option option" where
  "nullable f j =
     (case j of Some JNull \<Rightarrow> Some None | Some (JStr s) \<Rightarrow> map_option Some (f s) | _ \<Rightarrow> None)"

definition checkoutTermsPolicySchema :: "order_env \<Rightarrow> json \<Rightarrow> terms_policy option" where
  "checkoutTermsPolicySchema env j =
     (let url = nullable (\<lambda>s. if oe_termsUrl env s \<and> length s \<le> 2048 then Some s else None) (jfield ''url'' j);
          revision = nullable terms_revision (jfield ''revision'' j);
          version = nullable (\<lambda>s. if oe_uuid env s then Some s else None) (jfield ''version'' j)
      in if \<not> only_keys [''required'', ''url'', ''revision'', ''version''] j then None
         else
           (case (jfield ''required'' j, url, revision, version) of
              (Some (JBool True), Some (Some u), Some (Some r), Some (Some v)) \<Rightarrow>
                Some \<lparr>tp_required = True, tp_url = Some u, tp_revision = Some r, tp_version = Some v\<rparr>
            | (Some (JBool False), Some u, Some r, Some v) \<Rightarrow>
                Some \<lparr>tp_required = False, tp_url = u, tp_revision = r, tp_version = v\<rparr>
            | _ \<Rightarrow> None))"

definition readCheckoutTerms :: "order_env \<Rightarrow> json option \<Rightarrow> api_error + terms_policy" where
  "readCheckoutTerms env setting =
     (case setting of
        None \<Rightarrow> Inr DEFAULT_CHECKOUT_TERMS
      | Some j \<Rightarrow> of_option (Service_Unavailable ''Checkout terms are temporarily unavailable.'')
          (checkoutTermsPolicySchema env j))"

definition requireCheckoutTerms ::
    "order_env \<Rightarrow> string option \<Rightarrow> instant \<Rightarrow> db \<Rightarrow> api_error + json option" where
  "requireCheckoutTerms env acceptedVersion now d =
     rbind (readCheckoutTerms env (find_setting ''business.checkout-terms'' d)) (\<lambda>policy.
       if \<not> tp_required policy then Inr None
       else if acceptedVersion \<noteq> tp_version policy
       then Inl (Unprocessable ''Review and accept the current terms of service before placing your order.'')
       else Inr (Some (JObj [(''url'', jstr_opt (tp_url policy)), (''revision'', jstr_opt (tp_revision policy)),
                             (''version'', jstr_opt (tp_version policy)), (''acceptedAt'', JStr (toISOString now))])))"

section \<open>Numbers and names\<close>

definition hex_digit :: "nat \<Rightarrow> char" where
  "hex_digit n = ''0123456789ABCDEF'' ! (n mod 16)"

definition hex_upper :: "nat list \<Rightarrow> string" where
  "hex_upper bytes = concat (map (\<lambda>b. [hex_digit (b div 16), hex_digit b]) bytes)"

definition createHumanReadableNumber :: "string \<Rightarrow> instant \<Rightarrow> nat list \<Rightarrow> string" where
  "createHumanReadableNumber pre now entropy =
     pre @ ''-'' @ filter (\<lambda>c. c \<noteq> CHR ''-'') (take 10 (toISOString now)) @ ''-'' @ hex_upper entropy"

fun period_label :: "price_period \<Rightarrow> string" where
  \<comment> \<open>in lower case\<close>
  "period_label One_Time = ''one_time''"
| "period_label (Every MONTHLY) = ''monthly''"
| "period_label (Every QUARTERLY) = ''quarterly''"
| "period_label (Every ANNUAL) = ''annual''"
| "period_label Semiannual = ''semiannual''"
| "period_label Biennial = ''biennial''"
| "period_label Triennial = ''triennial''"

definition dash :: string where
  \<comment> \<open>an em dash between spaces, in UTF-8\<close>
  "dash = [CHR '' '', CHR 0xE2, CHR 0x80, CHR 0x94, CHR '' '']"

definition readHostingProvisioningMode :: "json option \<Rightarrow> api_error + string" where
  "readHostingProvisioningMode snapshot =
     (case snapshot of
        None \<Rightarrow> Inr ''STANDARD''
      | Some JNull \<Rightarrow> Inr ''STANDARD''
      | Some (JObj fs) \<Rightarrow>
          (case map_of fs ''hostingProvisioningMode'' of
             None \<Rightarrow> Inr ''STANDARD''
           | Some (JStr m) \<Rightarrow>
               if List.member [''STANDARD'', ''PRESERVE_EXISTING''] m then Inr m else Inl (Server_Error ''ZodError'')
           | Some _ \<Rightarrow> Inl (Server_Error ''ZodError''))
      | Some _ \<Rightarrow> Inl (Server_Error ''ZodError''))"

definition adminDomainAction :: "order_env \<Rightarrow> json option \<Rightarrow> string option" where
  \<comment> \<open>\<open>adminDomainOrderSnapshotSchema\<close>: its action\<close>
  "adminDomainAction env snapshot =
     Option.bind snapshot (\<lambda>j.
       if only_keys [''adminDomainAction'', ''domainRecordId'', ''sendToRegistrar''] j \<and>
          (case str_field ''domainRecordId'' j of Some k \<Rightarrow> oe_uuid env k | None \<Rightarrow> False)
       then
         (case (str_field ''adminDomainAction'' j, jfield ''sendToRegistrar'' j) of
            (Some act, Some (JBool b)) \<Rightarrow>
              if (act = ''EXISTING'' \<and> \<not> b) \<or> (act = ''REGISTRATION'' \<and> b) then Some act else None
          | _ \<Rightarrow> None)
       else None)"

section \<open>The catalogue\<close>

definition price_current :: "instant \<Rightarrow> price \<Rightarrow> bool" where
  \<comment> \<open>active, not deleted, and within its window\<close>
  "price_current now p \<longleftrightarrow>
     pp_isActive p \<and> pp_deletedAt p = None \<and>
     (case pp_validFrom p of None \<Rightarrow> True | Some t \<Rightarrow> t \<le> now) \<and>
     (case pp_validUntil p of None \<Rightarrow> True | Some t \<Rightarrow> now < t)"

definition find_product :: "uuid \<Rightarrow> db \<Rightarrow> product option" where
  "find_product k d = List.find (\<lambda>p. pr_id p = k) (d_products d)"

definition product_sold :: "product_kind \<Rightarrow> product \<Rightarrow> bool" where
  "product_sold kind p \<longleftrightarrow> pr_kind p = kind \<and> pr_deletedAt p = None \<and> pr_status p = Prod_ACTIVE"

definition hosting_price :: "order_input \<Rightarrow> order_source \<Rightarrow> instant \<Rightarrow> db \<Rightarrow> (price \<times> product) option" where
  "hosting_price input source now d =
     Option.bind
       (List.find (\<lambda>p. pp_id p = or_priceId input \<and> pp_productId p = or_productId input \<and> price_current now p \<and>
          (case find_product (pp_productId p) d of
             None \<Rightarrow> False
           | Some q \<Rightarrow> product_sold Kind_HOSTING q \<and> (source = By_CUSTOMER \<longrightarrow> pr_publicVisible q))) (d_prices d))
       (\<lambda>p. map_option (Pair p) (find_product (pp_productId p) d))"

definition add_on_price :: "order_input \<Rightarrow> price \<Rightarrow> instant \<Rightarrow> db \<Rightarrow> price \<Rightarrow> bool" where
  "add_on_price input hosting now d p \<longleftrightarrow>
     price_current now p \<and> pp_currency p = pp_currency hosting \<and>
     (pp_period p = One_Time \<or> pp_period p = pp_period hosting) \<and> List.member (or_addOnPriceIds input) (pp_id p) \<and>
     (case find_product (pp_productId p) d of
        None \<Rightarrow> False
      | Some q \<Rightarrow> product_sold Kind_ADD_ON q \<and> List.member (d_eligibility d) (or_productId input, pr_id q))"

definition add_on_prices :: "order_input \<Rightarrow> price \<Rightarrow> instant \<Rightarrow> db \<Rightarrow> price list" where
  "add_on_prices input hosting now d =
     (if or_addOnPriceIds input = [] then []
      else sort_key pp_productId (filter (add_on_price input hosting now d) (d_prices d)))"

definition ordering_customer :: "uuid \<Rightarrow> bool \<Rightarrow> db \<Rightarrow> (customer \<times> user) option" where
  "ordering_customer k allowPendingVerification d =
     (case List.find (\<lambda>c. c_id c = k \<and> c_deletedAt c = None \<and> c_status c = Cust_ACTIVE \<and>
             list_ex (\<lambda>u. u_id u = c_userId c \<and> u_deletedAt u = None \<and>
               (u_status u = User_ACTIVE \<or> (allowPendingVerification \<and> u_status u = User_PENDING_VERIFICATION)))
               (d_users d)) (d_customers d) of
        None \<Rightarrow> None
      | Some c \<Rightarrow> map_option (Pair c) (List.find (\<lambda>u. u_id u = c_userId c) (d_users d)))"

section \<open>Rows\<close>

definition order_check :: "order \<Rightarrow> bool" where
  "order_check r \<longleftrightarrow>
     currencyCodeSchema (ord_currency r) \<and> 0 \<le> ord_subtotal r \<and> 0 \<le> ord_setupTotal r \<and> 0 \<le> ord_discountTotal r \<and>
     0 \<le> ord_taxTotal r \<and> 0 \<le> ord_total r \<and>
     ord_total r = ord_subtotal r + ord_setupTotal r - ord_discountTotal r + ord_taxTotal r"

fun place_items :: "uuid \<Rightarrow> nat \<Rightarrow> order_item list \<Rightarrow> order_item list" where
  \<comment> \<open>the rows with their identifiers\<close>
  "place_items orderId n [] = []"
| "place_items orderId n (oi # ois) =
     oi\<lparr>oi_id := show_nat n, oi_orderId := orderId\<rparr> # place_items orderId (Suc n) ois"

definition create_order :: "order \<Rightarrow> order_item list \<Rightarrow> (uuid \<times> order_item list) tx" where
  \<comment> \<open>\<open>order.create\<close> with its items\<close>
  "create_order row items d =
     (let k = fresh_uuid d; rows = place_items k (Suc (d_supply d)) items
      in if \<not> order_check row \<or> \<not> list_all order_item_check items then Inl Check_Violation
         else if list_ex (\<lambda>r. ord_id r = k \<or> ord_number r = ord_number row \<or>
                 ord_submissionKey r = ord_submissionKey row) (d_orders d) \<or>
                 list_ex (\<lambda>oi. List.member (map oi_id rows) (oi_id oi)) (d_orderItems d)
         then Inl Unique_Violation
         else Inr (d\<lparr>d_orders := d_orders d @ [row\<lparr>ord_id := k\<rparr>], d_orderItems := d_orderItems d @ rows,
                     d_supply := d_supply d + Suc (length items)\<rparr>, (k, rows)))"

definition hosting_item :: "order_input \<Rightarrow> price \<Rightarrow> product \<Rightarrow> string \<Rightarrow> order_item" where
  "hosting_item input p q package =
     \<lparr>oi_id = [], oi_orderId = [], oi_kind = Kind_HOSTING, oi_productId = pr_id q, oi_priceId = pp_id p,
      oi_productName = pr_name q, oi_description = pr_description q, oi_billingPeriod = pp_period p,
      oi_currency = pp_currency p, oi_unitAmount = pp_amount p, oi_setupFee = pp_setupFee p, oi_quantity = 1,
      oi_lineTotal = pp_amount p + pp_setupFee p, oi_requestedDomain = Some (or_requestedDomain input),
      oi_provisioningSnapshot = Some (JObj
        [(''productSlug'', JStr (pr_slug q)),
         (''hostingProvisioningMode'', JStr (case or_hostingMode input of Some m \<Rightarrow> m | None \<Rightarrow> ''STANDARD'')),
         (''hostingPackageIdentifier'', JStr package)]),
      oi_fulfilledAt = None, oi_renewalEndsAt = None\<rparr>"

definition add_on_item :: "order_input \<Rightarrow> price \<Rightarrow> db \<Rightarrow> price \<Rightarrow> order_item" where
  "add_on_item input hosting d p =
     (let q = find_product (pp_productId p) d
      in \<lparr>oi_id = [], oi_orderId = [], oi_kind = Kind_ADD_ON, oi_productId = pp_productId p, oi_priceId = pp_id p,
          oi_productName = (case q of Some q \<Rightarrow> pr_name q | None \<Rightarrow> []),
          oi_description = Option.bind q pr_description, oi_billingPeriod = pp_period p,
          oi_currency = pp_currency hosting, oi_unitAmount = pp_amount p, oi_setupFee = 0, oi_quantity = 1,
          oi_lineTotal = pp_amount p, oi_requestedDomain = Some (or_requestedDomain input),
          oi_provisioningSnapshot = None, oi_fulfilledAt = None, oi_renewalEndsAt = None\<rparr>)"

definition add_on_total :: "price list \<Rightarrow> int" where
  "add_on_total addOns = foldl (\<lambda>sum p. sum + pp_amount p) 0 addOns"

definition placed_order_row ::
    "order_input \<Rightarrow> price \<Rightarrow> price list \<Rightarrow> customer \<Rightarrow> user \<Rightarrow> json option \<Rightarrow> string \<Rightarrow> instant \<Rightarrow> order" where
  "placed_order_row input p addOns c u terms number now =
     \<lparr>ord_id = [], ord_number = number, ord_submissionKey = or_submissionKey input, ord_customerId = c_id c,
      ord_status = Ord_AWAITING_PAYMENT, ord_currency = pp_currency p,
      ord_subtotal = pp_amount p + add_on_total addOns, ord_setupTotal = pp_setupFee p, ord_discountTotal = 0,
      ord_taxTotal = 0, ord_total = pp_amount p + pp_setupFee p + add_on_total addOns,
      ord_customerEmail = u_email u, ord_termsAcceptance = terms, ord_notes = or_notes input, ord_placedAt = now,
      ord_completedAt = None, ord_cancelledAt = None, ord_updatedAt = now\<rparr>"

definition order_line :: "uuid \<Rightarrow> nat \<Rightarrow> string \<Rightarrow> string \<Rightarrow> int \<Rightarrow> int \<Rightarrow> invoice_item" where
  "order_line itemId position description currency unitAmount lineTotal =
     \<lparr>it_linePosition = position, it_orderItemId = Some itemId, it_serviceId = None, it_description = description,
      it_currency = currency, it_quantity = 1, it_unitAmount = unitAmount, it_discountAmount = 0, it_taxAmount = 0,
      it_lineTotal = lineTotal, it_periodStart = None, it_periodEnd = None\<rparr>"

definition add_on_order_line :: "order_input \<Rightarrow> nat \<Rightarrow> order_item \<Rightarrow> invoice_item" where
  "add_on_order_line input position oi =
     order_line (oi_id oi) position
       (oi_productName oi @ dash @
        (if oi_billingPeriod oi = One_Time then ''one-time'' else period_label (oi_billingPeriod oi)) @
        '' add-on for '' @ or_requestedDomain input)
       (oi_currency oi) (oi_unitAmount oi) (oi_lineTotal oi)"

definition order_lines :: "order_input \<Rightarrow> price \<Rightarrow> product \<Rightarrow> uuid \<Rightarrow> order_item list \<Rightarrow> invoice_item list" where
  "order_lines input p q itemId rows =
     order_line itemId 1
       (pr_name q @ dash @ period_label (pp_period p) @ '' hosting for '' @ or_requestedDomain input)
       (pp_currency p) (pp_amount p) (pp_amount p) #
     (if 0 < pp_setupFee p
      then [order_line itemId 2 (pr_name q @ dash @ ''one-time setup fee'') (pp_currency p) (pp_setupFee p) (pp_setupFee p)]
      else []) @
     map (\<lambda>(n, oi). add_on_order_line input n oi)
       (List.enumerate (if 0 < pp_setupFee p then 3 else 2) (filter (\<lambda>oi. oi_kind oi = Kind_ADD_ON) rows))"

definition first_invoice_row ::
    "order_input \<Rightarrow> uuid \<Rightarrow> price \<Rightarrow> int \<Rightarrow> customer \<Rightarrow> user \<Rightarrow> json \<Rightarrow> string \<Rightarrow> invoice_item list \<Rightarrow> instant \<Rightarrow> invoice" where
  "first_invoice_row input orderId p amount c u identity number lines now =
     \<lparr>i_id = [], i_number = number, i_submissionKey = ''invoice:'' @ or_submissionKey input, i_customerId = c_id c,
      i_orderId = Some orderId, i_status = Inv_UNPAID, i_currency = pp_currency p, i_subtotal = amount,
      i_discountTotal = 0, i_taxTotal = 0, i_total = amount, i_creditTotal = 0, i_amountPaid = 0, i_balanceDue = amount,
      i_snapshot = customer_snapshot c u identity, i_issuedAt = Some now, i_dueAt = now, i_paidAt = None,
      i_cancelledAt = None, i_updatedAt = now, i_items = lines\<rparr>"

section \<open>Placing an order\<close>

definition order_payload :: "uuid \<Rightarrow> json" where
  "order_payload k = JObj [(''schemaVersion'', JNum 1), (''orderId'', JStr k)]"

definition place_order_tx ::
    "order_env \<Rightarrow> order_input \<Rightarrow> price \<Rightarrow> product \<Rightarrow> string \<Rightarrow> price list \<Rightarrow> customer \<Rightarrow> user \<Rightarrow> json option \<Rightarrow> nat list \<Rightarrow>
     uuid \<Rightarrow> order_source \<Rightarrow> instant \<Rightarrow> uuid tx" where
  \<comment> \<open>the writes of the transaction\<close>
  "place_order_tx env input p q package addOns c u terms entropy userId source now d =
     rbind (create_order
              (placed_order_row input p addOns c u terms (createHumanReadableNumber ''ORD'' now entropy) now)
              (hosting_item input p q package # map (add_on_item input p d) addOns) d) (\<lambda>(d1, (k, rows)).
     case List.find (\<lambda>oi. oi_kind oi = Kind_HOSTING) rows of
       None \<Rightarrow> Inl (Server_Error ''Order item creation failed'')
     | Some item \<Rightarrow>
       let identity = (case find_setting ''business.identity'' d1 of
                         Some v \<Rightarrow> v | None \<Rightarrow> JObj [(''name'', JStr ''Webhost Billing'')])
       in rbind (allocateInvoiceNumber d1) (\<lambda>(d2, number).
          rbind (create_invoice
                   (first_invoice_row input k p (pp_amount p + pp_setupFee p + add_on_total addOns) c u identity number
                      (order_lines input p q (oi_id item) rows) now) d2) (\<lambda>(d3, invoiceId).
          rbind (create_outbox now ''ORDER'' k ''EMAIL_ORDER_RECEIVED'' (''email:order-received:'' @ k)
                   (order_payload k) d3) (\<lambda>(d4, _).
          rbind (create_outbox now ''INVOICE'' invoiceId ''EMAIL_INVOICE_CREATED''
                   (''email:invoice-created:'' @ invoiceId) (invoice_email_payload invoiceId) d4) (\<lambda>(d5, _).
          Inr (log_activity
                 \<lparr>a_actorUserId = Some userId,
                  a_action = (case source of By_ADMIN \<Rightarrow> ''ORDER_CREATED_BY_ADMIN'' | By_CUSTOMER \<Rightarrow> ''ORDER_CREATED_BY_CUSTOMER''),
                  a_entityType = ''ORDER'', a_entityId = Some k, a_correlationId = None,
                  a_metadata = [(''customerId'', JStr (c_id c)), (''productId'', JStr (pr_id q)),
                    (''productPriceId'', JStr (pp_id p)), (''requestedDomain'', JStr (or_requestedDomain input))]\<rparr> d5, k))))))"

definition createOrder_tx ::
    "order_env \<Rightarrow> order_input \<Rightarrow> uuid \<Rightarrow> order_source \<Rightarrow> bool \<Rightarrow> nat list \<Rightarrow> instant \<Rightarrow> uuid tx" where
  \<comment> \<open>\<open>persist\<close>, for a request without a domain selection\<close>
  "createOrder_tx env input userId source allowPendingVerification entropy now d =
     rbind (of_option (Unprocessable ''The selected customer account is not active.'')
              (ordering_customer (or_customerId input) allowPendingVerification d)) (\<lambda>(c, u).
     rbind (of_option (Unprocessable ''The selected product price is not available for sale.'')
              (hosting_price input source now d)) (\<lambda>(p, q).
     case pr_hostingPackage q of
       None \<Rightarrow> Inl (Unprocessable ''The selected product is not ready for provisioning.'')
     | Some package \<Rightarrow>
       if package = [] then Inl (Unprocessable ''The selected product is not ready for provisioning.'')
       else if pp_amount p > POSTGRES_BIGINT_MAX - pp_setupFee p
       then Inl (Unprocessable ''The selected price total exceeds the supported range.'')
       else
         let addOns = add_on_prices input p now d
         in if length addOns \<noteq> length (or_addOnPriceIds input) \<or> \<not> distinct (map pp_productId addOns)
            then Inl (Unprocessable ''A selected add-on is no longer available for this plan or price.'')
            else if pp_amount p + pp_setupFee p + add_on_total addOns > POSTGRES_BIGINT_MAX
            then Inl (Unprocessable ''The combined order total exceeds the supported range.'')
            else
              rbind (case source of
                       By_CUSTOMER \<Rightarrow> requireCheckoutTerms env (or_acceptedTermsVersion input) now d
                     | By_ADMIN \<Rightarrow> Inr None) (\<lambda>terms.
              place_order_tx env input p q package addOns c u terms entropy userId source now d)))"

section \<open>The same submission again\<close>

definition find_order_by_key :: "string \<Rightarrow> db \<Rightarrow> order option" where
  "find_order_by_key k d = List.find (\<lambda>r. ord_submissionKey r = k) (d_orders d)"

definition listed_items :: "uuid \<Rightarrow> db \<Rightarrow> order_item list" where
  \<comment> \<open>\<open>orderInclude\<close>: by kind, creation and identifier; the items of an order are created together\<close>
  "listed_items orderId d =
     (let items = sort_key oi_id (items_of_order orderId d)
      in filter (\<lambda>oi. oi_kind oi = Kind_HOSTING) items @ filter (\<lambda>oi. oi_kind oi = Kind_DOMAIN) items @
         filter (\<lambda>oi. oi_kind oi = Kind_ADD_ON) items)"

definition matchesAddOns :: "order_item list \<Rightarrow> uuid list \<Rightarrow> bool" where
  "matchesAddOns items priceIds \<longleftrightarrow>
     (let purchased = filter (\<lambda>oi. oi_kind oi = Kind_ADD_ON) items
      in length purchased = length priceIds \<and> list_all (\<lambda>oi. List.member priceIds (oi_priceId oi)) purchased)"

definition item_of_kind :: "product_kind \<Rightarrow> order_item list \<Rightarrow> order_item option" where
  "item_of_kind kind items = List.find (\<lambda>oi. oi_kind oi = kind) items"

definition order_key_used :: api_error where
  "order_key_used = Conflict ''This submission key has already been used for another order.''"

definition order_duplicateResult ::
    "order_env \<Rightarrow> order \<Rightarrow> order_input \<Rightarrow> db \<Rightarrow> api_error + uuid \<times> bool" where
  "order_duplicateResult env existing input d =
     (let items = listed_items (ord_id existing) d; domainItem = item_of_kind Kind_DOMAIN items;
          registration = Option.bind domainItem (\<lambda>oi.
            List.find (\<lambda>dm. dm_orderItemId dm = Some (oi_id oi)) (rg_domains (d_registry d)))
      in case item_of_kind Kind_HOSTING items of
           None \<Rightarrow> Inl order_key_used
         | Some item \<Rightarrow>
           if ord_customerId existing \<noteq> or_customerId input \<or> oi_productId item \<noteq> or_productId input \<or>
              oi_priceId item \<noteq> or_priceId input \<or> oi_requestedDomain item \<noteq> Some (or_requestedDomain input)
           then Inl order_key_used
           else
             rbind (readHostingProvisioningMode (oi_provisioningSnapshot item)) (\<lambda>mode.
             if mode \<noteq> (case or_hostingMode input of Some m \<Rightarrow> m | None \<Rightarrow> ''STANDARD'') \<or>
                Option.bind registration dm_quoteId \<noteq> None \<or>
                adminDomainAction env (Option.bind domainItem oi_provisioningSnapshot) \<noteq> None \<or>
                \<not> matchesAddOns items (or_addOnPriceIds input)
             then Inl order_key_used
             else Inr (ord_id existing, True)))"

definition createOrder ::
    "order_env \<Rightarrow> order_input \<Rightarrow> uuid \<Rightarrow> order_source \<Rightarrow> nat list \<Rightarrow> instant \<Rightarrow> (uuid \<times> bool) handler" where
  \<comment> \<open>\<open>create\<close>, outside the transaction of a caller\<close>
  "createOrder env input userId source entropy now d =
     (if or_hostingMode input \<noteq> None \<and> source \<noteq> By_ADMIN
      then (d, Inl (Forbidden ''Only administrators can choose hosting preservation.''))
      else
        (case find_order_by_key (or_submissionKey input) d of
           Some existing \<Rightarrow> (d, order_duplicateResult env existing input d)
         | None \<Rightarrow>
           (case run_tx (createOrder_tx env input userId source False entropy now) d of
              (d', Inr k) \<Rightarrow> (d', Inr (k, False))
            | (d', Inl Unique_Violation) \<Rightarrow>
                (case find_order_by_key (or_submissionKey input) d' of
                   Some raced \<Rightarrow> (d', order_duplicateResult env raced input d')
                 | None \<Rightarrow> (d', Inl (Conflict ''Could not allocate a unique order number. Try again.'')))
            | (d', Inl e) \<Rightarrow> (d', Inl e))))"

definition guestDuplicate :: "order_input \<Rightarrow> string \<Rightarrow> db \<Rightarrow> api_error + uuid option" where
  \<comment> \<open>the order a guest placed with the key, if any\<close>
  "guestDuplicate input email d =
     (case find_order_by_key (or_submissionKey input) d of
        None \<Rightarrow> Inr None
      | Some existing \<Rightarrow>
        let items = listed_items (ord_id existing) d
        in (case item_of_kind Kind_HOSTING items of
              None \<Rightarrow> Inl order_key_used
            | Some item \<Rightarrow>
              if ord_customerEmail existing \<noteq> email \<or> oi_productId item \<noteq> or_productId input \<or>
                 oi_priceId item \<noteq> or_priceId input \<or> oi_requestedDomain item \<noteq> Some (or_requestedDomain input)
              then Inl order_key_used
              else
                rbind (readHostingProvisioningMode (oi_provisioningSnapshot item)) (\<lambda>mode.
                if mode \<noteq> ''STANDARD'' \<or> item_of_kind Kind_DOMAIN items \<noteq> None \<or>
                   \<not> matchesAddOns items (or_addOnPriceIds input)
                then Inl order_key_used else Inr (Some (ord_id existing)))))"

definition order_get :: "uuid \<Rightarrow> actor \<Rightarrow> uuid option \<Rightarrow> db \<Rightarrow> api_error + order" where
  "order_get k ac scope d =
     rbind (of_option (Not_Found ''Order was not found.'') (find_order k d)) (\<lambda>r.
       if (case scope of None \<Rightarrow> False | Some c \<Rightarrow> c \<noteq> [] \<and> js_lower (ord_customerId r) \<noteq> js_lower c)
       then Inl (Not_Found ''Order was not found.'')
       else if actor_role ac = CUSTOMER \<and> actor_customerId ac \<noteq> Some (ord_customerId r)
       then Inl (Forbidden ''You do not have access to this order.'') else Inr r)"

section \<open>Status changes of an administrator\<close>

fun orderTransitions :: "order_status \<Rightarrow> order_status list" where
  \<comment> \<open>\<open>allowedTransitions\<close> of the order service\<close>
  "orderTransitions Ord_PENDING = [Ord_AWAITING_PAYMENT, Ord_REJECTED, Ord_CANCELLED, Ord_FAILED]"
| "orderTransitions Ord_AWAITING_PAYMENT = [Ord_PAID, Ord_REJECTED, Ord_CANCELLED, Ord_FAILED]"
| "orderTransitions Ord_PAID = [Ord_PROCESSING]"
| "orderTransitions Ord_PROCESSING = [Ord_COMPLETED, Ord_FAILED]"
| "orderTransitions Ord_COMPLETED = []"
| "orderTransitions Ord_REJECTED = []"
| "orderTransitions Ord_CANCELLED = []"
| "orderTransitions Ord_FAILED = [Ord_PROCESSING, Ord_CANCELLED]"

definition isOrderTransitionAllowed :: "order_status \<Rightarrow> order_status \<Rightarrow> bool" where
  "isOrderTransitionAllowed current next_status \<longleftrightarrow> List.member (orderTransitions current) next_status"

fun order_status_name :: "order_status \<Rightarrow> string" where
  "order_status_name Ord_PENDING = ''PENDING''"
| "order_status_name Ord_AWAITING_PAYMENT = ''AWAITING_PAYMENT''"
| "order_status_name Ord_PAID = ''PAID''"
| "order_status_name Ord_PROCESSING = ''PROCESSING''"
| "order_status_name Ord_COMPLETED = ''COMPLETED''"
| "order_status_name Ord_REJECTED = ''REJECTED''"
| "order_status_name Ord_CANCELLED = ''CANCELLED''"
| "order_status_name Ord_FAILED = ''FAILED''"

definition updateStatus_read :: "uuid \<Rightarrow> order_status \<Rightarrow> db \<Rightarrow> api_error + order" where
  \<comment> \<open>what is read and checked before the transaction\<close>
  "updateStatus_read k status d =
     rbind (of_option (Not_Found ''Order was not found.'') (find_order k d)) (\<lambda>current.
       if status = Ord_PAID
       then Inl (Unprocessable ''An order can be marked paid only by a verified payment workflow.'')
       else if \<not> isOrderTransitionAllowed (ord_status current) status
       then Inl (Unprocessable (''Order cannot move from '' @ order_status_name (ord_status current) @ '' to '' @
              order_status_name status @ ''.''))
       else Inr current)"

definition domain_checks :: "uuid \<Rightarrow> order_status \<Rightarrow> db \<Rightarrow> api_error + unit" where
  "domain_checks k status d =
     (case List.find (order_domain k d) (rg_domains (d_registry d)) of
        None \<Rightarrow> Inr ()
      | Some dm \<Rightarrow>
        let claimed = list_ex (\<lambda>p. ro_domainId p = dm_id dm \<and> ro_claimedAt p \<noteq> None) (rg_operations (d_registry d))
        in if status = Ord_PROCESSING
           then Inl (Conflict ''Use the domain registration review to approve this order.'')
           else if status = Ord_COMPLETED \<or> (claimed \<and> List.member [Ord_CANCELLED, Ord_REJECTED, Ord_FAILED] status)
           then Inl (Conflict ''Use the domain registration review; a claimed registration requires reconciliation.'')
           else Inr ())"

definition cancel_order_invoices :: "uuid \<Rightarrow> instant \<Rightarrow> unit tx" where
  \<comment> \<open>\<open>invoice.updateMany\<close> of the order's draft and unpaid invoices\<close>
  "cancel_order_invoices k now d =
     (let P = (\<lambda>i. i_orderId i = Some k \<and> (i_status i = Inv_DRAFT \<or> i_status i = Inv_UNPAID));
          f = (\<lambda>i. i\<lparr>i_status := Inv_CANCELLED, i_cancelledAt := Some now, i_updatedAt := now\<rparr>)
      in if list_ex (\<lambda>i. P i \<and> \<not> domain_invoice_guard i (f i) d) (d_invoices d)
         then Inl (Server_Error ''domain_invoice_guard'')
         else Inr (d\<lparr>d_invoices := update_many P f (d_invoices d)\<rparr>, ()))"

definition status_update :: "order_status \<Rightarrow> instant \<Rightarrow> order \<Rightarrow> order" where
  "status_update status now r =
     (let r1 = (if status = Ord_COMPLETED then r\<lparr>ord_completedAt := Some now\<rparr> else r)
      in if status = Ord_CANCELLED \<or> status = Ord_REJECTED then r1\<lparr>ord_cancelledAt := Some now\<rparr> else r1)"

definition updateStatus_tx :: "uuid \<Rightarrow> order_status \<Rightarrow> order \<Rightarrow> actor \<Rightarrow> instant \<Rightarrow> unit tx" where
  "updateStatus_tx k status current ac now d =
     rbind (domain_checks k status d) (\<lambda>_.
     if status = Ord_COMPLETED \<and> list_ex (\<lambda>oi. oi_kind oi = Kind_ADD_ON) (items_of_order k d) \<and>
        \<not> orderFulfillmentComplete k d
     then Inl (Conflict ''Finish hosting and add-on fulfillment before completing this order.'')
     else
       rbind (update_order k status (status_update status now) now d) (\<lambda>(d1, _).
       rbind (if status = Ord_CANCELLED \<or> status = Ord_REJECTED then cancel_order_invoices k now d1
              else Inr (d1, ())) (\<lambda>(d2, _).
       rbind (if status = Ord_PROCESSING
              then create_outbox now ''ORDER'' k ''EMAIL_ORDER_APPROVED''
                     (''email:order-approved:'' @ k @ '':'' @ toISOString (ord_updatedAt current)) (order_payload k) d2
              else Inr (d2, ())) (\<lambda>(d3, _).
       Inr (log_activity (admin_activity ac ''ORDER_STATUS_CHANGED_BY_ADMIN'' ''ORDER'' (Some k)
              [(''previousStatus'', JStr (order_status_name (ord_status current))),
               (''status'', JStr (order_status_name status))]) d3, ())))))"

definition updateStatus_from :: "db \<Rightarrow> uuid \<Rightarrow> order_status \<Rightarrow> actor \<Rightarrow> instant \<Rightarrow> unit tx" where
  \<comment> \<open>the transaction, after the order was read in the database \<open>d0\<close>\<close>
  "updateStatus_from d0 k status ac now d =
     rbind (updateStatus_read k status d0) (\<lambda>current. updateStatus_tx k status current ac now d)"

definition updateStatus :: "uuid \<Rightarrow> order_status \<Rightarrow> actor \<Rightarrow> instant \<Rightarrow> unit handler" where
  "updateStatus k status ac now d = run_tx (updateStatus_from d k status ac now) d"

section \<open>Fulfilling an add-on\<close>

definition first_invoice :: "uuid \<Rightarrow> db \<Rightarrow> invoice option" where
  \<comment> \<open>the oldest invoice of the order\<close>
  "first_invoice orderId d = List.find (\<lambda>i. i_orderId i = Some orderId) (d_invoices d)"

definition fulfillAddOn_tx :: "uuid \<Rightarrow> uuid \<Rightarrow> actor \<Rightarrow> instant \<Rightarrow> unit tx" where
  "fulfillAddOn_tx orderId itemId ac now d =
     rbind (of_option (Not_Found ''Order was not found.'') (find_order orderId d)) (\<lambda>ord.
     rbind (of_option (Not_Found ''Order was not found.'')
              (List.find (\<lambda>oi. oi_id oi = itemId \<and> oi_kind oi = Kind_ADD_ON) (listed_items orderId d))) (\<lambda>item.
     if oi_fulfilledAt item \<noteq> None then Inr (d, ())
     else if \<not> (case first_invoice orderId d of
                  None \<Rightarrow> False | Some i \<Rightarrow> i_status i = Inv_PAID \<and> i_balanceDue i = 0) \<or>
             (ord_status ord \<noteq> Ord_PAID \<and> ord_status ord \<noteq> Ord_PROCESSING)
     then Inl (Conflict ''Verify full payment before completing this add-on.'')
     else
       rbind (update_order_item itemId (\<lambda>oi. oi\<lparr>oi_fulfilledAt := Some now\<rparr>) d) (\<lambda>(d1, _).
       let d2 = log_activity (admin_activity ac ''HOSTING_ADD_ON_FULFILLED'' ''ORDER'' (Some orderId)
                  [(''orderItemId'', JStr itemId)]) d1
       in if ord_status ord = Ord_PROCESSING \<and> orderFulfillmentComplete orderId d2
          then update_order orderId Ord_COMPLETED (\<lambda>r. r\<lparr>ord_completedAt := Some now\<rparr>) now d2
          else Inr (d2, ()))))"

definition fulfillAddOn :: "uuid \<Rightarrow> uuid \<Rightarrow> actor \<Rightarrow> instant \<Rightarrow> unit handler" where
  "fulfillAddOn orderId itemId ac now = run_tx (fulfillAddOn_tx orderId itemId ac now)"

section \<open>What placing an order writes\<close>

lemma place_items_fields:
  "map oi_kind (place_items k n items) = map oi_kind items" "map oi_lineTotal (place_items k n items) = map oi_lineTotal items"
  "list_all (\<lambda>oi. oi_orderId oi = k) (place_items k n items)"
  by (induction items arbitrary: n) simp_all

lemma place_items_nth:
  "m < length items \<Longrightarrow> place_items k n items ! m = (items ! m)\<lparr>oi_id := show_nat (n + m), oi_orderId := k\<rparr>"
  by (induction items arbitrary: n m) (auto simp: nth_Cons split: nat.splits)

lemma create_order_cases:
  assumes "create_order row items d = Inr (d', (k, rows))"
  obtains "rows = place_items k (Suc (d_supply d)) items" and "order_check row" and "list_all order_item_check items"
    and "k \<notin> ord_id ` set (d_orders d)" and "ord_submissionKey row \<notin> ord_submissionKey ` set (d_orders d)"
    and "d' = d\<lparr>d_orders := d_orders d @ [row\<lparr>ord_id := k\<rparr>], d_orderItems := d_orderItems d @ rows,
                d_supply := d_supply d + Suc (length items)\<rparr>"
  using assms by (auto simp: create_order_def Let_def not_mem_keys list_ex_disj split: if_splits)

definition order_tables :: "db \<Rightarrow> order list \<times> order_item list \<times> payment list \<times> service list \<times> registry" where
  "order_tables d = (d_orders d, d_orderItems d, d_payments d, d_services d, d_registry d)"

lemma order_tables_calls:
  "allocateInvoiceNumber d = Inr (d', n) \<Longrightarrow> order_tables d' = order_tables d \<and> d_invoices d' = d_invoices d"
  "create_outbox now t k e key v d = Inr (d', u) \<Longrightarrow> order_tables d' = order_tables d \<and> d_invoices d' = d_invoices d"
  "order_tables (log_activity entry d) = order_tables d" "d_invoices (log_activity entry d) = d_invoices d"
  "create_invoice row d = Inr (d', i) \<Longrightarrow> order_tables d' = order_tables d"
  by (auto simp: order_tables_def allocateInvoiceNumber_def upsert_setting_def create_outbox_def log_activity_def
      Let_def create_invoice_def split: option.splits if_splits)

lemma place_order_tx_cases:
  assumes "place_order_tx env input p q package addOns c u terms entropy userId source now d = Inr (d', k)"
  obtains row rows item identity number d1 i where
    "row = placed_order_row input p addOns c u terms (createHumanReadableNumber ''ORD'' now entropy) now"
    and "create_order row (hosting_item input p q package # map (add_on_item input p d) addOns) d = Inr (d1, (k, rows))"
    and "List.find (\<lambda>oi. oi_kind oi = Kind_HOSTING) rows = Some item"
    and "d_invoices d' = d_invoices d @ [i]" and "order_tables d' = order_tables d1"
    and "i = (first_invoice_row input k p (pp_amount p + pp_setupFee p + add_on_total addOns) c u identity number
                (order_lines input p q (oi_id item) rows) now)\<lparr>i_id := i_id i\<rparr>"
    and "invoice_check i" and "list_all invoice_item_check (i_items i)" and "i_id i \<notin> i_id ` set (d_invoices d)"
proof -
  let ?row = "placed_order_row input p addOns c u terms (createHumanReadableNumber ''ORD'' now entropy) now"
  from assms obtain d1 rows item identity number d2 d3 d4 d5 entry j where
    1: "create_order ?row (hosting_item input p q package # map (add_on_item input p d) addOns) d = Inr (d1, (k, rows))"
    "List.find (\<lambda>oi. oi_kind oi = Kind_HOSTING) rows = Some item"
    and 2: "allocateInvoiceNumber d1 = Inr (d2, number)"
    and 3: "create_invoice (first_invoice_row input k p (pp_amount p + pp_setupFee p + add_on_total addOns) c u identity number
                (order_lines input p q (oi_id item) rows) now) d2 = Inr (d3, j)"
    and 4: "create_outbox now ''ORDER'' k ''EMAIL_ORDER_RECEIVED'' (''email:order-received:'' @ k) (order_payload k) d3
        = Inr (d4, ())"
    and 5: "create_outbox now ''INVOICE'' j ''EMAIL_INVOICE_CREATED'' (''email:invoice-created:'' @ j)
        (invoice_email_payload j) d4 = Inr (d5, ())" and d': "d' = log_activity entry d5"
    unfolding place_order_tx_def by (auto simp: result_simps split: option.splits)
  let ?i = "(first_invoice_row input k p (pp_amount p + pp_setupFee p + add_on_total addOns) c u identity number
                (order_lines input p q (oi_id item) rows) now)\<lparr>i_id := j\<rparr>"
  have same: "d_invoices d2 = d_invoices d"
    using order_tables_calls(1) [OF 2] 1(1) by (auto elim!: create_order_cases)
  have i: "invoice_check ?i" "list_all invoice_item_check (i_items ?i)" "j \<notin> i_id ` set (d_invoices d)"
    "d_invoices d3 = d_invoices d @ [?i]"
    using 3 same by (auto elim!: create_invoice_cases)
  moreover have "d_invoices d' = d_invoices d @ [?i]" "order_tables d' = order_tables d1"
    using order_tables_calls(1) [OF 2] order_tables_calls(5) [OF 3] order_tables_calls(2) [OF 4]
      order_tables_calls(2) [OF 5] order_tables_calls(3,4) i(4) d' by simp_all
  ultimately show ?thesis using that [OF refl 1, of ?i identity number] by simp
qed

lemma createOrder_tx_cases:
  assumes "createOrder_tx env input userId source pending entropy now d = Inr (d', k)"
  obtains c u p q package addOns terms where "ordering_customer (or_customerId input) pending d = Some (c, u)"
    and "hosting_price input source now d = Some (p, q)" and "addOns = add_on_prices input p now d"
    and "length addOns = length (or_addOnPriceIds input)"
    and "pp_amount p + pp_setupFee p + add_on_total addOns \<le> POSTGRES_BIGINT_MAX"
    and "place_order_tx env input p q package addOns c u terms entropy userId source now d = Inr (d', k)"
proof -
  from assms obtain c u p q where 1: "ordering_customer (or_customerId input) pending d = Some (c, u)"
    "hosting_price input source now d = Some (p, q)"
    unfolding createOrder_tx_def by (auto simp: result_simps)
  show ?thesis
    using assms 1 that [OF 1 refl]
    by (auto simp: createOrder_tx_def Let_def result_simps not_less split: option.splits if_splits)
qed


lemma order_lines_unserviced: "service_keys (order_lines input p q k rows) = []"
  by (auto simp: service_keys_def order_lines_def order_line_def add_on_order_line_def filter_empty_conv)

interpretation place_order: ledger_client "createOrder_tx env input userId source pending entropy now"
  for env input userId source pending entropy now
proof
  fix d d' k
  assume inv: "ledger_inv (ledger_of d)" and run: "createOrder_tx env input userId source pending entropy now d = Inr (d', k)"
  from run obtain c u p q package addOns terms where
    "place_order_tx env input p q package addOns c u terms entropy userId source now d = Inr (d', k)"
    by (rule createOrder_tx_cases)
  then show "ledger_steps (ledger_of d) (ledger_of d')"
  proof (rule place_order_tx_cases)
    fix row rows item identity number d1 i
    assume new: "create_order row (hosting_item input p q package # map (add_on_item input p d) addOns) d = Inr (d1, (k, rows))"
      and d': "d_invoices d' = d_invoices d @ [i]" "order_tables d' = order_tables d1"
      and i: "i = (first_invoice_row input k p (pp_amount p + pp_setupFee p + add_on_total addOns) c u identity number
                (order_lines input p q (oi_id item) rows) now)\<lparr>i_id := i_id i\<rparr>"
      and ok: "invoice_check i" "list_all invoice_item_check (i_items i)" "i_id i \<notin> i_id ` set (d_invoices d)"
    have fields: "i_amountPaid i = 0" "i_status i = Inv_UNPAID" "service_keys (i_items i) = []"
      by (subst i, simp add: first_invoice_row_def order_lines_unserviced)+
    have "d_payments d' = d_payments d"
      using new d'(2) by (auto simp: order_tables_def elim!: create_order_cases)
    moreover have "ledger_step (d_invoices d, d_payments d) (d_invoices d @ [i], d_payments d)"
      by (rule open_invoice) (use fields ok inv in \<open>simp_all add: invoice_ok_def ledger_inv_iff ledger_of_def\<close>)
    ultimately show ?thesis using d'(1) by (simp add: ledger_of_def r_into_rtranclp)
  qed
qed

lemma add_on_total_sum: "add_on_total addOns = sum_list (map pp_amount addOns)"
proof -
  have "foldl (\<lambda>n p. n + pp_amount p) a addOns = a + sum_list (map pp_amount addOns)" for a
    by (induction addOns arbitrary: a) simp_all
  then show ?thesis by (simp add: add_on_total_def)
qed

lemma add_on_item_fields [simp]:
  "oi_kind (add_on_item input h d p) = Kind_ADD_ON" "oi_lineTotal (add_on_item input h d p) = pp_amount p"
  "oi_priceId (add_on_item input h d p) = pp_id p"
  by (simp_all add: add_on_item_def Let_def)

lemma hosting_item_fields [simp]:
  "oi_kind (hosting_item input p q package) = Kind_HOSTING"
  "oi_lineTotal (hosting_item input p q package) = pp_amount p + pp_setupFee p"
  by (simp_all add: hosting_item_def)

lemma placed_rows:
  assumes "rows = place_items k n (hosting_item input p q package # map (add_on_item input h d) addOns)"
  obtains item adds where "rows = item # adds" and "item = (hosting_item input p q package)\<lparr>oi_id := show_nat n, oi_orderId := k\<rparr>"
    and "list_all (\<lambda>oi. oi_kind oi = Kind_ADD_ON \<and> oi_orderId oi = k) adds"
    and "map oi_lineTotal adds = map pp_amount addOns" and "map oi_priceId adds = map pp_id addOns"
proof -
  have "list_all (\<lambda>oi. oi_kind oi = Kind_ADD_ON \<and> oi_orderId oi = k) (place_items k m (map (add_on_item input h d) addOns)) \<and>
      map oi_lineTotal (place_items k m (map (add_on_item input h d) addOns)) = map pp_amount addOns \<and>
      map oi_priceId (place_items k m (map (add_on_item input h d) addOns)) = map pp_id addOns" for m
    by (induction addOns arbitrary: m) simp_all
  then show ?thesis using that assms by simp
qed

lemma order_lines_sum:
  assumes "list_all (\<lambda>oi. oi_kind oi = Kind_ADD_ON) adds" and "0 \<le> pp_setupFee p" and "oi_kind item = Kind_HOSTING"
  shows "sum_list (map it_lineTotal (order_lines input p q k (item # adds))) =
      pp_amount p + pp_setupFee p + sum_list (map oi_lineTotal adds)"
    and "map it_linePosition (order_lines input p q k (item # adds)) = [1..<Suc (length (order_lines input p q k (item # adds)))]"
proof -
  have adds: "filter (\<lambda>oi. oi_kind oi = Kind_ADD_ON) adds = adds" using assms(1) by (simp add: filter_id_conv list_all_iff)
  have sums: "map (\<lambda>(n, oi). it_lineTotal (add_on_order_line input n oi)) (List.enumerate m adds) = map oi_lineTotal adds" for m
    by (induction adds arbitrary: m) (simp_all add: add_on_order_line_def order_line_def)
  have positions: "map (\<lambda>(n, oi). it_linePosition (add_on_order_line input n oi)) (List.enumerate m adds) = [m..<m + length adds]" for m
    by (simp add: add_on_order_line_def order_line_def split_def flip: map_fst_enumerate)
  show "sum_list (map it_lineTotal (order_lines input p q k (item # adds))) =
      pp_amount p + pp_setupFee p + sum_list (map oi_lineTotal adds)"
    using assms(2,3) sums adds by (auto simp: order_lines_def order_line_def split_def comp_def)
  have upt: "[m..<m + Suc n] = m # [Suc m..<Suc m + n]" for m n :: nat
    by (simp add: upt_conv_Cons del: upt_Suc)
  have len: "length (order_lines input p q k (item # adds)) = (if 0 < pp_setupFee p then 2 else 1) + length adds"
    using assms(3) adds by (simp add: order_lines_def)
  have "map it_linePosition (order_lines input p q k (item # adds)) =
      (if 0 < pp_setupFee p then 1 # 2 # [3..<3 + length adds] else 1 # [2..<2 + length adds])"
    using assms(3) positions adds by (simp add: order_lines_def order_line_def split_def comp_def)
  also have "\<dots> = [1..<Suc (length (order_lines input p q k (item # adds)))]"
    using upt [of 1 "Suc (length adds)"] upt [of 2 "length adds"] upt [of 1 "length adds"]
    by (simp add: len eval_nat_numeral del: upt_Suc)
  finally show "map it_linePosition (order_lines input p q k (item # adds)) = [1..<Suc (length (order_lines input p q k (item # adds)))]" .
qed

definition order_rows_ok :: "db \<Rightarrow> bool" where
  \<comment> \<open>the foreign key of the order items\<close>
  "order_rows_ok d \<longleftrightarrow> (\<forall>oi \<in> set (d_orderItems d). oi_orderId oi \<in> ord_id ` set (d_orders d))"

lemma items_of_new_order:
  assumes "create_order row items d = Inr (d1, (k, rows))" and "order_rows_ok d" and "order_tables d' = order_tables d1"
  shows "items_of_order k d' = rows" and "find_order k d' = Some (row\<lparr>ord_id := k\<rparr>)"
    and "find_order_by_key (ord_submissionKey row) d' = Some (row\<lparr>ord_id := k\<rparr>)" and "d_registry d' = d_registry d"
    and "d_orderItems d' = d_orderItems d @ rows"
proof -
  have "items_of_order k d' = rows \<and> find_order k d' = Some (row\<lparr>ord_id := k\<rparr>) \<and>
      find_order_by_key (ord_submissionKey row) d' = Some (row\<lparr>ord_id := k\<rparr>) \<and> d_registry d' = d_registry d \<and>
      d_orderItems d' = d_orderItems d @ rows"
    using assms(1)
  proof (rule create_order_cases)
  assume rows: "rows = place_items k (Suc (d_supply d)) items" and k: "k \<notin> ord_id ` set (d_orders d)"
    and key: "ord_submissionKey row \<notin> ord_submissionKey ` set (d_orders d)"
    and d1: "d1 = d\<lparr>d_orders := d_orders d @ [row\<lparr>ord_id := k\<rparr>], d_orderItems := d_orderItems d @ rows,
                d_supply := d_supply d + Suc (length items)\<rparr>"
  have d': "d_orders d' = d_orders d @ [row\<lparr>ord_id := k\<rparr>]" "d_orderItems d' = d_orderItems d @ rows"
    "d_registry d' = d_registry d" using assms(3) d1 by (simp_all add: order_tables_def)
  have "filter (\<lambda>oi. oi_orderId oi = k) (d_orderItems d) = []"
    using k assms(2) by (auto simp: order_rows_ok_def filter_empty_conv)
  moreover have "filter (\<lambda>oi. oi_orderId oi = k) rows = rows"
    using place_items_fields(3) [of k "Suc (d_supply d)" items] rows by (simp add: filter_id_conv list_all_iff)
  moreover have "List.find (\<lambda>r. ord_id r = k) (d_orders d) = None"
    "List.find (\<lambda>r. ord_submissionKey r = ord_submissionKey row) (d_orders d) = None"
    using k key by (auto simp: find_None_iff_all) (metis image_eqI)
    ultimately show ?thesis
      using d' by (simp add: items_of_order_def find_order_def find_order_by_key_def find_app)
  qed
  then show "items_of_order k d' = rows" "find_order k d' = Some (row\<lparr>ord_id := k\<rparr>)"
    "find_order_by_key (ord_submissionKey row) d' = Some (row\<lparr>ord_id := k\<rparr>)" "d_registry d' = d_registry d"
    "d_orderItems d' = d_orderItems d @ rows" by simp_all
qed

text \<open>
  C15: the first invoice of an order charges what was ordered: its lines, numbered from 1, add up to the total
  of the order and so do the order's items, the whole total is due, and nothing but the order and this one
  unpaid invoice is added to the books.
\<close>

theorem order_invoice_exact:
  assumes "createOrder_tx env input userId source pending entropy now d = Inr (d', k)" and "order_rows_ok d"
  shows "\<exists>r i. find_order k d' = Some r \<and> ord_status r = Ord_AWAITING_PAYMENT \<and>
     ord_total r = ord_subtotal r + ord_setupTotal r \<and> ord_total r \<le> POSTGRES_BIGINT_MAX \<and>
     sum_list (map oi_lineTotal (items_of_order k d')) = ord_total r \<and>
     d_invoices d' = d_invoices d @ [i] \<and> d_payments d' = d_payments d \<and>
     i_orderId i = Some k \<and> i_customerId i = ord_customerId r \<and> i_status i = Inv_UNPAID \<and>
     i_total i = ord_total r \<and> i_balanceDue i = ord_total r \<and>
     sum_list (map it_lineTotal (i_items i)) = ord_total r \<and>
     map it_linePosition (i_items i) = [1..<Suc (length (i_items i))]"
  using assms(1)
proof (rule createOrder_tx_cases)
  fix c u p q package addOns terms
  assume bound: "pp_amount p + pp_setupFee p + add_on_total addOns \<le> POSTGRES_BIGINT_MAX"
    and tx: "place_order_tx env input p q package addOns c u terms entropy userId source now d = Inr (d', k)"
  from tx show ?thesis
  proof (rule place_order_tx_cases)
    fix row rows item identity number d1 i
    assume row: "row = placed_order_row input p addOns c u terms (createHumanReadableNumber ''ORD'' now entropy) now"
      and new: "create_order row (hosting_item input p q package # map (add_on_item input p d) addOns) d = Inr (d1, (k, rows))"
      and item: "List.find (\<lambda>oi. oi_kind oi = Kind_HOSTING) rows = Some item"
      and d': "d_invoices d' = d_invoices d @ [i]" "order_tables d' = order_tables d1"
      and i: "i = (first_invoice_row input k p (pp_amount p + pp_setupFee p + add_on_total addOns) c u identity number
                (order_lines input p q (oi_id item) rows) now)\<lparr>i_id := i_id i\<rparr>"
    have checks: "rows = place_items k (Suc (d_supply d)) (hosting_item input p q package # map (add_on_item input p d) addOns)"
      "order_check row" "d_payments d' = d_payments d"
      using new d'(2) by (auto simp: order_tables_def elim!: create_order_cases)
    from checks(1) show ?thesis
    proof (rule placed_rows)
      fix hosting adds
      assume rows: "rows = hosting # adds" "hosting = (hosting_item input p q package)\<lparr>oi_id := show_nat (Suc (d_supply d)), oi_orderId := k\<rparr>"
        "list_all (\<lambda>oi. oi_kind oi = Kind_ADD_ON \<and> oi_orderId oi = k) adds" "map oi_lineTotal adds = map pp_amount addOns"
      have kinds: "oi_kind hosting = Kind_HOSTING" "oi_lineTotal hosting = pp_amount p + pp_setupFee p"
        "list_all (\<lambda>oi. oi_kind oi = Kind_ADD_ON) adds" "0 \<le> pp_setupFee p"
        using rows checks(2) by (auto simp: list_all_iff row order_check_def placed_order_row_def)
      let ?lines = "order_lines input p q (oi_id item) (hosting # adds)"
      have i': "i_items i = ?lines" "i_total i = ord_total row" "i_balanceDue i = ord_total row" "i_status i = Inv_UNPAID"
        "i_orderId i = Some k" "i_customerId i = ord_customerId row"
        by (subst i, simp add: first_invoice_row_def row placed_order_row_def rows(1))+
      have amount: "ord_total row = pp_amount p + pp_setupFee p + sum_list (map pp_amount addOns)"
        "ord_total row = ord_subtotal row + ord_setupTotal row" "ord_status row = Ord_AWAITING_PAYMENT"
        by (simp_all add: row placed_order_row_def add_on_total_sum)
      show ?thesis
        using items_of_new_order(1,2) [OF new assms(2) d'(2)] order_lines_sum [OF kinds(3,4,1)] i' amount bound
          kinds(2) rows(1,4) d'(1) checks(3) by (simp add: add_on_total_sum)
    qed
  qed
qed

section \<open>Placing the same order again\<close>

lemma createOrder_fresh:
  assumes "createOrder env input userId source entropy now d = (d', Inr (k, False))"
  shows "createOrder_tx env input userId source False entropy now d = Inr (d', k)"
    and "or_hostingMode input \<noteq> None \<longrightarrow> source = By_ADMIN"
proof -
  have *: "order_duplicateResult env x input y \<noteq> Inr (k, False)" for x y
    by (auto simp: order_duplicateResult_def Let_def result_simps split: option.splits if_splits)
  show "createOrder_tx env input userId source False entropy now d = Inr (d', k)"
    using assms * by (auto simp: createOrder_def run_tx_def split: option.splits sum.splits api_error.splits if_splits)
  show "or_hostingMode input \<noteq> None \<longrightarrow> source = By_ADMIN"
    using assms by (auto simp: createOrder_def split: if_splits)
qed

lemma hosting_price_fields:
  assumes "hosting_price input source now d = Some (p, q)"
  shows "pp_id p = or_priceId input" and "pr_id q = or_productId input"
proof -
  have *: "pr_id q' = k" if "find_product k d = Some q'" for k q'
    using that by (auto simp: find_product_def dest: find_Some_D)
  show "pp_id p = or_priceId input" "pr_id q = or_productId input"
    using assms * by (auto simp: hosting_price_def bind_eq_Some_conv dest!: find_Some_D)
qed

lemma add_on_prices_ids: "p \<in> set (add_on_prices input h now d) \<Longrightarrow> List.member (or_addOnPriceIds input) (pp_id p)"
  by (auto simp: add_on_prices_def add_on_price_def split: if_splits)

lemma listed_placed_items:
  assumes "items_of_order k d = hosting # adds" and "oi_kind hosting = Kind_HOSTING"
    and "list_all (\<lambda>oi. oi_kind oi = Kind_ADD_ON) adds"
  shows "listed_items k d = hosting # sort_key oi_id adds"
proof -
  have "filter (\<lambda>oi. oi_kind oi = Kind_HOSTING) (hosting # adds) = [hosting]"
    "filter (\<lambda>oi. oi_kind oi = Kind_DOMAIN) (hosting # adds) = []"
    "filter (\<lambda>oi. oi_kind oi = Kind_ADD_ON) (hosting # adds) = adds"
    using assms(2,3) by (auto simp: filter_empty_conv filter_id_conv list_all_iff)
  then show ?thesis by (simp only: listed_items_def assms(1) Let_def filter_sort) simp
qed


section \<open>Status changes\<close>

lemma updateStatus_from_cases:
  assumes "updateStatus_from d0 k st ac now d = Inr (d', u)"
  obtains current d1 d2 where "find_order k d0 = Some current" and "st \<noteq> Ord_PAID"
    and "isOrderTransitionAllowed (ord_status current) st" and "domain_checks k st d = Inr ()"
    and "st = Ord_COMPLETED \<and> list_ex (\<lambda>oi. oi_kind oi = Kind_ADD_ON) (items_of_order k d) \<longrightarrow> orderFulfillmentComplete k d"
    and "update_order k st (status_update st now) now d = Inr (d1, ())"
    and "if st = Ord_CANCELLED \<or> st = Ord_REJECTED then cancel_order_invoices k now d1 = Inr (d2, ()) else d2 = d1"
    and "orders_only d2 d'" and "d_orders d' = d_orders d2"
proof -
  from assms obtain current where 1: "find_order k d0 = Some current" "st \<noteq> Ord_PAID"
    "isOrderTransitionAllowed (ord_status current) st" and tx: "updateStatus_tx k st current ac now d = Inr (d', u)"
    by (auto simp: updateStatus_from_def updateStatus_read_def result_simps split: if_splits)
  let ?stop = "st = Ord_COMPLETED \<and> list_ex (\<lambda>oi. oi_kind oi = Kind_ADD_ON) (items_of_order k d) \<and>
    \<not> orderFulfillmentComplete k d"
  have ok: "domain_checks k st d = Inr ()" using tx by (auto simp: updateStatus_tx_def result_simps)
  have go: "\<not> ?stop" using tx by (rule contrapos_pn) (auto simp: updateStatus_tx_def result_simps)
  from tx obtain d1 d2 d3 entry where 2: "update_order k st (status_update st now) now d = Inr (d1, ())"
    and 3: "(if st = Ord_CANCELLED \<or> st = Ord_REJECTED then cancel_order_invoices k now d1 else Inr (d1, ())) = Inr (d2, ())"
    and 4: "(if st = Ord_PROCESSING
              then create_outbox now ''ORDER'' k ''EMAIL_ORDER_APPROVED''
                     (''email:order-approved:'' @ k @ '':'' @ toISOString (ord_updatedAt current)) (order_payload k) d2
              else Inr (d2, ())) = Inr (d3, ())" and d': "d' = log_activity entry d3"
    unfolding updateStatus_tx_def ok rbind_simps if_not_P [OF go] by (auto simp: result_simps split del: if_split)
  from 4 have "orders_only d2 d3" by (auto intro: orders_only_calls split: if_splits)
  then have "orders_only d2 d'" using orders_only_trans d' by simp
  moreover have "d_orders d' = d_orders d2"
    using 4 d' by (auto simp: create_outbox_def log_activity_def split: if_splits)
  ultimately show ?thesis using 1 2 3 ok go by (intro that [of current d1 d2]) (auto split: if_splits)
qed


lemma cancel_order_invoices_effect:
  assumes "cancel_order_invoices k now d = Inr (d', u)"
  shows "d' = d\<lparr>d_invoices := update_many (\<lambda>i. i_orderId i = Some k \<and> (i_status i = Inv_DRAFT \<or> i_status i = Inv_UNPAID))
    (\<lambda>i. i\<lparr>i_status := Inv_CANCELLED, i_cancelledAt := Some now, i_updatedAt := now\<rparr>) (d_invoices d)\<rparr>"
  using assms by (auto simp: cancel_order_invoices_def Let_def split: if_splits)

lemma ledger_inv_update_many:
  assumes "ledger_inv (is, ps)"
    and rows: "\<And>i. i \<in> set is \<Longrightarrow> P i \<Longrightarrow> invoice_ok (f i) \<and> i_status (f i) \<noteq> Inv_DRAFT"
    and same: "\<And>i. i_id (f i) = i_id i" "\<And>i. i_amountPaid (f i) = i_amountPaid i" "\<And>i. i_currency (f i) = i_currency i"
      "\<And>i. i_items (f i) = i_items i"
  shows "ledger_inv (update_many P f is, ps)"
proof -
  have "billed_periods (update_many P f is) = billed_periods is"
    unfolding billed_periods_def update_many_def by (simp add: comp_def same(4) if_distrib cong: if_cong)
  moreover have "map i_id (update_many P f is) = map i_id is" by (rule map_update_many_inv) (rule same(1))
  moreover have "rows_settled (update_many P f is) ps"
    using assms(1) rows same(1,2) by (auto simp: ledger_inv_iff rows_settled_def mem_update_many)
  moreover have keep: "keeps_rows is (update_many P f is)"
    unfolding keeps_rows_def
  proof (intro ballI impI)
    fix i assume "i \<in> set is" "i_status i \<noteq> Inv_DRAFT"
    then show "\<exists>j \<in> set (update_many P f is). i_id j = i_id i \<and> i_currency j = i_currency i \<and> i_status j \<noteq> Inv_DRAFT"
      using rows same(1,3) by (intro bexI [of _ "if P i then f i else i"]) (auto simp: mem_update_many)
  qed
  moreover have "payment_ok (update_many P f is) ps p" if "payment_ok is ps p" for p
    using that keep keeps_refl(2) by (rule payment_ok_mono)
  ultimately show ?thesis using assms(1) by (simp add: ledger_inv_iff charges_ok_def)
qed

lemma order_cancellation_safe:
  assumes "ledger_inv (ledger_of d)" and "updateStatus_from d0 k st ac now d = Inr (d', u)"
  shows "ledger_inv (ledger_of d') \<longleftrightarrow>
    \<not> ((st = Ord_CANCELLED \<or> st = Ord_REJECTED) \<and>
       (\<exists>i \<in> set (d_invoices d). i_orderId i = Some k \<and> i_status i = Inv_UNPAID \<and> 0 < i_amountPaid i))"
  using assms(2)
proof (rule updateStatus_from_cases)
  fix current d1 d2
  let ?P = "\<lambda>i. i_orderId i = Some k \<and> (i_status i = Inv_DRAFT \<or> i_status i = Inv_UNPAID)"
  let ?f = "\<lambda>i. i\<lparr>i_status := Inv_CANCELLED, i_cancelledAt := Some now, i_updatedAt := now\<rparr>"
  assume "update_order k st (status_update st now) now d = Inr (d1, ())"
    and cancel: "if st = Ord_CANCELLED \<or> st = Ord_REJECTED then cancel_order_invoices k now d1 = Inr (d2, ()) else d2 = d1"
    and "orders_only d2 d'"
  then have same: "d_invoices d1 = d_invoices d" "d_payments d1 = d_payments d" "ledger_of d' = ledger_of d2"
    using orders_only_fields(4,5) orders_only_update by (simp_all add: ledger_of_def)
  show ?thesis
  proof (cases "st = Ord_CANCELLED \<or> st = Ord_REJECTED")
    case False
    then show ?thesis using same cancel assms(1) by (simp add: ledger_of_def)
  next
    case True
    then have d': "ledger_of d' = (update_many ?P ?f (d_invoices d), d_payments d)"
      using cancel cancel_order_invoices_effect [of k now d1 d2] same by (simp add: ledger_of_def)
    have ok: "invoice_ok i" "0 \<le> i_amountPaid i" if "i \<in> set (d_invoices d)" for i
      using assms(1) that by (auto simp: ledger_of_def ledger_inv_iff rows_settled_def invoice_ok_def invoice_check_def)
    have paid: "invoice_ok (?f i) \<longleftrightarrow> i_amountPaid i = 0" if "i \<in> set (d_invoices d)" for i
      using ok(1) [OF that] by (auto simp: invoice_ok_def invoice_check_def split: option.splits)
    show ?thesis
    proof
      assume inv: "ledger_inv (ledger_of d')"
      have "i_amountPaid i = 0" if "i \<in> set (d_invoices d)" "?P i" for i
      proof -
        have "?f i \<in> set (update_many ?P ?f (d_invoices d))" using that by (auto simp: mem_update_many intro!: bexI [of _ i])
        then have "invoice_ok (?f i)" using inv unfolding d' ledger_inv_iff rows_settled_def by blast
        then show ?thesis using paid [OF that(1)] by blast
      qed
      then show "\<not> ((st = Ord_CANCELLED \<or> st = Ord_REJECTED) \<and>
        (\<exists>i \<in> set (d_invoices d). i_orderId i = Some k \<and> i_status i = Inv_UNPAID \<and> 0 < i_amountPaid i))" by fastforce
    next
      assume none: "\<not> ((st = Ord_CANCELLED \<or> st = Ord_REJECTED) \<and>
        (\<exists>i \<in> set (d_invoices d). i_orderId i = Some k \<and> i_status i = Inv_UNPAID \<and> 0 < i_amountPaid i))"
      have "i_amountPaid i = 0" if "i \<in> set (d_invoices d)" "?P i" for i
        using that none True ok [OF that(1)] by (force simp: invoice_ok_def)
      then have "invoice_ok (?f i) \<and> i_status (?f i) \<noteq> Inv_DRAFT" if "i \<in> set (d_invoices d)" "?P i" for i
        using paid [OF that(1)] that by simp
      then show "ledger_inv (ledger_of d')"
        unfolding d' using assms(1) by (intro ledger_inv_update_many) (simp_all add: ledger_of_def)
    qed
  qed
qed

text \<open>
  C20: an administrator who cancels or rejects an order keeps the books in order exactly if no unpaid invoice of
  the order holds a partial payment: such an invoice becomes CANCELLED with the money in it, which the
  invoice actions themselves refuse.
\<close>

theorem order_cancellation_safe_iff:
  assumes "ledger_inv (ledger_of d)" and "updateStatus_from d0 k st ac now d = Inr (d', u)"
  shows "ledger_inv (ledger_of d') \<longleftrightarrow>
    \<not> ((st = Ord_CANCELLED \<or> st = Ord_REJECTED) \<and>
       (\<exists>i \<in> set (d_invoices d). i_orderId i = Some k \<and> i_status i = Inv_UNPAID \<and> 0 < i_amountPaid i))"
  using assms by (rule order_cancellation_safe)

text \<open>
  The status that is overwritten is not the one that was checked. The request reads the order before its
  transaction and updates it by its identifier alone: an order that was still open when it was read is
  cancelled, rejected or failed whatever it has become since, paid and completed orders included.
\<close>

theorem updateStatus_overwrites:
  assumes "find_order k d0 = Some r0" and "isOrderTransitionAllowed (ord_status r0) st"
    and "st \<in> {Ord_CANCELLED, Ord_REJECTED, Ord_FAILED}" and "find_order k d = Some r"
    and "rg_domains (d_registry d) = []"
  shows "\<exists>d' r'. updateStatus_from d0 k st ac now d = Inr (d', ()) \<and> find_order k d' = Some r' \<and> ord_status r' = st"
proof -
  have guards: "domain_checks k st d = Inr ()" "domain_order_guard k st d" "registration_claimed P d = False"
    "domain_invoice_guard i j d" for P i j
    using assms(3,5) by (auto simp: domain_checks_def domain_order_guard_def registration_claimed_def domain_invoice_guard_def)
  define d1 where "d1 = d\<lparr>d_orders := update_many (\<lambda>r. ord_id r = k)
    (\<lambda>r. (status_update st now r)\<lparr>ord_status := st, ord_updatedAt := now\<rparr>) (d_orders d)\<rparr>"
  have upd: "update_order k st (status_update st now) now d = Inr (d1, ())"
    using assms(4) guards(2) by (simp add: update_order_def d1_def)
  have "domain_invoice_guard i j d1" for i j
    using assms(5) by (simp add: domain_invoice_guard_def d1_def)
  then have "\<exists>d2. cancel_order_invoices k now d1 = Inr (d2, ()) \<and> d_orders d2 = d_orders d1"
    by (auto simp: cancel_order_invoices_def Let_def list_ex_iff)
  then obtain d2 where d2: "(if st = Ord_CANCELLED \<or> st = Ord_REJECTED then cancel_order_invoices k now d1
      else Inr (d1, ())) = Inr (d2, ())" "d_orders d2 = d_orders d1" by (metis (full_types))
  have "ord_id (status_update st now r) = ord_id r" for r by (simp add: status_update_def Let_def)
  then have "find_order k d1 = Some ((status_update st now r)\<lparr>ord_status := st, ord_updatedAt := now\<rparr>)"
    using assms(4) by (simp add: find_order_def d1_def find_update_many_key [where key = ord_id])
  moreover have "st \<noteq> Ord_PAID" "st \<noteq> Ord_COMPLETED" "st \<noteq> Ord_PROCESSING" using assms(3) by auto
  ultimately show ?thesis
    using assms(1,2) guards(1) upd d2
    by (simp add: updateStatus_from_def updateStatus_read_def updateStatus_tx_def find_order_def log_activity_def)
qed

section \<open>Completed orders\<close>

definition order_fulfilled :: "uuid \<Rightarrow> db \<Rightarrow> bool" where
  \<comment> \<open>every hosting item runs on an active service, every add-on is done, every domain is registered\<close>
  "order_fulfilled k d \<longleftrightarrow>
     (\<forall>oi \<in> set (items_of_order k d).
        (oi_kind oi = Kind_HOSTING \<longrightarrow>
           (\<exists>s \<in> set (d_services d). s_orderItemId s = Some (oi_id oi) \<and> s_status s = Svc_ACTIVE)) \<and>
        (oi_kind oi = Kind_ADD_ON \<longrightarrow> oi_fulfilledAt oi \<noteq> None) \<and>
        (oi_kind oi = Kind_DOMAIN \<longrightarrow> domain_secured (oi_id oi) d))"

definition order_completed :: "uuid \<Rightarrow> db \<Rightarrow> bool" where
  "order_completed k d \<longleftrightarrow> map_option ord_status (find_order k d) = Some Ord_COMPLETED"

lemma order_fulfilled_iff:
  "order_fulfilled k d \<longleftrightarrow> domain_order_guard k Ord_COMPLETED d \<and>
     \<not> list_ex (\<lambda>oi. oi_kind oi = Kind_ADD_ON \<and> oi_fulfilledAt oi = None) (items_of_order k d)"
  unfolding order_fulfilled_def domain_order_guard_def items_of_order_def list_ex_iff by auto

lemma order_fulfilled_frame: "orders_only d d' \<Longrightarrow> order_fulfilled k d' = order_fulfilled k d"
  by (simp add: order_fulfilled_def items_of_order_def domain_secured_def orders_only_fields)

lemma fulfillment_add_ons:
  "orderFulfillmentComplete k d \<Longrightarrow>
     \<not> list_ex (\<lambda>oi. oi_kind oi = Kind_ADD_ON \<and> oi_fulfilledAt oi = None) (items_of_order k d)"
  by (auto simp: orderFulfillmentComplete_def item_pending_def Let_def list_ex_iff split: if_splits)

lemma update_order_completed:
  assumes "update_order k st f now d = Inr (d', u)" and "\<And>r. ord_id (f r) = ord_id r"
  shows "order_completed x d' \<longleftrightarrow> (if x = k then st = Ord_COMPLETED else order_completed x d)"
    and "st = Ord_COMPLETED \<Longrightarrow> domain_order_guard k Ord_COMPLETED d"
  using assms(1)
proof (atomize (full), rule update_order_cases)
  fix r
  assume "find_order k d = Some r" "domain_order_guard k st d"
    and "d' = d\<lparr>d_orders := update_many (\<lambda>r. ord_id r = k)
                   (\<lambda>r. (f r)\<lparr>ord_status := st, ord_updatedAt := now\<rparr>) (d_orders d)\<rparr>"
  then show "(order_completed x d' \<longleftrightarrow> (if x = k then st = Ord_COMPLETED else order_completed x d)) \<and>
      (st = Ord_COMPLETED \<longrightarrow> domain_order_guard k Ord_COMPLETED d)"
    using assms(2) by (auto simp: order_completed_def find_order_def find_update_many_key [where key = ord_id])
qed

lemma order_completed_frame: "d_orders d' = d_orders d \<Longrightarrow> order_completed k d' = order_completed k d"
  by (simp add: order_completed_def find_order_def)

lemma updateStatus_completes:
  assumes "updateStatus_from d0 k st ac now d = Inr (d', u)" and "order_completed x d'" and "\<not> order_completed x d"
  shows "order_fulfilled x d'"
proof -
  from assms(1) obtain current d1 d2 where
    add_ons: "st = Ord_COMPLETED \<and> list_ex (\<lambda>oi. oi_kind oi = Kind_ADD_ON) (items_of_order k d) \<longrightarrow> orderFulfillmentComplete k d"
    and upd: "update_order k st (status_update st now) now d = Inr (d1, ())"
    and cancel: "if st = Ord_CANCELLED \<or> st = Ord_REJECTED then cancel_order_invoices k now d1 = Inr (d2, ()) else d2 = d1"
    and rest: "orders_only d2 d'" and same: "d_orders d' = d_orders d2"
    by (rule updateStatus_from_cases)
  have ids: "ord_id (status_update st now r) = ord_id r" for r by (simp add: status_update_def Let_def)
  have "d_orders d' = d_orders d1"
    using same cancel cancel_order_invoices_effect [of k now d1 d2 "()"] by (auto split: if_splits)
  then have "order_completed x d1" using assms(2) order_completed_frame by blast
  then have x: "x = k" "st = Ord_COMPLETED"
    using assms(3) update_order_completed(1) [OF upd ids] by (auto split: if_splits)
  then have "order_fulfilled k d"
    using add_ons fulfillment_add_ons [of k d] update_order_completed(2) [OF upd ids] by (auto simp: order_fulfilled_iff list_ex_iff)
  moreover have "orders_only d d'"
    using orders_only_trans [OF orders_only_update [OF upd]] rest cancel x(2) by simp
  ultimately show ?thesis using order_fulfilled_frame x(1) by blast
qed

lemma fulfillAddOn_completes:
  assumes "fulfillAddOn_tx k item ac now d = Inr (d', u)" and "order_completed x d'" and "\<not> order_completed x d"
  shows "order_fulfilled x d'"
proof -
  let ?log = "log_activity (admin_activity ac ''HOSTING_ADD_ON_FULFILLED'' ''ORDER'' (Some k) [(''orderItemId'', JStr item)])"
  from assms obtain d1 where upd: "update_order_item item (\<lambda>oi. oi\<lparr>oi_fulfilledAt := Some now\<rparr>) d = Inr (d1, ())"
    and last: "d' = ?log d1 \<or> (orderFulfillmentComplete k (?log d1) \<and>
      update_order k Ord_COMPLETED (\<lambda>r. r\<lparr>ord_completedAt := Some now\<rparr>) now (?log d1) = Inr (d', ()))"
    unfolding fulfillAddOn_tx_def Let_def by (auto simp: result_simps split: if_split_asm)
  have d1: "d_orders d1 = d_orders d"
    using upd by (auto simp: update_order_item_def split: option.splits if_splits)
  have id: "ord_id (r\<lparr>ord_completedAt := Some now\<rparr>) = ord_id r" for r by simp
  have not1: "\<not> order_completed x (?log d1)"
    using assms(3) d1 order_completed_frame [of "?log d1" d x] by (simp add: log_activity_def)
  then have full: "orderFulfillmentComplete k (?log d1)"
    and run: "update_order k Ord_COMPLETED (\<lambda>r. r\<lparr>ord_completedAt := Some now\<rparr>) now (?log d1) = Inr (d', ())"
    using last assms(2) by auto
  have "x = k" using update_order_completed(1) [OF run id] not1 assms(2) by (auto split: if_splits)
  moreover have "order_fulfilled k (?log d1)"
    using update_order_completed(2) [OF run id] fulfillment_add_ons [OF full] by (simp add: order_fulfilled_iff)
  ultimately show ?thesis using order_fulfilled_frame [OF orders_only_update [OF run]] by blast
qed

lemma transition_completes:
  assumes "transition_tx s input ac now d = Inr (d', u)" and "order_completed x d'" and "\<not> order_completed x d"
  shows "order_fulfilled x d'"
proof -
  from assms(1) obtain c f d1 d2 d3 entry where upd: "update_service s f now d = Inr (d1, ())"
    and out: "transition_outbox c (target_status input) now d1 = Inr (d2, ())"
    and ord: "transition_order c (target_status input) now d2 = Inr (d3, ())" and d': "d' = log_activity entry d3"
    unfolding transition_tx_def by (auto simp: result_simps split: option.splits)
  have "d_orders d2 = d_orders d1"
    using out by (auto simp: transition_outbox_def create_outbox_def split: option.splits if_splits)
  moreover have "d_orders d1 = d_orders d" using upd by (auto elim: update_service_cases)
  ultimately have not2: "\<not> order_completed x d2" using assms(3) order_completed_frame by metis
  have yes3: "order_completed x d3" using assms(2) d' order_completed_frame [of d' d3] by (simp add: log_activity_def)
  then obtain k where full: "orderFulfillmentComplete k d2" and "complete_order k now d2 = Inr (d3, ())"
    using ord not2 by (auto simp: transition_order_def split: option.splits if_splits)
  then have run: "update_order k Ord_COMPLETED (\<lambda>r. r\<lparr>ord_completedAt := Some now\<rparr>) now d2 = Inr (d3, ())"
    using yes3 not2 by (auto elim: complete_order_cases)
  have id: "ord_id (r\<lparr>ord_completedAt := Some now\<rparr>) = ord_id r" for r by simp
  have "x = k" using update_order_completed(1) [OF run id] not2 yes3 by (auto split: if_splits)
  moreover have "order_fulfilled k d2"
    using update_order_completed(2) [OF run id] fulfillment_add_ons [OF full] by (simp add: order_fulfilled_iff)
  moreover have "orders_only d2 d'" using orders_only_trans [OF orders_only_update [OF run]] d' by simp
  ultimately show ?thesis using order_fulfilled_frame by blast
qed


section \<open>Witnesses of the orders\<close>

definition sample_product :: "uuid \<Rightarrow> product_kind \<Rightarrow> product" where
  "sample_product k kind =
     \<lparr>pr_id = k, pr_kind = kind, pr_slug = ''s'', pr_name = ''Web'', pr_description = None, pr_status = Prod_ACTIVE,
      pr_publicVisible = True, pr_hostingPackage = Some ''pkg'', pr_deletedAt = None\<rparr>"

definition sample_price :: "uuid \<Rightarrow> uuid \<Rightarrow> int \<Rightarrow> int \<Rightarrow> price" where
  "sample_price k product amount fee =
     \<lparr>pp_id = k, pp_productId = product, pp_period = Every MONTHLY, pp_currency = ''BDT'', pp_amount = amount,
      pp_setupFee = fee, pp_isActive = True, pp_validFrom = None, pp_validUntil = None, pp_deletedAt = None\<rparr>"

definition shop_db :: db where
  \<comment> \<open>hosting for 500 with a setup fee of 50, and an add-on for 120\<close>
  "shop_db = customer_db\<lparr>d_products := [sample_product ''p'' Kind_HOSTING, sample_product ''q'' Kind_ADD_ON],
     d_prices := [sample_price ''pp'' ''p'' 500 50, sample_price ''pq'' ''q'' 120 0], d_eligibility := [(''p'', ''q'')]\<rparr>"

definition sample_order_input :: order_input where
  "sample_order_input = \<lparr>or_customerId = ''c'', or_productId = ''p'', or_priceId = ''pp'', or_requestedDomain = ''a.b'',
     or_submissionKey = ''k1'', or_addOnPriceIds = [''pq''], or_acceptedTermsVersion = None, or_notes = None,
     or_hostingMode = None\<rparr>"

definition sample_order_env :: order_env where
  "sample_order_env = \<lparr>oe_uuid = (\<lambda>s. s \<noteq> []), oe_termsUrl = (\<lambda>s. s \<noteq> [])\<rparr>"

lemma shop_order:
  "case createOrder_tx sample_order_env sample_order_input ''u'' By_CUSTOMER False [10, 255] 9 shop_db of
     Inl _ \<Rightarrow> False | Inr (d', k) \<Rightarrow> k = ''0'' \<and> map i_total (d_invoices d') = [670]"
  by code_simp

lemma shop_rows_ok: "order_rows_ok shop_db"
  by (simp add: order_rows_ok_def shop_db_def customer_db_def empty_db_def)

theorem order_invoice_exact_witness:
  "case createOrder_tx sample_order_env sample_order_input ''u'' By_CUSTOMER False [10, 255] 9 shop_db of
     Inl _ \<Rightarrow> False
   | Inr (d', k) \<Rightarrow> \<exists>r i. find_order k d' = Some r \<and> ord_total r = 670 \<and> d_invoices d' = [i] \<and>
       sum_list (map it_lineTotal (i_items i)) = 670"
proof -
  obtain d' where run: "createOrder_tx sample_order_env sample_order_input ''u'' By_CUSTOMER False [10, 255] 9 shop_db =
      Inr (d', ''0'')" and total: "map i_total (d_invoices d') = [670]"
    using shop_order by (auto split: sum.splits)
  have "d_invoices shop_db = []" by (simp add: shop_db_def customer_db_def empty_db_def)
  then show ?thesis using run total order_invoice_exact [OF run shop_rows_ok] by auto
qed


definition partly_paid_db :: db where
  \<comment> \<open>an order whose invoice of 250 has received 100\<close>
  "partly_paid_db = empty_db\<lparr>d_orders := [sample_order Ord_AWAITING_PAYMENT],
     d_invoices := [(sample_invoice Inv_UNPAID 250)\<lparr>i_orderId := Some ''o'', i_amountPaid := 100, i_balanceDue := 150\<rparr>],
     d_payments := [\<lparr>p_id = ''p'', p_invoiceId = ''i'', p_originalPaymentId = None, p_createdByUserId = None,
       p_reviewedByUserId = None, p_kind = CHARGE, p_status = Pay_SUCCEEDED, p_provider = ''sslcommerz'',
       p_providerTransactionId = Some ''t'', p_idempotencyKey = ''k'', p_amount = 100, p_currency = ''BDT'',
       p_reference = None, p_checkoutUrl = None, p_sessionExpiresAt = None, p_manualMethod = None,
       p_proofMetadata = None, p_failureReason = None, p_receivedAt = Some 3, p_reviewedAt = None,
       p_verifiedAt = Some 3\<rparr>], d_supply := 7\<rparr>"

lemma partly_paid_ledger: "ledger_inv (ledger_of partly_paid_db)"
proof -
  have "currencyCodeSchema ''BDT''" by code_simp
  then show ?thesis
    by (simp add: ledger_inv_iff ledger_of_def partly_paid_db_def sample_invoice_def sample_snapshot_def empty_db_def
        rows_settled_def charges_ok_def invoice_ok_def invoice_check_def settled_def service_keys_def billed_periods_def
        payment_ok_def payment_check_def ledger_value_def adjusted_def adjustment_value_def)
qed

theorem order_cancellation_safe_iff_witness:
  "case updateStatus_from partly_paid_db ''o'' Ord_CANCELLED sample_actor 9 partly_paid_db of
     Inl _ \<Rightarrow> False
   | Inr (d', _) \<Rightarrow> ledger_inv (ledger_of partly_paid_db) \<and> \<not> ledger_inv (ledger_of d')"
proof -
  have "case updateStatus_from partly_paid_db ''o'' Ord_CANCELLED sample_actor 9 partly_paid_db of
      Inl _ \<Rightarrow> False | Inr _ \<Rightarrow> True" by code_simp
  then obtain d' u where run: "updateStatus_from partly_paid_db ''o'' Ord_CANCELLED sample_actor 9 partly_paid_db = Inr (d', u)"
    by (auto split: sum.splits)
  have "\<exists>i \<in> set (d_invoices partly_paid_db). i_orderId i = Some ''o'' \<and> i_status i = Inv_UNPAID \<and> 0 < i_amountPaid i"
    by (simp add: partly_paid_db_def sample_invoice_def)
  then show ?thesis using order_cancellation_safe_iff [OF partly_paid_ledger run] run partly_paid_ledger by simp
qed

definition order_db :: "order_status \<Rightarrow> db" where
  "order_db st = empty_db\<lparr>d_orders := [sample_order st], d_supply := 7\<rparr>"

theorem updateStatus_overwrites_witness:
  "\<exists>d' r'. updateStatus_from (order_db Ord_AWAITING_PAYMENT) ''o'' Ord_CANCELLED sample_actor 9 (order_db Ord_PAID) =
     Inr (d', ()) \<and> find_order ''o'' d' = Some r' \<and> ord_status r' = Ord_CANCELLED"
  by (rule updateStatus_overwrites [where ?r0.0 = "sample_order Ord_AWAITING_PAYMENT" and r = "sample_order Ord_PAID"])
    (simp_all add: order_db_def find_order_def sample_order_def isOrderTransitionAllowed_def empty_db_def)

definition fulfilled_db :: db where
  \<comment> \<open>an order in progress whose only item runs\<close>
  "fulfilled_db = empty_db\<lparr>d_orders := [sample_order Ord_PROCESSING], d_orderItems := [sample_order_item],
     d_services := [(sample_service Svc_ACTIVE None)\<lparr>s_orderItemId := Some ''oi''\<rparr>], d_supply := 7\<rparr>"


end
