(* ===== verification/History.thy ===== *)
theory History
  imports Orders
begin

text \<open>
  All transactions of the modelled components against one database: which of them can follow which,
  requests that read before their transaction included, and what each leaves alone of the lifecycle
  of a hosting service (its status, the invoice it is suspended for, and its cancellations).
\<close>

section \<open>The lifecycle of services\<close>

definition service_state :: "service \<Rightarrow> uuid \<times> service_status \<times> uuid option" where
  "service_state s = (s_id s, s_status s, s_suspensionInvoiceId s)"

definition lifecycle :: "db \<Rightarrow> (uuid \<times> service_status \<times> uuid option) list \<times> cancellation list" where
  "lifecycle d = (map service_state (d_services d), d_cancellations d)"

lemma lifecycle_updates [simp]:
  "lifecycle (d\<lparr>d_invoices := a1\<rparr>) = lifecycle d"
  "lifecycle (d\<lparr>d_payments := a2\<rparr>) = lifecycle d"
  "lifecycle (d\<lparr>d_paymentEvents := a3\<rparr>) = lifecycle d"
  "lifecycle (d\<lparr>d_orders := a4\<rparr>) = lifecycle d"
  "lifecycle (d\<lparr>d_orderItems := a5\<rparr>) = lifecycle d"
  "lifecycle (d\<lparr>d_operations := a6\<rparr>) = lifecycle d"
  "lifecycle (d\<lparr>d_runs := a7\<rparr>) = lifecycle d"
  "lifecycle (d\<lparr>d_outbox := a8\<rparr>) = lifecycle d"
  "lifecycle (d\<lparr>d_settings := a9\<rparr>) = lifecycle d"
  "lifecycle (d\<lparr>d_supply := a10\<rparr>) = lifecycle d"
  "lifecycle (d\<lparr>d_activity := a11\<rparr>) = lifecycle d"
  by (simp_all add: lifecycle_def)

lemma lifecycle_due [simp]: "lifecycle (set_next_due now k t d) = lifecycle d"
  by (auto simp: lifecycle_def set_next_due_def update_many_def service_state_def)

lemma lifecycle_writes [simp]:
  "lifecycle (log_activity a d) = lifecycle d"
  "lifecycle (upsert_setting k v d) = lifecycle d"
  "lifecycle (fst (mark_order_paid now j d)) = lifecycle d"
  "lifecycle (pay_order now orderId entry d) = lifecycle d"
  "lifecycle (update_event k' f d) = lifecycle d"
  "lifecycle (rejectStoredEvent k' m now d) = lifecycle d"
  by (simp_all add: log_activity_def upsert_setting_def mark_order_paid_def pay_order_def Let_def update_event_def
      rejectStoredEvent_def split: option.splits prod.splits)

lemma lifecycle_calls:
  "create_invoice row d = Inr (d', k) \<Longrightarrow> lifecycle d' = lifecycle d"
  "update_invoice now k f d = Inr (d', u) \<Longrightarrow> lifecycle d' = lifecycle d"
  "create_payment pay d = Inr (d', k) \<Longrightarrow> lifecycle d' = lifecycle d"
  "update_payment k g d = Inr (d', u) \<Longrightarrow> lifecycle d' = lifecycle d"
  "create_outbox now a k t key v d = Inr (d', u) \<Longrightarrow> lifecycle d' = lifecycle d"
  "create_outbox_skip now a k t key v d = (d', n) \<Longrightarrow> lifecycle d' = lifecycle d"
  "allocateInvoiceNumber d = Inr (d', x) \<Longrightarrow> lifecycle d' = lifecycle d"
  "create_event e d = Inr (d', k) \<Longrightarrow> lifecycle d' = lifecycle d"
  "create_order r items d = Inr (d', y) \<Longrightarrow> lifecycle d' = lifecycle d"
  "update_order k st h now d = Inr (d', u) \<Longrightarrow> lifecycle d' = lifecycle d"
  "update_order_item k l d = Inr (d', u) \<Longrightarrow> lifecycle d' = lifecycle d"
  "create_run run d = Inr (d', k) \<Longrightarrow> lifecycle d' = lifecycle d"
  "update_operations P q d = Inr (d', n) \<Longrightarrow> lifecycle d' = lifecycle d"
  "cancel_order_with_invoice k j ac now d = Inr (d', u) \<Longrightarrow> lifecycle d' = lifecycle d"
  "cancel_order_invoices k now d = Inr (d', u) \<Longrightarrow> lifecycle d' = lifecycle d"
  by (auto simp: create_invoice_def update_invoice_def create_payment_def update_payment_def create_outbox_def
      create_outbox_skip_def allocateInvoiceNumber_def create_event_def create_order_def update_order_def
      update_order_item_def create_run_def update_operations_def cancel_order_with_invoice_def
      cancel_order_invoices_def Let_def
      split: option.splits if_splits sum.splits prod.splits)


lemma lifecycle_invoices:
  "createInvoice_tx schema input amounts ac now d = Inr (d', k) \<Longrightarrow> lifecycle d' = lifecycle d"
  "updateDraft_from d0 k draft ac now d = Inr (d', u) \<Longrightarrow> lifecycle d' = lifecycle d"
  "applyAction_from d0 k action ac now d = Inr (d', u) \<Longrightarrow> lifecycle d' = lifecycle d"
  by (auto simp: createInvoice_tx_def updateDraft_from_def updateDraft_tx_def applyAction_from_def applyAction_tx_def
      action_order_def action_outbox_def Let_def result_simps dest!: lifecycle_calls
      split: if_splits option.splits invoice_action.splits)

lemma lifecycle_charge: "applyVerifiedCharge i k amount ac now role d = Inr (d', u) \<Longrightarrow> lifecycle d' = lifecycle d"
  by (auto simp: applyVerifiedCharge_def Let_def result_simps dest!: lifecycle_calls split: if_splits option.splits)

lemma lifecycle_payments:
  "submitManual_tx digest submit ac now d = Inr (d', r) \<Longrightarrow> lifecycle d' = lifecycle d"
  "recordManual_tx digest submit ac now d = Inr (d', k) \<Longrightarrow> lifecycle d' = lifecycle d"
  "verify_tx digest k j ac now d = Inr (d', u) \<Longrightarrow> lifecycle d' = lifecycle d"
  "reject_tx k j reason ac now d = Inr (d', u) \<Longrightarrow> lifecycle d' = lifecycle d"
  "adjust_from digest d0 k adjustment ac now d = Inr (d', r') \<Longrightarrow> lifecycle d' = lifecycle d"
  "updatePartialPaymentPolicy enabled confirmation ac d = Inr (d', u) \<Longrightarrow> lifecycle d' = lifecycle d"
  by (auto simp: submitManual_tx_def recordManual_tx_def verify_tx_def reject_tx_def adjust_from_def
      adjust_tx_def updatePartialPaymentPolicy_def Let_def result_simps dest!: lifecycle_calls lifecycle_charge
      split: if_splits option.splits)

lemma lifecycle_review: "review_from digest d0 k verdict ac now d = Inr (d', u) \<Longrightarrow> lifecycle d' = lifecycle d"
  by (cases verdict) (auto simp: review_from_def result_simps dest: lifecycle_payments)

lemma lifecycle_gateways:
  "openSession_tx provider k key ac d = Inr (d', p) \<Longrightarrow> lifecycle d' = lifecycle d"
  "lifecycle (fst (claimSession k d)) = lifecycle d"
  "lifecycle (storeSession k session d) = lifecycle d"
  "processEvent_tx digest gw e h now d = Inr (d', r) \<Longrightarrow> lifecycle d' = lifecycle d"
  by (auto simp: openSession_tx_def claimSession_def storeSession_def processEvent_tx_def refuseEvent_def ignoreEvent_def
      failEvent_def settleEvent_def settleInvoice_def completeEventAndOutbox_def applyEvent_def Let_def result_simps
      dest!: lifecycle_calls
      split: if_splits option.splits event_status.splits)

lemma lifecycle_jobs:
  "claimSession k d = (d', n) \<Longrightarrow> lifecycle d' = lifecycle d"
  "claimBatch dispatcher clock d = (d', events) \<Longrightarrow> lifecycle d' = lifecycle d"
  "lifecycle (update_owned dispatcher k fe d) = lifecycle d"
  "retryOutboxEvent_tx k ac now d = Inr (d', u) \<Longrightarrow> lifecycle d' = lifecycle d"
  "create_run run d = Inr (d', k) \<Longrightarrow> lifecycle d' = lifecycle d"
  "update_runs k fr d = Inr (d', n) \<Longrightarrow> lifecycle d' = lifecycle d"
  by (auto simp: claimSession_def claimBatch_def update_owned_def retryOutboxEvent_tx_def create_run_def update_runs_def Let_def
      split: option.splits if_splits)

lemma lifecycle_place_order:
  "place_order_tx env input p q package addOns c u terms entropy userId source now d = Inr (d', k) \<Longrightarrow> lifecycle d' = lifecycle d"
  by (auto simp: place_order_tx_def result_simps Let_def dest!: lifecycle_calls split: option.splits)

lemma lifecycle_updateStatus: "updateStatus_from d0 k st ac now d = Inr (d', u) \<Longrightarrow> lifecycle d' = lifecycle d"
  by (erule updateStatus_from_cases)
    (auto dest!: lifecycle_calls simp: lifecycle_def orders_only_fields split: if_splits)

lemma lifecycle_orders:
  "createOrder_tx env input userId source pending entropy now d = Inr (d', k) \<Longrightarrow> lifecycle d' = lifecycle d"
  "fulfillAddOn_tx k item ac now d = Inr (d', u) \<Longrightarrow> lifecycle d' = lifecycle d"
  "cancelAddOn_tx date_parse s item expected who owner d = Inr (d', view) \<Longrightarrow> lifecycle d' = lifecycle d"
proof -
  show "createOrder_tx env input userId source pending entropy now d = Inr (d', k) \<Longrightarrow> lifecycle d' = lifecycle d"
    by (erule createOrder_tx_cases) (rule lifecycle_place_order)
  show "fulfillAddOn_tx k item ac now d = Inr (d', u) \<Longrightarrow> lifecycle d' = lifecycle d"
    by (auto simp: fulfillAddOn_tx_def Let_def result_simps dest!: lifecycle_calls split: if_split_asm)
  show "lifecycle d' = lifecycle d" if run: "cancelAddOn_tx date_parse s item expected who owner d = Inr (d', view)"
  proof -
    from run obtain sv where sv: "owned_add_on_service s owner d = Inr sv" by (auto simp: cancelAddOn_tx_def result_simps)
    with run obtain oi where oi: "List.find (\<lambda>oi. oi_id oi = item) (findAddOns sv d) = Some oi"
      by (cases "List.find (\<lambda>oi. oi_id oi = item) (findAddOns sv d)") (simp_all add: cancelAddOn_tx_def)
    show ?thesis
      using run sv oi by (cases "oi_renewalEndsAt oi"; cases "availableEndAt sv oi d")
        (auto simp: cancelAddOn_tx_def Let_def result_simps dest!: lifecycle_calls split: if_split_asm)
  qed
qed

lemma lifecycle_issue:
  assumes "issueRenewal_tx env s c u bp run now d = Inr (d', x)"
  shows "lifecycle d' = lifecycle d"
proof -
  have "map service_state (d_services (set_next_due now k t d)) = map service_state (d_services d)" for k t
    using lifecycle_due [of now k t d] by (simp add: lifecycle_def)
  then show ?thesis
    using issueRenewal_services [OF assms] by (simp add: lifecycle_def hosting_tables_def)
qed

lemma lifecycle_renewals:
  "schedule_tx policy date now acquired d = Inr (d', o1) \<Longrightarrow> lifecycle d' = lifecycle d"
  "createRenewalInvoice_tx env k run now d = Inr (d', x) \<Longrightarrow> lifecycle d' = lifecycle d"
  "markOverdue_tx k run now d = Inr (d', x) \<Longrightarrow> lifecycle d' = lifecycle d"
  "requestSuspension env now s k run d = Inr (d', x) \<Longrightarrow> lifecycle d' = lifecycle d"
  "send_reminder now k n days d = (d', y) \<Longrightarrow> lifecycle d' = lifecycle d"
proof -
  show "createRenewalInvoice_tx env k run now d = Inr (d', x) \<Longrightarrow> lifecycle d' = lifecycle d"
    by (erule createRenewalInvoice_tx_cases) (simp_all add: lifecycle_issue)
qed (auto simp: schedule_tx_def markOverdue_tx_def requestSuspension_def request_hosting_def send_reminder_def Let_def
      result_simps dest!: lifecycle_calls split: if_splits option.splits prod.splits)

lemma lifecycle_applied:
  assumes "applyRenewalPayment_tx env now pay bill run d = Inr (d', n)"
  shows "lifecycle d' = lifecycle d"
proof -
  have item: "apply_item env now pay bill run it d = Inr (d', n) \<Longrightarrow> lifecycle d' = lifecycle d" for it d d' n
    by (erule apply_item_cases) (auto elim!: request_hosting_cases dest!: lifecycle_calls split: if_splits)
  have "apply_items env now pay bill run items n d = Inr (d', m) \<Longrightarrow> lifecycle d' = lifecycle d" for items n d d' m
    by (induction items arbitrary: n d) (auto simp: result_simps dest!: item)
  with assms show ?thesis by (auto elim: applyRenewalPayment_cases)
qed

section \<open>Services whose cancellation is completed\<close>

definition service_down :: "uuid \<Rightarrow> db \<Rightarrow> bool" where
  \<comment> \<open>terminated, or suspended for good: no invoice is named whose payment would reactivate it\<close>
  "service_down k d \<longleftrightarrow>
     (\<exists>s \<in> set (d_services d). s_id s = k \<and>
        (s_status s = Svc_SUSPENDED \<and> s_suspensionInvoiceId s = None \<or> s_status s = Svc_TERMINATED))"

definition cancelled_down :: "db \<Rightarrow> bool" where
  "cancelled_down d \<longleftrightarrow>
     distinct (map s_id (d_services d)) \<and> (\<forall>k. cancellation_completed k d \<longrightarrow> service_down k d)"

lemma service_down_lifecycle:
  "service_down k d \<longleftrightarrow>
     (k, Svc_SUSPENDED, None) \<in> set (fst (lifecycle d)) \<or> (\<exists>x. (k, Svc_TERMINATED, x) \<in> set (fst (lifecycle d)))"
  by (auto simp: service_down_def lifecycle_def service_state_def image_iff) metis+

lemma cancelled_down_frame:
  assumes "lifecycle d' = lifecycle d" and "cancelled_down d"
  shows "cancelled_down d'"
proof -
  have "map fst (fst (lifecycle x)) = map s_id (d_services x)" for x by (simp add: lifecycle_def service_state_def comp_def)
  then have "map s_id (d_services d') = map s_id (d_services d)" using assms(1) by metis
  moreover have "d_cancellations d' = d_cancellations d" using assms(1) by (simp add: lifecycle_def)
  ultimately show ?thesis using assms by (simp add: cancelled_down_def cancellation_completed_def service_down_lifecycle)
qed

lemma cancelled_down_step:
  assumes "cancelled_down d" and "distinct (map s_id (d_services d'))"
    and "\<And>k. cancellation_completed k d' \<Longrightarrow>
      service_down k d' \<or> (cancellation_completed k d \<and> (service_down k d \<longrightarrow> service_down k d'))"
  shows "cancelled_down d'"
  using assms unfolding cancelled_down_def by blast

lemma service_down_row:
  assumes "service_down k d" and "distinct (map s_id (d_services d))" and "s \<in> set (d_services d)" and "s_id s = k"
  shows "s_status s = Svc_SUSPENDED \<and> s_suspensionInvoiceId s = None \<or> s_status s = Svc_TERMINATED"
proof -
  obtain t where t: "t \<in> set (d_services d)" "s_id t = k"
    "s_status t = Svc_SUSPENDED \<and> s_suspensionInvoiceId t = None \<or> s_status t = Svc_TERMINATED"
    using assms(1) by (auto simp: service_down_def)
  moreover have "t = s" using distinct_key_inj [OF assms(2) t(1) assms(3)] t(2) assms(4) by simp
  ultimately show ?thesis by simp
qed

lemma cancelled_down_create:
  assumes "createService_tx adapter input ac now d = Inr (d', k)" and "cancelled_down d"
  shows "cancelled_down d'"
  using assms(1)
proof (rule createService_tx_cases)
  fix item ord sv host bp d1
  assume new: "create_service (new_service_row ord item host sv bp now) d = Inr (d1, k)" and "orders_only d1 d'"
  then have same: "d_services d' = d_services d1" "d_cancellations d' = d_cancellations d1"
    by (simp_all add: orders_only_fields)
  from new show ?thesis
  proof (rule create_service_cases)
    fix s
    assume s: "s = new_service_row ord item host sv bp now\<lparr>s_id := k\<rparr>" "k \<notin> s_id ` set (d_services d)"
      and d1: "d1 = d\<lparr>d_services := d_services d @ [s], d_supply := Suc (d_supply d)\<rparr>"
    show ?thesis
      using assms(2)
    proof (rule cancelled_down_step)
      show "distinct (map s_id (d_services d'))" using assms(2) s same(1) d1 by (simp add: cancelled_down_def)
    qed (auto simp: service_down_def cancellation_completed_def same d1)
  qed
qed

lemma cancelled_down_update:
  assumes "update_service k f now d = Inr (d1, u)" and "find_service k d = Some s" and "cancelled_down d"
    and "s_id (f s) = s_id s"
    and "cancellation_completed k d \<Longrightarrow> service_down k d \<Longrightarrow>
      s_status (f s) = s_status s \<and> s_suspensionInvoiceId (f s) = s_suspensionInvoiceId s \<or> s_status (f s) = Svc_TERMINATED"
  shows "cancelled_down d1"
  using assms(1)
proof (rule update_service_cases)
  fix s'
  let ?g = "\<lambda>t. (f t)\<lparr>s_updatedAt := now\<rparr>"
  assume d1: "d1 = d\<lparr>d_services := update_many (\<lambda>t. s_id t = k) ?g (d_services d)\<rparr>"
  have d: "distinct (map s_id (d_services d))" using assms(3) by (simp add: cancelled_down_def)
  have row: "List.find (\<lambda>t. s_id t = k) (d_services d) = Some s" using assms(2) by (simp add: find_service_def)
  have id: "s_id (?g s) = k" using assms(4) find_service_idD [OF assms(2)] by simp
  note mem = mem_update_key [where f = ?g, OF d row]
  have down: "service_down j d1" if down: "cancellation_completed j d" "service_down j d" for j
  proof -
    obtain t where t: "t \<in> set (d_services d)" "s_id t = j"
      "s_status t = Svc_SUSPENDED \<and> s_suspensionInvoiceId t = None \<or> s_status t = Svc_TERMINATED"
      using down(2) by (auto simp: service_down_def)
    show ?thesis
    proof (cases "j = k")
      case True
      then have "t = s" using t(1,2) find_Some_D [OF row] by (intro distinct_key_inj [OF d]) auto
      then have "s_status (?g s) = Svc_SUSPENDED \<and> s_suspensionInvoiceId (?g s) = None \<or> s_status (?g s) = Svc_TERMINATED"
        using assms(5) down True t(3) by auto
      then show ?thesis using mem [of "?g s"] id True unfolding service_down_def d1 by (intro bexI [of _ "?g s"]) simp_all
    next
      case False
      then show ?thesis using mem [of t] t unfolding service_down_def d1 by (intro bexI [of _ t]) simp_all
    qed
  qed
  show ?thesis
    using assms(3)
  proof (rule cancelled_down_step)
    show "distinct (map s_id (d_services d1))"
      using update_key_map [where f = ?g, OF d row id] d by (simp add: d1)
  qed (use down in \<open>auto simp: d1 cancellation_completed_def\<close>)
qed

lemma cancelled_down_transition:
  assumes "transition_tx k input ac now d = Inr (d', u)" and inv: "cancelled_down d"
  shows "cancelled_down d'"
  using assms(1)
proof (rule transition_tx_cases)
  fix s sv f d1
  assume s: "find_service k d = Some s" and checks: "transition_checks input s sv d = Inr ()"
    and f: "transitionData input s ac now = Inr f" and upd: "update_service k f now d = Inr (d1, ())"
    and frame: "orders_only d1 d'"
  have keep: "s_id (f s) = s_id s" "s_status (f s) = target_status input" using transitionData_keeps [OF f] by simp_all
  have id: "s_id s = k" "s \<in> set (d_services d)" using find_service_idD [OF s] s by (auto simp: find_service_def dest: find_Some_D)
  have legal: "isServiceTransitionAllowed (s_status s) (target_status input)"
    "\<not> (target_status input = Svc_ACTIVE \<and> s_status s = Svc_SUSPENDED \<and> cancellation_completed k d)"
    using checks id(1) by (auto simp: transition_checks_def split: if_splits)
  have "cancelled_down d1"
  proof (rule cancelled_down_update [OF upd s inv keep(1)])
    assume "cancellation_completed k d" "service_down k d"
    then have "s_status s = Svc_SUSPENDED \<or> s_status s = Svc_TERMINATED"
      using service_down_row [of k d s] inv id by (auto simp: cancelled_down_def)
    then show "s_status (f s) = s_status s \<and> s_suspensionInvoiceId (f s) = s_suspensionInvoiceId s \<or> s_status (f s) = Svc_TERMINATED"
      using legal keep(2) \<open>cancellation_completed k d\<close> by (auto simp: isServiceTransitionAllowed_def)
  qed
  moreover have "lifecycle d' = lifecycle d1" using frame by (simp add: lifecycle_def orders_only_fields)
  ultimately show ?thesis using cancelled_down_frame by blast
qed

lemma service_down_services: "d_services d' = d_services d \<Longrightarrow> service_down k d' = service_down k d"
  by (simp add: service_down_def)

lemma cancelled_down_cancellations:
  assumes "cancelled_down d" and "d_services d' = d_services d"
    and "\<And>k. cancellation_completed k d' \<Longrightarrow> cancellation_completed k d"
  shows "cancelled_down d'"
proof -
  have "distinct (map s_id (d_services d'))" using assms(1,2) by (simp add: cancelled_down_def)
  with assms(1) show ?thesis
    by (rule cancelled_down_step) (use assms(3) service_down_services [OF assms(2)] in blast)
qed

lemma completed_kept_update:
  assumes "\<And>h. P h \<Longrightarrow> h_serviceId (f h) = h_serviceId h \<and> (h_status (f h) = Can_COMPLETED \<longrightarrow> h_status h = Can_COMPLETED)"
    and "cancellation_completed j (d\<lparr>d_cancellations := update_many P f (d_cancellations d)\<rparr>)"
  shows "cancellation_completed j d"
proof -
  obtain h where h: "h \<in> set (update_many P f (d_cancellations d))" "h_serviceId h = j" "h_status h = Can_COMPLETED"
    using assms(2) by (auto simp: cancellation_completed_def list_ex_iff)
  then obtain r where r: "r \<in> set (d_cancellations d)" "h = (if P r then f r else r)" by (auto simp only: mem_update_many)
  then have "h_serviceId r = j \<and> h_status r = Can_COMPLETED" using assms(1) [of r] h by (cases "P r") auto
  then show ?thesis using r(1) by (auto simp: cancellation_completed_def list_ex_iff)
qed

lemma update_cancellation_cases:
  assumes "update_cancellation k f d = Inr (d', u)"
  obtains "d' = d\<lparr>d_cancellations := update_many (\<lambda>g. h_id g = k) f (d_cancellations d)\<rparr>"
  using assms by (auto simp: update_cancellation_def split: option.splits if_splits)

lemma cancelled_down_updated:
  assumes "update_cancellation k f d = Inr (d1, u)" and "cancelled_down d" and "lifecycle d' = lifecycle d1"
    and "\<And>h. h_serviceId (f h) = h_serviceId h \<and> (h_status (f h) = Can_COMPLETED \<longrightarrow> h_status h = Can_COMPLETED)"
  shows "cancelled_down d'"
  using assms(1)
proof (rule update_cancellation_cases)
  assume d1: "d1 = d\<lparr>d_cancellations := update_many (\<lambda>g. h_id g = k) f (d_cancellations d)\<rparr>"
  have "cancelled_down d1"
    using assms(2)
  proof (rule cancelled_down_cancellations)
    fix j assume "cancellation_completed j d1"
    then show "cancellation_completed j d" unfolding d1 by (rule completed_kept_update [rotated]) (rule assms(4))
  qed (simp add: d1)
  with assms(3) show ?thesis by (rule cancelled_down_frame)
qed

lemma lifecycle_queued: "queueSuspension h t d = Inr (d', u) \<Longrightarrow> lifecycle d' = lifecycle d"
  by (auto simp: queueSuspension_def dest: lifecycle_calls)

lemma lifecycle_audit [simp]: "lifecycle (audit h action ac d) = lifecycle d"
  by (simp add: audit_def)

lemma cancelled_down_opened:
  assumes "open_request_tx s input effectiveAt who now d = Inr (d', view)" and "cancelled_down d"
  shows "cancelled_down d'"
proof -
  let ?row = "requested_row (s_id s) input effectiveAt now"
  from assms(1) obtain d1 k where new: "create_cancellation ?row d = Inr (d1, k)" and "lifecycle d' = lifecycle d1"
    unfolding open_request_tx_def
    by (auto simp: result_simps Let_def dest!: lifecycle_calls lifecycle_queued split: option.splits)
  moreover have "cancelled_down d1"
    using assms(2)
  proof (rule cancelled_down_cancellations)
    show "d_services d1 = d_services d" using new by (auto simp: create_cancellation_def Let_def split: if_splits)
    fix j assume "cancellation_completed j d1"
    then show "cancellation_completed j d"
      using new by (auto simp: create_cancellation_def requested_row_def cancellation_completed_def Let_def split: if_splits)
  qed
  ultimately show ?thesis using cancelled_down_frame by blast
qed

lemma cancelled_down_cancel:
  "request_tx date_parse s input who now d = Inr (d', view) \<Longrightarrow> cancelled_down d \<Longrightarrow> cancelled_down d'"
  "withdraw_tx s k who now d = Inr (d', view) \<Longrightarrow> cancelled_down d \<Longrightarrow> cancelled_down d'"
  "approve_tx s k who now d = Inr (d', view) \<Longrightarrow> cancelled_down d \<Longrightarrow> cancelled_down d'"
proof -
  assume inv: "cancelled_down d"
  show "cancelled_down d'" if "request_tx date_parse s input who now d = Inr (d', view)"
    using that inv by (auto simp: request_tx_def result_simps dest: cancelled_down_opened split: option.splits if_split_asm)
  show "cancelled_down d'" if "withdraw_tx s k who now d = Inr (d', view)"
    using that inv by (auto simp: withdraw_tx_def withdrawn_row_def result_simps elim!: cancelled_down_updated split: if_split_asm)
  show "cancelled_down d'" if "approve_tx s k who now d = Inr (d', view)"
    using that inv by (auto simp: approve_tx_def approved_row_def result_simps elim!: cancelled_down_updated
        dest: lifecycle_queued split: if_split_asm)
qed

section \<open>Hosting jobs\<close>

lemma lifecycle_deferred [simp]: "lifecycle (deferCancellation p ev t d) = lifecycle d"
  by (auto simp: deferCancellation_def create_outbox_skip_def dest: lifecycle_calls split: sum.splits)

lemma unsuspend_payload:
  assumes "automation_action_of t = Inr action" and "parse_payload env t j = Some p"
  shows "action = UNSUSPEND \<Longrightarrow> payload_invoice p \<noteq> None" and "payload_cancellation p \<noteq> None \<Longrightarrow> action = SUSPEND \<and> payload_invoice p = None"
  using assms parse_payload_action [of t action env j] by (cases p; auto)+

lemma finished_down:
  assumes "finishCancellation k h now d = Inr (d', u)" and "cancelled_down d" and "service_down k d"
  shows "cancelled_down d'"
  using assms(1)
proof (rule finishCancellation_cases)
  fix a
  let ?P = "\<lambda>g. h_id g = h \<and> h_serviceId g = k \<and> h_status g = Can_OPEN"
  assume d': "d' = log_activity a (d\<lparr>d_cancellations := update_many ?P (completed_row now) (d_cancellations d)\<rparr>)"
  then have same: "d_services d' = d_services d" by (simp add: log_activity_def)
  show ?thesis
    using assms(2)
  proof (rule cancelled_down_step)
    show "distinct (map s_id (d_services d'))" using assms(2) same by (simp add: cancelled_down_def)
    fix j assume "cancellation_completed j d'"
    then have "j = k \<or> cancellation_completed j d"
      unfolding d' by (auto simp: log_activity_def cancellation_completed_def list_ex_iff mem_update_many completed_row_def
          split: if_splits)
    then show "service_down j d' \<or> (cancellation_completed j d \<and> (service_down j d \<longrightarrow> service_down j d'))"
      using assms(3) service_down_services [OF same] by blast
  qed
qed

lemma released_down:
  assumes "cancelled_down d" and "s \<in> set (d_services d)" and "s_status s = Svc_SUSPENDED \<or> s_status s = Svc_TERMINATED"
    and d1_def: "d1 = (if s_suspensionInvoiceId s \<noteq> None then suspension_released now (s_id s) d else d)"
  shows "cancelled_down d1" and "service_down (s_id s) d1"
proof -
  let ?f = "\<lambda>s. s\<lparr>s_suspensionInvoiceId := None, s_updatedAt := now\<rparr>"
  have row: "\<exists>t' \<in> set (d_services d1). s_id t' = s_id t \<and> s_status t' = s_status t \<and>
      (s_suspensionInvoiceId t' = None \<or> t' = t \<and> (s_id t = s_id s \<longrightarrow> s_suspensionInvoiceId s = None))"
    if "t \<in> set (d_services d)" for t
    using that by (intro bexI [of _ "if s_suspensionInvoiceId s \<noteq> None \<and> s_id t = s_id s then ?f t else t"])
      (auto simp: d1_def suspension_released_def mem_update_many)
  have ids: "map s_id (d_services d1) = map s_id (d_services d)"
    by (simp add: d1_def suspension_released_def map_update_many_inv)
  show "cancelled_down d1"
    using assms(1)
  proof (rule cancelled_down_step)
    show "distinct (map s_id (d_services d1))" using ids assms(1) by (simp add: cancelled_down_def)
    fix k assume "cancellation_completed k d1"
    moreover have "service_down k d1" if "service_down k d"
      using that row unfolding service_down_def by metis
    ultimately show "service_down k d1 \<or> (cancellation_completed k d \<and> (service_down k d \<longrightarrow> service_down k d1))"
      by (auto simp: d1_def suspension_released_def cancellation_completed_def split: if_splits)
  qed
  show "service_down (s_id s) d1"
    using row [OF assms(2)] assms(3) unfolding service_down_def by metis
qed

lemma cancelled_down_prepare:
  assumes "prepare env action p ev now d = Inr (d', r)" and inv: "cancelled_down d"
  shows "cancelled_down d'"
  using assms(1)
proof (cases rule: prepare_cases)
  case (answered q)
  with inv show ?thesis by simp
next
  case (settled h s)
  have s: "s_id s = payload_service p" "s \<in> set (d_services d)"
    using find_service_idD [OF settled(2)] settled(2) by (auto simp: find_service_def dest: find_Some_D)
  let ?d = "if s_suspensionInvoiceId s \<noteq> None then suspension_released now (s_id s) d else d"
  consider (same) "d' = d" | (deferred) t where "d' = deferCancellation p ev t d"
    | (rescheduled) c u where "rescheduled p c s ev d = Inr (d', u)"
    | (finished) u where "s_status s = Svc_SUSPENDED \<or> s_status s = Svc_TERMINATED" and
        "finishCancellation (s_id s) h now ?d = Inr (d', u)"
    using settled(3) unfolding prepare_cancellation_def
    by (auto simp: in_job_def split: option.splits if_split_asm sum.splits)
  then show ?thesis
  proof cases
    case same
    with inv show ?thesis by simp
  next
    case deferred
    with inv show ?thesis by (auto intro: cancelled_down_frame)
  next
    case rescheduled
    then show ?thesis
      using inv by (auto simp: rescheduled_def result_simps elim!: cancelled_down_updated)
  next
    case finished
    then show ?thesis using released_down [OF inv s(2) _ refl] finished_down by blast
  qed
next
  case (opened s sv userId)
  from opened(3) have "lifecycle d' = lifecycle d"
    by (cases rule: open_operation_cases) (auto simp: create_operation_def Let_def split: if_splits)
  with inv show ?thesis using cancelled_down_frame by blast
qed

lemma cancelled_down_complete:
  assumes "complete k action p acct now d = Inr (d', u)" and inv: "cancelled_down d"
    and payload: "automation_action_of t = Inr action" "parse_payload env t j = Some p"
  shows "cancelled_down d'"
proof -
  let ?P = "service_matches action p" and ?f = "service_after action p now"
  note effect = complete_effect [OF assms(1)]
  have ids: "map s_id (d_services d') = map s_id (d_services d)"
    unfolding effect(1) by (rule map_update_many_inv) simp
  have kept: "service_down i d'" if "service_down i d" for i
  proof -
    obtain s where s: "s \<in> set (d_services d)" "s_id s = i"
      "s_status s = Svc_SUSPENDED \<and> s_suspensionInvoiceId s = None \<or> s_status s = Svc_TERMINATED"
      using \<open>service_down i d\<close> by (auto simp: service_down_def)
    then have "\<not> ?P s"
      using unsuspend_payload(1) [OF payload] by (auto simp: service_matches_def split: automation_action.splits)
    then have "s \<in> set (d_services d')" using s(1) by (auto simp: effect(1) mem_update_many)
    with s show ?thesis by (auto simp: service_down_def)
  qed
  show ?thesis
    using inv
  proof (rule cancelled_down_step)
    show "distinct (map s_id (d_services d'))" using ids inv by (simp add: cancelled_down_def)
    fix i assume done1: "cancellation_completed i d'"
    show "service_down i d' \<or> (cancellation_completed i d \<and> (service_down i d \<longrightarrow> service_down i d'))"
    proof (cases "cancellation_completed i d")
      case True
      with kept show ?thesis by blast
    next
      case False
      then obtain h where h: "payload_cancellation p = Some h" "i = payload_service p"
        using done1 effect(3)
        by (auto simp: cancellation_completed_def list_ex_iff mem_update_many completed_row_def split: option.splits if_splits)
      then have p: "action = SUSPEND" "payload_invoice p = None" using unsuspend_payload(2) [OF payload] by simp_all
      obtain s where s: "s \<in> set (d_services d)" "?P s"
        using effect(2) by (metis count_where_eq_0 zero_neq_one)
      then have "?f s \<in> set (d_services d')" by (auto simp: effect(1) mem_update_many)
      moreover have "s_id (?f s) = i" "s_status (?f s) = Svc_SUSPENDED" "s_suspensionInvoiceId (?f s) = None"
        using s(2) p h(2) by (simp_all add: service_matches_def service_after_def)
      ultimately have "service_down i d'" unfolding service_down_def by blast
      then show ?thesis by blast
    qed
  qed
qed

lemma lifecycle_operations:
  "fail k n kind code now d = Inr (d', m) \<Longrightarrow> lifecycle d' = lifecycle d"
  "completeSkipped k action p now d = Inr (d', m) \<Longrightarrow> lifecycle d' = lifecycle d"
  by (auto simp: fail_def completeSkipped_def dest: lifecycle_calls)

section \<open>A completed cancellation stays on record\<close>

definition request_ids :: "db \<Rightarrow> uuid list" where
  "request_ids d = map h_id (d_cancellations d)"

definition completions_kept :: "db \<Rightarrow> db \<Rightarrow> bool" where
  "completions_kept d d' \<longleftrightarrow>
     distinct (request_ids d') \<and> (\<forall>k. cancellation_completed k d \<longrightarrow> cancellation_completed k d')"

lemma completions_kept_frame:
  "d_cancellations d' = d_cancellations d \<Longrightarrow> distinct (request_ids d) \<Longrightarrow> completions_kept d d'"
  by (simp add: completions_kept_def request_ids_def cancellation_completed_def)

lemma completions_kept_lifecycle:
  "lifecycle d' = lifecycle d \<Longrightarrow> distinct (request_ids d) \<Longrightarrow> completions_kept d d'"
  by (rule completions_kept_frame) (simp_all add: lifecycle_def)

lemma completions_kept_update:
  assumes "d_cancellations d' = update_many P f (d_cancellations d)" and "distinct (request_ids d)"
    and "\<And>h. h_id (f h) = h_id h \<and> h_serviceId (f h) = h_serviceId h"
    and "\<And>h. h \<in> set (d_cancellations d) \<Longrightarrow> P h \<Longrightarrow> h_status h = Can_COMPLETED \<Longrightarrow> h_status (f h) = Can_COMPLETED"
  shows "completions_kept d d'"
proof -
  have "request_ids d' = request_ids d"
    using assms(3) by (simp add: request_ids_def assms(1) map_update_many_inv)
  moreover have "cancellation_completed k d'" if "cancellation_completed k d" for k
  proof -
    obtain h where h: "h \<in> set (d_cancellations d)" "h_serviceId h = k" "h_status h = Can_COMPLETED"
      using \<open>cancellation_completed k d\<close> by (auto simp: cancellation_completed_def list_ex_iff)
    then have "(if P h then f h else h) \<in> set (d_cancellations d')" by (auto simp: assms(1) mem_update_many)
    moreover have "h_serviceId (if P h then f h else h) = k \<and> h_status (if P h then f h else h) = Can_COMPLETED"
      using h assms(3,4) [of h] by auto
    ultimately show ?thesis unfolding cancellation_completed_def list_ex_iff by blast
  qed
  ultimately show ?thesis using assms(2) by (simp add: completions_kept_def)
qed

lemma cancellations_of_lifecycle: "lifecycle d' = lifecycle d \<Longrightarrow> d_cancellations d' = d_cancellations d"
  by (simp add: lifecycle_def)

lemma completions_kept_cancel:
  assumes "distinct (request_ids d)"
  shows "request_tx date_parse s input who now d = Inr (d', view) \<Longrightarrow> completions_kept d d'"
    and "withdraw_tx s k who now d = Inr (d', view) \<Longrightarrow> completions_kept d d'"
    and "approve_tx s k who now d = Inr (d', view) \<Longrightarrow> completions_kept d d'"
proof -
  have opened: "completions_kept d d'" if "open_request_tx sv input effectiveAt who now d = Inr (d', view)" for sv effectiveAt
  proof -
    let ?row = "requested_row (s_id sv) input effectiveAt now"
    from that obtain d1 h where new: "create_cancellation ?row d = Inr (d1, h)" and "lifecycle d' = lifecycle d1"
      unfolding open_request_tx_def
      by (auto simp: result_simps Let_def dest!: lifecycle_calls lifecycle_queued split: option.splits)
    then have "d_cancellations d' = d_cancellations d @ [?row\<lparr>h_id := h\<rparr>]" "h \<notin> set (request_ids d)"
      by (auto simp: create_cancellation_def Let_def request_ids_def list_ex_iff dest!: cancellations_of_lifecycle
          split: if_splits)
    then show ?thesis using assms by (simp add: completions_kept_def request_ids_def cancellation_completed_def)
  qed
  show "request_tx date_parse s input who now d = Inr (d', view) \<Longrightarrow> completions_kept d d'"
    using assms completions_kept_frame [of d d]
    by (auto simp: request_tx_def result_simps dest: opened split: option.splits if_split_asm)
  show "completions_kept d d'" if run: "withdraw_tx s k who now d = Inr (d', view)"
  proof -
    obtain h where "findRequest s k d = Inr h" using run by (auto simp: withdraw_tx_def result_simps)
    then have h: "h \<in> set (d_cancellations d)" "h_id h = k"
      by (auto simp: findRequest_def find_cancellation_def of_option_def split: option.splits dest!: find_Some_D)
    have row: "g = h" if "g \<in> set (d_cancellations d)" "h_id g = k" for g
      using distinct_key_inj [of h_id "d_cancellations d" g h] assms that h by (simp add: request_ids_def)
    show ?thesis
    proof (cases "h_status h = Can_OPEN")
      case True
      then have "d_cancellations d' = update_many (\<lambda>g. h_id g = k) (withdrawn_row now) (d_cancellations d)"
        using run \<open>findRequest s k d = Inr h\<close>
        by (auto simp: withdraw_tx_def result_simps audit_def log_activity_def elim!: update_cancellation_cases split: if_split_asm)
      then show ?thesis
        by (rule completions_kept_update) (use assms row True in \<open>auto simp: withdrawn_row_def\<close>)
    next
      case False
      then have "d' = d" using run \<open>findRequest s k d = Inr h\<close> by (auto simp: withdraw_tx_def result_simps split: if_split_asm)
      then show ?thesis using assms completions_kept_frame by simp
    qed
  qed
  show "completions_kept d d'" if run: "approve_tx s k who now d = Inr (d', view)"
  proof -
    from run have "d_cancellations d' = d_cancellations d \<or>
        d_cancellations d' = update_many (\<lambda>g. h_id g = k) (approved_row now) (d_cancellations d)"
      by (auto simp: approve_tx_def result_simps audit_def log_activity_def elim!: update_cancellation_cases
          dest!: cancellations_of_lifecycle [OF lifecycle_queued] split: if_split_asm)
    then show ?thesis
    proof
      assume "d_cancellations d' = update_many (\<lambda>g. h_id g = k) (approved_row now) (d_cancellations d)"
      then show ?thesis by (rule completions_kept_update) (use assms in \<open>simp_all add: approved_row_def\<close>)
    qed (use assms completions_kept_frame in blast)
  qed
qed

lemma completions_kept_finish:
  assumes "finishCancellation k h now d = Inr (d', u)" and "distinct (request_ids d)"
  shows "completions_kept d d'"
  using assms(1)
proof (rule finishCancellation_cases)
  fix a
  assume "d' = log_activity a (d\<lparr>d_cancellations :=
    update_many (\<lambda>g. h_id g = h \<and> h_serviceId g = k \<and> h_status g = Can_OPEN) (completed_row now) (d_cancellations d)\<rparr>)"
  then have "d_cancellations d' =
      update_many (\<lambda>g. h_id g = h \<and> h_serviceId g = k \<and> h_status g = Can_OPEN) (completed_row now) (d_cancellations d)"
    by (simp add: log_activity_def)
  then show ?thesis by (rule completions_kept_update) (use assms(2) in \<open>simp_all add: completed_row_def\<close>)
qed

lemma completions_kept_jobs:
  assumes "distinct (request_ids d)"
  shows "prepare env action p ev now d = Inr (d', r) \<Longrightarrow> completions_kept d d'"
    and "complete k action p acct now d = Inr (d', u) \<Longrightarrow> completions_kept d d'"
proof -
  show "completions_kept d d'" if "prepare env action p ev now d = Inr (d', r)"
    using that
  proof (cases rule: prepare_cases)
    case (answered q)
    with assms show ?thesis by (simp add: completions_kept_frame)
  next
    case (settled h s)
    let ?d = "if s_suspensionInvoiceId s \<noteq> None then suspension_released now (s_id s) d else d"
    have released: "d_cancellations ?d = d_cancellations d" by (simp add: suspension_released_def)
    consider (same) "d' = d" | (deferred) t where "d' = deferCancellation p ev t d"
      | (rescheduled) c u where "rescheduled p c s ev d = Inr (d', u)"
      | (finished) u where "finishCancellation (s_id s) h now ?d = Inr (d', u)"
      using settled(3) unfolding prepare_cancellation_def
      by (auto simp: in_job_def split: option.splits if_split_asm sum.splits)
    then show ?thesis
    proof cases
      case (rescheduled c u)
      then have "d_cancellations d' = update_many (\<lambda>g. h_id g = h_id c)
          (\<lambda>g. g\<lparr>h_effectiveAt := Some (s_nextDueAt s)\<rparr>) (d_cancellations d)"
        by (auto simp: rescheduled_def result_simps log_activity_def cancellations_of_lifecycle [OF lifecycle_deferred]
            elim!: update_cancellation_cases)
      then show ?thesis by (rule completions_kept_update) (use assms in simp_all)
    next
      case (finished u)
      then have "completions_kept ?d d'"
        by (rule completions_kept_finish) (use released assms in \<open>simp add: request_ids_def\<close>)
      then show ?thesis using released by (simp add: completions_kept_def cancellation_completed_def)
    qed (use assms in \<open>auto intro: completions_kept_lifecycle\<close>)
  next
    case (opened s sv userId)
    from opened(3) have "lifecycle d' = lifecycle d"
      by (cases rule: open_operation_cases) (auto simp: create_operation_def Let_def split: if_splits)
    with assms show ?thesis by (rule completions_kept_lifecycle [rotated])
  qed
  show "completions_kept d d'" if "complete k action p acct now d = Inr (d', u)"
  proof (cases "payload_cancellation p")
    case None
    with complete_effect(3) [OF that] assms show ?thesis by (simp add: completions_kept_frame)
  next
    case (Some h)
    with complete_effect(3) [OF that] have "d_cancellations d' =
        update_many (\<lambda>c. h_id c = h \<and> h_serviceId c = payload_service p \<and> h_status c = Can_OPEN) (completed_row now)
          (d_cancellations d)" by simp
    then show ?thesis by (rule completions_kept_update) (use assms in \<open>simp_all add: completed_row_def\<close>)
  qed
qed

lemma completions_kept_services:
  assumes "distinct (request_ids d)"
  shows "createService_tx adapter input ac now d = Inr (d', k) \<Longrightarrow> completions_kept d d'"
    and "transition_tx k change ac now d = Inr (d', u) \<Longrightarrow> completions_kept d d'"
proof -
  show "createService_tx adapter input ac now d = Inr (d', k) \<Longrightarrow> completions_kept d d'"
    by (erule createService_tx_cases, erule create_service_cases)
      (use assms in \<open>auto intro!: completions_kept_frame simp: orders_only_fields\<close>)
  show "completions_kept d d'" if "transition_tx k change ac now d = Inr (d', u)"
    using that
  proof (rule transition_tx_cases)
    fix f d1
    assume "update_service k f now d = Inr (d1, ())" and frame: "orders_only d1 d'"
    then have "d_cancellations d1 = d_cancellations d" by (auto elim: update_service_cases)
    then show ?thesis using assms orders_only_fields(3) [OF frame] by (auto intro: completions_kept_frame)
  qed
qed

section \<open>Every transaction\<close>

inductive commits :: "db \<Rightarrow> db \<Rightarrow> db \<Rightarrow> bool" where
  \<comment> \<open>a transaction that committed on \<open>d\<close> for a request or a job that had read the earlier \<open>d0\<close>\<close>
  invoice_created: "createInvoice_tx schema draft amounts ac now d = Inr (d', k) \<Longrightarrow> commits d0 d d'"
| draft_edited: "updateDraft_from d0 k draft ac now d = Inr (d', u) \<Longrightarrow> commits d0 d d'"
| invoice_acted: "applyAction_from d0 k action ac now d = Inr (d', u) \<Longrightarrow> commits d0 d d'"
| proof_submitted: "submitManual_tx digest submit ac now d = Inr (d', r1) \<Longrightarrow> commits d0 d d'"
| payment_recorded: "recordManual_tx digest submit ac now d = Inr (d', k) \<Longrightarrow> commits d0 d d'"
| payment_reviewed: "review_from digest d0 k verdict ac now d = Inr (d', u) \<Longrightarrow> commits d0 d d'"
| payment_adjusted: "adjust_from digest d0 k adjustment ac now d = Inr (d', r2) \<Longrightarrow> commits d0 d d'"
| policy_changed: "updatePartialPaymentPolicy enabled confirmation ac d = Inr (d', u) \<Longrightarrow> commits d0 d d'"
| session_opened: "openSession_tx provider k key ac d = Inr (d', pay) \<Longrightarrow> commits d0 d d'"
| event_processed: "processEvent_tx digest gw e h now d = Inr (d', r3) \<Longrightarrow> commits d0 d d'"
| provider_failed:
    "find_payment k d = Some pay \<Longrightarrow> p_status pay \<noteq> Pay_SUCCEEDED \<Longrightarrow> failSession k m out d = Inr (d', u) \<Longrightarrow>
     commits d0 d d'"
| failure_noted: "update_payment k (note_failure m) d = Inr (d', u) \<Longrightarrow> commits d0 d d'"
| session_claimed: "claimSession k d = (d', n) \<Longrightarrow> commits d0 d d'"
| session_stored:
    "find_payment k d = Some pay \<Longrightarrow> p_provider pay \<noteq> ''manual'' \<Longrightarrow> d' = storeSession k session d \<Longrightarrow> commits d0 d d'"
| events_claimed: "claimBatch dispatcher clock d = (d', events) \<Longrightarrow> commits d0 d d'"
| event_settled: "d' = update_owned dispatcher k fe d \<Longrightarrow> commits d0 d d'"
| event_retried: "retryOutboxEvent_tx k ac now d = Inr (d', u) \<Longrightarrow> commits d0 d d'"
| run_opened: "create_run run d = Inr (d', k) \<Longrightarrow> commits d0 d d'"
| run_updated: "update_runs k fr d = Inr (d', n) \<Longrightarrow> commits d0 d d'"
| cycle_scheduled: "schedule_tx policy date now acquired d = Inr (d', r4) \<Longrightarrow> commits d0 d d'"
| renewal_invoiced: "createRenewalInvoice_tx env k run now d = Inr (d', b) \<Longrightarrow> commits d0 d d'"
| overdue_marked: "markOverdue_tx k run now d = Inr (d', b) \<Longrightarrow> commits d0 d d'"
| suspension_requested: "requestSuspension env now s k run d = Inr (d', b) \<Longrightarrow> commits d0 d d'"
| reminder_sent: "send_reminder now k n days d = (d', r5) \<Longrightarrow> commits d0 d d'"
| renewal_applied: "applyRenewalPayment_tx env now k bill run d = Inr (d', n) \<Longrightarrow> commits d0 d d'"
| order_placed: "createOrder_tx oenv order userId source pending entropy now d = Inr (d', k) \<Longrightarrow> commits d0 d d'"
| order_changed:
    "updateStatus_from d0 k st ac now d = Inr (d', u) \<Longrightarrow>
     \<not> ((st = Ord_CANCELLED \<or> st = Ord_REJECTED) \<and>
        (\<exists>i \<in> set (d_invoices d). i_orderId i = Some k \<and> i_status i = Inv_UNPAID \<and> 0 < i_amountPaid i)) \<Longrightarrow>
     commits d0 d d'"
| add_on_fulfilled: "fulfillAddOn_tx k item ac now d = Inr (d', u) \<Longrightarrow> commits d0 d d'"
| service_created: "createService_tx adapter new_service ac now d = Inr (d', k) \<Longrightarrow> commits d0 d d'"
| service_changed: "transition_tx k change ac now d = Inr (d', u) \<Longrightarrow> commits d0 d d'"
| add_on_cancelled: "cancelAddOn_tx date_parse s item expected portal owner d = Inr (d', r6) \<Longrightarrow> commits d0 d d'"
| cancellation_requested: "request_tx date_parse s request who now d = Inr (d', r7) \<Longrightarrow> commits d0 d d'"
| cancellation_withdrawn: "withdraw_tx s k who now d = Inr (d', r7) \<Longrightarrow> commits d0 d d'"
| cancellation_approved: "approve_tx s k who now d = Inr (d', r7) \<Longrightarrow> commits d0 d d'"
| job_prepared:
    "automation_action_of t = Inr act \<Longrightarrow> parse_payload env t j = Some p \<Longrightarrow>
     prepare henv act p ev now d = Inr (d', r8) \<Longrightarrow> commits d0 d d'"
| job_completed:
    "automation_action_of t = Inr act \<Longrightarrow> parse_payload env t j = Some p \<Longrightarrow>
     complete k act p acct now d = Inr (d', u) \<Longrightarrow> commits d0 d d'"
| job_skipped: "completeSkipped k act p now d = Inr (d', n) \<Longrightarrow> commits d0 d d'"
| job_failed: "fail k n kind code now d = Inr (d', m1) \<Longrightarrow> commits d0 d d'"

inductive history :: "db list \<Rightarrow> bool" where
  \<comment> \<open>the states of the database, the latest first\<close>
  "history [d]"
| "history (d # ds) \<Longrightarrow> d0 \<in> set (d # ds) \<Longrightarrow> commits d0 d d' \<Longrightarrow> history (d' # d # ds)"

inductive_cases history_Cons: "history (d # ds)"

lemma commits_down:
  assumes "commits d0 d d'" and "cancelled_down d"
  shows "cancelled_down d'"
  using assms
proof (cases rule: commits.cases)
  case provider_failed
  then show ?thesis using assms(2) lifecycle_calls(4) cancelled_down_frame unfolding failSession_def by blast
next
  case session_stored
  then show ?thesis using assms(2) lifecycle_gateways(3) cancelled_down_frame by blast
next
  case event_settled
  then show ?thesis using assms(2) lifecycle_jobs(3) cancelled_down_frame by blast
qed (blast intro: cancelled_down_frame lifecycle_jobs lifecycle_invoices lifecycle_payments lifecycle_review lifecycle_gateways
    lifecycle_calls lifecycle_renewals lifecycle_applied lifecycle_orders lifecycle_updateStatus lifecycle_operations
    cancelled_down_create cancelled_down_transition cancelled_down_cancel cancelled_down_prepare cancelled_down_complete)+

lemma commits_completions:
  assumes "commits d0 d d'" and "distinct (request_ids d)"
  shows "completions_kept d d'"
  using assms
proof (cases rule: commits.cases)
  case provider_failed
  then show ?thesis using assms(2) lifecycle_calls(4) completions_kept_lifecycle unfolding failSession_def by blast
next
  case session_stored
  then show ?thesis using assms(2) lifecycle_gateways(3) completions_kept_lifecycle by blast
next
  case event_settled
  then show ?thesis using assms(2) lifecycle_jobs(3) completions_kept_lifecycle by blast
qed (blast intro: completions_kept_lifecycle lifecycle_jobs lifecycle_invoices lifecycle_payments lifecycle_review
    lifecycle_gateways lifecycle_calls lifecycle_renewals lifecycle_applied lifecycle_orders lifecycle_updateStatus
    lifecycle_operations completions_kept_cancel completions_kept_jobs completions_kept_services)+

section \<open>The books\<close>

lemma ledger_writes [simp]:
  "ledger_of (deferCancellation p ev t d) = ledger_of d"
  "ledger_of (suspension_released now k d) = ledger_of d"
  "ledger_of (audit h act ac d) = ledger_of d"
  "ledger_of (complete_log k action p d) = ledger_of d"
  by (auto simp: deferCancellation_def create_outbox_skip_def suspension_released_def ledger_of_def audit_def log_activity_def
      complete_log_def create_outbox_def split: sum.splits if_splits)

lemma ledger_calls:
  "create_outbox now a k t key v d = Inr (d', u) \<Longrightarrow> ledger_of d' = ledger_of d"
  "create_outbox_skip now a k t key v d = (d', n) \<Longrightarrow> ledger_of d' = ledger_of d"
  "update_operations P q d = Inr (d', n) \<Longrightarrow> ledger_of d' = ledger_of d"
  "update_services P' f d = Inr (d', n) \<Longrightarrow> ledger_of d' = ledger_of d"
  "update_cancellation k g d = Inr (d', u) \<Longrightarrow> ledger_of d' = ledger_of d"
  "create_cancellation h d = Inr (d', k) \<Longrightarrow> ledger_of d' = ledger_of d"
  "finishCancellation s k now d = Inr (d', u) \<Longrightarrow> ledger_of d' = ledger_of d"
  "queueSuspension h t' d = Inr (d', u) \<Longrightarrow> ledger_of d' = ledger_of d"
  "create_operation row d = Inr (d', op) \<Longrightarrow> ledger_of d' = ledger_of d"
  "create_run run d = Inr (d', k) \<Longrightarrow> ledger_of d' = ledger_of d"
  "create_service s' d = Inr (d', k) \<Longrightarrow> ledger_of d' = ledger_of d"
  "update_service k f now d = Inr (d', u) \<Longrightarrow> ledger_of d' = ledger_of d"
  "update_order_item k l d = Inr (d', u) \<Longrightarrow> ledger_of d' = ledger_of d"
  "orders_only d d' \<Longrightarrow> ledger_of d' = ledger_of d"
proof -
  show "orders_only d d' \<Longrightarrow> ledger_of d' = ledger_of d" by (simp add: ledger_of_def orders_only_fields)
  show "create_service s' d = Inr (d', k) \<Longrightarrow> ledger_of d' = ledger_of d"
    by (erule create_service_cases) (simp add: ledger_of_def)
  show "update_service k f now d = Inr (d', u) \<Longrightarrow> ledger_of d' = ledger_of d"
    by (erule update_service_cases) (simp add: ledger_of_def)
qed (auto simp: create_outbox_def create_outbox_skip_def update_operations_def update_services_def update_cancellation_def
    create_cancellation_def queueSuspension_def create_operation_def create_run_def update_order_item_def ledger_of_def
    log_activity_def Let_def elim!: finishCancellation_cases split: if_splits option.splits sum.splits)

lemma ledger_unchanged:
  "updatePartialPaymentPolicy enabled confirmation ac d = Inr (d', u) \<Longrightarrow> ledger_of d' = ledger_of d"
  "schedule_tx policy date now acquired d = Inr (d', r4) \<Longrightarrow> ledger_of d' = ledger_of d"
  "requestSuspension env now s k run d = Inr (d', b) \<Longrightarrow> ledger_of d' = ledger_of d"
  "send_reminder now k n days d = (d', r5) \<Longrightarrow> ledger_of d' = ledger_of d"
  "fulfillAddOn_tx k item ac now d = Inr (d', u) \<Longrightarrow> ledger_of d' = ledger_of d"
  "createService_tx adapter cinput ac now d = Inr (d', k) \<Longrightarrow> ledger_of d' = ledger_of d"
  "transition_tx k change ac now d = Inr (d', u) \<Longrightarrow> ledger_of d' = ledger_of d"
  "withdraw_tx s k who now d = Inr (d', r7) \<Longrightarrow> ledger_of d' = ledger_of d"
  "approve_tx s k who now d = Inr (d', r7) \<Longrightarrow> ledger_of d' = ledger_of d"
  "open_request_tx sv input effectiveAt who now d = Inr (d', r7) \<Longrightarrow> ledger_of d' = ledger_of d"
  "fail k n kind code now d = Inr (d', m1) \<Longrightarrow> ledger_of d' = ledger_of d"
  "completeSkipped k act p now d = Inr (d', n) \<Longrightarrow> ledger_of d' = ledger_of d"
  "complete k act p acct now d = Inr (d', u) \<Longrightarrow> ledger_of d' = ledger_of d"
proof -
  show "createService_tx adapter cinput ac now d = Inr (d', k) \<Longrightarrow> ledger_of d' = ledger_of d"
    by (erule createService_tx_cases) (auto dest!: ledger_calls)
  show "transition_tx k change ac now d = Inr (d', u) \<Longrightarrow> ledger_of d' = ledger_of d"
    by (erule transition_tx_cases) (auto dest!: ledger_calls)
  show "fulfillAddOn_tx k item ac now d = Inr (d', u) \<Longrightarrow> ledger_of d' = ledger_of d"
    by (auto simp: fulfillAddOn_tx_def Let_def result_simps dest!: ledger_calls orders_only_update split: if_split_asm)
  show "complete k act p acct now d = Inr (d', u) \<Longrightarrow> ledger_of d' = ledger_of d"
    by (erule complete_cases) (auto simp: update_operation_def result_simps dest!: ledger_calls split: option.splits if_splits)
qed (auto simp: updatePartialPaymentPolicy_def schedule_tx_def requestSuspension_def request_hosting_def send_reminder_def
    withdraw_tx_def approve_tx_def open_request_tx_def fail_def completeSkipped_def Let_def result_simps
    dest!: ledger_calls split: if_splits option.splits prod.splits)


lemma ledger_jobs:
  "cancelAddOn_tx date_parse s item expected portal owner d = Inr (d', view) \<Longrightarrow> ledger_of d' = ledger_of d"
  "request_tx date_parse s request who now d = Inr (d', r7) \<Longrightarrow> ledger_of d' = ledger_of d"
  "prepare env action p ev now d = Inr (d', r8) \<Longrightarrow> ledger_of d' = ledger_of d"
proof -
  show "ledger_of d' = ledger_of d" if run: "cancelAddOn_tx date_parse s item expected portal owner d = Inr (d', view)"
  proof -
    from run obtain sv where sv: "owned_add_on_service s owner d = Inr sv" by (auto simp: cancelAddOn_tx_def result_simps)
    with run obtain oi where oi: "List.find (\<lambda>oi. oi_id oi = item) (findAddOns sv d) = Some oi"
      by (cases "List.find (\<lambda>oi. oi_id oi = item) (findAddOns sv d)") (simp_all add: cancelAddOn_tx_def)
    show ?thesis
      using run sv oi by (cases "oi_renewalEndsAt oi"; cases "availableEndAt sv oi d")
        (auto simp: cancelAddOn_tx_def Let_def result_simps ledger_writes dest!: ledger_calls split: if_split_asm)
  qed
  show "request_tx date_parse s request who now d = Inr (d', r7) \<Longrightarrow> ledger_of d' = ledger_of d"
    by (auto simp: request_tx_def Let_def result_simps split: option.splits if_split_asm dest: ledger_unchanged(10))
  show "ledger_of d' = ledger_of d" if "prepare env action p ev now d = Inr (d', r8)"
    using that
  proof (cases rule: prepare_cases)
    case (settled h s)
    let ?d = "if s_suspensionInvoiceId s \<noteq> None then suspension_released now (s_id s) d else d"
    consider (same) "d' = d" | (deferred) t where "d' = deferCancellation p ev t d"
      | (rescheduled) c u where "rescheduled p c s ev d = Inr (d', u)"
      | (finished) u where "finishCancellation (s_id s) h now ?d = Inr (d', u)"
      using settled(3) unfolding prepare_cancellation_def
      by (auto simp: in_job_def split: option.splits if_split_asm sum.splits)
    then show ?thesis
      by cases (auto simp: rescheduled_def result_simps ledger_writes dest!: ledger_calls)
  next
    case (opened s sv userId)
    from opened(3) show ?thesis
      by (cases rule: open_operation_cases) (auto dest!: ledger_calls)
  qed simp
qed

lemma ledger_queues:
  "claimBatch dispatcher clock d = (d', events) \<Longrightarrow> ledger_of d' = ledger_of d"
  "d' = update_owned dispatcher k fe d \<Longrightarrow> ledger_of d' = ledger_of d"
  "retryOutboxEvent_tx k ac now d = Inr (d', u) \<Longrightarrow> ledger_of d' = ledger_of d"
  "create_run run d = Inr (d', k) \<Longrightarrow> ledger_of d' = ledger_of d"
  "update_runs k fr d = Inr (d', n) \<Longrightarrow> ledger_of d' = ledger_of d"
  by (auto simp: claimBatch_def update_owned_def retryOutboxEvent_tx_def update_runs_def ledger_of_def log_activity_def Let_def
      create_run_def split: option.splits if_splits)

lemma ledger_updateStatus:
  assumes "ledger_inv (ledger_of d)" and "updateStatus_from d0 k st ac now d = Inr (d', u)"
  shows "persists (ledger_of d) (ledger_of d')"
  using assms(2)
proof (rule updateStatus_from_cases)
  fix current d1 d2
  assume "update_order k st (status_update st now) now d = Inr (d1, ())"
    and cancel: "if st = Ord_CANCELLED \<or> st = Ord_REJECTED then cancel_order_invoices k now d1 = Inr (d2, ()) else d2 = d1"
    and "orders_only d2 d'"
  then have same: "ledger_of d1 = ledger_of d" "ledger_of d' = ledger_of d2"
    using orders_only_fields(4,5) orders_only_update by (simp_all add: ledger_of_def)
  have "persists (ledger_of d1) (ledger_of d2)"
  proof (cases "st = Ord_CANCELLED \<or> st = Ord_REJECTED")
    case True
    then have d2: "ledger_of d2 = (update_many (\<lambda>i. i_orderId i = Some k \<and> (i_status i = Inv_DRAFT \<or> i_status i = Inv_UNPAID))
        (\<lambda>i. i\<lparr>i_status := Inv_CANCELLED, i_cancelledAt := Some now, i_updatedAt := now\<rparr>) (d_invoices d1), d_payments d1)"
      using cancel cancel_order_invoices_effect [of k now d1 d2] by (simp add: ledger_of_def)
    have "map i_id (fst (ledger_of d2)) = map i_id (d_invoices d1)"
      unfolding d2 fst_conv by (rule map_update_many_inv) simp
    then have "i_id ` set (fst (ledger_of d2)) = i_id ` set (d_invoices d1)" by (metis list.set_map)
    moreover have "d_payments d2 = d_payments d1" using d2 by (simp add: ledger_of_def)
    ultimately show ?thesis by (simp add: persists_def ledger_of_def)
  qed (use cancel in \<open>simp add: persists_refl\<close>)
  then show ?thesis using same by simp
qed

lemma ledger_failures:
  "find_payment k d = Some pay \<Longrightarrow> p_status pay \<noteq> Pay_SUCCEEDED \<Longrightarrow> failSession k m out d = Inr (d', u) \<Longrightarrow>
   ledger_step (ledger_of d) (ledger_of d')"
  "update_payment k (note_failure m) d = Inr (d', u) \<Longrightarrow> ledger_step (ledger_of d) (ledger_of d')"
proof -
  show "find_payment k d = Some pay \<Longrightarrow> p_status pay \<noteq> Pay_SUCCEEDED \<Longrightarrow> failSession k m out d = Inr (d', u) \<Longrightarrow>
    ledger_step (ledger_of d) (ledger_of d')"
    unfolding failSession_def by (erule update_payment_step) (auto simp: failure_update_def same_charge_def)
  assume run: "update_payment k (note_failure m) d = Inr (d', u)"
  then obtain p where "find_payment k d = Some p" by (auto elim: update_payment_cases)
  with run show "ledger_step (ledger_of d) (ledger_of d')"
    by (rule update_payment_step) (auto simp: note_failure_def same_charge_def)
qed


definition books_step :: "db \<Rightarrow> db \<Rightarrow> bool" where
  "books_step d d' \<longleftrightarrow> ledger_inv (ledger_of d') \<and> persists (ledger_of d) (ledger_of d')"

lemma books_steps: "ledger_steps (ledger_of d) (ledger_of d') \<Longrightarrow> ledger_inv (ledger_of d) \<Longrightarrow> books_step d d'"
  by (simp add: books_step_def ledger_steps_inv ledger_steps_persists)

lemma books_single: "ledger_step (ledger_of d) (ledger_of d') \<Longrightarrow> ledger_inv (ledger_of d) \<Longrightarrow> books_step d d'"
  by (rule books_steps) (rule r_into_rtranclp)

lemma books_same: "ledger_of d' = ledger_of d \<Longrightarrow> ledger_inv (ledger_of d) \<Longrightarrow> books_step d d'"
  by (simp add: books_step_def persists_refl)

lemma commits_books:
  assumes "commits d0 d d'" and "ledger_inv (ledger_of d0)" and inv: "ledger_inv (ledger_of d)"
    and "persists (ledger_of d0) (ledger_of d)"
  shows "books_step d d'"
  using assms(1)
proof (cases rule: commits.cases)
  case payment_reviewed
  then show ?thesis using assms review_payment.refines_from books_steps by blast
next
  case payment_adjusted
  then show ?thesis using assms adjust_payment.refines_from books_steps by blast
next
  case (order_changed k st ac now u)
  have "ledger_inv (ledger_of d')" using order_changed(2) by (rule iffD2 [OF order_cancellation_safe [OF inv order_changed(1)]])
  then show ?thesis using ledger_updateStatus [OF inv order_changed(1)] by (simp add: books_step_def)
next
  case provider_failed
  then show ?thesis using inv ledger_failures(1) books_single by blast
next
  case session_stored
  then show ?thesis using inv storeSession_step books_single by blast
next
  case session_claimed
  then show ?thesis using inv claimSession_step books_steps by blast
qed ((rule books_same [OF _ inv], (erule ledger_unchanged | erule ledger_jobs | erule ledger_queues))
  | (rule books_single [OF ledger_failures(2) inv], assumption)
  | (rule books_steps [OF _ inv],
      rule create_invoice.refines [OF inv] edit_draft.refines [OF inv] invoice_action.refines [OF inv]
        submit_payment.refines [OF inv] record_payment.refines [OF inv] open_session.refines [OF inv]
        gateway_event.refines [OF inv] renewal_invoice.refines [OF inv] mark_overdue.refines [OF inv]
        apply_payment.refines [OF inv] place_order.refines [OF inv], assumption))+

section \<open>Histories\<close>

definition books_ok :: "db list \<Rightarrow> bool" where
  \<comment> \<open>every state balances, and no state loses what an earlier one recorded\<close>
  "books_ok ds \<longleftrightarrow>
     (\<forall>d \<in> set ds. ledger_inv (ledger_of d)) \<and> sorted_wrt (\<lambda>later earlier. persists (ledger_of earlier) (ledger_of later)) ds"

lemma history_books:
  assumes "history ds" and "ledger_inv (ledger_of (last ds))"
  shows "books_ok ds"
  using assms
proof (induction rule: history.induct)
  case (1 d)
  then show ?case by (simp add: books_ok_def)
next
  case (2 d ds d0 d')
  then have ok: "books_ok (d # ds)" by simp
  then have "ledger_inv (ledger_of d0)" "ledger_inv (ledger_of d)" "persists (ledger_of d0) (ledger_of d)"
    using 2(2) by (auto simp: books_ok_def persists_refl)
  then have "books_step d d'" using commits_books [OF 2(3)] by blast
  moreover from this ok have "persists (ledger_of e) (ledger_of d')" if "e \<in> set (d # ds)" for e
    using that persists_trans [of "ledger_of e" "ledger_of d" "ledger_of d'"] by (auto simp: books_ok_def books_step_def)
  ultimately show ?case using ok by (auto simp: books_ok_def books_step_def)
qed

definition cancellations_ok :: "db list \<Rightarrow> bool" where
  \<comment> \<open>a service is down in every state from the completion of its cancellation on\<close>
  "cancellations_ok ds \<longleftrightarrow>
     (\<forall>d \<in> set ds. cancelled_down d \<and> distinct (request_ids d)) \<and> sorted_wrt (\<lambda>later earlier. completions_kept earlier later) ds"

lemma history_cancellations:
  assumes "history ds" and "cancelled_down (last ds)" and "distinct (request_ids (last ds))"
  shows "cancellations_ok ds"
  using assms
proof (induction rule: history.induct)
  case (1 d)
  then show ?case by (simp add: cancellations_ok_def)
next
  case (2 d ds d0 d')
  then have ok: "cancellations_ok (d # ds)" by simp
  then have step: "cancelled_down d'" "completions_kept d d'"
    using commits_down [OF 2(3)] commits_completions [OF 2(3)] by (auto simp: cancellations_ok_def)
  moreover have "completions_kept e d'" if "e \<in> set (d # ds)" for e
    using that ok step(2) by (auto simp: cancellations_ok_def completions_kept_def)
  ultimately show ?case using ok by (auto simp: cancellations_ok_def completions_kept_def)
qed

lemma sorted_wrt_split:
  assumes "sorted_wrt R xs" and "xs = as @ x # bs" and "y \<in> set bs"
  shows "R x y"
  using assms by (simp add: sorted_wrt_append)

lemma down_for_good:
  assumes "cancellations_ok ds" and "ds = after @ d' # earlier" and "d = d' \<or> d \<in> set earlier" and "cancellation_completed k d"
  shows "service_down k d'" and "distinct (map s_id (d_services d'))"
proof -
  have "cancellation_completed k d'"
    using assms sorted_wrt_split [of _ ds after d' earlier d] by (auto simp: cancellations_ok_def completions_kept_def)
  then show "service_down k d'" "distinct (map s_id (d_services d'))"
    using assms(1,2) by (simp_all add: cancellations_ok_def cancelled_down_def)
qed

end
