(* ===== verification/Two_Factor.thy ===== *)
theory Two_Factor
  imports Prelude "HOL-Library.Word"
begin

unbundle bit_operations_syntax

text \<open>
  Time-based one-time codes (\<^verbatim>\<open>apps/api/src/modules/auth/services/totp.service.ts\<close>): the Base32
  text of a secret, the code of a time step, its verification, and recovery codes. Numbers that the
  source shifts are the 32-bit words the language makes of them; the HMAC is a parameter, and what it
  answers is a list of bytes of any length. The cipher of stored secrets is not modelled.
\<close>

section \<open>Base32\<close>

type_synonym byte = "8 word"

definition ALPHABET :: string where
  "ALPHABET = ''ABCDEFGHIJKLMNOPQRSTUVWXYZ234567''"

definition PERIOD_SECONDS :: int where
  "PERIOD_SECONDS = 30"

definition base32_digit :: "32 word \<Rightarrow> char" where
  \<comment> \<open>\<open>ALPHABET[v & 31]\<close>\<close>
  "base32_digit v = ALPHABET ! unat (v AND 31)"

fun encode_digits :: "nat \<Rightarrow> 32 word \<Rightarrow> nat \<times> string" where
  \<comment> \<open>the inner loop of \<open>encodeBase32\<close>: the bits left, and the characters written\<close>
  "encode_digits bits value =
     (if 5 \<le> bits
      then (case encode_digits (bits - 5) value of
              (left, out) \<Rightarrow> (left, base32_digit (drop_bit (bits - 5) value) # out))
      else (bits, []))"

declare encode_digits.simps [simp del]

fun encode_bytes :: "nat \<Rightarrow> 32 word \<Rightarrow> byte list \<Rightarrow> string" where
  "encode_bytes bits value [] = (if 0 < bits then [base32_digit (push_bit (5 - bits) value)] else [])"
| "encode_bytes bits value (b # bs) =
     (let value' = push_bit 8 value OR ucast b
      in case encode_digits (bits + 8) value' of (left, out) \<Rightarrow> out @ encode_bytes left value' bs)"

definition encodeBase32 :: "byte list \<Rightarrow> string" where
  "encodeBase32 input = encode_bytes 0 0 input"

definition base32_index :: "char \<Rightarrow> nat option" where
  \<comment> \<open>\<open>ALPHABET.indexOf(character)\<close>, \<open>None\<close> for -1\<close>
  "base32_index c = List.find (\<lambda>i. ALPHABET ! i = c) [0..<length ALPHABET]"

fun decode_chars :: "nat \<Rightarrow> 32 word \<Rightarrow> string \<Rightarrow> byte list option" where
  "decode_chars bits value [] = Some []"
| "decode_chars bits value (c # cs) =
     (case base32_index c of
        None \<Rightarrow> None
      | Some i \<Rightarrow>
        let value' = push_bit 5 value OR of_nat i; bits' = bits + 5
        in if 8 \<le> bits'
           then map_option (Cons (ucast (drop_bit (bits' - 8) value' AND 255))) (decode_chars (bits' - 8) value' cs)
           else decode_chars bits' value' cs)"

definition decodeBase32 :: "string \<Rightarrow> byte list option" where
  \<comment> \<open>\<open>None\<close> for the error \<open>Invalid base32 secret\<close>\<close>
  "decodeBase32 input = decode_chars 0 0 (js_upper (filter (\<lambda>c. c \<noteq> CHR ''='') input))"

section \<open>Codes\<close>

datatype totp_error = Invalid_Base32 | Step_Out_Of_Range
  \<comment> \<open>the second is what \<open>writeBigUInt64BE\<close> throws\<close>

definition big_endian :: "64 word \<Rightarrow> byte list" where
  \<comment> \<open>\<open>counter.writeBigUInt64BE(timeStep)\<close>\<close>
  "big_endian w = map (\<lambda>i. ucast (drop_bit (8 * (7 - i)) w)) [0..<8]"

definition byte_at :: "byte list \<Rightarrow> nat \<Rightarrow> 32 word" where
  \<comment> \<open>an index out of range is \<open>undefined\<close>, which counts as 0 in a bit operation\<close>
  "byte_at bs i = (if i < length bs then ucast (bs ! i) else 0)"

definition truncated :: "byte list \<Rightarrow> nat" where
  \<comment> \<open>the number in \<open>hotp\<close>\<close>
  "truncated digest =
     (let offset = (if digest = [] then 0 else unat (byte_at digest (length digest - 1) AND 15))
      in unat (push_bit 24 (byte_at digest offset AND 127) OR push_bit 16 (byte_at digest (offset + 1)) OR
               push_bit 8 (byte_at digest (offset + 2)) OR byte_at digest (offset + 3)) mod 1000000)"

type_synonym hmac = "byte list \<Rightarrow> byte list \<Rightarrow> byte list"

definition hotp :: "hmac \<Rightarrow> string \<Rightarrow> int \<Rightarrow> totp_error + string" where
  "hotp mac secret timeStep =
     (if timeStep < 0 \<or> 2 ^ 64 \<le> timeStep then Inl Step_Out_Of_Range
      else rbind (of_option Invalid_Base32 (decodeBase32 secret)) (\<lambda>key.
        Inr (pad_start 6 CHR ''0'' (show_nat (truncated (mac key (big_endian (of_int timeStep))))))))"

definition time_step :: "instant \<Rightarrow> int" where
  \<comment> \<open>the quotients of the times of \<open>Date\<close> are far enough from integers for the floor to be exact\<close>
  "time_step t = t div (1000 * PERIOD_SECONDS)"

fun first_match :: "hmac \<Rightarrow> string \<Rightarrow> string \<Rightarrow> int list \<Rightarrow> totp_error + int option" where
  \<comment> \<open>the loop of \<open>verify\<close>\<close>
  "first_match mac secret code [] = Inr None"
| "first_match mac secret code (s # ss) =
     rbind (hotp mac secret s) (\<lambda>expected. if expected = code then Inr (Some s) else first_match mac secret code ss)"

definition six_digits :: "string \<Rightarrow> bool" where
  "six_digits code \<longleftrightarrow> length code = 6 \<and> list_all is_digit code"

definition totp_verify :: "hmac \<Rightarrow> string \<Rightarrow> string \<Rightarrow> instant \<Rightarrow> totp_error + int option" where
  "totp_verify mac secret code at =
     (if \<not> six_digits code then Inr None
      else let current = time_step at
           in first_match mac secret code (map (\<lambda>offset. current + offset) [0, -1, 1]))"

definition codeAt :: "hmac \<Rightarrow> string \<Rightarrow> instant \<Rightarrow> totp_error + string" where
  "codeAt mac secret at = hotp mac secret (time_step at)"

section \<open>Recovery codes\<close>

fun groups_of_4 :: "string \<Rightarrow> string list" where
  \<comment> \<open>\<open>encoded.match(/.{4}/g)\<close>: a shorter rest is left out\<close>
  "groups_of_4 (a # b # c # d # cs) = [a, b, c, d] # groups_of_4 cs"
| "groups_of_4 _ = []"

fun join_dash :: "string list \<Rightarrow> string" where
  "join_dash [] = []"
| "join_dash [g] = g"
| "join_dash (g # gs) = g @ ''-'' @ join_dash gs"

definition recovery_code :: "byte list \<Rightarrow> string" where
  \<comment> \<open>one of \<open>createRecoveryCodes\<close>, of the ten random bytes it draws\<close>
  "recovery_code random = join_dash (groups_of_4 (encodeBase32 random))"

definition createRecoveryCodes :: "byte list list \<Rightarrow> string list" where
  "createRecoveryCodes randoms = map recovery_code randoms"

definition hashRecoveryCode :: "(string \<Rightarrow> string) \<Rightarrow> string \<Rightarrow> string" where
  "hashRecoveryCode digest code = digest (js_upper (filter (\<lambda>c. c \<noteq> CHR ''-'') code))"

section \<open>The bits of an encoding\<close>

definition low_bits :: "nat \<Rightarrow> 'a::len word \<Rightarrow> bool list" where
  \<comment> \<open>the lowest bits, the most significant first\<close>
  "low_bits n v = map (bit v) (rev [0..<n])"

lemma length_low_bits [simp]: "length (low_bits n v) = n"
  by (simp add: low_bits_def)

lemma low_bits_0 [simp]: "low_bits 0 v = []"
  by (simp add: low_bits_def)

lemma nth_low_bits: "k < n \<Longrightarrow> low_bits n v ! k = bit v (n - 1 - k)"
  by (simp add: low_bits_def rev_nth)

lemma low_bits_append:
  assumes "n + k \<le> LENGTH('a)"
    and "\<And>i. i < n \<Longrightarrow> bit w (k + i) = bit v i" and "\<And>i. i < k \<Longrightarrow> bit w i = bit u i"
  shows "low_bits (n + k) (w :: 'a::len word) = low_bits n v @ low_bits k u"
proof (rule nth_equalityI)
  fix i assume "i < length (low_bits (n + k) w)"
  then have i: "i < n + k" by simp
  show "low_bits (n + k) w ! i = (low_bits n v @ low_bits k u) ! i"
  proof (cases "i < n")
    case True
    then have "n + k - 1 - i = k + (n - 1 - i)" by simp
    then show ?thesis using True i assms(2) [of "n - 1 - i"] by (simp add: nth_append nth_low_bits)
  next
    case False
    then show ?thesis using i assms(3) [of "n + k - 1 - i"] by (simp add: nth_append nth_low_bits diff_diff_add add.commute)
  qed
qed simp


lemma and_31: "w AND 31 = take_bit 5 (w :: 32 word)"
proof -
  have "(31 :: 32 word) = mask 5" by (simp add: mask_eq_exp_minus_1)
  then show ?thesis by (simp add: take_bit_eq_mask)
qed

lemma and_255: "w AND 255 = take_bit 8 (w :: 32 word)"
proof -
  have "(255 :: 32 word) = mask 8" by (simp add: mask_eq_exp_minus_1)
  then show ?thesis by (simp add: take_bit_eq_mask)
qed

lemma low_bits_take: "n \<le> m \<Longrightarrow> low_bits n (take_bit m v) = low_bits n (v :: 32 word)"
  by (simp add: low_bits_def bit_simps)

lemma low_bits_drop: "low_bits n (drop_bit k v) @ low_bits k v = low_bits (n + k) (v :: 32 word)" if "n + k \<le> 32"
  by (rule low_bits_append [symmetric]) (use that in \<open>simp_all add: bit_simps add.commute\<close>)

definition digit_bits :: "char \<Rightarrow> bool list" where
  "digit_bits c = (case base32_index c of None \<Rightarrow> [] | Some i \<Rightarrow> low_bits 5 (of_nat i :: 32 word))"

lemma alphabet_table:
  "list_all (\<lambda>k. base32_index (ALPHABET ! k) = Some k \<and> to_upper_char (ALPHABET ! k) = ALPHABET ! k \<and>
     ALPHABET ! k \<noteq> CHR ''='' \<and> ALPHABET ! k \<noteq> CHR ''-'') [0..<32]"
  by code_simp

lemma alphabet_index:
  assumes "k < 32"
  shows "base32_index (ALPHABET ! k) = Some k" and "to_upper_char (ALPHABET ! k) = ALPHABET ! k"
    and "ALPHABET ! k \<noteq> CHR ''=''" and "ALPHABET ! k \<noteq> CHR ''-''"
proof -
  have "k \<in> set [0..<32]" using assms by simp
  with alphabet_table have "base32_index (ALPHABET ! k) = Some k \<and> to_upper_char (ALPHABET ! k) = ALPHABET ! k \<and>
     ALPHABET ! k \<noteq> CHR ''='' \<and> ALPHABET ! k \<noteq> CHR ''-''" unfolding list_all_iff by (rule bspec)
  then show "base32_index (ALPHABET ! k) = Some k" "to_upper_char (ALPHABET ! k) = ALPHABET ! k"
    "ALPHABET ! k \<noteq> CHR ''=''" "ALPHABET ! k \<noteq> CHR ''-''" by simp_all
qed

definition in_alphabet :: "char \<Rightarrow> bool" where
  "in_alphabet c \<longleftrightarrow> (\<exists>k < 32. c = ALPHABET ! k)"

lemma base32_digit_index: "\<exists>k < 32. base32_digit v = ALPHABET ! k \<and> low_bits 5 (of_nat k :: 32 word) = low_bits 5 v"
proof -
  have "take_bit 5 (unat v) < 2 ^ 5" by (rule take_bit_nat_less_exp)
  then have "unat (v AND 31) < 32" by (simp add: and_31 unsigned_take_bit_eq)
  moreover have "(of_nat (unat (v AND 31)) :: 32 word) = take_bit 5 v" by (simp add: and_31)
  ultimately show ?thesis
    by (intro exI [of _ "unat (v AND 31)"]) (simp add: base32_digit_def low_bits_take)
qed

lemma digit_bits_digit: "digit_bits (base32_digit v) = low_bits 5 v" "in_alphabet (base32_digit v)"
  using base32_digit_index [of v] by (auto simp: digit_bits_def alphabet_index in_alphabet_def)

abbreviation text_bits :: "string \<Rightarrow> bool list" where
  "text_bits cs \<equiv> concat (map digit_bits cs)"

abbreviation byte_bits :: "byte list \<Rightarrow> bool list" where
  "byte_bits bs \<equiv> concat (map (low_bits 8) bs)"

lemma encode_digits_bits:
  assumes "encode_digits bits v = (left, out)" and "bits \<le> 32"
  shows "left < 5" and "list_all in_alphabet out" and "text_bits out @ low_bits left v = low_bits bits v"
proof -
  have "left < 5 \<and> list_all in_alphabet out \<and> text_bits out @ low_bits left v = low_bits bits v"
    using assms
  proof (induction bits v arbitrary: left out rule: encode_digits.induct)
    case (1 bits v)
    show ?case
    proof (cases "5 \<le> bits")
      case True
      obtain l o' where rest: "encode_digits (bits - 5) v = (l, o')" by fastforce
      with 1(2) True have out: "left = l" "out = base32_digit (drop_bit (bits - 5) v) # o'"
        by (simp_all add: encode_digits.simps [of bits])
      have "l < 5 \<and> list_all in_alphabet o' \<and> text_bits o' @ low_bits l v = low_bits (bits - 5) v"
        using 1(1) [OF True rest] 1(3) by simp
      moreover have "low_bits 5 (drop_bit (bits - 5) v) @ low_bits (bits - 5) v = low_bits bits v"
        using low_bits_drop [of 5 "bits - 5" v] True 1(3) by simp
      ultimately show ?thesis by (simp add: out digit_bits_digit)
    qed (use 1(2) in \<open>auto simp: encode_digits.simps [of bits]\<close>)
  qed
  then show "left < 5" "list_all in_alphabet out" "text_bits out @ low_bits left v = low_bits bits v" by simp_all
qed

lemma shifted_byte:
  "n \<le> 24 \<Longrightarrow> low_bits (n + 8) (push_bit 8 v OR ucast (b :: byte)) = low_bits n v @ low_bits 8 (b :: byte)" for v :: "32 word"
  by (rule nth_equalityI) (auto simp: nth_low_bits nth_append bit_simps dest: bit_imp_le_length)

lemma encode_bytes_bits:
  assumes "bits < 5"
  shows "list_all in_alphabet (encode_bytes bits v bs) \<and>
    (\<exists>k < 5. text_bits (encode_bytes bits v bs) = low_bits bits v @ byte_bits bs @ replicate k False)"
  using assms
proof (induction bs arbitrary: bits v)
  case Nil
  have "low_bits 5 (push_bit (5 - bits) v) = low_bits bits v @ replicate (5 - bits) False"
    using Nil by (intro nth_equalityI) (auto simp: nth_low_bits nth_append bit_simps)
  with Nil show ?case by (auto simp: digit_bits_digit intro!: exI [of _ "5 - bits"])
next
  case (Cons b bs)
  let ?v = "push_bit 8 v OR ucast b :: 32 word"
  obtain left out where digits: "encode_digits (bits + 8) ?v = (left, out)" by fastforce
  note spec = encode_digits_bits [OF digits]
  have "text_bits out @ low_bits left ?v = low_bits bits v @ low_bits 8 b"
    using spec(3) shifted_byte [of bits v b] Cons(2) by simp
  then show ?case using Cons(1) [of left ?v] spec(1,2) Cons(2) by (auto simp: digits)
qed


lemma shifted_digit:
  "n \<le> 24 \<Longrightarrow> i < 32 \<Longrightarrow>
   low_bits (n + 5) (push_bit 5 v OR of_nat i) = low_bits n v @ low_bits 5 (of_nat i :: 32 word)" for v :: "32 word"
proof -
  assume n: "n \<le> 24" and i: "i < 32"
  have "take_bit 5 i = i" using i by (simp add: take_bit_nat_eq_self)
  then have "take_bit 5 (of_nat i :: 32 word) = of_nat i" by (metis of_nat_take_bit)
  then have high: "\<not> bit (of_nat i :: 32 word) j" if "5 \<le> j" for j
    using that by (metis bit_take_bit_iff not_less)
  show ?thesis
    by (rule nth_equalityI) (use n high in \<open>auto simp: nth_low_bits nth_append bit_push_bit_iff bit_or_iff\<close>)
qed

lemma decode_chars_bits:
  assumes "bits < 8" and "list_all in_alphabet cs"
  shows "\<exists>bs rest. decode_chars bits v cs = Some bs \<and> length rest < 8 \<and> byte_bits bs @ rest = low_bits bits v @ text_bits cs"
  using assms
proof (induction cs arbitrary: bits v)
  case Nil
  then show ?case by (auto intro!: exI [of _ "low_bits bits v"])
next
  case (Cons c cs)
  then obtain i where i: "i < 32" "base32_index c = Some i" by (auto simp: in_alphabet_def alphabet_index)
  let ?v = "push_bit 5 v OR of_nat i :: 32 word"
  have new: "low_bits (bits + 5) ?v = low_bits bits v @ digit_bits c"
    using shifted_digit [of bits i v] i Cons(2) by (simp add: digit_bits_def)
  show ?case
  proof (cases "8 \<le> bits + 5")
    case True
    let ?byte = "ucast (drop_bit (bits + 5 - 8) ?v AND 255) :: byte"
    have "low_bits 8 ?byte = low_bits 8 (drop_bit (bits + 5 - 8) ?v)"
      unfolding and_255 by (rule nth_equalityI) (auto simp: nth_low_bits bit_simps)
    then have "low_bits 8 ?byte @ low_bits (bits + 5 - 8) ?v = low_bits (bits + 5) ?v"
      using low_bits_drop [of 8 "bits + 5 - 8" ?v] True Cons(2) by (simp add: add.commute)
    moreover obtain bs rest where "decode_chars (bits + 5 - 8) ?v cs = Some bs" "length rest < 8"
      "byte_bits bs @ rest = low_bits (bits + 5 - 8) ?v @ text_bits cs"
      using Cons(1) [of "bits + 5 - 8" ?v] Cons(2,3) by fastforce
    ultimately show ?thesis
      using True i new by (auto simp: Let_def intro!: exI [of _ "?byte # bs"] exI [of _ rest])
  next
    case False
    then obtain bs rest where "decode_chars (bits + 5) ?v cs = Some bs" "length rest < 8"
      "byte_bits bs @ rest = low_bits (bits + 5) ?v @ text_bits cs"
      using Cons(1) [of "bits + 5" ?v] Cons(3) by auto
    then show ?thesis using False i new by (auto simp: Let_def)
  qed
qed

lemma byte_of_bits: "low_bits 8 b = low_bits 8 c \<Longrightarrow> b = (c :: byte)"
proof (rule bit_word_eqI)
  fix n assume "low_bits 8 b = low_bits 8 c" and "n < LENGTH(8)"
  then show "bit b n = bit c n" using nth_low_bits [of "7 - n" 8 b] nth_low_bits [of "7 - n" 8 c] by simp
qed

lemma bytes_of_bits:
  "byte_bits bs @ r = byte_bits cs @ z \<Longrightarrow> length r < 8 \<Longrightarrow> length z < 8 \<Longrightarrow> bs = cs"
proof (induction bs arbitrary: cs)
  case Nil
  then show ?case by (cases cs) auto
next
  case (Cons b bs)
  show ?case
  proof (cases cs)
    case Nil
    then have "length (byte_bits (b # bs) @ r) = length z" using Cons(2) by simp
    then show ?thesis using Cons(4) by simp
  next
    case (Cons c cs')
    then show ?thesis using Cons.IH [of cs'] Cons.prems byte_of_bits [of b c] by (simp add: append_eq_append_conv)
  qed
qed

lemma encoded_alphabet: "list_all in_alphabet (encodeBase32 bs)"
  unfolding encodeBase32_def using encode_bytes_bits [of 0 0 bs] by simp

lemma alphabet_fixed:
  assumes "list_all in_alphabet cs"
  shows "filter (\<lambda>c. c \<noteq> CHR ''='') cs = cs" and "filter (\<lambda>c. c \<noteq> CHR ''-'') cs = cs" and "js_upper cs = cs"
proof -
  have "c \<noteq> CHR ''='' \<and> c \<noteq> CHR ''-'' \<and> to_upper_char c = c" if "c \<in> set cs" for c
  proof -
    obtain k where "k < 32" "c = ALPHABET ! k"
      using assms \<open>c \<in> set cs\<close> by (auto simp: list_all_iff in_alphabet_def)
    then show ?thesis using alphabet_index [of k] by simp
  qed
  then show "filter (\<lambda>c. c \<noteq> CHR ''='') cs = cs" "filter (\<lambda>c. c \<noteq> CHR ''-'') cs = cs" "js_upper cs = cs"
    by (simp_all add: filter_id_conv js_upper_def map_idI)
qed

lemma decode_encoded: "decodeBase32 (encodeBase32 bs) = Some bs"
proof -
  let ?cs = "encodeBase32 bs"
  obtain k where k: "k < 5" "text_bits ?cs = byte_bits bs @ replicate k False"
    using encode_bytes_bits [of 0 0 bs] by (auto simp: encodeBase32_def)
  obtain bs' rest where d: "decode_chars 0 0 ?cs = Some bs'" "length rest < 8" "byte_bits bs' @ rest = text_bits ?cs"
    using decode_chars_bits [of 0 ?cs 0] encoded_alphabet [of bs] by auto
  have "bs' = bs" by (rule bytes_of_bits [of _ rest _ "replicate k False"]) (use k d in auto)
  then show ?thesis using d(1) by (simp add: decodeBase32_def alphabet_fixed encoded_alphabet)
qed

section \<open>What the codes guarantee\<close>

text \<open>
  C39: every secret is read back as it was drawn: \<open>decodeBase32\<close> undoes \<open>encodeBase32\<close> for byte strings of any
  length, although the shifted value overflows its 32 bits.
\<close>

theorem base32_roundtrip: "decodeBase32 (encodeBase32 bs) = Some bs \<and> (encodeBase32 as = encodeBase32 bs \<longrightarrow> as = bs)"
  using decode_encoded by (metis option.inject)

theorem base32_roundtrip_witness:
  "decodeBase32 ''MZXQ'' = Some [102, 111] \<and> {bs. encodeBase32 bs = ''MZXQ''} = {[102, 111]}"
proof -
  have code: "encodeBase32 [102, 111] = ''MZXQ''" by code_simp
  note law = base32_roundtrip [where bs = "[102, 111]", unfolded code]
  show ?thesis
  proof (intro conjI subset_antisym subsetI)
    show "decodeBase32 ''MZXQ'' = Some [102, 111]" by (rule conjunct1 [OF law])
    show "bs \<in> {[102, 111]}" if "bs \<in> {bs. encodeBase32 bs = ''MZXQ''}" for bs
      using mp [OF conjunct2 [OF law]] that by (simp only: mem_Collect_eq singleton_iff)
    show "bs \<in> {bs. encodeBase32 bs = ''MZXQ''}" if "bs \<in> {[102, 111]}" for bs
      using code that by (simp only: mem_Collect_eq singleton_iff)
  qed
qed

lemma hotp_six_digits: "hotp mac secret s = Inr code \<Longrightarrow> six_digits code"
proof -
  assume "hotp mac secret s = Inr code"
  then obtain key where "code = pad_start 6 CHR ''0'' (show_nat (truncated (mac key (big_endian (of_int s)))))"
    by (auto simp: hotp_def result_simps split: if_splits)
  moreover have "length (show_nat (truncated ds)) \<le> 6" for ds
    by (subst length_show_nat) (simp_all add: truncated_def Let_def)
  ultimately show ?thesis by (simp add: six_digits_def max_absorb1)
qed

lemma hotp_total:
  assumes "decodeBase32 secret = Some key" and "0 \<le> s" and "s < 2 ^ 64"
  shows "\<exists>code. hotp mac secret s = Inr code"
  using assms by (simp add: hotp_def)

lemma first_match_spec:
  assumes "\<And>s. s \<in> set ss \<Longrightarrow> \<exists>c. hotp mac secret s = Inr c"
  obtains (found) s where "first_match mac secret code ss = Inr (Some s)" and "s \<in> set ss" and "hotp mac secret s = Inr code"
  | (none) "first_match mac secret code ss = Inr None" and "\<forall>s \<in> set ss. hotp mac secret s \<noteq> Inr code"
proof -
  have "(\<exists>s. first_match mac secret code ss = Inr (Some s) \<and> s \<in> set ss \<and> hotp mac secret s = Inr code) \<or>
    (first_match mac secret code ss = Inr None \<and> (\<forall>s \<in> set ss. hotp mac secret s \<noteq> Inr code))"
    using assms
  proof (induction ss)
    case (Cons s ss)
    obtain c where c: "hotp mac secret s = Inr c" using Cons(2) by (meson list.set_intros(1))
    show ?case
    proof (cases "c = code")
      case False
      then show ?thesis using Cons c by auto
    qed (use c in simp)
  qed simp
  then show ?thesis using found none by blast
qed

text \<open>
  C38: a code is accepted at an instant exactly if it is the code of the current half minute or of one of its two
  neighbours, and then the step it is accepted for is one of these three and has that code; the check never
  fails with an exception on a secret that can be read.
\<close>

theorem totp_window:
  assumes "decodeBase32 secret = Some key" and "1 \<le> time_step at" and "time_step at + 1 < 2 ^ 64"
  shows "\<exists>r. totp_verify mac secret code at = Inr r \<and>
    (r \<noteq> None \<longleftrightarrow> (\<exists>s. \<bar>s - time_step at\<bar> \<le> 1 \<and> hotp mac secret s = Inr code)) \<and>
    (\<forall>s. r = Some s \<longrightarrow> \<bar>s - time_step at\<bar> \<le> 1 \<and> hotp mac secret s = Inr code)"
proof -
  let ?ss = "map (\<lambda>offset. time_step at + offset) [0, -1, 1]"
  have near: "s \<in> set ?ss \<longleftrightarrow> \<bar>s - time_step at\<bar> \<le> 1" for s by auto
  have total: "\<exists>c. hotp mac secret s = Inr c" if "s \<in> set ?ss" for s
    using that assms by (intro hotp_total) auto
  show ?thesis
  proof (cases "six_digits code")
    case True
    then have verify: "totp_verify mac secret code at = first_match mac secret code ?ss"
      by (simp add: totp_verify_def Let_def)
    show ?thesis
    proof (rule first_match_spec [of ?ss mac secret code])
      show "\<exists>c. hotp mac secret s = Inr c" if "s \<in> set ?ss" for s using that by (rule total)
    next
      fix s assume "first_match mac secret code ?ss = Inr (Some s)" "s \<in> set ?ss" "hotp mac secret s = Inr code"
      then show ?thesis unfolding verify near by (intro exI [of _ "Some s"]) auto
    next
      assume "first_match mac secret code ?ss = Inr None" and none: "\<forall>s \<in> set ?ss. hotp mac secret s \<noteq> Inr code"
      then have "totp_verify mac secret code at = Inr None" using verify by (simp only:)
      moreover have "hotp mac secret s \<noteq> Inr code" if "\<bar>s - time_step at\<bar> \<le> 1" for s
        using that none near by blast
      ultimately show ?thesis by blast
    qed
  next
    case False
    then have "hotp mac secret s \<noteq> Inr code" for s using hotp_six_digits by blast
    with False show ?thesis by (simp add: totp_verify_def)
  qed
qed


definition sample_mac :: hmac where
  \<comment> \<open>the key and the counter themselves\<close>
  "sample_mac key counter = key @ counter"

theorem totp_window_witness:
  "decodeBase32 ''MZXW6YTBOI======'' \<noteq> None \<and>
   (\<exists>code s. totp_verify sample_mac ''MZXW6YTBOI======'' code 91000 = Inr (Some s) \<and> \<bar>s - 3\<bar> \<le> 1)"
proof -
  have key: "decodeBase32 ''MZXW6YTBOI======'' = Some [102, 111, 111, 98, 97, 114]" by code_simp
  obtain code where code: "hotp sample_mac ''MZXW6YTBOI======'' 4 = Inr code" using key by (simp add: hotp_def)
  have "time_step 91000 = 3" by (simp add: time_step_def PERIOD_SECONDS_def)
  then obtain r where "totp_verify sample_mac ''MZXW6YTBOI======'' code 91000 = Inr r"
    "r \<noteq> None \<longleftrightarrow> (\<exists>s. \<bar>s - 3\<bar> \<le> 1 \<and> hotp sample_mac ''MZXW6YTBOI======'' s = Inr code)"
    "\<forall>s. r = Some s \<longrightarrow> \<bar>s - 3\<bar> \<le> 1 \<and> hotp sample_mac ''MZXW6YTBOI======'' s = Inr code"
    using totp_window [OF key, of 91000 sample_mac code] by auto
  moreover have "\<exists>s. \<bar>s - 3\<bar> \<le> (1 :: int) \<and> hotp sample_mac ''MZXW6YTBOI======'' s = Inr code"
    using code by (intro exI [of _ 4]) simp
  ultimately show ?thesis using key by auto
qed

text \<open>
  A recovery code is hashed as the Base32 text of its ten random bytes, its dashes left out.
\<close>

lemma groups_of_4_concat:
  "4 dvd length cs \<Longrightarrow> concat (groups_of_4 cs) = cs"
proof (induction cs rule: groups_of_4.induct)
  case (1 a b c d cs)
  then have "4 dvd length cs" by simp presburger
  with 1 show ?case by simp
qed (simp; presburger)+

lemma filter_join: "list_all (\<lambda>g. list_all in_alphabet g) gs \<Longrightarrow> filter (\<lambda>c. c \<noteq> CHR ''-'') (join_dash gs) = concat gs"
  by (induction gs rule: join_dash.induct) (auto simp: alphabet_fixed)

lemma groups_alphabet: "list_all in_alphabet cs \<Longrightarrow> list_all (\<lambda>g. list_all in_alphabet g) (groups_of_4 cs)"
  by (induction cs rule: groups_of_4.induct) auto

lemma text_bits_length: "list_all in_alphabet cs \<Longrightarrow> length (text_bits cs) = 5 * length cs"
  by (induction cs) (auto simp: in_alphabet_def digit_bits_def alphabet_index)

lemma encoded_length: "length bs = 10 \<Longrightarrow> length (encodeBase32 bs) = 16"
proof -
  assume "length bs = 10"
  moreover have "length (byte_bits bs) = 8 * length bs" by (induction bs) auto
  moreover obtain k where "k < 5" "text_bits (encodeBase32 bs) = byte_bits bs @ replicate k False"
    using encode_bytes_bits [of 0 0 bs] by (auto simp: encodeBase32_def)
  ultimately have "5 * length (encodeBase32 bs) = 80 + k" "k < 5"
    using text_bits_length [OF encoded_alphabet, of bs] by simp_all
  then show ?thesis by presburger
qed

lemma recovery_code_hash:
  assumes "length bs = 10"
  shows "hashRecoveryCode digest (recovery_code bs) = digest (encodeBase32 bs)"
  using groups_of_4_concat [of "encodeBase32 bs"] encoded_length [OF assms]
  by (simp add: hashRecoveryCode_def recovery_code_def filter_join groups_alphabet encoded_alphabet alphabet_fixed)

end
