(* ===== verification/Sessions.thy ===== *)
theory Sessions
  imports Two_Factor Renewals
begin

text \<open>
  Signing in (\<^verbatim>\<open>apps/api/src/modules/auth/services/auth.service.ts\<close> and
  \<^verbatim>\<open>admin-session-policy.ts\<close>): passwords, second factors of administrators, codes sent to
  customers, sessions, and password resets. The digests, the ciphers and the password hash are parameters;
  random tokens are arguments. A handler that reads before its transaction is a function of the state it
  read and of the state its transaction finds. Registration and support sessions are in \<open>Accounts\<close>; the
  address hash in rows of the activity log is left out.
\<close>

section \<open>Rows\<close>

record admin_profile =
  ap_id :: uuid
  ap_staffRole :: string
  ap_displayName :: "string option"

record account =
  \<comment> \<open>\<open>User\<close> with the relations that are read with it\<close>
  ac_id :: uuid
  ac_email :: string
  ac_passwordHash :: "string option"
  ac_role :: user_role
  ac_status :: user_status
  ac_emailVerifiedAt :: "instant option"
  ac_lastLoginAt :: "instant option"
  ac_deletedAt :: "instant option"
  ac_customerId :: "uuid option"
  ac_adminProfile :: "admin_profile option"

record auth_session =
  as_id :: uuid
  as_userId :: uuid
  as_tokenHash :: string
  as_expiresAt :: instant
  as_lastSeenAt :: instant
  as_revokedAt :: "instant option"
  as_revokedReason :: "string option"
  as_ipAddressHash :: string
  as_userAgent :: "string option"
  as_twoFactorVerifiedAt :: "instant option"
  as_createdAt :: instant

record totp_credential =
  tc_id :: uuid
  tc_userId :: uuid
  tc_secretCiphertext :: string
  tc_keyVersion :: string
  tc_enabledAt :: "instant option"
  tc_lastUsedTimeStep :: "int option"

record recovery_row =
  rc_id :: uuid
  rc_credentialId :: uuid
  rc_codeHash :: string
  rc_usedAt :: "instant option"

record login_challenge =
  lc_id :: uuid
  lc_userId :: uuid
  lc_tokenHash :: string
  lc_expiresAt :: instant
  lc_usedAt :: "instant option"
  lc_failedAttempts :: nat
  lc_ipAddressHash :: string
  lc_userAgent :: "string option"

record email_challenge =
  ec_id :: uuid
  ec_userId :: uuid
  ec_tokenHash :: string
  ec_credentialBinding :: string
  ec_deliveryCiphertext :: string
  ec_ipAddressHash :: string
  ec_expiresAt :: instant
  ec_usedAt :: "instant option"
  ec_failedAttempts :: nat

record reset_token =
  pr_id :: uuid
  pr_userId :: uuid
  pr_tokenHash :: string
  pr_deliveryCiphertext :: string
  pr_expiresAt :: instant
  pr_usedAt :: "instant option"

record security_preference =
  pf_userId :: uuid
  pf_emailTwoStep :: bool
  pf_marketingConsent :: bool

record auth_db =
  t_accounts :: "account list"
  t_sessions :: "auth_session list"
  t_credentials :: "totp_credential list"
  t_recoveryCodes :: "recovery_row list"
  t_challenges :: "login_challenge list"
  t_emailChallenges :: "email_challenge list"
  t_resetTokens :: "reset_token list"
  t_preferences :: "security_preference list"
  t_shared :: db
    \<comment> \<open>the outbox, the activity log and the supply of identifiers\<close>

datatype auth_error =
    Invalid_Credentials | Invalid_Two_Factor | Invalid_Token | Authentication_Required
  | Email_Verification_Required | Auth_Rate_Limited string | Auth_Forbidden string | Auth_Conflict string | Auth_Not_Found string
  | Auth_Failure string
    \<comment> \<open>an error that is not an \<open>ApplicationException\<close>\<close>
  | Auth_Storage api_error

type_synonym 'a auth_tx = "auth_db \<Rightarrow> auth_error + auth_db \<times> 'a"
type_synonym 'a auth_handler = "auth_db \<Rightarrow> auth_db \<times> (auth_error + 'a)"

definition auth_run :: "'a auth_tx \<Rightarrow> 'a auth_handler" where
  "auth_run tx a = (case tx a of Inl e \<Rightarrow> (a, Inl e) | Inr (a', x) \<Rightarrow> (a', Inr x))"

datatype identity =
    Admin_Identity uuid string uuid "string option" string bool
  | Customer_Identity uuid string uuid

record auth_env =
  hashOpaqueToken :: "string \<Rightarrow> string"
  password_verify :: "string \<Rightarrow> string \<Rightarrow> bool"
  password_hash :: "string \<Rightarrow> string"
  encryptSecret :: "string \<Rightarrow> string"
  decryptSecret :: "string \<Rightarrow> string"
  encryptToken :: "string \<Rightarrow> string"
  decryptToken :: "string \<Rightarrow> string"
  totp_mac :: hmac
  recovery_digest :: "string \<Rightarrow> string"
  json_pair :: "string \<Rightarrow> string option \<Rightarrow> string"
    \<comment> \<open>\<open>JSON.stringify\<close> of an address and a password hash\<close>
  identity_schema :: "identity \<Rightarrow> bool"
  sessionTtl :: int
  passwordResetTtl :: int
  emailVerificationTtl :: int

record security_context =
  sc_ipAddressHash :: string
  sc_userAgent :: "string option"

record request_auth =
  ra_identity :: identity
  ra_sessionId :: uuid

record login_result =
  lr_token :: string
  lr_identity :: identity
  lr_sessionId :: uuid
  lr_expiresAt :: string

record challenge_result =
  cr_method :: "string option"
  cr_challengeToken :: string
  cr_expiresAt :: string

section \<open>Policies\<close>

definition ADMIN_SESSION_TTL :: int where
  "ADMIN_SESSION_TTL = 365 * 24 * 60 * 60 * 1000"

definition REMEMBERED_ADMIN_SESSION_TTL :: int where
  "REMEMBERED_ADMIN_SESSION_TTL = 30 * 24 * 60 * 60 * 1000"

definition BROWSER_ADMIN_SESSION_TTL :: int where
  "BROWSER_ADMIN_SESSION_TTL = 24 * 60 * 60 * 1000"

definition BROWSER_PREFIX :: string where
  "BROWSER_PREFIX = ''admin-browser.''"

definition REMEMBERED_PREFIX :: string where
  "REMEMBERED_PREFIX = ''admin-remembered.''"

datatype session_mode = Browser | Remembered | Legacy

definition administratorSessionMode :: "string \<Rightarrow> session_mode" where
  "administratorSessionMode token =
     (if prefix BROWSER_PREFIX token then Browser
      else if prefix REMEMBERED_PREFIX token then Remembered else Legacy)"

definition administratorSessionToken :: "string \<Rightarrow> bool \<Rightarrow> string" where
  "administratorSessionToken token rememberDevice =
     (if rememberDevice then REMEMBERED_PREFIX else BROWSER_PREFIX) @ token"

definition administratorSessionTtl :: "string \<Rightarrow> int \<Rightarrow> int" where
  "administratorSessionTtl token configuredTtl =
     (case administratorSessionMode token of
        Browser \<Rightarrow> min configuredTtl BROWSER_ADMIN_SESSION_TTL
      | Remembered \<Rightarrow> REMEMBERED_ADMIN_SESSION_TTL
      | Legacy \<Rightarrow> ADMIN_SESSION_TTL)"

definition sessionIdleTtl :: "auth_env \<Rightarrow> int" where
  "sessionIdleTtl env = min (sessionTtl env) (60 * 60 * 1000)"

definition hex_digit_val :: "char \<Rightarrow> nat option" where
  "hex_digit_val c =
     (let n = of_char c :: nat
      in if is_digit c then Some (n - 48)
         else if 97 \<le> n \<and> n \<le> 102 then Some (n - 87)
         else if 65 \<le> n \<and> n \<le> 70 then Some (n - 55) else None)"

fun hex_bytes :: "string \<Rightarrow> nat list" where
  \<comment> \<open>\<open>Buffer.from(text, 'hex')\<close> ends at the first pair that is not hexadecimal\<close>
  "hex_bytes (a # b # cs) =
     (case (hex_digit_val a, hex_digit_val b) of
        (Some i, Some j) \<Rightarrow> (16 * i + j) # hex_bytes cs
      | _ \<Rightarrow> [])"
| "hex_bytes _ = []"

definition equalHexDigest :: "string \<Rightarrow> string \<Rightarrow> bool" where
  "equalHexDigest left right \<longleftrightarrow> hex_bytes left = hex_bytes right"

section \<open>Tables\<close>

definition auth_uuid :: "auth_db \<Rightarrow> uuid" where
  "auth_uuid a = fresh_uuid (t_shared a)"

definition used_uuid :: "auth_db \<Rightarrow> auth_db" where
  "used_uuid a = a\<lparr>t_shared := (t_shared a)\<lparr>d_supply := Suc (d_supply (t_shared a))\<rparr>\<rparr>"

definition audit_log :: "uuid option \<Rightarrow> string \<Rightarrow> string \<Rightarrow> uuid option \<Rightarrow> (string \<times> json) list \<Rightarrow> auth_db \<Rightarrow> auth_db" where
  "audit_log actor action entityType entityId metadata a =
     a\<lparr>t_shared := log_activity \<lparr>a_actorUserId = actor, a_action = action, a_entityType = entityType,
         a_entityId = entityId, a_correlationId = None, a_metadata = metadata\<rparr> (t_shared a)\<rparr>"

definition auth_outbox :: "instant \<Rightarrow> uuid \<Rightarrow> string \<Rightarrow> string \<Rightarrow> json \<Rightarrow> unit auth_tx" where
  "auth_outbox now userId eventType key payload a =
     (case create_outbox now ''USER'' userId eventType key payload (t_shared a) of
        Inl e \<Rightarrow> Inl (Auth_Storage e)
      | Inr (d, u) \<Rightarrow> Inr (a\<lparr>t_shared := d\<rparr>, u))"

definition find_account :: "uuid \<Rightarrow> auth_db \<Rightarrow> account option" where
  "find_account k a = List.find (\<lambda>u. ac_id u = k) (t_accounts a)"

definition find_by_email :: "string \<Rightarrow> auth_db \<Rightarrow> account option" where
  "find_by_email email a = List.find (\<lambda>u. ac_email u = email) (t_accounts a)"

definition update_account :: "uuid \<Rightarrow> (account \<Rightarrow> account) \<Rightarrow> unit auth_tx" where
  "update_account k f a =
     (if find_account k a = None then Inl (Auth_Storage Record_Missing)
      else Inr (a\<lparr>t_accounts := update_many (\<lambda>u. ac_id u = k) f (t_accounts a)\<rparr>, ()))"

definition find_session :: "string \<Rightarrow> auth_db \<Rightarrow> auth_session option" where
  "find_session tokenHash a = List.find (\<lambda>s. as_tokenHash s = tokenHash) (t_sessions a)"

definition create_session_row :: "auth_session \<Rightarrow> unit auth_tx" where
  "create_session_row s a =
     (if list_ex (\<lambda>x. as_id x = as_id s \<or> as_tokenHash x = as_tokenHash s) (t_sessions a)
      then Inl (Auth_Storage Unique_Violation)
      else Inr (used_uuid (a\<lparr>t_sessions := t_sessions a @ [s]\<rparr>), ()))"

definition revoke_sessions :: "(auth_session \<Rightarrow> bool) \<Rightarrow> instant \<Rightarrow> string \<Rightarrow> auth_db \<Rightarrow> auth_db" where
  \<comment> \<open>\<open>authSession.updateMany\<close> of sessions that are not revoked\<close>
  "revoke_sessions P now reason a =
     a\<lparr>t_sessions := update_many (\<lambda>s. P s \<and> as_revokedAt s = None)
         (\<lambda>s. s\<lparr>as_revokedAt := Some now, as_revokedReason := Some reason\<rparr>) (t_sessions a)\<rparr>"

definition credential_of :: "uuid \<Rightarrow> auth_db \<Rightarrow> totp_credential option" where
  "credential_of userId a = List.find (\<lambda>c. tc_userId c = userId) (t_credentials a)"

definition totp_enabled :: "uuid \<Rightarrow> auth_db \<Rightarrow> bool" where
  "totp_enabled userId a \<longleftrightarrow> Option.bind (credential_of userId a) tc_enabledAt \<noteq> None"

definition unused_codes :: "uuid \<Rightarrow> auth_db \<Rightarrow> recovery_row list" where
  "unused_codes credentialId a =
     filter (\<lambda>r. rc_credentialId r = credentialId \<and> rc_usedAt r = None) (t_recoveryCodes a)"


section \<open>Identities and sessions\<close>

definition toIdentity :: "auth_env \<Rightarrow> account \<Rightarrow> bool \<Rightarrow> auth_error + identity" where
  \<comment> \<open>the flag: the second factor of the account, as it was read with it, is enabled\<close>
  "toIdentity env u twoFactorEnabled =
     (case (ac_role u, ac_adminProfile u, ac_customerId u) of
        (ADMIN, Some pf, _) \<Rightarrow>
          let name = map_option js_trim (ap_displayName pf);
              i = Admin_Identity (ac_id u) (ac_email u) (ap_id pf) (if name = Some [] then None else name)
                    (ap_staffRole pf) twoFactorEnabled
          in if identity_schema env i then Inr i else Inl (Auth_Failure ''ZodError'')
      | (CUSTOMER, _, Some k) \<Rightarrow>
          let i = Customer_Identity (ac_id u) (ac_email u) k
          in if identity_schema env i then Inr i else Inl (Auth_Failure ''ZodError'')
      | _ \<Rightarrow> Inl (Auth_Failure ''Authenticated user profile is unavailable''))"

definition session_token :: "account \<Rightarrow> bool \<Rightarrow> string \<Rightarrow> string" where
  "session_token u rememberDevice generated =
     (if ac_role u = ADMIN then administratorSessionToken generated rememberDevice else generated)"

definition session_expiry :: "auth_env \<Rightarrow> account \<Rightarrow> string \<Rightarrow> instant \<Rightarrow> instant" where
  "session_expiry env u rawToken createdAt =
     createdAt + (if ac_role u = ADMIN then administratorSessionTtl rawToken (sessionTtl env) else sessionTtl env)"

definition session_row :: "auth_env \<Rightarrow> account \<Rightarrow> security_context \<Rightarrow> instant \<Rightarrow> bool \<Rightarrow> string \<Rightarrow> uuid \<Rightarrow> auth_session" where
  "session_row env u ctx createdAt verified rawToken k =
     \<lparr>as_id = k, as_userId = ac_id u, as_tokenHash = hashOpaqueToken env rawToken,
      as_expiresAt = session_expiry env u rawToken createdAt, as_lastSeenAt = createdAt, as_revokedAt = None,
      as_revokedReason = None, as_ipAddressHash = sc_ipAddressHash ctx, as_userAgent = sc_userAgent ctx,
      as_twoFactorVerifiedAt = (if verified then Some createdAt else None), as_createdAt = createdAt\<rparr>"

definition open_session ::
    "auth_env \<Rightarrow> account \<Rightarrow> security_context \<Rightarrow> instant \<Rightarrow> bool \<Rightarrow> string \<Rightarrow> (string \<times> json) list \<Rightarrow> uuid auth_tx" where
  \<comment> \<open>the writes that \<open>login\<close> and \<open>createSession\<close> have in common\<close>
  "open_session env u ctx createdAt verified rawToken metadata a =
     (let k = auth_uuid a in
      rbind (create_session_row (session_row env u ctx createdAt verified rawToken k) a) (\<lambda>(a1, _).
      rbind (update_account (ac_id u) (\<lambda>u. u\<lparr>ac_lastLoginAt := Some createdAt\<rparr>) a1) (\<lambda>(a2, _).
      Inr (audit_log (Some (ac_id u)) ''AUTH_LOGIN_SUCCEEDED'' ''AUTH_SESSION'' (Some k) metadata a2, k))))"

definition session_result :: "auth_env \<Rightarrow> account \<Rightarrow> string \<Rightarrow> identity \<Rightarrow> instant \<Rightarrow> uuid \<Rightarrow> login_result" where
  "session_result env u rawToken i createdAt k =
     \<lparr>lr_token = rawToken, lr_identity = i, lr_sessionId = k,
      lr_expiresAt = toISOString (session_expiry env u rawToken createdAt)\<rparr>"

definition createSession ::
    "auth_env \<Rightarrow> account \<Rightarrow> bool \<Rightarrow> security_context \<Rightarrow> instant \<Rightarrow> bool \<Rightarrow> string option \<Rightarrow> bool \<Rightarrow> string \<Rightarrow>
     login_result auth_tx" where
  "createSession env u twoFactorEnabled ctx createdAt twoFactorVerified method rememberDevice token a =
     (let rawToken = session_token u rememberDevice token in
      rbind (open_session env u ctx createdAt twoFactorVerified rawToken
               (case method of None \<Rightarrow> [] | Some m \<Rightarrow> [(''secondFactor'', JStr m)]) a) (\<lambda>(a1, k).
      rbind (toIdentity env u twoFactorEnabled) (\<lambda>i.
      Inr (a1, session_result env u rawToken i createdAt k))))"

section \<open>Passwords\<close>

datatype login_plan = Customer_Login account | Challenge_Login account | Direct_Login account identity

definition has_password :: "account \<Rightarrow> bool" where
  "has_password u \<longleftrightarrow> ac_passwordHash u \<noteq> None \<and> ac_passwordHash u \<noteq> Some []"

definition login_read :: "auth_env \<Rightarrow> string \<Rightarrow> string \<Rightarrow> auth_db \<Rightarrow> (auth_error \<times> uuid option option) + login_plan" where
  \<comment> \<open>\<open>login\<close> up to its transaction; a refusal says whether it is logged, and for which user\<close>
  "login_read env email password a =
     (case find_by_email email a of
        None \<Rightarrow> Inl (Invalid_Credentials, Some None)
      | Some u \<Rightarrow>
        if \<not> has_password u then Inl (Invalid_Credentials, Some None)
        else if \<not> password_verify env (the (ac_passwordHash u)) password \<or> ac_deletedAt u \<noteq> None
        then Inl (Invalid_Credentials, Some (Some (ac_id u)))
        else if ac_status u = User_PENDING_VERIFICATION \<or> ac_emailVerifiedAt u = None
        then Inl (Email_Verification_Required, None)
        else if ac_status u \<noteq> User_ACTIVE then Inl (Invalid_Credentials, None)
        else if ac_role u = CUSTOMER then Inr (Customer_Login u)
        else (case toIdentity env u (totp_enabled (ac_id u) a) of
                Inl e \<Rightarrow> Inl (e, None)
              | Inr i \<Rightarrow> if totp_enabled (ac_id u) a then Inr (Challenge_Login u) else Inr (Direct_Login u i)))"

definition lockCustomer :: "uuid \<Rightarrow> auth_db \<Rightarrow> account option" where
  "lockCustomer userId a =
     (case find_account userId a of
        None \<Rightarrow> None
      | Some u \<Rightarrow>
        if ac_role u \<noteq> CUSTOMER \<or> ac_customerId u = None \<or> ac_status u \<noteq> User_ACTIVE \<or> ac_deletedAt u \<noteq> None \<or>
           ac_emailVerifiedAt u = None \<or> \<not> has_password u
        then None else Some u)"

definition preference_of :: "uuid \<Rightarrow> auth_db \<Rightarrow> security_preference option" where
  "preference_of userId a = List.find (\<lambda>p. pf_userId p = userId) (t_preferences a)"

definition email_two_step :: "uuid \<Rightarrow> auth_db \<Rightarrow> bool" where
  "email_two_step userId a = (case preference_of userId a of None \<Rightarrow> False | Some p \<Rightarrow> pf_emailTwoStep p)"

definition supersede_email :: "uuid \<Rightarrow> instant \<Rightarrow> auth_db \<Rightarrow> auth_db" where
  "supersede_email userId now a =
     a\<lparr>t_emailChallenges := update_many (\<lambda>c. ec_userId c = userId \<and> ec_usedAt c = None)
         (\<lambda>c. c\<lparr>ec_usedAt := Some now, ec_deliveryCiphertext := ''superseded''\<rparr>) (t_emailChallenges a)\<rparr>"

definition credential_binding :: "auth_env \<Rightarrow> account \<Rightarrow> string" where
  "credential_binding env u = hashOpaqueToken env (json_pair env (ac_email u) (ac_passwordHash u))"

definition email_code :: "nat \<Rightarrow> string" where
  \<comment> \<open>of \<open>randomInt(1_000_000)\<close>\<close>
  "email_code random = pad_start 6 CHR ''0'' (show_nat random)"

definition email_challenge_row :: "auth_env \<Rightarrow> account \<Rightarrow> security_context \<Rightarrow> instant \<Rightarrow> string \<Rightarrow> nat \<Rightarrow> uuid \<Rightarrow> email_challenge" where
  "email_challenge_row env u ctx now token random k =
     \<lparr>ec_id = k, ec_userId = ac_id u, ec_tokenHash = hashOpaqueToken env token,
      ec_credentialBinding = credential_binding env u, ec_deliveryCiphertext = encryptToken env (email_code random),
      ec_ipAddressHash = sc_ipAddressHash ctx, ec_expiresAt = now + 5 * 60 * 1000, ec_usedAt = None,
      ec_failedAttempts = 0\<rparr>"

definition create_email_challenge :: "email_challenge \<Rightarrow> unit auth_tx" where
  "create_email_challenge c a =
     (if list_ex (\<lambda>x. ec_id x = ec_id c \<or> ec_tokenHash x = ec_tokenHash c) (t_emailChallenges a)
      then Inl (Auth_Storage Unique_Violation)
      else Inr (used_uuid (a\<lparr>t_emailChallenges := t_emailChallenges a @ [c]\<rparr>), ()))"

definition customer_login_tx ::
    "auth_env \<Rightarrow> account \<Rightarrow> security_context \<Rightarrow> instant \<Rightarrow> string \<Rightarrow> nat \<Rightarrow> (login_result + challenge_result) auth_tx" where
  "customer_login_tx env u0 ctx now token random a =
     (case lockCustomer (ac_id u0) a of
        None \<Rightarrow> Inl Invalid_Credentials
      | Some u \<Rightarrow>
        if ac_passwordHash u \<noteq> ac_passwordHash u0 then Inl Invalid_Credentials
        else if \<not> email_two_step (ac_id u) a
        then rbind (createSession env u False ctx now False None False token a) (\<lambda>(a1, r). Inr (a1, Inl r))
        else
          let a1 = supersede_email (ac_id u) now a; k = auth_uuid a1 in
          rbind (create_email_challenge (email_challenge_row env u ctx now token random k) a1) (\<lambda>(a2, _).
          rbind (auth_outbox now (ac_id u) ''AUTH_CUSTOMER_EMAIL_CODE_REQUESTED'' (''auth-customer-email-code:'' @ k)
                   (JObj [(''schemaVersion'', JNum 1), (''challengeId'', JStr k), (''recipientEmail'', JStr (ac_email u))]) a2)
            (\<lambda>(a3, _).
          Inr (a3, Inr \<lparr>cr_method = Some ''email'', cr_challengeToken = token,
                        cr_expiresAt = toISOString (now + 5 * 60 * 1000)\<rparr>))))"

definition challenge_row :: "auth_env \<Rightarrow> account \<Rightarrow> security_context \<Rightarrow> instant \<Rightarrow> string \<Rightarrow> uuid \<Rightarrow> login_challenge" where
  "challenge_row env u ctx createdAt token k =
     \<lparr>lc_id = k, lc_userId = ac_id u, lc_tokenHash = hashOpaqueToken env token,
      lc_expiresAt = createdAt + 5 * 60 * 1000, lc_usedAt = None, lc_failedAttempts = 0,
      lc_ipAddressHash = sc_ipAddressHash ctx, lc_userAgent = sc_userAgent ctx\<rparr>"

definition challenge_login_tx ::
    "auth_env \<Rightarrow> account \<Rightarrow> security_context \<Rightarrow> instant \<Rightarrow> string \<Rightarrow> challenge_result auth_tx" where
  "challenge_login_tx env u ctx createdAt token a =
     (let k = auth_uuid a; c = challenge_row env u ctx createdAt token k;
          cs = update_many (\<lambda>c. lc_userId c = ac_id u \<and> lc_usedAt c = None) (\<lambda>c. c\<lparr>lc_usedAt := Some createdAt\<rparr>)
                 (t_challenges a)
      in if list_ex (\<lambda>x. lc_id x = k \<or> lc_tokenHash x = lc_tokenHash c) cs then Inl (Auth_Storage Unique_Violation)
         else Inr (audit_log (Some (ac_id u)) ''AUTH_TWO_FACTOR_CHALLENGE_CREATED'' ''USER'' (Some (ac_id u)) []
                     (used_uuid (a\<lparr>t_challenges := cs @ [c]\<rparr>)),
                   \<lparr>cr_method = None, cr_challengeToken = token, cr_expiresAt = toISOString (lc_expiresAt c)\<rparr>))"

definition direct_login_tx ::
    "auth_env \<Rightarrow> account \<Rightarrow> identity \<Rightarrow> bool \<Rightarrow> security_context \<Rightarrow> instant \<Rightarrow> string \<Rightarrow> login_result auth_tx" where
  "direct_login_tx env u i rememberDevice ctx createdAt token a =
     (let rawToken = session_token u rememberDevice token in
      rbind (open_session env u ctx createdAt (ac_role u = ADMIN) rawToken [] a) (\<lambda>(a1, k).
      Inr (a1, session_result env u rawToken i createdAt k)))"

definition login_failed :: "uuid option \<Rightarrow> auth_db \<Rightarrow> auth_db" where
  "login_failed entity a =
     audit_log None ''AUTH_LOGIN_FAILED'' ''USER'' entity [(''reason'', JStr ''INVALID_CREDENTIALS'')] a"

definition login_tx ::
    "auth_env \<Rightarrow> login_plan \<Rightarrow> bool \<Rightarrow> security_context \<Rightarrow> instant \<Rightarrow> string \<Rightarrow> nat \<Rightarrow> (login_result + challenge_result) auth_tx" where
  "login_tx env plan rememberDevice ctx now token random a =
     (case plan of
        Customer_Login u \<Rightarrow> customer_login_tx env u ctx now token random a
      | Challenge_Login u \<Rightarrow> rbind (challenge_login_tx env u ctx now token a) (\<lambda>(a1, r). Inr (a1, Inr r))
      | Direct_Login u i \<Rightarrow> rbind (direct_login_tx env u i rememberDevice ctx now token a) (\<lambda>(a1, r). Inr (a1, Inl r)))"

definition login ::
    "auth_env \<Rightarrow> string \<Rightarrow> string \<Rightarrow> bool \<Rightarrow> security_context \<Rightarrow> instant \<Rightarrow> string \<Rightarrow> nat \<Rightarrow>
     (login_result + challenge_result) auth_handler" where
  "login env email password rememberDevice ctx now token random a =
     (case login_read env email password a of
        Inl (e, None) \<Rightarrow> (a, Inl e)
      | Inl (e, Some entity) \<Rightarrow> (login_failed entity a, Inl e)
      | Inr plan \<Rightarrow> auth_run (login_tx env plan rememberDevice ctx now token random) a)"


section \<open>Second factors\<close>

definition totp_check :: "auth_env \<Rightarrow> totp_credential \<Rightarrow> string \<Rightarrow> instant \<Rightarrow> auth_error + int option" where
  "totp_check env c code now =
     (case totp_verify (totp_mac env) (decryptSecret env (tc_secretCiphertext c)) code now of
        Inl _ \<Rightarrow> Inl (Auth_Failure ''totp'') | Inr r \<Rightarrow> Inr r)"

definition matching_code :: "auth_env \<Rightarrow> string \<Rightarrow> recovery_row list \<Rightarrow> recovery_row option" where
  "matching_code env code rows =
     List.find (\<lambda>r. equalHexDigest (rc_codeHash r) (hashRecoveryCode (recovery_digest env) code)) rows"

definition consume_step :: "uuid \<Rightarrow> int \<Rightarrow> auth_db \<Rightarrow> auth_db \<times> nat" where
  "consume_step credentialId step a =
     (let P = (\<lambda>c. tc_id c = credentialId \<and>
                   (case tc_lastUsedTimeStep c of None \<Rightarrow> True | Some l \<Rightarrow> l < step))
      in (a\<lparr>t_credentials := update_many P (\<lambda>c. c\<lparr>tc_lastUsedTimeStep := Some step\<rparr>) (t_credentials a)\<rparr>,
          count_where P (t_credentials a)))"

definition consume_code :: "uuid \<Rightarrow> instant \<Rightarrow> auth_db \<Rightarrow> auth_db \<times> nat" where
  "consume_code k now a =
     (let P = (\<lambda>r. rc_id r = k \<and> rc_usedAt r = None)
      in (a\<lparr>t_recoveryCodes := update_many P (\<lambda>r. r\<lparr>rc_usedAt := Some now\<rparr>) (t_recoveryCodes a)\<rparr>,
          count_where P (t_recoveryCodes a)))"

definition consume_factor :: "uuid \<Rightarrow> int option \<Rightarrow> recovery_row option \<Rightarrow> instant \<Rightarrow> auth_db \<Rightarrow> auth_db \<times> bool" where
  "consume_factor credentialId timeStep recovery now a =
     (case timeStep of
        Some s \<Rightarrow> (case consume_step credentialId s a of (a1, n) \<Rightarrow> (a1, n = 1))
      | None \<Rightarrow> (case recovery of
                   Some r \<Rightarrow> (case consume_code (rc_id r) now a of (a1, n) \<Rightarrow> (a1, n = 1))
                 | None \<Rightarrow> (a, False)))"

definition consume_challenge :: "uuid \<Rightarrow> instant \<Rightarrow> auth_db \<Rightarrow> auth_db \<times> nat" where
  "consume_challenge k now a =
     (let P = (\<lambda>c. lc_id c = k \<and> lc_usedAt c = None \<and> now < lc_expiresAt c)
      in (a\<lparr>t_challenges := update_many P (\<lambda>c. c\<lparr>lc_usedAt := Some now\<rparr>) (t_challenges a)\<rparr>,
          count_where P (t_challenges a)))"

record factor_read =
  fr_challenge :: login_challenge
  fr_account :: account
  fr_credential :: totp_credential
  fr_timeStep :: "int option"
  fr_recovery :: "recovery_row option"

definition find_challenge :: "string \<Rightarrow> auth_db \<Rightarrow> login_challenge option" where
  "find_challenge tokenHash a = List.find (\<lambda>c. lc_tokenHash c = tokenHash) (t_challenges a)"

definition two_factor_read :: "auth_env \<Rightarrow> string \<Rightarrow> string \<Rightarrow> security_context \<Rightarrow> instant \<Rightarrow> auth_db \<Rightarrow> auth_error + factor_read" where
  \<comment> \<open>\<open>completeTwoFactorLogin\<close> up to its transaction\<close>
  "two_factor_read env challengeToken code ctx now a =
     rbind (of_option Invalid_Two_Factor (find_challenge (hashOpaqueToken env challengeToken) a)) (\<lambda>ch.
     rbind (of_option (Auth_Failure ''Foreign key'') (find_account (lc_userId ch) a)) (\<lambda>u.
     rbind (of_option Invalid_Two_Factor (credential_of (lc_userId ch) a)) (\<lambda>c.
     if lc_usedAt ch \<noteq> None \<or> lc_expiresAt ch \<le> now \<or> 5 \<le> lc_failedAttempts ch \<or>
        lc_ipAddressHash ch \<noteq> sc_ipAddressHash ctx \<or> ac_role u \<noteq> ADMIN \<or> ac_status u \<noteq> User_ACTIVE \<or>
        ac_deletedAt u \<noteq> None \<or> tc_enabledAt c = None
     then Inl Invalid_Two_Factor
     else rbind (totp_check env c code now) (\<lambda>step.
       Inr \<lparr>fr_challenge = ch, fr_account = u, fr_credential = c, fr_timeStep = step,
            fr_recovery = matching_code env code (unused_codes (tc_id c) a)\<rparr>))))"

definition two_factor_tx ::
    "auth_env \<Rightarrow> factor_read \<Rightarrow> bool \<Rightarrow> security_context \<Rightarrow> instant \<Rightarrow> string \<Rightarrow> login_result auth_tx" where
  "two_factor_tx env fr rememberDevice ctx now token a =
     (case consume_factor (tc_id (fr_credential fr)) (fr_timeStep fr) (fr_recovery fr) now a of
        (a1, factorConsumed) \<Rightarrow>
          if \<not> factorConsumed then Inl Invalid_Two_Factor
          else (case consume_challenge (lc_id (fr_challenge fr)) now a1 of
                  (a2, n) \<Rightarrow>
                    if n \<noteq> 1 then Inl Invalid_Two_Factor
                    else createSession env (fr_account fr) True ctx now True
                           (Some (if fr_recovery fr \<noteq> None then ''RECOVERY_CODE'' else ''TOTP'')) rememberDevice token a2))"

definition two_factor_failed :: "login_challenge \<Rightarrow> auth_db \<Rightarrow> auth_db" where
  \<comment> \<open>the second transaction, after an \<open>ApplicationException\<close>\<close>
  "two_factor_failed ch a =
     audit_log (Some (lc_userId ch)) ''AUTH_TWO_FACTOR_LOGIN_FAILED'' ''USER'' (Some (lc_userId ch)) []
       (a\<lparr>t_challenges := update_many (\<lambda>c. lc_id c = lc_id ch \<and> lc_usedAt c = None \<and> lc_failedAttempts c < 5)
            (\<lambda>c. c\<lparr>lc_failedAttempts := Suc (lc_failedAttempts c)\<rparr>) (t_challenges a)\<rparr>)"

definition completeTwoFactorLogin ::
    "auth_env \<Rightarrow> string \<Rightarrow> string \<Rightarrow> bool \<Rightarrow> security_context \<Rightarrow> instant \<Rightarrow> string \<Rightarrow> login_result auth_handler" where
  "completeTwoFactorLogin env challengeToken code rememberDevice ctx now token a =
     (case two_factor_read env challengeToken code ctx now a of
        Inl e \<Rightarrow> (a, Inl e)
      | Inr fr \<Rightarrow>
        (case two_factor_tx env fr rememberDevice ctx now token a of
           Inr (a1, r) \<Rightarrow> (a1, Inr r)
         | Inl e \<Rightarrow> if e = Invalid_Two_Factor then (two_factor_failed (fr_challenge fr) a, Inl e) else (a, Inl e)))"

section \<open>Codes sent to customers\<close>

definition find_email_challenge :: "string \<Rightarrow> auth_db \<Rightarrow> email_challenge option" where
  "find_email_challenge tokenHash a = List.find (\<lambda>c. ec_tokenHash c = tokenHash) (t_emailChallenges a)"

definition update_email_challenge :: "uuid \<Rightarrow> (email_challenge \<Rightarrow> email_challenge) \<Rightarrow> auth_db \<Rightarrow> auth_db" where
  "update_email_challenge k f a =
     a\<lparr>t_emailChallenges := update_many (\<lambda>c. ec_id c = k) f (t_emailChallenges a)\<rparr>"

definition wrong_code :: "instant \<Rightarrow> email_challenge \<Rightarrow> email_challenge \<Rightarrow> email_challenge" where
  "wrong_code now ch c =
     (let c1 = c\<lparr>ec_failedAttempts := Suc (ec_failedAttempts c)\<rparr>
      in if ec_failedAttempts ch = 4 then c1\<lparr>ec_usedAt := Some now, ec_deliveryCiphertext := ''exhausted''\<rparr> else c1)"

definition email_login_tx ::
    "auth_env \<Rightarrow> uuid \<Rightarrow> string \<Rightarrow> string \<Rightarrow> security_context \<Rightarrow> instant \<Rightarrow> string \<Rightarrow> login_result option auth_tx" where
  "email_login_tx env userId tokenHash code ctx now token a =
     (case (lockCustomer userId a, find_email_challenge tokenHash a) of
        (Some u, Some ch) \<Rightarrow>
          if \<not> email_two_step userId a \<or> ec_usedAt ch \<noteq> None \<or> ec_expiresAt ch \<le> now \<or> 5 \<le> ec_failedAttempts ch \<or>
             ec_ipAddressHash ch \<noteq> sc_ipAddressHash ctx \<or> ec_credentialBinding ch \<noteq> credential_binding env u
          then Inr (a, None)
          else if \<not> equalHexDigest (hashOpaqueToken env code)
                      (hashOpaqueToken env (decryptToken env (ec_deliveryCiphertext ch)))
          then Inr (update_email_challenge (ec_id ch) (wrong_code now ch) a, None)
          else
            rbind (createSession env u False ctx now True (Some ''email'') False token
                     (update_email_challenge (ec_id ch)
                        (\<lambda>c. c\<lparr>ec_usedAt := Some now, ec_deliveryCiphertext := ''consumed''\<rparr>) a)) (\<lambda>(a1, r).
            Inr (a1, Some r))
      | _ \<Rightarrow> Inr (a, None))"

definition completeCustomerEmailLogin ::
    "auth_env \<Rightarrow> string \<Rightarrow> string \<Rightarrow> security_context \<Rightarrow> instant \<Rightarrow> string \<Rightarrow> login_result auth_handler" where
  "completeCustomerEmailLogin env challengeToken code ctx now token a =
     (let tokenHash = hashOpaqueToken env challengeToken
      in case find_email_challenge tokenHash a of
           None \<Rightarrow> (a, Inl Invalid_Two_Factor)
         | Some lookup \<Rightarrow>
           (case auth_run (email_login_tx env (ec_userId lookup) tokenHash code ctx now token) a of
              (a1, Inr None) \<Rightarrow> (a1, Inl Invalid_Two_Factor)
            | (a1, Inr (Some r)) \<Rightarrow> (a1, Inr r)
            | (a1, Inl e) \<Rightarrow> (a1, Inl e)))"

section \<open>Sessions\<close>

definition idle_expired :: "auth_env \<Rightarrow> string \<Rightarrow> instant \<Rightarrow> account \<Rightarrow> auth_session \<Rightarrow> bool" where
  "idle_expired env rawToken now u s \<longleftrightarrow>
     (ac_role u \<noteq> ADMIN \<or> administratorSessionMode rawToken = Browser) \<and> sessionIdleTtl env < now - as_lastSeenAt s"

definition missing_second_factor :: "account \<Rightarrow> auth_session \<Rightarrow> auth_db \<Rightarrow> bool" where
  "missing_second_factor u s a \<longleftrightarrow>
     ac_role u = ADMIN \<and> totp_enabled (ac_id u) a \<and> as_twoFactorVerifiedAt s = None"

definition revoke_automatically :: "auth_session \<Rightarrow> instant \<Rightarrow> string \<Rightarrow> auth_db \<Rightarrow> auth_db" where
  "revoke_automatically s now reason a =
     audit_log (Some (as_userId s)) ''AUTH_SESSION_REVOKED_AUTOMATICALLY'' ''AUTH_SESSION'' (Some (as_id s))
       [(''reason'', JStr reason)] (revoke_sessions (\<lambda>x. as_id x = as_id s) now reason a)"

definition touched :: "bool \<Rightarrow> instant \<Rightarrow> auth_session \<Rightarrow> auth_session" where
  "touched legacy now s =
     (if legacy then s\<lparr>as_lastSeenAt := now, as_expiresAt := now + ADMIN_SESSION_TTL\<rparr> else s\<lparr>as_lastSeenAt := now\<rparr>)"

definition touch_session :: "uuid \<Rightarrow> bool \<Rightarrow> instant \<Rightarrow> auth_db \<Rightarrow> auth_db" where
  "touch_session k legacy now a =
     a\<lparr>t_sessions := update_many (\<lambda>s. as_id s = k \<and> as_revokedAt s = None) (touched legacy now) (t_sessions a)\<rparr>"

definition authenticateSession :: "auth_env \<Rightarrow> string \<Rightarrow> instant \<Rightarrow> (request_auth \<times> string) auth_handler" where
  "authenticateSession env rawToken now a =
     (case find_session (hashOpaqueToken env rawToken) a of
        None \<Rightarrow> (a, Inl Authentication_Required)
      | Some s \<Rightarrow>
        (case find_account (as_userId s) a of
           None \<Rightarrow> (a, Inl (Auth_Failure ''Foreign key''))
         | Some u \<Rightarrow>
           let idle = idle_expired env rawToken now u s; missing = missing_second_factor u s a;
               a1 = if as_revokedAt s = None \<and> (idle \<or> missing)
                    then revoke_automatically s now (if idle then ''IDLE_TIMEOUT'' else ''MFA_REQUIRED'') a else a
           in if as_revokedAt s \<noteq> None \<or> as_expiresAt s \<le> now \<or> idle \<or> ac_deletedAt u \<noteq> None \<or>
                 ac_status u \<noteq> User_ACTIVE \<or> missing
              then (a1, Inl Authentication_Required)
              else
                let a2 = if 300000 \<le> now - as_lastSeenAt s
                         then touch_session (as_id s) (ac_role u = ADMIN \<and> administratorSessionMode rawToken = Legacy) now a1
                         else a1
                in (a2, rbind (toIdentity env u (totp_enabled (ac_id u) a)) (\<lambda>i.
                          Inr (\<lparr>ra_identity = i, ra_sessionId = as_id s\<rparr>, toISOString (as_expiresAt s))))))"


definition identity_user :: "identity \<Rightarrow> uuid" where
  "identity_user i = (case i of Admin_Identity k _ _ _ _ _ \<Rightarrow> k | Customer_Identity k _ _ \<Rightarrow> k)"

definition logout :: "request_auth \<Rightarrow> instant \<Rightarrow> auth_db \<Rightarrow> auth_db" where
  "logout auth now a =
     audit_log (Some (identity_user (ra_identity auth))) ''AUTH_LOGOUT'' ''AUTH_SESSION'' (Some (ra_sessionId auth)) []
       (revoke_sessions (\<lambda>s. as_id s = ra_sessionId auth \<and> as_userId s = identity_user (ra_identity auth)) now ''LOGOUT'' a)"

definition logoutAll :: "request_auth \<Rightarrow> instant \<Rightarrow> auth_db \<Rightarrow> auth_db" where
  "logoutAll auth now a =
     (let k = identity_user (ra_identity auth)
      in audit_log (Some k) ''AUTH_LOGOUT_ALL'' ''USER'' (Some k) []
           (revoke_sessions (\<lambda>s. as_userId s = k) now ''LOGOUT_ALL'' a))"

definition listSessions :: "request_auth \<Rightarrow> instant \<Rightarrow> auth_db \<Rightarrow> (uuid \<times> bool) list" where
  \<comment> \<open>the identifiers listed and whether each is the current session\<close>
  "listSessions auth now a =
     map (\<lambda>s. (as_id s, as_id s = ra_sessionId auth))
       (rev (sort_key as_createdAt (filter (\<lambda>s. as_userId s = identity_user (ra_identity auth) \<and>
          as_revokedAt s = None \<and> now < as_expiresAt s) (t_sessions a))))"

definition revokeSession :: "request_auth \<Rightarrow> uuid \<Rightarrow> instant \<Rightarrow> bool auth_handler" where
  "revokeSession auth k now a =
     (if \<not> list_ex (\<lambda>s. as_id s = k \<and> as_userId s = identity_user (ra_identity auth)) (t_sessions a)
      then (a, Inl (Auth_Not_Found ''Session was not found.''))
      else (audit_log (Some (identity_user (ra_identity auth))) ''AUTH_SESSION_REVOKED'' ''AUTH_SESSION'' (Some k) []
              (revoke_sessions (\<lambda>s. as_id s = k) now ''USER_REVOKED'' a),
            Inr (k = ra_sessionId auth)))"

section \<open>Password resets\<close>

definition reset_row :: "auth_env \<Rightarrow> account \<Rightarrow> instant \<Rightarrow> string \<Rightarrow> uuid \<Rightarrow> reset_token" where
  "reset_row env u now token k =
     \<lparr>pr_id = k, pr_userId = ac_id u, pr_tokenHash = hashOpaqueToken env token,
      pr_deliveryCiphertext = encryptToken env token, pr_expiresAt = now + passwordResetTtl env, pr_usedAt = None\<rparr>"

definition supersede_resets :: "uuid \<Rightarrow> instant \<Rightarrow> auth_db \<Rightarrow> auth_db" where
  "supersede_resets userId now a =
     a\<lparr>t_resetTokens := update_many (\<lambda>t. pr_userId t = userId \<and> pr_usedAt t = None)
         (\<lambda>t. t\<lparr>pr_usedAt := Some now, pr_deliveryCiphertext := ''superseded''\<rparr>) (t_resetTokens a)\<rparr>"

definition request_reset_tx :: "auth_env \<Rightarrow> account \<Rightarrow> instant \<Rightarrow> string \<Rightarrow> unit auth_tx" where
  "request_reset_tx env u now token a =
     (let a1 = supersede_resets (ac_id u) now a; k = auth_uuid a1; t = reset_row env u now token k
      in if list_ex (\<lambda>x. pr_id x = k \<or> pr_tokenHash x = pr_tokenHash t) (t_resetTokens a1)
         then Inl (Auth_Storage Unique_Violation)
         else
           rbind (auth_outbox now (ac_id u) ''AUTH_PASSWORD_RESET_REQUESTED'' (''auth-password-reset:'' @ k)
                    (JObj [(''schemaVersion'', JNum 1), (''recipientEmail'', JStr (ac_email u)),
                           (''tokenRecordId'', JStr k), (''purpose'', JStr ''PASSWORD_RESET'')])
                    (used_uuid (a1\<lparr>t_resetTokens := t_resetTokens a1 @ [t]\<rparr>))) (\<lambda>(a2, _).
           Inr (audit_log (Some (ac_id u)) ''AUTH_PASSWORD_RESET_REQUESTED'' ''USER'' (Some (ac_id u)) [] a2, ())))"

definition requestPasswordReset :: "auth_env \<Rightarrow> string \<Rightarrow> instant \<Rightarrow> string \<Rightarrow> unit auth_handler" where
  "requestPasswordReset env email now token a =
     (case find_by_email email a of
        None \<Rightarrow> (a, Inr ())
      | Some u \<Rightarrow> if \<not> has_password u \<or> ac_deletedAt u \<noteq> None then (a, Inr ())
                  else auth_run (request_reset_tx env u now token) a)"

definition find_reset :: "string \<Rightarrow> auth_db \<Rightarrow> reset_token option" where
  "find_reset tokenHash a = List.find (\<lambda>t. pr_tokenHash t = tokenHash) (t_resetTokens a)"

definition reset_read :: "auth_env \<Rightarrow> string \<Rightarrow> instant \<Rightarrow> auth_db \<Rightarrow> auth_error + reset_token" where
  "reset_read env token now a =
     (case find_reset (hashOpaqueToken env token) a of
        None \<Rightarrow> Inl Invalid_Token
      | Some t \<Rightarrow> if pr_usedAt t \<noteq> None \<or> pr_expiresAt t \<le> now then Inl Invalid_Token else Inr t)"

definition reset_tx :: "auth_env \<Rightarrow> reset_token \<Rightarrow> string \<Rightarrow> instant \<Rightarrow> unit auth_tx" where
  "reset_tx env t password now a =
     (let P = (\<lambda>x. pr_id x = pr_id t \<and> pr_usedAt x = None \<and> now < pr_expiresAt x);
          a1 = a\<lparr>t_resetTokens := update_many P
                   (\<lambda>x. x\<lparr>pr_usedAt := Some now, pr_deliveryCiphertext := ''consumed''\<rparr>) (t_resetTokens a)\<rparr>
      in if count_where P (t_resetTokens a) \<noteq> 1 then Inl Invalid_Token
         else rbind (update_account (pr_userId t) (\<lambda>u. u\<lparr>ac_passwordHash := Some (password_hash env password)\<rparr>) a1)
           (\<lambda>(a2, _).
           Inr (audit_log (Some (pr_userId t)) ''AUTH_PASSWORD_RESET_COMPLETED'' ''USER'' (Some (pr_userId t)) []
                  (revoke_sessions (\<lambda>s. as_userId s = pr_userId t) now ''PASSWORD_RESET'' a2), ())))"

definition confirmPasswordReset :: "auth_env \<Rightarrow> string \<Rightarrow> string \<Rightarrow> instant \<Rightarrow> unit auth_handler" where
  "confirmPasswordReset env token password now a =
     (case reset_read env token now a of Inl e \<Rightarrow> (a, Inl e) | Inr t \<Rightarrow> auth_run (reset_tx env t password now) a)"

section \<open>Second factors of an administrator\<close>

definition requireAdministrator :: "request_auth \<Rightarrow> auth_error + unit" where
  "requireAdministrator auth =
     (case ra_identity auth of
        Admin_Identity _ _ _ _ _ _ \<Rightarrow> Inr () | _ \<Rightarrow> Inl (Auth_Forbidden ''Administrator access is required.''))"

definition verifyCurrentPassword :: "auth_env \<Rightarrow> uuid \<Rightarrow> string \<Rightarrow> auth_db \<Rightarrow> auth_error + unit" where
  "verifyCurrentPassword env userId password a =
     (case find_account userId a of
        None \<Rightarrow> Inl Invalid_Credentials
      | Some u \<Rightarrow> require (has_password u \<and> password_verify env (the (ac_passwordHash u)) password) Invalid_Credentials)"

record two_factor_status =
  ts_enabled :: bool
  ts_pendingSetup :: bool
  ts_recoveryCodesRemaining :: nat

definition getTwoFactorStatus :: "request_auth \<Rightarrow> auth_db \<Rightarrow> auth_error + two_factor_status" where
  "getTwoFactorStatus auth a =
     rbind (requireAdministrator auth) (\<lambda>_.
     Inr (case credential_of (identity_user (ra_identity auth)) a of
            None \<Rightarrow> \<lparr>ts_enabled = False, ts_pendingSetup = False, ts_recoveryCodesRemaining = 0\<rparr>
          | Some c \<Rightarrow> \<lparr>ts_enabled = (tc_enabledAt c \<noteq> None), ts_pendingSetup = (tc_enabledAt c = None),
                       ts_recoveryCodesRemaining =
                         (if tc_enabledAt c \<noteq> None then length (unused_codes (tc_id c) a) else 0)\<rparr>))"

definition mfa_version :: string where
  "mfa_version = ''mfa-v1''"

definition setup_done :: "uuid \<Rightarrow> uuid \<Rightarrow> auth_db \<Rightarrow> auth_db" where
  \<comment> \<open>the rest of the transaction: the recovery codes are deleted and the start is logged\<close>
  "setup_done userId credentialId a =
     audit_log (Some userId) ''AUTH_TWO_FACTOR_SETUP_STARTED'' ''USER'' (Some userId) []
       (a\<lparr>t_recoveryCodes := filter (\<lambda>r. rc_credentialId r \<noteq> credentialId) (t_recoveryCodes a)\<rparr>)"

definition setup_tx :: "auth_env \<Rightarrow> uuid \<Rightarrow> string \<Rightarrow> unit auth_tx" where
  "setup_tx env userId secret a =
     (case credential_of userId a of
        Some c \<Rightarrow>
          if tc_enabledAt c \<noteq> None then Inl (Auth_Conflict ''Two-factor authentication is already enabled.'')
          else Inr (setup_done userId (tc_id c)
                 (a\<lparr>t_credentials := update_many (\<lambda>x. tc_userId x = userId)
                      (\<lambda>x. x\<lparr>tc_secretCiphertext := encryptSecret env secret, tc_keyVersion := mfa_version,
                            tc_lastUsedTimeStep := None\<rparr>) (t_credentials a)\<rparr>), ())
      | None \<Rightarrow>
          let k = auth_uuid a
          in if list_ex (\<lambda>x. tc_id x = k) (t_credentials a) then Inl (Auth_Storage Unique_Violation)
             else Inr (setup_done userId k
                 (used_uuid (a\<lparr>t_credentials := t_credentials a @
                    [\<lparr>tc_id = k, tc_userId = userId, tc_secretCiphertext = encryptSecret env secret,
                      tc_keyVersion = mfa_version, tc_enabledAt = None, tc_lastUsedTimeStep = None\<rparr>]\<rparr>)), ()))"

definition beginTwoFactorSetup :: "auth_env \<Rightarrow> request_auth \<Rightarrow> string \<Rightarrow> byte list \<Rightarrow> string auth_handler" where
  "beginTwoFactorSetup env auth password random a =
     (case rbind (requireAdministrator auth) (\<lambda>_.
             verifyCurrentPassword env (identity_user (ra_identity auth)) password a) of
        Inl e \<Rightarrow> (a, Inl e)
      | Inr _ \<Rightarrow> auth_run (\<lambda>a1. rbind (setup_tx env (identity_user (ra_identity auth)) (encodeBase32 random) a1)
                           (\<lambda>(a2, _). Inr (a2, encodeBase32 random))) a)"

fun create_codes :: "auth_env \<Rightarrow> uuid \<Rightarrow> string list \<Rightarrow> auth_db \<Rightarrow> auth_error + auth_db \<times> unit" where
  \<comment> \<open>\<open>adminRecoveryCode.createMany\<close>\<close>
  "create_codes env credentialId [] a = Inr (a, ())"
| "create_codes env credentialId (c # cs) a =
     (let k = auth_uuid a; h = hashRecoveryCode (recovery_digest env) c
      in if list_ex (\<lambda>r. rc_id r = k \<or> rc_codeHash r = h) (t_recoveryCodes a)
         then Inl (Auth_Storage Unique_Violation)
         else create_codes env credentialId cs
                (used_uuid (a\<lparr>t_recoveryCodes := t_recoveryCodes a @
                   [\<lparr>rc_id = k, rc_credentialId = credentialId, rc_codeHash = h, rc_usedAt = None\<rparr>]\<rparr>)))"

definition enable_read :: "auth_env \<Rightarrow> request_auth \<Rightarrow> string \<Rightarrow> instant \<Rightarrow> auth_db \<Rightarrow> auth_error + totp_credential \<times> int" where
  "enable_read env auth code now a =
     rbind (requireAdministrator auth) (\<lambda>_.
     case credential_of (identity_user (ra_identity auth)) a of
       None \<Rightarrow> Inl Invalid_Two_Factor
     | Some c \<Rightarrow>
       if tc_enabledAt c \<noteq> None then Inl Invalid_Two_Factor
       else rbind (totp_check env c code now) (\<lambda>step.
         case step of None \<Rightarrow> Inl Invalid_Two_Factor | Some s \<Rightarrow> Inr (c, s)))"

definition verify_session :: "uuid \<Rightarrow> instant \<Rightarrow> unit auth_tx" where
  \<comment> \<open>\<open>authSession.update\<close>\<close>
  "verify_session k now a =
     (if \<not> list_ex (\<lambda>s. as_id s = k) (t_sessions a) then Inl (Auth_Storage Record_Missing)
      else Inr (a\<lparr>t_sessions := update_many (\<lambda>s. as_id s = k)
                    (\<lambda>s. s\<lparr>as_twoFactorVerifiedAt := Some now\<rparr>) (t_sessions a)\<rparr>, ()))"

definition enable_tx ::
    "auth_env \<Rightarrow> request_auth \<Rightarrow> totp_credential \<Rightarrow> int \<Rightarrow> string list \<Rightarrow> instant \<Rightarrow> unit auth_tx" where
  "enable_tx env auth c step codes now a =
     (let userId = identity_user (ra_identity auth); P = (\<lambda>x. tc_id x = tc_id c \<and> tc_enabledAt x = None);
          a1 = a\<lparr>t_credentials := update_many P (\<lambda>x. x\<lparr>tc_enabledAt := Some now, tc_lastUsedTimeStep := Some step\<rparr>)
                   (t_credentials a)\<rparr>
      in if count_where P (t_credentials a) \<noteq> 1 then Inl Invalid_Two_Factor
         else rbind (create_codes env (tc_id c) codes a1) (\<lambda>(a2, _).
           rbind (verify_session (ra_sessionId auth) now
                    (revoke_sessions (\<lambda>s. as_userId s = userId \<and> as_id s \<noteq> ra_sessionId auth) now ''MFA_ENABLED'' a2)) (\<lambda>(a3, _).
           Inr (audit_log (Some userId) ''AUTH_TWO_FACTOR_ENABLED'' ''USER'' (Some userId) [] a3, ()))))"

definition enableTwoFactor ::
    "auth_env \<Rightarrow> request_auth \<Rightarrow> string \<Rightarrow> byte list list \<Rightarrow> instant \<Rightarrow> string list auth_handler" where
  "enableTwoFactor env auth code randoms now a =
     (case enable_read env auth code now a of
        Inl e \<Rightarrow> (a, Inl e)
      | Inr (c, s) \<Rightarrow>
        auth_run (\<lambda>a1. rbind (enable_tx env auth c s (createRecoveryCodes randoms) now a1)
                    (\<lambda>(a2, _). Inr (a2, createRecoveryCodes randoms))) a)"

definition getEnabledCredential :: "uuid \<Rightarrow> auth_db \<Rightarrow> auth_error + totp_credential" where
  "getEnabledCredential userId a =
     (case credential_of userId a of
        None \<Rightarrow> Inl Invalid_Two_Factor
      | Some c \<Rightarrow> if tc_enabledAt c = None then Inl Invalid_Two_Factor else Inr c)"

definition consumeEnabledFactor :: "auth_env \<Rightarrow> totp_credential \<Rightarrow> recovery_row list \<Rightarrow> string \<Rightarrow> instant \<Rightarrow> unit auth_handler" where
  "consumeEnabledFactor env c rows code now a =
     (case totp_check env c code now of
        Inl e \<Rightarrow> (a, Inl e)
      | Inr step \<Rightarrow>
        (case consume_factor (tc_id c) step (matching_code env code rows) now a of
           (a1, consumed) \<Rightarrow> if consumed then (a1, Inr ()) else (a1, Inl Invalid_Two_Factor)))"

definition disable_tx :: "uuid \<Rightarrow> uuid \<Rightarrow> instant \<Rightarrow> unit auth_tx" where
  \<comment> \<open>the recovery codes of the credential are deleted with it\<close>
  "disable_tx userId credentialId now a =
     (if \<not> list_ex (\<lambda>c. tc_id c = credentialId) (t_credentials a) then Inl (Auth_Storage Record_Missing)
      else Inr (audit_log (Some userId) ''AUTH_TWO_FACTOR_DISABLED'' ''USER'' (Some userId) []
             (revoke_sessions (\<lambda>s. as_userId s = userId) now ''MFA_DISABLED''
               (a\<lparr>t_credentials := filter (\<lambda>c. tc_id c \<noteq> credentialId) (t_credentials a),
                  t_recoveryCodes := filter (\<lambda>r. rc_credentialId r \<noteq> credentialId) (t_recoveryCodes a)\<rparr>)), ()))"

definition factor_confirmed :: "auth_env \<Rightarrow> request_auth \<Rightarrow> string \<Rightarrow> string \<Rightarrow> instant \<Rightarrow> totp_credential auth_handler" where
  \<comment> \<open>what \<open>disableTwoFactor\<close> and \<open>regenerateRecoveryCodes\<close> ask for\<close>
  "factor_confirmed env auth password code now a =
     (case rbind (requireAdministrator auth) (\<lambda>_.
           rbind (verifyCurrentPassword env (identity_user (ra_identity auth)) password a) (\<lambda>_.
           getEnabledCredential (identity_user (ra_identity auth)) a)) of
        Inl e \<Rightarrow> (a, Inl e)
      | Inr c \<Rightarrow> (case consumeEnabledFactor env c (unused_codes (tc_id c) a) code now a of
                   (a1, Inl e) \<Rightarrow> (a1, Inl e) | (a1, Inr _) \<Rightarrow> (a1, Inr c)))"

definition disableTwoFactor :: "auth_env \<Rightarrow> request_auth \<Rightarrow> string \<Rightarrow> string \<Rightarrow> instant \<Rightarrow> unit auth_handler" where
  "disableTwoFactor env auth password code now a =
     (case factor_confirmed env auth password code now a of
        (a1, Inl e) \<Rightarrow> (a1, Inl e)
      | (a1, Inr c) \<Rightarrow> auth_run (disable_tx (identity_user (ra_identity auth)) (tc_id c) now) a1)"

definition regenerate_tx :: "auth_env \<Rightarrow> uuid \<Rightarrow> uuid \<Rightarrow> string list \<Rightarrow> unit auth_tx" where
  "regenerate_tx env userId credentialId codes a =
     rbind (create_codes env credentialId codes
              (a\<lparr>t_recoveryCodes := filter (\<lambda>r. rc_credentialId r \<noteq> credentialId) (t_recoveryCodes a)\<rparr>)) (\<lambda>(a1, _).
     Inr (audit_log (Some userId) ''AUTH_TWO_FACTOR_RECOVERY_CODES_REGENERATED'' ''USER'' (Some userId) [] a1, ()))"

definition regenerateRecoveryCodes ::
    "auth_env \<Rightarrow> request_auth \<Rightarrow> string \<Rightarrow> string \<Rightarrow> byte list list \<Rightarrow> instant \<Rightarrow> string list auth_handler" where
  "regenerateRecoveryCodes env auth password code randoms now a =
     (case factor_confirmed env auth password code now a of
        (a1, Inl e) \<Rightarrow> (a1, Inl e)
      | (a1, Inr c) \<Rightarrow>
        auth_run (\<lambda>a2. rbind (regenerate_tx env (identity_user (ra_identity auth)) (tc_id c) (createRecoveryCodes randoms) a2)
                    (\<lambda>(a3, _). Inr (a3, createRecoveryCodes randoms))) a1)"


section \<open>Preferences of a customer\<close>

datatype preference_update = Set_Email_Two_Step bool string | Set_Marketing_Consent bool

definition upsert_preference :: "uuid \<Rightarrow> (security_preference \<Rightarrow> security_preference) \<Rightarrow> auth_db \<Rightarrow> auth_db" where
  "upsert_preference userId f a =
     a\<lparr>t_preferences :=
         (if preference_of userId a = None
          then t_preferences a @ [f \<lparr>pf_userId = userId, pf_emailTwoStep = False, pf_marketingConsent = False\<rparr>]
          else update_many (\<lambda>p. pf_userId p = userId) f (t_preferences a))\<rparr>"

definition two_step_changed :: "uuid \<Rightarrow> uuid \<Rightarrow> instant \<Rightarrow> auth_db \<Rightarrow> auth_db" where
  "two_step_changed userId sessionId now a =
     revoke_sessions (\<lambda>s. as_userId s = userId \<and> as_id s \<noteq> sessionId) now ''CUSTOMER_EMAIL_TWO_STEP_CHANGED''
       (supersede_email userId now a)"

definition preference_logged :: "uuid \<Rightarrow> (string \<times> json) list \<Rightarrow> auth_db \<Rightarrow> auth_db" where
  "preference_logged userId changes a =
     audit_log (Some userId) ''CUSTOMER_SECURITY_PREFERENCE_CHANGED'' ''USER'' (Some userId) changes a"

definition preferences_tx :: "auth_env \<Rightarrow> uuid \<Rightarrow> uuid \<Rightarrow> preference_update \<Rightarrow> instant \<Rightarrow> unit auth_tx" where
  "preferences_tx env userId sessionId input now a =
     (case lockCustomer userId a of
        None \<Rightarrow> Inl Invalid_Credentials
      | Some u \<Rightarrow>
        if \<not> list_ex (\<lambda>s. as_id s = sessionId \<and> as_userId s = userId \<and> as_revokedAt s = None \<and> now < as_expiresAt s)
               (t_sessions a)
        then Inl Invalid_Credentials
        else
          (case input of
             Set_Email_Two_Step b password \<Rightarrow>
               if \<not> password_verify env (the (ac_passwordHash u)) password then Inl Invalid_Credentials
               else Inr (upsert_preference userId (\<lambda>p. p\<lparr>pf_emailTwoStep := b\<rparr>)
                      (if b \<noteq> email_two_step userId a
                       then preference_logged userId [(''emailTwoStep'', JBool b)] (two_step_changed userId sessionId now a)
                       else a), ())
           | Set_Marketing_Consent b \<Rightarrow>
               Inr (upsert_preference userId (\<lambda>p. p\<lparr>pf_marketingConsent := b\<rparr>)
                      (if b \<noteq> (case preference_of userId a of None \<Rightarrow> False | Some p \<Rightarrow> pf_marketingConsent p)
                       then preference_logged userId [(''marketingConsent'', JBool b)] a else a), ())))"

definition updateCustomerSecurityPreferences ::
    "auth_env \<Rightarrow> request_auth \<Rightarrow> preference_update \<Rightarrow> instant \<Rightarrow> security_preference auth_handler" where
  "updateCustomerSecurityPreferences env auth input now a =
     (case ra_identity auth of
        Admin_Identity _ _ _ _ _ _ \<Rightarrow> (a, Inl (Auth_Forbidden ''Customer access is required.''))
      | Customer_Identity k _ _ \<Rightarrow>
        auth_run (\<lambda>a. rbind (preferences_tx env k (ra_sessionId auth) input now a) (\<lambda>(a1, _).
                        rbind (of_option (Auth_Storage Record_Missing) (preference_of k a1)) (\<lambda>p. Inr (a1, p)))) a)"

definition getCustomerSecurityPreferences :: "request_auth \<Rightarrow> auth_db \<Rightarrow> auth_error + bool \<times> bool" where
  "getCustomerSecurityPreferences auth a =
     (case ra_identity auth of
        Admin_Identity _ _ _ _ _ _ \<Rightarrow> Inl (Auth_Forbidden ''Customer access is required.'')
      | Customer_Identity k _ _ \<Rightarrow>
        Inr (case preference_of k a of
               None \<Rightarrow> (False, False) | Some p \<Rightarrow> (pf_emailTwoStep p, pf_marketingConsent p)))"

section \<open>What each transaction leaves alone\<close>

lemma update_account_cases:
  assumes "update_account k f a = Inr (a', u)"
  obtains "a' = a\<lparr>t_accounts := update_many (\<lambda>u. ac_id u = k) f (t_accounts a)\<rparr>" and "find_account k a \<noteq> None"
  using assms by (auto simp: update_account_def split: if_splits)

lemma create_session_row_cases:
  assumes "create_session_row s a = Inr (a', u)"
  obtains "a' = used_uuid (a\<lparr>t_sessions := t_sessions a @ [s]\<rparr>)"
    and "\<forall>x \<in> set (t_sessions a). as_id x \<noteq> as_id s \<and> as_tokenHash x \<noteq> as_tokenHash s"
  using assms by (auto simp: create_session_row_def list_ex_iff split: if_splits)

lemma auth_outbox_cases:
  assumes "auth_outbox now k t key v a = Inr (a', u)"
  obtains d where "a' = a\<lparr>t_shared := d\<rparr>" and "d_supply d = Suc (d_supply (t_shared a))"
  using assms by (auto simp: auth_outbox_def create_outbox_def split: sum.splits if_splits)

definition supply_of :: "auth_db \<Rightarrow> nat" where
  "supply_of a = d_supply (t_shared a)"

lemma supply_simps [simp]:
  "supply_of (used_uuid a) = Suc (supply_of a)" "supply_of (audit_log actor act ty k md a) = supply_of a"
  "supply_of (a\<lparr>t_accounts := us\<rparr>) = supply_of a" "supply_of (a\<lparr>t_sessions := ss\<rparr>) = supply_of a"
  "supply_of (a\<lparr>t_credentials := cs\<rparr>) = supply_of a" "supply_of (a\<lparr>t_recoveryCodes := rs\<rparr>) = supply_of a"
  "supply_of (a\<lparr>t_challenges := hs\<rparr>) = supply_of a" "supply_of (a\<lparr>t_emailChallenges := es\<rparr>) = supply_of a"
  "supply_of (a\<lparr>t_resetTokens := ts\<rparr>) = supply_of a" "supply_of (a\<lparr>t_preferences := ps\<rparr>) = supply_of a"
  "supply_of (a\<lparr>t_shared := d\<rparr>) = d_supply d"
  by (simp_all add: supply_of_def used_uuid_def audit_log_def log_activity_def)

lemma auth_uuid_supply: "auth_uuid a = show_nat (supply_of a)"
  by (simp add: auth_uuid_def fresh_uuid_def supply_of_def)


definition factors_same :: "auth_db \<Rightarrow> auth_db \<Rightarrow> bool" where
  "factors_same a a' \<longleftrightarrow>
     t_credentials a' = t_credentials a \<and> t_recoveryCodes a' = t_recoveryCodes a \<and> t_challenges a' = t_challenges a \<and>
     supply_of a \<le> supply_of a'"

lemma factors_same_refl [simp]: "factors_same a a"
  by (simp add: factors_same_def)

lemma factors_same_trans: "factors_same a b \<Longrightarrow> factors_same b c \<Longrightarrow> factors_same a c"
  by (simp add: factors_same_def)

lemma factors_same_writes [simp]:
  "factors_same a (used_uuid a)" "factors_same a (audit_log actor act ty k md a)"
  "factors_same a (a\<lparr>t_accounts := us\<rparr>)" "factors_same a (a\<lparr>t_sessions := ss\<rparr>)"
  "factors_same a (a\<lparr>t_emailChallenges := es\<rparr>)" "factors_same a (a\<lparr>t_resetTokens := ts\<rparr>)"
  "factors_same a (a\<lparr>t_preferences := ps\<rparr>)"
  by (simp_all add: factors_same_def) (simp_all add: used_uuid_def audit_log_def)

lemma factors_same_sessions [simp]:
  "factors_same a (revoke_sessions P now reason a)" "factors_same a (touch_session k legacy now a)"
  "factors_same a (update_email_challenge k f a)" "factors_same a (supersede_email k now a)"
  "factors_same a (supersede_resets k now a)" "factors_same a (upsert_preference k g a)"
  by (simp_all add: revoke_sessions_def touch_session_def update_email_challenge_def supersede_email_def
      supersede_resets_def upsert_preference_def)

lemma factors_same_calls:
  "auth_outbox now k t key v a = Inr (a', u) \<Longrightarrow> factors_same a a'"
  "update_account k f a = Inr (a', u) \<Longrightarrow> factors_same a a'"
  "create_session_row s a = Inr (a', u) \<Longrightarrow> factors_same a a'"
  "verify_session k now a = Inr (a', u) \<Longrightarrow> factors_same a a'"
  "create_email_challenge c a = Inr (a', u) \<Longrightarrow> factors_same a a'"
proof -
  show "auth_outbox now k t key v a = Inr (a', u) \<Longrightarrow> factors_same a a'"
    by (erule auth_outbox_cases) (simp add: factors_same_def supply_of_def)
  show "update_account k f a = Inr (a', u) \<Longrightarrow> factors_same a a'"
    by (erule update_account_cases) simp
  show "create_session_row s a = Inr (a', u) \<Longrightarrow> factors_same a a'"
    by (erule create_session_row_cases) (simp add: factors_same_def, simp add: used_uuid_def)
  show "verify_session k now a = Inr (a', u) \<Longrightarrow> factors_same a a'"
    by (auto simp: verify_session_def split: if_splits)
  show "create_email_challenge c a = Inr (a', u) \<Longrightarrow> factors_same a a'"
    by (auto simp: create_email_challenge_def factors_same_def used_uuid_def supply_of_def split: if_splits)
qed

lemma factors_same_open:
  "open_session env u ctx now v raw md a = Inr (a', k) \<Longrightarrow> factors_same a a'"
  by (auto simp: open_session_def Let_def result_simps
      dest!: factors_same_calls intro: factors_same_trans factors_same_writes)

lemma factors_same_session:
  "createSession env u b ctx now v m rem token a = Inr (a', r) \<Longrightarrow> factors_same a a'"
  "direct_login_tx env u i rem ctx now token a = Inr (a', r) \<Longrightarrow> factors_same a a'"
  by (auto simp: createSession_def direct_login_tx_def Let_def result_simps dest: factors_same_open)


lemma factors_same_logs [simp]:
  "factors_same a (login_failed k a)" "factors_same a (revoke_automatically x now reason a)"
  "factors_same a (logout auth now a)" "factors_same a (logoutAll auth now a)"
  "factors_same a (two_step_changed k' i now a)" "factors_same a (preference_logged k' md a)"
  unfolding login_failed_def revoke_automatically_def logout_def logoutAll_def two_step_changed_def preference_logged_def Let_def
  by (intro factors_same_writes factors_same_trans [OF factors_same_sessions(1) factors_same_writes(2)]
      factors_same_trans [OF factors_same_sessions(4) factors_same_sessions(1)])+

lemma factors_same_txs:
  "customer_login_tx env u ctx now token random a = Inr (a', r1) \<Longrightarrow> factors_same a a'"
  "email_login_tx env k h code ctx now token a = Inr (a', r2) \<Longrightarrow> factors_same a a'"
  "request_reset_tx env u now token a = Inr (a', r3) \<Longrightarrow> factors_same a a'"
  "reset_tx env t pw now a = Inr (a', r3) \<Longrightarrow> factors_same a a'"
  "preferences_tx env k i input now a = Inr (a', r3) \<Longrightarrow> factors_same a a'"
  "revokeSession auth k now a = (a', r4) \<Longrightarrow> factors_same a a'"
proof -
  show "factors_same a a'" if "customer_login_tx env u ctx now token random a = Inr (a', r1)"
    using that
    by (auto simp: customer_login_tx_def Let_def result_simps split: option.splits if_splits dest: factors_same_session)
      (meson factors_same_calls factors_same_sessions factors_same_trans)
  show "factors_same a a'" if "email_login_tx env k h code ctx now token a = Inr (a', r2)"
    using that
    by (auto simp: email_login_tx_def result_simps split: option.splits if_splits)
      (meson factors_same_session(1) factors_same_sessions(3) factors_same_trans)
  show "factors_same a a'" if run: "request_reset_tx env u now token a = Inr (a', r3)"
  proof -
    let ?a1 = "supersede_resets (ac_id u) now a"
    let ?a2 = "used_uuid (?a1\<lparr>t_resetTokens := t_resetTokens ?a1 @ [reset_row env u now token (auth_uuid ?a1)]\<rparr>)"
    obtain a3 where box: "auth_outbox now (ac_id u) ''AUTH_PASSWORD_RESET_REQUESTED'' (''auth-password-reset:'' @ auth_uuid ?a1)
        (JObj [(''schemaVersion'', JNum 1), (''recipientEmail'', JStr (ac_email u)),
               (''tokenRecordId'', JStr (auth_uuid ?a1)), (''purpose'', JStr ''PASSWORD_RESET'')]) ?a2 = Inr (a3, ())"
      and a': "a' = audit_log (Some (ac_id u)) ''AUTH_PASSWORD_RESET_REQUESTED'' ''USER'' (Some (ac_id u)) [] a3"
      using run by (auto simp: request_reset_tx_def Let_def result_simps split: if_splits)
    have "factors_same a ?a2"
      by (rule factors_same_trans [OF factors_same_sessions(5)
            factors_same_trans [OF factors_same_writes(6) factors_same_writes(1)]])
    then show ?thesis
      unfolding a' by (rule factors_same_trans [OF _ factors_same_trans [OF factors_same_calls(1) [OF box] factors_same_writes(2)]])
  qed
  show "factors_same a a'" if run: "reset_tx env t pw now a = Inr (a', r3)"
  proof -
    obtain ts a2 where "update_account (pr_userId t) (\<lambda>u. u\<lparr>ac_passwordHash := Some (password_hash env pw)\<rparr>)
        (a\<lparr>t_resetTokens := ts\<rparr>) = Inr (a2, ())"
      and a': "a' = audit_log (Some (pr_userId t)) ''AUTH_PASSWORD_RESET_COMPLETED'' ''USER'' (Some (pr_userId t)) []
                 (revoke_sessions (\<lambda>s. as_userId s = pr_userId t) now ''PASSWORD_RESET'' a2)"
      using run by (auto simp: reset_tx_def Let_def result_simps split: if_splits)
    then have "factors_same a a2"
      using factors_same_trans [OF factors_same_writes(6) factors_same_calls(2)] by blast
    then show ?thesis
      unfolding a' by (rule factors_same_trans [OF _ factors_same_trans [OF factors_same_sessions(1) factors_same_writes(2)]])
  qed
  show "factors_same a a'" if "preferences_tx env k i input now a = Inr (a', r3)"
    using that
    by (auto simp: preferences_tx_def split: option.splits if_splits preference_update.splits)
      (meson factors_same_logs factors_same_sessions factors_same_trans)+
  show "factors_same a a'" if "revokeSession auth k now a = (a', r4)"
    using that factors_same_trans [OF factors_same_sessions(1) factors_same_writes(2)]
    by (auto simp: revokeSession_def split: if_splits)
qed

section \<open>Transactions of any number of requests\<close>

inductive auth_step :: "auth_env \<Rightarrow> auth_db \<Rightarrow> auth_db \<Rightarrow> bool" for env where
  \<comment> \<open>what a request read before its transaction is arbitrary here: it may be as old as the request\<close>
  login_committed: "login_tx env plan remember ctx now token random a = Inr (a', r) \<Longrightarrow> auth_step env a a'"
| login_refused: "auth_step env a (login_failed k a)"
| factor_login: "two_factor_tx env fr remember ctx now token a = Inr (a', r) \<Longrightarrow> auth_step env a a'"
| factor_refused: "auth_step env a (two_factor_failed ch a)"
| email_login: "email_login_tx env k h code ctx now token a = Inr (a', r) \<Longrightarrow> auth_step env a a'"
| session_revoked: "auth_step env a (revoke_automatically s now reason a)"
| session_touched: "auth_step env a (touch_session k legacy now a)"
| logged_out: "auth_step env a (logout auth now a)"
| logged_out_everywhere: "auth_step env a (logoutAll auth now a)"
| revoked_by_user: "revokeSession auth k now a = (a', r) \<Longrightarrow> auth_step env a a'"
| reset_requested: "request_reset_tx env u now token a = Inr (a', r) \<Longrightarrow> auth_step env a a'"
| reset_confirmed: "reset_tx env t pw now a = Inr (a', r) \<Longrightarrow> auth_step env a a'"
| setup_started: "setup_tx env k secret a = Inr (a', r) \<Longrightarrow> auth_step env a a'"
| factor_enabled: "enable_tx env auth c step codes now a = Inr (a', r) \<Longrightarrow> auth_step env a a'"
| factor_consumed: "auth_step env a (fst (consume_factor k step recovery now a))"
| factor_disabled: "disable_tx k c now a = Inr (a', r) \<Longrightarrow> auth_step env a a'"
| codes_regenerated: "regenerate_tx env k c codes a = Inr (a', r) \<Longrightarrow> auth_step env a a'"
| preference_changed: "preferences_tx env k i input now a = Inr (a', r) \<Longrightarrow> auth_step env a a'"
| accounts_changed: "auth_step env a (a\<lparr>t_accounts := us\<rparr>)"
    \<comment> \<open>registrations and the services that edit accounts\<close>
| others_committed: "supply_of a \<le> d_supply d \<Longrightarrow> auth_step env a (a\<lparr>t_shared := d\<rparr>)"

abbreviation auth_steps :: "auth_env \<Rightarrow> auth_db \<Rightarrow> auth_db \<Rightarrow> bool" where
  "auth_steps env \<equiv> (auth_step env)\<^sup>*\<^sup>*"

section \<open>Nothing is used twice\<close>

definition issued :: "uuid \<Rightarrow> auth_db \<Rightarrow> bool" where
  \<comment> \<open>no row created later can have this identifier\<close>
  "issued k a \<longleftrightarrow> (\<forall>n. k = show_nat n \<longrightarrow> n < supply_of a)"

lemma issued_mono: "issued k a \<Longrightarrow> supply_of a \<le> supply_of a' \<Longrightarrow> issued k a'"
  by (fastforce simp: issued_def)

lemma issued_fresh: "issued k a \<Longrightarrow> k \<noteq> auth_uuid a"
  by (auto simp: issued_def auth_uuid_supply)

lemma fresh_issued: "supply_of a < supply_of a' \<Longrightarrow> issued (auth_uuid a) a'"
  by (auto simp: issued_def auth_uuid_supply show_nat_inj)

definition challenge_spent :: "uuid \<Rightarrow> auth_db \<Rightarrow> bool" where
  "challenge_spent k a \<longleftrightarrow> issued k a \<and> (\<forall>c \<in> set (t_challenges a). lc_id c = k \<longrightarrow> lc_usedAt c \<noteq> None)"

definition code_spent :: "uuid \<Rightarrow> auth_db \<Rightarrow> bool" where
  "code_spent k a \<longleftrightarrow> issued k a \<and> (\<forall>r \<in> set (t_recoveryCodes a). rc_id r = k \<longrightarrow> rc_usedAt r \<noteq> None)"

definition factor_on :: "uuid \<Rightarrow> auth_db \<Rightarrow> bool" where
  \<comment> \<open>a credential that is enabled is so until it is deleted\<close>
  "factor_on k a \<longleftrightarrow> issued k a \<and> (\<forall>c \<in> set (t_credentials a). tc_id c = k \<longrightarrow> tc_enabledAt c \<noteq> None)"

definition step_spent :: "uuid \<Rightarrow> int \<Rightarrow> auth_db \<Rightarrow> bool" where
  "step_spent k s a \<longleftrightarrow> factor_on k a \<and>
     (\<forall>c \<in> set (t_credentials a). tc_id c = k \<longrightarrow> (\<exists>l. tc_lastUsedTimeStep c = Some l \<and> s \<le> l))"

definition factors_ok :: "auth_db \<Rightarrow> bool" where
  "factors_ok a \<longleftrightarrow> distinct (map tc_userId (t_credentials a)) \<and> distinct (map tc_id (t_credentials a)) \<and>
     distinct (map lc_id (t_challenges a)) \<and>
     (\<forall>c \<in> set (t_credentials a). issued (tc_id c) a) \<and> (\<forall>r \<in> set (t_recoveryCodes a). issued (rc_id r) a) \<and>
     (\<forall>c \<in> set (t_challenges a). issued (lc_id c) a)"

definition factors_forward :: "auth_db \<Rightarrow> auth_db \<Rightarrow> bool" where
  \<comment> \<open>no step undoes the use of a factor\<close>
  "factors_forward a a' \<longleftrightarrow> factors_ok a' \<and> supply_of a \<le> supply_of a' \<and>
     (\<forall>k. challenge_spent k a \<longrightarrow> challenge_spent k a') \<and> (\<forall>k. code_spent k a \<longrightarrow> code_spent k a') \<and>
     (\<forall>k. factor_on k a \<longrightarrow> factor_on k a') \<and> (\<forall>k s. step_spent k s a \<longrightarrow> step_spent k s a')"

lemma factors_forward_trans: "factors_forward a b \<Longrightarrow> factors_forward b c \<Longrightarrow> factors_forward a c"
  by (auto simp: factors_forward_def)

lemma factors_forward_same:
  assumes "factors_same a a'" and "factors_ok a"
  shows "factors_forward a a'"
  using assms issued_mono [of _ a a']
  by (auto simp: factors_forward_def factors_same_def factors_ok_def challenge_spent_def code_spent_def factor_on_def step_spent_def)


definition new_id :: "auth_db \<Rightarrow> auth_db \<Rightarrow> uuid \<Rightarrow> bool" where
  "new_id a a' k \<longleftrightarrow> (\<exists>n. supply_of a \<le> n \<and> n < supply_of a' \<and> k = show_nat n)"

lemma new_id_issued: "new_id a a' k \<Longrightarrow> issued k a'" "new_id a a' k \<Longrightarrow> \<not> issued k a"
  by (auto simp: new_id_def issued_def show_nat_inj)

lemma new_id_uuid: "supply_of a < supply_of a' \<Longrightarrow> new_id a a' (auth_uuid a)"
  by (auto simp: new_id_def auth_uuid_supply)

definition challenge_after :: "login_challenge \<Rightarrow> login_challenge \<Rightarrow> bool" where
  "challenge_after c c' \<longleftrightarrow> lc_id c' = lc_id c \<and> (lc_usedAt c \<noteq> None \<longrightarrow> lc_usedAt c' \<noteq> None)"

definition code_after :: "recovery_row \<Rightarrow> recovery_row \<Rightarrow> bool" where
  "code_after r r' \<longleftrightarrow> rc_id r' = rc_id r \<and> (rc_usedAt r \<noteq> None \<longrightarrow> rc_usedAt r' \<noteq> None)"

definition credential_after :: "totp_credential \<Rightarrow> totp_credential \<Rightarrow> bool" where
  "credential_after c c' \<longleftrightarrow> tc_id c' = tc_id c \<and>
     (tc_enabledAt c \<noteq> None \<longrightarrow> tc_enabledAt c' \<noteq> None \<and>
        (\<forall>l. tc_lastUsedTimeStep c = Some l \<longrightarrow> (\<exists>l'. tc_lastUsedTimeStep c' = Some l' \<and> l \<le> l')))"

lemma after_refl [simp]: "challenge_after c c" "code_after r r" "credential_after t t"
  by (simp_all add: challenge_after_def code_after_def credential_after_def)

lemma factors_forwardI:
  assumes ok: "factors_ok a" and mono: "supply_of a \<le> supply_of a'"
    and challenges: "\<And>c'. c' \<in> set (t_challenges a') \<Longrightarrow>
      (\<exists>c \<in> set (t_challenges a). challenge_after c c') \<or> new_id a a' (lc_id c')"
    and codes: "\<And>r'. r' \<in> set (t_recoveryCodes a') \<Longrightarrow>
      (\<exists>r \<in> set (t_recoveryCodes a). code_after r r') \<or> new_id a a' (rc_id r')"
    and credentials: "\<And>c'. c' \<in> set (t_credentials a') \<Longrightarrow>
      (\<exists>c \<in> set (t_credentials a). credential_after c c') \<or> new_id a a' (tc_id c')"
    and users: "distinct (map tc_userId (t_credentials a'))" "distinct (map tc_id (t_credentials a'))"
      "distinct (map lc_id (t_challenges a'))"
  shows "factors_forward a a'"
proof -
  note kept = issued_mono [OF _ mono]
  have "challenge_spent k a'" if "challenge_spent k a" for k
    using that challenges new_id_issued(2) kept unfolding challenge_spent_def challenge_after_def by metis
  moreover have "code_spent k a'" if "code_spent k a" for k
    using that codes new_id_issued(2) kept unfolding code_spent_def code_after_def by metis
  moreover have on: "factor_on k a'" if "factor_on k a" for k
    using that credentials new_id_issued(2) kept unfolding factor_on_def credential_after_def by metis
  moreover have "step_spent k s a'" if spent: "step_spent k s a" for k s
  proof -
    have "\<exists>l. tc_lastUsedTimeStep c' = Some l \<and> s \<le> l" if c': "c' \<in> set (t_credentials a')" "tc_id c' = k" for c'
    proof -
      have "\<not> new_id a a' (tc_id c')" using spent c'(2) new_id_issued(2) by (auto simp: step_spent_def factor_on_def)
      then obtain c where c: "c \<in> set (t_credentials a)" "credential_after c c'" using credentials [OF c'(1)] by blast
      then obtain l where "tc_lastUsedTimeStep c = Some l" "s \<le> l" "tc_enabledAt c \<noteq> None"
        using spent c'(2) by (auto simp: step_spent_def factor_on_def credential_after_def)
      then show ?thesis using c(2) by (auto simp: credential_after_def intro: order_trans)
    qed
    then show ?thesis using on spent by (simp add: step_spent_def)
  qed
  moreover have "factors_ok a'"
  proof -
    have "issued (lc_id c') a'" if "c' \<in> set (t_challenges a')" for c'
      using challenges [OF that] ok kept new_id_issued(1) unfolding factors_ok_def challenge_after_def by metis
    moreover have "issued (rc_id r') a'" if "r' \<in> set (t_recoveryCodes a')" for r'
      using codes [OF that] ok kept new_id_issued(1) unfolding factors_ok_def code_after_def by metis
    moreover have "issued (tc_id c') a'" if "c' \<in> set (t_credentials a')" for c'
      using credentials [OF that] ok kept new_id_issued(1) unfolding factors_ok_def credential_after_def by metis
    ultimately show ?thesis using users by (simp add: factors_ok_def)
  qed
  ultimately show ?thesis using mono by (simp add: factors_forward_def)
qed

lemma update_after:
  assumes "x \<in> set (update_many P f rs)" and "\<And>r. r \<in> set rs \<Longrightarrow> P r \<Longrightarrow> R r (f r)" and "\<And>r. R r r"
  shows "\<exists>r \<in> set rs. R r x"
proof -
  obtain r where "r \<in> set rs" "x = (if P r then f r else r)" using assms(1) unfolding mem_update_many by blast
  then show ?thesis using assms(2) [of r] assms(3) [of r] by (intro bexI [of _ r]) auto
qed

lemma map_update_many_at:
  "(\<And>r. r \<in> set rs \<Longrightarrow> P r \<Longrightarrow> key (f r) = key r) \<Longrightarrow> map key (update_many P f rs) = map key rs"
  by (induction rs) auto

lemma forward_challenges:
  assumes "factors_ok a" and "\<And>c. P c \<Longrightarrow> challenge_after c (f c)"
  shows "factors_forward a (a\<lparr>t_challenges := update_many P f (t_challenges a)\<rparr>)"
proof -
  have "map lc_id (update_many P f (t_challenges a)) = map lc_id (t_challenges a)"
    by (rule map_update_many_at) (use assms(2) in \<open>simp add: challenge_after_def\<close>)
  then show ?thesis
    by (intro factors_forwardI [OF assms(1)])
      (use assms update_after [where R = challenge_after and P = P and f = f] in
        \<open>auto simp: factors_ok_def intro: after_refl\<close>)
qed

lemma forward_codes:
  assumes "factors_ok a" and "\<And>c. P c \<Longrightarrow> code_after c (f c)"
  shows "factors_forward a (a\<lparr>t_recoveryCodes := update_many P f (t_recoveryCodes a)\<rparr>)"
  by (rule factors_forwardI [OF assms(1)])
    (use assms update_after [where R = code_after and P = P and f = f] in
      \<open>auto simp: factors_ok_def intro: after_refl\<close>)

lemma forward_codes_filter:
  "factors_ok a \<Longrightarrow> factors_forward a (a\<lparr>t_recoveryCodes := filter P (t_recoveryCodes a)\<rparr>)"
  by (rule factors_forwardI) (auto simp: factors_ok_def intro: after_refl)

lemma forward_credentials:
  assumes "factors_ok a" and "\<And>c. c \<in> set (t_credentials a) \<Longrightarrow> P c \<Longrightarrow> credential_after c (f c)"
    and "\<And>c. tc_userId (f c) = tc_userId c" and "\<And>c. tc_id (f c) = tc_id c"
  shows "factors_forward a (a\<lparr>t_credentials := update_many P f (t_credentials a)\<rparr>)"
  by (rule factors_forwardI [OF assms(1)])
    (use assms update_after [where R = credential_after and P = P and f = f and rs = "t_credentials a"] in
      \<open>auto simp: factors_ok_def map_update_many_inv intro: after_refl\<close>)

lemma forward_credentials_filter:
  "factors_ok a \<Longrightarrow> factors_forward a (a\<lparr>t_credentials := filter P (t_credentials a)\<rparr>)"
  by (rule factors_forwardI) (auto simp: factors_ok_def distinct_map_filter intro: after_refl)

lemma forward_challenge_new:
  assumes "factors_ok a" and "lc_id c = auth_uuid a"
  shows "factors_forward a (used_uuid (a\<lparr>t_challenges := t_challenges a @ [c]\<rparr>))"
proof -
  have "auth_uuid a \<notin> lc_id ` set (t_challenges a)"
    using assms(1) issued_fresh unfolding factors_ok_def by (metis imageE)
  then show ?thesis
    by (intro factors_forwardI [OF assms(1)])
      (use assms in \<open>auto simp: factors_ok_def used_uuid_def new_id_def auth_uuid_supply supply_of_def intro: after_refl\<close>)
qed

lemma forward_code_new:
  assumes "factors_ok a" and "rc_id r = auth_uuid a"
  shows "factors_forward a (used_uuid (a\<lparr>t_recoveryCodes := t_recoveryCodes a @ [r]\<rparr>))"
  by (rule factors_forwardI [OF assms(1)])
    (use assms in \<open>auto simp: factors_ok_def used_uuid_def new_id_def auth_uuid_supply supply_of_def intro: after_refl\<close>)

lemma forward_credential_new:
  assumes "factors_ok a" and "tc_id c = auth_uuid a" and "credential_of (tc_userId c) a = None"
  shows "factors_forward a (used_uuid (a\<lparr>t_credentials := t_credentials a @ [c]\<rparr>))"
proof -
  have "auth_uuid a \<notin> tc_id ` set (t_credentials a)"
    using assms(1) issued_fresh unfolding factors_ok_def by (metis imageE)
  moreover have "tc_userId c \<notin> tc_userId ` set (t_credentials a)"
    using assms(3) by (auto simp: credential_of_def find_None_iff_all)
  ultimately have "distinct (map tc_id (t_credentials a @ [c]))" "distinct (map tc_userId (t_credentials a @ [c]))"
    using assms(1,2) by (simp_all add: factors_ok_def)
  then show ?thesis
    by (intro factors_forwardI [OF assms(1)])
      (use assms(1,2) in \<open>auto simp: factors_ok_def used_uuid_def new_id_def auth_uuid_supply supply_of_def intro: after_refl\<close>)
qed

lemma factors_forward_ok: "factors_forward a a' \<Longrightarrow> factors_ok a'"
  by (simp add: factors_forward_def)

lemma factors_forward_same_after: "factors_forward a b \<Longrightarrow> factors_same b c \<Longrightarrow> factors_forward a c"
  using factors_forward_same factors_forward_ok factors_forward_trans by blast

lemma factors_forward_same_before: "factors_same a b \<Longrightarrow> factors_ok a \<Longrightarrow> (factors_ok b \<Longrightarrow> factors_forward b c) \<Longrightarrow> factors_forward a c"
  using factors_forward_same factors_forward_ok factors_forward_trans by blast

lemma consume_factor_forward:
  assumes "factors_ok a"
  shows "factors_forward a (fst (consume_factor k step recovery now a))"
proof -
  have step: "factors_forward a (fst (consume_step k s a))" for s
    unfolding consume_step_def Let_def fst_conv
    by (rule forward_credentials [OF assms]) (auto simp: credential_after_def split: option.splits)
  have code: "factors_forward a (fst (consume_code r now a))" for r
    unfolding consume_code_def Let_def fst_conv by (rule forward_codes [OF assms]) (simp add: code_after_def)
  show ?thesis
    using step code factors_forward_same [OF factors_same_refl assms]
    by (auto simp: consume_factor_def split: option.splits prod.splits) (metis fst_conv)+
qed

lemma consume_challenge_forward:
  assumes "factors_ok a"
  shows "factors_forward a (fst (consume_challenge k now a))"
  unfolding consume_challenge_def Let_def fst_conv
  by (rule forward_challenges [OF assms]) (simp add: challenge_after_def)

lemma two_factor_tx_cases:
  assumes "two_factor_tx env fr remember ctx now token a = Inr (a', r)"
  obtains a1 a2 where "consume_factor (tc_id (fr_credential fr)) (fr_timeStep fr) (fr_recovery fr) now a = (a1, True)"
    and "consume_challenge (lc_id (fr_challenge fr)) now a1 = (a2, 1)"
    and "createSession env (fr_account fr) True ctx now True
           (Some (if fr_recovery fr \<noteq> None then ''RECOVERY_CODE'' else ''TOTP'')) remember token a2 = Inr (a', r)"
  using assms by (auto simp: two_factor_tx_def split: prod.splits if_splits)

lemma two_factor_forward:
  assumes "two_factor_tx env fr remember ctx now token a = Inr (a', r)" and "factors_ok a"
  shows "factors_forward a a'"
  using assms(1)
proof (rule two_factor_tx_cases)
  fix a1 a2
  assume "consume_factor (tc_id (fr_credential fr)) (fr_timeStep fr) (fr_recovery fr) now a = (a1, True)"
    and "consume_challenge (lc_id (fr_challenge fr)) now a1 = (a2, 1)"
    and new: "createSession env (fr_account fr) True ctx now True
           (Some (if fr_recovery fr \<noteq> None then ''RECOVERY_CODE'' else ''TOTP'')) remember token a2 = Inr (a', r)"
  then have "factors_forward a a1" "factors_ok a1 \<Longrightarrow> factors_forward a1 a2"
    using consume_factor_forward [OF assms(2)] consume_challenge_forward [of a1] by (metis fst_conv)+
  then show ?thesis
    using factors_forward_same_after factors_same_session(1) [OF new] factors_forward_ok factors_forward_trans by blast
qed

lemma create_codes_forward:
  "create_codes env k codes a = Inr (a', u) \<Longrightarrow> factors_ok a \<Longrightarrow> factors_forward a a'"
proof (induction codes arbitrary: a)
  case Nil
  then show ?case using factors_forward_same [of a a] by simp
next
  case (Cons c cs)
  let ?a = "used_uuid (a\<lparr>t_recoveryCodes := t_recoveryCodes a @ [\<lparr>rc_id = auth_uuid a, rc_credentialId = k,
    rc_codeHash = hashRecoveryCode (recovery_digest env) c, rc_usedAt = None\<rparr>]\<rparr>)"
  have "factors_forward a ?a" by (rule forward_code_new [OF Cons(3)]) simp
  moreover have "create_codes env k cs ?a = Inr (a', u)" using Cons(2) by (auto simp: Let_def split: if_splits)
  ultimately show ?case using Cons(1) factors_forward_ok factors_forward_trans by blast
qed

lemma enable_forward:
  assumes "enable_tx env auth c step codes now a = Inr (a', u)" and "factors_ok a"
  shows "factors_forward a a'"
proof -
  let ?P = "\<lambda>x. tc_id x = tc_id c \<and> tc_enabledAt x = None"
  let ?f = "\<lambda>x. x\<lparr>tc_enabledAt := Some now, tc_lastUsedTimeStep := Some step\<rparr>"
  obtain a2 a3 where codes: "create_codes env (tc_id c) codes (a\<lparr>t_credentials := update_many ?P ?f (t_credentials a)\<rparr>) = Inr (a2, ())"
    and verified: "verify_session (ra_sessionId auth) now (revoke_sessions (\<lambda>s. as_userId s = identity_user (ra_identity auth) \<and>
        as_id s \<noteq> ra_sessionId auth) now ''MFA_ENABLED'' a2) = Inr (a3, ())"
    and a': "a' = audit_log (Some (identity_user (ra_identity auth))) ''AUTH_TWO_FACTOR_ENABLED'' ''USER''
        (Some (identity_user (ra_identity auth))) [] a3"
    using assms(1) by (auto simp: enable_tx_def Let_def result_simps split: if_splits)
  have "factors_forward a (a\<lparr>t_credentials := update_many ?P ?f (t_credentials a)\<rparr>)"
    by (rule forward_credentials [OF assms(2)]) (auto simp: credential_after_def)
  then have "factors_forward a a2"
    using create_codes_forward [OF codes] factors_forward_ok factors_forward_trans by blast
  moreover have "factors_same a2 a'"
    unfolding a' by (rule factors_same_trans [OF factors_same_sessions(1)
          factors_same_trans [OF factors_same_calls(4) [OF verified] factors_same_writes(2)]])
  ultimately show ?thesis by (rule factors_forward_same_after)
qed

lemma challenge_login_forward:
  assumes "challenge_login_tx env u ctx now token a = Inr (a', r)" and "factors_ok a"
  shows "factors_forward a a'"
proof -
  let ?a1 = "a\<lparr>t_challenges := update_many (\<lambda>c. lc_userId c = ac_id u \<and> lc_usedAt c = None)
    (\<lambda>c. c\<lparr>lc_usedAt := Some now\<rparr>) (t_challenges a)\<rparr>"
  let ?c = "challenge_row env u ctx now token (auth_uuid a)"
  have "factors_forward a ?a1" by (rule forward_challenges [OF assms(2)]) (simp add: challenge_after_def)
  moreover have "auth_uuid a = auth_uuid ?a1" by (simp add: auth_uuid_supply)
  then have "factors_forward ?a1 (used_uuid (?a1\<lparr>t_challenges := t_challenges ?a1 @ [?c]\<rparr>))"
    using factors_forward_ok [OF calculation] by (intro forward_challenge_new) (simp_all add: challenge_row_def)
  moreover have "a' = audit_log (Some (ac_id u)) ''AUTH_TWO_FACTOR_CHALLENGE_CREATED'' ''USER'' (Some (ac_id u)) []
      (used_uuid (?a1\<lparr>t_challenges := t_challenges ?a1 @ [?c]\<rparr>))"
    using assms(1) by (auto simp: challenge_login_tx_def Let_def split: if_splits)
  ultimately show ?thesis
    using factors_forward_same_after [OF factors_forward_trans factors_same_writes(2)] by (simp only:)
qed

lemma setup_done_forward: "factors_forward a b \<Longrightarrow> factors_forward a (setup_done k c b)"
  unfolding setup_done_def
  by (rule factors_forward_same_after [OF _ factors_same_writes(2)])
    (rule factors_forward_trans, assumption, rule forward_codes_filter, rule factors_forward_ok)

lemma setup_forward:
  assumes "setup_tx env k secret a = Inr (a', u)" and ok: "factors_ok a"
  shows "factors_forward a a'"
proof (cases "credential_of k a")
  case None
  let ?c = "\<lparr>tc_id = auth_uuid a, tc_userId = k, tc_secretCiphertext = encryptSecret env secret,
    tc_keyVersion = mfa_version, tc_enabledAt = None, tc_lastUsedTimeStep = None\<rparr>"
  have "a' = setup_done k (auth_uuid a) (used_uuid (a\<lparr>t_credentials := t_credentials a @ [?c]\<rparr>))"
    using assms(1) None by (auto simp: setup_tx_def Let_def split: if_splits)
  moreover have "factors_forward a (used_uuid (a\<lparr>t_credentials := t_credentials a @ [?c]\<rparr>))"
    using None by (intro forward_credential_new [OF ok]) simp_all
  ultimately show ?thesis using setup_done_forward by blast
next
  case (Some c)
  have off: "tc_enabledAt c = None" using assms(1) Some by (auto simp: setup_tx_def split: if_splits)
  let ?f = "\<lambda>x. x\<lparr>tc_secretCiphertext := encryptSecret env secret, tc_keyVersion := mfa_version, tc_lastUsedTimeStep := None\<rparr>"
  have row: "c \<in> set (t_credentials a)" "tc_userId c = k" using find_Some_D Some by (fastforce simp: credential_of_def)+
  have "x = c" if "x \<in> set (t_credentials a)" "tc_userId x = k" for x
    using distinct_key_inj [of tc_userId "t_credentials a" x c] that row ok by (simp add: factors_ok_def)
  then have "factors_forward a (a\<lparr>t_credentials := update_many (\<lambda>x. tc_userId x = k) ?f (t_credentials a)\<rparr>)"
    using off by (intro forward_credentials [OF ok]) (auto simp: credential_after_def)
  moreover have "a' = setup_done k (tc_id c) (a\<lparr>t_credentials := update_many (\<lambda>x. tc_userId x = k) ?f (t_credentials a)\<rparr>)"
    using assms(1) Some off by (simp add: setup_tx_def)
  ultimately show ?thesis using setup_done_forward by blast
qed


lemma login_forward:
  assumes "login_tx env plan remember ctx now token random a = Inr (a', r)" and "factors_ok a"
  shows "factors_forward a a'"
proof (cases plan)
  case (Customer_Login u)
  then show ?thesis using assms factors_forward_same by (auto simp: login_tx_def dest: factors_same_txs(1))
next
  case (Challenge_Login u)
  then show ?thesis using assms challenge_login_forward by (auto simp: login_tx_def result_simps)
next
  case (Direct_Login u i)
  then show ?thesis
    using assms factors_forward_same by (auto simp: login_tx_def result_simps dest: factors_same_session(2))
qed

lemma disable_forward:
  assumes "disable_tx k c now a = Inr (a', u)" and "factors_ok a"
  shows "factors_forward a a'"
proof -
  let ?a1 = "a\<lparr>t_credentials := filter (\<lambda>x. tc_id x \<noteq> c) (t_credentials a)\<rparr>"
  let ?a2 = "?a1\<lparr>t_recoveryCodes := filter (\<lambda>r. rc_credentialId r \<noteq> c) (t_recoveryCodes ?a1)\<rparr>"
  have "factors_forward a ?a1" by (rule forward_credentials_filter [OF assms(2)])
  then have "factors_forward a ?a2"
    using forward_codes_filter factors_forward_ok factors_forward_trans by blast
  moreover have "a' = audit_log (Some k) ''AUTH_TWO_FACTOR_DISABLED'' ''USER'' (Some k) []
      (revoke_sessions (\<lambda>s. as_userId s = k) now ''MFA_DISABLED'' ?a2)"
    using assms(1) by (auto simp: disable_tx_def split: if_splits)
  ultimately show ?thesis
    using factors_forward_same_after factors_same_trans [OF factors_same_sessions(1) factors_same_writes(2)] by (simp only:)
qed

lemma regenerate_forward:
  assumes "regenerate_tx env k c codes a = Inr (a', u)" and "factors_ok a"
  shows "factors_forward a a'"
proof -
  let ?a1 = "a\<lparr>t_recoveryCodes := filter (\<lambda>r. rc_credentialId r \<noteq> c) (t_recoveryCodes a)\<rparr>"
  obtain a2 where "create_codes env c codes ?a1 = Inr (a2, ())"
    and a': "a' = audit_log (Some k) ''AUTH_TWO_FACTOR_RECOVERY_CODES_REGENERATED'' ''USER'' (Some k) [] a2"
    using assms(1) by (auto simp: regenerate_tx_def result_simps)
  moreover have "factors_forward a ?a1" by (rule forward_codes_filter [OF assms(2)])
  ultimately have "factors_forward a a2"
    using create_codes_forward factors_forward_ok factors_forward_trans by blast
  then show ?thesis unfolding a' by (rule factors_forward_same_after) simp
qed

lemma two_factor_failed_forward: "factors_ok a \<Longrightarrow> factors_forward a (two_factor_failed ch a)"
  unfolding two_factor_failed_def
  by (rule factors_forward_same_after [OF forward_challenges factors_same_writes(2)]) (simp_all add: challenge_after_def)

lemma auth_step_forward:
  assumes "auth_step env a a'" and "factors_ok a"
  shows "factors_forward a a'"
  using assms(1)
proof (cases rule: auth_step.cases)
  case (others_committed d)
  then show ?thesis
    using factors_forward_same [OF _ assms(2)] by (simp add: factors_same_def)
qed (use assms(2) factors_forward_same [OF _ assms(2)] in
  \<open>auto dest: login_forward two_factor_forward enable_forward setup_forward disable_forward regenerate_forward factors_same_txs
     intro: two_factor_failed_forward consume_factor_forward\<close>)

lemma auth_steps_forward: "auth_steps env a a' \<Longrightarrow> factors_ok a \<Longrightarrow> factors_forward a a'"
proof (induction rule: rtranclp_induct)
  case base
  then show ?case using factors_forward_same [of a a] by simp
next
  case (step b c)
  then show ?case using auth_step_forward factors_forward_ok factors_forward_trans by blast
qed

lemma two_factor_read_enabled:
  assumes "two_factor_read env ct code ctx now a = Inr fr" and "factors_ok a"
  shows "factor_on (tc_id (fr_credential fr)) a" and "issued (lc_id (fr_challenge fr)) a"
    and "\<And>r. fr_recovery fr = Some r \<Longrightarrow> issued (rc_id r) a"
proof -
  obtain ch u c where "find_challenge (hashOpaqueToken env ct) a = Some ch" "credential_of (lc_userId ch) a = Some c"
    and on: "tc_enabledAt c \<noteq> None" and fr: "fr_challenge fr = ch" "fr_credential fr = c"
      "fr_recovery fr = matching_code env code (unused_codes (tc_id c) a)"
    using assms(1) by (auto simp: two_factor_read_def result_simps split: if_splits)
  then have rows: "ch \<in> set (t_challenges a)" "c \<in> set (t_credentials a)"
    by (auto simp: find_challenge_def credential_of_def dest: find_Some_D)
  then show "issued (lc_id (fr_challenge fr)) a" using assms(2) fr by (simp add: factors_ok_def)
  show "issued (rc_id r) a" if "fr_recovery fr = Some r" for r
    using that fr assms(2) by (auto simp: factors_ok_def matching_code_def unused_codes_def dest!: find_Some_D)
  show "factor_on (tc_id (fr_credential fr)) a"
    using rows(2) on fr assms(2) distinct_key_inj [of tc_id "t_credentials a" _ c] by (auto simp: factor_on_def factors_ok_def)
qed


section \<open>Second factors are used once\<close>

lemma count_one: "count_where P rs = 1 \<Longrightarrow> \<exists>r \<in> set rs. P r"
  using count_where_eq_0 [of P rs] by auto

lemma consumed_challenge:
  assumes "consume_challenge k now a = (a', n)" and "n = 1" and "factors_ok a"
  shows "challenge_spent k a'" and "\<not> challenge_spent k a"
proof -
  let ?P = "\<lambda>c. lc_id c = k \<and> lc_usedAt c = None \<and> now < lc_expiresAt c"
  have a': "a' = a\<lparr>t_challenges := update_many ?P (\<lambda>c. c\<lparr>lc_usedAt := Some now\<rparr>) (t_challenges a)\<rparr>"
    and "count_where ?P (t_challenges a) = 1"
    using assms(1,2) by (auto simp: consume_challenge_def Let_def)
  then obtain c where c: "c \<in> set (t_challenges a)" "?P c" using count_one by blast
  then show "\<not> challenge_spent k a" by (auto simp: challenge_spent_def)
  have "lc_usedAt x \<noteq> None" if x: "x \<in> set (t_challenges a')" "lc_id x = k" for x
  proof -
    obtain y where y: "y \<in> set (t_challenges a)" "x = (if ?P y then y\<lparr>lc_usedAt := Some now\<rparr> else y)"
      using x(1) by (auto simp: a' mem_update_many)
    then have "y = c"
      using distinct_key_inj [of lc_id "t_challenges a" y c] c x(2) assms(3) by (auto simp: factors_ok_def split: if_splits)
    then show ?thesis using y(2) c(2) by simp
  qed
  moreover have "issued k a'" using c assms(3) by (auto simp: a' factors_ok_def issued_def)
  ultimately show "challenge_spent k a'" by (simp add: challenge_spent_def)
qed

lemma consumed_step:
  assumes "consume_factor k (Some s) recovery now a = (a', True)" and "factor_on k a"
  shows "step_spent k s a'" and "step_spent k l a \<Longrightarrow> l < s"
proof -
  let ?P = "\<lambda>c. tc_id c = k \<and> (case tc_lastUsedTimeStep c of None \<Rightarrow> True | Some l \<Rightarrow> l < s)"
  have a': "a' = a\<lparr>t_credentials := update_many ?P (\<lambda>c. c\<lparr>tc_lastUsedTimeStep := Some s\<rparr>) (t_credentials a)\<rparr>"
    and "count_where ?P (t_credentials a) = 1"
    using assms(1) by (auto simp: consume_factor_def consume_step_def Let_def)
  then obtain c where "c \<in> set (t_credentials a)" "?P c" using count_one by blast
  then show "step_spent k l a \<Longrightarrow> l < s" by (fastforce simp: step_spent_def split: option.splits)
  have "tc_enabledAt x \<noteq> None \<and> (\<exists>l. tc_lastUsedTimeStep x = Some l \<and> s \<le> l)"
    if x: "x \<in> set (t_credentials a')" "tc_id x = k" for x
  proof -
    obtain y where "y \<in> set (t_credentials a)" "x = (if ?P y then y\<lparr>tc_lastUsedTimeStep := Some s\<rparr> else y)"
      using x(1) by (auto simp: a' mem_update_many)
    then show ?thesis using x(2) assms(2) by (auto simp: factor_on_def not_less split: if_splits option.splits)
  qed
  moreover have "issued k a'" using assms(2) by (simp add: a' factor_on_def issued_def)
  ultimately show "step_spent k s a'" by (simp add: step_spent_def factor_on_def)
qed

lemma consumed_code:
  assumes "consume_factor k None (Some r) now a = (a', True)" and "issued (rc_id r) a"
  shows "code_spent (rc_id r) a'" and "\<not> code_spent (rc_id r) a"
proof -
  let ?P = "\<lambda>x. rc_id x = rc_id r \<and> rc_usedAt x = None"
  have a': "a' = a\<lparr>t_recoveryCodes := update_many ?P (\<lambda>x. x\<lparr>rc_usedAt := Some now\<rparr>) (t_recoveryCodes a)\<rparr>"
    and "count_where ?P (t_recoveryCodes a) = 1"
    using assms(1) by (auto simp: consume_factor_def consume_code_def Let_def)
  then show "\<not> code_spent (rc_id r) a" using count_one by (fastforce simp: code_spent_def)
  have "rc_usedAt x \<noteq> None" if x: "x \<in> set (t_recoveryCodes a')" "rc_id x = rc_id r" for x
  proof -
    obtain y where "y \<in> set (t_recoveryCodes a)" "x = (if ?P y then y\<lparr>rc_usedAt := Some now\<rparr> else y)"
      using x(1) by (auto simp: a' mem_update_many)
    then show ?thesis using x(2) by (cases "?P y") auto
  qed
  moreover have "issued (rc_id r) a'" using assms(2) by (simp add: a' issued_def)
  ultimately show "code_spent (rc_id r) a'" by (simp add: code_spent_def)
qed

text \<open>
  C3: a second factor opens one session. After an administrator has signed in with a challenge and a code,
  no later request, whatever it had read before and whatever other requests did in between, signs in with
  the same challenge, with the same recovery code, or with a time-based code of the same or an earlier half
  minute of the same authenticator.
\<close>

theorem second_factor_used_once:
  assumes "factors_ok a0" and "two_factor_read env token1 code1 ctx1 now1 a0 = Inr fr1" and "auth_steps env a0 a"
    and "two_factor_tx env fr1 remember1 ctx1 now1 new1 a = Inr (a1, r1)"
    and "auth_steps env a1 a2" and "two_factor_tx env fr2 remember2 ctx2 now2 new2 a2 = Inr (a3, r2)"
  shows "lc_id (fr_challenge fr2) \<noteq> lc_id (fr_challenge fr1) \<and>
    (case (fr_timeStep fr1, fr_timeStep fr2) of
       (Some s1, Some s2) \<Rightarrow> tc_id (fr_credential fr2) = tc_id (fr_credential fr1) \<longrightarrow> s1 < s2
     | (None, None) \<Rightarrow> map_option rc_id (fr_recovery fr2) \<noteq> map_option rc_id (fr_recovery fr1)
     | _ \<Rightarrow> True)"
proof -
  let ?k1 = "tc_id (fr_credential fr1)" and ?h1 = "lc_id (fr_challenge fr1)" and ?k2 = "tc_id (fr_credential fr2)"
  have fwd: "factors_forward a0 a" by (rule auth_steps_forward [OF assms(3,1)])
  have ok: "factors_ok a" and on: "factor_on ?k1 a"
    using fwd two_factor_read_enabled(1) [OF assms(2,1)] by (auto simp: factors_forward_def)
  obtain b1 b2 where c1: "consume_factor ?k1 (fr_timeStep fr1) (fr_recovery fr1) now1 a = (b1, True)"
    and h1: "consume_challenge ?h1 now1 b1 = (b2, 1)" and "factors_same b2 a1"
    using assms(4) by (rule two_factor_tx_cases) (blast dest: factors_same_session(1))
  have b1: "factors_forward a b1" using consume_factor_forward [OF ok] c1 by (metis fst_conv)
  have b2: "factors_forward b1 b2" using consume_challenge_forward [OF factors_forward_ok [OF b1]] h1 by (metis fst_conv)
  have late: "factors_forward b2 a2"
    using factors_forward_same [OF \<open>factors_same b2 a1\<close> factors_forward_ok [OF b2]]
      auth_steps_forward [OF assms(5)] factors_forward_ok factors_forward_trans by blast
  obtain d1 d2 where c2: "consume_factor ?k2 (fr_timeStep fr2) (fr_recovery fr2) now2 a2 = (d1, True)"
    and h2: "consume_challenge (lc_id (fr_challenge fr2)) now2 d1 = (d2, 1)"
    using assms(6) by (rule two_factor_tx_cases) blast
  have d1: "factors_forward a2 d1" using consume_factor_forward [OF factors_forward_ok [OF late]] c2 by (metis fst_conv)
  have "challenge_spent ?h1 d1"
    using consumed_challenge(1) [OF h1 refl factors_forward_ok [OF b1]] late d1 by (simp add: factors_forward_def)
  then have "lc_id (fr_challenge fr2) \<noteq> ?h1"
    using consumed_challenge(2) [OF h2 refl factors_forward_ok [OF d1]] by auto
  moreover have "s1 < s2" if s: "fr_timeStep fr1 = Some s1" "fr_timeStep fr2 = Some s2" "?k2 = ?k1" for s1 s2
  proof -
    have "step_spent ?k1 s1 b1" using consumed_step(1) c1 on s(1) by metis
    then have "step_spent ?k1 s1 a2" using b2 late by (simp add: factors_forward_def)
    then show ?thesis using consumed_step(2) [of ?k1 s2 "fr_recovery fr2" now2 a2 d1 s1] c2 s by (simp add: step_spent_def)
  qed
  moreover have "map_option rc_id (fr_recovery fr2) \<noteq> map_option rc_id (fr_recovery fr1)"
    if none: "fr_timeStep fr1 = None" "fr_timeStep fr2 = None"
  proof -
    obtain q1 where q1: "fr_recovery fr1 = Some q1" using c1 none by (auto simp: consume_factor_def split: option.splits)
    then have "issued (rc_id q1) a"
      using two_factor_read_enabled(3) [OF assms(2,1)] issued_mono fwd by (auto simp: factors_forward_def)
    then have "code_spent (rc_id q1) a2" using consumed_code(1) c1 none q1 b2 late by (simp add: factors_forward_def)
    moreover have "rc_id q2 \<noteq> rc_id q1" if "fr_recovery fr2 = Some q2" for q2
    proof
      assume same: "rc_id q2 = rc_id q1"
      then have "issued (rc_id q2) a2" using calculation by (simp add: code_spent_def)
      with calculation same show False using consumed_code(2) [of ?k2 q2 now2 a2 d1] c2 none that by simp
    qed
    ultimately show ?thesis using q1 by (cases "fr_recovery fr2") auto
  qed
  ultimately show ?thesis by (auto split: option.splits)
qed

section \<open>Two sign-ins\<close>

definition sample_auth_env :: auth_env where
  "sample_auth_env =
     \<lparr>hashOpaqueToken = (\<lambda>t. t), password_verify = (\<lambda>h p. h = p), password_hash = (\<lambda>p. p), encryptSecret = (\<lambda>s. s),
      decryptSecret = (\<lambda>s. s), encryptToken = (\<lambda>t. t), decryptToken = (\<lambda>t. t), totp_mac = (\<lambda>k d. replicate 20 0),
      recovery_digest = (\<lambda>c. c), json_pair = (\<lambda>e h. e), identity_schema = (\<lambda>i. True), sessionTtl = 86400000,
      passwordResetTtl = 1800000, emailVerificationTtl = 86400000\<rparr>"

definition sample_admin :: account where
  "sample_admin =
     \<lparr>ac_id = ''u1'', ac_email = ''a@x'', ac_passwordHash = Some ''old'', ac_role = ADMIN, ac_status = User_ACTIVE,
      ac_emailVerifiedAt = Some 0, ac_lastLoginAt = None, ac_deletedAt = None, ac_customerId = None,
      ac_adminProfile = Some \<lparr>ap_id = ''p1'', ap_staffRole = ''OWNER'', ap_displayName = None\<rparr>\<rparr>"

definition sample_challenge :: "uuid \<Rightarrow> login_challenge" where
  "sample_challenge k =
     \<lparr>lc_id = k, lc_userId = ''u1'', lc_tokenHash = k, lc_expiresAt = 9000000, lc_usedAt = None, lc_failedAttempts = 0,
      lc_ipAddressHash = ''ip'', lc_userAgent = None\<rparr>"

definition sample_credential :: totp_credential where
  "sample_credential =
     \<lparr>tc_id = ''c1'', tc_userId = ''u1'', tc_secretCiphertext = ''AAAAAAAA'', tc_keyVersion = mfa_version,
      tc_enabledAt = Some 0, tc_lastUsedTimeStep = None\<rparr>"

definition sample_auth :: auth_db where
  "sample_auth =
     \<lparr>t_accounts = [sample_admin], t_sessions = [],
      t_credentials = [sample_credential],
      t_recoveryCodes = [], t_challenges = [sample_challenge ''h1'', sample_challenge ''h2''], t_emailChallenges = [],
      t_resetTokens = [], t_preferences = [], t_shared = empty_db\<rparr>"

definition sample_context :: security_context where
  "sample_context = \<lparr>sc_ipAddressHash = ''ip'', sc_userAgent = None\<rparr>"

definition sample_factor :: "uuid \<Rightarrow> int \<Rightarrow> factor_read" where
  "sample_factor k s =
     \<lparr>fr_challenge = sample_challenge k, fr_account = sample_admin, fr_credential = sample_credential,
      fr_timeStep = Some s, fr_recovery = None\<rparr>"

definition sample_first :: "auth_error + auth_db \<times> login_result" where
  "sample_first = two_factor_tx sample_auth_env (sample_factor ''h1'' 100) False sample_context 3000000 ''n1'' sample_auth"

definition sample_second :: "auth_error + auth_db \<times> login_result" where
  "sample_second = two_factor_tx sample_auth_env (sample_factor ''h2'' 200) False sample_context 6000000 ''n2''
     (fst (projr sample_first))"

lemma issued_text: "\<not> list_all is_digit k \<Longrightarrow> issued k a"
  using show_nat_digits by (auto simp: issued_def)

lemma sample_factors_ok: "factors_ok sample_auth"
  unfolding factors_ok_def
  by (auto simp: sample_auth_def sample_challenge_def sample_credential_def is_digit_def intro!: issued_text)

lemma zero_code:
  assumes "0 \<le> s" and "s < 2 ^ 64"
  shows "hotp (\<lambda>k d. replicate 20 0) ''AAAAAAAA'' s = Inr ''000000''"
proof -
  have "decodeBase32 ''AAAAAAAA'' \<noteq> None" by code_simp
  moreover have "truncated (replicate 20 0) = 0" by (simp add: truncated_def byte_at_def)
  moreover have "pad_start 6 CHR ''0'' (show_nat 0) = ''000000''" unfolding show_nat_0 by code_simp
  ultimately show ?thesis using assms by (auto simp: hotp_def)
qed

lemma sample_factor_read:
  "two_factor_read sample_auth_env ''h1'' ''000000'' sample_context 3000000 sample_auth = Inr (sample_factor ''h1'' 100)"
proof -
  have "six_digits ''000000''" by code_simp
  then have "totp_verify (\<lambda>k d. replicate 20 0) ''AAAAAAAA'' ''000000'' 3000000 = Inr (Some 100)"
    using zero_code [of 100] by (simp add: totp_verify_def time_step_def PERIOD_SECONDS_def)
  then have "totp_check sample_auth_env sample_credential ''000000'' 3000000 = Inr (Some 100)"
    by (simp add: totp_check_def sample_auth_env_def sample_credential_def)
  moreover have "find_challenge ''h1'' sample_auth = Some (sample_challenge ''h1'')"
    "find_account ''u1'' sample_auth = Some sample_admin" "credential_of ''u1'' sample_auth = Some sample_credential"
    "unused_codes ''c1'' sample_auth = []"
    by (simp_all add: sample_auth_def sample_challenge_def sample_admin_def sample_credential_def find_challenge_def
        find_account_def credential_of_def unused_codes_def)
  moreover have "hashOpaqueToken sample_auth_env ''h1'' = ''h1''" by (simp add: sample_auth_env_def)
  moreover have "tc_id sample_credential = ''c1''" "tc_enabledAt sample_credential = Some 0"
    by (simp_all add: sample_credential_def)
  moreover have "matching_code sample_auth_env ''000000'' [] = None" by (simp add: matching_code_def)
  ultimately show ?thesis
    by (simp add: two_factor_read_def sample_factor_def sample_challenge_def sample_admin_def sample_context_def of_option_def)
qed

lemma right_eq: "(case x of Inl _ \<Rightarrow> False | Inr _ \<Rightarrow> True) \<Longrightarrow> x = Inr (fst (projr x), snd (projr x))"
  by (cases x) auto

lemma sample_runs:
  "two_factor_tx sample_auth_env (sample_factor ''h1'' 100) False sample_context 3000000 ''n1'' sample_auth =
     Inr (fst (projr sample_first), snd (projr sample_first))"
  "two_factor_tx sample_auth_env (sample_factor ''h2'' 200) False sample_context 6000000 ''n2'' (fst (projr sample_first)) =
     Inr (fst (projr sample_second), snd (projr sample_second))"
proof -
  have "case sample_first of Inl _ \<Rightarrow> False | Inr _ \<Rightarrow> True" by code_simp
  from right_eq [OF this] show "two_factor_tx sample_auth_env (sample_factor ''h1'' 100) False sample_context 3000000 ''n1'' sample_auth =
     Inr (fst (projr sample_first), snd (projr sample_first))"
    unfolding sample_first_def [symmetric] .
  have "case sample_second of Inl _ \<Rightarrow> False | Inr _ \<Rightarrow> True" by code_simp
  from right_eq [OF this] show "two_factor_tx sample_auth_env (sample_factor ''h2'' 200) False sample_context 6000000 ''n2'' (fst (projr sample_first)) =
     Inr (fst (projr sample_second), snd (projr sample_second))"
    unfolding sample_second_def [symmetric] .
qed

theorem second_factor_used_once_witness:
  "fr_timeStep (sample_factor ''h1'' 100) = Some 100 \<and> fr_timeStep (sample_factor ''h2'' 200) = Some 200 \<and>
   lc_id (fr_challenge (sample_factor ''h2'' 200)) \<noteq> lc_id (fr_challenge (sample_factor ''h1'' 100))"
proof -
  have "lc_id (fr_challenge (sample_factor ''h2'' 200)) \<noteq> lc_id (fr_challenge (sample_factor ''h1'' 100))"
    using second_factor_used_once [where env = sample_auth_env, OF sample_factors_ok sample_factor_read
        rtranclp.rtrancl_refl sample_runs(1) rtranclp.rtrancl_refl sample_runs(2)]
    by blast
  then show ?thesis by (simp add: sample_factor_def)
qed

end
