(* ===== verification/Session_Revocation.thy ===== *)
theory Session_Revocation
  imports Sessions
begin

text \<open>
  How long a session lasts: a session that is revoked stays so, whatever requests follow; what a password
  reset closes, and what it does not; the answers a customer may give to one code.
\<close>

section \<open>What becomes of a session\<close>

definition same_session :: "auth_session \<Rightarrow> auth_session \<Rightarrow> bool" where
  "same_session s s' \<longleftrightarrow> as_id s' = as_id s \<and> as_userId s' = as_userId s \<and> as_tokenHash s' = as_tokenHash s \<and>
     (as_revokedAt s \<noteq> None \<longrightarrow> as_revokedAt s' \<noteq> None)"

definition sessions_ok :: "auth_db \<Rightarrow> bool" where
  "sessions_ok a \<longleftrightarrow> distinct (map as_tokenHash (t_sessions a))"

definition sessions_forward :: "auth_db \<Rightarrow> auth_db \<Rightarrow> bool" where
  "sessions_forward a a' \<longleftrightarrow> sessions_ok a' \<and>
     (\<forall>s \<in> set (t_sessions a). \<exists>s' \<in> set (t_sessions a'). same_session s s')"

lemma sessions_forward_same: "t_sessions a' = t_sessions a \<Longrightarrow> sessions_ok a \<Longrightarrow> sessions_forward a a'"
  by (auto simp: sessions_forward_def sessions_ok_def same_session_def)

lemma sessions_forward_trans: "sessions_forward a b \<Longrightarrow> sessions_forward b c \<Longrightarrow> sessions_forward a c"
  unfolding sessions_forward_def same_session_def by metis

lemma sessions_forward_ok: "sessions_forward a b \<Longrightarrow> sessions_ok b"
  by (simp add: sessions_forward_def)

lemma sessions_forward_after: "sessions_forward a b \<Longrightarrow> t_sessions c = t_sessions b \<Longrightarrow> sessions_forward a c"
  by (simp add: sessions_forward_def sessions_ok_def)

lemma sessions_forward_before: "t_sessions b = t_sessions a \<Longrightarrow> sessions_forward b c \<Longrightarrow> sessions_forward a c"
  by (simp add: sessions_forward_def)

lemma sessions_forward_update:
  assumes "sessions_ok a" and "\<And>s. same_session s (f s)" and "t_sessions a' = update_many P f (t_sessions a)"
  shows "sessions_forward a a'"
proof -
  have "map as_tokenHash (t_sessions a') = map as_tokenHash (t_sessions a)"
    unfolding assms(3) by (rule map_update_many_inv) (use assms(2) in \<open>simp add: same_session_def\<close>)
  moreover have "\<exists>s' \<in> set (t_sessions a'). same_session s s'" if "s \<in> set (t_sessions a)" for s
    using that assms(2) [of s]
    by (intro bexI [of _ "if P s then f s else s"]) (auto simp: assms(3) mem_update_many same_session_def)
  ultimately show ?thesis using assms(1) by (simp add: sessions_forward_def sessions_ok_def)
qed

lemma sessions_writes [simp]:
  "t_sessions (used_uuid a) = t_sessions a" "t_sessions (audit_log actor act ty e md a) = t_sessions a"
  "t_sessions (update_email_challenge k f a) = t_sessions a" "t_sessions (supersede_email k now a) = t_sessions a"
  "t_sessions (supersede_resets k now a) = t_sessions a" "t_sessions (upsert_preference k g a) = t_sessions a"
  "t_sessions (preference_logged k md a) = t_sessions a" "t_sessions (login_failed e a) = t_sessions a"
  "t_sessions (two_factor_failed ch a) = t_sessions a" "t_sessions (setup_done k c a) = t_sessions a"
  "t_sessions (fst (consume_factor c step recovery now a)) = t_sessions a"
  "t_sessions (fst (consume_challenge c now a)) = t_sessions a"
  by (simp_all add: used_uuid_def audit_log_def update_email_challenge_def supersede_email_def supersede_resets_def
      upsert_preference_def preference_logged_def login_failed_def two_factor_failed_def setup_done_def consume_challenge_def
      consume_factor_def consume_step_def consume_code_def Let_def split: option.splits)

lemma sessions_calls:
  "auth_outbox now k t key v a = Inr (a', u) \<Longrightarrow> t_sessions a' = t_sessions a"
  "update_account k f a = Inr (a', u) \<Longrightarrow> t_sessions a' = t_sessions a"
  "create_email_challenge c a = Inr (a', u) \<Longrightarrow> t_sessions a' = t_sessions a"
  "create_codes env k codes a = Inr (a', u) \<Longrightarrow> t_sessions a' = t_sessions a"
proof -
  show "create_codes env k codes a = Inr (a', u) \<Longrightarrow> t_sessions a' = t_sessions a"
    by (induction codes arbitrary: a) (auto simp: Let_def split: if_splits)
qed (auto elim: auth_outbox_cases update_account_cases simp: create_email_challenge_def split: if_splits)

lemma sessions_forward_revoke:
  "sessions_ok a \<Longrightarrow> t_sessions b = t_sessions (revoke_sessions P now reason a) \<Longrightarrow> sessions_forward a b"
  by (rule sessions_forward_update) (simp_all add: revoke_sessions_def same_session_def)

lemma sessions_forward_touch: "sessions_ok a \<Longrightarrow> sessions_forward a (touch_session k legacy now a)"
  by (rule sessions_forward_update [where f = "touched legacy now"]) (simp_all add: touch_session_def touched_def same_session_def)

lemma sessions_forward_verify: "verify_session k now a = Inr (a', u) \<Longrightarrow> sessions_ok a \<Longrightarrow> sessions_forward a a'"
  by (rule sessions_forward_update [where P = "\<lambda>s. as_id s = k" and f = "\<lambda>s. s\<lparr>as_twoFactorVerifiedAt := Some now\<rparr>"])
    (auto simp: verify_session_def same_session_def split: if_splits)

lemma open_session_cases:
  assumes "open_session env u ctx now v raw md a = Inr (a', k)"
  obtains "t_sessions a' = t_sessions a @ [session_row env u ctx now v raw (auth_uuid a)]" and "k = auth_uuid a"
    and "\<forall>s \<in> set (t_sessions a). as_tokenHash s \<noteq> hashOpaqueToken env raw"
  using assms
  by (auto simp: open_session_def Let_def result_simps session_row_def elim!: create_session_row_cases dest!: sessions_calls(2))

lemma sessions_forward_open:
  assumes "open_session env u ctx now v raw md a = Inr (a', k)" and "sessions_ok a"
  shows "sessions_forward a a'"
  using assms(1)
proof (rule open_session_cases)
  assume "t_sessions a' = t_sessions a @ [session_row env u ctx now v raw (auth_uuid a)]"
    and "\<forall>s \<in> set (t_sessions a). as_tokenHash s \<noteq> hashOpaqueToken env raw"
  then show ?thesis using assms(2)
    by (auto simp: sessions_forward_def sessions_ok_def same_session_def session_row_def)
qed

lemma sessions_forward_created:
  "createSession env u b ctx now v m rem token a = Inr (a', r) \<Longrightarrow> sessions_ok a \<Longrightarrow> sessions_forward a a'"
  "direct_login_tx env u i rem ctx now token a = Inr (a', r) \<Longrightarrow> sessions_ok a \<Longrightarrow> sessions_forward a a'"
  by (auto simp: createSession_def direct_login_tx_def Let_def result_simps dest: sessions_forward_open)

section \<open>Every transaction keeps the sessions\<close>

lemma consumed_sessions:
  "consume_factor c step recovery now a = (a', b) \<Longrightarrow> t_sessions a' = t_sessions a"
  "consume_challenge c now a = (a', n) \<Longrightarrow> t_sessions a' = t_sessions a"
  using sessions_writes(11) [of c step recovery now a] sessions_writes(12) [of c now a] by simp_all

lemma sessions_forward_factor:
  assumes "two_factor_tx env fr remember ctx now token a = Inr (a', r)" and "sessions_ok a"
  shows "sessions_forward a a'"
  using assms(1)
proof (rule two_factor_tx_cases)
  fix a1 a2
  assume "consume_factor (tc_id (fr_credential fr)) (fr_timeStep fr) (fr_recovery fr) now a = (a1, True)"
    and "consume_challenge (lc_id (fr_challenge fr)) now a1 = (a2, 1)"
    and new: "createSession env (fr_account fr) True ctx now True
           (Some (if fr_recovery fr \<noteq> None then ''RECOVERY_CODE'' else ''TOTP'')) remember token a2 = Inr (a', r)"
  then have same: "t_sessions a2 = t_sessions a" using consumed_sessions by metis
  then have "sessions_ok a2" using assms(2) by (simp add: sessions_ok_def)
  then show ?thesis by (rule sessions_forward_before [OF same sessions_forward_created(1) [OF new]])
qed

lemma sessions_forward_customer:
  assumes "customer_login_tx env u ctx now token random a = Inr (a', r)" and "sessions_ok a"
  shows "sessions_forward a a'"
  using assms
  by (auto simp: customer_login_tx_def Let_def result_simps split: option.splits if_splits
      intro: sessions_forward_created sessions_forward_same dest!: sessions_calls)

lemma sessions_forward_login:
  assumes "login_tx env plan remember ctx now token random a = Inr (a', r)" and "sessions_ok a"
  shows "sessions_forward a a'"
proof (cases plan)
  case (Customer_Login u)
  then show ?thesis using assms sessions_forward_customer by (simp add: login_tx_def)
next
  case (Challenge_Login u)
  then show ?thesis
    using assms by (auto simp: login_tx_def challenge_login_tx_def Let_def result_simps split: if_splits intro: sessions_forward_same)
next
  case (Direct_Login u i)
  then show ?thesis using assms by (auto simp: login_tx_def result_simps intro: sessions_forward_created)
qed

lemma sessions_forward_email:
  assumes "email_login_tx env k h code ctx now token a = Inr (a', r)" and "sessions_ok a"
  shows "sessions_forward a a'"
proof -
  have before: "sessions_forward a b" if "createSession env u f ctx now v m rem token (update_email_challenge e g a) = Inr (b, x)"
    for b u f v m rem e g x
    by (rule sessions_forward_before [OF _ sessions_forward_created(1) [OF that]])
      (use assms(2) in \<open>simp_all add: sessions_ok_def\<close>)
  then show ?thesis
    using assms by (auto simp: email_login_tx_def result_simps split: option.splits if_splits intro: sessions_forward_same)
qed

lemma sessions_forward_reset:
  assumes "reset_tx env t pw now a = Inr (a', r)" and "sessions_ok a"
  shows "sessions_forward a a'"
  using assms by (auto simp: reset_tx_def Let_def result_simps split: if_splits
      intro!: sessions_forward_revoke [where P = "\<lambda>s. as_userId s = pr_userId t" and now = now and reason = "''PASSWORD_RESET''"]
      dest!: sessions_calls simp: revoke_sessions_def)

lemma sessions_forward_enable:
  assumes "enable_tx env auth c step codes now a = Inr (a', r)" and "sessions_ok a"
  shows "sessions_forward a a'"
proof -
  let ?P = "\<lambda>s. as_userId s = identity_user (ra_identity auth) \<and> as_id s \<noteq> ra_sessionId auth"
  obtain cs a2 a3 where codes: "create_codes env (tc_id c) codes (a\<lparr>t_credentials := cs\<rparr>) = Inr (a2, ())"
    and verified: "verify_session (ra_sessionId auth) now (revoke_sessions ?P now ''MFA_ENABLED'' a2) = Inr (a3, ())"
    and a': "t_sessions a' = t_sessions a3"
    using assms(1) by (auto simp: enable_tx_def Let_def result_simps split: if_splits)
  have same: "t_sessions a2 = t_sessions a" using sessions_calls(4) [OF codes] by simp
  then have "sessions_ok a2" using assms(2) by (simp add: sessions_ok_def)
  then have "sessions_forward a2 (revoke_sessions ?P now ''MFA_ENABLED'' a2)" by (rule sessions_forward_revoke) simp
  then have "sessions_forward a2 a3" using sessions_forward_verify [OF verified] sessions_forward_ok sessions_forward_trans by blast
  then show ?thesis by (intro sessions_forward_after [OF sessions_forward_before [OF same] a'])
qed

lemma sessions_forward_revokers:
  assumes "sessions_ok a"
  shows "sessions_forward a (logout auth now a)" and "sessions_forward a (logoutAll auth now a)"
    and "sessions_forward a (revoke_automatically s now reason a)"
    and "revokeSession auth k now a = (a', r) \<Longrightarrow> sessions_forward a a'"
    and "disable_tx u c now a = Inr (a', x) \<Longrightarrow> sessions_forward a a'"
proof -
  show "sessions_forward a (logout auth now a)" "sessions_forward a (logoutAll auth now a)"
    "sessions_forward a (revoke_automatically s now reason a)"
    by (simp_all add: logout_def logoutAll_def revoke_automatically_def Let_def sessions_forward_revoke [OF assms])
  show "revokeSession auth k now a = (a', r) \<Longrightarrow> sessions_forward a a'"
    using assms by (auto simp: revokeSession_def sessions_forward_same split: if_splits intro: sessions_forward_revoke [OF assms])
  show "sessions_forward a a'" if "disable_tx u c now a = Inr (a', x)"
    using that
    by (auto simp: disable_tx_def revoke_sessions_def split: if_splits
        intro!: sessions_forward_revoke [OF assms, where P = "\<lambda>s. as_userId s = u" and now = now and reason = "''MFA_DISABLED''"])
qed

lemma sessions_forward_preferences:
  assumes "preferences_tx env k i input now a = Inr (a', r)" and "sessions_ok a"
  shows "sessions_forward a a'"
proof -
  have "sessions_forward a (two_step_changed k i now a)"
    by (rule sessions_forward_revoke [OF assms(2), where P = "\<lambda>s. as_userId s = k \<and> as_id s \<noteq> i"])
      (simp add: two_step_changed_def revoke_sessions_def)
  then show ?thesis
    using assms by (auto simp: preferences_tx_def split: option.splits if_splits preference_update.splits
        intro: sessions_forward_same sessions_forward_after)
qed

lemma auth_step_sessions:
  assumes "auth_step env a a'" and "sessions_ok a"
  shows "sessions_forward a a'"
  using assms(1)
proof (cases rule: auth_step.cases)
  case (setup_started k secret r)
  then show ?thesis using assms(2)
    by (auto simp: setup_tx_def Let_def split: option.splits if_splits intro: sessions_forward_same)
next
  case (codes_regenerated k c codes r)
  then show ?thesis using assms(2)
    by (auto simp: regenerate_tx_def result_simps intro!: sessions_forward_same dest!: sessions_calls(4))
next
  case (reset_requested u now token r)
  then show ?thesis using assms(2)
    by (auto simp: request_reset_tx_def Let_def result_simps split: if_splits intro!: sessions_forward_same dest!: sessions_calls(1))
qed (use assms(2) in
  \<open>auto intro: sessions_forward_login sessions_forward_factor sessions_forward_email sessions_forward_reset
     sessions_forward_enable sessions_forward_revokers sessions_forward_preferences sessions_forward_touch sessions_forward_same\<close>)

lemma auth_steps_sessions: "auth_steps env a a' \<Longrightarrow> sessions_ok a \<Longrightarrow> sessions_forward a a'"
proof (induction rule: rtranclp_induct)
  case base
  then show ?case by (intro sessions_forward_same) simp_all
next
  case (step b c)
  then show ?case using auth_step_sessions sessions_forward_ok sessions_forward_trans by blast
qed

section \<open>What a password reset closes\<close>

lemma find_session_row:
  assumes "sessions_ok a" and "s \<in> set (t_sessions a)" and "as_tokenHash s = h"
  shows "find_session h a = Some s"
  unfolding find_session_def
  using find_key_eq [of as_tokenHash "t_sessions a" s] assms by (simp add: sessions_ok_def)

lemma revoked_refused:
  assumes "find_session (hashOpaqueToken env raw) a = Some s" and "as_revokedAt s \<noteq> None"
  shows "\<exists>e. authenticateSession env raw now a = (a, Inl e)"
  using assms by (auto simp: authenticateSession_def Let_def split: option.splits)

lemma revoked_for_good:
  assumes "sessions_ok a" and "s \<in> set (t_sessions a)" and "as_revokedAt s \<noteq> None"
    and "hashOpaqueToken env raw = as_tokenHash s" and "auth_steps env a a'"
  shows "\<exists>e. authenticateSession env raw now a' = (a', Inl e)"
proof -
  have fwd: "sessions_forward a a'" by (rule auth_steps_sessions [OF assms(5,1)])
  then obtain s' where "s' \<in> set (t_sessions a')" "same_session s s'"
    using assms(2) by (auto simp: sessions_forward_def)
  then have "find_session (hashOpaqueToken env raw) a' = Some s'" "as_revokedAt s' \<noteq> None"
    using assms(3,4) find_session_row [OF sessions_forward_ok [OF fwd]] by (auto simp: same_session_def)
  then show ?thesis by (rule revoked_refused)
qed

lemma reset_sessions:
  assumes "reset_tx env t pw now a = Inr (a', u)"
  shows "t_sessions a' = t_sessions (revoke_sessions (\<lambda>s. as_userId s = pr_userId t) now ''PASSWORD_RESET'' a)"
  using assms by (auto simp: reset_tx_def Let_def result_simps revoke_sessions_def split: if_splits dest!: sessions_calls(2))

lemma revoke_sessions_row:
  assumes "s \<in> set (t_sessions a)" and "P s"
  obtains s' where "s' \<in> set (t_sessions (revoke_sessions P now reason a))" and "as_revokedAt s' \<noteq> None"
    and "as_tokenHash s' = as_tokenHash s"
proof
  let ?s = "if as_revokedAt s = None then s\<lparr>as_revokedAt := Some now, as_revokedReason := Some reason\<rparr> else s"
  show "?s \<in> set (t_sessions (revoke_sessions P now reason a))" "as_revokedAt ?s \<noteq> None" "as_tokenHash ?s = as_tokenHash s"
    using assms by (auto simp: revoke_sessions_def mem_update_many intro!: bexI [of _ s])
qed

text \<open>
  C4: a password reset ends every session of its user, for good: no token that opened a session before the reset
  is accepted by a later request, whatever requests of this and of other users were served in between.
\<close>

theorem reset_revokes_for_good:
  assumes "sessions_ok a" and "s \<in> set (t_sessions a)" and "as_userId s = pr_userId t"
    and "hashOpaqueToken env raw = as_tokenHash s"
    and "reset_tx env t pw now a = Inr (a1, u)" and "auth_steps env a1 a2"
  shows "\<exists>e. authenticateSession env raw later a2 = (a2, Inl e)"
proof -
  have ok: "sessions_ok a1" by (rule sessions_forward_ok [OF sessions_forward_reset [OF assms(5,1)]])
  obtain s' where "s' \<in> set (t_sessions a1)" "as_revokedAt s' \<noteq> None" "as_tokenHash s' = as_tokenHash s"
    using revoke_sessions_row [OF assms(2), of "\<lambda>s. as_userId s = pr_userId t"] assms(3) reset_sessions [OF assms(5)] by metis
  then show ?thesis using revoked_for_good [OF ok _ _ _ assms(6)] assms(4) by metis
qed

lemma toIdentity_same:
  "toIdentity env (u\<lparr>ac_passwordHash := h\<rparr>) b = toIdentity env u b"
  "toIdentity env (u\<lparr>ac_lastLoginAt := l\<rparr>) b = toIdentity env u b"
  by (cases "ac_role u"; cases "ac_adminProfile u"; cases "ac_customerId u"; simp add: toIdentity_def)+

lemma direct_login_cases:
  assumes "direct_login_tx env u i rem ctx now token a = Inr (a', r)"
  obtains raw where "raw = session_token u rem token"
    and "t_sessions a' = t_sessions a @ [session_row env u ctx now (ac_role u = ADMIN) raw (auth_uuid a)]"
    and "\<forall>s \<in> set (t_sessions a). as_tokenHash s \<noteq> hashOpaqueToken env raw"
    and "r = session_result env u raw i now (auth_uuid a)"
    and "t_accounts a' = update_many (\<lambda>x. ac_id x = ac_id u) (\<lambda>x. x\<lparr>ac_lastLoginAt := Some now\<rparr>) (t_accounts a)"
    and "t_credentials a' = t_credentials a"
proof -
  let ?raw = "session_token u rem token"
  obtain k where run: "open_session env u ctx now (ac_role u = ADMIN) ?raw [] a = Inr (a', k)"
    and r: "r = session_result env u ?raw i now k"
    using assms by (auto simp: direct_login_tx_def Let_def result_simps)
  have acc: "t_accounts a' = update_many (\<lambda>x. ac_id x = ac_id u) (\<lambda>x. x\<lparr>ac_lastLoginAt := Some now\<rparr>) (t_accounts a)"
    using run by (auto simp: open_session_def Let_def result_simps audit_log_def used_uuid_def
        elim!: create_session_row_cases update_account_cases)
  have cred: "t_credentials a' = t_credentials a" using factors_same_open [OF run] by (simp add: factors_same_def)
  from run show thesis by (rule open_session_cases) (rule that [OF refl _ _ _ acc cred]; simp add: r)
qed

lemma direct_login_read:
  assumes "login_read env email pw a = Inr (Direct_Login u i)"
  shows "u \<in> set (t_accounts a)" and "ac_role u = ADMIN" and "ac_status u = User_ACTIVE" and "ac_deletedAt u = None"
    and "toIdentity env u (totp_enabled (ac_id u) a) = Inr i"
  using assms user_role.exhaust [of "ac_role u"]
  by (auto simp: login_read_def find_by_email_def split: option.splits if_splits sum.splits dest: find_Some_D)

lemma new_admin_session_accepted:
  assumes run: "direct_login_tx env u i rem ctx now token a = Inr (a', r)" and "ac_role u = ADMIN" and "sessions_ok a"
    and "find_account (ac_id u) a = Some v" and same: "ac_id v = ac_id u" "ac_role v = ADMIN" "ac_status v = User_ACTIVE" "ac_deletedAt v = None"
    and i: "toIdentity env v (totp_enabled (ac_id u) a) = Inr i" and "0 < sessionTtl env"
  shows "authenticateSession env (lr_token r) now a' = (a', Inr (\<lparr>ra_identity = i, ra_sessionId = lr_sessionId r\<rparr>, lr_expiresAt r))"
  using run
proof (rule direct_login_cases)
  fix raw
  let ?s = "session_row env u ctx now (ac_role u = ADMIN) raw (auth_uuid a)"
  let ?v = "v\<lparr>ac_lastLoginAt := Some now\<rparr>"
  assume raw: "raw = session_token u rem token" and rows: "t_sessions a' = t_sessions a @ [?s]"
    and fresh: "\<forall>s \<in> set (t_sessions a). as_tokenHash s \<noteq> hashOpaqueToken env raw"
    and r: "r = session_result env u raw i now (auth_uuid a)"
    and acc: "t_accounts a' = update_many (\<lambda>x. ac_id x = ac_id u) (\<lambda>x. x\<lparr>ac_lastLoginAt := Some now\<rparr>) (t_accounts a)"
    and cred: "t_credentials a' = t_credentials a"
  have "sessions_ok a'" by (rule sessions_forward_ok [OF sessions_forward_created(2) [OF run assms(3)]])
  then have found: "find_session (hashOpaqueToken env raw) a' = Some ?s"
    by (rule find_session_row) (simp_all add: rows session_row_def)
  have user: "find_account (ac_id u) a' = Some ?v"
    using assms(4) by (simp add: find_account_def acc find_update_many_key)
  have enabled: "totp_enabled k a' = totp_enabled k a" for k by (simp add: totp_enabled_def credential_of_def cred)
  have later: "now < session_expiry env u raw now"
    using assms(2,10) by (auto simp: session_expiry_def administratorSessionTtl_def BROWSER_ADMIN_SESSION_TTL_def
        REMEMBERED_ADMIN_SESSION_TTL_def ADMIN_SESSION_TTL_def split: session_mode.splits)
  have "\<not> idle_expired env raw now ?v ?s" using assms(10) by (simp add: idle_expired_def sessionIdleTtl_def session_row_def min_less_iff_disj)
  moreover have "\<not> missing_second_factor ?v ?s a'" using assms(2) by (simp add: missing_second_factor_def session_row_def)
  moreover have "toIdentity env ?v (totp_enabled (ac_id u) a') = Inr i" using i by (simp add: toIdentity_same enabled)
  ultimately show ?thesis
    using found user later same by (simp add: authenticateSession_def r session_result_def session_row_def)
qed

lemma reset_accounts:
  assumes "reset_tx env t pw now a = Inr (a', u)"
  shows "t_accounts a' = update_many (\<lambda>x. ac_id x = pr_userId t) (\<lambda>x. x\<lparr>ac_passwordHash := Some (password_hash env pw)\<rparr>) (t_accounts a)"
  using assms by (auto simp: reset_tx_def Let_def result_simps revoke_sessions_def audit_log_def split: if_splits elim!: update_account_cases)

text \<open>
  C24: the sign-in of an administrator is not checked again when its session is written. A sign-in with the old
  password that was read before a password reset, and that commits after it, opens a session that the reset has
  not revoked and that is accepted. (A customer is read again under a lock, and refused: \<open>lockCustomer\<close>.)
\<close>

theorem stale_login_survives_reset:
  assumes "login_read env email old a = Inr (Direct_Login u i)"
    and "reset_tx env t new now1 a = Inr (a1, x)" and "pr_userId t = ac_id u"
    and "direct_login_tx env u i rem ctx now2 token a1 = Inr (a2, r)"
    and "sessions_ok a" and "distinct (map ac_id (t_accounts a))" and "0 < sessionTtl env"
  shows "authenticateSession env (lr_token r) now2 a2 =
    (a2, Inr (\<lparr>ra_identity = i, ra_sessionId = lr_sessionId r\<rparr>, lr_expiresAt r))"
proof -
  let ?v = "u\<lparr>ac_passwordHash := Some (password_hash env new)\<rparr>"
  note u = direct_login_read [OF assms(1)]
  have ok: "sessions_ok a1" by (rule sessions_forward_ok [OF sessions_forward_reset [OF assms(2,5)]])
  have "List.find (\<lambda>x. ac_id x = ac_id u) (t_accounts a) = Some u" by (rule find_key_eq [OF assms(6) u(1)])
  then have user: "find_account (ac_id u) a1 = Some ?v"
    by (simp add: find_account_def reset_accounts [OF assms(2)] assms(3) find_update_many_key)
  have "t_credentials a1 = t_credentials a" using factors_same_txs(4) [OF assms(2)] by (simp add: factors_same_def)
  then have "toIdentity env ?v (totp_enabled (ac_id u) a1) = Inr i"
    using u(5) by (simp add: toIdentity_same totp_enabled_def credential_of_def)
  then show ?thesis
    by (intro new_admin_session_accepted [OF assms(4) u(2) ok user]) (use u assms(7) in simp_all)
qed

section \<open>The limit of attempts of an administrator\<close>

definition set_attempts :: "nat \<Rightarrow> auth_db \<Rightarrow> auth_db" where
  "set_attempts n a = a\<lparr>t_challenges := map (\<lambda>c. c\<lparr>lc_failedAttempts := n\<rparr>) (t_challenges a)\<rparr>"

definition map_right :: "('a \<Rightarrow> 'b) \<Rightarrow> 'e + 'a \<times> 'x \<Rightarrow> 'e + 'b \<times> 'x" where
  "map_right f r = (case r of Inl e \<Rightarrow> Inl e | Inr (a, x) \<Rightarrow> Inr (f a, x))"

lemma map_right_simps [simp]: "map_right f (Inl e) = Inl e" "map_right f (Inr (a, x)) = Inr (f a, x)"
  by (simp_all add: map_right_def)

lemma map_right_rbind:
  "map_right f (rbind r g) = rbind r (\<lambda>y. map_right f (g y))"
  by (cases r) (simp_all add: result_simps)

lemma rbind_map_right: "rbind (map_right f r) g = rbind r (\<lambda>(a, x). g (f a, x))"
  by (auto simp: map_right_def split: sum.splits)

lemma set_attempts_reads [simp]:
  "auth_uuid (set_attempts n a) = auth_uuid a" "t_sessions (set_attempts n a) = t_sessions a"
  "t_accounts (set_attempts n a) = t_accounts a"
  by (simp_all add: set_attempts_def auth_uuid_def)

lemma set_attempts_calls:
  "create_session_row s (set_attempts n a) = map_right (set_attempts n) (create_session_row s a)"
  "update_account k f (set_attempts n a) = map_right (set_attempts n) (update_account k f a)"
  "audit_log e t ty i md (set_attempts n a) = set_attempts n (audit_log e t ty i md a)"
  by (simp_all add: create_session_row_def update_account_def find_account_def used_uuid_def audit_log_def set_attempts_def)

lemma set_attempts_open:
  "open_session env u ctx now v raw md (set_attempts n a) = map_right (set_attempts n) (open_session env u ctx now v raw md a)"
  by (simp add: open_session_def Let_def set_attempts_calls map_right_rbind rbind_map_right case_prod_unfold)

lemma set_attempts_session:
  "createSession env u b ctx now v m rem token (set_attempts n a) =
     map_right (set_attempts n) (createSession env u b ctx now v m rem token a)"
  by (simp add: createSession_def Let_def set_attempts_open map_right_rbind rbind_map_right case_prod_unfold)

lemma set_attempts_factor:
  "consume_factor k step recovery now (set_attempts n a) =
     map_prod (set_attempts n) (\<lambda>b. b) (consume_factor k step recovery now a)"
  by (simp add: consume_factor_def consume_step_def consume_code_def Let_def set_attempts_def split: option.splits)

lemma update_many_map:
  "(\<And>c. P (g c) = P c) \<Longrightarrow> (\<And>c. f (g c) = g (f c)) \<Longrightarrow> update_many P f (map g cs) = map g (update_many P f cs)"
  "(\<And>c. P (g c) = P c) \<Longrightarrow> count_where P (map g cs) = count_where P cs"
  by (induction cs) (auto simp: count_where_def)

lemma set_attempts_challenge:
  "consume_challenge k now (set_attempts n a) = map_prod (set_attempts n) (\<lambda>m. m) (consume_challenge k now a)"
  by (simp add: consume_challenge_def Let_def set_attempts_def update_many_map)


section \<open>The answers to one code\<close>

definition emails_ok :: "auth_db \<Rightarrow> bool" where
  "emails_ok a \<longleftrightarrow> distinct (map ec_id (t_emailChallenges a)) \<and> distinct (map ec_tokenHash (t_emailChallenges a)) \<and>
     (\<forall>c \<in> set (t_emailChallenges a). ec_failedAttempts c \<le> 5 \<and> (ec_failedAttempts c = 5 \<longrightarrow> ec_usedAt c \<noteq> None))"

definition email_after :: "email_challenge \<Rightarrow> email_challenge \<Rightarrow> bool" where
  "email_after c c' \<longleftrightarrow> ec_id c' = ec_id c \<and> ec_tokenHash c' = ec_tokenHash c \<and>
     ec_failedAttempts c \<le> ec_failedAttempts c' \<and> (ec_usedAt c \<noteq> None \<longrightarrow> ec_usedAt c' \<noteq> None)"

definition emails_forward :: "auth_db \<Rightarrow> auth_db \<Rightarrow> bool" where
  "emails_forward a a' \<longleftrightarrow> emails_ok a' \<and>
     (\<forall>c \<in> set (t_emailChallenges a). \<exists>c' \<in> set (t_emailChallenges a'). email_after c c')"

lemma email_after_refl [simp]: "email_after c c"
  by (simp add: email_after_def)

lemma emails_forward_same: "t_emailChallenges a' = t_emailChallenges a \<Longrightarrow> emails_ok a \<Longrightarrow> emails_forward a a'"
  by (auto simp: emails_forward_def emails_ok_def intro: email_after_refl)

lemma email_after_trans: "email_after c d \<Longrightarrow> email_after d e \<Longrightarrow> email_after c e"
  by (auto simp: email_after_def)

lemma emails_forward_trans: "emails_forward a b \<Longrightarrow> emails_forward b c \<Longrightarrow> emails_forward a c"
  unfolding emails_forward_def by (meson email_after_trans)

lemma emails_forward_ok: "emails_forward a b \<Longrightarrow> emails_ok b"
  by (simp add: emails_forward_def)

lemma emails_forward_after: "emails_forward a b \<Longrightarrow> t_emailChallenges c = t_emailChallenges b \<Longrightarrow> emails_forward a c"
  by (simp add: emails_forward_def emails_ok_def)

lemma emails_writes [simp]:
  "t_emailChallenges (used_uuid a) = t_emailChallenges a" "t_emailChallenges (audit_log actor act ty e md a) = t_emailChallenges a"
  "t_emailChallenges (revoke_sessions P now reason a) = t_emailChallenges a"
  "t_emailChallenges (touch_session k legacy now a) = t_emailChallenges a"
  "t_emailChallenges (supersede_resets k now a) = t_emailChallenges a" "t_emailChallenges (upsert_preference k g a) = t_emailChallenges a"
  "t_emailChallenges (preference_logged k md a) = t_emailChallenges a" "t_emailChallenges (login_failed e a) = t_emailChallenges a"
  "t_emailChallenges (two_factor_failed ch a) = t_emailChallenges a" "t_emailChallenges (setup_done k c a) = t_emailChallenges a"
  "t_emailChallenges (fst (consume_factor c step recovery now a)) = t_emailChallenges a"
  "t_emailChallenges (fst (consume_challenge c now a)) = t_emailChallenges a"
  "t_emailChallenges (logout auth now a) = t_emailChallenges a" "t_emailChallenges (logoutAll auth now a) = t_emailChallenges a"
  "t_emailChallenges (revoke_automatically s now reason a) = t_emailChallenges a"
  by (simp_all add: used_uuid_def audit_log_def touch_session_def revoke_sessions_def supersede_resets_def upsert_preference_def
      preference_logged_def login_failed_def two_factor_failed_def setup_done_def consume_challenge_def consume_factor_def
      consume_step_def consume_code_def logout_def logoutAll_def revoke_automatically_def Let_def split: option.splits)

lemma emails_calls:
  "auth_outbox now k t key v a = Inr (a', u) \<Longrightarrow> t_emailChallenges a' = t_emailChallenges a"
  "update_account k f a = Inr (a', u) \<Longrightarrow> t_emailChallenges a' = t_emailChallenges a"
  "create_session_row s a = Inr (a', u) \<Longrightarrow> t_emailChallenges a' = t_emailChallenges a"
  "create_codes env k codes a = Inr (a', u) \<Longrightarrow> t_emailChallenges a' = t_emailChallenges a"
  "verify_session k now a = Inr (a', u) \<Longrightarrow> t_emailChallenges a' = t_emailChallenges a"
  "consume_factor k step recovery now a = (a', b) \<Longrightarrow> t_emailChallenges a' = t_emailChallenges a"
  "consume_challenge k now a = (a', n) \<Longrightarrow> t_emailChallenges a' = t_emailChallenges a"
proof -
  show "create_codes env k codes a = Inr (a', u) \<Longrightarrow> t_emailChallenges a' = t_emailChallenges a"
    by (induction codes arbitrary: a) (auto simp: Let_def split: if_splits)
  show "consume_factor k step recovery now a = (a', b) \<Longrightarrow> t_emailChallenges a' = t_emailChallenges a"
    using emails_writes(11) [of k step recovery now a] by simp
  show "consume_challenge k now a = (a', n) \<Longrightarrow> t_emailChallenges a' = t_emailChallenges a"
    using emails_writes(12) [of k now a] by simp
qed (auto elim: auth_outbox_cases update_account_cases create_session_row_cases simp: verify_session_def split: if_splits)

lemma emails_sessions:
  "open_session env u ctx now v raw md a = Inr (a', k) \<Longrightarrow> t_emailChallenges a' = t_emailChallenges a"
  "createSession env u b ctx now v m rem token a = Inr (a', r) \<Longrightarrow> t_emailChallenges a' = t_emailChallenges a"
  "direct_login_tx env u i rem ctx now token a = Inr (a', r) \<Longrightarrow> t_emailChallenges a' = t_emailChallenges a"
proof -
  show *: "t_emailChallenges a' = t_emailChallenges a" if "open_session env u ctx now v raw md a = Inr (a', k)" for md v raw k
    using that by (auto simp: open_session_def Let_def result_simps dest!: emails_calls)
  show "createSession env u b ctx now v m rem token a = Inr (a', r) \<Longrightarrow> t_emailChallenges a' = t_emailChallenges a"
    "direct_login_tx env u i rem ctx now token a = Inr (a', r) \<Longrightarrow> t_emailChallenges a' = t_emailChallenges a"
    by (auto simp: createSession_def direct_login_tx_def Let_def result_simps dest: *)
qed

lemma emails_forward_update:
  assumes "emails_ok a" and "\<And>c. c \<in> set (t_emailChallenges a) \<Longrightarrow> P c \<Longrightarrow> email_after c (f c) \<and>
      (ec_failedAttempts (f c) \<le> 5 \<and> (ec_failedAttempts (f c) = 5 \<longrightarrow> ec_usedAt (f c) \<noteq> None))"
    and rows: "t_emailChallenges a' = update_many P f (t_emailChallenges a)"
  shows "emails_forward a a'"
proof -
  have "map ec_tokenHash (t_emailChallenges a') = map ec_tokenHash (t_emailChallenges a)"
    "map ec_id (t_emailChallenges a') = map ec_id (t_emailChallenges a)"
    unfolding rows by (rule map_update_many_at; use assms(2) in \<open>simp add: email_after_def\<close>)+
  moreover have "ec_failedAttempts c \<le> 5 \<and> (ec_failedAttempts c = 5 \<longrightarrow> ec_usedAt c \<noteq> None)" if "c \<in> set (t_emailChallenges a')" for c
    using that assms(1,2) by (auto simp: rows mem_update_many emails_ok_def split: if_splits)
  ultimately have "emails_ok a'" using assms(1) by (simp add: emails_ok_def)
  moreover have "\<exists>c' \<in> set (t_emailChallenges a'). email_after c c'" if "c \<in> set (t_emailChallenges a)" for c
    using that assms(2) [OF that] by (intro bexI [of _ "if P c then f c else c"]) (auto simp: rows mem_update_many)
  ultimately show ?thesis by (simp add: emails_forward_def)
qed

lemma emails_forward_supersede: "emails_ok a \<Longrightarrow> emails_forward a (supersede_email k now a)"
  by (rule emails_forward_update) (auto simp: supersede_email_def email_after_def emails_ok_def)

lemma emails_forward_new:
  assumes "create_email_challenge (email_challenge_row env u ctx now token random k) a = Inr (a', x)" and "emails_ok a"
  shows "emails_forward a a'"
  using assms
  by (auto simp: create_email_challenge_def email_challenge_row_def emails_forward_def emails_ok_def list_ex_iff
      split: if_splits intro: email_after_refl) blast+

lemma emails_forward_before:
  "t_emailChallenges b = t_emailChallenges a \<Longrightarrow> emails_forward b c \<Longrightarrow> emails_forward a c"
  by (simp add: emails_forward_def)

lemma emails_forward_customer:
  assumes "customer_login_tx env u ctx now token random a = Inr (a', r)" and ok: "emails_ok a"
  shows "emails_forward a a'"
proof -
  obtain v where v: "lockCustomer (ac_id u) a = Some v"
    using assms(1) by (auto simp: customer_login_tx_def split: option.splits)
  then have id: "ac_id v = ac_id u"
    by (auto simp: lockCustomer_def find_account_def split: option.splits if_splits dest: find_Some_D)
  let ?a1 = "supersede_email (ac_id v) now a"
  show ?thesis
  proof (cases "email_two_step (ac_id u) a")
    case False
    then show ?thesis
      using assms v id by (auto simp: customer_login_tx_def result_simps split: if_splits
          intro!: emails_forward_same dest!: emails_sessions(2))
  next
    case True
    obtain a2 where "create_email_challenge (email_challenge_row env v ctx now token random (auth_uuid ?a1)) ?a1 = Inr (a2, ())"
      and "t_emailChallenges a' = t_emailChallenges a2"
      using assms(1) v True id
      by (auto simp: customer_login_tx_def Let_def result_simps split: if_splits dest!: emails_calls(1))
    then show ?thesis
      using emails_forward_supersede [OF ok] emails_forward_new emails_forward_ok emails_forward_trans emails_forward_after by metis
  qed
qed

lemma emails_forward_login:
  assumes "login_tx env plan remember ctx now token random a = Inr (a', r)" and "emails_ok a"
  shows "emails_forward a a'"
proof (cases plan)
  case (Customer_Login u)
  then show ?thesis using assms emails_forward_customer by (simp add: login_tx_def)
next
  case (Challenge_Login u)
  then show ?thesis
    using assms by (auto simp: login_tx_def challenge_login_tx_def Let_def result_simps split: if_splits intro: emails_forward_same)
next
  case (Direct_Login u i)
  then show ?thesis using assms by (auto simp: login_tx_def result_simps intro!: emails_forward_same dest!: emails_sessions(3))
qed

lemma email_update_only:
  assumes "emails_ok a" and "find_email_challenge h a = Some ch" and "c \<in> set (t_emailChallenges a)" and "ec_id c = ec_id ch"
  shows "c = ch"
  using assms distinct_key_inj [of ec_id "t_emailChallenges a" c ch]
  by (auto simp: emails_ok_def find_email_challenge_def dest: find_Some_D)

lemma email_login_cases:
  \<comment> \<open>an answer is refused unread, is wrong and counted, or is right and opens a session\<close>
  assumes "email_login_tx env k h code ctx now token a = Inr (a', r)"
  obtains (refused) "a' = a" and "r = None"
  | (wrong) ch where "find_email_challenge h a = Some ch" and "ec_usedAt ch = None" and "ec_failedAttempts ch < 5"
      and "a' = update_email_challenge (ec_id ch) (wrong_code now ch) a" and "r = None"
  | (right) ch where "find_email_challenge h a = Some ch" and "ec_usedAt ch = None" and "ec_failedAttempts ch < 5" and "r \<noteq> None"
      and "t_emailChallenges a' = t_emailChallenges (update_email_challenge (ec_id ch)
             (\<lambda>c. c\<lparr>ec_usedAt := Some now, ec_deliveryCiphertext := ''consumed''\<rparr>) a)"
proof (cases "lockCustomer k a"; cases "find_email_challenge h a")
  fix u and ch :: email_challenge
  let ?used = "update_email_challenge (ec_id ch) (\<lambda>c. c\<lparr>ec_usedAt := Some now, ec_deliveryCiphertext := ''consumed''\<rparr>) a"
  assume rows: "lockCustomer k a = Some u" "find_email_challenge h a = Some ch"
  show thesis
  proof (cases "\<not> email_two_step k a \<or> ec_usedAt ch \<noteq> None \<or> ec_expiresAt ch \<le> now \<or> 5 \<le> ec_failedAttempts ch \<or>
      ec_ipAddressHash ch \<noteq> sc_ipAddressHash ctx \<or> ec_credentialBinding ch \<noteq> credential_binding env u")
    case True
    then show thesis using assms rows by (intro refused) (simp_all add: email_login_tx_def)
  next
    case read: False
    show thesis
    proof (cases "equalHexDigest (hashOpaqueToken env code) (hashOpaqueToken env (decryptToken env (ec_deliveryCiphertext ch)))")
      case False
      then show thesis using assms rows read by (intro wrong [of ch]) (auto simp: email_login_tx_def)
    next
      case True
      then obtain x where "createSession env u False ctx now True (Some ''email'') False token ?used = Inr (a', x)" "r = Some x"
        using assms rows read by (auto simp: email_login_tx_def result_simps)
      then show thesis using rows read by (intro right [of ch]) (auto dest: emails_sessions(2))
    qed
  qed
qed (use assms in \<open>simp_all add: email_login_tx_def refused\<close>)

lemma emails_forward_answer:
  assumes "email_login_tx env k h code ctx now token a = Inr (a', r)" and ok: "emails_ok a"
  shows "emails_forward a a'"
  using assms(1)
proof (cases rule: email_login_cases)
  case refused
  then show ?thesis using emails_forward_same [OF _ ok] by simp
next
  case (wrong ch)
  have "email_after c (wrong_code now ch c) \<and> (ec_failedAttempts (wrong_code now ch c) \<le> 5 \<and>
      (ec_failedAttempts (wrong_code now ch c) = 5 \<longrightarrow> ec_usedAt (wrong_code now ch c) \<noteq> None))"
    if "c \<in> set (t_emailChallenges a)" "ec_id c = ec_id ch" for c
    using email_update_only [OF ok wrong(1) that] wrong(2,3) by (simp add: wrong_code_def email_after_def Let_def)
  then show ?thesis
    by (rule emails_forward_update [OF ok]) (simp_all add: wrong(4) update_email_challenge_def)
next
  case (right ch)
  show ?thesis
    by (rule emails_forward_update [OF ok, where P = "\<lambda>c. ec_id c = ec_id ch" and
          f = "\<lambda>c. c\<lparr>ec_usedAt := Some now, ec_deliveryCiphertext := ''consumed''\<rparr>"])
      (use right(5) ok in \<open>auto simp: update_email_challenge_def email_after_def emails_ok_def\<close>)
qed

lemma auth_step_emails:
  assumes "auth_step env a a'" and "emails_ok a"
  shows "emails_forward a a'"
  using assms(1)
proof (cases rule: auth_step.cases)
  case (factor_login fr remember ctx now token r)
  then show ?thesis using assms(2)
    by (auto elim!: two_factor_tx_cases intro!: emails_forward_same dest!: emails_calls emails_sessions)
next
  case (setup_started k secret r)
  then show ?thesis using assms(2)
    by (auto simp: setup_tx_def Let_def split: option.splits if_splits intro: emails_forward_same)
next
  case (codes_regenerated k c codes r)
  then show ?thesis using assms(2)
    by (auto simp: regenerate_tx_def result_simps intro!: emails_forward_same dest!: emails_calls(4))
next
  case (reset_requested u now token r)
  then show ?thesis using assms(2)
    by (auto simp: request_reset_tx_def Let_def result_simps split: if_splits intro!: emails_forward_same dest!: emails_calls(1))
next
  case (reset_confirmed t pw now r)
  then show ?thesis using assms(2)
    by (auto simp: reset_tx_def Let_def result_simps split: if_splits intro!: emails_forward_same dest!: emails_calls(2))
next
  case (factor_enabled auth c step codes now r)
  then show ?thesis using assms(2)
    by (auto simp: enable_tx_def Let_def result_simps split: if_splits intro!: emails_forward_same dest!: emails_calls(4,5))
next
  case (preference_changed k i input now r)
  have "emails_forward a (two_step_changed k i now a)"
    unfolding two_step_changed_def by (rule emails_forward_after [OF emails_forward_supersede [OF assms(2)]]) simp
  then show ?thesis using assms(2) preference_changed
    by (auto simp: preferences_tx_def split: option.splits if_splits preference_update.splits
        intro: emails_forward_same emails_forward_after)
next
  case (revoked_by_user auth k now r)
  then show ?thesis using assms(2) by (auto simp: revokeSession_def split: if_splits intro: emails_forward_same)
next
  case (factor_disabled k c now r)
  then show ?thesis using assms(2) by (auto simp: disable_tx_def split: if_splits intro: emails_forward_same)
qed (use assms(2) in \<open>auto intro: emails_forward_login emails_forward_answer emails_forward_same\<close>)

lemma auth_steps_emails: "auth_steps env a a' \<Longrightarrow> emails_ok a \<Longrightarrow> emails_forward a a'"
proof (induction rule: rtranclp_induct)
  case base
  then show ?case by (intro emails_forward_same) simp_all
next
  case (step b c)
  then show ?case using auth_step_emails emails_forward_ok emails_forward_trans by blast
qed

inductive answered :: "auth_env \<Rightarrow> string \<Rightarrow> auth_db \<Rightarrow> nat \<Rightarrow> auth_db \<Rightarrow> bool" for env h a where
  \<comment> \<open>requests of any kind, with this number of wrong answers to the challenge of this digest among them\<close>
  start: "answered env h a 0 a"
| other_request: "answered env h a n b \<Longrightarrow> auth_step env b c \<Longrightarrow> answered env h a n c"
| wrong_answer: "answered env h a n b \<Longrightarrow> email_login_tx env k h code ctx now token b = Inr (c, None) \<Longrightarrow> c \<noteq> b \<Longrightarrow>
    answered env h a (Suc n) c"

lemma answers_counted:
  assumes "answered env h a n b" and "emails_ok a" and "ch \<in> set (t_emailChallenges a)" and "ec_tokenHash ch = h"
  shows "emails_ok b \<and> (\<exists>ch' \<in> set (t_emailChallenges b). ec_tokenHash ch' = h \<and> n \<le> ec_failedAttempts ch')"
  using assms(1)
proof induction
  case start
  then show ?case using assms by auto
next
  case (other_request n b c)
  then have fwd: "emails_forward b c" using auth_step_emails by blast
  moreover obtain x where "x \<in> set (t_emailChallenges b)" "ec_tokenHash x = h" "n \<le> ec_failedAttempts x"
    using other_request.IH by blast
  ultimately show ?case unfolding emails_forward_def email_after_def by (metis order_trans)
next
  case (wrong_answer n b k code ctx now token c)
  then have ok: "emails_ok b" by blast
  obtain x where x: "x \<in> set (t_emailChallenges b)" "ec_tokenHash x = h" "n \<le> ec_failedAttempts x"
    using wrong_answer.IH by blast
  have find: "find_email_challenge h b = Some x"
    using find_key_eq [of ec_tokenHash "t_emailChallenges b" x] x ok by (simp add: find_email_challenge_def emails_ok_def)
  from wrong_answer.hyps(2) have "c = update_email_challenge (ec_id x) (wrong_code now x) b"
    by (rule email_login_cases) (use wrong_answer.hyps(3) find in auto)
  then have "wrong_code now x x \<in> set (t_emailChallenges c)"
    using x(1) by (auto simp: update_email_challenge_def mem_update_many intro!: bexI [of _ x])
  moreover have "ec_tokenHash (wrong_code now x x) = h" "Suc n \<le> ec_failedAttempts (wrong_code now x x)"
    using x by (simp_all add: wrong_code_def Let_def)
  moreover have "emails_ok c"
    using emails_forward_ok [OF emails_forward_answer [OF wrong_answer.hyps(2) ok]] .
  ultimately show ?case by blast
qed

lemma exhausted_refused:
  assumes "emails_ok a" and "ch \<in> set (t_emailChallenges a)" and "ec_tokenHash ch = h" and "5 \<le> ec_failedAttempts ch"
  shows "email_login_tx env k h code ctx now token a = Inr (a, None)"
proof -
  have "find_email_challenge h a = Some ch"
    using find_key_eq [of ec_tokenHash "t_emailChallenges a" ch] assms by (simp add: find_email_challenge_def emails_ok_def)
  then show ?thesis using assms(4) by (simp add: email_login_tx_def split: option.splits)
qed

text \<open>
  C5: a code sent to a customer can be guessed five times. However requests interleave, at most five wrong answers
  are compared with the code of one challenge, and after the fifth no answer signs in, not even the right one.
\<close>

theorem email_code_guesses_bounded:
  assumes "emails_ok a" and "ch \<in> set (t_emailChallenges a)" and "ec_tokenHash ch = hashOpaqueToken env challenge"
    and "answered env (hashOpaqueToken env challenge) a n b"
  shows "n \<le> 5 \<and> (n = 5 \<longrightarrow> completeCustomerEmailLogin env challenge code ctx now token b = (b, Inl Invalid_Two_Factor))"
proof -
  obtain x where ok: "emails_ok b" and x: "x \<in> set (t_emailChallenges b)" "ec_tokenHash x = hashOpaqueToken env challenge"
    "n \<le> ec_failedAttempts x"
    using answers_counted [OF assms(4,1,2,3)] by blast
  then have "n \<le> 5" by (auto simp: emails_ok_def)
  moreover have "completeCustomerEmailLogin env challenge code ctx now token b = (b, Inl Invalid_Two_Factor)" if "n = 5"
    using exhausted_refused [OF ok x(1,2)] x(3) that
    by (auto simp: completeCustomerEmailLogin_def auth_run_def Let_def split: option.splits)
  ultimately show ?thesis by simp
qed

section \<open>Examples\<close>

definition sample_session :: auth_session where
  "sample_session =
     \<lparr>as_id = ''s1'', as_userId = ''u1'', as_tokenHash = ''t1'', as_expiresAt = 90000000, as_lastSeenAt = 0, as_revokedAt = None,
      as_revokedReason = None, as_ipAddressHash = ''ip'', as_userAgent = None, as_twoFactorVerifiedAt = Some 0, as_createdAt = 0\<rparr>"

definition sample_token :: reset_token where
  "sample_token =
     \<lparr>pr_id = ''r1'', pr_userId = ''u1'', pr_tokenHash = ''h'', pr_deliveryCiphertext = ''h'', pr_expiresAt = 1800000, pr_usedAt = None\<rparr>"

definition sample_reset_db :: auth_db where
  "sample_reset_db = sample_auth\<lparr>t_sessions := [sample_session], t_credentials := [], t_resetTokens := [sample_token]\<rparr>"

definition sample_reset :: "auth_error + auth_db \<times> unit" where
  "sample_reset = reset_tx sample_auth_env sample_token ''new'' 1000 sample_reset_db"

definition sample_identity :: identity where
  "sample_identity = Admin_Identity ''u1'' ''a@x'' ''p1'' None ''OWNER'' False"

definition sample_stale :: "auth_error + auth_db \<times> login_result" where
  "sample_stale = direct_login_tx sample_auth_env sample_admin sample_identity False sample_context 2000 ''n'' (fst (projr sample_reset))"

lemma sample_reset_runs:
  "reset_tx sample_auth_env sample_token ''new'' 1000 sample_reset_db = Inr (fst (projr sample_reset), snd (projr sample_reset))"
  "direct_login_tx sample_auth_env sample_admin sample_identity False sample_context 2000 ''n'' (fst (projr sample_reset)) =
     Inr (fst (projr sample_stale), snd (projr sample_stale))"
proof -
  have "case sample_reset of Inl _ \<Rightarrow> False | Inr _ \<Rightarrow> True" by code_simp
  from right_eq [OF this] show "reset_tx sample_auth_env sample_token ''new'' 1000 sample_reset_db =
      Inr (fst (projr sample_reset), snd (projr sample_reset))" unfolding sample_reset_def [symmetric] .
  have "case sample_stale of Inl _ \<Rightarrow> False | Inr _ \<Rightarrow> True" by code_simp
  from right_eq [OF this] show "direct_login_tx sample_auth_env sample_admin sample_identity False sample_context 2000 ''n''
      (fst (projr sample_reset)) = Inr (fst (projr sample_stale), snd (projr sample_stale))" unfolding sample_stale_def [symmetric] .
qed

lemma sample_reset_ok: "sessions_ok sample_reset_db" "sample_session \<in> set (t_sessions sample_reset_db)"
  by (simp_all add: sessions_ok_def sample_reset_db_def)

theorem reset_revokes_for_good_witness:
  "\<exists>e. authenticateSession sample_auth_env ''t1'' 2000 (fst (projr sample_reset)) = (fst (projr sample_reset), Inl e)"
  by (rule reset_revokes_for_good [OF sample_reset_ok _ _ sample_reset_runs(1) rtranclp.rtrancl_refl])
    (simp_all add: sample_session_def sample_token_def sample_auth_env_def)

theorem stale_login_survives_reset_witness:
  "snd (authenticateSession sample_auth_env (lr_token (snd (projr sample_stale))) 2000 (fst (projr sample_stale))) =
     Inr (\<lparr>ra_identity = sample_identity, ra_sessionId = lr_sessionId (snd (projr sample_stale))\<rparr>,
          lr_expiresAt (snd (projr sample_stale)))"
proof -
  have "login_read sample_auth_env ''a@x'' ''old'' sample_reset_db = Inr (Direct_Login sample_admin sample_identity)" by code_simp
  from stale_login_survives_reset [OF this sample_reset_runs(1) _ sample_reset_runs(2) sample_reset_ok(1)]
  show ?thesis
    by (simp add: sample_token_def sample_admin_def sample_reset_db_def sample_auth_def sample_auth_env_def)
qed

definition sample_customer_account :: account where
  "sample_customer_account =
     \<lparr>ac_id = ''u2'', ac_email = ''b@x'', ac_passwordHash = Some ''old'', ac_role = CUSTOMER, ac_status = User_ACTIVE,
      ac_emailVerifiedAt = Some 0, ac_lastLoginAt = None, ac_deletedAt = None, ac_customerId = Some ''k2'', ac_adminProfile = None\<rparr>"

definition sample_guessed :: "nat \<Rightarrow> email_challenge" where
  \<comment> \<open>the code is \<open>01\<close>\<close>
  "sample_guessed n =
     \<lparr>ec_id = ''e1'', ec_userId = ''u2'', ec_tokenHash = ''t2'', ec_credentialBinding = ''b@x'',
      ec_deliveryCiphertext = (if n = 5 then ''exhausted'' else ''01''), ec_ipAddressHash = ''ip'', ec_expiresAt = 300000,
      ec_usedAt = (if n = 5 then Some 1000 else None), ec_failedAttempts = n\<rparr>"

definition sample_guesses :: "nat \<Rightarrow> auth_db" where
  "sample_guesses n =
     sample_auth\<lparr>t_accounts := [sample_customer_account], t_emailChallenges := [sample_guessed n],
       t_preferences := [\<lparr>pf_userId = ''u2'', pf_emailTwoStep = True, pf_marketingConsent = False\<rparr>]\<rparr>"

lemma sample_guess:
  assumes "n < 5"
  shows "email_login_tx sample_auth_env ''u2'' ''t2'' ''00'' sample_context 1000 ''n'' (sample_guesses n) =
    Inr (sample_guesses (Suc n), None)"
proof -
  let ?a = "sample_guesses n"
  have "lockCustomer ''u2'' ?a = Some sample_customer_account" "email_two_step ''u2'' ?a"
    "find_email_challenge ''t2'' ?a = Some (sample_guessed n)"
    by (simp_all add: lockCustomer_def find_account_def sample_guesses_def sample_customer_account_def has_password_def
        email_two_step_def preference_of_def find_email_challenge_def sample_guessed_def)
  moreover have "\<not> equalHexDigest ''00'' ''01''" by code_simp
  moreover have "update_email_challenge ''e1'' (wrong_code 1000 (sample_guessed n)) ?a = sample_guesses (Suc n)"
    using assms by (simp add: update_email_challenge_def sample_guesses_def wrong_code_def sample_guessed_def)
  ultimately show ?thesis
    using assms by (simp add: email_login_tx_def sample_guessed_def sample_auth_env_def sample_context_def
        credential_binding_def sample_customer_account_def)
qed

lemma sample_answers: "n \<le> 5 \<Longrightarrow> answered sample_auth_env ''t2'' (sample_guesses 0) n (sample_guesses n)"
proof (induction n)
  case 0
  show ?case by (rule answered.start)
next
  case (Suc n)
  have "map ec_failedAttempts (t_emailChallenges (sample_guesses m)) = [m]" for m
    by (simp add: sample_guesses_def sample_guessed_def)
  then have "sample_guesses (Suc n) \<noteq> sample_guesses n" by (metis list.inject n_not_Suc_n)
  then show ?case using Suc by (intro answered.wrong_answer [OF _ sample_guess]) simp_all
qed

theorem email_code_guesses_bounded_witness:
  "answered sample_auth_env ''t2'' (sample_guesses 0) 5 (sample_guesses 5) \<and>
   completeCustomerEmailLogin sample_auth_env ''t2'' ''01'' sample_context 1000 ''n'' (sample_guesses 5) =
     (sample_guesses 5, Inl Invalid_Two_Factor)"
proof -
  have "emails_ok (sample_guesses 0)" "sample_guessed 0 \<in> set (t_emailChallenges (sample_guesses 0))"
    "ec_tokenHash (sample_guessed 0) = hashOpaqueToken sample_auth_env ''t2''"
    by (simp_all add: emails_ok_def sample_guesses_def sample_guessed_def sample_auth_env_def)
  moreover have "answered sample_auth_env (hashOpaqueToken sample_auth_env ''t2'') (sample_guesses 0) 5 (sample_guesses 5)"
    using sample_answers [of 5] by (simp add: sample_auth_env_def)
  ultimately show ?thesis
    using email_code_guesses_bounded [of "sample_guesses 0" "sample_guessed 0" sample_auth_env "''t2''" 5 "sample_guesses 5"]
      sample_answers [of 5] by simp
qed

end
