(* ===== verification/Accounts.thy ===== *)
theory Accounts
  imports Session_Revocation
begin

text \<open>
  Accounts of customers (the rest of \<^verbatim>\<open>apps/api/src/modules/auth/services/auth.service.ts\<close>): registration,
  verification of the address, and sessions in which an administrator acts for a customer. The tables are
  those of \<open>Sessions\<close> with the customers, the verification tokens and the support sessions beside them.
\<close>

section \<open>Rows\<close>

record customer_row =
  cw_customer :: customer
  cw_customerNumber :: string
  cw_phone :: "string option"

record verification_token =
  vt_id :: uuid
  vt_userId :: uuid
  vt_tokenHash :: string
  vt_deliveryCiphertext :: string
  vt_expiresAt :: instant
  vt_usedAt :: "instant option"
  vt_createdAt :: instant

record support_session =
  sup_id :: uuid
  sup_tokenHash :: string
  sup_adminSessionId :: uuid
  sup_customerId :: uuid
  sup_expiresAt :: instant
  sup_endedAt :: "instant option"

record portal =
  p_auth :: auth_db
  p_customers :: "customer_row list"
  p_verifications :: "verification_token list"
  p_supports :: "support_session list"

type_synonym 'a portal_tx = "portal \<Rightarrow> auth_error + portal \<times> 'a"
type_synonym 'a portal_handler = "portal \<Rightarrow> portal \<times> (auth_error + 'a)"

definition portal_run :: "'a portal_tx \<Rightarrow> 'a portal_handler" where
  "portal_run tx p = (case tx p of Inl e \<Rightarrow> (p, Inl e) | Inr (p', x) \<Rightarrow> (p', Inr x))"

definition on_auth :: "'a auth_tx \<Rightarrow> 'a portal_tx" where
  "on_auth tx p = rbind (tx (p_auth p)) (\<lambda>(a, x). Inr (p\<lparr>p_auth := a\<rparr>, x))"

definition portal_log :: "uuid option \<Rightarrow> string \<Rightarrow> string \<Rightarrow> uuid option \<Rightarrow> (string \<times> json) list \<Rightarrow> portal \<Rightarrow> portal" where
  "portal_log actor action entityType entityId metadata p =
     p\<lparr>p_auth := audit_log actor action entityType entityId metadata (p_auth p)\<rparr>"

definition find_customer_row :: "uuid \<Rightarrow> portal \<Rightarrow> customer_row option" where
  "find_customer_row k p = List.find (\<lambda>c. c_id (cw_customer c) = k) (p_customers p)"

section \<open>Registration\<close>

record registration =
  rn_email :: string
  rn_password :: string
  rn_firstName :: string
  rn_lastName :: string
  rn_companyName :: "string option"
  rn_phone :: "string option"
  rn_addressLine1 :: string
  rn_addressLine2 :: "string option"
  rn_city :: string
  rn_region :: "string option"
  rn_postalCode :: "string option"
  rn_countryCode :: string
  rn_taxIdentifier :: "string option"

definition given :: "string option \<Rightarrow> string option" where
  "given x = (if x = Some [] then None else x)"

definition createCustomerNumber :: "uuid \<Rightarrow> string" where
  "createCustomerNumber customerId = ''CUS-'' @ js_upper (take 12 (filter (\<lambda>c. c \<noteq> CHR ''-'') customerId))"

definition registered_account :: "auth_env \<Rightarrow> registration \<Rightarrow> uuid \<Rightarrow> uuid \<Rightarrow> account" where
  "registered_account env input userId customerId =
     \<lparr>ac_id = userId, ac_email = rn_email input, ac_passwordHash = Some (password_hash env (rn_password input)),
      ac_role = CUSTOMER, ac_status = User_PENDING_VERIFICATION, ac_emailVerifiedAt = None, ac_lastLoginAt = None,
      ac_deletedAt = None, ac_customerId = Some customerId, ac_adminProfile = None\<rparr>"

definition registered_customer :: "registration \<Rightarrow> uuid \<Rightarrow> uuid \<Rightarrow> customer_row" where
  "registered_customer input userId customerId =
     \<lparr>cw_customer =
        \<lparr>c_id = customerId, c_userId = userId, c_status = Cust_ACTIVE, c_firstName = rn_firstName input,
         c_lastName = rn_lastName input, c_companyName = given (rn_companyName input),
         c_addressLine1 = rn_addressLine1 input, c_addressLine2 = given (rn_addressLine2 input), c_city = rn_city input,
         c_region = given (rn_region input), c_postalCode = given (rn_postalCode input),
         c_countryCode = rn_countryCode input, c_taxIdentifier = given (rn_taxIdentifier input), c_deletedAt = None\<rparr>,
      cw_customerNumber = createCustomerNumber customerId, cw_phone = given (rn_phone input)\<rparr>"

definition create_account :: "account \<Rightarrow> customer_row \<Rightarrow> unit portal_tx" where
  \<comment> \<open>\<open>user.create\<close> with its customer\<close>
  "create_account u c p =
     (if list_ex (\<lambda>x. ac_id x = ac_id u \<or> ac_email x = ac_email u) (t_accounts (p_auth p)) \<or>
         list_ex (\<lambda>x. c_id (cw_customer x) = c_id (cw_customer c) \<or> c_userId (cw_customer x) = c_userId (cw_customer c) \<or>
           cw_customerNumber x = cw_customerNumber c) (p_customers p)
      then Inl (Auth_Storage Unique_Violation)
      else Inr (p\<lparr>p_auth := (p_auth p)\<lparr>t_accounts := t_accounts (p_auth p) @ [u]\<rparr>, p_customers := p_customers p @ [c]\<rparr>, ()))"

definition verification_row :: "auth_env \<Rightarrow> uuid \<Rightarrow> instant \<Rightarrow> string \<Rightarrow> uuid \<Rightarrow> verification_token" where
  "verification_row env userId now token k =
     \<lparr>vt_id = k, vt_userId = userId, vt_tokenHash = hashOpaqueToken env token,
      vt_deliveryCiphertext = encryptToken env token, vt_expiresAt = now + emailVerificationTtl env, vt_usedAt = None,
      vt_createdAt = now\<rparr>"

definition create_verification :: "verification_token \<Rightarrow> unit portal_tx" where
  "create_verification v p =
     (if list_ex (\<lambda>x. vt_id x = vt_id v \<or> vt_tokenHash x = vt_tokenHash v) (p_verifications p)
      then Inl (Auth_Storage Unique_Violation)
      else Inr (p\<lparr>p_verifications := p_verifications p @ [v]\<rparr>, ()))"

definition verification_payload :: "string \<Rightarrow> uuid \<Rightarrow> json" where
  "verification_payload email k =
     JObj [(''schemaVersion'', JNum 1), (''recipientEmail'', JStr email), (''tokenRecordId'', JStr k),
           (''purpose'', JStr ''EMAIL_VERIFICATION'')]"

definition fresh_ids :: "nat \<Rightarrow> portal \<Rightarrow> portal" where
  "fresh_ids n p = p\<lparr>p_auth := (used_uuid ^^ n) (p_auth p)\<rparr>"

definition register_tx :: "auth_env \<Rightarrow> registration \<Rightarrow> uuid option \<Rightarrow> instant \<Rightarrow> string \<Rightarrow> (uuid \<times> uuid) portal_tx" where
  \<comment> \<open>\<open>persist\<close>; the identifiers of the user, the customer and the token are the next three\<close>
  "register_tx env input administrator now token p =
     (let userId = auth_uuid (p_auth p); customerId = auth_uuid (p_auth (fresh_ids 1 p));
          tokenId = auth_uuid (p_auth (fresh_ids 2 p)) in
      rbind (create_account (registered_account env input userId customerId) (registered_customer input userId customerId)
               (fresh_ids 3 p)) (\<lambda>(p1, _).
      rbind (create_verification (verification_row env userId now token tokenId) p1) (\<lambda>(p2, _).
      rbind (on_auth (auth_outbox now userId ''AUTH_EMAIL_VERIFICATION_REQUESTED'' (''auth-email-verification:'' @ tokenId)
               (verification_payload (rn_email input) tokenId)) p2) (\<lambda>(p3, _).
      let p4 = portal_log (Some userId) ''AUTH_REGISTERED'' ''USER'' (Some userId) [] p3 in
      Inr (case administrator of
             None \<Rightarrow> p4
           | Some k \<Rightarrow> portal_log (Some k) ''CUSTOMER_CREATED_BY_ADMIN'' ''CUSTOMER'' (Some customerId)
                         [(''accountStatus'', JStr ''PENDING_VERIFICATION'')] p4, (userId, customerId))))))"

definition register :: "auth_env \<Rightarrow> registration \<Rightarrow> uuid option \<Rightarrow> instant \<Rightarrow> string \<Rightarrow> (uuid \<times> uuid) portal_handler" where
  "register env input administrator now token p =
     (case register_tx env input administrator now token p of
        Inr (p', r) \<Rightarrow> (p', Inr r)
      | Inl e \<Rightarrow> (p, Inl (if e = Auth_Storage Unique_Violation
                         then Auth_Conflict ''An account with this email already exists.'' else e)))"

section \<open>Verification of the address\<close>

definition requireFullAdministrator :: "request_auth \<Rightarrow> string \<Rightarrow> auth_error + unit" where
  "requireFullAdministrator auth message =
     (case ra_identity auth of
        Admin_Identity _ _ _ _ staffRole _ \<Rightarrow> require (staffRole = ''FULL_ADMINISTRATOR'') (Auth_Forbidden message)
      | _ \<Rightarrow> Inl (Auth_Forbidden message))"

definition awaiting_verification :: "customer_row \<Rightarrow> account option \<Rightarrow> bool" where
  "awaiting_verification c user \<longleftrightarrow> c_status (cw_customer c) = Cust_ACTIVE \<and>
     (case user of
        None \<Rightarrow> False
      | Some u \<Rightarrow> ac_deletedAt u = None \<and> ac_role u = CUSTOMER \<and> ac_status u = User_PENDING_VERIFICATION \<and>
                  ac_emailVerifiedAt u = None)"

definition resend_key :: "uuid \<Rightarrow> string \<Rightarrow> string" where
  "resend_key customerId requestId = ''customer-verification-resend:'' @ customerId @ '':'' @ requestId"

definition send_again ::
    "auth_env \<Rightarrow> uuid \<Rightarrow> account \<Rightarrow> string \<Rightarrow> uuid \<Rightarrow> instant \<Rightarrow> string \<Rightarrow> unit portal_tx" where
  "send_again env customerId u requestId actor now token p =
     (let tokenId = auth_uuid (p_auth p) in
      rbind (create_verification (verification_row env (ac_id u) now token tokenId) (fresh_ids 1 p)) (\<lambda>(p1, _).
      rbind (on_auth (auth_outbox now (ac_id u) ''AUTH_EMAIL_VERIFICATION_REQUESTED'' (resend_key customerId requestId)
               (verification_payload (ac_email u) tokenId)) p1) (\<lambda>(p2, _).
      Inr (portal_log (Some actor) ''CUSTOMER_VERIFICATION_EMAIL_RESENT_BY_ADMIN'' ''CUSTOMER'' (Some customerId)
             [(''requestId'', JStr requestId), (''tokenRecordId'', JStr tokenId)] p2, ()))))"

definition resend_tx ::
    "auth_env \<Rightarrow> uuid \<Rightarrow> string \<Rightarrow> uuid \<Rightarrow> instant \<Rightarrow> string \<Rightarrow> unit portal_tx" where
  "resend_tx env customerId requestId actor now token p =
     (case find_customer_row customerId p of
        None \<Rightarrow> Inl (Auth_Not_Found ''Customer was not found.'')
      | Some c \<Rightarrow>
        if c_deletedAt (cw_customer c) \<noteq> None then Inl (Auth_Not_Found ''Customer was not found.'')
        else
          let user = find_account (c_userId (cw_customer c)) (p_auth p) in
          if \<not> awaiting_verification c user
          then Inl (Auth_Conflict ''Only an active customer awaiting email verification can receive this email.'')
          else if list_ex (\<lambda>e. o_idempotencyKey e = resend_key customerId requestId) (d_outbox (t_shared (p_auth p)))
          then Inr (p, ())
          else if list_ex (\<lambda>v. vt_userId v = ac_id (the user) \<and> now - 60000 < vt_createdAt v) (p_verifications p)
          then Inl (Auth_Rate_Limited ''A verification email was requested recently. Wait one minute before resending.'')
          else send_again env customerId (the user) requestId actor now token p)"

definition resendCustomerVerification ::
    "auth_env \<Rightarrow> uuid \<Rightarrow> string \<Rightarrow> request_auth \<Rightarrow> instant \<Rightarrow> string \<Rightarrow> unit portal_handler" where
  "resendCustomerVerification env customerId requestId actor now token p =
     (case requireFullAdministrator actor ''Only a full administrator can resend verification emails.'' of
        Inl e \<Rightarrow> (p, Inl e)
      | Inr _ \<Rightarrow> portal_run (resend_tx env customerId requestId (identity_user (ra_identity actor)) now token) p)"

definition find_verification :: "string \<Rightarrow> portal \<Rightarrow> verification_token option" where
  "find_verification h p = List.find (\<lambda>v. vt_tokenHash v = h) (p_verifications p)"

definition usable_token :: "verification_token \<Rightarrow> instant \<Rightarrow> bool" where
  "usable_token v now \<longleftrightarrow> vt_usedAt v = None \<and> now < vt_expiresAt v"

definition consume_verification :: "uuid \<Rightarrow> instant \<Rightarrow> portal \<Rightarrow> portal" where
  "consume_verification k now p =
     p\<lparr>p_verifications := update_many (\<lambda>x. vt_id x = k \<and> usable_token x now)
         (\<lambda>x. x\<lparr>vt_usedAt := Some now, vt_deliveryCiphertext := ''consumed''\<rparr>) (p_verifications p)\<rparr>"

definition may_activate :: "uuid \<Rightarrow> account \<Rightarrow> bool" where
  "may_activate k u \<longleftrightarrow> ac_id u = k \<and> ac_status u = User_PENDING_VERIFICATION \<and> ac_deletedAt u = None"

definition activate :: "uuid \<Rightarrow> instant \<Rightarrow> portal \<Rightarrow> portal" where
  "activate k now p =
     p\<lparr>p_auth := (p_auth p)\<lparr>t_accounts := update_many (may_activate k)
         (\<lambda>u. u\<lparr>ac_emailVerifiedAt := Some now, ac_status := User_ACTIVE\<rparr>) (t_accounts (p_auth p))\<rparr>\<rparr>"

definition verify_email_tx :: "auth_env \<Rightarrow> string \<Rightarrow> instant \<Rightarrow> unit portal_tx" where
  "verify_email_tx env token now p =
     (case find_verification (hashOpaqueToken env token) p of
        None \<Rightarrow> Inl Invalid_Token
      | Some v \<Rightarrow>
        if \<not> usable_token v now then Inl Invalid_Token
        else if count_where (\<lambda>x. vt_id x = vt_id v \<and> usable_token x now) (p_verifications p) \<noteq> 1 then Inl Invalid_Token
        else if count_where (may_activate (vt_userId v)) (t_accounts (p_auth p)) \<noteq> 1 then Inl Invalid_Token
        else Inr (portal_log (Some (vt_userId v)) ''AUTH_EMAIL_VERIFIED'' ''USER'' (Some (vt_userId v)) []
                    (activate (vt_userId v) now (consume_verification (vt_id v) now p)), ()))"

definition verifyEmail :: "auth_env \<Rightarrow> string \<Rightarrow> instant \<Rightarrow> unit portal_handler" where
  "verifyEmail env token now p = portal_run (verify_email_tx env token now) p"

section \<open>Acting for a customer\<close>

definition eligibleSupportCustomer :: "customer_row \<Rightarrow> portal \<Rightarrow> bool" where
  "eligibleSupportCustomer c p \<longleftrightarrow> c_status (cw_customer c) = Cust_ACTIVE \<and> c_deletedAt (cw_customer c) = None \<and>
     (case find_account (c_userId (cw_customer c)) (p_auth p) of
        None \<Rightarrow> False
      | Some u \<Rightarrow> ac_role u = CUSTOMER \<and> ac_status u = User_ACTIVE \<and> ac_deletedAt u = None \<and> ac_emailVerifiedAt u \<noteq> None)"

definition support_row :: "auth_env \<Rightarrow> request_auth \<Rightarrow> uuid \<Rightarrow> instant \<Rightarrow> string \<Rightarrow> uuid \<Rightarrow> support_session" where
  "support_row env admin customerId now token k =
     \<lparr>sup_id = k, sup_tokenHash = hashOpaqueToken env token, sup_adminSessionId = ra_sessionId admin,
      sup_customerId = customerId, sup_expiresAt = now + 15 * 60 * 1000, sup_endedAt = None\<rparr>"

definition support_logged :: "request_auth \<Rightarrow> string \<Rightarrow> support_session \<Rightarrow> portal \<Rightarrow> portal" where
  "support_logged admin reason s p =
     portal_log (Some (identity_user (ra_identity admin))) ''CUSTOMER_SUPPORT_SESSION_STARTED'' ''CUSTOMER''
       (Some (sup_customerId s))
       [(''supportSessionId'', JStr (sup_id s)), (''reason'', JStr reason), (''expiresAt'', JStr (toISOString (sup_expiresAt s)))] p"

definition start_support_tx ::
    "auth_env \<Rightarrow> request_auth \<Rightarrow> uuid \<Rightarrow> string \<Rightarrow> instant \<Rightarrow> string \<Rightarrow> unit portal_tx" where
  "start_support_tx env admin customerId reason now token p =
     (if \<not> list_ex (\<lambda>c. c_id (cw_customer c) = customerId \<and> eligibleSupportCustomer c p) (p_customers p)
      then Inl (Auth_Not_Found ''An active, verified customer account is required.'')
      else
        let s = support_row env admin customerId now token (auth_uuid (p_auth p))
        in if list_ex (\<lambda>x. sup_id x = sup_id s \<or> sup_tokenHash x = sup_tokenHash s) (p_supports p)
           then Inl (Auth_Storage Unique_Violation)
           else Inr (support_logged admin reason s (fresh_ids 1 (p\<lparr>p_supports := p_supports p @ [s]\<rparr>)), ()))"

definition startCustomerSupportSession ::
    "auth_env \<Rightarrow> request_auth \<Rightarrow> uuid \<Rightarrow> string \<Rightarrow> instant \<Rightarrow> string \<Rightarrow> string portal_handler" where
  "startCustomerSupportSession env admin customerId reason now token p =
     (case requireFullAdministrator admin ''Full administrator access is required.'' of
        Inl e \<Rightarrow> (p, Inl e)
      | Inr _ \<Rightarrow> portal_run (\<lambda>p. rbind (start_support_tx env admin customerId reason now token p)
                               (\<lambda>(p1, _). Inr (p1, token))) p)"

record support_access =
  sa_userId :: uuid
  sa_customerId :: uuid
  sa_email :: string
  sa_expiresAt :: string
  sa_sessionId :: uuid
  sa_administratorId :: uuid

definition support_matches :: "uuid \<Rightarrow> string \<Rightarrow> instant \<Rightarrow> portal \<Rightarrow> support_session \<Rightarrow> bool" where
  "support_matches adminSessionId tokenHash now p s \<longleftrightarrow>
     sup_tokenHash s = tokenHash \<and> sup_adminSessionId s = adminSessionId \<and> sup_endedAt s = None \<and> now < sup_expiresAt s \<and>
     (case find_customer_row (sup_customerId s) p of None \<Rightarrow> False | Some c \<Rightarrow> eligibleSupportCustomer c p)"

definition support_for :: "uuid \<Rightarrow> string \<Rightarrow> instant \<Rightarrow> portal \<Rightarrow> (support_session \<times> customer_row) option" where
  \<comment> \<open>\<open>customerSupportSession.findFirst\<close> with the customer it includes\<close>
  "support_for adminSessionId tokenHash now p =
     (case List.find (support_matches adminSessionId tokenHash now p) (p_supports p) of
        None \<Rightarrow> None
      | Some s \<Rightarrow> map_option (Pair s) (find_customer_row (sup_customerId s) p))"

definition authenticateCustomerSupportSession ::
    "auth_env \<Rightarrow> string \<Rightarrow> string \<Rightarrow> instant \<Rightarrow> support_access portal_handler" where
  "authenticateCustomerSupportSession env adminToken supportToken now p =
     (case authenticateSession env adminToken now (p_auth p) of
        (a1, Inl e) \<Rightarrow> (p\<lparr>p_auth := a1\<rparr>, Inl e)
      | (a1, Inr (admin, _)) \<Rightarrow>
        let p1 = p\<lparr>p_auth := a1\<rparr>
        in (p1, rbind (requireFullAdministrator admin ''Full administrator access is required.'') (\<lambda>_.
                rbind (of_option Invalid_Credentials
                         (support_for (ra_sessionId admin) (hashOpaqueToken env supportToken) now p1)) (\<lambda>(s, c).
                rbind (of_option (Auth_Failure ''Foreign key'') (find_account (c_userId (cw_customer c)) a1)) (\<lambda>u.
                Inr \<lparr>sa_userId = c_userId (cw_customer c), sa_customerId = sup_customerId s, sa_email = ac_email u,
                     sa_expiresAt = toISOString (sup_expiresAt s), sa_sessionId = sup_id s,
                     sa_administratorId = identity_user (ra_identity admin)\<rparr>)))))"

definition end_support :: "uuid \<Rightarrow> instant \<Rightarrow> portal \<Rightarrow> portal" where
  "end_support k now p =
     p\<lparr>p_supports := update_many (\<lambda>s. sup_id s = k \<and> sup_endedAt s = None) (\<lambda>s. s\<lparr>sup_endedAt := Some now\<rparr>) (p_supports p)\<rparr>"

definition endCustomerSupportSession ::
    "auth_env \<Rightarrow> string \<Rightarrow> string \<Rightarrow> instant \<Rightarrow> portal \<Rightarrow> portal \<times> uuid option" where
  \<comment> \<open>with both cookies present; otherwise the answer is null\<close>
  "endCustomerSupportSession env adminToken supportToken now p =
     (case List.find (\<lambda>s. sup_tokenHash s = hashOpaqueToken env supportToken \<and>
              (\<exists>x \<in> set (t_sessions (p_auth p)). as_id x = sup_adminSessionId s \<and> as_tokenHash x = hashOpaqueToken env adminToken))
            (p_supports p) of
        None \<Rightarrow> (p, None)
      | Some s \<Rightarrow>
        let owner = List.find (\<lambda>x. as_id x = sup_adminSessionId s) (t_sessions (p_auth p));
            p1 = end_support (sup_id s) now p
        in (if count_where (\<lambda>x. sup_id x = sup_id s \<and> sup_endedAt x = None) (p_supports p) = 1
            then portal_log (map_option as_userId owner) ''CUSTOMER_SUPPORT_SESSION_ENDED'' ''CUSTOMER'' (Some (sup_customerId s))
                   [(''supportSessionId'', JStr (sup_id s))] p1
            else p1, Some (sup_customerId s)))"

section \<open>Transactions of any number of requests\<close>

inductive portal_step :: "auth_env \<Rightarrow> portal \<Rightarrow> portal \<Rightarrow> bool" for env where
  signing_in: "auth_step env (p_auth p) a \<Longrightarrow> portal_step env p (p\<lparr>p_auth := a\<rparr>)"
| registered: "register_tx env input administrator now token p = Inr (p', r) \<Longrightarrow> portal_step env p p'"
| sent_again: "resend_tx env customerId requestId actor now token p = Inr (p', r) \<Longrightarrow> portal_step env p p'"
| email_verified: "verify_email_tx env token now p = Inr (p', r) \<Longrightarrow> portal_step env p p'"
| support_started: "start_support_tx env admin customerId reason now token p = Inr (p', r) \<Longrightarrow> portal_step env p p'"
| support_ended: "portal_step env p (fst (endCustomerSupportSession env adminToken supportToken now p))"
| customers_changed: "portal_step env p (p\<lparr>p_customers := cs\<rparr>)"

abbreviation portal_steps :: "auth_env \<Rightarrow> portal \<Rightarrow> portal \<Rightarrow> bool" where
  "portal_steps env \<equiv> (portal_step env)\<^sup>*\<^sup>*"

section \<open>What the requests keep\<close>

lemma portal_log_reads [simp]:
  "t_sessions (p_auth (portal_log actor act ty e md p)) = t_sessions (p_auth p)"
  "t_accounts (p_auth (portal_log actor act ty e md p)) = t_accounts (p_auth p)"
  "p_customers (portal_log actor act ty e md p) = p_customers p" "p_supports (portal_log actor act ty e md p) = p_supports p"
  "p_verifications (portal_log actor act ty e md p) = p_verifications p"
  by (simp_all add: portal_log_def audit_log_def)

lemma fresh_ids_reads [simp]:
  "t_sessions (p_auth (fresh_ids n p)) = t_sessions (p_auth p)" "t_accounts (p_auth (fresh_ids n p)) = t_accounts (p_auth p)"
  "p_customers (fresh_ids n p) = p_customers p" "p_supports (fresh_ids n p) = p_supports p"
  "p_verifications (fresh_ids n p) = p_verifications p"
  by (induction n) (simp_all add: fresh_ids_def used_uuid_def)

lemma on_outbox_cases:
  assumes "on_auth (auth_outbox now k t key v) p = Inr (p', u)"
  obtains d where "p' = p\<lparr>p_auth := (p_auth p)\<lparr>t_shared := d\<rparr>\<rparr>"
  using assms by (auto simp: on_auth_def result_simps elim!: auth_outbox_cases)

lemma create_account_cases:
  assumes "create_account u c p = Inr (p', x)"
  obtains "p' = p\<lparr>p_auth := (p_auth p)\<lparr>t_accounts := t_accounts (p_auth p) @ [u]\<rparr>, p_customers := p_customers p @ [c]\<rparr>"
    and "\<forall>x \<in> set (t_accounts (p_auth p)). ac_id x \<noteq> ac_id u \<and> ac_email x \<noteq> ac_email u"
  using assms by (auto simp: create_account_def list_ex_iff split: if_splits)

lemma create_verification_cases:
  assumes "create_verification v p = Inr (p', x)"
  obtains "p' = p\<lparr>p_verifications := p_verifications p @ [v]\<rparr>"
    and "\<forall>x \<in> set (p_verifications p). vt_id x \<noteq> vt_id v \<and> vt_tokenHash x \<noteq> vt_tokenHash v"
  using assms by (auto simp: create_verification_def list_ex_iff split: if_splits)

lemma register_cases:
  assumes "register_tx env input administrator now token p = Inr (p', (userId, customerId))"
  obtains tokenId where "t_accounts (p_auth p') = t_accounts (p_auth p) @ [registered_account env input userId customerId]"
    and "\<forall>x \<in> set (t_accounts (p_auth p)). ac_id x \<noteq> userId \<and> ac_email x \<noteq> rn_email input"
    and "p_verifications p' = p_verifications p @ [verification_row env userId now token tokenId]"
    and "\<forall>x \<in> set (p_verifications p). vt_id x \<noteq> tokenId \<and> vt_tokenHash x \<noteq> hashOpaqueToken env token"
    and "p_customers p' = p_customers p @ [registered_customer input userId customerId]"
    and "t_sessions (p_auth p') = t_sessions (p_auth p)" and "p_supports p' = p_supports p"
  using assms
  by (auto simp: register_tx_def Let_def result_simps verification_row_def registered_account_def split: option.splits
      elim!: create_account_cases create_verification_cases on_outbox_cases)

lemma resend_cases:
  assumes "resend_tx env customerId requestId actor now token p = Inr (p', r)"
  shows "t_sessions (p_auth p') = t_sessions (p_auth p)" and "p_supports p' = p_supports p"
  using assms
  by (auto simp: resend_tx_def send_again_def Let_def result_simps split: option.splits if_splits
      elim!: create_verification_cases on_outbox_cases)

lemma verify_email_cases:
  assumes "verify_email_tx env token now p = Inr (p', r)"
  shows "t_sessions (p_auth p') = t_sessions (p_auth p)" and "p_supports p' = p_supports p"
  using assms by (auto simp: verify_email_tx_def activate_def consume_verification_def split: option.splits if_splits)

lemma start_support_cases:
  assumes "start_support_tx env admin customerId reason now token p = Inr (p', r)"
  obtains s where "s = support_row env admin customerId now token (auth_uuid (p_auth p))"
    and "p_supports p' = p_supports p @ [s]" and "\<forall>x \<in> set (p_supports p). sup_tokenHash x \<noteq> hashOpaqueToken env token"
    and "t_sessions (p_auth p') = t_sessions (p_auth p)"
  using assms by (auto simp: start_support_tx_def Let_def list_ex_iff support_row_def support_logged_def split: if_splits)

lemma end_support_reads:
  "t_sessions (p_auth (fst (endCustomerSupportSession env adminToken supportToken now p))) = t_sessions (p_auth p)"
  "\<exists>k. p_supports (fst (endCustomerSupportSession env adminToken supportToken now p)) = p_supports (end_support k now p) \<or>
       p_supports (fst (endCustomerSupportSession env adminToken supportToken now p)) = p_supports p"
  by (auto simp: endCustomerSupportSession_def end_support_def Let_def split: option.splits)

lemma portal_step_sessions:
  assumes "portal_step env p p'" and "sessions_ok (p_auth p)"
  shows "sessions_forward (p_auth p) (p_auth p')"
  using assms(1)
proof (cases rule: portal_step.cases)
  case (registered input administrator now token r)
  then show ?thesis using assms(2) by (cases r) (auto elim!: register_cases intro: sessions_forward_same)
next
  case (support_started admin customerId reason now token r)
  then show ?thesis using assms(2) by (auto elim!: start_support_cases intro: sessions_forward_same)
qed (use assms(2) in \<open>auto intro: auth_step_sessions sessions_forward_same dest: resend_cases(1) verify_email_cases(1)
      simp: end_support_reads(1)\<close>)

definition support_after :: "support_session \<Rightarrow> support_session \<Rightarrow> bool" where
  "support_after s s' \<longleftrightarrow> sup_adminSessionId s' = sup_adminSessionId s \<and> sup_customerId s' = sup_customerId s \<and>
     sup_expiresAt s' = sup_expiresAt s \<and> (sup_endedAt s \<noteq> None \<longrightarrow> sup_endedAt s' \<noteq> None)"

definition supports_forward :: "string \<Rightarrow> portal \<Rightarrow> portal \<Rightarrow> bool" where
  \<comment> \<open>no other support session takes the place of those of a token\<close>
  "supports_forward h p p' \<longleftrightarrow>
     (\<exists>s \<in> set (p_supports p'). sup_tokenHash s = h) \<and>
     (\<forall>s' \<in> set (p_supports p'). sup_tokenHash s' = h \<longrightarrow>
        (\<exists>s \<in> set (p_supports p). sup_tokenHash s = h \<and> support_after s s'))"

lemma support_after_refl [simp]: "support_after s s"
  by (simp add: support_after_def)

lemma support_after_trans: "support_after s t \<Longrightarrow> support_after t u \<Longrightarrow> support_after s u"
  by (auto simp: support_after_def)

lemma supports_forward_same:
  "p_supports p' = p_supports p \<Longrightarrow> s \<in> set (p_supports p) \<Longrightarrow> sup_tokenHash s = h \<Longrightarrow> supports_forward h p p'"
  by (auto simp: supports_forward_def)

lemma supports_forward_end:
  assumes "p_supports p' = p_supports (end_support k now p)" and "s \<in> set (p_supports p)" and "sup_tokenHash s = h"
  shows "supports_forward h p p'"
proof -
  let ?P = "\<lambda>s. sup_id s = k \<and> sup_endedAt s = None"
  let ?g = "\<lambda>s. if ?P s then s\<lparr>sup_endedAt := Some now\<rparr> else s"
  have rows: "x \<in> set (p_supports p') \<longleftrightarrow> (\<exists>r \<in> set (p_supports p). x = ?g r)" for x
    by (simp add: assms(1) end_support_def mem_update_many)
  have g: "sup_tokenHash (?g r) = sup_tokenHash r" "support_after r (?g r)" for r by (simp_all add: support_after_def)
  have "?g s \<in> set (p_supports p')" unfolding rows using assms(2) by blast
  moreover have "sup_tokenHash (?g s) = h" using assms(3) by simp
  moreover have "\<exists>r \<in> set (p_supports p). sup_tokenHash r = h \<and> support_after r s'"
    if s': "s' \<in> set (p_supports p')" "sup_tokenHash s' = h" for s'
  proof -
    obtain r where r: "r \<in> set (p_supports p)" "s' = ?g r" using s'(1) unfolding rows by blast
    then have "sup_tokenHash r = h" using s'(2) g(1) [of r] by argo
    then show ?thesis using r g(2) [of r] by (intro bexI [of _ r]) simp_all
  qed
  ultimately show ?thesis unfolding supports_forward_def by blast
qed

lemma portal_step_supports:
  assumes "portal_step env p p'" and "s \<in> set (p_supports p)" and "sup_tokenHash s = h"
  shows "supports_forward h p p'"
  using assms(1)
proof (cases rule: portal_step.cases)
  case (registered input administrator now token r)
  then show ?thesis using assms(2,3) by (cases r) (auto elim!: register_cases intro: supports_forward_same)
next
  case (support_started admin customerId reason now token r)
  obtain t where "p_supports p' = p_supports p @ [t]" "sup_tokenHash t = hashOpaqueToken env token"
    and "\<forall>x \<in> set (p_supports p). sup_tokenHash x \<noteq> hashOpaqueToken env token"
    using support_started by (auto simp: support_row_def elim!: start_support_cases)
  then show ?thesis using assms(2,3) unfolding supports_forward_def
    by (metis Un_iff empty_iff empty_set list.set(2) insert_iff set_append support_after_refl)
next
  case (support_ended adminToken supportToken now)
  then show ?thesis
    using end_support_reads(2) [of env adminToken supportToken now p] assms(2,3) supports_forward_same supports_forward_end by metis
qed (use assms(2,3) in \<open>auto intro: supports_forward_same dest: resend_cases(2) verify_email_cases(2)\<close>)

lemma portal_steps_forward:
  assumes "portal_steps env p p'" and "sessions_ok (p_auth p)" and "s \<in> set (p_supports p)" and "sup_tokenHash s = h"
  shows "sessions_forward (p_auth p) (p_auth p') \<and> supports_forward h p p'"
  using assms(1)
proof (induction rule: rtranclp_induct)
  case base
  then show ?case using sessions_forward_same [OF refl assms(2)] supports_forward_same [OF refl assms(3,4)] by simp
next
  case (step q r)
  then obtain t where "t \<in> set (p_supports q)" "sup_tokenHash t = h" by (auto simp: supports_forward_def)
  then have "supports_forward h q r" using portal_step_supports [OF step.hyps(2)] by blast
  then have "supports_forward h p r" using step.IH support_after_trans unfolding supports_forward_def by meson
  moreover have "sessions_forward (p_auth p) (p_auth r)"
    using step portal_step_sessions sessions_forward_ok sessions_forward_trans by blast
  ultimately show ?case by blast
qed

lemma support_for_row:
  assumes "support_for k h now p = Some (s, c)"
  shows "s \<in> set (p_supports p)" and "sup_tokenHash s = h" and "sup_adminSessionId s = k" and "now < sup_expiresAt s"
proof -
  have "List.find (support_matches k h now p) (p_supports p) = Some s"
    using assms by (auto simp: support_for_def split: option.splits)
  from find_Some_D [OF this] show "s \<in> set (p_supports p)" "sup_tokenHash s = h" "sup_adminSessionId s = k" "now < sup_expiresAt s"
    by (simp_all add: support_matches_def)
qed

lemma support_authenticated:
  assumes "authenticateCustomerSupportSession env adminToken token now p = (p', Inr access)"
  obtains a1 auth e s c where "authenticateSession env adminToken now (p_auth p) = (a1, Inr (auth, e))"
    and "support_for (ra_sessionId auth) (hashOpaqueToken env token) now (p\<lparr>p_auth := a1\<rparr>) = Some (s, c)"
    and "sa_customerId access = sup_customerId s"
proof -
  obtain a1 r where auth: "authenticateSession env adminToken now (p_auth p) = (a1, r)" by fastforce
  show thesis
  proof (cases r)
    case (Inl e)
    then show thesis using assms auth by (simp add: authenticateCustomerSupportSession_def)
  next
    case (Inr x)
    obtain admin e where x: "x = (admin, e)" by fastforce
    show thesis
      using assms auth Inr x by (auto simp: authenticateCustomerSupportSession_def Let_def result_simps intro: that)
  qed
qed

lemma authenticated_session:
  assumes "authenticateSession env raw now a = (a', Inr (auth, e))"
  obtains s where "find_session (hashOpaqueToken env raw) a = Some s" and "as_id s = ra_sessionId auth" and "as_revokedAt s = None"
  using assms by (auto simp: authenticateSession_def Let_def result_simps split: option.splits if_splits)

text \<open>
  C6: a session in which an administrator acts for a customer ends after a quarter of an hour and with the session
  of the administrator. Whatever requests follow its start, its token is accepted only before the quarter of an hour is over,
  only for that customer, and only together with the token of the session it was started in, which is not revoked.
\<close>

theorem support_access_bounded:
  assumes "start_support_tx env admin customerId reason t token p = Inr (p1, u)" and "sessions_ok (p_auth p)"
    and "portal_steps env p1 p2" and "authenticateCustomerSupportSession env adminToken token now p2 = (p3, Inr access)"
  shows "now < t + 15 * 60 * 1000 \<and> sa_customerId access = customerId \<and>
    (\<exists>s. find_session (hashOpaqueToken env adminToken) (p_auth p2) = Some s \<and> as_id s = ra_sessionId admin \<and> as_revokedAt s = None)"
proof -
  let ?h = "hashOpaqueToken env token"
  obtain row where row: "row = support_row env admin customerId t token (auth_uuid (p_auth p))"
    and rows: "p_supports p1 = p_supports p @ [row]" "\<forall>x \<in> set (p_supports p). sup_tokenHash x \<noteq> ?h"
    and same: "t_sessions (p_auth p1) = t_sessions (p_auth p)"
    using assms(1) by (rule start_support_cases)
  have only: "x = row" if "x \<in> set (p_supports p1)" "sup_tokenHash x = ?h" for x using that rows by auto
  have "sessions_ok (p_auth p1)" "row \<in> set (p_supports p1)" "sup_tokenHash row = ?h"
    using assms(2) same rows(1) by (simp_all add: sessions_ok_def row support_row_def)
  then have "supports_forward ?h p1 p2" using portal_steps_forward [OF assms(3)] by blast
  then have after: "support_after row s" if "s \<in> set (p_supports p2)" "sup_tokenHash s = ?h" for s
    using that only by (auto simp: supports_forward_def)
  obtain a1 auth e s c where auth: "authenticateSession env adminToken now (p_auth p2) = (a1, Inr (auth, e))"
    and s: "support_for (ra_sessionId auth) ?h now (p2\<lparr>p_auth := a1\<rparr>) = Some (s, c)" "sa_customerId access = sup_customerId s"
    using assms(4) by (rule support_authenticated)
  have "s \<in> set (p_supports p2)" "sup_tokenHash s = ?h" "sup_adminSessionId s = ra_sessionId auth" "now < sup_expiresAt s"
    using support_for_row [OF s(1)] by simp_all
  then have bound: "ra_sessionId auth = ra_sessionId admin" "now < t + 15 * 60 * 1000" "sup_customerId s = customerId"
    using after [of s] by (auto simp: support_after_def row support_row_def)
  obtain x where x: "find_session (hashOpaqueToken env adminToken) (p_auth p2) = Some x" "as_id x = ra_sessionId auth"
    "as_revokedAt x = None"
    by (rule authenticated_session [OF auth])
  show ?thesis
    by (intro conjI exI [of _ x] bound(2) x(1) x(3) trans [OF s(2) bound(3)] trans [OF x(2) bound(1)])
qed

section \<open>From a registration to a sign-in\<close>

lemma find_new:
  assumes "\<forall>x \<in> set xs. \<not> P x" and "P y"
  shows "List.find P (xs @ [y]) = Some y"
  using assms find_None_iff_all [of P xs] by (auto simp: find_app)

lemma count_new: "\<forall>x \<in> set xs. \<not> P x \<Longrightarrow> P y \<Longrightarrow> count_where P (xs @ [y]) = 1"
  by (auto simp: count_where_def filter_empty_conv)

lemma pending_login:
  assumes "find_by_email email a = Some u" and "ac_passwordHash u = Some h" and "h \<noteq> []" and "password_verify env h pw"
    and "ac_deletedAt u = None" and "ac_role u = CUSTOMER"
  shows "ac_emailVerifiedAt u = None \<Longrightarrow> login_read env email pw a = Inl (Email_Verification_Required, None)"
    and "ac_emailVerifiedAt u \<noteq> None \<Longrightarrow> ac_status u = User_ACTIVE \<Longrightarrow> login_read env email pw a = Inr (Customer_Login u)"
  using assms by (simp_all add: login_read_def has_password_def)


section \<open>Examples\<close>

definition sample_registration :: registration where
  "sample_registration =
     \<lparr>rn_email = ''c@x'', rn_password = ''pw'', rn_firstName = ''C'', rn_lastName = ''X'', rn_companyName = Some [], rn_phone = None,
      rn_addressLine1 = ''1'', rn_addressLine2 = None, rn_city = ''D'', rn_region = None, rn_postalCode = None,
      rn_countryCode = ''BD'', rn_taxIdentifier = None\<rparr>"

definition sample_portal :: portal where
  "sample_portal = \<lparr>p_auth = sample_reset_db, p_customers = [], p_verifications = [], p_supports = []\<rparr>"

definition sample_registered :: "auth_error + portal \<times> uuid \<times> uuid" where
  "sample_registered = register_tx sample_auth_env sample_registration None 1000 ''v'' sample_portal"

lemma sample_registered_runs:
  "register_tx sample_auth_env sample_registration None 1000 ''v'' sample_portal =
     Inr (fst (projr sample_registered), fst (snd (projr sample_registered)), snd (snd (projr sample_registered)))"
proof -
  have "case sample_registered of Inl _ \<Rightarrow> False | Inr _ \<Rightarrow> True" by code_simp
  from right_eq [OF this] show ?thesis unfolding sample_registered_def [symmetric] by simp
qed


definition sample_supported :: portal where
  \<comment> \<open>a customer that is verified, and a full administrator with a session\<close>
  "sample_supported =
     \<lparr>p_auth = sample_reset_db\<lparr>t_accounts := [sample_admin\<lparr>ac_adminProfile := Some \<lparr>ap_id = ''p1'',
          ap_staffRole = ''FULL_ADMINISTRATOR'', ap_displayName = None\<rparr>\<rparr>, sample_customer_account]\<rparr>,
      p_customers = [(registered_customer sample_registration ''u2'' ''k2'')], p_verifications = [], p_supports = []\<rparr>"

definition sample_supporter :: request_auth where
  "sample_supporter =
     \<lparr>ra_identity = Admin_Identity ''u1'' ''a@x'' ''p1'' None ''FULL_ADMINISTRATOR'' False, ra_sessionId = ''s1''\<rparr>"

definition sample_support :: "auth_error + portal \<times> unit" where
  "sample_support = start_support_tx sample_auth_env sample_supporter ''k2'' ''asked'' 1000 ''w'' sample_supported"

definition sample_access :: "portal \<times> (auth_error + support_access)" where
  "sample_access = authenticateCustomerSupportSession sample_auth_env ''t1'' ''w'' 2000 (fst (projr sample_support))"

lemma right_result_eq: "(case snd x of Inl _ \<Rightarrow> False | Inr _ \<Rightarrow> True) \<Longrightarrow> x = (fst x, Inr (projr (snd x)))"
  by (cases x) (auto split: sum.splits)

lemma sample_support_runs:
  "start_support_tx sample_auth_env sample_supporter ''k2'' ''asked'' 1000 ''w'' sample_supported =
     Inr (fst (projr sample_support), snd (projr sample_support))"
  "authenticateCustomerSupportSession sample_auth_env ''t1'' ''w'' 2000 (fst (projr sample_support)) =
     (fst sample_access, Inr (projr (snd sample_access)))"
proof -
  have "case sample_support of Inl _ \<Rightarrow> False | Inr _ \<Rightarrow> True" by code_simp
  from right_eq [OF this] show "start_support_tx sample_auth_env sample_supporter ''k2'' ''asked'' 1000 ''w'' sample_supported =
     Inr (fst (projr sample_support), snd (projr sample_support))" unfolding sample_support_def [symmetric] .
  have "case snd sample_access of Inl _ \<Rightarrow> False | Inr _ \<Rightarrow> True" by code_simp
  from right_result_eq [OF this] show "authenticateCustomerSupportSession sample_auth_env ''t1'' ''w'' 2000 (fst (projr sample_support)) =
     (fst sample_access, Inr (projr (snd sample_access)))" unfolding sample_access_def [symmetric] .
qed

theorem support_access_bounded_witness:
  "sa_customerId (projr (snd sample_access)) = ''k2'' \<and>
   (\<exists>s. find_session ''t1'' (p_auth (fst (projr sample_support))) = Some s \<and> as_id s = ''s1'' \<and> as_revokedAt s = None)"
proof -
  have "sessions_ok (p_auth sample_supported)" by (simp add: sample_supported_def sample_reset_db_def sessions_ok_def)
  from support_access_bounded [OF sample_support_runs(1) this rtranclp.rtrancl_refl sample_support_runs(2)]
  show ?thesis by (simp add: sample_supporter_def sample_auth_env_def)
qed

end
