(* ===== verification/Registrar.thy ===== *)
theory Registrar
  imports Orders
begin

text \<open>
  Registration of domains (\<^verbatim>\<open>packages/database/src/registrar/processor.ts\<close>, the worker's job, and approval and
  reconciliation in \<^verbatim>\<open>apps/api/src/modules/domains/domain.service.ts\<close>). The registrar is a record of its
  answers; the cipher, the digests and the schemas of configurations are parameters. A job is a transaction that
  claims, the calls of the registrar, and a transaction that records what was observed; steps interleave those of
  any number of jobs.
\<close>

section \<open>Rows\<close>

record registrar_account =
  rga_id :: uuid
  rga_provider :: string
  rga_enabled :: bool
  rga_mode :: string
  rga_configuration :: "json option"

record registrar_credential =
  rgc_id :: uuid
  rgc_accountId :: uuid
  rgc_version :: nat
  rgc_ciphertext :: string

record domain_quote =
  dq_id :: uuid
  dq_contactCiphertext :: string
  dq_fingerprint :: string
  dq_nameservers :: json
  dq_agreement :: string
  dq_selectionSnapshot :: "json option"

record domain_action =
  da_accountId :: uuid
  da_claimedAt :: "instant option"
  da_state :: string

record registrar_profile =
  rpf_accountId :: uuid
  rpf_nativeCostConfirmed :: bool

record registrar_db =
  rd_shared :: db
  rd_accounts :: "registrar_account list"
  rd_credentials :: "registrar_credential list"
  rd_quotes :: "domain_quote list"
  rd_actions :: "domain_action list"
  rd_profiles :: "registrar_profile list"
  rd_evidence :: "(uuid \<times> string) list"

type_synonym 'a registrar_tx = "registrar_db \<Rightarrow> api_error + registrar_db \<times> 'a"

definition domains_of :: "registrar_db \<Rightarrow> registered_domain list" where
  "domains_of r = rg_domains (d_registry (rd_shared r))"

definition operations_of :: "registrar_db \<Rightarrow> registrar_operation list" where
  "operations_of r = rg_operations (d_registry (rd_shared r))"

definition find_registration :: "uuid \<Rightarrow> registrar_db \<Rightarrow> registrar_operation option" where
  "find_registration k r = List.find (\<lambda>p. ro_id p = k) (operations_of r)"

definition find_domain :: "uuid \<Rightarrow> registrar_db \<Rightarrow> registered_domain option" where
  "find_domain k r = List.find (\<lambda>x. dm_id x = k) (domains_of r)"

definition find_registrar :: "uuid \<Rightarrow> registrar_db \<Rightarrow> registrar_account option" where
  "find_registrar k r = List.find (\<lambda>x. rga_id x = k) (rd_accounts r)"

definition find_quote :: "uuid \<Rightarrow> registrar_db \<Rightarrow> domain_quote option" where
  "find_quote k r = List.find (\<lambda>x. dq_id x = k) (rd_quotes r)"

definition find_credential :: "uuid \<Rightarrow> registrar_db \<Rightarrow> registrar_credential option" where
  "find_credential k r = List.find (\<lambda>x. rgc_id x = k) (rd_credentials r)"

definition found :: "'a option \<Rightarrow> api_error + 'a" where
  \<comment> \<open>\<open>findUniqueOrThrow\<close>\<close>
  "found x = of_option Record_Missing x"

definition with_registry :: "(registry \<Rightarrow> registry) \<Rightarrow> registrar_db \<Rightarrow> registrar_db" where
  "with_registry f r = r\<lparr>rd_shared := (rd_shared r)\<lparr>d_registry := f (d_registry (rd_shared r))\<rparr>\<rparr>"

definition set_domain :: "uuid \<Rightarrow> (registered_domain \<Rightarrow> registered_domain) \<Rightarrow> registrar_db \<Rightarrow> registrar_db" where
  "set_domain k f = with_registry (\<lambda>g. g\<lparr>rg_domains := update_many (\<lambda>x. dm_id x = k) f (rg_domains g)\<rparr>)"

definition set_operation :: "uuid \<Rightarrow> (registrar_operation \<Rightarrow> registrar_operation) \<Rightarrow> registrar_db \<Rightarrow> registrar_db" where
  "set_operation k f = with_registry (\<lambda>g. g\<lparr>rg_operations := update_many (\<lambda>x. ro_id x = k) f (rg_operations g)\<rparr>)"

definition evidence :: "uuid \<Rightarrow> string \<Rightarrow> registrar_db \<Rightarrow> registrar_db" where
  "evidence k code r = r\<lparr>rd_evidence := rd_evidence r @ [(k, code)]\<rparr>"

section \<open>A paid invoice\<close>

definition improper_payment :: "invoice \<Rightarrow> payment \<Rightarrow> bool" where
  "improper_payment i p \<longleftrightarrow> p_status p = Pay_SUCCEEDED \<and>
     (p_kind p \<noteq> CHARGE \<or> p_currency p \<noteq> i_currency i \<or> p_verifiedAt p = None)"

definition verified_charge :: "payment \<Rightarrow> bool" where
  "verified_charge p \<longleftrightarrow> p_status p = Pay_SUCCEEDED \<and> p_kind p = CHARGE \<and> p_verifiedAt p \<noteq> None"

definition verifiedDomainInvoice :: "uuid \<Rightarrow> uuid \<Rightarrow> db \<Rightarrow> bool" where
  "verifiedDomainInvoice invoiceId customerId d =
     (case find_invoice invoiceId d of
        None \<Rightarrow> False
      | Some i \<Rightarrow>
        let ps = filter (\<lambda>p. p_invoiceId p = invoiceId) (d_payments d) in
        if i_customerId i \<noteq> customerId \<or> i_status i \<noteq> Inv_PAID \<or> i_currency i \<noteq> ''BDT'' \<or> i_total i \<le> 0 \<or>
           i_balanceDue i \<noteq> 0 \<or> i_amountPaid i \<noteq> i_total i
        then False
        else if list_ex (improper_payment i) ps then False
        else sum_list (map p_amount (filter verified_charge ps)) = i_total i)"

section \<open>The registrar\<close>

record registrar_env =
  re_decrypt :: "string \<Rightarrow> string \<Rightarrow> json option"
    \<comment> \<open>under a binding; nothing when it throws\<close>
  re_contactSchema :: "json \<Rightarrow> json option"
  re_connection :: "json option \<Rightarrow> string option"
    \<comment> \<open>the reseller of a configuration of the newer form\<close>
  re_configuration :: "json option \<Rightarrow> (string \<times> string list) option"
    \<comment> \<open>the reseller and the name servers of one of the older form\<close>
  re_credential :: "json \<Rightarrow> string option"
  re_selection :: "json \<Rightarrow> uuid list option"
    \<comment> \<open>the registrars a customer agreed to\<close>
  re_fingerprint :: "uuid \<Rightarrow> string \<Rightarrow> uuid \<Rightarrow> json \<Rightarrow> string"
  re_simulationAllowed :: bool
  re_liveAllowed :: bool

record registrar_intent =
  in_operationId :: uuid
  in_accountId :: uuid
  in_customerId :: uuid
  in_domainName :: string
  in_nameservers :: "string list"
  in_contact :: json
  in_costCeiling :: int

record quote_answer =
  qa_available :: bool
  qa_costAmount :: int
  qa_costCurrency :: string
  qa_simulated :: bool

datatype observed_state = Obs_Active | Obs_InActive | Obs_Rejected

record observation =
  ob_orderId :: string
  ob_accountId :: uuid
  ob_customerId :: uuid
  ob_operationId :: uuid
  ob_domainName :: string
  ob_state :: observed_state
  ob_expiresAt :: "instant option"
    \<comment> \<open>nothing for a date that is not valid\<close>
  ob_verification :: string

record provider_answers =
  \<comment> \<open>\<open>None\<close> and \<open>False\<close> for a call that throws\<close>
  pv_quote :: "quote_answer option"
  pv_existing :: "observation option option"
  pv_contacts :: bool
  pv_register :: bool
  pv_lookup :: "observation option option"

datatype provider_call =
    Quote_Call string | Lookup_Call registrar_intent | Contacts_Call registrar_intent string
  | Register_Call registrar_intent

definition credentialBinding :: "uuid \<Rightarrow> nat \<Rightarrow> string \<Rightarrow> string" where
  "credentialBinding accountId version mode =
     ''stargate:'' @ accountId @ '':'' @ mode @ '':credential:'' @ show_nat version"

definition contactBinding :: "uuid \<Rightarrow> uuid \<Rightarrow> string \<Rightarrow> string" where
  "contactBinding accountId customerId mode = ''stargate:'' @ accountId @ '':'' @ mode @ '':contact:'' @ customerId"

section \<open>Claiming\<close>

record registration_locator =
  \<comment> \<open>what \<open>process\<close> reads before its transactions\<close>
  lo_domainId :: uuid
  lo_invoiceId :: uuid
  lo_quoteId :: uuid
  lo_orderItemId :: uuid
  lo_selectionFingerprint :: "string option"

definition locate :: "uuid \<Rightarrow> registrar_db \<Rightarrow> api_error + registration_locator option" where
  "locate operationId r =
     (case find_registration operationId r of
        None \<Rightarrow> Inr None
      | Some op \<Rightarrow>
        rbind (found (find_domain (ro_domainId op) r)) (\<lambda>x.
        Inr (case (dm_invoiceId x, dm_quoteId x, dm_orderItemId x) of
               (Some i, Some q, Some k) \<Rightarrow>
                 if dm_origin x = ''EXISTING'' then None
                 else Some \<lparr>lo_domainId = ro_domainId op, lo_invoiceId = i, lo_quoteId = q, lo_orderItemId = k,
                            lo_selectionFingerprint = ro_selectionFingerprint op\<rparr>
             | _ \<Rightarrow> None)))"

definition chosen_account :: "registrar_operation \<Rightarrow> uuid" where
  "chosen_account op = (case ro_selectedAccountId op of Some k \<Rightarrow> k | None \<Rightarrow> ro_accountId op)"

definition chosen_credential :: "registrar_operation \<Rightarrow> uuid" where
  "chosen_credential op = (case ro_selectedCredentialId op of Some k \<Rightarrow> k | None \<Rightarrow> ro_credentialId op)"

definition settled_states :: "string list" where
  "settled_states = [''REGISTERED'', ''FAILED'']"

definition job_stops ::
    "registrar_env \<Rightarrow> registrar_operation \<Rightarrow> registered_domain \<Rightarrow> registrar_account \<Rightarrow> registrar_account \<Rightarrow> instant \<Rightarrow> bool" where
  \<comment> \<open>the first four early returns of the transaction\<close>
  "job_stops env op x acc origin now \<longleftrightarrow>
     rga_mode acc \<noteq> rga_mode origin \<or>
     (ro_selectedAccountId op \<noteq> None \<and> dm_executionAccountId x \<noteq> Some (rga_id acc)) \<or>
     \<not> rga_enabled acc \<or>
     (if rga_mode acc = ''FAKE'' then \<not> re_simulationAllowed env
      else rga_mode acc \<noteq> ''LIVE'' \<or> \<not> re_liveAllowed env \<or> \<not> ro_riskAccepted op) \<or>
     rga_provider acc \<noteq> ''stargate'' \<or> List.member settled_states (dm_state x) \<or>
     10 \<le> ro_pollCount op \<or> (ro_claimedAt op \<noteq> None \<and> now < ro_nextPollAt op) \<or>
     dm_origin x = ''EXISTING'' \<or> dm_quoteId x = None \<or> dm_orderItemId x = None \<or> dm_invoiceId x = None"

fun string_list :: "json list \<Rightarrow> string list option" where
  "string_list [] = Some []"
| "string_list (JStr s # js) = map_option (Cons s) (string_list js)"
| "string_list (_ # js) = None"

definition nameservers_of :: "json \<Rightarrow> string list option" where
  "nameservers_of j = (case j of JArr js \<Rightarrow> string_list js | _ \<Rightarrow> None)"

definition read_intent ::
    "registrar_env \<Rightarrow> registrar_operation \<Rightarrow> registered_domain \<Rightarrow> registrar_account \<Rightarrow> registrar_account \<Rightarrow> domain_quote \<Rightarrow>
     api_error + registrar_intent" where
  "read_intent env op x acc origin q =
     rbind (of_option (Server_Error ''cipher'')
              (re_decrypt env (contactBinding (rga_id origin) (dm_customerId x) (rga_mode origin)) (dq_contactCiphertext q))) (\<lambda>j.
     rbind (of_option (Server_Error ''ZodError'') (re_contactSchema env j)) (\<lambda>contact.
     rbind (of_option (Server_Error ''Registrar nameservers unavailable.'') (nameservers_of (dq_nameservers q))) (\<lambda>ns.
     Inr \<lparr>in_operationId = ro_id op, in_accountId = rga_id acc, in_customerId = dm_customerId x,
          in_domainName = dm_domainName x, in_nameservers = ns, in_contact = contact,
          in_costCeiling = ro_costCeiling op\<rparr>)))"

definition live_reseller :: "registrar_env \<Rightarrow> registrar_account \<Rightarrow> api_error + (string \<times> string list option)" where
  "live_reseller env acc =
     (case re_connection env (rga_configuration acc) of
        Some k \<Rightarrow> Inr (k, None)
      | None \<Rightarrow> rbind (of_option (Server_Error ''ZodError'') (re_configuration env (rga_configuration acc))) (\<lambda>(k, ns).
                Inr (k, Some ns)))"

definition cost_confirmed :: "registrar_env \<Rightarrow> registrar_account \<Rightarrow> registrar_db \<Rightarrow> bool" where
  "cost_confirmed env acc r \<longleftrightarrow>
     re_connection env (rga_configuration acc) = None \<or>
     (case List.find (\<lambda>f. rpf_accountId f = rga_id acc) (rd_profiles r) of
        None \<Rightarrow> False | Some f \<Rightarrow> rpf_nativeCostConfirmed f)"

definition agreed_selection :: "registrar_env \<Rightarrow> domain_quote \<Rightarrow> api_error + uuid list option" where
  "agreed_selection env q =
     (case dq_selectionSnapshot q of
        None \<Rightarrow> Inr None
      | Some s \<Rightarrow> rbind (of_option (Server_Error ''ZodError'') (re_selection env s)) (\<lambda>ks. Inr (Some ks)))"

definition live_ready ::
    "registrar_env \<Rightarrow> registrar_operation \<Rightarrow> registrar_account \<Rightarrow> domain_quote \<Rightarrow> json \<Rightarrow> registrar_intent \<Rightarrow>
     registrar_db \<Rightarrow> api_error + bool" where
  \<comment> \<open>the checks of a live account; false where the job returns\<close>
  "live_ready env op acc q credentials intent r =
     rbind (live_reseller env acc) (\<lambda>(reseller, nameservers).
     if \<not> cost_confirmed env acc r then Inr False
     else
     rbind (agreed_selection env q) (\<lambda>selection.
     rbind (of_option (Server_Error ''ZodError'') (re_credential env credentials)) (\<lambda>payload.
     Inr (payload = reseller \<and> dq_agreement q = ''resellbiz-registration-v1'' \<and>
          (case selection of
             Some ks \<Rightarrow> List.member ks (rga_id acc) \<and> ro_selectedAccountId op \<noteq> None
           | None \<Rightarrow> nameservers = Some (in_nameservers intent))))))"

definition action_outstanding :: "uuid \<Rightarrow> registrar_db \<Rightarrow> bool" where
  "action_outstanding accountId r \<longleftrightarrow>
     list_ex (\<lambda>a. da_accountId a = accountId \<and> da_claimedAt a \<noteq> None \<and>
        \<not> List.member [''SUCCEEDED'', ''CANCELLED'', ''FAILED''] (da_state a)) (rd_actions r)"

definition eligible_approver :: "user option \<Rightarrow> bool" where
  "eligible_approver u \<longleftrightarrow>
     (case u of
        None \<Rightarrow> False
      | Some a \<Rightarrow> u_role a = ADMIN \<and> u_status a = User_ACTIVE \<and> u_deletedAt a = None \<and>
                  u_staffRole a = Some ''FULL_ADMINISTRATOR'' \<and> u_totpEnabledAt a \<noteq> None)"

definition eligible_owner :: "registrar_account \<Rightarrow> uuid \<Rightarrow> db \<Rightarrow> bool" where
  "eligible_owner acc customerId d \<longleftrightarrow>
     (case List.find (\<lambda>c. c_id c = customerId) (d_customers d) of
        None \<Rightarrow> False
      | Some c \<Rightarrow> c_status c = Cust_ACTIVE \<and> c_deletedAt c = None \<and>
          (case List.find (\<lambda>u. u_id u = c_userId c) (d_users d) of
             None \<Rightarrow> False
           | Some u \<Rightarrow> u_status u = User_ACTIVE \<and> (rga_mode acc = ''LIVE'' \<longrightarrow> u_emailVerifiedAt u \<noteq> None) \<and>
                       u_deletedAt u = None))"

definition may_claim ::
    "registrar_operation \<Rightarrow> registered_domain \<Rightarrow> registrar_account \<Rightarrow> order_item \<Rightarrow> db \<Rightarrow> bool" where
  "may_claim op x acc item d \<longleftrightarrow>
     eligible_approver (List.find (\<lambda>u. u_id u = ro_actorUserId op) (d_users d)) \<and>
     eligible_owner acc (dm_customerId x) d \<and>
     (case find_order (oi_orderId item) d of
        None \<Rightarrow> False | Some ord \<Rightarrow> ord_status ord = Ord_PAID \<or> ord_status ord = Ord_PROCESSING) \<and>
     verifiedDomainInvoice (the (dm_invoiceId x)) (dm_customerId x) d"

fun first_unsettled :: "registrar_operation list \<Rightarrow> registrar_db \<Rightarrow> api_error + bool" where
  "first_unsettled [] r = Inr False"
| "first_unsettled (p # ps) r =
     rbind (found (find_domain (ro_domainId p) r)) (\<lambda>x.
     if \<not> List.member settled_states (dm_state x) then Inr True else first_unsettled ps r)"

definition account_busy :: "uuid \<Rightarrow> uuid \<Rightarrow> registrar_db \<Rightarrow> api_error + bool" where
  "account_busy accountId operationId r =
     first_unsettled (filter (\<lambda>p. chosen_account p = accountId \<and> ro_id p \<noteq> operationId \<and> ro_claimedAt p \<noteq> None)
       (operations_of r)) r"

definition claimed :: "instant \<Rightarrow> registrar_operation \<Rightarrow> registrar_operation" where
  "claimed now p = p\<lparr>ro_claimedAt := Some now, ro_pollCount := Suc (ro_pollCount p), ro_nextPollAt := now + 360000\<rparr>"

definition polled :: "instant \<Rightarrow> registrar_operation \<Rightarrow> registrar_operation" where
  "polled now p = p\<lparr>ro_pollCount := Suc (ro_pollCount p), ro_nextPollAt := now + 360000\<rparr>"

definition refuse_claim :: "uuid \<Rightarrow> uuid \<Rightarrow> registrar_db \<Rightarrow> registrar_db" where
  "refuse_claim operationId domainId r =
     evidence operationId ''PAYMENT_OR_OWNER_INELIGIBLE'' (set_domain domainId (\<lambda>x. x\<lparr>dm_state := ''AWAITING_APPROVAL''\<rparr>) r)"

definition make_claim :: "uuid \<Rightarrow> uuid \<Rightarrow> instant \<Rightarrow> registrar_db \<Rightarrow> registrar_db" where
  "make_claim operationId domainId now r =
     evidence operationId ''DISPATCH_CLAIMED''
       (set_domain domainId (\<lambda>x. x\<lparr>dm_state := ''NEEDS_RECONCILIATION''\<rparr>) (set_operation operationId (claimed now) r))"

definition claim ::
    "registrar_operation \<Rightarrow> registered_domain \<Rightarrow> registrar_account \<Rightarrow> instant \<Rightarrow> bool registrar_tx" where
  \<comment> \<open>of an operation that is not claimed: whether it is now\<close>
  "claim op x acc now r =
     (if rga_mode acc = ''LIVE'' \<and> action_outstanding (rga_id acc) r then Inr (r, False)
      else
        rbind (found (find_order_item (the (dm_orderItemId x)) (rd_shared r))) (\<lambda>item.
        if \<not> may_claim op x acc item (rd_shared r) then Inr (refuse_claim (ro_id op) (dm_id x) r, False)
        else if action_outstanding (rga_id acc) r then Inr (r, False)
        else rbind (account_busy (rga_id acc) (ro_id op) r) (\<lambda>busy.
             if busy then Inr (r, False) else Inr (make_claim (ro_id op) (dm_id x) now r, True))))"

record registration_preparation =
  pn_intent :: registrar_intent
  pn_mode :: string
  pn_dispatch :: bool

definition prepared ::
    "registrar_env \<Rightarrow> registrar_operation \<Rightarrow> registered_domain \<Rightarrow> registrar_account \<Rightarrow> registrar_account \<Rightarrow> registrar_db \<Rightarrow>
     api_error + registrar_intent option" where
  \<comment> \<open>what is read of the quote and the credentials; nothing where the job returns\<close>
  "prepared env op x acc origin r =
     rbind (found (find_quote (the (dm_quoteId x)) r)) (\<lambda>q.
     rbind (found (find_credential (chosen_credential op) r)) (\<lambda>c.
     if rgc_accountId c \<noteq> rga_id acc then Inr None
     else
     rbind (of_option (Server_Error ''cipher'')
              (re_decrypt env (credentialBinding (rga_id acc) (rgc_version c) (rga_mode acc)) (rgc_ciphertext c))) (\<lambda>credentials.
     rbind (read_intent env op x acc origin q) (\<lambda>intent.
     if rga_mode acc = ''LIVE''
     then rbind (live_ready env op acc q credentials intent r) (\<lambda>ready. Inr (if ready then Some intent else None))
     else Inr (Some intent)))))"

definition take_up ::
    "registrar_operation \<Rightarrow> registered_domain \<Rightarrow> registrar_account \<Rightarrow> registrar_intent \<Rightarrow> instant \<Rightarrow> registration_preparation option registrar_tx" where
  \<comment> \<open>the first job of an operation claims it; later ones only reserve a time to look\<close>
  "take_up op x acc intent now r =
     (if ro_claimedAt op = None
      then rbind (claim op x acc now r) (\<lambda>(r1, won).
           Inr (r1, if won then Some \<lparr>pn_intent = intent, pn_mode = rga_mode acc, pn_dispatch = True\<rparr> else None))
      else Inr (set_operation (ro_id op) (polled now) r,
                Some \<lparr>pn_intent = intent, pn_mode = rga_mode acc, pn_dispatch = False\<rparr>))"

definition prepare_tx :: "registrar_env \<Rightarrow> uuid \<Rightarrow> instant \<Rightarrow> registration_preparation option registrar_tx" where
  "prepare_tx env operationId now r =
     rbind (found (find_registration operationId r)) (\<lambda>op.
     rbind (found (find_domain (ro_domainId op) r)) (\<lambda>x.
     rbind (found (find_registrar (chosen_account op) r)) (\<lambda>acc.
     rbind (found (find_registrar (ro_accountId op) r)) (\<lambda>origin.
     if job_stops env op x acc origin now then Inr (r, None)
     else
     rbind (prepared env op x acc origin r) (\<lambda>ready.
     case ready of None \<Rightarrow> Inr (r, None) | Some intent \<Rightarrow> take_up op x acc intent now r)))))"

section \<open>Calling the registrar\<close>

definition quote_conflict :: "registrar_intent \<Rightarrow> string \<Rightarrow> quote_answer \<Rightarrow> observation option \<Rightarrow> bool" where
  "quote_conflict intent mode q existing \<longleftrightarrow>
     existing \<noteq> None \<or> \<not> qa_available q \<or> qa_costCurrency q \<noteq> ''USD'' \<or> qa_simulated q \<noteq> (mode = ''FAKE'') \<or>
     in_costCeiling intent < qa_costAmount q \<or> qa_costAmount q \<le> 0"

definition contact_fingerprint :: "registration_locator \<Rightarrow> registrar_db \<Rightarrow> string option" where
  "contact_fingerprint loc r =
     (case lo_selectionFingerprint loc of
        Some f \<Rightarrow> Some f | None \<Rightarrow> map_option dq_fingerprint (find_quote (lo_quoteId loc) r))"

definition dispatch ::
    "registration_locator \<Rightarrow> registration_preparation \<Rightarrow> provider_answers \<Rightarrow> registrar_db \<Rightarrow> registrar_db \<times> provider_call list \<times> bool" where
  \<comment> \<open>the calls made, and whether the job goes on\<close>
  "dispatch loc pn ans r =
     (let intent = pn_intent pn; k = in_operationId intent; uncertain = evidence k ''MUTATION_OUTCOME_UNCERTAIN'' r;
          quoted = [Quote_Call (in_domainName intent)] in
      case pv_quote ans of
        None \<Rightarrow> (uncertain, quoted, True)
      | Some q \<Rightarrow>
        let looked = quoted @ [Lookup_Call intent] in
        case pv_existing ans of
          None \<Rightarrow> (uncertain, looked, True)
        | Some existing \<Rightarrow>
          if quote_conflict intent (pn_mode pn) q existing
          then (evidence k ''PRE_DISPATCH_CONFLICT'' r, looked, False)
          else (case contact_fingerprint loc r of
                  None \<Rightarrow> (uncertain, looked, True)
                | Some f \<Rightarrow>
                  let contacted = looked @ [Contacts_Call intent f] in
                  if \<not> pv_contacts ans then (uncertain, contacted, True)
                  else if \<not> pv_register ans then (uncertain, contacted @ [Register_Call intent], True)
                  else (evidence k ''MUTATION_RESPONSE_RECEIVED'' r, contacted @ [Register_Call intent], True)))"

section \<open>Recording what was observed\<close>

definition matching :: "registrar_intent \<Rightarrow> observation option \<Rightarrow> instant \<Rightarrow> observation option" where
  "matching intent seen now =
     (case seen of
        None \<Rightarrow> None
      | Some b \<Rightarrow>
        if ob_accountId b = in_accountId intent \<and> ob_customerId b = in_customerId intent \<and>
           ob_operationId b = in_operationId intent \<and> ob_domainName b = in_domainName intent \<and>
           (case ob_expiresAt b of None \<Rightarrow> False | Some t \<Rightarrow> now < t)
        then Some b else None)"

definition observed_domain_state :: "observation option \<Rightarrow> string" where
  "observed_domain_state m =
     (case map_option ob_state m of
        Some Obs_Active \<Rightarrow> ''REGISTERED'' | Some Obs_Rejected \<Rightarrow> ''FAILED'' | _ \<Rightarrow> ''NEEDS_RECONCILIATION'')"

definition poll_delay :: "nat \<Rightarrow> int" where
  "poll_delay n = (if n = 1 then 15 else if n = 2 then 30 else 360) * 1000"

definition observed_domain :: "observation option \<Rightarrow> registered_domain \<Rightarrow> registered_domain" where
  "observed_domain m x =
     (let y = x\<lparr>dm_state := observed_domain_state m\<rparr>
      in case m of
           Some b \<Rightarrow> if ob_state b = Obs_Active
                     then y\<lparr>dm_providerOrderId := Some (ob_orderId b), dm_expiresAt := ob_expiresAt b,
                            dm_verification := ob_verification b\<rparr>
                     else y
         | None \<Rightarrow> y)"

definition provider_order_taken :: "registered_domain \<Rightarrow> registrar_db \<Rightarrow> bool" where
  \<comment> \<open>the unique index over the executing account and its order\<close>
  "provider_order_taken y r \<longleftrightarrow>
     dm_providerOrderId y \<noteq> None \<and>
     list_ex (\<lambda>z. dm_id z \<noteq> dm_id y \<and> dm_providerOrderId z = dm_providerOrderId y \<and>
       (case dm_executionAccountId z of Some k \<Rightarrow> k | None \<Rightarrow> dm_accountId z) =
       (case dm_executionAccountId y of Some k \<Rightarrow> k | None \<Rightarrow> dm_accountId y)) (domains_of r)"

definition observed_code :: "string \<Rightarrow> string" where
  "observed_code state =
     (if state = ''REGISTERED'' then ''OWNERSHIP_AND_EXPIRY_CONFIRMED''
      else if state = ''FAILED'' then ''PROVIDER_REJECTED'' else ''MANUAL_RECONCILIATION_REQUIRED'')"

definition fulfil_order :: "uuid \<Rightarrow> instant \<Rightarrow> unit registrar_tx" where
  "fulfil_order orderItemId now r =
     rbind (found (find_order_item orderItemId (rd_shared r))) (\<lambda>item.
     rbind (if orderFulfillmentComplete (oi_orderId item) (rd_shared r)
            then update_order (oi_orderId item) Ord_COMPLETED (\<lambda>x. x\<lparr>ord_completedAt := Some now\<rparr>) now (rd_shared r)
            else update_order (oi_orderId item) Ord_PROCESSING (\<lambda>x. x) now (rd_shared r)) (\<lambda>(d, _).
     Inr (r\<lparr>rd_shared := d\<rparr>, ())))"

definition finish_tx ::
    "uuid \<Rightarrow> registration_locator \<Rightarrow> registrar_intent \<Rightarrow> observation option \<Rightarrow> instant \<Rightarrow> unit registrar_tx" where
  "finish_tx operationId loc intent seen now r =
     rbind (found (find_registration operationId r)) (\<lambda>op.
     rbind (found (find_domain (lo_domainId loc) r)) (\<lambda>x.
     if List.member settled_states (dm_state x) then Inr (r, ())
     else
       let m = matching intent seen now; state = observed_domain_state m;
           r1 = set_operation operationId (\<lambda>p. p\<lparr>ro_nextPollAt := now + poll_delay (ro_pollCount op)\<rparr>) r in
       if provider_order_taken (observed_domain m x) r1 then Inl Unique_Violation
       else
         let r2 = evidence operationId (observed_code state) (set_domain (lo_domainId loc) (observed_domain m) r1)
         in if state = ''REGISTERED'' then fulfil_order (lo_orderItemId loc) now r2 else Inr (r2, ())))"

section \<open>The job\<close>

definition observe ::
    "uuid \<Rightarrow> registration_locator \<Rightarrow> registrar_intent \<Rightarrow> provider_answers \<Rightarrow> instant \<Rightarrow> registrar_db \<Rightarrow>
     registrar_db \<times> (api_error + unit)" where
  "observe operationId loc intent ans now r =
     (case pv_lookup ans of
        None \<Rightarrow> (evidence operationId ''READ_OUTCOME_UNCERTAIN'' r, Inr ())
      | Some seen \<Rightarrow> (case finish_tx operationId loc intent seen now r of
                       Inl e \<Rightarrow> (r, Inl e) | Inr (r1, _) \<Rightarrow> (r1, Inr ())))"

definition process_registration ::
    "registrar_env \<Rightarrow> uuid \<Rightarrow> provider_answers \<Rightarrow> instant \<Rightarrow> instant \<Rightarrow> registrar_db \<Rightarrow>
     registrar_db \<times> provider_call list \<times> (api_error + unit)" where
  "process_registration env operationId ans now later r =
     (case locate operationId r of
        Inl e \<Rightarrow> (r, [], Inl e)
      | Inr None \<Rightarrow> (r, [], Inr ())
      | Inr (Some loc) \<Rightarrow>
        (case prepare_tx env operationId now r of
           Inl e \<Rightarrow> (r, [], Inl e)
         | Inr (r1, None) \<Rightarrow> (r1, [], Inr ())
         | Inr (r1, Some pn) \<Rightarrow>
           (case (if pn_dispatch pn then dispatch loc pn ans r1 else (r1, [], True)) of
              (r2, calls, False) \<Rightarrow> (r2, calls, Inr ())
            | (r2, calls, True) \<Rightarrow>
              (case observe operationId loc (pn_intent pn) ans later r2 of
                 (r3, res) \<Rightarrow> (r3, calls @ [Lookup_Call (pn_intent pn)], res)))))"

section \<open>Approval\<close>

record registrar_admin =
  rm_userId :: uuid
  rm_role :: user_role
  rm_staffRole :: "string option"
  rm_twoFactorEnabled :: bool

record approval_input =
  ai_confirmation :: string
  ai_costCeiling :: int
  ai_acceptPriceChangeRisk :: bool
  ai_registrarAccountId :: "uuid option"

definition requireSimulation :: "registrar_env \<Rightarrow> api_error + unit" where
  "requireSimulation env =
     require (re_simulationAllowed env) (Service_Unavailable ''Simulated registrar writes are disabled in production.'')"

definition requireRuntime :: "registrar_env \<Rightarrow> api_error + unit" where
  "requireRuntime env =
     (if \<not> re_simulationAllowed env \<and> \<not> re_liveAllowed env then requireSimulation env else Inr ())"

definition requireRegistrar :: "registrar_env \<Rightarrow> registrar_account \<Rightarrow> api_error + unit" where
  \<comment> \<open>\<open>requireAccount\<close>\<close>
  "requireRegistrar env acc =
     rbind (if rga_mode acc = ''FAKE'' then requireSimulation env
            else require (rga_mode acc = ''LIVE'' \<and> re_liveAllowed env)
                   (Service_Unavailable ''Live registrar networking is disabled by the installation.'')) (\<lambda>_.
     require (rga_enabled acc) (Conflict ''The registrar is disabled.''))"

definition domain_administrator :: "registrar_admin \<Rightarrow> api_error + unit" where
  "domain_administrator auth =
     require (rm_role auth = ADMIN \<and> rm_staffRole auth = Some ''FULL_ADMINISTRATOR'' \<and> rm_twoFactorEnabled auth)
       (Forbidden ''A full administrator with two-factor authentication is required.'')"

definition latest_credential :: "uuid \<Rightarrow> registrar_db \<Rightarrow> registrar_credential option" where
  "latest_credential accountId r =
     (case rev (sort_key rgc_version (filter (\<lambda>c. rgc_accountId c = accountId) (rd_credentials r))) of
        [] \<Rightarrow> None | c # _ \<Rightarrow> Some c)"

record approval_plan =
  \<comment> \<open>what \<open>approve\<close> read before its transaction\<close>
  an_domain :: registered_domain
  an_quote :: domain_quote
  an_selection :: "uuid list option"
  an_accountId :: uuid
  an_origin :: registrar_account
  an_credentialId :: uuid

definition approve_checks ::
    "registrar_env \<Rightarrow> approval_input \<Rightarrow> registered_domain \<Rightarrow> domain_quote \<Rightarrow> api_error + uuid list option \<times> uuid" where
  \<comment> \<open>the registrars the customer agreed to and the one that is selected\<close>
  "approve_checks env input x q =
     rbind (agreed_selection env q) (\<lambda>selection.
     let selected = (case ai_registrarAccountId input of Some k \<Rightarrow> k | None \<Rightarrow> dm_accountId x) in
     if selection \<noteq> None \<and> ai_registrarAccountId input = None
     then Inl (Conflict ''Select and review the registrar before approval.'')
     else if \<not> List.member (case selection of Some ks \<Rightarrow> ks | None \<Rightarrow> [dm_accountId x]) selected
     then Inl (Conflict ''This registrar was not included in the customer consent. Request new customer consent, not an automatic provider switch.'')
     else Inr (selection, selected))"

definition approve_read ::
    "registrar_env \<Rightarrow> uuid \<Rightarrow> approval_input \<Rightarrow> registrar_admin \<Rightarrow> api_error + quote_answer \<Rightarrow> registrar_db \<Rightarrow>
     api_error + approval_plan" where
  \<comment> \<open>the answer of \<open>quoteFrom\<close> is an argument\<close>
  "approve_read env k input auth answer r =
     rbind (requireRuntime env) (\<lambda>_.
     rbind (domain_administrator auth) (\<lambda>_.
     rbind (found (find_domain k r)) (\<lambda>x.
     if dm_origin x = ''EXISTING'' \<or> dm_quoteId x = None \<or> dm_invoiceId x = None
     then Inl (Conflict ''An existing domain cannot be registered or purchased through approval.'')
     else if ai_confirmation input \<noteq> dm_domainName x then Inl (Conflict ''Type the exact domain name to approve.'')
     else
     rbind (found (find_quote (the (dm_quoteId x)) r)) (\<lambda>q.
     rbind (approve_checks env input x q) (\<lambda>(selection, selected).
     rbind (found (find_registrar selected r)) (\<lambda>acc.
     rbind (requireRegistrar env acc) (\<lambda>_.
     rbind (found (find_registrar (dm_accountId x) r)) (\<lambda>origin.
     if rga_mode acc \<noteq> rga_mode origin
     then Inl (Conflict ''Simulation and live registrar accounts cannot be mixed.'')
     else
     rbind (found (latest_credential selected r)) (\<lambda>c.
     if rga_mode acc = ''LIVE'' \<and> \<not> ai_acceptPriceChangeRisk input
     then Inl (Conflict ''Confirm the real purchase and non-atomic provider price-change risk.'')
     else
     rbind answer (\<lambda>cost.
     if \<not> qa_available cost \<or> ai_costCeiling input < qa_costAmount cost
     then Inl (Conflict ''Availability or the approved native cost ceiling changed.'')
     else Inr \<lparr>an_domain = x, an_quote = q, an_selection = selection, an_accountId = selected, an_origin = origin,
               an_credentialId = rgc_id c\<rparr>))))))))))"

definition operation_of_domain :: "uuid \<Rightarrow> registrar_db \<Rightarrow> registrar_operation option" where
  "operation_of_domain k r = List.find (\<lambda>p. ro_domainId p = k) (operations_of r)"

definition new_operation ::
    "registrar_env \<Rightarrow> approval_plan \<Rightarrow> approval_input \<Rightarrow> registrar_admin \<Rightarrow> registrar_account \<Rightarrow> registered_domain \<Rightarrow>
     uuid \<Rightarrow> uuid \<Rightarrow> json \<Rightarrow> instant \<Rightarrow> uuid \<Rightarrow> registrar_operation" where
  "new_operation env plan input auth acc x credentialId selectedCredentialId contact now k =
     \<lparr>ro_id = k, ro_domainId = dm_id x, ro_accountId = dm_accountId x, ro_credentialId = credentialId,
      ro_selectedAccountId = (if an_selection plan = None then None else Some (an_accountId plan)),
      ro_selectedCredentialId = (if an_selection plan = None then None else Some selectedCredentialId),
      ro_selectionFingerprint =
        (if an_selection plan = None then None
         else Some (re_fingerprint env (an_accountId plan) (rga_mode acc) (dm_customerId x) contact)),
      ro_actorUserId = rm_userId auth, ro_costCeiling = ai_costCeiling input,
      ro_riskAccepted = (rga_mode acc = ''LIVE'' \<and> ai_acceptPriceChangeRisk input), ro_claimedAt = None,
      ro_nextPollAt = now, ro_pollCount = 0\<rparr>"

definition use_id :: "registrar_db \<Rightarrow> registrar_db" where
  "use_id r = r\<lparr>rd_shared := (rd_shared r)\<lparr>d_supply := Suc (d_supply (rd_shared r))\<rparr>\<rparr>"

definition create_registration :: "registrar_operation \<Rightarrow> registrar_db \<Rightarrow> registrar_db" where
  "create_registration p r = use_id (with_registry (\<lambda>g. g\<lparr>rg_operations := rg_operations g @ [p]\<rparr>) r)"

definition registrar_outbox :: "instant \<Rightarrow> uuid \<Rightarrow> string \<Rightarrow> string \<Rightarrow> unit registrar_tx" where
  \<comment> \<open>the key ends with an identifier drawn for it\<close>
  "registrar_outbox now operationId eventType name r =
     rbind (create_outbox now ''REGISTRAR_OPERATION'' operationId eventType
              (name @ operationId @ '':'' @ fresh_uuid (rd_shared r))
              (JObj [(''schemaVersion'', JNum 1), (''operationId'', JStr operationId)]) (rd_shared (use_id r))) (\<lambda>(d, u).
     Inr (r\<lparr>rd_shared := d\<rparr>, u))"

definition approved :: "approval_plan \<Rightarrow> uuid \<Rightarrow> uuid \<Rightarrow> instant \<Rightarrow> unit registrar_tx" where
  \<comment> \<open>the writes that end the transaction\<close>
  "approved plan domainId operationId now r =
     registrar_outbox now operationId ''DOMAIN_REGISTRATION_REQUESTED'' ''domain-registration:''
       (evidence operationId ''FULL_ADMIN_MFA_APPROVED''
         (set_domain domainId (\<lambda>x. x\<lparr>dm_state := ''PENDING'', dm_executionAccountId :=
              (if an_selection plan = None then dm_executionAccountId x else Some (an_accountId plan))\<rparr>) r))"

definition approve_registration_tx ::
    "registrar_env \<Rightarrow> uuid \<Rightarrow> approval_input \<Rightarrow> registrar_admin \<Rightarrow> approval_plan \<Rightarrow> instant \<Rightarrow> unit registrar_tx" where
  "approve_registration_tx env k input auth plan now r =
     rbind (found (find_domain k r)) (\<lambda>x.
     if dm_invoiceId x = None \<or> dm_origin x = ''EXISTING''
     then Inl (Conflict ''Registration billing records are unavailable.'')
     else
     rbind (found (find_registrar (an_accountId plan) r)) (\<lambda>acc.
     rbind (requireRegistrar env acc) (\<lambda>_.
     if \<not> verifiedDomainInvoice (the (dm_invoiceId x)) (dm_customerId x) (rd_shared r)
     then Inl (Conflict ''A fully verified, unadjusted BDT payment is required.'')
     else if Option.bind (operation_of_domain k r) ro_claimedAt \<noteq> None
     then Inl (Conflict ''This operation is already claimed. Use read-only reconciliation.'')
     else
     rbind (found (latest_credential (dm_accountId x) r)) (\<lambda>c.
     rbind (found (latest_credential (an_accountId plan) r)) (\<lambda>sc.
     if rgc_id sc \<noteq> an_credentialId plan
     then Inl (Conflict ''Registrar credentials changed during approval. Review again.'')
     else
     if (case operation_of_domain k r of None \<Rightarrow> False | Some p \<Rightarrow> chosen_account p \<noteq> an_accountId plan)
     then Inl (Conflict ''The approved registrar cannot be changed. Reconcile this request instead.'')
     else
     rbind (of_option (Server_Error ''cipher'')
              (re_decrypt env (contactBinding (dm_accountId (an_domain plan)) (dm_customerId (an_domain plan))
                 (rga_mode (an_origin plan))) (dq_contactCiphertext (an_quote plan)))) (\<lambda>contact.
     case operation_of_domain k r of
       Some p \<Rightarrow>
         if ro_costCeiling p \<noteq> ai_costCeiling input
         then Inl (Conflict ''The approved cost ceiling cannot be changed on an existing operation.'')
         else approved plan k (ro_id p) now r
     | None \<Rightarrow>
       let n = fresh_uuid (rd_shared r)
       in approved plan k n now
            (create_registration (new_operation env plan input auth acc x (rgc_id c) (rgc_id sc) contact now n) r)))))))"

definition approve_registration ::
    "registrar_env \<Rightarrow> uuid \<Rightarrow> approval_input \<Rightarrow> registrar_admin \<Rightarrow> api_error + quote_answer \<Rightarrow> instant \<Rightarrow>
     registrar_db \<Rightarrow> registrar_db \<times> (api_error + unit)" where
  "approve_registration env k input auth answer now r =
     (case approve_read env k input auth answer r of
        Inl e \<Rightarrow> (r, Inl e)
      | Inr plan \<Rightarrow> (case approve_registration_tx env k input auth plan now r of
                      Inl e \<Rightarrow> (r, Inl e) | Inr (r1, u) \<Rightarrow> (r1, Inr u)))"

definition reconcile ::
    "registrar_env \<Rightarrow> uuid \<Rightarrow> registrar_admin \<Rightarrow> instant \<Rightarrow> unit registrar_tx" where
  "reconcile env k auth now r =
     rbind (requireRuntime env) (\<lambda>_.
     rbind (domain_administrator auth) (\<lambda>_.
     case operation_of_domain k r of
       None \<Rightarrow> Inl (Conflict ''Only a claimed operation can be reconciled; this action cannot register.'')
     | Some p \<Rightarrow>
       rbind (found (find_registrar (chosen_account p) r)) (\<lambda>acc.
       rbind (requireRegistrar env acc) (\<lambda>_.
       if ro_claimedAt p = None
       then Inl (Conflict ''Only a claimed operation can be reconciled; this action cannot register.'')
       else if 10 \<le> ro_pollCount p \<or> now < ro_nextPollAt p
       then Inl (Conflict ''The read-only polling budget is exhausted or not yet available.'')
       else registrar_outbox now (ro_id p) ''DOMAIN_REGISTRATION_RECONCILE'' ''domain-reconcile:'' r))))"

section \<open>Jobs that interleave\<close>

datatype registrar_run =
    Dispatching registration_locator registration_preparation | Observing uuid registration_locator registrar_intent

record registrar_state =
  rs_db :: registrar_db
  rs_runs :: "registrar_run list"
  rs_sent :: "uuid list"
    \<comment> \<open>the operations whose registration was sent to the registrar\<close>

fun registrations :: "provider_call list \<Rightarrow> uuid list" where
  "registrations [] = []"
| "registrations (Register_Call i # cs) = in_operationId i # registrations cs"
| "registrations (_ # cs) = registrations cs"

definition is_claimed :: "uuid \<Rightarrow> registrar_db \<Rightarrow> bool" where
  "is_claimed k r \<longleftrightarrow> Option.bind (find_registration k r) ro_claimedAt \<noteq> None"

definition claims_kept :: "registrar_db \<Rightarrow> registrar_db \<Rightarrow> bool" where
  \<comment> \<open>what the trigger on registrar operations allows\<close>
  "claims_kept r r' \<longleftrightarrow> (\<forall>k. is_claimed k r \<longrightarrow> is_claimed k r')"

definition next_run :: "uuid \<Rightarrow> registration_locator \<Rightarrow> registration_preparation \<Rightarrow> registrar_run" where
  "next_run k loc pn = (if pn_dispatch pn then Dispatching loc pn else Observing k loc (pn_intent pn))"

inductive registrar_step :: "registrar_env \<Rightarrow> registrar_state \<Rightarrow> registrar_state \<Rightarrow> bool" for env where
  \<comment> \<open>what a job located before its transaction is arbitrary here\<close>
  run_prepared: "prepare_tx env k now (rs_db s) = Inr (r, Some pn) \<Longrightarrow>
    registrar_step env s (s\<lparr>rs_db := r, rs_runs := rs_runs s @ [next_run k loc pn]\<rparr>)"
| run_stopped: "prepare_tx env k now (rs_db s) = Inr (r, None) \<Longrightarrow> registrar_step env s (s\<lparr>rs_db := r\<rparr>)"
| run_dispatched: "Dispatching loc pn \<in> set (rs_runs s) \<Longrightarrow> dispatch loc pn ans (rs_db s) = (r, calls, on) \<Longrightarrow>
    registrar_step env s (s\<lparr>rs_db := r, rs_sent := rs_sent s @ registrations calls,
      rs_runs := remove1 (Dispatching loc pn) (rs_runs s) @
        (if on then [Observing (in_operationId (pn_intent pn)) loc (pn_intent pn)] else [])\<rparr>)"
| run_broken_off: "Dispatching loc pn \<in> set (rs_runs s) \<Longrightarrow> dispatch loc pn ans (rs_db s) = (r, calls, on) \<Longrightarrow>
    registrar_step env s (s\<lparr>rs_sent := rs_sent s @ registrations (take n calls),
      rs_runs := remove1 (Dispatching loc pn) (rs_runs s)\<rparr>)"
    \<comment> \<open>the worker stops in the middle of its calls\<close>
| run_observed: "Observing k loc intent \<in> set (rs_runs s) \<Longrightarrow>
    registrar_step env s (s\<lparr>rs_db := fst (observe k loc intent ans now (rs_db s)),
      rs_runs := remove1 (Observing k loc intent) (rs_runs s)\<rparr>)"
| registration_approved: "approve_registration_tx env k input auth plan now (rs_db s) = Inr (r, u) \<Longrightarrow> registrar_step env s (s\<lparr>rs_db := r\<rparr>)"
| reconciliation_asked: "reconcile env k auth now (rs_db s) = Inr (r, u) \<Longrightarrow> registrar_step env s (s\<lparr>rs_db := r\<rparr>)"
| others_registered: "claims_kept (rs_db s) r \<Longrightarrow> registrar_step env s (s\<lparr>rs_db := r\<rparr>)"

abbreviation registrar_steps :: "registrar_env \<Rightarrow> registrar_state \<Rightarrow> registrar_state \<Rightarrow> bool" where
  "registrar_steps env \<equiv> (registrar_step env)\<^sup>*\<^sup>*"

section \<open>Claims are kept\<close>

lemma registry_reads [simp]:
  "operations_of (evidence k c r) = operations_of r" "operations_of (set_domain k f r) = operations_of r"
  "operations_of (use_id r) = operations_of r" "operations_of (r\<lparr>rd_evidence := es\<rparr>) = operations_of r"
  "domains_of (evidence k c r) = domains_of r" "domains_of (set_operation k g r) = domains_of r"
  "domains_of (use_id r) = domains_of r"
  by (simp_all add: operations_of_def domains_of_def evidence_def set_domain_def set_operation_def with_registry_def use_id_def)

lemma operations_set: "operations_of (set_operation k f r) = update_many (\<lambda>x. ro_id x = k) f (operations_of r)"
  by (simp add: operations_of_def set_operation_def with_registry_def)

lemma domains_set: "domains_of (set_domain k f r) = update_many (\<lambda>x. dm_id x = k) f (domains_of r)"
  by (simp add: domains_of_def set_domain_def with_registry_def)

lemma is_claimed_same: "operations_of r' = operations_of r \<Longrightarrow> is_claimed k r' = is_claimed k r"
  by (simp add: is_claimed_def find_registration_def)

lemma claims_kept_same: "operations_of r' = operations_of r \<Longrightarrow> claims_kept r r'"
  unfolding claims_kept_def using is_claimed_same by blast

lemma claims_kept_trans: "claims_kept r s \<Longrightarrow> claims_kept s t \<Longrightarrow> claims_kept r t"
  by (simp add: claims_kept_def)

lemma find_set_operation:
  assumes "\<And>p. ro_id (f p) = ro_id p"
  shows "find_registration k (set_operation k' f r) =
    (if k = k' then map_option f (find_registration k r) else find_registration k r)"
  unfolding find_registration_def operations_set by (rule find_update_many_key [where key = ro_id]) (rule assms)

lemma claims_kept_set:
  assumes "\<And>p. ro_id (f p) = ro_id p" and "\<And>p. ro_claimedAt p \<noteq> None \<Longrightarrow> ro_claimedAt (f p) \<noteq> None"
  shows "claims_kept r (set_operation k f r)"
proof -
  have "is_claimed j (set_operation k f r)" if "is_claimed j r" for j
  proof -
    obtain op where "find_registration j r = Some op" "ro_claimedAt op \<noteq> None"
      using \<open>is_claimed j r\<close> by (auto simp: is_claimed_def bind_eq_Some_conv)
    then show ?thesis using assms(2) [of op] by (cases "j = k") (simp_all add: is_claimed_def find_set_operation [of f, OF assms(1)])
  qed
  then show ?thesis by (simp add: claims_kept_def)
qed

lemma claims_kept_create: "claims_kept r (create_registration p r)"
proof -
  have "operations_of (create_registration p r) = operations_of r @ [p]"
    by (simp add: create_registration_def operations_of_def use_id_def with_registry_def)
  then show ?thesis
    by (auto simp: claims_kept_def is_claimed_def find_registration_def find_app bind_eq_Some_conv)
qed

lemma outbox_registry:
  "create_outbox now t k e key v d = Inr (d', u) \<Longrightarrow> d_registry d' = d_registry d"
  by (auto simp: create_outbox_def split: if_splits)

lemma registrar_outbox_reads:
  assumes "registrar_outbox now k e n r = Inr (r', u)"
  shows "operations_of r' = operations_of r" and "domains_of r' = domains_of r" and "rd_accounts r' = rd_accounts r"
    and "d_users (rd_shared r') = d_users (rd_shared r)"
proof -
  obtain d where d: "create_outbox now ''REGISTRAR_OPERATION'' k e (n @ k @ '':'' @ fresh_uuid (rd_shared r))
      (JObj [(''schemaVersion'', JNum 1), (''operationId'', JStr k)]) (rd_shared (use_id r)) = Inr (d, ())"
    and r': "r' = r\<lparr>rd_shared := d\<rparr>"
    using assms by (auto simp: registrar_outbox_def result_simps)
  then have "d_registry d = d_registry (rd_shared r)" "d_users d = d_users (rd_shared r)"
    using outbox_registry [OF d] by (auto simp: create_outbox_def use_id_def split: if_splits)
  then show "operations_of r' = operations_of r" "domains_of r' = domains_of r" "rd_accounts r' = rd_accounts r"
    "d_users (rd_shared r') = d_users (rd_shared r)"
    by (simp_all add: r' operations_of_def domains_of_def)
qed

lemma claim_cases:
  assumes "claim op x acc now r = Inr (r', b)"
  obtains (kept) "r' = r" and "\<not> b" | (refused) "r' = refuse_claim (ro_id op) (dm_id x) r" and "\<not> b"
  | (won) item where "r' = make_claim (ro_id op) (dm_id x) now r" and b and "may_claim op x acc item (rd_shared r)"
      and "account_busy (rga_id acc) (ro_id op) r = Inr False"
  using assms by (auto simp: claim_def found_def result_simps split: if_splits)

lemma claiming_cases:
  assumes "prepare_tx env k now r = Inr (r', res)"
  obtains (stopped) "r' = r" and "res = None"
  | (taken) op x acc origin intent where "find_registration k r = Some op" and "find_domain (ro_domainId op) r = Some x"
    and "find_registrar (chosen_account op) r = Some acc"
    and "prepared env op x acc origin r = Inr (Some intent)" and "take_up op x acc intent now r = Inr (r', res)"
proof -
  obtain op x acc origin where rows: "find_registration k r = Some op" "find_domain (ro_domainId op) r = Some x"
    "find_registrar (chosen_account op) r = Some acc" "find_registrar (ro_accountId op) r = Some origin"
    using assms by (auto simp: prepare_tx_def found_def result_simps)
  show thesis
  proof (cases "job_stops env op x acc origin now")
    case True
    then show thesis using assms rows by (intro stopped) (simp_all add: prepare_tx_def found_def)
  next
    case False
    then obtain ready where ready: "prepared env op x acc origin r = Inr ready"
      using assms rows by (auto simp: prepare_tx_def found_def result_simps)
    show thesis
    proof (cases ready)
      case None
      then show thesis using assms rows False ready by (intro stopped) (simp_all add: prepare_tx_def found_def)
    next
      case (Some intent)
      then show thesis using assms rows False ready by (intro taken [OF rows(1-3)]) (simp_all add: prepare_tx_def found_def)
    qed
  qed
qed

lemma prepared_intent:
  "prepared env op x acc origin r = Inr (Some intent) \<Longrightarrow>
    in_operationId intent = ro_id op \<and> in_domainName intent = dm_domainName x \<and> in_costCeiling intent = ro_costCeiling op \<and>
    in_accountId intent = rga_id acc \<and> in_customerId intent = dm_customerId x"
  by (auto simp: prepared_def read_intent_def found_def result_simps split: if_splits)

lemma take_up_cases:
  assumes "take_up op x acc intent now r = Inr (r', res)"
  obtains (not_won) "ro_claimedAt op = None" and "claims_kept r r'" and "res = None"
  | (won) item where "ro_claimedAt op = None" and "r' = make_claim (ro_id op) (dm_id x) now r"
      and "may_claim op x acc item (rd_shared r)" and "account_busy (rga_id acc) (ro_id op) r = Inr False"
      and "res = Some \<lparr>pn_intent = intent, pn_mode = rga_mode acc, pn_dispatch = True\<rparr>"
  | (poll) "ro_claimedAt op \<noteq> None" and "r' = set_operation (ro_id op) (polled now) r"
      and "res = Some \<lparr>pn_intent = intent, pn_mode = rga_mode acc, pn_dispatch = False\<rparr>"
proof (cases "ro_claimedAt op")
  case None
  then obtain b where b: "claim op x acc now r = Inr (r', b)"
    "res = (if b then Some \<lparr>pn_intent = intent, pn_mode = rga_mode acc, pn_dispatch = True\<rparr> else None)"
    using assms by (auto simp: take_up_def result_simps)
  from b(1) show thesis
  proof (cases rule: claim_cases)
    case kept
    then show thesis using None b(2) claims_kept_same by (intro not_won) auto
  next
    case refused
    then show thesis using None b(2) by (intro not_won) (auto simp: refuse_claim_def intro: claims_kept_same)
  next
    case (won item)
    then show thesis using None b(2) that(2) by simp
  qed
next
  case (Some t)
  then show thesis using assms by (intro poll) (auto simp: take_up_def)
qed

lemma claimed_simps [simp]: "ro_id (claimed now p) = ro_id p" "ro_claimedAt (claimed now p) = Some now"
  "ro_id (polled now p) = ro_id p" "ro_claimedAt (polled now p) = ro_claimedAt p"
  by (simp_all add: claimed_def polled_def)

lemma find_registration_id: "find_registration k r = Some op \<Longrightarrow> ro_id op = k"
  by (auto simp: find_registration_def dest: find_Some_D)

lemma make_claim_claims:
  assumes "find_registration k r = Some op"
  shows "claims_kept r (make_claim k j now r)" and "is_claimed k (make_claim k j now r)"
proof -
  have same: "operations_of (make_claim k j now r) = operations_of (set_operation k (claimed now) r)" by (simp add: make_claim_def)
  show "claims_kept r (make_claim k j now r)"
    by (rule claims_kept_trans [OF claims_kept_set claims_kept_same [OF same]]) simp_all
  have "is_claimed k (set_operation k (claimed now) r)" using assms by (simp add: is_claimed_def find_set_operation)
  then show "is_claimed k (make_claim k j now r)" using is_claimed_same [OF same] by simp
qed

lemma prepare_claims:
  assumes "prepare_tx env k now r = Inr (r', res)"
  shows "claims_kept r r'" and "res = Some pn \<Longrightarrow> in_operationId (pn_intent pn) = k"
    and "res = Some pn \<Longrightarrow> pn_dispatch pn \<Longrightarrow> \<not> is_claimed k r \<and> is_claimed k r'"
proof -
  have "claims_kept r r' \<and> (\<forall>pn. res = Some pn \<longrightarrow> in_operationId (pn_intent pn) = k \<and>
      (pn_dispatch pn \<longrightarrow> \<not> is_claimed k r \<and> is_claimed k r'))"
    using assms
  proof (cases rule: claiming_cases)
    case stopped
    then show ?thesis using claims_kept_same by simp
  next
    case (taken op x acc origin intent)
    have id: "ro_id op = k" "in_operationId intent = k"
      using find_registration_id [OF taken(1)] prepared_intent [OF taken(4)] by simp_all
    from taken(5) show ?thesis
    proof (cases rule: take_up_cases)
      case not_won
      then show ?thesis by simp
    next
      case (won item)
      then show ?thesis using make_claim_claims [OF taken(1), of "dm_id x" now] id taken(1) by (simp add: is_claimed_def)
    next
      case poll
      then show ?thesis using id claims_kept_set [where f = "polled now" and k = k and r = r] by simp
    qed
  qed
  then show "claims_kept r r'" "res = Some pn \<Longrightarrow> in_operationId (pn_intent pn) = k"
    "res = Some pn \<Longrightarrow> pn_dispatch pn \<Longrightarrow> \<not> is_claimed k r \<and> is_claimed k r'"
    by blast+
qed

lemma dispatch_calls:
  assumes "dispatch loc pn ans r = (r', calls, on)"
  shows "operations_of r' = operations_of r" and "domains_of r' = domains_of r"
    and "registrations calls = [] \<or> registrations calls = [in_operationId (pn_intent pn)]"
    and "registrations (take n calls) = [] \<or> registrations (take n calls) = [in_operationId (pn_intent pn)]"
  using assms
  by (auto simp: dispatch_def Let_def take_Cons' split: option.splits if_splits)

lemma fulfil_order_reads:
  assumes "fulfil_order k now r = Inr (r', u)"
  shows "operations_of r' = operations_of r" and "domains_of r' = domains_of r"
  using assms
  by (auto simp: fulfil_order_def found_def update_order_def result_simps operations_of_def domains_of_def split: if_splits)

lemma finish_cases:
  assumes "finish_tx k loc intent seen now r = Inr (r', u)"
  obtains (settled) x where "find_domain (lo_domainId loc) r = Some x" and "List.member settled_states (dm_state x)" and "r' = r"
  | (recorded) op x m where "find_registration k r = Some op" and "find_domain (lo_domainId loc) r = Some x"
      and "\<not> List.member settled_states (dm_state x)" and "m = matching intent seen now"
      and "operations_of r' = operations_of (set_operation k (\<lambda>p. p\<lparr>ro_nextPollAt := now + poll_delay (ro_pollCount op)\<rparr>) r)"
      and "domains_of r' = domains_of (set_domain (lo_domainId loc) (observed_domain m) r)"
proof -
  obtain op x where rows: "find_registration k r = Some op" "find_domain (lo_domainId loc) r = Some x"
    using assms by (auto simp: finish_tx_def found_def result_simps)
  let ?m = "matching intent seen now"
  let ?r1 = "set_operation k (\<lambda>p. p\<lparr>ro_nextPollAt := now + poll_delay (ro_pollCount op)\<rparr>) r"
  let ?r2 = "evidence k (observed_code (observed_domain_state ?m)) (set_domain (lo_domainId loc) (observed_domain ?m) ?r1)"
  show thesis
  proof (cases "List.member settled_states (dm_state x)")
    case True
    then show thesis using assms rows by (intro settled) (simp_all add: finish_tx_def found_def)
  next
    case False
    then have "(if observed_domain_state ?m = ''REGISTERED'' then fulfil_order (lo_orderItemId loc) now ?r2 else Inr (?r2, ())) = Inr (r', u)"
      using assms rows by (auto simp: finish_tx_def found_def Let_def split: if_splits)
    then have "operations_of r' = operations_of ?r2" "domains_of r' = domains_of ?r2"
      using fulfil_order_reads by (auto split: if_splits)
    then show thesis by (intro recorded [OF rows False refl]) (simp_all add: domains_set)
  qed
qed

lemma finish_claims:
  assumes "finish_tx k loc intent seen now r = Inr (r', u)"
  shows "claims_kept r r'"
  using assms
proof (cases rule: finish_cases)
  case (recorded op x m)
  then show ?thesis
    by (intro claims_kept_trans [OF claims_kept_set claims_kept_same [OF recorded(5)]]) simp_all
qed (simp_all add: claims_kept_same)

lemma observe_claims: "claims_kept r (fst (observe k loc intent ans now r))"
  by (auto simp: observe_def claims_kept_same split: option.splits sum.splits intro: finish_claims)

lemma approved_reads:
  assumes "approved plan k n now r = Inr (r', u)"
  shows "operations_of r' = operations_of r" and "rd_accounts r' = rd_accounts r"
    and "d_users (rd_shared r') = d_users (rd_shared r)"
  using registrar_outbox_reads [OF assms [unfolded approved_def]]
  by (simp_all add: evidence_def set_domain_def with_registry_def operations_of_def)

lemma approve_cases:
  assumes "approve_registration_tx env k input auth plan now r = Inr (r', u)"
  obtains (again) p where "operation_of_domain k r = Some p" and "approved plan k (ro_id p) now r = Inr (r', u)"
      and "ro_claimedAt p = None"
  | (new) n p where "operation_of_domain k r = None" and "approved plan k n now (create_registration p r) = Inr (r', u)"
  using assms
  by (cases "operation_of_domain k r") (auto simp: approve_registration_tx_def found_def result_simps Let_def split: if_splits)

lemma approve_claims:
  assumes "approve_registration_tx env k input auth plan now r = Inr (r', u)"
  shows "claims_kept r r'"
  using assms
proof (cases rule: approve_cases)
  case (again p)
  then show ?thesis using claims_kept_same [OF approved_reads(1)] by blast
next
  case (new n p)
  then show ?thesis using claims_kept_trans [OF claims_kept_create claims_kept_same [OF approved_reads(1)]] by blast
qed

lemma reconcile_claims: "reconcile env k auth now r = Inr (r', u) \<Longrightarrow> claims_kept r r'"
  by (auto simp: reconcile_def found_def result_simps split: option.splits if_splits
      intro!: claims_kept_same dest: registrar_outbox_reads(1))

section \<open>A registration is sent once\<close>

fun run_sends :: "uuid \<Rightarrow> registrar_run \<Rightarrow> bool" where
  "run_sends k (Dispatching loc pn) \<longleftrightarrow> in_operationId (pn_intent pn) = k"
| "run_sends k (Observing j loc intent) \<longleftrightarrow> False"

definition sends :: "uuid \<Rightarrow> registrar_state \<Rightarrow> nat" where
  \<comment> \<open>those that were sent and those that may still be\<close>
  "sends k s = count_list (rs_sent s) k + count_where (run_sends k) (rs_runs s)"

definition sends_ok :: "registrar_state \<Rightarrow> bool" where
  "sends_ok s \<longleftrightarrow> (\<forall>k. sends k s \<le> 1 \<and> (sends k s = 1 \<longrightarrow> is_claimed k (rs_db s)))"

lemma sends_okI:
  assumes "sends_ok s" and "claims_kept (rs_db s) (rs_db t)" and "\<And>k. sends k t \<le> sends k s"
  shows "sends_ok t"
  using assms unfolding sends_ok_def claims_kept_def by (metis le_antisym le_less_linear less_one order_trans zero_neq_one)

lemma count_remove: "x \<in> set xs \<Longrightarrow> count_where P (remove1 x xs) + (if P x then 1 else 0) = count_where P xs"
  by (induction xs) auto

lemma count_where_append: "count_where P (xs @ ys) = count_where P xs + count_where P ys"
  by (simp add: count_where_def)

lemma registrar_step_sends:
  assumes "registrar_step env s t" and ok: "sends_ok s"
  shows "sends_ok t"
  using assms(1)
proof (cases rule: registrar_step.cases)
  case (run_prepared k now r pn loc)
  note claims = prepare_claims(1) [OF run_prepared(2)] and id = prepare_claims(2) [OF run_prepared(2) refl]
  show ?thesis
  proof (cases "pn_dispatch pn")
    case True
    then have new: "\<not> is_claimed k (rs_db s)" "is_claimed k r" using prepare_claims(3) [OF run_prepared(2) refl] by simp_all
    have "sends j t = sends j s + (if j = k then 1 else 0)" for j
      using True id by (auto simp: run_prepared(1) sends_def next_run_def count_where_append)
    moreover have "sends k s = 0" using ok new(1) unfolding sends_ok_def by (metis le_neq_implies_less less_one)
    ultimately show ?thesis
      using ok new(2) claims by (auto simp: sends_ok_def claims_kept_def run_prepared(1))
  next
    case False
    then show ?thesis
      by (intro sends_okI [OF ok]) (simp_all add: run_prepared(1) claims sends_def next_run_def count_where_append)
  qed
next
  case (run_stopped k now r)
  then show ?thesis using prepare_claims(1) by (intro sends_okI [OF ok]) (auto simp: sends_def)
next
  case (run_dispatched loc pn ans r calls on)
  have "sends j t \<le> sends j s" for j
    using dispatch_calls(3) [OF run_dispatched(3)] count_remove [OF run_dispatched(2), of "run_sends j"]
    by (auto simp: run_dispatched(1) sends_def count_where_append split: if_splits)
  then show ?thesis
    by (intro sends_okI [OF ok]) (simp_all add: run_dispatched(1) claims_kept_same dispatch_calls(1) [OF run_dispatched(3)])
next
  case (run_broken_off loc pn ans r calls on n)
  have "sends j t \<le> sends j s" for j
    using dispatch_calls(4) [OF run_broken_off(3), of n] count_remove [OF run_broken_off(2), of "run_sends j"]
    by (auto simp: run_broken_off(1) sends_def split: if_splits)
  then show ?thesis by (intro sends_okI [OF ok]) (simp_all add: run_broken_off(1) claims_kept_same)
next
  case (run_observed k loc intent ans now)
  have "sends j t \<le> sends j s" for j
    using count_remove [OF run_observed(2), of "run_sends j"] by (simp add: run_observed(1) sends_def)
  then show ?thesis by (intro sends_okI [OF ok]) (simp_all add: run_observed(1) observe_claims)
next
  case (registration_approved k input auth plan now r u)
  then show ?thesis using approve_claims by (intro sends_okI [OF ok]) (auto simp: sends_def)
next
  case (reconciliation_asked k auth now r u)
  then show ?thesis using reconcile_claims by (intro sends_okI [OF ok]) (auto simp: sends_def)
next
  case (others_registered r)
  then show ?thesis by (intro sends_okI [OF ok]) (auto simp: sends_def)
qed

lemma registrar_steps_sends: "registrar_steps env s t \<Longrightarrow> sends_ok s \<Longrightarrow> sends_ok t"
  by (induction rule: rtranclp_induct) (auto intro: registrar_step_sends)

text \<open>
  C10: however the jobs, their retries, crashes of the worker, approvals and reconciliations interleave, the registration of one
  operation is sent to the registrar at most once.
\<close>

theorem registration_sent_once:
  assumes "registrar_steps env s t" and "rs_runs s = []" and "rs_sent s = []"
  shows "count_list (rs_sent t) k \<le> 1"
proof -
  have "sends_ok s" using assms(2,3) by (simp add: sends_ok_def sends_def)
  then have "sends_ok t" by (rule registrar_steps_sends [OF assms(1)])
  then have "sends k t \<le> 1" by (simp add: sends_ok_def)
  then show ?thesis by (simp add: sends_def)
qed

section \<open>What is sent and what is recorded\<close>

lemma dispatch_register:
  assumes "dispatch loc pn ans r = (r', calls, on)" and "Register_Call i \<in> set calls"
  obtains q where "i = pn_intent pn" and "pv_quote ans = Some q" and "pv_existing ans = Some None"
    and "\<not> quote_conflict i (pn_mode pn) q None"
  using assms
  by (auto simp: dispatch_def Let_def quote_conflict_def split: option.splits if_splits)

lemma process_register:
  assumes "process_registration env k ans now later r = (r', calls, res)" and "Register_Call i \<in> set calls"
  obtains loc r1 pn r2 cs on where "prepare_tx env k now r = Inr (r1, Some pn)" and "pn_dispatch pn"
    and "dispatch loc pn ans r1 = (r2, cs, on)" and "Register_Call i \<in> set cs"
  using assms
  by (auto simp: process_registration_def split: sum.splits option.splits prod.splits bool.splits if_splits)

text \<open>
  C11: a job sends a registration only for an approved operation that no job has claimed, of a domain whose invoice is paid in full and
  verified, whose approver is an active full administrator with a second factor, after the registrar has quoted, in US dollars, a
  price above zero and within the approved ceiling for a name that is available and that it does not hold yet.
\<close>

theorem registration_sent_when_due:
  assumes "process_registration env k ans now later r = (r', calls, res)" and "Register_Call i \<in> set calls"
  shows "\<exists>op x q. find_registration k r = Some op \<and> ro_claimedAt op = None \<and> find_domain (ro_domainId op) r = Some x \<and>
    in_operationId i = k \<and> in_domainName i = dm_domainName x \<and>
    verifiedDomainInvoice (the (dm_invoiceId x)) (dm_customerId x) (rd_shared r) \<and>
    eligible_approver (List.find (\<lambda>u. u_id u = ro_actorUserId op) (d_users (rd_shared r))) \<and>
    pv_quote ans = Some q \<and> qa_available q \<and> qa_costCurrency q = ''USD'' \<and> 0 < qa_costAmount q \<and>
    qa_costAmount q \<le> ro_costCeiling op \<and> pv_existing ans = Some None"
  using assms
proof (rule process_register)
  fix loc r1 pn r2 cs on
  assume prep: "prepare_tx env k now r = Inr (r1, Some pn)" and pn: "pn_dispatch pn"
    and disp: "dispatch loc pn ans r1 = (r2, cs, on)" "Register_Call i \<in> set cs"
  obtain q where q: "i = pn_intent pn" "pv_quote ans = Some q" "pv_existing ans = Some None" "\<not> quote_conflict i (pn_mode pn) q None"
    by (rule dispatch_register [OF disp])
  from prep show ?thesis
  proof (cases rule: claiming_cases)
    case stopped
    then show ?thesis by simp
  next
    case (taken op x acc origin intent)
    from taken(5) show ?thesis
    proof (cases rule: take_up_cases)
      case (won item)
      then have "i = intent" using q(1) by simp
      then show ?thesis
        using won taken q prepared_intent [OF taken(4)] find_registration_id [OF taken(1)]
        by (auto simp: may_claim_def quote_conflict_def not_le not_less)
    qed (use pn in auto)
  qed
qed

lemma find_set_domain:
  assumes "\<And>x. dm_id (f x) = dm_id x"
  shows "List.find (\<lambda>x. dm_id x = j) (domains_of (set_domain k f r)) = (if j = k then map_option f (find_domain j r) else find_domain j r)"
  unfolding find_domain_def domains_set by (rule find_update_many_key [where key = dm_id]) (rule assms)

lemma observed_domain_id: "dm_id (observed_domain m x) = dm_id x"
  by (simp add: observed_domain_def Let_def split: option.splits)

lemma observed_domain_registered:
  assumes "dm_state (observed_domain m x) = ''REGISTERED''"
  obtains b where "m = Some b" and "ob_state b = Obs_Active" and "dm_expiresAt (observed_domain m x) = ob_expiresAt b"
    and "dm_providerOrderId (observed_domain m x) = Some (ob_orderId b)"
  using assms
  by (cases m) (auto simp: observed_domain_def observed_domain_state_def Let_def split: observed_state.splits)

lemma matching_cases:
  assumes "matching intent seen now = Some b"
  obtains t where "seen = Some b" and "ob_operationId b = in_operationId intent" and "ob_domainName b = in_domainName intent"
    and "ob_accountId b = in_accountId intent" and "ob_customerId b = in_customerId intent" and "ob_expiresAt b = Some t" and "now < t"
  using assms by (auto simp: matching_def split: option.splits if_splits)

text \<open>
  C12: a domain becomes registered only by what the registrar shows. If what a job observed leaves a domain registered that was not,
  it is the domain of the job, and the registrar has answered that it is active, under the account, for the customer, by
  the operation and under the name of the job, and not expired; its order and its expiry are then those of the row. Any other
  domain is left as it was, and so is a domain that is settled.
\<close>

theorem registered_only_when_observed:
  assumes "observe k loc intent ans now r = (r', res)" and "find_domain j r = Some x" and "find_domain j r' = Some y"
  shows "y = x \<or> (j = lo_domainId loc \<and> \<not> List.member settled_states (dm_state x) \<and>
    (dm_state y = ''REGISTERED'' \<longrightarrow>
      (\<exists>b t. pv_lookup ans = Some (Some b) \<and> ob_state b = Obs_Active \<and> ob_operationId b = in_operationId intent \<and>
         ob_domainName b = in_domainName intent \<and> ob_accountId b = in_accountId intent \<and>
         ob_customerId b = in_customerId intent \<and> ob_expiresAt b = Some t \<and> now < t \<and>
         dm_expiresAt y = Some t \<and> dm_providerOrderId y = Some (ob_orderId b))))"
proof (cases "\<exists>seen r1. pv_lookup ans = Some seen \<and> finish_tx k loc intent seen now r = Inr (r1, ())")
  case False
  then have "domains_of r' = domains_of r"
    using assms(1) by (auto simp: observe_def split: option.splits sum.splits)
  then show ?thesis using assms(2,3) by (simp add: find_domain_def)
next
  case True
  then obtain seen where seen: "pv_lookup ans = Some seen" and run: "finish_tx k loc intent seen now r = Inr (r', ())"
    using assms(1) by (auto simp: observe_def)
  from run show ?thesis
  proof (cases rule: finish_cases)
    case (settled z)
    then show ?thesis using assms(2,3) by simp
  next
    case (recorded op z m)
    have y: "Some y = (if j = lo_domainId loc then map_option (observed_domain m) (find_domain j r) else find_domain j r)"
      using assms(3) find_set_domain [of "observed_domain m" j "lo_domainId loc" r, OF observed_domain_id] recorded(6)
      by (simp add: find_domain_def)
    show ?thesis
    proof (cases "j = lo_domainId loc")
      case False
      then show ?thesis using y assms(2) by simp
    next
      case True
      then have y': "y = observed_domain m x" "z = x" using y assms(2) recorded(2) by simp_all
      have "\<exists>b t. seen = Some b \<and> ob_state b = Obs_Active \<and> ob_operationId b = in_operationId intent \<and>
         ob_domainName b = in_domainName intent \<and> ob_accountId b = in_accountId intent \<and> ob_customerId b = in_customerId intent \<and>
         ob_expiresAt b = Some t \<and> now < t \<and> dm_expiresAt y = Some t \<and> dm_providerOrderId y = Some (ob_orderId b)"
        if "dm_state y = ''REGISTERED''"
      proof -
        obtain b where b: "m = Some b" "ob_state b = Obs_Active" "dm_expiresAt y = ob_expiresAt b" "dm_providerOrderId y = Some (ob_orderId b)"
          using \<open>dm_state y = ''REGISTERED''\<close> unfolding y'(1) by (rule observed_domain_registered)
        obtain t where "seen = Some b" "ob_operationId b = in_operationId intent" "ob_domainName b = in_domainName intent"
          "ob_accountId b = in_accountId intent" "ob_customerId b = in_customerId intent" "ob_expiresAt b = Some t" "now < t"
          by (rule matching_cases [OF recorded(4) [symmetric, unfolded b(1)]])
        then show ?thesis using b by auto
      qed
      then show ?thesis using True recorded(3) y'(2) seen by simp
    qed
  qed
qed

section \<open>Approving again\<close>

lemma take_up_eligible:
  assumes "take_up op x acc intent now r = Inr (r', Some pn)" and "ro_claimedAt op = None"
  shows "eligible_approver (List.find (\<lambda>u. u_id u = ro_actorUserId op) (d_users (rd_shared r)))"
  using assms(1)
proof (cases rule: take_up_cases)
  case (won item)
  then show ?thesis by (simp add: may_claim_def)
qed (use assms(2) in simp_all)

text \<open>
  C23: an operation belongs to whoever approved it first. When that administrator may no longer approve, another full
  administrator can approve the operation again, and the approval is recorded, but it changes no operation, and whatever job runs on
  it does not get to the registrar.
\<close>

theorem reapproval_keeps_approver:
  assumes "operation_of_domain k r = Some p" and "distinct (map ro_id (operations_of r))"
    and "approve_registration_tx env k input auth plan now r = Inr (r1, u)"
    and "\<not> eligible_approver (List.find (\<lambda>a. u_id a = ro_actorUserId p) (d_users (rd_shared r)))"
  shows "operations_of r1 = operations_of r \<and>
    (case prepare_tx env' (ro_id p) later r1 of Inl _ \<Rightarrow> True | Inr (r2, res) \<Rightarrow> res = None)"
proof -
  from assms(3) have same: "operations_of r1 = operations_of r" "d_users (rd_shared r1) = d_users (rd_shared r)" "ro_claimedAt p = None"
    by (cases rule: approve_cases; use assms(1) approved_reads in auto)+
  have "p \<in> set (operations_of r)" using assms(1) by (auto simp: operation_of_domain_def dest: find_Some_D)
  then have p: "find_registration (ro_id p) r1 = Some p"
    using find_key_eq [OF assms(2)] by (simp add: find_registration_def same(1))
  have "res = None" if "prepare_tx env' (ro_id p) later r1 = Inr (r2, res)" for r2 res
    using that
  proof (cases rule: claiming_cases)
    case (taken op x acc origin intent)
    have "op = p" using taken(1) p by simp
    then show ?thesis using take_up_eligible [of op x acc intent later r1 r2] taken(5) same assms(4) by (cases res) simp_all
  qed simp
  then show ?thesis using same(1) by (auto split: sum.splits)
qed

section \<open>Witnesses\<close>

definition sample_registrar_env :: registrar_env where
  "sample_registrar_env = \<lparr>re_decrypt = (\<lambda>_ _. Some JNull), re_contactSchema = Some, re_connection = (\<lambda>_. None),
     re_configuration = (\<lambda>_. None), re_credential = (\<lambda>_. None), re_selection = (\<lambda>_. None),
     re_fingerprint = (\<lambda>_ _ _ _. ''f''), re_simulationAllowed = True, re_liveAllowed = False\<rparr>"

definition sample_approver :: "uuid \<Rightarrow> string \<Rightarrow> user" where
  "sample_approver k staffRole = sample_user\<lparr>u_id := k, u_role := ADMIN, u_staffRole := Some staffRole, u_totpEnabledAt := Some 0\<rparr>"

definition sample_charge :: payment where
  "sample_charge =
     \<lparr>p_id = ''p'', p_invoiceId = ''i'', p_originalPaymentId = None, p_createdByUserId = None,
      p_reviewedByUserId = None, p_kind = CHARGE, p_status = Pay_SUCCEEDED, p_provider = ''manual'',
      p_providerTransactionId = None, p_idempotencyKey = ''k'', p_amount = 250, p_currency = ''BDT'',
      p_reference = None, p_checkoutUrl = None, p_sessionExpiresAt = None, p_manualMethod = None,
      p_proofMetadata = None, p_failureReason = None, p_receivedAt = Some 3, p_reviewedAt = Some 3,
      p_verifiedAt = Some 3\<rparr>"

definition sample_domain :: registered_domain where
  "sample_domain =
     \<lparr>dm_id = ''dm'', dm_quoteId = Some ''q'', dm_customerId = ''c'', dm_accountId = ''ra'', dm_executionAccountId = None,
      dm_orderItemId = Some ''oi'', dm_invoiceId = Some ''i'', dm_origin = ''REGISTRATION'', dm_ownershipVerifiedAt = None,
      dm_linkEvidence = None, dm_domainName = ''a.b'', dm_state = ''PENDING'', dm_verification = ''PENDING'',
      dm_providerOrderId = None, dm_expiresAt = None\<rparr>"

definition sample_operation :: registrar_operation where
  "sample_operation =
     \<lparr>ro_id = ''op'', ro_domainId = ''dm'', ro_accountId = ''ra'', ro_credentialId = ''rc'', ro_selectedAccountId = None,
      ro_selectedCredentialId = None, ro_selectionFingerprint = None, ro_actorUserId = ''admin'', ro_costCeiling = 900,
      ro_riskAccepted = False, ro_claimedAt = None, ro_nextPollAt = 0, ro_pollCount = 0\<rparr>"

definition sample_quote :: domain_quote where
  "sample_quote = \<lparr>dq_id = ''q'', dq_contactCiphertext = ''x'', dq_fingerprint = ''f'', dq_nameservers = JArr [JStr ''ns1.b''],
     dq_agreement = ''resellbiz-registration-v1'', dq_selectionSnapshot = None\<rparr>"

definition sample_registry :: "string \<Rightarrow> registrar_db" where
  \<comment> \<open>a paid order of a domain whose registration an administrator with the given role has approved\<close>
  "sample_registry staffRole =
     \<lparr>rd_shared = empty_db\<lparr>d_users := [sample_user, sample_approver ''admin'' staffRole], d_customers := [sample_customer],
        d_invoices := [(sample_invoice Inv_PAID 250)\<lparr>i_amountPaid := 250, i_balanceDue := 0, i_paidAt := Some 3\<rparr>],
        d_payments := [sample_charge], d_orders := [sample_order Ord_PAID], d_orderItems := [sample_order_item\<lparr>oi_kind := Kind_DOMAIN\<rparr>],
        d_registry := \<lparr>rg_domains = [sample_domain], rg_operations = [sample_operation], rg_existingOrders = []\<rparr>, d_supply := 7\<rparr>,
      rd_accounts = [\<lparr>rga_id = ''ra'', rga_provider = ''stargate'', rga_enabled = True, rga_mode = ''FAKE'', rga_configuration = None\<rparr>],
      rd_credentials = [\<lparr>rgc_id = ''rc'', rgc_accountId = ''ra'', rgc_version = 1, rgc_ciphertext = ''x''\<rparr>],
      rd_quotes = [sample_quote], rd_actions = [], rd_profiles = [], rd_evidence = []\<rparr>"

definition sample_observation :: observation where
  "sample_observation = \<lparr>ob_orderId = ''77'', ob_accountId = ''ra'', ob_customerId = ''c'', ob_operationId = ''op'',
     ob_domainName = ''a.b'', ob_state = Obs_Active, ob_expiresAt = Some 5000, ob_verification = ''VERIFIED''\<rparr>"

definition sample_provider :: provider_answers where
  "sample_provider = \<lparr>pv_quote = Some \<lparr>qa_available = True, qa_costAmount = 800, qa_costCurrency = ''USD'', qa_simulated = True\<rparr>,
     pv_existing = Some None, pv_contacts = True, pv_register = True, pv_lookup = Some (Some sample_observation)\<rparr>"

definition sample_locator :: registration_locator where
  "sample_locator = \<lparr>lo_domainId = ''dm'', lo_invoiceId = ''i'', lo_quoteId = ''q'', lo_orderItemId = ''oi'',
     lo_selectionFingerprint = None\<rparr>"

definition sample_intent :: registrar_intent where
  "sample_intent = \<lparr>in_operationId = ''op'', in_accountId = ''ra'', in_customerId = ''c'', in_domainName = ''a.b'',
     in_nameservers = [''ns1.b''], in_contact = JNull, in_costCeiling = 900\<rparr>"

lemma sample_prepared:
  "case prepare_tx sample_registrar_env ''op'' 9 (sample_registry ''FULL_ADMINISTRATOR'') of
     Inr (r, Some pn) \<Rightarrow> pn_dispatch pn \<and>
       (case dispatch sample_locator pn sample_provider r of (r', calls, on) \<Rightarrow> registrations calls = [''op''])
   | _ \<Rightarrow> False"
  by code_simp

theorem registration_sent_once_witness:
  "\<exists>t. registrar_steps sample_registrar_env \<lparr>rs_db = sample_registry ''FULL_ADMINISTRATOR'', rs_runs = [], rs_sent = []\<rparr> t \<and>
     rs_sent t = [''op''] \<and> count_list (rs_sent t) ''op'' \<le> 1"
proof -
  let ?s = "\<lparr>rs_db = sample_registry ''FULL_ADMINISTRATOR'', rs_runs = [], rs_sent = []\<rparr>"
  obtain r pn r' calls on where run: "prepare_tx sample_registrar_env ''op'' 9 (rs_db ?s) = Inr (r, Some pn)" "pn_dispatch pn"
    and sent: "dispatch sample_locator pn sample_provider r = (r', calls, on)" "registrations calls = [''op'']"
    using sample_prepared by (auto split: sum.splits option.splits)
  let ?s1 = "?s\<lparr>rs_db := r, rs_runs := rs_runs ?s @ [next_run ''op'' sample_locator pn]\<rparr>"
  have first: "registrar_step sample_registrar_env ?s ?s1" by (rule run_prepared [OF run(1)])
  have "Dispatching sample_locator pn \<in> set (rs_runs ?s1)" "dispatch sample_locator pn sample_provider (rs_db ?s1) = (r', calls, on)"
    using run(2) sent(1) by (simp_all add: next_run_def)
  then obtain t where second: "registrar_step sample_registrar_env ?s1 t" "rs_sent t = [''op'']"
    using run_dispatched [of sample_locator pn ?s1 sample_provider r' calls on sample_registrar_env] sent(2) by auto
  have steps: "registrar_steps sample_registrar_env ?s t" using first second(1) by simp
  then show ?thesis using registration_sent_once [OF steps, of "''op''"] second(2) by auto
qed

lemma registrations_call: "k \<in> set (registrations cs) \<Longrightarrow> \<exists>i. Register_Call i \<in> set cs \<and> in_operationId i = k"
  by (induction cs rule: registrations.induct) auto

theorem registration_sent_when_due_witness:
  "case process_registration sample_registrar_env ''op'' sample_provider 9 20 (sample_registry ''FULL_ADMINISTRATOR'') of
     (r', calls, res) \<Rightarrow> \<exists>i. Register_Call i \<in> set calls \<and> in_domainName i = ''a.b'' \<and>
       verifiedDomainInvoice ''i'' ''c'' (rd_shared (sample_registry ''FULL_ADMINISTRATOR''))"
proof -
  let ?run = "process_registration sample_registrar_env ''op'' sample_provider 9 20 (sample_registry ''FULL_ADMINISTRATOR'')"
  obtain r' calls res where run: "?run = (r', calls, res)" by (cases ?run)
  have "case ?run of (r', calls, res) \<Rightarrow> registrations calls = [''op'']" by code_simp
  then have "''op'' \<in> set (registrations calls)" by (simp add: run)
  then obtain i where i: "Register_Call i \<in> set calls" by (auto dest: registrations_call)
  have rows: "find_registration ''op'' (sample_registry ''FULL_ADMINISTRATOR'') = Some sample_operation"
    "find_domain ''dm'' (sample_registry ''FULL_ADMINISTRATOR'') = Some sample_domain"
    by (simp_all add: find_registration_def find_domain_def operations_of_def domains_of_def sample_registry_def
        sample_operation_def sample_domain_def)
  have "in_domainName i = dm_domainName sample_domain \<and>
      verifiedDomainInvoice (the (dm_invoiceId sample_domain)) (dm_customerId sample_domain) (rd_shared (sample_registry ''FULL_ADMINISTRATOR''))"
    using registration_sent_when_due [OF run i] rows by (auto simp: sample_operation_def)
  then show ?thesis using i by (auto simp: run sample_domain_def)
qed

theorem registered_only_when_observed_witness:
  "case observe ''op'' sample_locator sample_intent sample_provider 20 (sample_registry ''FULL_ADMINISTRATOR'') of
     (r', res) \<Rightarrow> \<exists>y. find_domain ''dm'' r' = Some y \<and> dm_state y = ''REGISTERED'' \<and> dm_expiresAt y = Some 5000"
proof -
  let ?r = "sample_registry ''FULL_ADMINISTRATOR''"
  let ?run = "observe ''op'' sample_locator sample_intent sample_provider 20 ?r"
  obtain r' res where run: "?run = (r', res)" by (cases ?run)
  have x: "find_domain ''dm'' ?r = Some sample_domain"
    by (simp add: find_domain_def domains_of_def sample_registry_def sample_domain_def)
  have "case ?run of (r', res) \<Rightarrow> (case find_domain ''dm'' r' of None \<Rightarrow> False | Some y \<Rightarrow> dm_state y = ''REGISTERED'')" by code_simp
  then obtain y where y: "find_domain ''dm'' r' = Some y" "dm_state y = ''REGISTERED''" by (auto simp: run split: option.splits)
  have "y \<noteq> sample_domain" using y(2) by (auto simp: sample_domain_def)
  then have "dm_expiresAt y = Some 5000"
    using registered_only_when_observed [OF run x y(1)] y(2) by (auto simp: sample_provider_def sample_observation_def)
  then show ?thesis using y by (simp add: run)
qed

definition sample_second_approval :: "api_error + registrar_db \<times> unit" where
  "sample_second_approval =
     approve_registration_tx sample_registrar_env ''dm''
       \<lparr>ai_confirmation = ''a.b'', ai_costCeiling = 900, ai_acceptPriceChangeRisk = False, ai_registrarAccountId = None\<rparr>
       \<lparr>rm_userId = ''b'', rm_role = ADMIN, rm_staffRole = Some ''FULL_ADMINISTRATOR'', rm_twoFactorEnabled = True\<rparr>
       \<lparr>an_domain = sample_domain, an_quote = sample_quote, an_selection = None, an_accountId = ''ra'',
        an_origin = \<lparr>rga_id = ''ra'', rga_provider = ''stargate'', rga_enabled = True, rga_mode = ''FAKE'', rga_configuration = None\<rparr>,
        an_credentialId = ''rc''\<rparr> 9 (sample_registry ''SUPPORT_OPERATOR'')"

theorem reapproval_keeps_approver_witness:
  "case sample_second_approval of
     Inl _ \<Rightarrow> False
   | Inr (r1, _) \<Rightarrow> operations_of r1 = [sample_operation] \<and>
       (case prepare_tx sample_registrar_env ''op'' 12 r1 of Inl _ \<Rightarrow> True | Inr (_, res) \<Rightarrow> res = None)"
proof -
  let ?r = "sample_registry ''SUPPORT_OPERATOR''"
  have "case sample_second_approval of Inl _ \<Rightarrow> False | Inr _ \<Rightarrow> True" by code_simp
  then obtain r1 u where run: "sample_second_approval = Inr (r1, u)" by (auto split: sum.splits)
  have ops: "operations_of ?r = [sample_operation]" by (simp add: operations_of_def sample_registry_def)
  have p: "operation_of_domain ''dm'' ?r = Some sample_operation"
    by (simp add: operation_of_domain_def ops sample_operation_def)
  have "\<not> eligible_approver (List.find (\<lambda>a. u_id a = ro_actorUserId sample_operation) (d_users (rd_shared ?r)))"
    by (simp add: eligible_approver_def sample_registry_def sample_operation_def sample_approver_def sample_user_def)
  from reapproval_keeps_approver [OF p _ run [unfolded sample_second_approval_def] this, of sample_registrar_env 12]
  show ?thesis by (simp add: ops run) (simp add: sample_operation_def)
qed

end
