(* ===== verification/Spec2Isabelle.thy ===== *)
theory Spec2Isabelle
  imports History Accounts Registrar
begin

text \<open>
  A verification development of the webhost-billing API (\<^verbatim>\<open>apps/api\<close>), its worker (\<^verbatim>\<open>apps/worker\<close>)
  and the packages they share (\<^verbatim>\<open>packages\<close>).

  \<^bold>\<open>The program.\<close> Customers order hosting and add-ons; an order opens an invoice; an invoice is
  paid by a proof an administrator verifies, or through a payment provider; a paid order becomes a service,
  whose renewals the worker bills, reminds of, and enforces by suspending the account on its hosting
  panel. The API and the worker meet in one PostgreSQL database: the API's transactions leave events in
  its outbox, the worker's dispatcher hands these to queues, and the jobs of the queues are transactions
  again. Accounts, sessions and second factors decide who may ask for what.

  \<^bold>\<open>The model.\<close> A transaction is a function from a database to an error or to a database and a
  result, \<open>db \<Rightarrow> api_error + db \<times> 'a\<close>. Transactions are atomic: one that fails leaves nothing, and the
  unique keys and CHECK constraints of the tables are branches of the writes. What is \<^emph>\<open>not\<close> atomic is kept
  apart: a handler that reads before it opens its transaction is a function of the state it has read and of
  the state its transaction finds (the definitions named \<open>_from\<close>), and a handler that waits for a provider or
  a panel is a function for each side of the wait. Histories and step relations interleave these pieces in
  any order.

  \<^bold>\<open>Theories\<close>, in the order in which they build on each other:
  \<^item> \<open>Prelude\<close>: results, rows, decimal strings, and the locale \<open>amount_codec\<close> of an amount's text.
  \<^item> \<open>Money\<close>: \<^verbatim>\<open>packages/shared/src/contracts/money.ts\<close>, \<^verbatim>\<open>currency-arithmetic.ts\<close>,
    \<^verbatim>\<open>payment-money.ts\<close>, \<^verbatim>\<open>money-input.ts\<close>; three interpretations of \<open>amount_codec\<close>.
  \<^item> \<open>Calendar\<close>: UTC dates, \<^verbatim>\<open>service-period.ts\<close>, \<^verbatim>\<open>renewal-calendar.ts\<close>; the locale
    \<open>billing_calendar\<close>, interpreted for the API's and for the worker's computation of a due date.
  \<^item> \<open>Database\<close>: the rows of \<^verbatim>\<open>schema.prisma\<close>, JSON, the constraints of the migrations, the Prisma calls.
  \<^item> \<open>Ledger\<close>: the specification of the books. Its steps say which changes of invoices and payments are
    accounting events, and its invariant what makes the books balance; the locales \<open>ledger_client\<close> and
    \<open>stale_client\<close> are what a transaction must show to be such steps.
  \<^item> \<open>Invoices\<close> (\<^verbatim>\<open>invoice.service.ts\<close>, \<^verbatim>\<open>invoice-number.ts\<close>), \<open>Payments\<close>
    (\<^verbatim>\<open>payment.service.ts\<close>, \<^verbatim>\<open>partial-payment-policy.ts\<close>), \<open>Gateways\<close>
    (\<^verbatim>\<open>payment-gateway.service.ts\<close>): each transaction is an interpretation of a ledger client.
  \<^item> \<open>Renewals\<close>: the scheduler and the processor of \<^verbatim>\<open>apps/worker/src/renewal\<close>; the locale
    \<open>renewal_action\<close> is the contract of the actions a cycle counts.
  \<^item> \<open>Outbox\<close>: routes and retries, the dispatcher (\<^verbatim>\<open>outbox-dispatcher.service.ts\<close>), the queues
    (\<^verbatim>\<open>packages/queue\<close>) and manual retries (\<^verbatim>\<open>background-job.service.ts\<close>).
  \<^item> \<open>Cancellations\<close> (\<^verbatim>\<open>hosting-cancellation.service.ts\<close>), \<open>Hosting\<close>
    (\<^verbatim>\<open>hosting-automation.service.ts\<close>), \<open>Hosting_Steps\<close> (its jobs at once), \<open>Hosting_Changes\<close> (what they do
    to the database).
  \<^item> \<open>Services\<close> (\<^verbatim>\<open>service.service.ts\<close>, \<^verbatim>\<open>service-add-ons.service.ts\<close>, \<^verbatim>\<open>fulfillment.ts\<close>) and
    \<open>Orders\<close> (\<^verbatim>\<open>order.service.ts\<close>, \<^verbatim>\<open>checkout-terms.ts\<close>).
  \<^item> \<open>History\<close>: all transactions of the above on one database.
  \<^item> \<open>Two_Factor\<close> (\<^verbatim>\<open>totp.service.ts\<close>), \<open>Sessions\<close>, \<open>Session_Revocation\<close> and \<open>Accounts\<close>
    (\<^verbatim>\<open>auth.service.ts\<close>, \<^verbatim>\<open>admin-session-policy.ts\<close>), on tables of their own beside the shared database.
  \<^item> \<open>Registrar\<close>: the job that registers a domain (\<^verbatim>\<open>packages/database/src/registrar/processor.ts\<close>), its
    approval and reconciliation (\<^verbatim>\<open>domain.service.ts\<close>).

  \<^bold>\<open>What is shown.\<close> The property that spans the billing components is in this theory: in every history the
  books balance and nothing verified is lost; so is the one that spans the lifecycle of a service: a
  completed cancellation is final. Each component adds its own: numbers and totals are exact; a payment is
  counted once, a repeated request is answered from the first; a period is billed once; an event published is
  a job queued, and a refused one is retried a bounded number of times; the panel is asked for a change once,
  although jobs overlap and crash; every suspension and reactivation has its reason; a second factor is used
  once, a revoked session stays revoked, guesses are bounded; a registration is sent once. Where the code breaks
  such a law, the theorem states the exact condition under which it holds, or the run that breaks it.

  \<^bold>\<open>Bounds.\<close> The functions recurse on lists or have a proved measure: there is no fuel. Amounts are
  integers, bounded by the checks that the code makes (BIGINT), instants are integers of milliseconds, and
  what \<^verbatim>\<open>totp.service.ts\<close> shifts are 32-bit words. Identifiers are drawn from a counter, so that they are new, random
  tokens are arguments; a clash is refused by the keys of the tables.

  \<^bold>\<open>Not modelled.\<close> Hashes, ciphers, time zones, \<open>Date.parse\<close>, the formats of Zod, Redis, providers,
  panels and registrars are parameters, of which nothing is assumed but what a theorem names. Left out: foreign
  keys and most triggers, listings and searches, the views \<open>toOrder\<close> and \<open>toService\<close> of a row, \<open>getCustomerProfile\<close>, the address hash in
  log rows, timers and process logs. Of orders, the branches for domains, existing domains and guests are left
  out. Contacts, name servers and renewals of domains, the hosting panels of the API, tickets, the catalogue,
  customers, staff, notifications, e-mail, documents, reports, currency adoption and the web application are not modelled.
\<close>

section \<open>The books\<close>

lemma books_rows:
  assumes "ledger_inv (ledger_of d)"
  shows "(\<forall>i \<in> set (d_invoices d). i_amountPaid i = settled (i_id i) (d_payments d) \<and>
      i_balanceDue i = i_total i - i_creditTotal i - i_amountPaid i \<and> 0 \<le> i_balanceDue i \<and>
      (i_status i = Inv_PAID \<longrightarrow> i_balanceDue i = 0)) \<and> distinct (billed_periods (d_invoices d))"
  using assms by (auto simp: ledger_of_def ledger_inv_iff rows_settled_def invoice_ok_def invoice_check_def)

lemma books_kept:
  assumes "persists (ledger_of e) (ledger_of d)"
  shows "i_id ` set (d_invoices e) \<subseteq> i_id ` set (d_invoices d) \<and>
    (\<forall>p \<in> set (d_payments e). p_status p = Pay_SUCCEEDED \<longrightarrow>
      (\<exists>q \<in> set (d_payments d). same_charge p q \<and> p_status q = Pay_SUCCEEDED))"
  using assms by (auto simp: persists_def ledger_of_def charge_kept_def)



section \<open>Cancelled services\<close>

text \<open>
  C2: once the cancellation of a service is completed, the service is down for good: in that state and in
  every later one it is terminated, or suspended with no invoice whose payment would reactivate it,
  whatever payments, reactivation jobs, administrators or other requests do in between.
\<close>

theorem cancelled_service_stays_down:
  assumes "history (later @ d' # earlier)" and "cancelled_down (last (d' # earlier))"
    and "distinct (map h_id (d_cancellations (last (d' # earlier))))"
    and "d = d' \<or> d \<in> set earlier" and "cancellation_completed k d"
  shows "\<exists>s. find_service k d' = Some s \<and>
    (s_status s = Svc_SUSPENDED \<and> s_suspensionInvoiceId s = None \<or> s_status s = Svc_TERMINATED)"
proof -
  have "cancellations_ok (later @ d' # earlier)"
    using history_cancellations [OF assms(1)] assms(2,3) by (simp add: request_ids_def split: if_splits)
  note down = down_for_good [OF this refl assms(4,5)]
  then obtain s where "s \<in> set (d_services d')" "s_id s = k"
    "s_status s = Svc_SUSPENDED \<and> s_suspensionInvoiceId s = None \<or> s_status s = Svc_TERMINATED"
    by (auto simp: service_down_def)
  then show ?thesis using find_key_eq [OF down(2)] by (auto simp: find_service_def)
qed

definition cancelled_db :: db where
  "cancelled_db = empty_db\<lparr>d_services := [(sample_service Svc_SUSPENDED None)\<lparr>s_suspensionReason := Some ''Cancelled''\<rparr>],
     d_servers := [whm_server], d_supply := 7, d_cancellations := [\<lparr>h_id = ''h'', h_serviceId = ''s'', h_timing = IMMEDIATE,
       h_status = Can_COMPLETED, h_reason = None, h_effectiveAt = None, h_approvedAt = Some 1, h_createdAt = 0,
       h_resolvedAt = Some 2\<rparr>]\<rparr>"

theorem cancelled_service_stays_down_witness:
  "case transition_tx ''s'' (To_TERMINATED ''abuse'') sample_actor 5 cancelled_db of
     Inl _ \<Rightarrow> False
   | Inr (d', _) \<Rightarrow> cancellation_completed ''s'' cancelled_db \<and> history [d', cancelled_db] \<and>
       (\<exists>s. find_service ''s'' d' = Some s \<and>
          (s_status s = Svc_SUSPENDED \<and> s_suspensionInvoiceId s = None \<or> s_status s = Svc_TERMINATED))"
proof -
  have "case transition_tx ''s'' (To_TERMINATED ''abuse'') sample_actor 5 cancelled_db of Inl _ \<Rightarrow> False | Inr _ \<Rightarrow> True"
    by code_simp
  then obtain d' u where run: "transition_tx ''s'' (To_TERMINATED ''abuse'') sample_actor 5 cancelled_db = Inr (d', u)"
    by (auto split: sum.splits)
  have hist: "history [d', cancelled_db]"
    by (rule history.intros(2) [OF history.intros(1), where d0 = cancelled_db]) (simp, rule service_changed [OF run])
  have completed: "cancellation_completed ''s'' cancelled_db" "distinct (map h_id (d_cancellations cancelled_db))"
    by (simp_all add: cancellation_completed_def cancelled_db_def empty_db_def)
  have "cancelled_down cancelled_db"
    by (auto simp: cancelled_down_def service_down_def cancelled_db_def empty_db_def sample_service_def cancellation_completed_def)
  then show ?thesis
    using cancelled_service_stays_down [of "[]" d' "[cancelled_db]" cancelled_db "''s''"] hist completed run by simp
qed

end
